(* ===== verification/Prelude.thy ===== *)
theory Prelude
  imports Main "HOL-Library.Word"
begin

text \<open>
  Shared vocabulary of the development: results as sums, the saturating and wrapping integer
  operations the Rust sources use, durations, and the string functions of Rust's standard library
  that several components call. The lemma collections named here carry the component proofs.
\<close>

named_theorems rust_arith "definitions of the Rust integer operations"
named_theorems step_defs "definitions that a step of a component unfolds to"

subsection \<open>Results\<close>

text \<open>Rust's \<open>Result<T, E>\<close> is \<open>'e + 'a\<close>; \<open>Err\<close> and \<open>Ok\<close> are its constructors.\<close>

abbreviation Err :: "'e \<Rightarrow> 'e + 'a" where "Err \<equiv> Inl"
abbreviation Ok :: "'a \<Rightarrow> 'e + 'a" where "Ok \<equiv> Inr"

definition is_ok :: "'e + 'a \<Rightarrow> bool" where
  "is_ok r = (case r of Inl _ \<Rightarrow> False | Inr _ \<Rightarrow> True)"

lemma is_ok_simps [simp]: "\<not> is_ok (Inl e)" "is_ok (Inr a)"
  by (simp_all add: is_ok_def)

definition unwrap_or :: "'a \<Rightarrow> 'e + 'a \<Rightarrow> 'a" where
  "unwrap_or d r = (case r of Inl _ \<Rightarrow> d | Inr a \<Rightarrow> a)"

lemma unwrap_or_simps [simp]: "unwrap_or d (Inl e) = d" "unwrap_or d (Inr a) = a"
  by (simp_all add: unwrap_or_def)

text \<open>\<open>?\<close>, and \<open>map_err\<close>.\<close>

definition and_then :: "'e + 'a \<Rightarrow> ('a \<Rightarrow> 'e + 'b) \<Rightarrow> 'e + 'b" where
  "and_then r f = (case r of Inl e \<Rightarrow> Err e | Inr a \<Rightarrow> f a)"

definition map_err :: "('e \<Rightarrow> 'f) \<Rightarrow> 'e + 'a \<Rightarrow> 'f + 'a" where
  "map_err g r = (case r of Inl e \<Rightarrow> Err (g e) | Inr a \<Rightarrow> Ok a)"

definition ok_or :: "'e \<Rightarrow> 'a option \<Rightarrow> 'e + 'a" where
  "ok_or e x = (case x of None \<Rightarrow> Err e | Some a \<Rightarrow> Ok a)"

lemma and_then_simps [simp]: "and_then (Inl e) f = Err e" "and_then (Inr a) f = f a"
  by (simp_all add: and_then_def)

lemma and_then_Ok: "and_then r f = Ok b \<longleftrightarrow> (\<exists>a. r = Ok a \<and> f a = Ok b)"
  by (cases r) simp_all

lemma map_err_simps [simp]: "map_err g (Inl e) = Err (g e)" "map_err g (Inr a) = Ok a"
  by (simp_all add: map_err_def)

lemma map_err_Ok [simp]: "map_err g r = Ok a \<longleftrightarrow> r = Ok a"
  by (cases r) simp_all

lemma ok_or_Ok [simp]: "ok_or e x = Ok a \<longleftrightarrow> x = Some a"
  by (cases x) (simp_all add: ok_or_def)

lemma ok_or_Some [simp]: "ok_or e (Some a) = Ok a" "ok_or e None = Err e"
  by (simp_all add: ok_or_def)

subsection \<open>Machine integers\<close>

text \<open>
  An unsigned 64-bit value is a \<open>nat\<close> below \<open>2 ^ 64\<close>, a signed one an \<open>int\<close> in range. Rust's plain
  \<open>+\<close> wraps in a release build (the build that ships), and the \<open>saturating_\<close> methods clamp.
\<close>

type_synonym u64 = nat
type_synonym u32 = nat
type_synonym i64 = int

definition u64_max :: u64 where "u64_max = 2 ^ 64 - 1"
definition u32_max :: u32 where "u32_max = 2 ^ 32 - 1"
definition i64_max :: i64 where "i64_max = 2 ^ 63 - 1"
definition i64_min :: i64 where "i64_min = - (2 ^ 63)"

definition u64_add :: "u64 \<Rightarrow> u64 \<Rightarrow> u64" where
  "u64_add a b = (a + b) mod 2 ^ 64"

definition u64_mul :: "u64 \<Rightarrow> u64 \<Rightarrow> u64" where
  "u64_mul a b = (a * b) mod 2 ^ 64"

definition u32_add :: "u32 \<Rightarrow> u32 \<Rightarrow> u32" where
  "u32_add a b = (a + b) mod 2 ^ 32"

definition u64_checked_sub :: "u64 \<Rightarrow> u64 \<Rightarrow> u64 option" where
  "u64_checked_sub a b = (if b \<le> a then Some (a - b) else None)"

definition i64_sat :: "int \<Rightarrow> i64" where
  "i64_sat x = max i64_min (min i64_max x)"

definition i64_add_sat :: "i64 \<Rightarrow> i64 \<Rightarrow> i64" where
  "i64_add_sat a b = i64_sat (a + b)"

definition i64_sub_sat :: "i64 \<Rightarrow> i64 \<Rightarrow> i64" where
  "i64_sub_sat a b = i64_sat (a - b)"

lemmas [rust_arith] = u64_max_def u32_max_def i64_max_def i64_min_def u64_add_def u64_mul_def
  u32_add_def u64_checked_sub_def i64_sat_def i64_add_sat_def i64_sub_sat_def

lemma u64_add_small: "a + b \<le> u64_max \<Longrightarrow> u64_add a b = a + b"
  by (simp add: rust_arith)

lemma u32_add_small: "a + b \<le> u32_max \<Longrightarrow> u32_add a b = a + b"
  by (simp add: rust_arith)

lemma u64_mul_small: "a * b \<le> u64_max \<Longrightarrow> u64_mul a b = a * b"
  by (simp add: rust_arith)

lemma i64_sat_id: "i64_min \<le> x \<Longrightarrow> x \<le> i64_max \<Longrightarrow> i64_sat x = x"
  by (simp add: i64_sat_def)

lemma i64_sat_range: "i64_min \<le> i64_sat x" "i64_sat x \<le> i64_max"
  by (simp_all add: rust_arith)

lemma i64_sat_mono: "x \<le> y \<Longrightarrow> i64_sat x \<le> i64_sat y"
  by (simp add: i64_sat_def)

subsection \<open>Durations\<close>

text \<open>
  \<open>core::time::Duration\<close> is whole seconds in a \<open>u64\<close> and nanoseconds below \<open>10 ^ 9\<close>; here it is the
  number of nanoseconds. \<open>+=\<close> panics past \<open>Duration::MAX\<close>, so a model that adds says why it cannot.
\<close>

type_synonym duration = nat

definition nanos :: nat where "nanos = 1000000000"
definition duration_max :: duration where "duration_max = (2 ^ 64 - 1) * 1000000000 + 999999999"
definition from_secs :: "u64 \<Rightarrow> duration" where "from_secs s = s * nanos"
definition as_secs :: "duration \<Rightarrow> u64" where "as_secs d = d div nanos"

definition duration_add_sat :: "duration \<Rightarrow> duration \<Rightarrow> duration" where
  "duration_add_sat a b = min duration_max (a + b)"

definition duration_mul_sat :: "duration \<Rightarrow> u32 \<Rightarrow> duration" where
  "duration_mul_sat a k = min duration_max (a * k)"

lemmas [rust_arith] = nanos_def duration_max_def from_secs_def as_secs_def
  duration_add_sat_def duration_mul_sat_def

lemma as_secs_from_secs [simp]: "as_secs (from_secs s) = s"
  by (simp add: rust_arith)

subsection \<open>Strings\<close>

text \<open>A Rust \<open>&str\<close> is its UTF-8 bytes; \<open>char\<close> here is one byte.\<close>

definition byte_of :: "char \<Rightarrow> nat" where "byte_of c = of_char c"

definition is_ascii_alphanumeric :: "char \<Rightarrow> bool" where
  "is_ascii_alphanumeric c =
     (let b = byte_of c
      in 48 \<le> b \<and> b \<le> 57 \<or> 65 \<le> b \<and> b \<le> 90 \<or> 97 \<le> b \<and> b \<le> 122)"

definition to_ascii_lower :: "char \<Rightarrow> char" where
  "to_ascii_lower c = (if 65 \<le> byte_of c \<and> byte_of c \<le> 90 then char_of (byte_of c + 32) else c)"

definition eq_ignore_ascii_case :: "string \<Rightarrow> string \<Rightarrow> bool" where
  "eq_ignore_ascii_case s t = (map to_ascii_lower s = map to_ascii_lower t)"

text \<open>\<open>str::strip_prefix\<close>.\<close>

fun strip_prefix :: "string \<Rightarrow> string \<Rightarrow> string option" where
  "strip_prefix [] s = Some s"
| "strip_prefix (p # ps) [] = None"
| "strip_prefix (p # ps) (c # cs) = (if p = c then strip_prefix ps cs else None)"

lemma strip_prefix_Some [simp]: "strip_prefix p s = Some r \<longleftrightarrow> s = p @ r"
  by (induction p s rule: strip_prefix.induct) auto

lemma strip_prefix_append [simp]: "strip_prefix p (p @ r) = Some r"
  by simp

definition starts_with :: "string \<Rightarrow> string \<Rightarrow> bool" where
  "starts_with s p = (strip_prefix p s \<noteq> None)"

lemma starts_with_iff: "starts_with s p \<longleftrightarrow> (\<exists>r. s = p @ r)"
  by (auto simp: starts_with_def)

text \<open>
  \<open>str::split\<close> with a one-byte separator: the pieces between separators, one more of them than there
  are separators, so \<open>''''\<close> splits into one empty piece.
\<close>

fun split_on :: "char \<Rightarrow> string \<Rightarrow> string list" where
  "split_on sep [] = [[]]"
| "split_on sep (c # cs) =
     (if c = sep then [] # split_on sep cs
      else (case split_on sep cs of [] \<Rightarrow> [[c]] | p # ps \<Rightarrow> (c # p) # ps))"

fun join_with :: "string \<Rightarrow> string list \<Rightarrow> string" where
  "join_with sep [] = []"
| "join_with sep [p] = p"
| "join_with sep (p # ps) = p @ sep @ join_with sep ps"

lemma split_on_nonempty [simp]: "split_on sep s \<noteq> []"
  by (induction s) (auto split: list.splits)

lemma join_with_Cons: "ps \<noteq> [] \<Longrightarrow> join_with sep (p # ps) = p @ sep @ join_with sep ps"
  by (cases ps) auto

lemma join_with_head: "join_with sep ((c # p) # ps) = c # join_with sep (p # ps)"
  by (cases ps) auto

lemma join_split: "join_with [sep] (split_on sep s) = s"
  by (induction s) (auto split: list.splits simp: join_with_Cons join_with_head)

lemma split_on_no_sep: "p \<in> set (split_on sep s) \<Longrightarrow> sep \<notin> set p"
  by (induction s arbitrary: p) (auto split: list.splits if_splits)

lemma split_on_one: "sep \<notin> set p \<Longrightarrow> split_on sep p = [p]"
  by (induction p) auto

lemma split_on_cons: "sep \<notin> set p \<Longrightarrow> split_on sep (p @ sep # s) = p # split_on sep s"
  by (induction p) auto

subsection \<open>Numbers as text\<close>

text \<open>\<open>{}\<close> of an unsigned integer: its decimal digits.\<close>

fun show_nat :: "nat \<Rightarrow> string" where
  "show_nat n = (if n < 10 then [char_of (48 + n)] else show_nat (n div 10) @ [char_of (48 + n mod 10)])"

declare show_nat.simps [simp del]

lemma show_nat_digits: "c \<in> set (show_nat n) \<Longrightarrow> 48 \<le> byte_of c \<and> byte_of c \<le> 57"
proof (induction n rule: show_nat.induct)
  case (1 n)
  then show ?case
    by (subst (asm) show_nat.simps) (auto simp: byte_of_def split: if_splits)
qed

text \<open>The value of decimal digits, and \<open>str::parse\<close> of an unsigned integer up to \<open>most\<close>: digits, after a plus sign at most.\<close>

definition is_digit :: "char \<Rightarrow> bool" where
  "is_digit c = (48 \<le> byte_of c \<and> byte_of c \<le> 57)"

definition digits_value :: "string \<Rightarrow> nat" where
  "digits_value ds = foldl (\<lambda>n c. 10 * n + (byte_of c - 48)) 0 ds"

definition parse_upto :: "nat \<Rightarrow> string \<Rightarrow> nat option" where
  "parse_upto most s =
     (let ds = (case s of [] \<Rightarrow> [] | c # cs \<Rightarrow> (if c = CHR ''+'' then cs else s))
      in if ds = [] \<or> \<not> list_all is_digit ds \<or> digits_value ds > most then None else Some (digits_value ds))"

definition parse_u64 :: "string \<Rightarrow> u64 option" where
  "parse_u64 s = parse_upto u64_max s"

lemma digits_value_append: "digits_value (ds @ [c]) = 10 * digits_value ds + (byte_of c - 48)"
  by (simp add: digits_value_def)

lemma show_nat_nonempty [simp]: "show_nat n \<noteq> []"
  by (subst show_nat.simps) simp

lemma digits_value_show_nat [simp]: "digits_value (show_nat n) = n"
proof (induction n rule: show_nat.induct)
  case (1 n)
  then show ?case
    by (subst show_nat.simps) (auto simp: digits_value_append digits_value_def byte_of_def)
qed

lemma all_digits_show_nat: "list_all is_digit (show_nat n)"
  using show_nat_digits by (auto simp: list_all_iff is_digit_def)

lemma parse_show_nat: "n \<le> most \<Longrightarrow> parse_upto most (show_nat n) = Some n"
proof -
  assume "n \<le> most"
  obtain c cs where s: "show_nat n = c # cs" by (cases "show_nat n") simp_all
  have "is_digit c" using all_digits_show_nat [of n] by (simp add: s)
  then have "c \<noteq> CHR ''+''" by (auto simp: is_digit_def byte_of_def)
  with \<open>n \<le> most\<close> show ?thesis
    using all_digits_show_nat [of n] digits_value_show_nat [of n] by (simp add: parse_upto_def s)
qed

subsection \<open>Paths\<close>

text \<open>\<open>Path::join\<close> with a relative component, on Unix.\<close>

definition path_join :: "string \<Rightarrow> string \<Rightarrow> string" where
  "path_join d s = (if d = [] then s else if last d = CHR ''/'' then d @ s else d @ ''/'' @ s)"

lemma path_join_inj: "path_join d s = path_join d s' \<Longrightarrow> s = s'"
  by (auto simp: path_join_def split: if_splits)

subsection \<open>Hash maps\<close>

text \<open>
  A \<open>HashMap\<close> as an association list with one entry per key. The order of the list is one of the
  orders an iteration may take; nothing proved depends on it.
\<close>

type_synonym ('k, 'v) hash_map = "('k \<times> 'v) list"

definition hm_get :: "('k, 'v) hash_map \<Rightarrow> 'k \<Rightarrow> 'v option" where
  "hm_get m k = map_of m k"

definition hm_contains :: "('k, 'v) hash_map \<Rightarrow> 'k \<Rightarrow> bool" where
  "hm_contains m k = (hm_get m k \<noteq> None)"

fun hm_insert :: "'k \<Rightarrow> 'v \<Rightarrow> ('k, 'v) hash_map \<Rightarrow> ('k, 'v) hash_map" where
  "hm_insert k v [] = [(k, v)]"
| "hm_insert k v ((k', v') # m) = (if k = k' then (k, v) # m else (k', v') # hm_insert k v m)"

definition hm_remove :: "'k \<Rightarrow> ('k, 'v) hash_map \<Rightarrow> ('k, 'v) hash_map" where
  "hm_remove k m = filter (\<lambda>kv. fst kv \<noteq> k) m"

text \<open>\<open>if let Some(v) = m.get_mut(k)\<close>.\<close>

definition hm_modify :: "'k \<Rightarrow> ('v \<Rightarrow> 'v) \<Rightarrow> ('k, 'v) hash_map \<Rightarrow> ('k, 'v) hash_map" where
  "hm_modify k f m = map (\<lambda>kv. if fst kv = k then (fst kv, f (snd kv)) else kv) m"

definition hm_values :: "('k, 'v) hash_map \<Rightarrow> 'v list" where
  "hm_values m = map snd m"

definition hm_ok :: "('k, 'v) hash_map \<Rightarrow> bool" where
  "hm_ok m = distinct (map fst m)"

lemma hm_get_insert [simp]: "hm_get (hm_insert k v m) k' = (if k' = k then Some v else hm_get m k')"
  by (induction k v m rule: hm_insert.induct) (auto simp: hm_get_def)

lemma hm_get_remove [simp]: "hm_get (hm_remove k m) k' = (if k' = k then None else hm_get m k')"
  by (induction m) (auto simp: hm_get_def hm_remove_def)

lemma hm_get_modify [simp]: "hm_get (hm_modify k f m) k' = (if k' = k then map_option f (hm_get m k') else hm_get m k')"
  by (induction m) (auto simp: hm_get_def hm_modify_def)

lemma hm_get_Nil [simp]: "hm_get [] k = None"
  by (simp add: hm_get_def)

lemma hm_keys_insert: "fst ` set (hm_insert k v m) = insert k (fst ` set m)"
  by (induction k v m rule: hm_insert.induct) auto

lemma hm_ok_insert [simp]: "hm_ok m \<Longrightarrow> hm_ok (hm_insert k v m)"
proof (induction k v m rule: hm_insert.induct)
  case (2 k v k' v' m)
  then show ?case using hm_keys_insert [of k v m] by (auto simp: hm_ok_def)
qed (simp add: hm_ok_def)

lemma hm_ok_remove [simp]: "hm_ok m \<Longrightarrow> hm_ok (hm_remove k m)"
  by (simp add: hm_ok_def hm_remove_def distinct_map_filter)

lemma hm_keys_modify [simp]: "map fst (hm_modify k f m) = map fst m"
  by (simp add: hm_modify_def)

lemma hm_ok_modify [simp]: "hm_ok (hm_modify k f m) = hm_ok m"
  by (simp add: hm_ok_def)

lemma hm_ok_Nil [simp]: "hm_ok []"
  by (simp add: hm_ok_def)

lemma hm_value_iff: "hm_ok m \<Longrightarrow> v \<in> set (hm_values m) \<longleftrightarrow> (\<exists>k. hm_get m k = Some v)"
  by (force simp: hm_ok_def hm_values_def hm_get_def)

text \<open>How many entries have a value with a property, as an entry is changed.\<close>

definition hm_count :: "('v \<Rightarrow> bool) \<Rightarrow> ('k, 'v) hash_map \<Rightarrow> nat" where
  "hm_count P m = length (filter P (hm_values m))"

lemma hm_modify_absent: "hm_get m k = None \<Longrightarrow> hm_modify k f m = m"
  by (induction m) (auto simp: hm_get_def hm_modify_def split: if_splits)

lemma hm_count_modify:
  "hm_ok m \<Longrightarrow> hm_get m k = Some v \<Longrightarrow>
     hm_count P (hm_modify k f m) + (if P v then 1 else 0) = hm_count P m + (if P (f v) then 1 else 0)"
proof (induction m)
  case (Cons kv m)
  show ?case
  proof (cases "fst kv = k")
    case True
    with Cons.prems have "hm_get m k = None" by (auto simp: hm_ok_def hm_get_def map_of_eq_None_iff)
    then have "hm_modify k f m = m" by (rule hm_modify_absent)
    with True Cons.prems show ?thesis by (auto simp: hm_count_def hm_values_def hm_modify_def hm_get_def)
  next
    case False
    with Cons show ?thesis by (auto simp: hm_count_def hm_values_def hm_modify_def hm_get_def hm_ok_def)
  qed
qed simp

lemma hm_count_insert_new:
  "hm_get m k = None \<Longrightarrow> hm_count P (hm_insert k v m) = hm_count P m + (if P v then 1 else 0)"
  by (induction k v m rule: hm_insert.induct) (auto simp: hm_count_def hm_values_def hm_get_def split: if_splits)

lemma hm_remove_length: "hm_ok m \<Longrightarrow> hm_get m k \<noteq> None \<Longrightarrow> Suc (length (hm_remove k m)) = length m"
proof (induction m)
  case (Cons kv m)
  show ?case
  proof (cases "fst kv = k")
    case True
    with Cons.prems(1) have "hm_remove k m = m"
      unfolding hm_remove_def hm_ok_def by (intro filter_True) (simp, metis imageI)
    with True show ?thesis by (simp add: hm_remove_def)
  next
    case False
    with Cons show ?thesis by (auto simp: hm_ok_def hm_remove_def hm_get_def)
  qed
qed simp

lemma hm_insert_length_new: "hm_get m k = None \<Longrightarrow> length (hm_insert k v m) = Suc (length m)"
  by (induction k v m rule: hm_insert.induct) (auto simp: hm_get_def split: if_splits)

end
