(* ===== verification/Credential.thy ===== *)
theory Credential
  imports Prelude
begin

text \<open>
  \<open>crates/erpc-auth/src/credential.rs\<close>: audiences, the key a session is filed under, the session
  itself with its expiry, and the shape check a token must pass before it is kept.
\<close>

subsection \<open>Audiences and keys\<close>

datatype audience = AuthApi | McpUserApi

fun audience_as_str :: "audience \<Rightarrow> string" where
  "audience_as_str AuthApi = ''auth-api''"
| "audience_as_str McpUserApi = ''mcp-user-api''"

fun issuer_host :: "audience \<Rightarrow> string" where
  "issuer_host AuthApi = ''auth-api.erpc.global''"
| "issuer_host McpUserApi = ''mcp-user-api.erpc.global''"

definition all_audiences :: "audience list" where
  "all_audiences = [AuthApi, McpUserApi]"

record cred_key =
  ck_audience :: audience
  ck_account :: string

definition keychain_account :: "cred_key \<Rightarrow> string" where
  "keychain_account k = audience_as_str (ck_audience k) @ '':'' @ ck_account k"

subsection \<open>Sessions\<close>

type_synonym token = string

record credential =
  access_token :: token
  refresh_token :: token
  expires_at :: i64

definition refresh_margin_secs :: i64 where "refresh_margin_secs = 60"

definition needs_refresh :: "credential \<Rightarrow> i64 \<Rightarrow> bool" where
  "needs_refresh c now = (now \<ge> i64_sub_sat (expires_at c) refresh_margin_secs)"

definition is_expired :: "credential \<Rightarrow> i64 \<Rightarrow> bool" where
  "is_expired c now = (now \<ge> expires_at c)"

subsection \<open>Token shape\<close>

datatype token_shape_error = TokenEmpty | NotThreeParts | NotBase64Url

definition is_base64url :: "string \<Rightarrow> bool" where
  "is_base64url s =
     list_all (\<lambda>b. is_ascii_alphanumeric b \<or> b = CHR ''-'' \<or> b = CHR ''_'' \<or> b = CHR ''='') s"

definition check_token_shape :: "string \<Rightarrow> token_shape_error + unit" where
  "check_token_shape tok =
     (if tok = [] then Err TokenEmpty
      else case split_on (CHR ''.'') tok of
        [header, payload, signature] \<Rightarrow>
          (if header = [] \<or> \<not> is_base64url header then Err NotBase64Url
           else if payload = [] \<or> \<not> is_base64url payload then Err NotBase64Url
           else if \<not> is_base64url signature then Err NotBase64Url
           else Ok ())
      | _ \<Rightarrow> Err NotThreeParts)"

subsection \<open>Lemmas\<close>

lemma keychain_account_inj:
  "keychain_account k = keychain_account k' \<Longrightarrow> ck_audience k = ck_audience k' \<and> ck_account k = ck_account k'"
  by (cases "ck_audience k"; cases "ck_audience k'") (simp_all add: keychain_account_def)

lemma needs_refresh_of_expired: "is_expired c now \<Longrightarrow> i64_min \<le> now \<Longrightarrow> expires_at c \<le> i64_max \<Longrightarrow> needs_refresh c now"
  by (auto simp: is_expired_def needs_refresh_def refresh_margin_secs_def rust_arith)

text \<open>
  A session that is used without a refresh is good for another minute, up to the saturation of the
  subtraction at the earliest time an \<open>i64\<close> can name.
\<close>

lemma not_needs_refresh_margin:
  assumes "\<not> needs_refresh c now" and "expires_at c \<le> i64_max" and "i64_min \<le> now"
  shows "now + 60 < expires_at c"
  using assms by (auto simp: needs_refresh_def refresh_margin_secs_def rust_arith max_def min_def split: if_splits)

lemma check_token_shape_Ok:
  "check_token_shape tok = Ok u \<longleftrightarrow>
     (\<exists>h p s. split_on (CHR ''.'') tok = [h, p, s] \<and> h \<noteq> [] \<and> p \<noteq> [] \<and>
        is_base64url h \<and> is_base64url p \<and> is_base64url s)"
  by (cases tok) (auto simp: check_token_shape_def split: list.splits if_splits)

text \<open>A token that passes is exactly three base64url parts joined by dots, the first two not empty.\<close>

lemma check_token_shape_parts:
  "check_token_shape tok = Ok u \<Longrightarrow>
     \<exists>h p s. tok = h @ ''.'' @ p @ ''.'' @ s \<and> h \<noteq> [] \<and> p \<noteq> [] \<and>
        is_base64url h \<and> is_base64url p \<and> is_base64url s"
proof -
  assume "check_token_shape tok = Ok u"
  then obtain h p s where parts: "split_on (CHR ''.'') tok = [h, p, s]" "h \<noteq> []" "p \<noteq> []"
      "is_base64url h" "is_base64url p" "is_base64url s"
    by (auto simp: check_token_shape_Ok)
  from join_split [of "CHR ''.''" tok] parts(1) have "tok = h @ ''.'' @ p @ ''.'' @ s"
    by simp
  with parts show ?thesis by blast
qed

lemma base64url_no_dot: "is_base64url s \<Longrightarrow> CHR ''.'' \<notin> set s"
proof
  assume "is_base64url s" and "CHR ''.'' \<in> set s"
  then have "is_ascii_alphanumeric (CHR ''.'')" by (auto simp: is_base64url_def list_all_iff)
  then show False by (simp add: is_ascii_alphanumeric_def byte_of_def)
qed

text \<open>And the converse: every token of that form passes.\<close>

lemma check_token_shape_complete:
  assumes "h \<noteq> []" and "p \<noteq> []" and "is_base64url h" and "is_base64url p" and "is_base64url s"
  shows "check_token_shape (h @ ''.'' @ p @ ''.'' @ s) = Ok ()"
proof -
  have "split_on (CHR ''.'') (h @ ''.'' @ p @ ''.'' @ s) = [h, p, s]"
    using assms(3-5) by (simp add: split_on_cons split_on_one base64url_no_dot)
  with assms show ?thesis by (simp add: check_token_shape_Ok)
qed

end
