(* ===== verification/Store.thy ===== *)
theory Store
  imports Credential
begin

text \<open>
  \<open>crates/erpc-auth/src/store/mod.rs\<close> and \<open>store/select.rs\<close>: the kinds of store and their names, the
  errors, the interface every store has (the \<open>CredentialStore\<close> trait, here a record of operations
  with its contract as a locale), and the choice of a store.
\<close>

subsection \<open>Kinds and errors\<close>

datatype store_kind = OnePasswordDesktop | OnePasswordServiceAccount | OsKeychain | FileKind

fun kind_as_str :: "store_kind \<Rightarrow> string" where
  "kind_as_str OnePasswordDesktop = ''1password-desktop''"
| "kind_as_str OnePasswordServiceAccount = ''1password-service-account''"
| "kind_as_str OsKeychain = ''keychain''"
| "kind_as_str FileKind = ''file''"

fun writes_secrets_to_disk :: "store_kind \<Rightarrow> bool" where
  "writes_secrets_to_disk FileKind = True"
| "writes_secrets_to_disk _ = False"

definition kind_parse :: "string \<Rightarrow> store_kind option" where
  "kind_parse name =
     (if name = ''1password-desktop'' \<or> name = ''1password'' \<or> name = ''op'' then Some OnePasswordDesktop
      else if name = ''1password-service-account'' then Some OnePasswordServiceAccount
      else if name = ''keychain'' then Some OsKeychain
      else if name = ''file'' then Some FileKind
      else None)"

datatype store_error =
    Unavailable store_kind string
  | UnknownVersion u32 u32
  | Corrupt string
  | Backend store_kind string string

definition non_empty :: "token \<Rightarrow> token \<Rightarrow> store_error + unit" where
  "non_empty access refresh =
     (if access = [] \<or> refresh = [] then Err (Corrupt ''the record has an empty token field'') else Ok ())"

subsection \<open>The record a session is kept as\<close>

definition store_version :: u32 where "store_version = 1"

record stored_credential =
  sc_version :: u32
  sc_access_token :: token
  sc_refresh_token :: token
  sc_expires_at :: i64

subsection \<open>Choosing a store\<close>

record environment =
  env_service_account_token :: bool
  env_keychain_available :: bool

definition environment_none :: environment where
  "environment_none = \<lparr>env_service_account_token = False, env_keychain_available = False\<rparr>"

datatype reason = Requested | Configured | ServiceAccountToken | KeychainDefault | NothingElseAvailable

record selection =
  sel_kind :: store_kind
  sel_reason :: reason

definition warns :: "selection \<Rightarrow> bool" where
  "warns s = writes_secrets_to_disk (sel_kind s)"

definition choose_store :: "environment \<Rightarrow> store_kind option \<Rightarrow> store_kind option \<Rightarrow> selection" where
  "choose_store env requested configured =
     (case requested of
        Some kind \<Rightarrow> \<lparr>sel_kind = kind, sel_reason = Requested\<rparr>
      | None \<Rightarrow>
         (case configured of
            Some kind \<Rightarrow> \<lparr>sel_kind = kind, sel_reason = Configured\<rparr>
          | None \<Rightarrow>
             (if env_service_account_token env then
                \<lparr>sel_kind = OnePasswordServiceAccount, sel_reason = ServiceAccountToken\<rparr>
              else if env_keychain_available env then
                \<lparr>sel_kind = OsKeychain, sel_reason = KeychainDefault\<rparr>
              else \<lparr>sel_kind = FileKind, sel_reason = NothingElseAvailable\<rparr>)))"

subsection \<open>The interface\<close>

text \<open>
  \<open>trait CredentialStore\<close>: operations on a store's state \<open>'w\<close>. A store is shared between processes
  and its operations can fail, so every one of them returns the state it leaves.
\<close>

record 'w store_ops =
  op_load :: "cred_key \<Rightarrow> 'w \<Rightarrow> (store_error + credential option) \<times> 'w"
  op_save :: "cred_key \<Rightarrow> credential \<Rightarrow> 'w \<Rightarrow> (store_error + unit) \<times> 'w"
  op_delete :: "cred_key \<Rightarrow> 'w \<Rightarrow> (store_error + unit) \<times> 'w"
  op_kind :: store_kind

text \<open>What a store holds under a key, whatever a read of it says at one moment.\<close>

datatype slot = Vacant | Held credential | Illegible

definition usable :: "credential \<Rightarrow> bool" where
  "usable c \<longleftrightarrow> access_token c \<noteq> [] \<and> refresh_token c \<noteq> []"

text \<open>The errors that describe the record rather than the store: a writer may replace such a record.\<close>

fun illegible_error :: "store_error \<Rightarrow> bool" where
  "illegible_error (Corrupt why) = True"
| "illegible_error (UnknownVersion found expected) = True"
| "illegible_error (Unavailable kind why) = False"
| "illegible_error (Backend kind operation why) = False"

text \<open>
  The contract of the trait's documentation: a read changes nothing and reports what is held; a save
  replaces atomically, so one that fails leaves the old session or, when it failed after the fact,
  the new one; a failed removal leaves the session or has removed it.
\<close>

locale credential_store =
  fixes ops :: "'w store_ops"
    and holds :: "'w \<Rightarrow> cred_key \<Rightarrow> slot"
  assumes load_keeps: "op_load ops k w = (r, w') \<Longrightarrow> holds w' = holds w"
    and load_Some: "op_load ops k w = (Ok (Some c), w') \<Longrightarrow> holds w k = Held c"
    and load_None: "op_load ops k w = (Ok None, w') \<Longrightarrow> holds w k = Vacant"
    and load_Err: "op_load ops k w = (Err e, w') \<Longrightarrow> illegible_error e \<Longrightarrow> holds w k = Illegible"
    and save_Ok: "op_save ops k c w = (Ok u, w') \<Longrightarrow> usable c \<Longrightarrow> holds w' k = Held c"
    and save_Err: "op_save ops k c w = (Err e, w') \<Longrightarrow> usable c \<Longrightarrow> holds w' k = holds w k \<or> holds w' k = Held c"
    and save_frame: "op_save ops k c w = (rs, w') \<Longrightarrow> ck_audience k' \<noteq> ck_audience k \<or> ck_account k' \<noteq> ck_account k \<Longrightarrow>
          holds w' k' = holds w k' \<or> holds w k' = Illegible"
    and delete_Ok: "op_delete ops k w = (Ok u, w') \<Longrightarrow> holds w' k = Vacant"
    and delete_Err: "op_delete ops k w = (Err e, w') \<Longrightarrow> holds w' k = holds w k \<or> holds w' k = Vacant"
    and delete_frame: "op_delete ops k w = (rs, w') \<Longrightarrow> ck_audience k' \<noteq> ck_audience k \<or> ck_account k' \<noteq> ck_account k \<Longrightarrow>
          holds w' k' = holds w k' \<or> holds w k' = Illegible"
begin

lemma load_after_save:
  "op_save ops k c w = (Ok u, w1) \<Longrightarrow> usable c \<Longrightarrow> op_load ops k w1 = (Ok found, w2) \<Longrightarrow> found = Some c"
  using save_Ok [of k c w u w1] load_Some [of k w1 _ w2] load_None [of k w1 w2] by (cases found) auto

lemma load_after_delete:
  "op_delete ops k w = (Ok u, w1) \<Longrightarrow> op_load ops k w1 = (Ok found, w2) \<Longrightarrow> found = None"
  using delete_Ok [of k w u w1] load_Some [of k w1 _ w2] by (cases found) auto

end

subsection \<open>Lemmas\<close>

lemma kind_parse_as_str: "kind_parse (kind_as_str k) = Some k"
  by (cases k) (simp_all add: kind_parse_def)

lemma non_empty_Ok: "non_empty a r = Ok u \<longleftrightarrow> a \<noteq> [] \<and> r \<noteq> []"
  by (simp add: non_empty_def)

lemma choose_store_file_iff:
  "sel_kind (choose_store env requested configured) = FileKind \<longleftrightarrow>
     requested = Some FileKind \<or> requested = None \<and> (configured = Some FileKind \<or>
       configured = None \<and> \<not> env_service_account_token env \<and> \<not> env_keychain_available env)"
  by (auto simp: choose_store_def split: option.splits)

end
