(* ===== verification/Parked.thy ===== *)
theory Parked
  imports Store
begin

text \<open>
  \<open>crates/erpc-auth/src/lock.rs\<close>: the lock a refresh runs under and the file a rotated session is
  parked in when the store will not take it. SHA-256 is the \<open>sha2\<close> crate's and TOML the \<open>toml\<close>
  crate's: both are parameters (\<open>crates\<close>), and a file this program wrote is kept as the record written.
\<close>

definition parked_version :: u32 where "parked_version = 2"

record parked_record =
  pr_version :: u32
  pr_access_token :: token
  pr_refresh_token :: token
  pr_expires_at :: i64
  pr_replaces :: string

record parked =
  pk_credential :: credential
  pk_replaces :: string

record 't crates =
  fingerprint :: "token \<Rightarrow> string"
  parse_parked :: "'t \<Rightarrow> string + parked_record"

datatype 't parked_file = NoFile | ParkedWritten parked_record | ParkedForeign 't

subsection \<open>What a parked session says of the store\<close>

definition supersedes :: "'t crates \<Rightarrow> parked \<Rightarrow> credential option \<Rightarrow> bool" where
  "supersedes cr p held = (case held of None \<Rightarrow> False | Some h \<Rightarrow> fingerprint cr (refresh_token h) = pk_replaces p)"

definition is_held_in :: "'t crates \<Rightarrow> parked \<Rightarrow> credential option \<Rightarrow> bool" where
  "is_held_in cr p held =
     (case held of
        None \<Rightarrow> False
      | Some h \<Rightarrow> fingerprint cr (refresh_token h) = fingerprint cr (refresh_token (pk_credential p)))"

definition parked_record_of :: "'t crates \<Rightarrow> credential \<Rightarrow> credential \<Rightarrow> parked_record" where
  "parked_record_of cr c replaced =
     \<lparr>pr_version = parked_version, pr_access_token = access_token c, pr_refresh_token = refresh_token c,
      pr_expires_at = expires_at c, pr_replaces = fingerprint cr (refresh_token replaced)\<rparr>"

definition parked_of_record :: "parked_record \<Rightarrow> store_error + parked" where
  "parked_of_record r =
     (if pr_version r \<noteq> parked_version then Err (UnknownVersion (pr_version r) parked_version)
      else case non_empty (pr_access_token r) (pr_refresh_token r) of
        Inl e \<Rightarrow> Err e
      | Inr _ \<Rightarrow> Ok \<lparr>pk_credential = \<lparr>access_token = pr_access_token r, refresh_token = pr_refresh_token r,
                        expires_at = pr_expires_at r\<rparr>, pk_replaces = pr_replaces r\<rparr>)"

subsection \<open>The machine a command runs on\<close>

text \<open>
  The store, the parked file of each audience, the failures of the file system still to come (taken in
  the order the code makes its calls; an empty list is no more failures), the issuer's answers to
  revocations still to come (an empty list: it agrees), and the revocations asked for, with the answer.
\<close>

record ('w, 't) machine =
  ma_store :: 'w
  ma_parked :: "audience \<Rightarrow> 't parked_file"
  ma_faults :: "bool list"
  ma_answers :: "bool list"
  ma_revoked :: "(audience \<times> token \<times> bool) list"

definition next_fault :: "('w, 't) machine \<Rightarrow> bool \<times> ('w, 't) machine" where
  "next_fault m = (case ma_faults m of [] \<Rightarrow> (False, m) | b # bs \<Rightarrow> (b, m\<lparr>ma_faults := bs\<rparr>))"

definition lock_backend :: "string \<Rightarrow> store_error" where
  "lock_backend operation = Backend FileKind operation ''input/output error''"

text \<open>\<open>ExclusiveLock::acquire\<close>: it waits for the lock, so it fails only for the file system.\<close>

definition acquire :: "('w, 't) machine \<Rightarrow> (store_error + unit) \<times> ('w, 't) machine" where
  "acquire m = (case next_fault m of (bad, m1) \<Rightarrow> (if bad then Err (lock_backend ''take the lock'') else Ok (), m1))"

definition park_credential ::
  "'t crates \<Rightarrow> audience \<Rightarrow> credential \<Rightarrow> credential \<Rightarrow> ('w, 't) machine \<Rightarrow> (store_error + unit) \<times> ('w, 't) machine" where
  "park_credential cr aud c replaced m =
     (case next_fault m of (bad, m1) \<Rightarrow>
       (if bad then (Err (lock_backend ''place the parked session''), m1)
        else (Ok (), m1\<lparr>ma_parked := (ma_parked m1)(aud := ParkedWritten (parked_record_of cr c replaced))\<rparr>)))"

definition read_parked :: "'t crates \<Rightarrow> audience \<Rightarrow> ('w, 't) machine \<Rightarrow> (store_error + parked option) \<times> ('w, 't) machine" where
  "read_parked cr aud m =
     (case ma_parked m aud of
        NoFile \<Rightarrow> (Ok None, m)
      | f \<Rightarrow>
         (case next_fault m of (bad, m1) \<Rightarrow>
           (if bad then Err (lock_backend ''read the parked session'')
            else case (case f of ParkedForeign t \<Rightarrow> parse_parked cr t | ParkedWritten r \<Rightarrow> Ok r | NoFile \<Rightarrow> Err []) of
              Inl why \<Rightarrow> Err (Corrupt why)
            | Inr r \<Rightarrow> map_sum id Some (parked_of_record r), m1)))"

definition clear_parked :: "audience \<Rightarrow> ('w, 't) machine \<Rightarrow> (store_error + unit) \<times> ('w, 't) machine" where
  "clear_parked aud m =
     (case ma_parked m aud of
        NoFile \<Rightarrow> (Ok (), m)
      | _ \<Rightarrow>
         (case next_fault m of (bad, m1) \<Rightarrow>
           (if bad then (Err (lock_backend ''remove the parked session''), m1)
            else (Ok (), m1\<lparr>ma_parked := (ma_parked m1)(aud := NoFile)\<rparr>))))"

subsection \<open>Lemmas\<close>

text \<open>What the parked file would read as, were it read now without a failure.\<close>

definition parked_content :: "'t crates \<Rightarrow> 't parked_file \<Rightarrow> parked option" where
  "parked_content cr f =
     (case f of
        NoFile \<Rightarrow> None
      | ParkedWritten r \<Rightarrow> (case parked_of_record r of Inl e \<Rightarrow> None | Inr p \<Rightarrow> Some p)
      | ParkedForeign t \<Rightarrow>
         (case parse_parked cr t of
            Inl why \<Rightarrow> None
          | Inr r \<Rightarrow> (case parked_of_record r of Inl e \<Rightarrow> None | Inr p \<Rightarrow> Some p)))"

lemma next_fault_frame [simp]:
  assumes "next_fault m = (b, m')"
  shows "ma_store m' = ma_store m" "ma_parked m' = ma_parked m" "ma_answers m' = ma_answers m" "ma_revoked m' = ma_revoked m"
  using assms by (auto simp: next_fault_def split: list.splits)

lemma acquire_frame:
  assumes "acquire m = (r, m')"
  shows "ma_store m' = ma_store m" "ma_parked m' = ma_parked m" "ma_revoked m' = ma_revoked m" "ma_answers m' = ma_answers m"
  using assms by (auto simp: acquire_def split: prod.splits)

lemma read_parked_frame:
  assumes "read_parked cr aud m = (r, m')"
  shows "ma_store m' = ma_store m" "ma_parked m' = ma_parked m" "ma_revoked m' = ma_revoked m" "ma_answers m' = ma_answers m"
  using assms by (auto simp: read_parked_def split: parked_file.splits prod.splits)

lemma read_parked_Some:
  "read_parked cr aud m = (Ok (Some p), m') \<Longrightarrow> parked_content cr (ma_parked m aud) = Some p"
  by (auto simp: read_parked_def parked_content_def map_sum_def split: parked_file.splits prod.splits if_splits sum.splits)

lemma map_sum_Some_not_None: "map_sum id Some r \<noteq> Ok None"
  by (cases r) auto

lemma read_parked_None: "read_parked cr aud m = (Ok None, m') \<Longrightarrow> ma_parked m aud = NoFile"
  by (auto simp: read_parked_def map_sum_Some_not_None split: parked_file.splits prod.splits if_splits sum.splits)

lemma clear_parked_result:
  "clear_parked aud m = (r, m') \<Longrightarrow>
     ma_store m' = ma_store m \<and> ma_revoked m' = ma_revoked m \<and> ma_answers m' = ma_answers m \<and>
     (case r of
        Inr u \<Rightarrow> ma_parked m' = (ma_parked m)(aud := NoFile)
      | Inl e \<Rightarrow> ma_parked m' = ma_parked m)"
  by (auto simp: clear_parked_def fun_upd_idem split: parked_file.splits prod.splits if_splits)

lemma park_credential_result:
  "park_credential cr aud c old m = (r, m') \<Longrightarrow>
     ma_store m' = ma_store m \<and> ma_revoked m' = ma_revoked m \<and> ma_answers m' = ma_answers m \<and>
     (case r of
        Inr u \<Rightarrow> ma_parked m' = (ma_parked m)(aud := ParkedWritten (parked_record_of cr c old))
      | Inl e \<Rightarrow> ma_parked m' = ma_parked m)"
  by (auto simp: park_credential_def split: prod.splits if_splits)

text \<open>What is parked reads back as it was parked.\<close>

lemma parked_roundtrip:
  "usable c \<Longrightarrow> parked_content cr (ParkedWritten (parked_record_of cr c old)) =
     Some \<lparr>pk_credential = c, pk_replaces = fingerprint cr (refresh_token old)\<rparr>"
  by (simp add: parked_content_def parked_of_record_def parked_record_of_def usable_def non_empty_def)

lemma parked_content_usable: "parked_content cr f = Some p \<Longrightarrow> usable (pk_credential p)"
  by (auto simp: parked_content_def parked_of_record_def usable_def non_empty_def
      split: parked_file.splits sum.splits if_splits)

lemma supersedes_Some: "supersedes cr p held \<longleftrightarrow> (\<exists>h. held = Some h \<and> fingerprint cr (refresh_token h) = pk_replaces p)"
  by (simp add: supersedes_def split: option.splits)

end
