(* ===== verification/Device_Flow.thy ===== *)
theory Device_Flow
  imports Credential
begin

text \<open>
  \<open>crates/erpc-auth/src/device_flow.rs\<close> and the loop that drives it, \<open>run_device_grant\<close> of
  \<open>session.rs\<close>: the polling state of one sign-in, what each answer of the issuer does to it, and the
  check of the page an operator may be sent to.
\<close>

subsection \<open>Constants\<close>

definition min_interval :: duration where "min_interval = from_secs 5"
definition slow_down_step :: duration where "slow_down_step = from_secs 5"
definition max_interval :: duration where "max_interval = from_secs 60"
definition request_timeout :: duration where "request_timeout = from_secs 30"
definition client_id :: string where "client_id = ''erpc-cli''"
definition scope :: string where "scope = ''openid profile email''"

lemmas poll_consts = min_interval_def slow_down_step_def max_interval_def

subsection \<open>Messages\<close>

record device_authorization =
  da_device_code :: string
  da_user_code :: string
  da_verification_uri :: string
  da_verification_uri_complete :: "string option"
  da_expires_in :: duration
  da_interval :: duration

definition open_url :: "device_authorization \<Rightarrow> string" where
  "open_url a = (case da_verification_uri_complete a of Some u \<Rightarrow> u | None \<Rightarrow> da_verification_uri a)"

datatype poll_outcome =
    PollPending
  | PollSlowDown
  | PollApproved token token duration
  | PollDenied
  | PollExpired
  | PollFailed string
  | PollNetworkError

datatype login_error = LoginDenied | LoginExpired | LoginServer string | LoginBadToken token_shape_error

record approved =
  ap_access_token :: token
  ap_refresh_token :: token
  ap_expires_in :: duration

datatype next_action = Wait duration | Stop "login_error + approved"

subsection \<open>The poller\<close>

record poller =
  po_interval :: duration
  po_elapsed :: duration
  po_budget :: duration

definition back_off :: "duration \<Rightarrow> duration \<Rightarrow> duration" where
  "back_off current proposed = max (min proposed max_interval) current"

definition poller_new :: "device_authorization \<Rightarrow> poller" where
  "poller_new a = \<lparr>po_interval = max (da_interval a) min_interval, po_elapsed = 0, po_budget = da_expires_in a\<rparr>"

definition remaining :: "poller \<Rightarrow> duration" where
  "remaining p = po_budget p - po_elapsed p"

text \<open>\<open>+=\<close> on the elapsed time cannot pass \<open>Duration::MAX\<close>: it stays below the budget.\<close>

definition advance :: "poller \<Rightarrow> next_action \<times> poller" where
  "advance p =
     (if remaining p \<le> po_interval p then (Stop (Err LoginExpired), p)
      else (Wait (po_interval p), p\<lparr>po_elapsed := po_elapsed p + po_interval p\<rparr>))"

fun next_wait :: "poller \<Rightarrow> poll_outcome \<Rightarrow> next_action \<times> poller" where
  "next_wait p (PollApproved at rt ex) =
     (case check_token_shape at of
        Inl e \<Rightarrow> (Stop (Err (LoginBadToken e)), p)
      | Inr _ \<Rightarrow>
         (case check_token_shape rt of
            Inl e \<Rightarrow> (Stop (Err (LoginBadToken e)), p)
          | Inr _ \<Rightarrow>
             (Stop (Ok \<lparr>ap_access_token = at, ap_refresh_token = rt, ap_expires_in = ex\<rparr>), p)))"
| "next_wait p PollDenied = (Stop (Err LoginDenied), p)"
| "next_wait p PollExpired = (Stop (Err LoginExpired), p)"
| "next_wait p (PollFailed code) = (Stop (Err (LoginServer code)), p)"
| "next_wait p PollPending = advance p"
| "next_wait p PollSlowDown =
     advance (p\<lparr>po_interval := duration_add_sat (po_interval p) slow_down_step\<rparr>)"
| "next_wait p PollNetworkError =
     advance (p\<lparr>po_interval := back_off (po_interval p) (duration_mul_sat (po_interval p) 2)\<rparr>)"

subsection \<open>The sign-in loop\<close>

text \<open>
  \<open>run_device_grant\<close> after the authorization request has been answered: the issuer's answers are the
  functions \<open>poll\<close> (the answer to the n-th request) and \<open>took\<close> (the time from sending it to having its answer, or to
  giving it up), the result is the outcome together with the waits made, in order, and the time that passed in
  requests and waits. \<open>None\<close> is fuel that ran out; \<open>grant_loop_terminates\<close> gives the fuel that never does.
\<close>

fun grant_loop ::
  "nat \<Rightarrow> (nat \<Rightarrow> poll_outcome) \<Rightarrow> (nat \<Rightarrow> duration) \<Rightarrow> nat \<Rightarrow> poller \<Rightarrow> ((login_error + approved) \<times> duration list \<times> duration) option" where
  "grant_loop 0 poll took n p = None"
| "grant_loop (Suc fuel) poll took n p =
     (case next_wait p (poll n) of
        (Wait d, p') \<Rightarrow> map_option (\<lambda>(r, ws, t). (r, d # ws, took n + d + t)) (grant_loop fuel poll took (Suc n) p')
      | (Stop r, p') \<Rightarrow> Some (r, [], took n))"

definition grant_fuel :: "device_authorization \<Rightarrow> nat" where
  "grant_fuel a = Suc (da_expires_in a div min_interval)"

definition run_device_grant ::
  "(nat \<Rightarrow> poll_outcome) \<Rightarrow> (nat \<Rightarrow> duration) \<Rightarrow> device_authorization \<Rightarrow> ((login_error + approved) \<times> duration list \<times> duration) option" where
  "run_device_grant poll took a = grant_loop (grant_fuel a) poll took 0 (poller_new a)"

subsection \<open>Endpoints and the verification page\<close>

fun endpoint_authorization :: "audience \<Rightarrow> string" where
  "endpoint_authorization AuthApi = ''https://auth-api.erpc.global/oauth/device/authorization''"
| "endpoint_authorization McpUserApi = ''https://mcp-user-api.erpc.global/oauth/device/authorization''"

fun endpoint_token :: "audience \<Rightarrow> string" where
  "endpoint_token AuthApi = ''https://auth-api.erpc.global/oauth/token''"
| "endpoint_token McpUserApi = ''https://mcp-user-api.erpc.global/oauth/token''"

fun endpoint_revoke :: "audience \<Rightarrow> string" where
  "endpoint_revoke AuthApi = ''https://auth-api.erpc.global/oauth/revoke''"
| "endpoint_revoke McpUserApi = ''https://mcp-user-api.erpc.global/oauth/revoke''"

definition url_safe_byte :: "char \<Rightarrow> bool" where
  "url_safe_byte b = (is_ascii_alphanumeric b \<or> b \<in> set ''-._~/?='')"

definition is_verification_url :: "string \<Rightarrow> string \<Rightarrow> bool" where
  "is_verification_url url host =
     (case strip_prefix ''https://'' url of
        None \<Rightarrow> False
      | Some rest \<Rightarrow>
         (case strip_prefix host rest of
            None \<Rightarrow> False
          | Some path \<Rightarrow> starts_with path ''/'' \<and> list_all url_safe_byte path))"

subsection \<open>Lemmas on the poller\<close>

definition poller_ok :: "poller \<Rightarrow> bool" where
  "poller_ok p \<longleftrightarrow> min_interval \<le> po_interval p \<and> po_elapsed p \<le> po_budget p"

lemma poller_ok_new: "poller_ok (poller_new a)"
  by (simp add: poller_ok_def poller_new_def)

lemma back_off_ge: "current \<le> back_off current proposed"
  by (simp add: back_off_def)

lemma advance_ok: "poller_ok p \<Longrightarrow> poller_ok (snd (advance p))"
  by (auto simp: poller_ok_def advance_def remaining_def)

lemma advance_interval [simp]: "po_interval (snd (advance p)) = po_interval p"
  and advance_budget [simp]: "po_budget (snd (advance p)) = po_budget p"
  by (simp_all add: advance_def)

lemma min_interval_le_max: "min_interval \<le> duration_max"
  by (simp add: poll_consts rust_arith)

lemma advance_Wait:
  "advance p = (Wait d, p') \<Longrightarrow> d = po_interval p \<and> po_elapsed p + d < po_budget p \<and>
     p' = p\<lparr>po_elapsed := po_elapsed p + d\<rparr>"
  by (auto simp: advance_def remaining_def split: if_splits)

text \<open>The interval never shrinks, as long as it is a duration at all.\<close>

lemma next_wait_interval_grows:
  "po_interval p \<le> duration_max \<Longrightarrow> next_wait p out = (act, p') \<Longrightarrow> po_interval p \<le> po_interval p'"
  by (cases out)
    (auto simp: advance_def duration_add_sat_def back_off_def split: sum.splits if_splits)

lemma next_wait_budget: "next_wait p out = (act, p') \<Longrightarrow> po_budget p' = po_budget p"
  by (cases out) (auto simp: advance_def split: sum.splits if_splits)

lemma next_wait_ok: "poller_ok p \<Longrightarrow> next_wait p out = (act, p') \<Longrightarrow> poller_ok p'"
proof (cases out)
  case PollSlowDown
  assume ok: "poller_ok p" and nx: "next_wait p out = (act, p')"
  let ?q = "p\<lparr>po_interval := duration_add_sat (po_interval p) slow_down_step\<rparr>"
  have "poller_ok ?q"
    using ok min_interval_le_max by (auto simp: poller_ok_def duration_add_sat_def)
  from advance_ok [OF this] nx PollSlowDown show ?thesis by simp
next
  case PollNetworkError
  assume ok: "poller_ok p" and nx: "next_wait p out = (act, p')"
  let ?q = "p\<lparr>po_interval := back_off (po_interval p) (duration_mul_sat (po_interval p) 2)\<rparr>"
  have "poller_ok ?q"
    using ok by (auto simp: poller_ok_def back_off_def)
  from advance_ok [OF this] nx PollNetworkError show ?thesis by simp
next
  case PollPending
  assume "poller_ok p" and "next_wait p out = (act, p')"
  with advance_ok [of p] PollPending show ?thesis by simp
qed (simp_all split: sum.splits)

lemma next_wait_Wait:
  "next_wait p out = (Wait d, p') \<Longrightarrow>
     d = po_interval p' \<and> po_elapsed p' = po_elapsed p + d \<and> po_elapsed p' < po_budget p'"
  by (cases out) (auto dest!: advance_Wait split: sum.splits)

text \<open>Only an approval whose tokens pass the shape check ends in tokens.\<close>

lemma next_wait_Stop_Ok:
  "next_wait p out = (Stop (Ok ap), p') \<Longrightarrow>
     check_token_shape (ap_access_token ap) = Ok () \<and> check_token_shape (ap_refresh_token ap) = Ok () \<and>
     out = PollApproved (ap_access_token ap) (ap_refresh_token ap) (ap_expires_in ap)"
  by (cases out) (auto simp: advance_def split: sum.splits if_splits)

subsection \<open>Lemmas on the loop\<close>

text \<open>Each wait takes at least five seconds off the budget, so the loop ends within it.\<close>

lemma grant_loop_terminates:
  assumes "poller_ok p" and "(po_budget p - po_elapsed p) div min_interval < fuel"
  shows "\<exists>r ws t. grant_loop fuel poll took n p = Some (r, ws, t)"
  using assms
proof (induction fuel arbitrary: n p)
  case 0
  then show ?case by simp
next
  case (Suc fuel)
  obtain act p' where nx: "next_wait p (poll n) = (act, p')" by fastforce
  show ?case
  proof (cases act)
    case (Stop r)
    with nx show ?thesis by simp
  next
    case (Wait d)
    have ok: "poller_ok p'" using Suc.prems(1) nx by (rule next_wait_ok)
    from next_wait_Wait [OF nx [unfolded Wait]]
    have d: "d = po_interval p'" "po_elapsed p' = po_elapsed p + d" "po_elapsed p' < po_budget p'" by auto
    have b: "po_budget p' = po_budget p" using nx by (rule next_wait_budget)
    have pos: "0 < min_interval" by (simp add: poll_consts rust_arith)
    have "po_budget p' - po_elapsed p' + min_interval \<le> po_budget p - po_elapsed p"
      using d b ok by (simp add: poller_ok_def)
    then have "(po_budget p' - po_elapsed p' + min_interval) div min_interval
        \<le> (po_budget p - po_elapsed p) div min_interval"
      by (rule div_le_mono)
    moreover have "(po_budget p' - po_elapsed p' + min_interval) div min_interval =
        Suc ((po_budget p' - po_elapsed p') div min_interval)"
      using pos by (simp only: div_add_self2 [OF less_imp_neq [THEN not_sym]])
    ultimately have "(po_budget p' - po_elapsed p') div min_interval < fuel"
      using Suc.prems(2) by linarith
    with ok obtain r ws t where "grant_loop fuel poll took (Suc n) p' = Some (r, ws, t)"
      using Suc.IH by blast
    with nx Wait show ?thesis by auto
  qed
qed

lemma grant_loop_waits:
  assumes "poller_ok p" and "grant_loop fuel poll took n p = Some (r, ws, t)"
  shows "po_elapsed p + sum_list ws \<le> po_budget p \<and> (\<forall>w\<in>set ws. min_interval \<le> w)"
  using assms
proof (induction fuel arbitrary: n p ws t)
  case 0
  then show ?case by simp
next
  case (Suc fuel)
  obtain act p' where nx: "next_wait p (poll n) = (act, p')" by fastforce
  show ?case
  proof (cases act)
    case (Stop r)
    with nx Suc.prems show ?thesis by (auto simp: poller_ok_def)
  next
    case (Wait d)
    with nx Suc.prems obtain ws' t' where rec: "grant_loop fuel poll took (Suc n) p' = Some (r, ws', t')"
      and ws: "ws = d # ws'" by auto
    have ok: "poller_ok p'" using Suc.prems(1) nx by (rule next_wait_ok)
    from Suc.IH [OF ok rec] have "po_elapsed p' + sum_list ws' \<le> po_budget p'"
      "\<forall>w\<in>set ws'. min_interval \<le> w" by auto
    with next_wait_Wait [OF nx [unfolded Wait]] ok ws next_wait_budget [OF nx]
    show ?thesis by (auto simp: poller_ok_def)
  qed
qed

text \<open>The time that passes is the waits and the requests, one more than there are waits.\<close>

lemma grant_loop_time:
  "grant_loop fuel poll took n p = Some (r, ws, t) \<Longrightarrow> t = sum_list ws + sum_list (map took [n ..< n + length ws + 1])"
proof (induction fuel arbitrary: n p ws t)
  case (Suc fuel)
  obtain act p' where nx: "next_wait p (poll n) = (act, p')" by fastforce
  show ?case
  proof (cases act)
    case (Wait d)
    with nx Suc.prems obtain ws' t' where rec: "grant_loop fuel poll took (Suc n) p' = Some (r, ws', t')"
      and ws: "ws = d # ws'" "t = took n + d + t'" by auto
    have "[n ..< n + length ws + 1] = n # [Suc n ..< Suc n + length ws' + 1]" using ws by (simp add: upt_rec)
    with Suc.IH [OF rec] ws show ?thesis by simp
  qed (use nx Suc.prems in auto)
qed simp

lemma grant_loop_tokens:
  assumes "grant_loop fuel poll took n p = Some (Ok ap, ws, t)"
  shows "check_token_shape (ap_access_token ap) = Ok () \<and> check_token_shape (ap_refresh_token ap) = Ok () \<and>
    poll (n + length ws) = PollApproved (ap_access_token ap) (ap_refresh_token ap) (ap_expires_in ap)"
  using assms
proof (induction fuel arbitrary: n p ws t)
  case 0
  then show ?case by simp
next
  case (Suc fuel)
  obtain act p' where nx: "next_wait p (poll n) = (act, p')" by fastforce
  show ?case
  proof (cases act)
    case (Stop r)
    with Suc.prems nx show ?thesis by (auto dest: next_wait_Stop_Ok)
  next
    case (Wait d)
    with nx Suc.prems obtain ws' t' where "grant_loop fuel poll took (Suc n) p' = Some (Ok ap, ws', t')"
      and "ws = d # ws'" by auto
    with Suc.IH show ?thesis by fastforce
  qed
qed

lemma is_verification_url_iff:
  "is_verification_url url host \<longleftrightarrow>
     (\<exists>path. url = ''https://'' @ host @ ''/'' @ path \<and> list_all url_safe_byte path)"
proof
  assume "is_verification_url url host"
  then obtain path where "url = ''https://'' @ host @ path" "starts_with path ''/''" "list_all url_safe_byte path"
    by (auto simp: is_verification_url_def split: option.splits)
  then show "\<exists>path. url = ''https://'' @ host @ ''/'' @ path \<and> list_all url_safe_byte path"
    by (auto simp: starts_with_iff)
next
  assume "\<exists>path. url = ''https://'' @ host @ ''/'' @ path \<and> list_all url_safe_byte path"
  then obtain path where url: "url = ''https://'' @ host @ ''/'' @ path" and safe: "list_all url_safe_byte path"
    by blast
  have "url_safe_byte (CHR ''/'')" by (simp add: url_safe_byte_def)
  moreover have "strip_prefix ''https://'' url = Some (host @ ''/'' @ path)"
    using url by (simp del: append_Cons)
  moreover have "strip_prefix host (host @ ''/'' @ path) = Some (''/'' @ path)" by simp
  ultimately show "is_verification_url url host"
    using safe by (simp add: is_verification_url_def starts_with_def)
qed

lemma url_safe_not_shell: "url_safe_byte c \<Longrightarrow> c \<notin> set ''&|^% <>()!\";$`*''"
  by (auto simp: url_safe_byte_def is_ascii_alphanumeric_def byte_of_def)

end
