(* ===== verification/Session.thy ===== *)
theory Session
  imports Parked Device_Flow
begin

text \<open>
  \<open>crates/erpc-auth/src/session.rs\<close>: what one command does to a session. Each function is the
  sequence of store, file and issuer calls of the source with every early return; the store is any
  record of operations, and the lemmas about it use the trait's contract (\<open>credential_store\<close>).
\<close>

subsection \<open>Errors\<close>

datatype http_error =
    HttpClient string
  | HttpTransport string string
  | HttpMalformed string string
  | HttpStatus string nat
  | HttpAllowlist

datatype session_error =
    SessionLogin login_error
  | SessionHttp http_error
  | SessionStore store_error
  | NoSession
  | SessionExpired
  | SessionLeaving
  | SavedToFallback string string string

text \<open>The \<open>Display\<close> of a \<open>StoreError\<close>.\<close>

fun store_error_text :: "store_error \<Rightarrow> string" where
  "store_error_text (Unavailable kind why) = kind_as_str kind @ '' is not available here: '' @ why"
| "store_error_text (UnknownVersion found expected) =
     ''the stored session is version '' @ show_nat found @ '', and this build of erpc writes version '' @
     show_nat expected @ ''; run `erpc login` again''"
| "store_error_text (Corrupt why) = ''the stored session could not be read: '' @ why"
| "store_error_text (Backend kind operation why) = operation @ '' failed for '' @ kind_as_str kind @ '': '' @ why"

subsection \<open>Paths\<close>

definition parked_path :: "string \<Rightarrow> audience \<Rightarrow> string" where
  "parked_path state_dir aud = path_join state_dir (''pending-credentials.'' @ audience_as_str aud)"

definition refresh_lock_path :: "string \<Rightarrow> audience \<Rightarrow> string" where
  "refresh_lock_path state_dir aud = path_join (path_join state_dir ''locks'') (audience_as_str aud @ ''.lock'')"

subsection \<open>Calls lifted to the machine\<close>

definition m_load :: "'w store_ops \<Rightarrow> cred_key \<Rightarrow> ('w, 't) machine \<Rightarrow> (store_error + credential option) \<times> ('w, 't) machine" where
  "m_load ops k m = (case op_load ops k (ma_store m) of (r, w) \<Rightarrow> (r, m\<lparr>ma_store := w\<rparr>))"

definition m_save :: "'w store_ops \<Rightarrow> cred_key \<Rightarrow> credential \<Rightarrow> ('w, 't) machine \<Rightarrow> (store_error + unit) \<times> ('w, 't) machine" where
  "m_save ops k c m = (case op_save ops k c (ma_store m) of (r, w) \<Rightarrow> (r, m\<lparr>ma_store := w\<rparr>))"

definition m_delete :: "'w store_ops \<Rightarrow> cred_key \<Rightarrow> ('w, 't) machine \<Rightarrow> (store_error + unit) \<times> ('w, 't) machine" where
  "m_delete ops k m = (case op_delete ops k (ma_store m) of (r, w) \<Rightarrow> (r, m\<lparr>ma_store := w\<rparr>))"

text \<open>\<open>Revoker::revoke\<close>: the issuer's answer, and the request on record.\<close>

definition revoke :: "audience \<Rightarrow> token \<Rightarrow> ('w, 't) machine \<Rightarrow> bool \<times> ('w, 't) machine" where
  "revoke aud tok m =
     (case ma_answers m of
        [] \<Rightarrow> (True, m\<lparr>ma_revoked := ma_revoked m @ [(aud, tok, True)]\<rparr>)
      | b # bs \<Rightarrow> (b, m\<lparr>ma_answers := bs, ma_revoked := ma_revoked m @ [(aud, tok, b)]\<rparr>))"

subsection \<open>Reading a session under the lock\<close>

text \<open>The recovery of a parked session; \<open>None\<close>: the command goes on, \<open>Some e\<close>: it ends there.\<close>

definition recover_parked ::
  "'w store_ops \<Rightarrow> 't crates \<Rightarrow> cred_key \<Rightarrow> ('w, 't) machine \<Rightarrow> store_error option \<times> ('w, 't) machine" where
  "recover_parked ops cr k m =
     (case read_parked cr (ck_audience k) m of
        (Inr (Some p), m1) \<Rightarrow>
          (case m_load ops k m1 of
             (Inl e, m2) \<Rightarrow> (Some e, m2)
           | (Inr held, m2) \<Rightarrow>
              (if supersedes cr p held then
                 (case m_save ops k (pk_credential p) m2 of
                    (Inl e, m3) \<Rightarrow> (Some e, m3)
                  | (Inr _, m3) \<Rightarrow> (None, snd (clear_parked (ck_audience k) m3)))
               else if is_held_in cr p held then (None, snd (clear_parked (ck_audience k) m2))
               else (None, m2)))
      | (_, m1) \<Rightarrow> (None, m1))"

definition read_locked ::
  "'w store_ops \<Rightarrow> 't crates \<Rightarrow> cred_key \<Rightarrow> ('w, 't) machine \<Rightarrow> (session_error + credential option) \<times> ('w, 't) machine" where
  "read_locked ops cr k m =
     (case acquire m of
        (Inl e, m1) \<Rightarrow> (Err (SessionStore e), m1)
      | (Inr _, m1) \<Rightarrow>
         (case recover_parked ops cr k m1 of
            (Some e, m2) \<Rightarrow> (Err (SessionStore e), m2)
          | (None, m2) \<Rightarrow>
             (case m_load ops k m2 of
                (Inl e, m3) \<Rightarrow> (Err (SessionStore e), m3)
              | (Inr held, m3) \<Rightarrow> (Ok held, m3))))"

subsection \<open>Filing what a refresh returned\<close>

definition file_rotation ::
  "'w store_ops \<Rightarrow> 't crates \<Rightarrow> string \<Rightarrow> cred_key \<Rightarrow> credential \<Rightarrow> credential \<Rightarrow> ('w, 't) machine \<Rightarrow>
     (session_error + credential) \<times> ('w, 't) machine" where
  "file_rotation ops cr state_dir k rotated existing m =
     (case m_save ops k rotated m of
        (Inr _, m1) \<Rightarrow> (Ok rotated, m1)
      | (Inl e, m1) \<Rightarrow>
         (case park_credential cr (ck_audience k) rotated existing m1 of
            (Inl pe, m2) \<Rightarrow> (Err (SessionStore pe), m2)
          | (Inr _, m2) \<Rightarrow>
             (Err (SavedToFallback (kind_as_str (op_kind ops)) (store_error_text e)
                 (parked_path state_dir (ck_audience k))), m2)))"

text \<open>The errors of a refused refresh token.\<close>

definition refresh_error :: "http_error \<Rightarrow> session_error" where
  "refresh_error e =
     (case e of
        HttpStatus host status \<Rightarrow>
          (if status \<in> {400, 401, 403} then SessionExpired else SessionHttp e)
      | _ \<Rightarrow> SessionHttp e)"

text \<open>
  \<open>current_session\<close> run by one command to its end. \<open>answer\<close> is what the issuer says to the refresh
  token it is shown, \<open>leaving\<close> whether the process has begun to leave. The middle component is the
  token shown, if one was: \<open>Rotation\<close> and \<open>Session_Protocol\<close> take this sequence apart.
\<close>

definition current_session ::
  "'w store_ops \<Rightarrow> 't crates \<Rightarrow> (audience \<Rightarrow> token \<Rightarrow> i64 \<Rightarrow> http_error + credential) \<Rightarrow> bool \<Rightarrow> string \<Rightarrow> cred_key \<Rightarrow> i64 \<Rightarrow>
     ('w, 't) machine \<Rightarrow> (session_error + credential) \<times> token option \<times> ('w, 't) machine" where
  "current_session ops cr answer leaving state_dir k now m =
     (case read_locked ops cr k m of
        (Inl e, m1) \<Rightarrow> (Err e, None, m1)
      | (Inr None, m1) \<Rightarrow> (Err NoSession, None, m1)
      | (Inr (Some existing), m1) \<Rightarrow>
         (if \<not> needs_refresh existing now then (Ok existing, None, m1)
          else if leaving then (Err SessionLeaving, None, m1)
          else case answer (ck_audience k) (refresh_token existing) now of
            Inl e \<Rightarrow> (Err (refresh_error e), Some (refresh_token existing), m1)
          | Inr rotated \<Rightarrow>
             (case file_rotation ops cr state_dir k rotated existing m1 of
                (r, m2) \<Rightarrow> (r, Some (refresh_token existing), m2))))"

subsection \<open>Signing out and signing in\<close>

datatype readable = ReadHeld credential | ReadNothing | ReadIllegible string

definition readable_of :: "store_error + credential option \<Rightarrow> session_error + readable" where
  "readable_of r =
     (case r of
        Inr (Some held) \<Rightarrow> Ok (ReadHeld held)
      | Inr None \<Rightarrow> Ok ReadNothing
      | Inl e \<Rightarrow>
         (case e of
            Corrupt why \<Rightarrow> Ok (ReadIllegible (store_error_text e))
          | UnknownVersion found expected \<Rightarrow> Ok (ReadIllegible (store_error_text e))
          | _ \<Rightarrow> Err (SessionStore e)))"

datatype revocation = Confirmed | NotConfirmed | NothingToRevoke

text \<open>The revocation of a parked session, in both writers: \<open>None\<close> when there is no file.\<close>

definition revoke_parked :: "'t crates \<Rightarrow> audience \<Rightarrow> ('w, 't) machine \<Rightarrow> bool option \<times> ('w, 't) machine" where
  "revoke_parked cr aud m =
     (case read_parked cr aud m of
        (Inr (Some p), m1) \<Rightarrow>
          (case revoke aud (refresh_token (pk_credential p)) m1 of (b, m2) \<Rightarrow> (Some b, m2))
      | (Inr None, m1) \<Rightarrow> (None, m1)
      | (Inl _, m1) \<Rightarrow> (Some False, m1))"

definition revoke_stored :: "audience \<Rightarrow> readable \<Rightarrow> ('w, 't) machine \<Rightarrow> bool option \<times> ('w, 't) machine" where
  "revoke_stored aud rd m =
     (case rd of
        ReadHeld existing \<Rightarrow> (case revoke aud (refresh_token existing) m of (b, m1) \<Rightarrow> (Some b, m1))
      | ReadNothing \<Rightarrow> (None, m)
      | ReadIllegible _ \<Rightarrow> (Some False, m))"

definition revocation_of :: "bool option \<Rightarrow> bool option \<Rightarrow> revocation" where
  "revocation_of stored parked =
     (let attempted = List.map_filter id [stored, parked]
      in if attempted = [] then NothingToRevoke
         else if False \<in> set attempted then NotConfirmed
         else Confirmed)"

definition sign_out ::
  "'w store_ops \<Rightarrow> 't crates \<Rightarrow> cred_key \<Rightarrow> ('w, 't) machine \<Rightarrow> (session_error + revocation) \<times> ('w, 't) machine" where
  "sign_out ops cr k m =
     (case acquire m of
        (Inl e, m1) \<Rightarrow> (Err (SessionStore e), m1)
      | (Inr _, m1) \<Rightarrow>
         (case m_load ops k m1 of
            (found, m2) \<Rightarrow>
              (case readable_of found of
                 Inl e \<Rightarrow> (Err e, m2)
               | Inr rd \<Rightarrow>
                  (case revoke_stored (ck_audience k) rd m2 of
                     (stored_revoked, m3) \<Rightarrow>
                       (case revoke_parked cr (ck_audience k) m3 of
                          (parked_revoked, m4) \<Rightarrow>
                            (case clear_parked (ck_audience k) m4 of
                               (cleared, m5) \<Rightarrow>
                                 (case m_delete ops k m5 of
                                    (deleted, m6) \<Rightarrow>
                                      (case cleared of
                                         Inl e \<Rightarrow> (Err (SessionStore e), m6)
                                       | Inr _ \<Rightarrow>
                                          (case deleted of
                                             Inl e \<Rightarrow> (Err (SessionStore e), m6)
                                           | Inr _ \<Rightarrow> (Ok (revocation_of stored_revoked parked_revoked), m6))))))))))"

record parked_report =
  rp_path :: string
  rp_revoked :: bool
  rp_removed :: bool

record sign_in_report =
  si_parked :: "parked_report option"
  si_previous_unreadable :: "string option"

definition store_new_session ::
  "'w store_ops \<Rightarrow> 't crates \<Rightarrow> string \<Rightarrow> cred_key \<Rightarrow> credential \<Rightarrow> ('w, 't) machine \<Rightarrow>
     (session_error + sign_in_report) \<times> ('w, 't) machine" where
  "store_new_session ops cr state_dir k c m =
     (case acquire m of
        (Inl e, m1) \<Rightarrow> (Err (SessionStore e), m1)
      | (Inr _, m1) \<Rightarrow>
         (case m_load ops k m1 of
            (found, m2) \<Rightarrow>
              (case readable_of found of
                 Inl e \<Rightarrow> (Err e, m2)
               | Inr rd \<Rightarrow>
                  (case m_save ops k c m2 of
                     (Inl e, m3) \<Rightarrow> (Err (SessionStore e), m3)
                   | (Inr _, m3) \<Rightarrow>
                      (case revoke_parked cr (ck_audience k) m3 of
                         (parked_revoked, m4) \<Rightarrow>
                           (case clear_parked (ck_audience k) m4 of
                              (cleared, m5) \<Rightarrow>
                                (let m6 = (case rd of
                                       ReadHeld previous \<Rightarrow> snd (revoke (ck_audience k) (refresh_token previous) m5)
                                     | _ \<Rightarrow> m5);
                                     removed = is_ok cleared
                                 in (Ok \<lparr>si_parked =
                                        (case parked_revoked of
                                           Some revoked \<Rightarrow>
                                             (if \<not> (revoked \<and> removed) then
                                                Some \<lparr>rp_path = parked_path state_dir (ck_audience k),
                                                      rp_revoked = revoked, rp_removed = removed\<rparr>
                                              else None)
                                         | None \<Rightarrow> None),
                                      si_previous_unreadable =
                                        (case rd of ReadIllegible why \<Rightarrow> Some why | _ \<Rightarrow> None)\<rparr>, m6))))))))"

definition approved_to_credential :: "approved \<Rightarrow> i64 \<Rightarrow> credential" where
  "approved_to_credential ap now =
     (let secs = int (as_secs (ap_expires_in ap));
          lifetime = (if secs \<le> i64_max then secs else i64_max)
      in \<lparr>access_token = ap_access_token ap, refresh_token = ap_refresh_token ap,
          expires_at = i64_add_sat now lifetime\<rparr>)"

subsection \<open>Lemmas about one machine\<close>

lemma m_load_frame:
  "m_load ops k m = (r, m') \<Longrightarrow> ma_parked m' = ma_parked m \<and> ma_revoked m' = ma_revoked m \<and> ma_answers m' = ma_answers m"
  by (auto simp: m_load_def split: prod.splits)

lemma m_save_frame:
  "m_save ops k c m = (r, m') \<Longrightarrow> ma_parked m' = ma_parked m \<and> ma_revoked m' = ma_revoked m \<and> ma_answers m' = ma_answers m"
  by (auto simp: m_save_def split: prod.splits)

lemma m_delete_frame:
  "m_delete ops k m = (r, m') \<Longrightarrow> ma_parked m' = ma_parked m \<and> ma_revoked m' = ma_revoked m \<and> ma_answers m' = ma_answers m"
  by (auto simp: m_delete_def split: prod.splits)

lemma revoke_result:
  "revoke aud tok m = (b, m') \<Longrightarrow>
     ma_store m' = ma_store m \<and> ma_parked m' = ma_parked m \<and> ma_revoked m' = ma_revoked m @ [(aud, tok, b)]"
  by (auto simp: revoke_def split: list.splits)

lemma revocation_of_Confirmed:
  "revocation_of a b = Confirmed \<longleftrightarrow> a \<noteq> Some False \<and> b \<noteq> Some False \<and> (a \<noteq> None \<or> b \<noteq> None)"
  by (cases a; cases b) (auto simp: revocation_of_def List.map_filter_def)

lemma revocation_of_Nothing: "revocation_of a b = NothingToRevoke \<longleftrightarrow> a = None \<and> b = None"
  by (cases a; cases b) (auto simp: revocation_of_def List.map_filter_def)

end
