(* ===== verification/File_Store.thy ===== *)
theory File_Store
  imports Store
begin

text \<open>
  \<open>crates/erpc-auth/src/store/file.rs\<close>: the store that is one TOML file. TOML itself is the \<open>toml\<close>
  crate's: a file that this program wrote is kept as the document it wrote, which that crate reads
  back as it was, and any other text has a type of its own, with the crate's parser as a parameter.
\<close>

subsection \<open>The document and its text\<close>

type_synonym document = "(string \<times> stored_credential) list"

datatype 't file_text = Written document | Foreign 't

record 't toml_reader =
  tr_blank :: "'t \<Rightarrow> bool"
  tr_parse :: "'t \<Rightarrow> string + document"

text \<open>A \<open>BTreeMap\<close> as an association list with one entry per key.\<close>

definition doc_get :: "document \<Rightarrow> string \<Rightarrow> stored_credential option" where
  "doc_get d k = map_of d k"

definition doc_remove :: "string \<Rightarrow> document \<Rightarrow> document" where
  "doc_remove k d = filter (\<lambda>(k', v). k' \<noteq> k) d"

definition doc_insert :: "string \<Rightarrow> stored_credential \<Rightarrow> document \<Rightarrow> document" where
  "doc_insert k v d = (k, v) # doc_remove k d"

text \<open>
  The file, and the failures of the file system still to come: each operation that can fail takes the
  next entry of \<open>fs_faults\<close> (\<open>True\<close>: it fails), and an empty list is a file system that works.
\<close>

record 't file_store =
  fs_text :: "'t file_text option"
  fs_faults :: "bool list"

definition take_fault :: "'t file_store \<Rightarrow> bool \<times> 't file_store" where
  "take_fault w = (case fs_faults w of [] \<Rightarrow> (False, w) | b # bs \<Rightarrow> (b, w\<lparr>fs_faults := bs\<rparr>))"

definition fs_backend :: "string \<Rightarrow> store_error" where
  "fs_backend operation = Backend FileKind operation ''input/output error''"

subsection \<open>Operations\<close>

definition fs_lock :: "'t file_store \<Rightarrow> (store_error + unit) \<times> 't file_store" where
  "fs_lock w = (case take_fault w of (bad, w1) \<Rightarrow>
     (if bad then Err (fs_backend ''take the lock'') else Ok (), w1))"

definition read_document :: "'t toml_reader \<Rightarrow> 't file_store \<Rightarrow> (store_error + document) \<times> 't file_store" where
  "read_document cd w =
     (case take_fault w of (bad, w1) \<Rightarrow>
       (if bad then Err (fs_backend ''read the credentials file'')
        else case fs_text w1 of
          None \<Rightarrow> Ok []
        | Some (Written d) \<Rightarrow> Ok d
        | Some (Foreign text) \<Rightarrow>
           (if tr_blank cd text then Ok []
            else case tr_parse cd text of
              Inl why \<Rightarrow> Err (Corrupt (why @
                ''; nothing in it can be read, so signing in replaces the whole file and signing out removes it''))
            | Inr d \<Rightarrow> Ok d), w1))"

definition write_document :: "document \<Rightarrow> 't file_store \<Rightarrow> (store_error + unit) \<times> 't file_store" where
  "write_document d w =
     (case take_fault w of (bad, w1) \<Rightarrow>
       (if bad then (Err (fs_backend ''replace the credentials file''), w1)
        else (Ok (), w1\<lparr>fs_text := Some (Written d)\<rparr>)))"

definition remove_document :: "'t file_store \<Rightarrow> (store_error + unit) \<times> 't file_store" where
  "remove_document w =
     (case take_fault w of (bad, w1) \<Rightarrow>
       (if bad then (Err (fs_backend ''remove the credentials file''), w1)
        else (Ok (), w1\<lparr>fs_text := None\<rparr>)))"

definition stored_to_credential :: "stored_credential \<Rightarrow> store_error + credential" where
  "stored_to_credential s =
     (if sc_version s \<noteq> store_version then Err (UnknownVersion (sc_version s) store_version)
      else case non_empty (sc_access_token s) (sc_refresh_token s) of
        Inl e \<Rightarrow> Err e
      | Inr _ \<Rightarrow> Ok \<lparr>access_token = sc_access_token s, refresh_token = sc_refresh_token s, expires_at = sc_expires_at s\<rparr>)"

definition credential_to_stored :: "credential \<Rightarrow> stored_credential" where
  "credential_to_stored c =
     \<lparr>sc_version = store_version, sc_access_token = access_token c, sc_refresh_token = refresh_token c, sc_expires_at = expires_at c\<rparr>"

definition fs_load :: "'t toml_reader \<Rightarrow> cred_key \<Rightarrow> 't file_store \<Rightarrow> (store_error + credential option) \<times> 't file_store" where
  "fs_load cd k w =
     (case fs_lock w of
        (Inl e, w1) \<Rightarrow> (Err e, w1)
      | (Inr _, w1) \<Rightarrow>
         (case read_document cd w1 of
            (Inl e, w2) \<Rightarrow> (Err e, w2)
          | (Inr d, w2) \<Rightarrow>
             (case doc_get d (keychain_account k) of
                None \<Rightarrow> (Ok None, w2)
              | Some s \<Rightarrow>
                 (case stored_to_credential s of Inl e \<Rightarrow> (Err e, w2) | Inr c \<Rightarrow> (Ok (Some c), w2)))))"

definition fs_save :: "'t toml_reader \<Rightarrow> cred_key \<Rightarrow> credential \<Rightarrow> 't file_store \<Rightarrow> (store_error + unit) \<times> 't file_store" where
  "fs_save cd k c w =
     (case fs_lock w of
        (Inl e, w1) \<Rightarrow> (Err e, w1)
      | (Inr _, w1) \<Rightarrow>
         (case read_document cd w1 of
            (Inr d, w2) \<Rightarrow> write_document (doc_insert (keychain_account k) (credential_to_stored c) d) w2
          | (Inl (Corrupt why), w2) \<Rightarrow>
              write_document (doc_insert (keychain_account k) (credential_to_stored c) []) w2
          | (Inl e, w2) \<Rightarrow> (Err e, w2)))"

definition fs_delete :: "'t toml_reader \<Rightarrow> cred_key \<Rightarrow> 't file_store \<Rightarrow> (store_error + unit) \<times> 't file_store" where
  "fs_delete cd k w =
     (case fs_lock w of
        (Inl e, w1) \<Rightarrow> (Err e, w1)
      | (Inr _, w1) \<Rightarrow>
         (case read_document cd w1 of
            (Inr d, w2) \<Rightarrow>
              (if doc_get d (keychain_account k) = None then (Ok (), w2)
               else write_document (doc_remove (keychain_account k) d) w2)
          | (Inl (Corrupt why), w2) \<Rightarrow> remove_document w2
          | (Inl e, w2) \<Rightarrow> (Err e, w2)))"

definition file_store_ops :: "'t toml_reader \<Rightarrow> 't file_store store_ops" where
  "file_store_ops cd = \<lparr>op_load = fs_load cd, op_save = fs_save cd, op_delete = fs_delete cd, op_kind = FileKind\<rparr>"

subsection \<open>What the file holds\<close>

definition fs_document :: "'t toml_reader \<Rightarrow> 't file_text option \<Rightarrow> string + document" where
  "fs_document cd t =
     (case t of
        None \<Rightarrow> Ok []
      | Some (Written d) \<Rightarrow> Ok d
      | Some (Foreign text) \<Rightarrow> (if tr_blank cd text then Ok [] else tr_parse cd text))"

definition fs_holds :: "'t toml_reader \<Rightarrow> 't file_store \<Rightarrow> cred_key \<Rightarrow> slot" where
  "fs_holds cd w k =
     (case fs_document cd (fs_text w) of
        Inl why \<Rightarrow> Illegible
      | Inr d \<Rightarrow>
         (case doc_get d (keychain_account k) of
            None \<Rightarrow> Vacant
          | Some s \<Rightarrow> (case stored_to_credential s of Inl e \<Rightarrow> Illegible | Inr c \<Rightarrow> Held c)))"

subsection \<open>Lemmas\<close>

lemma take_fault_text [simp]: "take_fault w = (b, w') \<Longrightarrow> fs_text w' = fs_text w"
  by (auto simp: take_fault_def split: list.splits)

lemma doc_get_remove: "doc_get (doc_remove k d) k' = (if k' = k then None else doc_get d k')"
  by (induction d) (auto simp: doc_get_def doc_remove_def)

lemma doc_get_insert: "doc_get (doc_insert k v d) k' = (if k' = k then Some v else doc_get d k')"
  using doc_get_remove [of k d k'] by (auto simp: doc_get_def doc_insert_def)

lemma stored_roundtrip: "usable c \<Longrightarrow> stored_to_credential (credential_to_stored c) = Ok c"
  by (simp add: stored_to_credential_def credential_to_stored_def usable_def non_empty_def)

lemma stored_error_illegible: "stored_to_credential s = Inl e \<Longrightarrow> illegible_error e"
  by (auto simp: stored_to_credential_def non_empty_def split: if_splits sum.splits)

lemma read_document_cases:
  assumes "read_document cd w = (r, w')"
  shows "fs_text w' = fs_text w \<and>
    (case r of
       Inr d \<Rightarrow> fs_document cd (fs_text w) = Inr d
     | Inl e \<Rightarrow> (illegible_error e \<longleftrightarrow> (\<exists>why. e = Corrupt why)) \<and>
         ((\<exists>why. e = Corrupt why) \<longrightarrow> (\<exists>why. fs_document cd (fs_text w) = Inl why)))"
  using assms
  by (auto simp: read_document_def fs_document_def fs_backend_def split: prod.splits if_splits option.splits sum.splits file_text.splits)

lemma fs_lock_text: "fs_lock w = (r, w') \<Longrightarrow> fs_text w' = fs_text w"
  by (auto simp: fs_lock_def split: prod.splits)

lemma fs_lock_error: "fs_lock w = (Inl e, w') \<Longrightarrow> \<not> illegible_error e"
  by (auto simp: fs_lock_def fs_backend_def split: prod.splits if_splits)

lemma fs_document_written [simp]: "fs_document cd (Some (Written d)) = Inr d"
  by (simp add: fs_document_def)

lemma write_document_cases:
  "write_document d w = (r, w') \<Longrightarrow>
     (case r of Inr u \<Rightarrow> fs_text w' = Some (Written d) | Inl e \<Rightarrow> fs_text w' = fs_text w)"
  by (auto simp: write_document_def split: prod.splits if_splits)

lemma remove_document_cases:
  "remove_document w = (r, w') \<Longrightarrow> (case r of Inr u \<Rightarrow> fs_text w' = None | Inl e \<Rightarrow> fs_text w' = fs_text w)"
  by (auto simp: remove_document_def split: prod.splits if_splits)

lemmas fs_op_defs = fs_load_def fs_save_def fs_delete_def

lemma fs_load_result:
  assumes "fs_load cd k w = (r, w')"
  shows "fs_text w' = fs_text w \<and>
    (case r of
       Inr (Some c) \<Rightarrow> fs_holds cd w k = Held c
     | Inr None \<Rightarrow> fs_holds cd w k = Vacant
     | Inl e \<Rightarrow> illegible_error e \<longrightarrow> fs_holds cd w k = Illegible)"
proof -
  obtain r1 w1 where l: "fs_lock w = (r1, w1)" by fastforce
  obtain r2 w2 where d: "read_document cd w1 = (r2, w2)" by fastforce
  note texts = fs_lock_text [OF l] read_document_cases [OF d]
  show ?thesis
  proof (cases r1)
    case (Inl e)
    with assms l fs_lock_error [of w e w1] texts show ?thesis by (auto simp: fs_load_def)
  next
    case (Inr u)
    with assms l d texts show ?thesis
      by (auto simp: fs_load_def fs_holds_def dest: stored_error_illegible split: sum.splits option.splits)
  qed
qed

lemma fs_save_result:
  assumes "fs_save cd k c w = (r, w')"
  shows "case r of
      Inl e \<Rightarrow> fs_text w' = fs_text w
    | Inr u \<Rightarrow> \<exists>d. fs_document cd (fs_text w') = Inr (doc_insert (keychain_account k) (credential_to_stored c) d) \<and>
        (fs_document cd (fs_text w) = Inr d \<or> d = [] \<and> (\<exists>why. fs_document cd (fs_text w) = Inl why))"
proof -
  obtain r1 w1 where l: "fs_lock w = (r1, w1)" by fastforce
  obtain r2 w2 where d: "read_document cd w1 = (r2, w2)" by fastforce
  note texts = fs_lock_text [OF l] read_document_cases [OF d]
  have wr: "write_document x w2 = (r, w') \<Longrightarrow> case r of Inl e \<Rightarrow> fs_text w' = fs_text w
      | Inr u \<Rightarrow> fs_document cd (fs_text w') = Inr x" for x
    using texts by (auto dest!: write_document_cases split: sum.splits)
  show ?thesis
  proof (cases r1)
    case (Inl e)
    with assms l texts show ?thesis by (auto simp: fs_save_def)
  next
    case (Inr u)
    show ?thesis
    proof (cases r2)
      case r2: (Inr doc)
      with assms l d Inr have "write_document (doc_insert (keychain_account k) (credential_to_stored c) doc) w2 = (r, w')"
        by (simp add: fs_save_def)
      from wr [OF this] texts r2 show ?thesis by (auto split: sum.splits)
    next
      case r2: (Inl e)
      show ?thesis
      proof (cases "\<exists>why. e = Corrupt why")
        case True
        with assms l d Inr r2 have "write_document (doc_insert (keychain_account k) (credential_to_stored c) []) w2 = (r, w')"
          by (auto simp: fs_save_def)
        from wr [OF this] texts r2 True show ?thesis by (auto split: sum.splits)
      next
        case False
        with assms l d Inr r2 texts show ?thesis by (auto simp: fs_save_def split: store_error.splits)
      qed
    qed
  qed
qed

lemma fs_delete_result:
  assumes "fs_delete cd k w = (r, w')"
  shows "case r of
      Inl e \<Rightarrow> fs_text w' = fs_text w
    | Inr u \<Rightarrow> \<exists>d. fs_document cd (fs_text w') = Inr (doc_remove (keychain_account k) d) \<and>
        (fs_document cd (fs_text w) = Inr d \<or> d = [] \<and> (\<exists>why. fs_document cd (fs_text w) = Inl why))
      \<or> (fs_document cd (fs_text w') = Inr d \<and> fs_document cd (fs_text w) = Inr d \<and> doc_get d (keychain_account k) = None)"
proof -
  obtain r1 w1 where l: "fs_lock w = (r1, w1)" by fastforce
  obtain r2 w2 where d: "read_document cd w1 = (r2, w2)" by fastforce
  note texts = fs_lock_text [OF l] read_document_cases [OF d]
  have wr: "write_document x w2 = (r, w') \<Longrightarrow> case r of Inl e \<Rightarrow> fs_text w' = fs_text w
      | Inr u \<Rightarrow> fs_document cd (fs_text w') = Inr x" for x
    using texts by (auto dest!: write_document_cases split: sum.splits)
  have rm: "remove_document w2 = (r, w') \<Longrightarrow> case r of Inl e \<Rightarrow> fs_text w' = fs_text w
      | Inr u \<Rightarrow> fs_document cd (fs_text w') = Inr []"
    using texts by (auto dest!: remove_document_cases simp: fs_document_def split: sum.splits)
  show ?thesis
  proof (cases r1)
    case (Inl e)
    with assms l texts show ?thesis by (auto simp: fs_delete_def)
  next
    case (Inr u)
    show ?thesis
    proof (cases r2)
      case r2: (Inr doc)
      show ?thesis
      proof (cases "doc_get doc (keychain_account k) = None")
        case True
        with assms l d Inr r2 texts show ?thesis by (auto simp: fs_delete_def)
      next
        case False
        with assms l d Inr r2 have "write_document (doc_remove (keychain_account k) doc) w2 = (r, w')"
          by (auto simp: fs_delete_def)
        from wr [OF this] texts r2 show ?thesis by (auto split: sum.splits)
      qed
    next
      case r2: (Inl e)
      show ?thesis
      proof (cases "\<exists>why. e = Corrupt why")
        case True
        with assms l d Inr r2 have "remove_document w2 = (r, w')" by (auto simp: fs_delete_def)
        from rm [OF this] texts r2 True show ?thesis by (auto simp: doc_remove_def split: sum.splits)
      next
        case False
        with assms l d Inr r2 texts show ?thesis by (auto simp: fs_delete_def split: store_error.splits)
      qed
    qed
  qed
qed

subsection \<open>The file store meets the trait's contract\<close>

lemma keychain_account_distinct:
  "ck_audience k' \<noteq> ck_audience k \<or> ck_account k' \<noteq> ck_account k \<Longrightarrow> keychain_account k' \<noteq> keychain_account k"
  using keychain_account_inj by blast

lemma fs_save_holds:
  assumes "fs_save cd k c w = (Inr u, w')" and "usable c"
  shows "fs_holds cd w' k = Held c"
  using fs_save_result [OF assms(1)] assms(2)
  by (auto simp: fs_holds_def doc_get_insert stored_roundtrip)

lemma fs_save_other:
  assumes "fs_save cd k c w = (r, w')" and "keychain_account k' \<noteq> keychain_account k"
  shows "fs_holds cd w' k' = fs_holds cd w k' \<or> fs_holds cd w k' = Illegible"
  using fs_save_result [OF assms(1)] assms(2)
  by (cases r) (auto simp: fs_holds_def doc_get_insert)

lemma fs_delete_holds:
  assumes "fs_delete cd k w = (Inr u, w')"
  shows "fs_holds cd w' k = Vacant"
  using fs_delete_result [OF assms] by (auto simp: fs_holds_def doc_get_remove)

lemma fs_delete_other:
  assumes "fs_delete cd k w = (r, w')" and "keychain_account k' \<noteq> keychain_account k"
  shows "fs_holds cd w' k' = fs_holds cd w k' \<or> fs_holds cd w k' = Illegible"
  using fs_delete_result [OF assms(1)] assms(2)
  by (cases r) (auto simp: fs_holds_def doc_get_remove)

lemma fs_failed_write_keeps:
  "fs_save cd k c w = (Inl e, w') \<Longrightarrow> fs_holds cd w' = fs_holds cd w"
  "fs_delete cd k w = (Inl e, w') \<Longrightarrow> fs_holds cd w' = fs_holds cd w"
  by (auto simp: fs_holds_def fun_eq_iff dest!: fs_save_result fs_delete_result)

interpretation fs: credential_store "file_store_ops cd" "fs_holds cd" for cd :: "'t toml_reader"
proof (unfold_locales, goal_cases)
  case (1 k w r w')
  then show ?case by (auto simp: file_store_ops_def fs_holds_def fun_eq_iff dest!: fs_load_result)
next
  case (2 k w c w')
  then show ?case by (auto simp: file_store_ops_def dest!: fs_load_result)
next
  case (3 k w w')
  then show ?case by (auto simp: file_store_ops_def dest!: fs_load_result)
next
  case (4 k w e w')
  then show ?case by (auto simp: file_store_ops_def dest!: fs_load_result)
next
  case (5 k c w u w')
  then show ?case by (simp add: file_store_ops_def fs_save_holds)
next
  case (6 k c w e w')
  then show ?case by (simp add: file_store_ops_def fs_failed_write_keeps(1))
next
  case (7 k c w rs w' k')
  then show ?case
    using fs_save_other [OF _ keychain_account_distinct] by (simp add: file_store_ops_def)
next
  case (8 k w u w')
  then show ?case by (simp add: file_store_ops_def fs_delete_holds)
next
  case (9 k w e w')
  then show ?case by (simp add: file_store_ops_def fs_failed_write_keeps(2))
next
  case (10 k w rs w' k')
  then show ?case
    using fs_delete_other [OF _ keychain_account_distinct] by (simp add: file_store_ops_def)
qed

end
