(* ===== verification/Session_Lemmas.thy ===== *)
theory Session_Lemmas
  imports Session File_Store
begin

text \<open>
  What the functions of \<open>Session\<close> guarantee over any store that keeps the trait's contract, proved once
  in the locale \<open>credential_store\<close>; the file store's interpretation makes them facts of that store.
\<close>

text \<open>The tokens put to the issuer for revocation between two states of a machine.\<close>

definition asked_since :: "('w, 't) machine \<Rightarrow> ('w, 't) machine \<Rightarrow> token set" where
  "asked_since m m' = (\<lambda>(aud, tok, confirmed). tok) ` set (drop (length (ma_revoked m)) (ma_revoked m'))"

text \<open>
  The session a machine really has: the stored one, unless the parked file holds what a rotation made
  of exactly that one.
\<close>

definition effective :: "'t crates \<Rightarrow> slot \<Rightarrow> 't parked_file \<Rightarrow> slot" where
  "effective cr s f =
     (case s of
        Held h \<Rightarrow>
          (case parked_content cr f of
             Some p \<Rightarrow> (if fingerprint cr (refresh_token h) = pk_replaces p then Held (pk_credential p) else s)
           | None \<Rightarrow> s)
      | _ \<Rightarrow> s)"

lemma effective_Vacant [simp]: "effective cr Vacant f = Vacant"
  and effective_Illegible [simp]: "effective cr Illegible f = Illegible"
  and effective_NoFile [simp]: "effective cr s NoFile = s"
  by (simp_all add: effective_def parked_content_def split: slot.splits)

lemma effective_no_content: "parked_content cr f = None \<Longrightarrow> effective cr s f = s"
  by (simp add: effective_def split: slot.splits)

lemma effective_superseded:
  "parked_content cr f = Some p \<Longrightarrow> fingerprint cr (refresh_token h) = pk_replaces p \<Longrightarrow>
     effective cr (Held h) f = Held (pk_credential p)"
  by (simp add: effective_def)

lemma effective_other:
  "parked_content cr f = Some p \<Longrightarrow> fingerprint cr (refresh_token h) \<noteq> pk_replaces p \<Longrightarrow>
     effective cr (Held h) f = Held h"
  by (simp add: effective_def)

text \<open>The state directory's file system works: no failure is to come.\<close>

definition sound_files :: "('w, 't) machine \<Rightarrow> bool" where
  "sound_files m \<longleftrightarrow> True \<notin> set (ma_faults m)"

lemma sound_next_fault: "sound_files m \<Longrightarrow> next_fault m = (b, m') \<Longrightarrow> \<not> b \<and> sound_files m'"
  by (cases "ma_faults m") (auto simp: sound_files_def next_fault_def)

lemma sound_update [simp]:
  "sound_files (m\<lparr>ma_parked := f\<rparr>) = sound_files m" "sound_files (m\<lparr>ma_store := w\<rparr>) = sound_files m"
  by (simp_all add: sound_files_def)

lemma sound_acquire:
  assumes "sound_files m" and "acquire m = (r, m')"
  shows "r = Ok () \<and> sound_files m'"
proof -
  obtain b m1 where nf: "next_fault m = (b, m1)" by fastforce
  from sound_next_fault [OF assms(1) nf] nf assms(2) show ?thesis by (simp add: acquire_def)
qed

lemma parked_content_cases:
  "parked_content cr f =
     (case (case f of ParkedForeign t \<Rightarrow> parse_parked cr t | ParkedWritten r \<Rightarrow> Ok r | NoFile \<Rightarrow> Err []) of
        Inl why \<Rightarrow> None
      | Inr r \<Rightarrow> (case parked_of_record r of Inl e \<Rightarrow> None | Inr p \<Rightarrow> Some p))"
  by (simp add: parked_content_def split: parked_file.splits)

lemma sound_read_parked:
  assumes "sound_files m" and "read_parked cr aud m = (r, m')"
  shows "sound_files m' \<and>
    (case parked_content cr (ma_parked m aud) of
       Some p \<Rightarrow> r = Ok (Some p)
     | None \<Rightarrow> \<forall>p. r \<noteq> Ok (Some p))"
proof (cases "ma_parked m aud")
  case NoFile
  with assms show ?thesis by (auto simp: read_parked_def parked_content_def)
next
  case (ParkedWritten rec)
  obtain b m1 where nf: "next_fault m = (b, m1)" by fastforce
  from sound_next_fault [OF assms(1) nf] nf assms(2) ParkedWritten show ?thesis
    by (auto simp: read_parked_def parked_content_def split: sum.splits)
next
  case (ParkedForeign t)
  obtain b m1 where nf: "next_fault m = (b, m1)" by fastforce
  from sound_next_fault [OF assms(1) nf] nf assms(2) ParkedForeign show ?thesis
    by (auto simp: read_parked_def parked_content_def split: sum.splits)
qed

lemma sound_clear_parked:
  assumes "sound_files m" and "clear_parked aud m = (r, m')"
  shows "r = Ok () \<and> sound_files m' \<and> ma_parked m' = (ma_parked m)(aud := NoFile)"
proof (cases "ma_parked m aud")
  case NoFile
  with assms show ?thesis by (auto simp: clear_parked_def)
next
  case (ParkedWritten rec)
  obtain b m1 where nf: "next_fault m = (b, m1)" by fastforce
  from sound_next_fault [OF assms(1) nf] nf assms(2) ParkedWritten show ?thesis
    by (auto simp: clear_parked_def)
next
  case (ParkedForeign t)
  obtain b m1 where nf: "next_fault m = (b, m1)" by fastforce
  from sound_next_fault [OF assms(1) nf] nf assms(2) ParkedForeign show ?thesis
    by (auto simp: clear_parked_def)
qed

lemma sound_park_credential:
  assumes "sound_files m" and "park_credential cr aud c old m = (r, m')"
  shows "r = Ok () \<and> sound_files m' \<and> ma_parked m' = (ma_parked m)(aud := ParkedWritten (parked_record_of cr c old))"
proof -
  obtain b m1 where nf: "next_fault m = (b, m1)" by fastforce
  from sound_next_fault [OF assms(1) nf] nf assms(2) show ?thesis by (auto simp: park_credential_def)
qed

lemma sound_m_ops:
  "m_load ops k m = (r, m') \<Longrightarrow> sound_files m' = sound_files m"
  "m_save ops k c m = (rs, m') \<Longrightarrow> sound_files m' = sound_files m"
  "m_delete ops k m = (rd, m') \<Longrightarrow> sound_files m' = sound_files m"
  by (auto simp: m_load_def m_save_def m_delete_def sound_files_def split: prod.splits)

lemma sound_revoke: "revoke aud tok m = (b, m') \<Longrightarrow> sound_files m' = sound_files m"
  by (auto simp: revoke_def sound_files_def split: list.splits)

context credential_store
begin

lemma m_load_holds:
  assumes "m_load ops k m = (r, m')"
  shows "holds (ma_store m') = holds (ma_store m)"
    and "r = Ok (Some c) \<Longrightarrow> holds (ma_store m) k = Held c"
    and "r = Ok None \<Longrightarrow> holds (ma_store m) k = Vacant"
    and "r = Err e \<Longrightarrow> illegible_error e \<Longrightarrow> holds (ma_store m) k = Illegible"
proof -
  obtain w where l: "op_load ops k (ma_store m) = (r, w)" and m': "m' = m\<lparr>ma_store := w\<rparr>"
    using assms by (auto simp: m_load_def split: prod.splits)
  show "holds (ma_store m') = holds (ma_store m)" using load_keeps [OF l] m' by simp
  show "r = Ok (Some c) \<Longrightarrow> holds (ma_store m) k = Held c" using load_Some l by blast
  show "r = Ok None \<Longrightarrow> holds (ma_store m) k = Vacant" using load_None l by blast
  show "r = Err e \<Longrightarrow> illegible_error e \<Longrightarrow> holds (ma_store m) k = Illegible" using load_Err l by blast
qed

lemma m_save_holds:
  assumes "m_save ops k c m = (r, m')" and "usable c"
  shows "case r of
      Inr u \<Rightarrow> holds (ma_store m') k = Held c
    | Inl e \<Rightarrow> holds (ma_store m') k = holds (ma_store m) k \<or> holds (ma_store m') k = Held c"
proof -
  obtain w where s: "op_save ops k c (ma_store m) = (r, w)" and m': "m' = m\<lparr>ma_store := w\<rparr>"
    using assms(1) by (auto simp: m_save_def split: prod.splits)
  show ?thesis
  proof (cases r)
    case (Inl e)
    with save_Err [of k c "ma_store m" e w] s m' assms(2) show ?thesis by simp
  next
    case (Inr u)
    with save_Ok [of k c "ma_store m" u w] s m' assms(2) show ?thesis by simp
  qed
qed

lemma m_delete_holds:
  assumes "m_delete ops k m = (r, m')"
  shows "case r of
      Inr u \<Rightarrow> holds (ma_store m') k = Vacant
    | Inl e \<Rightarrow> holds (ma_store m') k = holds (ma_store m) k \<or> holds (ma_store m') k = Vacant"
proof -
  obtain w where d: "op_delete ops k (ma_store m) = (r, w)" and m': "m' = m\<lparr>ma_store := w\<rparr>"
    using assms by (auto simp: m_delete_def split: prod.splits)
  show ?thesis
  proof (cases r)
    case (Inl e)
    with delete_Err [of k "ma_store m" e w] d m' show ?thesis by simp
  next
    case (Inr u)
    with delete_Ok [of k "ma_store m" u w] d m' show ?thesis by simp
  qed
qed

text \<open>
  Recovery never destroys the only copy of a rotated session, whatever fails: it is in the store
  afterwards or still parked beside the session it replaces.
\<close>

lemma recover_keeps_rotation:
  assumes "recover_parked ops cr k m = (r, m')"
    and "parked_content cr (ma_parked m (ck_audience k)) = Some p"
    and "holds (ma_store m) k = Held h"
    and "fingerprint cr (refresh_token h) = pk_replaces p"
  shows "holds (ma_store m') k = Held (pk_credential p) \<or>
    holds (ma_store m') k = Held h \<and> ma_parked m' (ck_audience k) = ma_parked m (ck_audience k)"
proof -
  obtain rp m1 where rp: "read_parked cr (ck_audience k) m = (rp, m1)" by fastforce
  note f1 = read_parked_frame [OF rp]
  show ?thesis
  proof (cases "rp = Ok (Some p)")
    case False
    then have "r = None \<and> m' = m1"
      using assms(1,2) rp read_parked_Some [of cr "ck_audience k" m] by (auto simp: recover_parked_def split: sum.splits option.splits)
    with f1 assms(3) show ?thesis by simp
  next
    case True
    obtain rl m2 where rl: "m_load ops k m1 = (rl, m2)" by fastforce
    note f2 = m_load_frame [OF rl] m_load_holds [OF rl]
    show ?thesis
    proof (cases rl)
      case (Inl e)
      with assms(1,3) rp rl True f1 f2(1,2) show ?thesis by (auto simp: recover_parked_def)
    next
      case (Inr held)
      with f2(3,4) f1 assms(3) have held: "held = Some h" by (cases held) auto
      obtain rs m3 where rs: "m_save ops k (pk_credential p) m2 = (rs, m3)" by fastforce
      have s: "case rs of Inr u \<Rightarrow> holds (ma_store m3) k = Held (pk_credential p)
          | Inl e \<Rightarrow> holds (ma_store m3) k = holds (ma_store m2) k \<or> holds (ma_store m3) k = Held (pk_credential p)"
        using m_save_holds [OF rs parked_content_usable [OF assms(2)]] .
      note f3 = m_save_frame [OF rs]
      have sup: "supersedes cr p held" using held assms(4) by (simp add: supersedes_def)
      show ?thesis
      proof (cases rs)
        case rs': (Inl e)
        with assms(1,3) rp rl rs True Inr sup s f1 f2(1,2) f3 show ?thesis by (auto simp: recover_parked_def)
      next
        case rs': (Inr u)
        obtain rc m4 where rc: "clear_parked (ck_audience k) m3 = (rc, m4)" by fastforce
        with assms(1) rp rl rs True Inr sup rs' have "m' = m4" by (simp add: recover_parked_def)
        with s rs' clear_parked_result [OF rc] show ?thesis by simp
      qed
    qed
  qed
qed

text \<open>And a parked file that replaces anything but the stored session never touches the store.\<close>

lemma recover_leaves_store:
  assumes "recover_parked ops cr k m = (r, m')"
    and "\<And>p h. parked_content cr (ma_parked m (ck_audience k)) = Some p \<Longrightarrow> holds (ma_store m) k = Held h \<Longrightarrow>
       fingerprint cr (refresh_token h) \<noteq> pk_replaces p"
  shows "holds (ma_store m') = holds (ma_store m)"
proof -
  obtain rp m1 where rp: "read_parked cr (ck_audience k) m = (rp, m1)" by fastforce
  note f1 = read_parked_frame [OF rp]
  show ?thesis
  proof (cases "\<exists>p. rp = Ok (Some p)")
    case False
    then have "m' = m1"
      using assms(1) rp by (auto simp: recover_parked_def split: sum.splits option.splits)
    with f1 show ?thesis by simp
  next
    case True
    then obtain p where p: "rp = Ok (Some p)" by blast
    with rp have pc: "parked_content cr (ma_parked m (ck_audience k)) = Some p" by (auto dest: read_parked_Some)
    obtain rl m2 where rl: "m_load ops k m1 = (rl, m2)" by fastforce
    note f2 = m_load_holds [OF rl]
    show ?thesis
    proof (cases rl)
      case (Inl e)
      with assms(1) rp rl p f1 f2(1) show ?thesis by (simp add: recover_parked_def)
    next
      case (Inr held)
      have nsup: "\<not> supersedes cr p held"
        using assms(2) [OF pc] f2(2) Inr f1 by (cases held) (auto simp: supersedes_def)
      show ?thesis
      proof (cases "is_held_in cr p held")
        case True
        obtain rc m3 where rc: "clear_parked (ck_audience k) m2 = (rc, m3)" by fastforce
        with assms(1) rp rl p Inr nsup True have "m' = m3" by (simp add: recover_parked_def)
        with clear_parked_result [OF rc] f1 f2(1) show ?thesis by simp
      next
        case False
        with assms(1) rp rl p Inr nsup f1 f2(1) show ?thesis by (simp add: recover_parked_def)
      qed
    qed
  qed
qed

text \<open>
  With a sound state directory, recovery keeps the effective session in every outcome, and a recovery
  that does not end the command leaves a parked file that supersedes nothing.
\<close>

lemma recover_effective:
  assumes sound: "sound_files m" and rec: "recover_parked ops cr k m = (r, m')"
  shows "effective cr (holds (ma_store m') k) (ma_parked m' (ck_audience k)) =
           effective cr (holds (ma_store m) k) (ma_parked m (ck_audience k))"
    and "r = None \<Longrightarrow> holds (ma_store m') k = effective cr (holds (ma_store m) k) (ma_parked m (ck_audience k)) \<or>
           holds (ma_store m) k = Illegible"
    and "sound_files m'" and "ma_revoked m' = ma_revoked m"
    and "ma_parked m' = ma_parked m \<or> ma_parked m' = (ma_parked m)(ck_audience k := NoFile)"
proof -
  let ?a = "ck_audience k"
  obtain rp m1 where rp: "read_parked cr ?a m = (rp, m1)" by fastforce
  note f1 = read_parked_frame [OF rp] and s1 = sound_read_parked [OF sound rp]
  have "effective cr (holds (ma_store m') k) (ma_parked m' ?a) = effective cr (holds (ma_store m) k) (ma_parked m ?a) \<and>
    (r = None \<longrightarrow> holds (ma_store m') k = effective cr (holds (ma_store m) k) (ma_parked m ?a) \<or> holds (ma_store m) k = Illegible) \<and>
    sound_files m' \<and> ma_revoked m' = ma_revoked m \<and> (ma_parked m' = ma_parked m \<or> ma_parked m' = (ma_parked m)(?a := NoFile))"
  proof (cases "parked_content cr (ma_parked m ?a)")
    case None
    with s1 have "\<forall>p. rp \<noteq> Ok (Some p)" by simp
    with rec rp have "m' = m1 \<and> r = None" by (auto simp: recover_parked_def split: sum.splits option.splits)
    with s1 f1 None show ?thesis by (simp add: effective_no_content)
  next
    case (Some p)
    with s1 have p: "rp = Ok (Some p)" and sm1: "sound_files m1" by simp_all
    obtain rl m2 where rl: "m_load ops k m1 = (rl, m2)" by fastforce
    note h2 = m_load_holds [OF rl] and f2 = m_load_frame [OF rl] and s2 = sound_m_ops(1) [OF rl]
    show ?thesis
    proof (cases rl)
      case (Inl e)
      with rec rp rl p have "m' = m2 \<and> r = Some e" by (simp add: recover_parked_def)
      with h2(1) f1 f2 s2 sm1 show ?thesis by simp
    next
      case (Inr held)
      obtain rc m3 where rc: "clear_parked ?a m2 = (rc, m3)" by fastforce
      note c2 = clear_parked_result [OF rc] and sc2 = sound_clear_parked [OF _ rc]
      show ?thesis
      proof (cases "supersedes cr p held")
        case True
        then obtain h where h: "held = Some h" "fingerprint cr (refresh_token h) = pk_replaces p"
          by (auto simp: supersedes_Some)
        with h2(2) Inr f1 have hm: "holds (ma_store m) k = Held h" by simp
        have eff: "effective cr (Held h) (ma_parked m ?a) = Held (pk_credential p)"
          using effective_superseded [OF Some h(2)] .
        obtain rs m4 where rs: "m_save ops k (pk_credential p) m2 = (rs, m4)" by fastforce
        note h4 = m_save_holds [OF rs parked_content_usable [OF Some]]
          and f4 = m_save_frame [OF rs] and s4 = sound_m_ops(2) [OF rs]
        have sm4: "sound_files m4" using s4 s2 sm1 by simp
        show ?thesis
        proof (cases rs)
          case rs': (Inl e)
          with rec rp rl rs p Inr True have m': "m' = m4 \<and> r = Some e" by (simp add: recover_parked_def)
          have "effective cr (Held (pk_credential p)) (ma_parked m ?a) = Held (pk_credential p)"
            using Some by (simp add: effective_def)
          with m' h4 rs' h2(1) f1 f2 f4 sm4 hm eff show ?thesis by auto
        next
          case rs': (Inr u)
          obtain rd m5 where rd: "clear_parked ?a m4 = (rd, m5)" by fastforce
          with rec rp rl rs p Inr True rs' have m': "m' = m5 \<and> r = None" by (simp add: recover_parked_def)
          note c5 = clear_parked_result [OF rd] and sc5 = sound_clear_parked [OF sm4 rd]
          from c5 sc5 h4 rs' have "holds (ma_store m5) k = Held (pk_credential p)" by simp
          with m' c5 sc5 f1 f2 f4 hm eff show ?thesis by simp
        qed
      next
        case False
        have nsup: "effective cr (holds (ma_store m) k) (ma_parked m ?a) = holds (ma_store m) k"
          if "holds (ma_store m) k \<noteq> Illegible"
        proof (cases held)
          case None
          with h2(3) Inr f1 show ?thesis by simp
        next
          case held: (Some h)
          with h2(2) Inr f1 False Some show ?thesis by (simp add: effective_other supersedes_def)
        qed
        have sm2: "sound_files m2" using s2 sm1 by simp
        show ?thesis
        proof (cases "is_held_in cr p held")
          case True
          with rec rp rl p Inr False rc have m': "m' = m3 \<and> r = None" by (simp add: recover_parked_def)
          have ne: "holds (ma_store m) k \<noteq> Illegible"
            using True h2(2) Inr f1 by (auto simp: is_held_in_def split: option.splits)
          from m' c2 sc2 [OF sm2] f1 f2 h2(1) nsup [OF ne] show ?thesis by simp
        next
          case notheld: False
          with rec rp rl p Inr False have "m' = m2 \<and> r = None" by (simp add: recover_parked_def)
          with nsup f1 f2 h2(1) sm2 show ?thesis by auto
        qed
      qed
    qed
  qed
  then show "effective cr (holds (ma_store m') k) (ma_parked m' ?a) =
        effective cr (holds (ma_store m) k) (ma_parked m ?a)"
    and "r = None \<Longrightarrow> holds (ma_store m') k = effective cr (holds (ma_store m) k) (ma_parked m ?a) \<or>
        holds (ma_store m) k = Illegible"
    and "sound_files m'" and "ma_revoked m' = ma_revoked m"
    and "ma_parked m' = ma_parked m \<or> ma_parked m' = (ma_parked m)(?a := NoFile)"
    by blast+
qed

lemma read_locked_effective:
  assumes sound: "sound_files m" and rd: "read_locked ops cr k m = (r, m')"
  shows "effective cr (holds (ma_store m') k) (ma_parked m' (ck_audience k)) =
           effective cr (holds (ma_store m) k) (ma_parked m (ck_audience k))"
    and "r = Ok (Some c) \<Longrightarrow> holds (ma_store m') k = Held c \<and>
           effective cr (holds (ma_store m) k) (ma_parked m (ck_audience k)) = Held c"
    and "r = Ok None \<Longrightarrow> holds (ma_store m') k = Vacant \<and>
           effective cr (holds (ma_store m) k) (ma_parked m (ck_audience k)) = Vacant"
    and "sound_files m'" and "ma_revoked m' = ma_revoked m"
    and "ma_parked m' = ma_parked m \<or> ma_parked m' = (ma_parked m)(ck_audience k := NoFile)"
proof -
  obtain ra m1 where ra: "acquire m = (ra, m1)" by fastforce
  note f1 = acquire_frame [OF ra] and s1 = sound_acquire [OF sound ra]
  obtain rr m2 where rr: "recover_parked ops cr k m1 = (rr, m2)" by fastforce
  note e2 = recover_effective [OF _ rr]
  obtain rl m3 where rl: "m_load ops k m2 = (rl, m3)" by fastforce
  note h3 = m_load_holds [OF rl] and f3 = m_load_frame [OF rl] and s3 = sound_m_ops(1) [OF rl]
  have sm1: "sound_files m1" and okr: "ra = Ok ()" using s1 by simp_all
  have *: "ma_parked m3 = ma_parked m2 \<and> ma_revoked m3 = ma_revoked m2 \<and> holds (ma_store m3) = holds (ma_store m2) \<and> sound_files m3"
    using f3 h3(1) s3 e2(3) [OF sm1] by simp
  have m': "m' = m2 \<or> m' = m3"
    using rd ra okr rr rl by (auto simp: read_locked_def split: option.splits sum.splits)
  from m' * e2(1,3,4,5) [OF sm1] f1
  show "effective cr (holds (ma_store m') k) (ma_parked m' (ck_audience k)) =
      effective cr (holds (ma_store m) k) (ma_parked m (ck_audience k))"
    and "sound_files m'" and "ma_revoked m' = ma_revoked m"
    and "ma_parked m' = ma_parked m \<or> ma_parked m' = (ma_parked m)(ck_audience k := NoFile)"
    by auto
  have ok: "rr = None \<and> m' = m3 \<and> rl = Ok x" if "r = Ok x" for x
    using that rd ra okr rr rl by (auto simp: read_locked_def split: option.splits sum.splits)
  have ill: "holds (ma_store m2) k = effective cr (holds (ma_store m1) k) (ma_parked m1 (ck_audience k))"
    if "rr = None" and "holds (ma_store m2) k \<noteq> Illegible"
  proof (cases "holds (ma_store m1) k = Illegible")
    case True
    \<comment> \<open>An illegible record is left as it is.\<close>
    have "holds (ma_store m2) = holds (ma_store m1)"
      by (rule recover_leaves_store [OF rr]) (simp add: True)
    with True that(2) show ?thesis by simp
  next
    case False
    with e2(2) [OF sm1 that(1)] show ?thesis by blast
  qed
  show "r = Ok (Some c) \<Longrightarrow> holds (ma_store m') k = Held c \<and>
      effective cr (holds (ma_store m) k) (ma_parked m (ck_audience k)) = Held c"
    using ok [of "Some c"] h3(1) h3(2) [of c] ill f1 by auto
  show "r = Ok None \<Longrightarrow> holds (ma_store m') k = Vacant \<and>
      effective cr (holds (ma_store m) k) (ma_parked m (ck_audience k)) = Vacant"
    using ok [of None] h3(1,3) ill f1 by auto
qed

text \<open>
  Filing a rotation: wherever the failures fall, the new session is in the store or parked, unless the
  parking itself failed, which is reported as such.
\<close>

lemma file_rotation_outcomes:
  assumes fr: "file_rotation ops cr state_dir k rotated existing m = (r, m')" and us: "usable rotated"
  shows "(r = Ok rotated \<and> holds (ma_store m') k = Held rotated \<and> ma_parked m' = ma_parked m) \<or>
    (\<exists>why. r = Err (SavedToFallback (kind_as_str (op_kind ops)) why (parked_path state_dir (ck_audience k)))) \<and>
       ma_parked m' = (ma_parked m)(ck_audience k := ParkedWritten (parked_record_of cr rotated existing)) \<and>
       (holds (ma_store m') k = holds (ma_store m) k \<or> holds (ma_store m') k = Held rotated) \<or>
    (\<exists>e. r = Err (SessionStore e)) \<and> \<not> sound_files m \<and> ma_parked m' = ma_parked m \<and>
       (holds (ma_store m') k = holds (ma_store m) k \<or> holds (ma_store m') k = Held rotated)"
proof -
  obtain rs m1 where rs: "m_save ops k rotated m = (rs, m1)" by fastforce
  note h1 = m_save_holds [OF rs us] and f1 = m_save_frame [OF rs] and s1 = sound_m_ops(2) [OF rs]
  show ?thesis
  proof (cases rs)
    case (Inr u)
    with fr rs h1 f1 show ?thesis by (auto simp: file_rotation_def)
  next
    case (Inl e)
    obtain rp m2 where rp: "park_credential cr (ck_audience k) rotated existing m1 = (rp, m2)" by fastforce
    note c2 = park_credential_result [OF rp] and s2 = sound_park_credential [OF _ rp]
    show ?thesis
    proof (cases rp)
      case rp': (Inr u)
      with fr rs Inl rp have "r = Err (SavedToFallback (kind_as_str (op_kind ops)) (store_error_text e)
          (parked_path state_dir (ck_audience k)))" "m' = m2"
        by (simp_all add: file_rotation_def)
      with h1 Inl f1 c2 rp' show ?thesis by auto
    next
      case rp': (Inl pe)
      with fr rs Inl rp have "r = Err (SessionStore pe)" "m' = m2" by (simp_all add: file_rotation_def)
      moreover from s2 rp' have "\<not> sound_files m1" by auto
      ultimately show ?thesis using h1 Inl f1 c2 rp' s1 by auto
    qed
  qed
qed

lemma file_rotation_effective:
  assumes sound: "sound_files m" and fr: "file_rotation ops cr state_dir k rotated existing m = (r, m')"
    and us: "usable rotated" and held: "holds (ma_store m) k = Held existing"
    and fresh: "\<And>p. parked_content cr (ma_parked m (ck_audience k)) = Some p \<Longrightarrow>
        fingerprint cr (refresh_token rotated) \<noteq> pk_replaces p"
  shows "effective cr (holds (ma_store m') k) (ma_parked m' (ck_audience k)) = Held rotated"
  using file_rotation_outcomes [OF fr us] sound
proof (elim disjE)
  assume "r = Ok rotated \<and> holds (ma_store m') k = Held rotated \<and> ma_parked m' = ma_parked m"
  with fresh show ?thesis by (simp add: effective_def split: option.splits)
next
  assume *: "(\<exists>why. r = Err (SavedToFallback (kind_as_str (op_kind ops)) why (parked_path state_dir (ck_audience k)))) \<and>
       ma_parked m' = (ma_parked m)(ck_audience k := ParkedWritten (parked_record_of cr rotated existing)) \<and>
       (holds (ma_store m') k = holds (ma_store m) k \<or> holds (ma_store m') k = Held rotated)"
  with held parked_roundtrip [OF us, of cr existing] show ?thesis
    by (auto simp: effective_def)
qed auto

end

lemma sound_file_rotation:
  assumes "sound_files m" and "file_rotation ops cr state_dir k rotated existing m = (r, m')"
  shows "sound_files m'"
proof -
  obtain rs m1 where rs: "m_save ops k rotated m = (rs, m1)" by fastforce
  obtain rp m2 where rp: "park_credential cr (ck_audience k) rotated existing m1 = (rp, m2)" by fastforce
  have "sound_files m1" using assms(1) sound_m_ops(2) [OF rs] by simp
  moreover from this have "sound_files m2" using sound_park_credential [OF _ rp] by blast
  ultimately show ?thesis using assms(2) rs rp by (auto simp: file_rotation_def split: sum.splits)
qed

lemma revoke_stored_result:
  assumes "revoke_stored aud rd m = (sv, m')"
  shows "ma_store m' = ma_store m" and "ma_parked m' = ma_parked m" and "\<exists>xs. ma_revoked m' = ma_revoked m @ xs"
    and "rd = ReadHeld h \<Longrightarrow> \<exists>b. sv = Some b \<and> (aud, refresh_token h, b) \<in> set (ma_revoked m')"
    and "rd = ReadIllegible why \<Longrightarrow> sv = Some False"
proof -
  have "ma_store m' = ma_store m \<and> ma_parked m' = ma_parked m \<and> (\<exists>xs. ma_revoked m' = ma_revoked m @ xs) \<and>
    (rd = ReadHeld h \<longrightarrow> (\<exists>b. sv = Some b \<and> (aud, refresh_token h, b) \<in> set (ma_revoked m'))) \<and>
    (rd = ReadIllegible why \<longrightarrow> sv = Some False)"
  proof (cases rd)
    case (ReadHeld c)
    obtain b m1 where r: "revoke aud (refresh_token c) m = (b, m1)" by fastforce
    with assms ReadHeld revoke_result [OF r] show ?thesis by (auto simp: revoke_stored_def)
  qed (use assms in \<open>simp_all add: revoke_stored_def\<close>)
  then show "ma_store m' = ma_store m" and "ma_parked m' = ma_parked m" and "\<exists>xs. ma_revoked m' = ma_revoked m @ xs"
    and "rd = ReadHeld h \<Longrightarrow> \<exists>b. sv = Some b \<and> (aud, refresh_token h, b) \<in> set (ma_revoked m')"
    and "rd = ReadIllegible why \<Longrightarrow> sv = Some False"
    by blast+
qed

lemma revoke_parked_result:
  assumes "revoke_parked cr aud m = (pv, m')"
  shows "ma_store m' = ma_store m" and "ma_parked m' = ma_parked m" and "\<exists>xs. ma_revoked m' = ma_revoked m @ xs"
    and "parked_content cr (ma_parked m aud) = Some p \<Longrightarrow>
         pv = Some False \<or> (\<exists>b. pv = Some b \<and> (aud, refresh_token (pk_credential p), b) \<in> set (ma_revoked m'))"
proof -
  obtain rp m1 where rp: "read_parked cr aud m = (rp, m1)" by fastforce
  note frp = read_parked_frame [OF rp]
  have "ma_store m' = ma_store m \<and> ma_parked m' = ma_parked m \<and> (\<exists>xs. ma_revoked m' = ma_revoked m @ xs) \<and>
    (parked_content cr (ma_parked m aud) = Some p \<longrightarrow>
       pv = Some False \<or> (\<exists>b. pv = Some b \<and> (aud, refresh_token (pk_credential p), b) \<in> set (ma_revoked m')))"
  proof (cases rp)
    case (Inl e)
    with assms rp frp show ?thesis by (auto simp: revoke_parked_def)
  next
    case (Inr o')
    show ?thesis
    proof (cases o')
      case None
      with Inr rp have "ma_parked m aud = NoFile" using read_parked_None by blast
      with None Inr assms rp frp show ?thesis by (auto simp: revoke_parked_def parked_content_def)
    next
      case (Some q)
      obtain b m2 where r: "revoke aud (refresh_token (pk_credential q)) m1 = (b, m2)" by fastforce
      have "parked_content cr (ma_parked m aud) = Some q" using rp Inr Some read_parked_Some by blast
      with Some Inr assms rp frp r revoke_result [OF r] show ?thesis by (auto simp: revoke_parked_def)
    qed
  qed
  then show "ma_store m' = ma_store m" and "ma_parked m' = ma_parked m" and "\<exists>xs. ma_revoked m' = ma_revoked m @ xs"
    and "parked_content cr (ma_parked m aud) = Some p \<Longrightarrow>
         pv = Some False \<or> (\<exists>b. pv = Some b \<and> (aud, refresh_token (pk_credential p), b) \<in> set (ma_revoked m'))"
    by blast+
qed

lemma sound_revoke_stored:
  "sound_files m \<Longrightarrow> revoke_stored aud rd m = (sv, m') \<Longrightarrow> sound_files m'"
  by (cases rd) (auto simp: revoke_stored_def dest: sound_revoke split: prod.splits)

lemma sound_revoke_parked:
  assumes "sound_files m" and "revoke_parked cr aud m = (pv, m')"
  shows "sound_files m'"
proof -
  obtain rp m1 where rp: "read_parked cr aud m = (rp, m1)" by fastforce
  have sm1: "sound_files m1" using sound_read_parked [OF assms(1) rp] by simp
  show ?thesis
  proof (cases "\<exists>p. rp = Ok (Some p)")
    case True
    then obtain p where p: "rp = Ok (Some p)" by blast
    obtain b m2 where r: "revoke aud (refresh_token (pk_credential p)) m1 = (b, m2)" by fastforce
    with assms(2) rp p sm1 sound_revoke [OF r] show ?thesis by (simp add: revoke_parked_def)
  next
    case False
    with assms(2) rp sm1 show ?thesis by (auto simp: revoke_parked_def split: sum.splits option.splits)
  qed
qed

text \<open>What a writer learns of the record it replaces.\<close>

context credential_store
begin

lemma readable_load:
  assumes "m_load ops k m = (rl, m')" and "readable_of rl = Ok rd" and "holds (ma_store m) k = Held h"
  shows "rd = ReadHeld h"
proof (cases rl)
  case (Inl e)
  with assms m_load_holds(4) [OF assms(1)] show ?thesis
    by (auto simp: readable_of_def split: store_error.splits)
next
  case (Inr found)
  with assms m_load_holds(2,3) [OF assms(1)] show ?thesis
    by (cases found) (auto simp: readable_of_def)
qed

text \<open>A sign-out that succeeds leaves no session behind, and reports what the issuer said of each.\<close>

lemma sign_out_Ok:
  assumes so: "sign_out ops cr k m = (Ok outcome, m')"
  shows "holds (ma_store m') k = Vacant" and "ma_parked m' (ck_audience k) = NoFile"
    and "outcome = Confirmed \<Longrightarrow>
      (\<forall>h. holds (ma_store m) k = Held h \<longrightarrow> (ck_audience k, refresh_token h, True) \<in> set (ma_revoked m')) \<and>
      (\<forall>p. parked_content cr (ma_parked m (ck_audience k)) = Some p \<longrightarrow>
         (ck_audience k, refresh_token (pk_credential p), True) \<in> set (ma_revoked m'))"
proof -
  let ?a = "ck_audience k"
  obtain ra m1 where ra: "acquire m = (ra, m1)" by fastforce
  obtain rl m2 where rl: "m_load ops k m1 = (rl, m2)" by fastforce
  obtain ro where ro: "readable_of rl = ro" by blast
  from so ra rl ro obtain rd where rd: "ro = Ok rd" and okr: "ra = Ok ()"
    by (auto simp: sign_out_def split: sum.splits)
  obtain sv m3 where sv: "revoke_stored ?a rd m2 = (sv, m3)" by fastforce
  obtain pv m4 where pv: "revoke_parked cr ?a m3 = (pv, m4)" by fastforce
  obtain cl m5 where cl: "clear_parked ?a m4 = (cl, m5)" by fastforce
  obtain dl m6 where dl: "m_delete ops k m5 = (dl, m6)" by fastforce
  from so ra okr rl ro rd sv pv cl dl have fin: "cl = Ok ()" "dl = Ok ()" "m' = m6" "outcome = revocation_of sv pv"
    by (auto simp: sign_out_def split: sum.splits)
  note f = acquire_frame [OF ra] m_load_frame [OF rl] clear_parked_result [OF cl] m_delete_frame [OF dl]
  show "holds (ma_store m') k = Vacant" using m_delete_holds [OF dl] fin by simp
  show "ma_parked m' ?a = NoFile" using f fin by simp
  note st = revoke_stored_result [OF sv] and pk = revoke_parked_result [OF pv]
  have p3: "ma_parked m3 = ma_parked m" and w2: "holds (ma_store m1) = holds (ma_store m)"
    and chain: "set (ma_revoked m3) \<subseteq> set (ma_revoked m')" "set (ma_revoked m4) = set (ma_revoked m')"
    using st(2) pk(3) f fin by auto
  assume "outcome = Confirmed"
  with fin have "revocation_of sv pv = Confirmed" by simp
  then have conf: "sv \<noteq> Some False" "pv \<noteq> Some False" by (simp_all add: revocation_of_Confirmed)
  show "(\<forall>h. holds (ma_store m) k = Held h \<longrightarrow> (?a, refresh_token h, True) \<in> set (ma_revoked m')) \<and>
      (\<forall>p. parked_content cr (ma_parked m ?a) = Some p \<longrightarrow> (?a, refresh_token (pk_credential p), True) \<in> set (ma_revoked m'))"
  proof (intro conjI allI impI)
    fix h assume "holds (ma_store m) k = Held h"
    with rl ro rd w2 have "rd = ReadHeld h" using readable_load [of k m1 rl m2 rd h] by simp
    from st(4) [OF this] obtain b where "sv = Some b" "(?a, refresh_token h, b) \<in> set (ma_revoked m3)" by blast
    moreover from this conf have "b = True" by simp
    ultimately show "(?a, refresh_token h, True) \<in> set (ma_revoked m')" using chain by blast
  next
    fix p assume "parked_content cr (ma_parked m ?a) = Some p"
    then have "parked_content cr (ma_parked m3 ?a) = Some p" by (simp only: p3)
    from pk(4) [OF this] conf obtain b where "pv = Some b" "(?a, refresh_token (pk_credential p), b) \<in> set (ma_revoked m4)"
      by blast
    moreover from this conf have "b = True" by simp
    ultimately show "(?a, refresh_token (pk_credential p), True) \<in> set (ma_revoked m')" by (simp only: chain)
  qed
qed

text \<open>A sign-in that succeeds is what the store holds, and no parked leftover can undo it.\<close>

lemma store_new_session_Ok:
  assumes sn: "store_new_session ops cr state_dir k c m = (Ok rep, m')" and us: "usable c"
  shows "holds (ma_store m') k = Held c" and "ma_parked m' = ma_parked m \<or> ma_parked m' = (ma_parked m)(ck_audience k := NoFile)"
    and "holds (ma_store m) k = Held h \<Longrightarrow> \<exists>b. (ck_audience k, refresh_token h, b) \<in> set (ma_revoked m')"
proof -
  let ?a = "ck_audience k"
  obtain ra m1 where ra: "acquire m = (ra, m1)" by fastforce
  obtain rl m2 where rl: "m_load ops k m1 = (rl, m2)" by fastforce
  obtain ro where ro: "readable_of rl = ro" by blast
  obtain rs m3 where rs: "m_save ops k c m2 = (rs, m3)" by fastforce
  from sn ra rl ro rs obtain rd where rd: "ro = Ok rd" and okr: "ra = Ok ()" "rs = Ok ()"
    by (auto simp: store_new_session_def split: sum.splits)
  obtain pv m4 where pv: "revoke_parked cr ?a m3 = (pv, m4)" by fastforce
  obtain cl m5 where cl: "clear_parked ?a m4 = (cl, m5)" by fastforce
  define m6 where "m6 = (case rd of ReadHeld previous \<Rightarrow> snd (revoke ?a (refresh_token previous) m5) | _ \<Rightarrow> m5)"
  from sn ra rl ro rd okr rs pv cl have fin: "m' = m6"
    by (auto simp: store_new_session_def m6_def Let_def split: sum.splits)
  note f = acquire_frame [OF ra] m_load_frame [OF rl] m_save_frame [OF rs] clear_parked_result [OF cl]
  note p4 = revoke_parked_result(1,2) [OF pv]
  have p6: "ma_store m6 = ma_store m5 \<and> ma_parked m6 = ma_parked m5 \<and>
      (\<forall>h. rd = ReadHeld h \<longrightarrow> (\<exists>b. (?a, refresh_token h, b) \<in> set (ma_revoked m6)))"
  proof (cases rd)
    case (ReadHeld h)
    obtain b m7 where "revoke ?a (refresh_token h) m5 = (b, m7)" by fastforce
    with ReadHeld revoke_result [OF this] show ?thesis by (auto simp: m6_def)
  qed (simp_all add: m6_def)
  show "holds (ma_store m') k = Held c"
    using m_save_holds [OF rs us] okr p4 p6 f fin by simp
  show "ma_parked m' = ma_parked m \<or> ma_parked m' = (ma_parked m)(?a := NoFile)"
    using p4 p6 f fin by (auto split: sum.splits)
  assume h: "holds (ma_store m) k = Held h"
  with rl ro rd f(1) have "rd = ReadHeld h" using readable_load [of k m1 rl m2 rd h] by simp
  with p6 fin show "\<exists>b. (?a, refresh_token h, b) \<in> set (ma_revoked m')" by blast
qed

text \<open>What a sign-in and a sign-out can leave behind, failures of the store included.\<close>

lemma store_new_session_any:
  assumes sound: "sound_files m" and sn: "store_new_session ops cr state_dir k c m = (r, m')" and us: "usable c"
  shows "sound_files m' \<and>
    (ma_parked m' = ma_parked m \<and> (holds (ma_store m') k = holds (ma_store m) k \<or> holds (ma_store m') k = Held c) \<or>
     ma_parked m' = (ma_parked m)(ck_audience k := NoFile) \<and> holds (ma_store m') k = Held c)"
proof -
  let ?a = "ck_audience k"
  obtain ra m1 where ra: "acquire m = (ra, m1)" by fastforce
  note s1 = sound_acquire [OF sound ra]
  obtain rl m2 where rl: "m_load ops k m1 = (rl, m2)" by fastforce
  obtain rs m3 where rs: "m_save ops k c m2 = (rs, m3)" by fastforce
  obtain pv m4 where pv: "revoke_parked cr ?a m3 = (pv, m4)" by fastforce
  obtain cl m5 where cl: "clear_parked ?a m4 = (cl, m5)" by fastforce
  note f = acquire_frame [OF ra] m_load_frame [OF rl] m_load_holds(1) [OF rl] m_save_frame [OF rs]
  have sm3: "sound_files m3" and sm2: "sound_files m2"
    using s1 sound_m_ops(1) [OF rl] sound_m_ops(2) [OF rs] by simp_all
  have sm4: "sound_files m4" using sm3 pv by (rule sound_revoke_parked)
  note c5 = sound_clear_parked [OF sm4 cl] and cf = clear_parked_result [OF cl]
  note p4 = revoke_parked_result(1,2) [OF pv] and h3 = m_save_holds [OF rs us]
  have h3': "holds (ma_store m3) k = holds (ma_store m) k \<or> holds (ma_store m3) k = Held c"
    using h3 f by (auto split: sum.splits)
  show ?thesis
  proof (cases "readable_of rl")
    case (Inl e)
    with sn ra s1 rl have "m' = m2" by (simp add: store_new_session_def)
    with f sm2 show ?thesis by simp
  next
    case (Inr rd)
    show ?thesis
    proof (cases rs)
      case rs': (Inl e)
      with sn ra s1 rl Inr rs have "m' = m3" by (simp add: store_new_session_def)
      with f sm3 h3' show ?thesis by simp
    next
      case rs': (Inr u)
      define m6 where "m6 = (case rd of ReadHeld previous \<Rightarrow> snd (revoke ?a (refresh_token previous) m5) | _ \<Rightarrow> m5)"
      from sn ra s1 rl Inr rs rs' pv cl have m': "m' = m6"
        by (simp add: store_new_session_def m6_def Let_def)
      have "ma_store m6 = ma_store m5 \<and> ma_parked m6 = ma_parked m5 \<and> sound_files m6 = sound_files m5"
      proof (cases rd)
        case (ReadHeld h)
        obtain b m7 where r: "revoke ?a (refresh_token h) m5 = (b, m7)" by fastforce
        with ReadHeld revoke_result [OF r] sound_revoke [OF r] show ?thesis by (simp add: m6_def)
      qed (simp_all add: m6_def)
      with m' c5 cf p4 h3 rs' f show ?thesis by simp
    qed
  qed
qed

lemma sign_out_any:
  assumes sound: "sound_files m" and so: "sign_out ops cr k m = (r, m')"
  shows "sound_files m' \<and> (ma_parked m' = ma_parked m \<or> ma_parked m' = (ma_parked m)(ck_audience k := NoFile)) \<and>
    (holds (ma_store m') k = holds (ma_store m) k \<or> holds (ma_store m') k = Vacant)"
proof -
  let ?a = "ck_audience k"
  obtain ra m1 where ra: "acquire m = (ra, m1)" by fastforce
  note s1 = sound_acquire [OF sound ra]
  obtain rl m2 where rl: "m_load ops k m1 = (rl, m2)" by fastforce
  note f = acquire_frame [OF ra] m_load_frame [OF rl] m_load_holds(1) [OF rl]
  have sm2: "sound_files m2" using s1 sound_m_ops(1) [OF rl] by simp
  show ?thesis
  proof (cases "readable_of rl")
    case (Inl e)
    with so ra s1 rl have "m' = m2" by (simp add: sign_out_def)
    with f sm2 show ?thesis by simp
  next
    case (Inr rd)
    obtain sv m3 where sv: "revoke_stored ?a rd m2 = (sv, m3)" by fastforce
    obtain pv m4 where pv: "revoke_parked cr ?a m3 = (pv, m4)" by fastforce
    obtain cl m5 where cl: "clear_parked ?a m4 = (cl, m5)" by fastforce
    obtain dl m6 where dl: "m_delete ops k m5 = (dl, m6)" by fastforce
    have sm4: "sound_files m4" using sound_revoke_parked [OF sound_revoke_stored [OF sm2 sv] pv] .
    note c5 = sound_clear_parked [OF sm4 cl] and cf = clear_parked_result [OF cl]
    note st = revoke_stored_result(1,2) [OF sv] and pk = revoke_parked_result(1,2) [OF pv]
    from so ra s1 rl Inr sv pv cl dl have "m' = m6" by (auto simp: sign_out_def split: sum.splits)
    moreover have "holds (ma_store m6) k = holds (ma_store m5) k \<or> holds (ma_store m6) k = Vacant"
      using m_delete_holds [OF dl] by (auto split: sum.splits)
    ultimately show ?thesis
      using c5 cf st pk f m_delete_frame [OF dl] sound_m_ops(3) [OF dl] by simp
  qed
qed

text \<open>A sign-out that touched the parked file has put the stored token to the issuer before.\<close>

lemma sign_out_asks:
  assumes sound: "sound_files m" and so: "sign_out ops cr k m = (r, m')" and h: "holds (ma_store m) k = Held h"
    and touched: "ma_parked m' \<noteq> ma_parked m"
  shows "refresh_token h \<in> asked_since m m'"
proof -
  let ?a = "ck_audience k"
  obtain ra m1 where ra: "acquire m = (ra, m1)" by fastforce
  note s1 = sound_acquire [OF sound ra]
  obtain rl m2 where rl: "m_load ops k m1 = (rl, m2)" by fastforce
  note f = acquire_frame [OF ra] m_load_frame [OF rl] m_load_holds(1) [OF rl]
  show ?thesis
  proof (cases "readable_of rl")
    case (Inl e)
    with so ra s1 rl have "m' = m2" by (simp add: sign_out_def)
    with f touched show ?thesis by simp
  next
    case (Inr rd)
    have rd: "rd = ReadHeld h" using readable_load [OF rl Inr] h f by simp
    obtain sv m3 where sv: "revoke_stored ?a rd m2 = (sv, m3)" by fastforce
    obtain pv m4 where pv: "revoke_parked cr ?a m3 = (pv, m4)" by fastforce
    obtain cl m5 where cl: "clear_parked ?a m4 = (cl, m5)" by fastforce
    obtain dl m6 where dl: "m_delete ops k m5 = (dl, m6)" by fastforce
    from so ra s1 rl Inr sv pv cl dl have "m' = m6" by (auto simp: sign_out_def split: sum.splits)
    moreover obtain b where "ma_revoked m3 = ma_revoked m2 @ [(?a, refresh_token h, b)]"
      using sv rd by (auto simp: revoke_stored_def revoke_def split: list.splits)
    moreover obtain xs where "ma_revoked m4 = ma_revoked m3 @ xs" using revoke_parked_result(3) [OF pv] by blast
    ultimately have "ma_revoked m' = ma_revoked m @ [(?a, refresh_token h, b)] @ xs"
      using f m_delete_frame [OF dl] clear_parked_result [OF cl] by simp
    then show ?thesis by (auto simp: asked_since_def)
  qed
qed

end

end
