(* ===== verification/Session_Protocol.thy ===== *)
theory Session_Protocol
  imports Session_Lemmas
begin

text \<open>
  Several erpc processes on one machine and one session between them: \<open>current_session\<close>,
  \<open>store_new_session\<close> and \<open>sign_out\<close> of \<open>session.rs\<close> interleaved at the points where the refresh
  lock is held across a wait (for the issuer), and the issuer's side of a refresh-token family.

  A refresh token is spent once the issuer has rotated it; showing it again revokes the family. The steps
  use the functions of \<open>Session\<close> as they are. The store fails as its contract allows; the state
  directory's files work (\<open>sound_files\<close>). A request for a refresh ends in one of three ways: the issuer did
  not rotate the token, its answer arrived, or it rotated the token and the answer never arrived in a
  readable form -- the request timed out, the reply was malformed, or the process died waiting. A process can
  also die with the answer in hand, before the save or the park. The token spent in the last two ways,
  with nothing on the machine in its place, is kept in \<open>sy_lost\<close>; the tokens a sign-out put to the issuer
  for revocation are kept in \<open>sy_retired\<close>, whatever else that sign-out did or failed to do.
\<close>

subsection \<open>States\<close>

text \<open>What a process holds across a wait: the session it refreshes, then also the one it got.\<close>

datatype phase = Quiet | Refreshing credential | Unsaved credential credential

record ('w, 't) system =
  sy_machine :: "('w, 't) machine"
  sy_phase :: "nat \<Rightarrow> phase"
  sy_holder :: "nat option"
  sy_issued :: "token set"
  sy_spent :: "token set"
  sy_retired :: "token set"
  sy_lost :: "token set"

definition set_phase :: "nat \<Rightarrow> phase \<Rightarrow> ('w, 't) system \<Rightarrow> ('w, 't) system" where
  "set_phase i ph s = s\<lparr>sy_phase := (sy_phase s)(i := ph),
     sy_holder := (if ph = Quiet then None else Some i)\<rparr>"

definition fresh_token :: "'t crates \<Rightarrow> ('w, 't) system \<Rightarrow> credential \<Rightarrow> bool" where
  "fresh_token cr s c \<longleftrightarrow> usable c \<and> fingerprint cr (refresh_token c) \<notin> fingerprint cr ` sy_issued s"

text \<open>The parked file holds what replaced a session: a process that dies now loses nothing.\<close>

definition replaced_by_parked :: "'t crates \<Rightarrow> cred_key \<Rightarrow> ('w, 't) machine \<Rightarrow> credential \<Rightarrow> bool" where
  "replaced_by_parked cr k m c =
     (case parked_content cr (ma_parked m (ck_audience k)) of
        Some p \<Rightarrow> pk_replaces p = fingerprint cr (refresh_token c)
      | None \<Rightarrow> False)"

subsection \<open>Steps\<close>

inductive session_step ::
  "'w store_ops \<Rightarrow> 't crates \<Rightarrow> string \<Rightarrow> cred_key \<Rightarrow> ('w, 't) system \<Rightarrow> ('w, 't) system \<Rightarrow> bool"
  for ops cr state_dir k where
  read_only:
    "sy_holder s = None \<Longrightarrow> read_locked ops cr k (sy_machine s) = (r, m') \<Longrightarrow>
     (\<forall>c. r = Ok (Some c) \<longrightarrow> \<not> needs_refresh c now \<or> leaving) \<Longrightarrow>
     session_step ops cr state_dir k s (s\<lparr>sy_machine := m'\<rparr>)"
| read_and_refresh:
    "sy_holder s = None \<Longrightarrow> read_locked ops cr k (sy_machine s) = (Ok (Some c), m') \<Longrightarrow> needs_refresh c now \<Longrightarrow>
     session_step ops cr state_dir k s (set_phase i (Refreshing c) (s\<lparr>sy_machine := m'\<rparr>))"
| refused:
    "sy_phase s i = Refreshing c \<Longrightarrow> session_step ops cr state_dir k s (set_phase i Quiet s)"
| answered:
    "sy_phase s i = Refreshing c \<Longrightarrow> fresh_token cr s c' \<Longrightarrow>
     session_step ops cr state_dir k s (set_phase i (Unsaved c' c)
       (s\<lparr>sy_issued := insert (refresh_token c') (sy_issued s), sy_spent := insert (refresh_token c) (sy_spent s)\<rparr>))"
| answer_lost:
    "sy_phase s i = Refreshing c \<Longrightarrow> fresh_token cr s c' \<Longrightarrow>
     session_step ops cr state_dir k s (set_phase i Quiet
       (s\<lparr>sy_issued := insert (refresh_token c') (sy_issued s), sy_spent := insert (refresh_token c) (sy_spent s),
          sy_lost := insert (refresh_token c) (sy_lost s)\<rparr>))"
| died:
    "sy_phase s i = Unsaved c' c \<Longrightarrow>
     session_step ops cr state_dir k s (set_phase i Quiet
       (s\<lparr>sy_lost := (if replaced_by_parked cr k (sy_machine s) c then sy_lost s
                     else insert (refresh_token c) (sy_lost s))\<rparr>))"
| filed:
    "sy_phase s i = Unsaved c' c \<Longrightarrow> file_rotation ops cr state_dir k c' c (sy_machine s) = (r, m') \<Longrightarrow>
     session_step ops cr state_dir k s (set_phase i Quiet (s\<lparr>sy_machine := m'\<rparr>))"
| dropped:
    "sy_phase s i = Unsaved c' c \<Longrightarrow> park_credential cr (ck_audience k) c' c (sy_machine s) = (r, m') \<Longrightarrow>
     session_step ops cr state_dir k s (set_phase i Quiet (s\<lparr>sy_machine := m'\<rparr>))"
| left_parked:
    "sy_phase s i = Unsaved c' c \<Longrightarrow> park_credential cr (ck_audience k) c' c (sy_machine s) = (r, m') \<Longrightarrow>
     session_step ops cr state_dir k s (s\<lparr>sy_machine := m'\<rparr>)"
| signed_in:
    "sy_holder s = None \<Longrightarrow> fresh_token cr s c \<Longrightarrow>
     store_new_session ops cr state_dir k c (sy_machine s) = (r, m') \<Longrightarrow>
     session_step ops cr state_dir k s (s\<lparr>sy_machine := m', sy_issued := insert (refresh_token c) (sy_issued s)\<rparr>)"
| signed_out:
    "sy_holder s = None \<Longrightarrow> sign_out ops cr k (sy_machine s) = (r, m') \<Longrightarrow>
     session_step ops cr state_dir k s
       (s\<lparr>sy_machine := m', sy_retired := sy_retired s \<union> asked_since (sy_machine s) m'\<rparr>)"

text \<open>A machine with at most one session, which has never been refreshed here, and nothing parked.\<close>

definition session_start :: "('w \<Rightarrow> cred_key \<Rightarrow> slot) \<Rightarrow> cred_key \<Rightarrow> ('w, 't) system \<Rightarrow> bool" where
  "session_start holds k s \<longleftrightarrow>
     sound_files (sy_machine s) \<and> ma_parked (sy_machine s) (ck_audience k) = NoFile \<and>
     (\<forall>i. sy_phase s i = Quiet) \<and> sy_holder s = None \<and> sy_spent s = {} \<and> sy_retired s = {} \<and> sy_lost s = {} \<and>
     sy_issued s = (case holds (ma_store (sy_machine s)) k of Held c \<Rightarrow> {refresh_token c} | _ \<Rightarrow> {})"

inductive session_reachable ::
  "'w store_ops \<Rightarrow> ('w \<Rightarrow> cred_key \<Rightarrow> slot) \<Rightarrow> 't crates \<Rightarrow> string \<Rightarrow> cred_key \<Rightarrow> ('w, 't) system \<Rightarrow> bool"
  for ops holds cr state_dir k where
  start: "session_start holds k s \<Longrightarrow> session_reachable ops holds cr state_dir k s"
| step: "session_reachable ops holds cr state_dir k s \<Longrightarrow> session_step ops cr state_dir k s s' \<Longrightarrow>
     session_reachable ops holds cr state_dir k s'"

subsection \<open>The invariant\<close>

definition stale :: "('w, 't) system \<Rightarrow> token \<Rightarrow> bool" where
  "stale s tok \<longleftrightarrow> tok \<in> sy_spent s \<and> tok \<notin> sy_retired s \<and> tok \<notin> sy_lost s"

definition eff :: "('w \<Rightarrow> cred_key \<Rightarrow> slot) \<Rightarrow> 't crates \<Rightarrow> cred_key \<Rightarrow> ('w, 't) machine \<Rightarrow> slot" where
  "eff holds cr k m = effective cr (holds (ma_store m) k) (ma_parked m (ck_audience k))"

definition tokens_known :: "('w \<Rightarrow> cred_key \<Rightarrow> slot) \<Rightarrow> 't crates \<Rightarrow> cred_key \<Rightarrow> ('w, 't) system \<Rightarrow> bool" where
  "tokens_known holds cr k s \<longleftrightarrow>
     inj_on (fingerprint cr) (sy_issued s) \<and> sy_spent s \<subseteq> sy_issued s \<and>
     (\<forall>h. holds (ma_store (sy_machine s)) k = Held h \<longrightarrow> refresh_token h \<in> sy_issued s) \<and>
     (\<forall>p. parked_content cr (ma_parked (sy_machine s) (ck_audience k)) = Some p \<longrightarrow>
        refresh_token (pk_credential p) \<in> sy_issued s \<and> pk_replaces p \<in> fingerprint cr ` sy_spent s)"

definition phase_ok :: "('w \<Rightarrow> cred_key \<Rightarrow> slot) \<Rightarrow> 't crates \<Rightarrow> cred_key \<Rightarrow> ('w, 't) system \<Rightarrow> phase \<Rightarrow> bool" where
  "phase_ok holds cr k s ph =
     (case ph of
        Quiet \<Rightarrow> \<forall>c. eff holds cr k (sy_machine s) = Held c \<longrightarrow> \<not> stale s (refresh_token c)
      | Refreshing c \<Rightarrow> holds (ma_store (sy_machine s)) k = Held c \<and> eff holds cr k (sy_machine s) = Held c \<and>
          \<not> stale s (refresh_token c)
      | Unsaved c' c \<Rightarrow> holds (ma_store (sy_machine s)) k = Held c \<and> refresh_token c \<in> sy_spent s \<and> usable c' \<and>
          refresh_token c' \<in> sy_issued s \<and> refresh_token c' \<notin> sy_spent s \<and>
          (\<forall>d. replaced_by_parked cr k (sy_machine s) c \<longrightarrow> eff holds cr k (sy_machine s) = Held d \<longrightarrow>
             \<not> stale s (refresh_token d)))"

text \<open>At most one process is between a read and a save: the holder of the lock.\<close>

definition session_inv :: "('w \<Rightarrow> cred_key \<Rightarrow> slot) \<Rightarrow> 't crates \<Rightarrow> cred_key \<Rightarrow> ('w, 't) system \<Rightarrow> bool" where
  "session_inv holds cr k s \<longleftrightarrow>
     sound_files (sy_machine s) \<and> tokens_known holds cr k s \<and>
     (\<forall>i. sy_phase s i \<noteq> Quiet \<longleftrightarrow> sy_holder s = Some i) \<and>
     phase_ok holds cr k s (case sy_holder s of None \<Rightarrow> Quiet | Some i \<Rightarrow> sy_phase s i)"

lemma eff_not_superseded:
  assumes "tokens_known holds cr k s" and "holds (ma_store (sy_machine s)) k = Held c"
    and "refresh_token c \<notin> sy_spent s"
  shows "eff holds cr k (sy_machine s) = Held c"
proof (cases "parked_content cr (ma_parked (sy_machine s) (ck_audience k))")
  case None
  with assms(2) show ?thesis by (simp add: eff_def effective_no_content)
next
  case (Some p)
  then obtain t where "t \<in> sy_spent s" and t: "pk_replaces p = fingerprint cr t"
    using assms(1) by (auto simp: tokens_known_def)
  then have "fingerprint cr (refresh_token c) \<noteq> pk_replaces p"
    using assms inj_onD [of "fingerprint cr" "sy_issued s" "refresh_token c" t]
    by (auto simp: tokens_known_def)
  with Some assms(2) show ?thesis by (simp add: eff_def effective_other)
qed

lemma fresh_token_new:
  "fresh_token cr s c \<Longrightarrow> tokens_known holds cr k s \<Longrightarrow> refresh_token c \<notin> sy_issued s \<and> refresh_token c \<notin> sy_spent s \<and>
     inj_on (fingerprint cr) (insert (refresh_token c) (sy_issued s))"
  by (auto simp: fresh_token_def tokens_known_def)

lemma set_phase_simps [simp]:
  "sy_machine (set_phase i ph s) = sy_machine s" "sy_issued (set_phase i ph s) = sy_issued s"
  "sy_spent (set_phase i ph s) = sy_spent s" "sy_retired (set_phase i ph s) = sy_retired s"
  "sy_lost (set_phase i ph s) = sy_lost s"
  "sy_holder (set_phase i ph s) = (if ph = Quiet then None else Some i)"
  "sy_phase (set_phase i ph s) = (sy_phase s)(i := ph)"
  "stale (set_phase i ph s) t = stale s t"
  "tokens_known holds cr k (set_phase i ph s) = tokens_known holds cr k s"
  "phase_ok holds cr k (set_phase i ph s) ph' = phase_ok holds cr k s ph'"
  by (simp_all add: set_phase_def stale_def tokens_known_def phase_ok_def split: phase.splits)

lemma phase_ok_Quiet:
  "phase_ok holds cr k s Quiet \<longleftrightarrow> (\<forall>c. eff holds cr k (sy_machine s) = Held c \<longrightarrow> \<not> stale s (refresh_token c))"
  by (simp add: phase_ok_def)

text \<open>What the machine has while its stored session is \<open>c\<close>: the parked one, or \<open>c\<close>.\<close>

lemma eff_not_replaced:
  "holds (ma_store m) k = Held c \<Longrightarrow> \<not> replaced_by_parked cr k m c \<Longrightarrow> eff holds cr k m = Held c"
  by (auto simp: eff_def effective_def replaced_by_parked_def split: option.splits)

lemma phase_holder:
  "\<forall>i. sy_phase s i \<noteq> Quiet \<longleftrightarrow> sy_holder s = Some i \<Longrightarrow> sy_phase s i \<noteq> Quiet \<Longrightarrow> sy_holder s = Some i"
  by blast

text \<open>Leaving a phase or entering one keeps the link between the lock and the phases.\<close>

lemma holder_set_phase:
  assumes "\<forall>j. sy_phase s j \<noteq> Quiet \<longleftrightarrow> sy_holder s = Some j" and "sy_holder s = None \<or> sy_holder s = Some i"
  shows "\<forall>j. sy_phase (set_phase i ph s) j \<noteq> Quiet \<longleftrightarrow> sy_holder (set_phase i ph s) = Some j"
  using assms by (auto split: if_splits)

text \<open>A machine whose store and parked file came from known sessions.\<close>

lemma tokens_known_machine:
  assumes "tokens_known holds cr k s"
    and "\<And>h. holds (ma_store m') k = Held h \<Longrightarrow> refresh_token h \<in> sy_issued s"
    and "\<And>p. parked_content cr (ma_parked m' (ck_audience k)) = Some p \<Longrightarrow>
        refresh_token (pk_credential p) \<in> sy_issued s \<and> pk_replaces p \<in> fingerprint cr ` sy_spent s"
  shows "tokens_known holds cr k (s\<lparr>sy_machine := m'\<rparr>)"
  using assms by (simp add: tokens_known_def)

lemma parked_content_NoFile [simp]: "parked_content cr NoFile = None"
  by (simp add: parked_content_def)

lemma parked_known:
  "tokens_known holds cr k s \<Longrightarrow>
     ma_parked m' = ma_parked (sy_machine s) \<or> ma_parked m' = (ma_parked (sy_machine s))(ck_audience k := NoFile) \<Longrightarrow>
     parked_content cr (ma_parked m' (ck_audience k)) = Some p \<Longrightarrow>
     refresh_token (pk_credential p) \<in> sy_issued s \<and> pk_replaces p \<in> fingerprint cr ` sy_spent s"
  by (auto simp: tokens_known_def)

context credential_store
begin

lemma read_locked_holds_known:
  assumes sound: "sound_files m" and rd: "read_locked ops cr k m = (r, m')" and h: "holds (ma_store m') k = Held h"
  shows "holds (ma_store m) k = Held h \<or> (\<exists>p. parked_content cr (ma_parked m (ck_audience k)) = Some p \<and> h = pk_credential p)"
proof -
  obtain ra m1 where ra: "acquire m = (ra, m1)" by fastforce
  note f1 = acquire_frame [OF ra] and s1 = sound_acquire [OF sound ra]
  obtain rr m2 where rr: "recover_parked ops cr k m1 = (rr, m2)" by fastforce
  obtain rl m3 where rl: "m_load ops k m2 = (rl, m3)" by fastforce
  have m': "m' = m2 \<or> m' = m3"
    using rd ra s1 rr rl by (auto simp: read_locked_def split: option.splits sum.splits)
  then have h2: "holds (ma_store m2) k = Held h" using h m_load_holds(1) [OF rl] by auto
  show ?thesis
  proof (cases "\<exists>p g. parked_content cr (ma_parked m (ck_audience k)) = Some p \<and> holds (ma_store m) k = Held g \<and>
      fingerprint cr (refresh_token g) = pk_replaces p")
    case True
    then obtain p g where p: "parked_content cr (ma_parked m (ck_audience k)) = Some p" "holds (ma_store m) k = Held g"
      "fingerprint cr (refresh_token g) = pk_replaces p" by blast
    from recover_keeps_rotation [OF rr, of p g] p f1 h2 show ?thesis by auto
  next
    case False
    have "holds (ma_store m2) = holds (ma_store m1)"
      by (rule recover_leaves_store [OF rr]) (use False f1 in auto)
    with h2 f1 show ?thesis by simp
  qed
qed

lemma inv_read_locked:
  assumes inv: "session_inv holds cr k s" and free: "sy_holder s = None"
    and rd: "read_locked ops cr k (sy_machine s) = (r, m')"
  shows "session_inv holds cr k (s\<lparr>sy_machine := m'\<rparr>)"
    and "r = Ok (Some c) \<Longrightarrow> holds (ma_store m') k = Held c \<and> eff holds cr k m' = Held c \<and> \<not> stale s (refresh_token c)"
proof -
  have sound: "sound_files (sy_machine s)" and known: "tokens_known holds cr k s"
    and quiet: "phase_ok holds cr k s Quiet"
    using inv free by (simp_all add: session_inv_def)
  note e = read_locked_effective [OF sound rd]
  have "tokens_known holds cr k (s\<lparr>sy_machine := m'\<rparr>)"
  proof (rule tokens_known_machine [OF known])
    fix h assume "holds (ma_store m') k = Held h"
    with read_locked_holds_known [OF sound rd] known show "refresh_token h \<in> sy_issued s"
      by (fastforce simp: tokens_known_def)
  next
    fix p assume "parked_content cr (ma_parked m' (ck_audience k)) = Some p"
    with parked_known [OF known e(6)]
    show "refresh_token (pk_credential p) \<in> sy_issued s \<and> pk_replaces p \<in> fingerprint cr ` sy_spent s" .
  qed
  moreover have "phase_ok holds cr k (s\<lparr>sy_machine := m'\<rparr>) Quiet"
    using quiet e(1) by (simp add: phase_ok_Quiet eff_def stale_def)
  ultimately show "session_inv holds cr k (s\<lparr>sy_machine := m'\<rparr>)"
    using inv free e(4) by (simp add: session_inv_def)
  show "r = Ok (Some c) \<Longrightarrow> holds (ma_store m') k = Held c \<and> eff holds cr k m' = Held c \<and> \<not> stale s (refresh_token c)"
    using e(1) e(2) [of c] quiet by (simp add: phase_ok_Quiet eff_def)
qed

lemma session_inv_unsaved:
  assumes inv: "session_inv holds cr k s" and ph: "sy_phase s i = Unsaved c' c"
  shows "sy_holder s = Some i" and "sound_files (sy_machine s)" and "tokens_known holds cr k s"
    and "holds (ma_store (sy_machine s)) k = Held c" and "refresh_token c \<in> sy_spent s" and "usable c'"
    and "refresh_token c' \<in> sy_issued s" and "refresh_token c' \<notin> sy_spent s"
    and "replaced_by_parked cr k (sy_machine s) c \<Longrightarrow> eff holds cr k (sy_machine s) = Held d \<Longrightarrow> \<not> stale s (refresh_token d)"
proof -
  show holder: "sy_holder s = Some i" using inv ph by (simp add: session_inv_def) (metis phase.distinct(3))
  show "sound_files (sy_machine s)" and "tokens_known holds cr k s" using inv by (simp_all add: session_inv_def)
  have "phase_ok holds cr k s (Unsaved c' c)" using inv holder ph by (simp add: session_inv_def)
  then show "holds (ma_store (sy_machine s)) k = Held c" and "refresh_token c \<in> sy_spent s" and "usable c'"
    and "refresh_token c' \<in> sy_issued s" and "refresh_token c' \<notin> sy_spent s"
    and "replaced_by_parked cr k (sy_machine s) c \<Longrightarrow> eff holds cr k (sy_machine s) = Held d \<Longrightarrow> \<not> stale s (refresh_token d)"
    by (simp_all add: phase_ok_def)
qed

lemma parked_rotation_known:
  assumes "tokens_known holds cr k s" and "usable c'" and "refresh_token c' \<in> sy_issued s" and "refresh_token c \<in> sy_spent s"
    and "parked_content cr (ParkedWritten (parked_record_of cr c' c)) = Some p"
  shows "refresh_token (pk_credential p) \<in> sy_issued s \<and> pk_replaces p \<in> fingerprint cr ` sy_spent s"
  using assms parked_roundtrip [OF assms(2), of cr c] by auto

lemma inv_filed:
  assumes inv: "session_inv holds cr k s" and ph: "sy_phase s i = Unsaved c' c"
    and fr: "file_rotation ops cr state_dir k c' c (sy_machine s) = (r, m')"
  shows "session_inv holds cr k (set_phase i Quiet (s\<lparr>sy_machine := m'\<rparr>))"
proof -
  note u = session_inv_unsaved [OF inv ph] and o = file_rotation_outcomes [OF fr session_inv_unsaved(6) [OF inv ph]]
  have fresh: "fingerprint cr (refresh_token c') \<noteq> pk_replaces p"
    if "parked_content cr (ma_parked (sy_machine s) (ck_audience k)) = Some p" for p
    using that u(3,7,8) inj_onD [of "fingerprint cr" "sy_issued s" "refresh_token c'"]
    by (auto simp: tokens_known_def)
  have e: "effective cr (holds (ma_store m') k) (ma_parked m' (ck_audience k)) = Held c'"
    using file_rotation_effective [OF u(2) fr u(6) u(4)] fresh by blast
  have sound: "sound_files m'" using sound_file_rotation [OF u(2) fr] .
  have stored: "holds (ma_store m') k = Held h \<Longrightarrow> h = c \<or> h = c'" for h
    using o u(2,4) by auto
  have parked: "ma_parked m' = ma_parked (sy_machine s) \<or>
      ma_parked m' (ck_audience k) = ParkedWritten (parked_record_of cr c' c)"
    using o by auto
  have "tokens_known holds cr k (s\<lparr>sy_machine := m'\<rparr>)"
  proof (rule tokens_known_machine [OF u(3)])
    fix h assume "holds (ma_store m') k = Held h"
    with stored u(3,4,7) show "refresh_token h \<in> sy_issued s" by (auto simp: tokens_known_def)
  next
    fix p assume "parked_content cr (ma_parked m' (ck_audience k)) = Some p"
    with parked show "refresh_token (pk_credential p) \<in> sy_issued s \<and> pk_replaces p \<in> fingerprint cr ` sy_spent s"
      using parked_known [OF u(3), of m' p] parked_rotation_known [OF u(3,6,7,5)] by auto
  qed
  then show ?thesis
    using inv sound u(1,8) e holder_set_phase [of "s\<lparr>sy_machine := m'\<rparr>" i Quiet]
    by (simp add: session_inv_def phase_ok_Quiet eff_def stale_def)
qed

lemma inv_parked:
  assumes inv: "session_inv holds cr k s" and ph: "sy_phase s i = Unsaved c' c"
    and pk: "park_credential cr (ck_audience k) c' c (sy_machine s) = (r, m')"
  shows "session_inv holds cr k (s\<lparr>sy_machine := m'\<rparr>)"
    and "session_inv holds cr k (set_phase i Quiet (s\<lparr>sy_machine := m'\<rparr>))"
proof -
  note u = session_inv_unsaved [OF inv ph]
  note p' = sound_park_credential [OF u(2) pk] and f = park_credential_result [OF pk]
  have known: "tokens_known holds cr k (s\<lparr>sy_machine := m'\<rparr>)"
    by (rule tokens_known_machine [OF u(3)])
      (use u(3) f p' parked_rotation_known [OF u(3,6,7,5)] in \<open>auto simp: tokens_known_def\<close>)
  have e: "eff holds cr k m' = Held c'"
    using p' f u(4) parked_roundtrip [OF u(6), of cr c]
    by (simp add: eff_def effective_def)
  have "phase_ok holds cr k (s\<lparr>sy_machine := m'\<rparr>) (Unsaved c' c)"
    using u f e by (simp add: phase_ok_def stale_def)
  then show "session_inv holds cr k (s\<lparr>sy_machine := m'\<rparr>)"
    using inv known p' u(1) ph by (simp add: session_inv_def)
  have "phase_ok holds cr k (s\<lparr>sy_machine := m'\<rparr>) Quiet"
    using e u(8) by (simp add: phase_ok_Quiet stale_def)
  then show "session_inv holds cr k (set_phase i Quiet (s\<lparr>sy_machine := m'\<rparr>))"
    using inv known p' u(1) holder_set_phase [of "s\<lparr>sy_machine := m'\<rparr>" i Quiet]
    by (simp add: session_inv_def)
qed

lemma inv_signed_in:
  assumes inv: "session_inv holds cr k s" and free: "sy_holder s = None" and fresh: "fresh_token cr s c"
    and sn: "store_new_session ops cr state_dir k c (sy_machine s) = (r, m')"
  shows "session_inv holds cr k (s\<lparr>sy_machine := m', sy_issued := insert (refresh_token c) (sy_issued s)\<rparr>)"
proof -
  let ?s = "s\<lparr>sy_issued := insert (refresh_token c) (sy_issued s)\<rparr>"
  have sound: "sound_files (sy_machine s)" and known: "tokens_known holds cr k s"
    and quiet: "phase_ok holds cr k s Quiet"
    using inv free by (simp_all add: session_inv_def)
  have us: "usable c" using fresh by (simp add: fresh_token_def)
  note a = store_new_session_any [OF sound sn us] and new = fresh_token_new [OF fresh known]
  have known': "tokens_known holds cr k ?s" using known new by (auto simp: tokens_known_def)
  have km: "tokens_known holds cr k (?s\<lparr>sy_machine := m'\<rparr>)"
    by (rule tokens_known_machine [OF known'])
      (use a known in \<open>auto simp: tokens_known_def\<close>)
  have "\<not> stale s (refresh_token d)" if d: "eff holds cr k m' = Held d" for d
  proof (cases "holds (ma_store m') k = Held c")
    case True
    have "eff holds cr k m' = Held c"
      using eff_not_superseded [OF km, of c] True new by simp
    with d new show ?thesis by (simp add: stale_def)
  next
    case False
    with a have "eff holds cr k m' = eff holds cr k (sy_machine s)" by (auto simp: eff_def)
    with d quiet show ?thesis by (simp add: phase_ok_Quiet)
  qed
  moreover have "tokens_known holds cr k (s\<lparr>sy_machine := m', sy_issued := insert (refresh_token c) (sy_issued s)\<rparr>)"
    using km by (simp add: tokens_known_def)
  ultimately show ?thesis
    using inv free a by (simp add: session_inv_def phase_ok_Quiet stale_def)
qed

lemma inv_signed_out:
  assumes inv: "session_inv holds cr k s" and free: "sy_holder s = None"
    and so: "sign_out ops cr k (sy_machine s) = (r, m')"
  shows "session_inv holds cr k (s\<lparr>sy_machine := m', sy_retired := sy_retired s \<union> asked_since (sy_machine s) m'\<rparr>)"
proof -
  have sound: "sound_files (sy_machine s)" and known: "tokens_known holds cr k s"
    and quiet: "phase_ok holds cr k s Quiet"
    using inv free by (simp_all add: session_inv_def)
  note a = sign_out_any [OF sound so]
  have km: "tokens_known holds cr k (s\<lparr>sy_machine := m'\<rparr>)"
  proof (rule tokens_known_machine [OF known])
    fix h assume "holds (ma_store m') k = Held h"
    with a known show "refresh_token h \<in> sy_issued s" by (auto simp: tokens_known_def)
  next
    fix p assume "parked_content cr (ma_parked m' (ck_audience k)) = Some p"
    with parked_known [OF known, of m'] a
    show "refresh_token (pk_credential p) \<in> sy_issued s \<and> pk_replaces p \<in> fingerprint cr ` sy_spent s" by blast
  qed
  have "\<not> stale s (refresh_token c) \<or> refresh_token c \<in> asked_since (sy_machine s) m'" if c: "eff holds cr k m' = Held c" for c
  proof (cases "ma_parked m' = ma_parked (sy_machine s)")
    case True
    with a c have "eff holds cr k (sy_machine s) = Held c" by (auto simp: eff_def)
    with quiet show ?thesis by (simp add: phase_ok_Quiet)
  next
    case False
    with a have "ma_parked m' (ck_audience k) = NoFile" by auto
    with c a have "holds (ma_store (sy_machine s)) k = Held c"
      by (auto simp: eff_def effective_no_content)
    from sign_out_asks [OF sound so this False] show ?thesis by blast
  qed
  with km inv free a show ?thesis
    by (auto simp: session_inv_def phase_ok_Quiet stale_def tokens_known_def)
qed

lemma session_step_inv:
  assumes "session_step ops cr state_dir k s s'" and inv: "session_inv holds cr k s"
  shows "session_inv holds cr k s'"
  using assms(1)
proof cases
  case (read_only r m' now leaving)
  with inv_read_locked(1) [OF inv] show ?thesis by simp
next
  case (read_and_refresh c m' now i)
  note q = inv_read_locked [OF inv read_and_refresh(2) read_and_refresh(3)]
  have "phase_ok holds cr k (s\<lparr>sy_machine := m'\<rparr>) (Refreshing c)"
    using q(2) [of c] by (simp add: phase_ok_def stale_def)
  with q(1) read_and_refresh show ?thesis
    using holder_set_phase [of "s\<lparr>sy_machine := m'\<rparr>" i "Refreshing c"] by (simp add: session_inv_def)
next
  case (refused i c)
  then have h: "sy_holder s = Some i" using inv by (simp add: session_inv_def) (metis phase.distinct(1))
  have ok: "phase_ok holds cr k s (Refreshing c)" and known: "tokens_known holds cr k s"
    using inv h refused by (simp_all add: session_inv_def)
  have "phase_ok holds cr k s Quiet"
    using ok by (simp add: phase_ok_def)
  then show ?thesis
    using inv h refused holder_set_phase [of s i Quiet] by (simp add: session_inv_def)
next
  case (answered i c c')
  then have h: "sy_holder s = Some i" using inv by (simp add: session_inv_def) (metis phase.distinct(1))
  have ok: "phase_ok holds cr k s (Refreshing c)" and known: "tokens_known holds cr k s"
    using inv h answered by (simp_all add: session_inv_def)
  let ?s = "s\<lparr>sy_issued := insert (refresh_token c') (sy_issued s), sy_spent := insert (refresh_token c) (sy_spent s)\<rparr>"
  note new = fresh_token_new [OF answered(3) known]
  have issued: "refresh_token c \<in> sy_issued s" using ok known by (simp add: phase_ok_def tokens_known_def)
  then have known': "tokens_known holds cr k ?s"
    using known new by (auto simp: tokens_known_def)
  have "\<not> stale ?s (refresh_token d)"
    if "replaced_by_parked cr k (sy_machine s) c" and "eff holds cr k (sy_machine s) = Held d" for d
  proof -
    from that(1) obtain t where "t \<in> sy_spent s" "fingerprint cr (refresh_token c) = fingerprint cr t"
      using known by (auto simp: replaced_by_parked_def tokens_known_def split: option.splits)
    with known issued have "refresh_token c \<in> sy_spent s"
      using inj_onD [of "fingerprint cr" "sy_issued s" "refresh_token c" t] by (auto simp: tokens_known_def)
    with ok that(2) show ?thesis by (simp add: phase_ok_def stale_def)
  qed
  then have "phase_ok holds cr k ?s (Unsaved c' c)"
    using ok new answered(3) issued by (auto simp: phase_ok_def fresh_token_def)
  with known' show ?thesis
    using inv h answered holder_set_phase [of ?s i "Unsaved c' c"] by (simp add: session_inv_def)
next
  case (answer_lost i c c')
  then have h: "sy_holder s = Some i" using inv by (simp add: session_inv_def) (metis phase.distinct(1))
  have ok: "phase_ok holds cr k s (Refreshing c)" and known: "tokens_known holds cr k s"
    using inv h answer_lost by (simp_all add: session_inv_def)
  let ?s = "s\<lparr>sy_issued := insert (refresh_token c') (sy_issued s), sy_spent := insert (refresh_token c) (sy_spent s),
     sy_lost := insert (refresh_token c) (sy_lost s)\<rparr>"
  note new = fresh_token_new [OF answer_lost(3) known]
  have "refresh_token c \<in> sy_issued s" using ok known by (simp add: phase_ok_def tokens_known_def)
  then have "tokens_known holds cr k ?s" using known new by (auto simp: tokens_known_def)
  moreover have "phase_ok holds cr k ?s Quiet" using ok by (simp add: phase_ok_def stale_def)
  ultimately show ?thesis
    using inv h answer_lost holder_set_phase [of ?s i Quiet] by (simp add: session_inv_def)
next
  case (died i c' c)
  note u = session_inv_unsaved [OF inv died(2)]
  let ?m = "sy_machine s"
  let ?s = "s\<lparr>sy_lost := (if replaced_by_parked cr k ?m c then sy_lost s else insert (refresh_token c) (sy_lost s))\<rparr>"
  have known: "tokens_known holds cr k ?s" using u(3) by (simp add: tokens_known_def)
  have "phase_ok holds cr k ?s Quiet"
  proof (cases "replaced_by_parked cr k ?m c")
    case True
    with u(9) show ?thesis by (simp add: phase_ok_Quiet stale_def)
  next
    case False
    with eff_not_replaced [of holds ?m k c cr] u(4) show ?thesis by (simp add: phase_ok_Quiet stale_def)
  qed
  with known inv u(1) died(1) show ?thesis
    using holder_set_phase [of ?s i Quiet] by (simp add: session_inv_def)
next
  case (filed i c' c r m')
  then show ?thesis using inv_filed [OF inv] by simp
next
  case (dropped i c' c r m')
  then show ?thesis using inv_parked(2) [OF inv] by simp
next
  case (left_parked i c' c r m')
  then show ?thesis using inv_parked(1) [OF inv] by simp
next
  case (signed_in c r m')
  then show ?thesis using inv_signed_in [OF inv] by simp
next
  case (signed_out r m')
  then show ?thesis using inv_signed_out [OF inv] by simp
qed

lemma session_reachable_inv:
  "session_reachable ops holds cr state_dir k s \<Longrightarrow> session_inv holds cr k s"
proof (induction rule: session_reachable.induct)
  case (start s)
  have "phase_ok holds cr k s Quiet" using start by (simp add: phase_ok_Quiet session_start_def stale_def)
  moreover have "tokens_known holds cr k s"
    using start by (auto simp: session_start_def tokens_known_def split: slot.splits)
  ultimately show ?case using start by (simp add: session_inv_def session_start_def)
next
  case (step s s')
  then show ?case by (blast intro: session_step_inv)
qed

text \<open>
  What the arrangement is for: a token a process shows the issuer that was spent before is one a sign-out
  has put to the issuer for revocation, or one whose successor never reached the machine.
\<close>

lemma shown_token_not_stale:
  assumes "session_reachable ops holds cr state_dir k s" and "sy_phase s i = Refreshing c"
  shows "refresh_token c \<in> sy_spent s \<longrightarrow> refresh_token c \<in> sy_retired s \<or> refresh_token c \<in> sy_lost s"
proof -
  have inv: "session_inv holds cr k s" using assms(1) by (rule session_reachable_inv)
  then have "sy_holder s = Some i" using assms(2) by (simp add: session_inv_def) (metis phase.distinct(1))
  with inv assms(2) show ?thesis by (simp add: session_inv_def phase_ok_def stale_def)
qed

lemma one_rotation_at_a_time:
  assumes "session_reachable ops holds cr state_dir k s" and "sy_phase s i \<noteq> Quiet" and "sy_phase s j \<noteq> Quiet"
  shows "i = j"
proof -
  have "session_inv holds cr k s" using assms(1) by (rule session_reachable_inv)
  with assms(2,3) show ?thesis by (auto simp: session_inv_def)
qed

text \<open>And between commands the machine's session is a live one, with the same two exceptions.\<close>

lemma quiet_session_not_stale:
  assumes "session_reachable ops holds cr state_dir k s" and "sy_holder s = None"
    and "effective cr (holds (ma_store (sy_machine s)) k) (ma_parked (sy_machine s) (ck_audience k)) = Held c"
  shows "refresh_token c \<in> sy_spent s \<longrightarrow> refresh_token c \<in> sy_retired s \<or> refresh_token c \<in> sy_lost s"
proof -
  have "session_inv holds cr k s" using assms(1) by (rule session_reachable_inv)
  with assms(2,3) show ?thesis by (simp add: session_inv_def phase_ok_Quiet eff_def stale_def)
qed

end

end
