(* ===== verification/Rotation.thy ===== *)
theory Rotation
  imports Session_Lemmas
begin

text \<open>
  The rotations of one process, for a process about to leave: \<open>InFlight\<close>, \<open>Rotating\<close> and \<open>Leaving\<close>
  of \<open>session.rs\<close>. The registry is the static \<open>IN_FLIGHT\<close> with the counter behind the identifiers;
  a parked file is named by the audience whose file it is.
\<close>

subsection \<open>The registry\<close>

record unsaved =
  us_rotated :: credential
  us_replaces :: credential
  us_parked_at :: audience

record in_flight =
  fl_rotations :: nat
  fl_unsaved :: "(nat \<times> unsaved) list"
  fl_leaving :: nat
  fl_next :: nat

definition in_flight_default :: in_flight where
  "in_flight_default = \<lparr>fl_rotations = 0, fl_unsaved = [], fl_leaving = 0, fl_next = 0\<rparr>"

definition rotating_begin :: "in_flight \<Rightarrow> nat option \<times> in_flight" where
  "rotating_begin f =
     (let i = fl_next f; f1 = f\<lparr>fl_next := Suc i\<rparr>
      in if fl_leaving f > 0 then (None, f1)
         else (Some i, f1\<lparr>fl_rotations := fl_rotations f + 1\<rparr>))"

text \<open>The \<open>BTreeMap\<close> of unsaved sessions, in the order of the identifiers.\<close>

definition unsaved_remove :: "nat \<Rightarrow> (nat \<times> unsaved) list \<Rightarrow> (nat \<times> unsaved) list" where
  "unsaved_remove i us = filter (\<lambda>(j, u). j \<noteq> i) us"

fun unsaved_insert :: "nat \<Rightarrow> unsaved \<Rightarrow> (nat \<times> unsaved) list \<Rightarrow> (nat \<times> unsaved) list" where
  "unsaved_insert i u [] = [(i, u)]"
| "unsaved_insert i u ((j, v) # us) =
     (if i < j then (i, u) # (j, v) # us
      else if i = j then (i, u) # us
      else (j, v) # unsaved_insert i u us)"

definition rotating_answered :: "nat \<Rightarrow> credential \<Rightarrow> credential \<Rightarrow> audience \<Rightarrow> in_flight \<Rightarrow> in_flight" where
  "rotating_answered i rotated replaces at f =
     f\<lparr>fl_unsaved := unsaved_insert i \<lparr>us_rotated = rotated, us_replaces = replaces, us_parked_at = at\<rparr> (fl_unsaved f)\<rparr>"

definition rotating_filed :: "nat \<Rightarrow> in_flight \<Rightarrow> in_flight" where
  "rotating_filed i f = f\<lparr>fl_unsaved := unsaved_remove i (fl_unsaved f)\<rparr>"

text \<open>\<open>Drop for Rotating\<close>: what was not filed is parked before the lock can go.\<close>

definition rotating_drop ::
  "'t crates \<Rightarrow> nat \<Rightarrow> in_flight \<Rightarrow> ('w, 't) machine \<Rightarrow> in_flight \<times> ('w, 't) machine" where
  "rotating_drop cr i f m =
     (let left = map_of (fl_unsaved f) i;
          f1 = f\<lparr>fl_unsaved := unsaved_remove i (fl_unsaved f), fl_rotations := fl_rotations f - 1\<rparr>
      in case left of
           None \<Rightarrow> (f1, m)
         | Some u \<Rightarrow> (f1, snd (park_credential cr (us_parked_at u) (us_rotated u) (us_replaces u) m)))"

subsection \<open>Leaving\<close>

definition leaving_start :: "in_flight \<Rightarrow> in_flight" where
  "leaving_start f = f\<lparr>fl_leaving := fl_leaving f + 1\<rparr>"

definition leaving_drop :: "in_flight \<Rightarrow> in_flight" where
  "leaving_drop f = f\<lparr>fl_leaving := fl_leaving f - 1\<rparr>"

definition leaving_rotating :: "in_flight \<Rightarrow> bool" where
  "leaving_rotating f = (fl_rotations f > 0)"

definition leaving_settled :: "in_flight \<Rightarrow> bool" where
  "leaving_settled f = (fl_rotations f = 0)"

definition leaving_answered :: "in_flight \<Rightarrow> bool" where
  "leaving_answered f = (fl_rotations f = length (fl_unsaved f))"

fun park_all ::
  "'t crates \<Rightarrow> unsaved list \<Rightarrow> ('w, 't) machine \<Rightarrow> (store_error + audience) list \<times> ('w, 't) machine" where
  "park_all cr [] m = ([], m)"
| "park_all cr (u # us) m =
     (case park_credential cr (us_parked_at u) (us_rotated u) (us_replaces u) m of
        (r, m1) \<Rightarrow>
          (case park_all cr us m1 of
             (rs, m2) \<Rightarrow> (map_sum id (\<lambda>_. us_parked_at u) r # rs, m2)))"

definition leaving_park :: "'t crates \<Rightarrow> in_flight \<Rightarrow> ('w, 't) machine \<Rightarrow> (store_error + audience) list \<times> ('w, 't) machine" where
  "leaving_park cr f m = park_all cr (map snd (fl_unsaved f)) m"

subsection \<open>Runs of one process\<close>

text \<open>The rotations alive, each told what the issuer has answered it and whether that is filed.\<close>

datatype rotation_stage = Asked | Answered unsaved | Filed

record ('w, 't) process =
  pr_flight :: in_flight
  pr_alive :: "nat \<Rightarrow> rotation_stage option"
  pr_machine :: "('w, 't) machine"

inductive process_step :: "'t crates \<Rightarrow> ('w, 't) process \<Rightarrow> ('w, 't) process \<Rightarrow> bool" for cr where
  begin_rotation:
    "rotating_begin (pr_flight p) = (Some i, f) \<Longrightarrow>
     process_step cr p (p\<lparr>pr_flight := f, pr_alive := (pr_alive p)(i \<mapsto> Asked)\<rparr>)"
| begin_refused:
    "rotating_begin (pr_flight p) = (None, f) \<Longrightarrow> process_step cr p (p\<lparr>pr_flight := f\<rparr>)"
| issuer_answers:
    "pr_alive p i = Some Asked \<Longrightarrow>
     process_step cr p (p\<lparr>pr_flight := rotating_answered i (us_rotated u) (us_replaces u) (us_parked_at u) (pr_flight p),
       pr_alive := (pr_alive p)(i \<mapsto> Answered u)\<rparr>)"
| files:
    "pr_alive p i = Some (Answered u) \<Longrightarrow>
     process_step cr p (p\<lparr>pr_flight := rotating_filed i (pr_flight p), pr_alive := (pr_alive p)(i \<mapsto> Filed)\<rparr>)"
| drops:
    "pr_alive p i = Some st \<Longrightarrow> rotating_drop cr i (pr_flight p) (pr_machine p) = (f, m) \<Longrightarrow>
     process_step cr p (p\<lparr>pr_flight := f, pr_alive := (pr_alive p)(i := None), pr_machine := m\<rparr>)"
| other_work: "process_step cr p (p\<lparr>pr_machine := m\<rparr>)"
| leaves: "process_step cr p (p\<lparr>pr_flight := leaving_start (pr_flight p)\<rparr>)"
| stays: "process_step cr p (p\<lparr>pr_flight := leaving_drop (pr_flight p)\<rparr>)"

definition process_start :: "('w, 't) machine \<Rightarrow> ('w, 't) process" where
  "process_start m = \<lparr>pr_flight = in_flight_default, pr_alive = Map.empty, pr_machine = m\<rparr>"

inductive process_reachable :: "'t crates \<Rightarrow> ('w, 't) process \<Rightarrow> bool" for cr where
  process_init: "process_reachable cr (process_start m)"
| process_next: "process_reachable cr p \<Longrightarrow> process_step cr p p' \<Longrightarrow> process_reachable cr p'"

text \<open>The registry counts the rotations alive, and lists those answered and not filed.\<close>

definition process_inv :: "('w, 't) process \<Rightarrow> bool" where
  "process_inv p \<longleftrightarrow>
     finite (dom (pr_alive p)) \<and> fl_rotations (pr_flight p) = card (dom (pr_alive p)) \<and>
     (\<forall>i. pr_alive p i \<noteq> None \<longrightarrow> i < fl_next (pr_flight p)) \<and>
     distinct (map fst (fl_unsaved (pr_flight p))) \<and>
     (\<forall>i u. map_of (fl_unsaved (pr_flight p)) i = Some u \<longleftrightarrow> pr_alive p i = Some (Answered u))"

lemma map_of_unsaved_remove: "map_of (unsaved_remove i us) j = (if j = i then None else map_of us j)"
  by (induction us) (auto simp: unsaved_remove_def)

lemma distinct_unsaved_remove: "distinct (map fst us) \<Longrightarrow> distinct (map fst (unsaved_remove i us))"
  by (induction us) (auto simp: unsaved_remove_def)

lemma set_unsaved_insert: "fst ` set (unsaved_insert i u us) = insert i (fst ` set us)"
  by (induction i u us rule: unsaved_insert.induct) auto

lemma distinct_unsaved_insert:
  "distinct (map fst us) \<Longrightarrow> i \<notin> fst ` set us \<Longrightarrow> distinct (map fst (unsaved_insert i u us))"
proof (induction i u us rule: unsaved_insert.induct)
  case (2 i u j v us)
  then show ?case using set_unsaved_insert [of i u us] by auto
qed simp

lemma map_of_unsaved_insert:
  "i \<notin> fst ` set us \<Longrightarrow> map_of (unsaved_insert i u us) j = (if j = i then Some u else map_of us j)"
  by (induction i u us rule: unsaved_insert.induct) auto

lemma process_start_inv: "process_inv (process_start m)"
  by (simp add: process_inv_def process_start_def in_flight_default_def)

lemma rotating_drop_flight:
  "rotating_drop cr i f m = (f', m') \<Longrightarrow>
     f' = f\<lparr>fl_unsaved := unsaved_remove i (fl_unsaved f), fl_rotations := fl_rotations f - 1\<rparr>"
  by (auto simp: rotating_drop_def Let_def split: option.splits)

lemma process_step_inv:
  assumes "process_step cr p p'" and inv: "process_inv p"
  shows "process_inv p'"
  using assms(1)
proof cases
  case (begin_rotation i f)
  then have i: "i = fl_next (pr_flight p)" and f: "f = (pr_flight p)\<lparr>fl_next := Suc i, fl_rotations := fl_rotations (pr_flight p) + 1\<rparr>"
    by (auto simp: rotating_begin_def Let_def split: if_splits)
  with inv have new: "pr_alive p i = None" by (auto simp: process_inv_def)
  then have "card (dom ((pr_alive p)(i \<mapsto> Asked))) = Suc (card (dom (pr_alive p)))"
    using inv by (simp add: process_inv_def domIff)
  with begin_rotation i f inv new show ?thesis by (auto simp: process_inv_def less_Suc_eq)
next
  case (begin_refused f)
  then have "f = (pr_flight p)\<lparr>fl_next := Suc (fl_next (pr_flight p))\<rparr>"
    by (auto simp: rotating_begin_def Let_def split: if_splits)
  with begin_refused inv show ?thesis by (auto simp: process_inv_def less_Suc_eq)
next
  case (issuer_answers i u)
  then have "i \<in> dom (pr_alive p)" by (simp add: domIff)
  then have dom: "dom ((pr_alive p)(i \<mapsto> Answered u)) = dom (pr_alive p)" by auto
  have "map_of (fl_unsaved (pr_flight p)) i = None"
    using inv issuer_answers by (cases "map_of (fl_unsaved (pr_flight p)) i") (auto simp: process_inv_def)
  then have new: "i \<notin> fst ` set (fl_unsaved (pr_flight p))" by (simp add: map_of_eq_None_iff)
  with issuer_answers inv dom show ?thesis
    by (auto simp: process_inv_def rotating_answered_def distinct_unsaved_insert map_of_unsaved_insert simp del: dom_fun_upd)
next
  case (files i u)
  then have "dom ((pr_alive p)(i \<mapsto> Filed)) = dom (pr_alive p)" by auto
  with files inv show ?thesis
    by (auto simp: process_inv_def rotating_filed_def map_of_unsaved_remove distinct_unsaved_remove simp del: dom_fun_upd)
next
  case (drops i st f m)
  then have "i \<in> dom (pr_alive p)" by (simp add: domIff)
  moreover have "dom ((pr_alive p)(i := None)) = dom (pr_alive p) - {i}" by auto
  ultimately have "card (dom ((pr_alive p)(i := None))) = card (dom (pr_alive p)) - 1" by (simp add: card_Diff_singleton)
  moreover have "finite (dom ((pr_alive p)(i := None)))" using inv by (simp add: process_inv_def)
  ultimately show ?thesis using drops(1) rotating_drop_flight [OF drops(3)] inv
    by (auto simp: process_inv_def map_of_unsaved_remove distinct_unsaved_remove simp del: dom_fun_upd)
next
  case (other_work m)
  with inv show ?thesis by (simp add: process_inv_def)
next
  case leaves
  with inv show ?thesis by (simp add: process_inv_def leaving_start_def)
next
  case stays
  with inv show ?thesis by (simp add: process_inv_def leaving_drop_def)
qed

lemma process_reachable_inv: "process_reachable cr p \<Longrightarrow> process_inv p"
  by (induction rule: process_reachable.induct) (blast intro: process_start_inv process_step_inv)+

subsection \<open>What a leaving process may rely on\<close>

text \<open>Settled: no rotation is alive. Answered: every rotation alive has its new session listed.\<close>

lemma settled_nothing_alive:
  assumes "process_reachable cr p" and "leaving_settled (pr_flight p)"
  shows "pr_alive p = Map.empty" and "fl_unsaved (pr_flight p) = []"
proof -
  have inv: "process_inv p" using assms(1) by (rule process_reachable_inv)
  with assms(2) have "finite (dom (pr_alive p))" and "card (dom (pr_alive p)) = 0"
    by (simp_all add: process_inv_def leaving_settled_def)
  then show none: "pr_alive p = Map.empty" by (simp only: card_0_eq dom_eq_empty_conv)
  show "fl_unsaved (pr_flight p) = []"
  proof (rule ccontr)
    assume "fl_unsaved (pr_flight p) \<noteq> []"
    then obtain x xs where "fl_unsaved (pr_flight p) = x # xs" by (cases "fl_unsaved (pr_flight p)") auto
    then have "map_of (fl_unsaved (pr_flight p)) (fst x) = Some (snd x)" by (cases x) simp
    with inv none show False by (simp add: process_inv_def)
  qed
qed

lemma answered_all_listed:
  assumes "process_reachable cr p" and "leaving_answered (pr_flight p)" and "pr_alive p i = Some st"
  shows "\<exists>u. st = Answered u \<and> (i, u) \<in> set (fl_unsaved (pr_flight p))"
proof -
  have inv: "process_inv p" using assms(1) by (rule process_reachable_inv)
  let ?us = "fl_unsaved (pr_flight p)"
  have sub: "fst ` set ?us \<subseteq> dom (pr_alive p)"
  proof
    fix j assume "j \<in> fst ` set ?us"
    then obtain u where "map_of ?us j = Some u" by (metis map_of_eq_None_iff not_Some_eq)
    with inv show "j \<in> dom (pr_alive p)" by (auto simp: process_inv_def)
  qed
  have "card (fst ` set ?us) = length ?us"
    using inv distinct_card [of "map fst ?us"] by (simp add: process_inv_def)
  then have "fst ` set ?us = dom (pr_alive p)"
    using inv assms(2) sub by (metis card_subset_eq leaving_answered_def process_inv_def)
  with assms(3) have "i \<in> fst ` set ?us" by auto
  then obtain u where "map_of ?us i = Some u" by (metis map_of_eq_None_iff not_Some_eq)
  with inv assms(3) show ?thesis by (auto simp: process_inv_def dest: map_of_SomeD)
qed

text \<open>Once a process has begun to leave, no rotation starts.\<close>

lemma leaving_refuses: "fl_leaving f > 0 \<Longrightarrow> fst (rotating_begin f) = None \<and> fl_rotations (snd (rotating_begin f)) = fl_rotations f"
  by (simp add: rotating_begin_def Let_def)

lemma park_all_parks:
  assumes "sound_files m" and "park_all cr us m = (rs, m')" and "u \<in> set us"
    and "\<And>v. v \<in> set us \<Longrightarrow> us_parked_at v = us_parked_at u \<Longrightarrow> v = u"
  shows "ma_parked m' (us_parked_at u) = ParkedWritten (parked_record_of cr (us_rotated u) (us_replaces u)) \<and>
    ma_store m' = ma_store m"
proof -
  have *: "sound_files m \<Longrightarrow> park_all cr us m = (rs, m') \<Longrightarrow>
    \<forall>v\<in>set us. us_parked_at v = us_parked_at u \<longrightarrow> v = u \<Longrightarrow>
    ma_store m' = ma_store m \<and>
    ma_parked m' (us_parked_at u) = (if u \<in> set us then ParkedWritten (parked_record_of cr (us_rotated u) (us_replaces u))
      else ma_parked m (us_parked_at u))" for us rs m m'
  proof (induction us arbitrary: m rs)
    case Nil
    then show ?case by simp
  next
    case (Cons v us)
    obtain r m1 where p: "park_credential cr (us_parked_at v) (us_rotated v) (us_replaces v) m = (r, m1)" by fastforce
    obtain rs1 m2 where q: "park_all cr us m1 = (rs1, m2)" by fastforce
    with p Cons.prems(2) have "m' = m2" by simp
    note s = sound_park_credential [OF Cons.prems(1) p] and f = park_credential_result [OF p]
    from Cons.IH [of m1 rs1] s q \<open>m' = m2\<close> Cons.prems(3)
    have "ma_store m' = ma_store m1 \<and> ma_parked m' (us_parked_at u) =
        (if u \<in> set us then ParkedWritten (parked_record_of cr (us_rotated u) (us_replaces u)) else ma_parked m1 (us_parked_at u))"
      by simp
    with s f Cons.prems(3) show ?case by auto
  qed
  from * [OF assms(1,2)] assms(3,4) show ?thesis by auto
qed

text \<open>What a rotation that is dropped leaves behind, by the stage it had reached.\<close>

lemma rotating_drop_parks:
  assumes "process_reachable cr p" and "pr_alive p i = Some st" and "sound_files m"
    and "rotating_drop cr i (pr_flight p) m = (f', m')"
  shows "(case st of
      Answered u \<Rightarrow> ma_parked m' = (ma_parked m)(us_parked_at u := ParkedWritten (parked_record_of cr (us_rotated u) (us_replaces u)))
    | _ \<Rightarrow> m' = m) \<and> ma_store m' = ma_store m"
proof -
  have inv: "process_inv p" using assms(1) by (rule process_reachable_inv)
  show ?thesis
  proof (cases "map_of (fl_unsaved (pr_flight p)) i")
    case None
    with inv assms(2,4) show ?thesis
      by (cases st) (auto simp: process_inv_def rotating_drop_def Let_def)
  next
    case (Some u)
    with inv assms(2) have st: "st = Answered u" by (simp add: process_inv_def)
    obtain r m1 where p: "park_credential cr (us_parked_at u) (us_rotated u) (us_replaces u) m = (r, m1)" by fastforce
    with Some assms(4) have "m' = m1" by (simp add: rotating_drop_def Let_def)
    with st sound_park_credential [OF assms(3) p] park_credential_result [OF p] show ?thesis by simp
  qed
qed

lemma leaving_step_shrinks:
  assumes "process_step cr p p'" and "fl_leaving (pr_flight p) > 0"
  shows "dom (pr_alive p') \<subseteq> dom (pr_alive p)"
  using assms by cases (auto simp: rotating_begin_def Let_def)

subsection \<open>Properties\<close>

text \<open>A run: one rotation begins, the issuer answers it, and the process starts to leave.\<close>

definition sample_unsaved :: unsaved where
  "sample_unsaved = \<lparr>us_rotated = \<lparr>access_token = ''n.e.w'', refresh_token = ''n.e.x'', expires_at = 7200\<rparr>,
     us_replaces = \<lparr>access_token = ''o.l.d'', refresh_token = ''o.l.e'', expires_at = 3600\<rparr>, us_parked_at = AuthApi\<rparr>"

definition sample_crates :: "unit crates" where
  "sample_crates = \<lparr>fingerprint = (\<lambda>t. t), parse_parked = (\<lambda>t. Err ''expected a table'')\<rparr>"

definition sample_machine :: "(unit, unit) machine" where
  "sample_machine = \<lparr>ma_store = (), ma_parked = (\<lambda>aud. NoFile), ma_faults = [], ma_answers = [], ma_revoked = []\<rparr>"

definition sample_answered :: "(unit, unit) process" where
  "sample_answered =
     \<lparr>pr_flight = \<lparr>fl_rotations = 1, fl_unsaved = [(0, sample_unsaved)], fl_leaving = 1, fl_next = 1\<rparr>,
      pr_alive = [0 \<mapsto> Answered sample_unsaved], pr_machine = sample_machine\<rparr>"

lemma sample_answered_reachable: "process_reachable sample_crates sample_answered"
proof -
  let ?p1 = "\<lparr>pr_flight = \<lparr>fl_rotations = 1, fl_unsaved = [], fl_leaving = 0, fl_next = 1\<rparr>,
      pr_alive = [0 \<mapsto> Asked], pr_machine = sample_machine\<rparr> :: (unit, unit) process"
  let ?p2 = "?p1\<lparr>pr_flight := (pr_flight ?p1)\<lparr>fl_unsaved := [(0, sample_unsaved)]\<rparr>, pr_alive := [0 \<mapsto> Answered sample_unsaved]\<rparr>"
  have 1: "process_step sample_crates (process_start sample_machine) ?p1"
    using process_step.begin_rotation [of "process_start sample_machine" 0 "pr_flight ?p1" sample_crates]
    by (simp add: process_start_def rotating_begin_def in_flight_default_def)
  have 2: "process_step sample_crates ?p1 ?p2"
    using process_step.issuer_answers [of ?p1 0 sample_crates sample_unsaved]
    by (simp add: rotating_answered_def sample_unsaved_def)
  have 3: "process_step sample_crates ?p2 sample_answered"
    using process_step.leaves [of sample_crates ?p2]
    by (simp add: leaving_start_def sample_answered_def)
  show ?thesis
    by (rule process_next [OF process_next [OF process_next [OF process_init 1] 2] 3])
qed

text \<open>
  When a leaving process is told its rotations have settled, no rotation is alive and no new
  session is waiting to be saved: ending the process then loses nothing.
\<close>

theorem settled_loses_nothing:
  assumes "process_reachable cr p" and "leaving_settled (pr_flight p)"
  shows "pr_alive p = Map.empty \<and> fl_unsaved (pr_flight p) = []"
  using settled_nothing_alive [OF assms] by blast

lemma settled_loses_nothing_witness:
  "pr_alive (process_start sample_machine :: (unit, unit) process) = Map.empty \<and>
     fl_unsaved (pr_flight (process_start sample_machine :: (unit, unit) process)) = []"
  by (rule settled_loses_nothing [OF process_init [of sample_crates]])
    (simp add: leaving_settled_def process_start_def in_flight_default_def)

text \<open>
  When a leaving process is told every rotation has been answered and parks, every rotation still
  alive has its new session on disk, in its audience's parked file, where the next command recovers
  it; the store is not touched. The refresh lock is what allows one rotation per audience at a time.
\<close>

theorem answered_then_parked:
  assumes "process_reachable cr p" and "leaving_answered (pr_flight p)" and "pr_alive p i = Some st"
    and "leaving_park cr (pr_flight p) m = (rs, m')" and "sound_files m"
    and "\<And>v w. v \<in> snd ` set (fl_unsaved (pr_flight p)) \<Longrightarrow> w \<in> snd ` set (fl_unsaved (pr_flight p)) \<Longrightarrow>
        us_parked_at v = us_parked_at w \<Longrightarrow> v = w"
  shows "\<exists>u. st = Answered u \<and> ma_store m' = ma_store m \<and>
    ma_parked m' (us_parked_at u) = ParkedWritten (parked_record_of cr (us_rotated u) (us_replaces u))"
proof -
  obtain u where u: "st = Answered u" "(i, u) \<in> set (fl_unsaved (pr_flight p))"
    using answered_all_listed [OF assms(1-3)] by blast
  have "u \<in> set (map snd (fl_unsaved (pr_flight p)))" using u(2) by force
  with park_all_parks [OF assms(5) assms(4) [unfolded leaving_park_def], of u] assms(6) u(1) show ?thesis
    by auto
qed

lemma answered_then_parked_witness:
  "ma_parked (snd (leaving_park sample_crates (pr_flight sample_answered) sample_machine)) AuthApi =
     ParkedWritten (parked_record_of sample_crates (us_rotated sample_unsaved) (us_replaces sample_unsaved))"
proof -
  let ?m' = "snd (leaving_park sample_crates (pr_flight sample_answered) sample_machine)"
  have "\<exists>u. Answered sample_unsaved = Answered u \<and> ma_store ?m' = ma_store sample_machine \<and>
      ma_parked ?m' (us_parked_at u) = ParkedWritten (parked_record_of sample_crates (us_rotated u) (us_replaces u))"
    by (rule answered_then_parked [OF sample_answered_reachable, of 0, OF _ _ surjective_pairing])
      (simp_all add: leaving_answered_def sample_answered_def sound_files_def sample_machine_def)
  then show ?thesis by (simp add: sample_unsaved_def)
qed

text \<open>
  A rotation dropped before its new session was filed parks that session; one the issuer has not
  answered, or whose session is filed, leaves the machine as it was. The store is never touched.
\<close>

theorem drop_parks_the_unfiled:
  assumes "process_reachable cr p" and "pr_alive p i = Some st" and "sound_files m"
    and "rotating_drop cr i (pr_flight p) m = (f', m')"
  shows "(case st of
      Answered u \<Rightarrow> ma_parked m' = (ma_parked m)(us_parked_at u := ParkedWritten (parked_record_of cr (us_rotated u) (us_replaces u)))
    | _ \<Rightarrow> m' = m) \<and> ma_store m' = ma_store m"
  using rotating_drop_parks [OF assms] .

lemma drop_parks_the_unfiled_witness:
  "ma_parked (snd (rotating_drop sample_crates 0 (pr_flight sample_answered) sample_machine)) AuthApi =
     ParkedWritten (parked_record_of sample_crates (us_rotated sample_unsaved) (us_replaces sample_unsaved))"
  using drop_parks_the_unfiled [OF sample_answered_reachable _ _ surjective_pairing, of 0 "Answered sample_unsaved" sample_machine]
  by (simp add: sample_answered_def sound_files_def sample_machine_def sample_unsaved_def)

text \<open>From the moment a process begins to leave, no step of it starts a rotation.\<close>

theorem leaving_starts_none:
  assumes "process_step cr p p'" and "fl_leaving (pr_flight p) > 0"
  shows "dom (pr_alive p') \<subseteq> dom (pr_alive p)"
  using leaving_step_shrinks [OF assms] .

lemma leaving_starts_none_witness:
  "dom (pr_alive (sample_answered\<lparr>pr_flight := snd (rotating_begin (pr_flight sample_answered))\<rparr>)) \<subseteq> dom (pr_alive sample_answered)"
  by (rule leaving_starts_none [of sample_crates, OF process_step.begin_refused])
    (simp_all add: sample_answered_def rotating_begin_def)

end
