(* ===== verification/Auth_Properties.thy ===== *)
theory Auth_Properties
  imports Session_Protocol Rotation
begin

text \<open>
  The properties of signing in, keeping a session and signing out that rest on more than one component,
  stated for the store the crate always has, the credentials file. Each witness runs the model on a
  machine with one stored session.
\<close>

subsection \<open>A concrete machine\<close>

text \<open>Crates whose digest is the token itself and whose parsers read nothing foreign.\<close>

definition plain_reader :: "unit toml_reader" where
  "plain_reader = \<lparr>tr_blank = (\<lambda>t. True), tr_parse = (\<lambda>t. Err ''expected a table'')\<rparr>"

definition plain_crates :: "unit crates" where
  "plain_crates = \<lparr>fingerprint = (\<lambda>t. t), parse_parked = (\<lambda>t. Err ''expected a table'')\<rparr>"

definition operator_key :: cred_key where
  "operator_key = \<lparr>ck_audience = AuthApi, ck_account = ''default''\<rparr>"

definition session_a :: credential where
  "session_a = \<lparr>access_token = ''a1.b.c'', refresh_token = ''a2.b.c'', expires_at = 1000\<rparr>"

definition session_b :: credential where
  "session_b = \<lparr>access_token = ''b1.b.c'', refresh_token = ''b2.b.c'', expires_at = 2000\<rparr>"

definition file_with :: "credential \<Rightarrow> bool list \<Rightarrow> unit file_store" where
  "file_with c faults =
     \<lparr>fs_text = Some (Written [(keychain_account operator_key, credential_to_stored c)]), fs_faults = faults\<rparr>"

definition machine_with :: "unit file_store \<Rightarrow> (unit file_store, unit) machine" where
  "machine_with w = \<lparr>ma_store = w, ma_parked = (\<lambda>aud. NoFile), ma_faults = [], ma_answers = [], ma_revoked = []\<rparr>"

definition system_with :: "unit file_store \<Rightarrow> (unit file_store, unit) system" where
  "system_with w = \<lparr>sy_machine = machine_with w, sy_phase = (\<lambda>i. Quiet), sy_holder = None,
     sy_issued = {refresh_token session_a}, sy_spent = {}, sy_retired = {}, sy_lost = {}\<rparr>"

lemmas plain_defs = plain_reader_def plain_crates_def operator_key_def session_a_def session_b_def
  file_with_def machine_with_def

lemmas file_defs = file_store_ops_def fs_load_def fs_save_def fs_delete_def fs_lock_def read_document_def
  write_document_def remove_document_def take_fault_def doc_get_def doc_insert_def doc_remove_def
  keychain_account_def stored_to_credential_def credential_to_stored_def non_empty_def store_version_def
  fs_holds_def fs_document_def fs_backend_def

lemmas session_defs = read_locked_def recover_parked_def read_parked_def acquire_def next_fault_def m_load_def
  m_save_def m_delete_def file_rotation_def park_credential_def clear_parked_def parked_record_of_def
  parked_of_record_def parked_version_def supersedes_def is_held_in_def revoke_def readable_of_def
  revoke_stored_def revoke_parked_def

text \<open>The store refuses the second session, so the rotation parks it; nothing else fails.\<close>

definition refused_file :: "unit file_store" where
  "refused_file = file_with session_a [False, False, False, False, True]"

lemma step_read_a:
  "read_locked (file_store_ops plain_reader) plain_crates operator_key (machine_with refused_file) =
     (Ok (Some session_a), machine_with (file_with session_a [False, False, True]))"
  by (simp add: refused_file_def plain_defs file_defs session_defs)

text \<open>The machine with the first session in the store and what replaced it parked.\<close>

definition parked_machine :: "(unit file_store, unit) machine" where
  "parked_machine = (machine_with (file_with session_a []))
     \<lparr>ma_parked := (\<lambda>aud. NoFile)(AuthApi := ParkedWritten (parked_record_of plain_crates session_b session_a))\<rparr>"

lemma step_file_b:
  "snd (file_rotation (file_store_ops plain_reader) plain_crates ''/state'' operator_key session_b session_a
     (machine_with (file_with session_a [False, False, True]))) = parked_machine"
  by (simp add: parked_machine_def plain_defs file_defs session_defs)

lemma step_read_b:
  "read_locked (file_store_ops plain_reader) plain_crates operator_key parked_machine =
     (Ok (Some session_b), machine_with (file_with session_b []))"
  by (simp add: parked_machine_def plain_defs file_defs session_defs fun_eq_iff)

lemma session_a_due: "needs_refresh session_a 990" and session_b_due: "needs_refresh session_b 1990"
  by (simp_all add: session_a_def session_b_def needs_refresh_def refresh_margin_secs_def rust_arith)

abbreviation "plain_reachable \<equiv>
  session_reachable (file_store_ops plain_reader) (fs_holds plain_reader) plain_crates ''/state'' operator_key"

lemma run_start: "plain_reachable (system_with refused_file)"
  by (rule session_reachable.start)
    (simp add: session_start_def system_with_def sound_files_def refused_file_def plain_defs file_defs)

lemma run_refreshing:
  "plain_reachable (set_phase 0 (Refreshing session_a)
     ((system_with refused_file)\<lparr>sy_machine := machine_with (file_with session_a [False, False, True])\<rparr>))"
  by (rule session_reachable.step [OF run_start], rule session_step.read_and_refresh [where now = 990])
    (simp_all add: system_with_def step_read_a session_a_due)

lemma run_unsaved:
  "plain_reachable (set_phase 0 (Unsaved session_b session_a)
     (set_phase 0 (Refreshing session_a)
       ((system_with refused_file)\<lparr>sy_machine := machine_with (file_with session_a [False, False, True])\<rparr>)
      \<lparr>sy_issued := {refresh_token session_b, refresh_token session_a}, sy_spent := {refresh_token session_a}\<rparr>))"
  (is "plain_reachable (set_phase 0 _ (?s\<lparr>sy_issued := ?i, sy_spent := ?p\<rparr>))")
proof -
  have "fresh_token plain_crates ?s session_b"
    by (simp add: fresh_token_def usable_def plain_crates_def system_with_def session_a_def session_b_def)
  moreover have "sy_phase ?s 0 = Refreshing session_a" by simp
  ultimately have "session_step (file_store_ops plain_reader) plain_crates ''/state'' operator_key ?s
      (set_phase 0 (Unsaved session_b session_a)
        (?s\<lparr>sy_issued := insert (refresh_token session_b) (sy_issued ?s), sy_spent := insert (refresh_token session_a) (sy_spent ?s)\<rparr>))"
    by (rule session_step.answered [rotated])
  moreover have "insert (refresh_token session_b) (sy_issued ?s) = ?i" "insert (refresh_token session_a) (sy_spent ?s) = ?p"
    by (simp_all add: system_with_def)
  ultimately show ?thesis using session_reachable.step [OF run_refreshing] by metis
qed

text \<open>The first rotation parked, the second process has filed it away and shows the new token.\<close>

lemma run_parked:
  "\<exists>s. plain_reachable s \<and> sy_holder s = None \<and> sy_machine s = parked_machine \<and>
     sy_spent s = {refresh_token session_a} \<and> sy_retired s = {} \<and> sy_lost s = {}"
proof -
  obtain r where f: "file_rotation (file_store_ops plain_reader) plain_crates ''/state'' operator_key session_b session_a
     (machine_with (file_with session_a [False, False, True])) = (r, parked_machine)"
    using step_file_b by (metis prod.collapse)
  let ?s = "set_phase 0 (Unsaved session_b session_a)
     (set_phase 0 (Refreshing session_a)
       ((system_with refused_file)\<lparr>sy_machine := machine_with (file_with session_a [False, False, True])\<rparr>)
      \<lparr>sy_issued := {refresh_token session_b, refresh_token session_a}, sy_spent := {refresh_token session_a}\<rparr>)"
  have "sy_phase ?s 0 = Unsaved session_b session_a" by simp
  moreover have "sy_machine ?s = machine_with (file_with session_a [False, False, True])" by (simp add: set_phase_def)
  ultimately have "session_step (file_store_ops plain_reader) plain_crates ''/state'' operator_key ?s
      (set_phase 0 Quiet (?s\<lparr>sy_machine := parked_machine\<rparr>))"
    using f by (metis session_step.filed)
  then have "plain_reachable (set_phase 0 Quiet (?s\<lparr>sy_machine := parked_machine\<rparr>))"
    by (rule session_reachable.step [OF run_unsaved])
  then show ?thesis
    by (intro exI [of _ "set_phase 0 Quiet (?s\<lparr>sy_machine := parked_machine\<rparr>)"] conjI) (simp_all add: set_phase_def system_with_def)
qed

lemma run_second:
  "\<exists>s. plain_reachable s \<and> sy_phase s 1 = Refreshing session_b \<and>
     sy_spent s = {refresh_token session_a} \<and> sy_retired s = {} \<and> sy_lost s = {}"
proof -
  obtain s where s: "plain_reachable s" "sy_holder s = None" "sy_machine s = parked_machine"
    "sy_spent s = {refresh_token session_a}" "sy_retired s = {}" "sy_lost s = {}" using run_parked by blast
  show ?thesis
    by (rule exI, rule conjI, rule session_reachable.step [OF s(1)], rule session_step.read_and_refresh [where i = 1 and now = 1990])
      (simp_all add: s step_read_b session_b_due)
qed

subsection \<open>Several processes, one session\<close>

text \<open>
  C1: Whatever several erpc processes do on one machine -- read, refresh, park, recover, sign in, sign
  out, die, in any order the refresh lock allows and with the credentials file failing whenever it likes --
  a refresh token a process shows the issuer that the issuer has spent before is one of two: a sign-out
  has put it to the issuer for revocation, or its successor never reached the machine, because the
  issuer's answer to that refresh was lost or the process died with the answer in hand before it saved
  or parked it. Two conditions: the refresh lock and the parked file in the state directory can be read
  and written, and no two of the tokens the issuer hands out have the same fingerprint.
\<close>

theorem shown_token_is_live:
  assumes "session_reachable (file_store_ops cd) (fs_holds cd) cr state_dir k s"
    and "sy_phase s i = Refreshing c"
  shows "refresh_token c \<in> sy_spent s \<longrightarrow> refresh_token c \<in> sy_retired s \<or> refresh_token c \<in> sy_lost s"
  using assms by (rule fs.shown_token_not_stale)

lemma shown_token_is_live_witness:
  "\<exists>s. plain_reachable s \<and> sy_phase s 1 = Refreshing session_b \<and>
     refresh_token session_a \<in> sy_spent s \<and> refresh_token session_b \<notin> sy_spent s"
proof -
  obtain s where s: "plain_reachable s" "sy_phase s 1 = Refreshing session_b"
    "sy_spent s = {refresh_token session_a}" "sy_retired s = {}" "sy_lost s = {}" using run_second by blast
  from shown_token_is_live [OF s(1,2)] s(4,5) have "refresh_token session_b \<notin> sy_spent s" by simp
  with s show ?thesis by (intro exI [of _ s]) simp
qed

text \<open>
  At most one process at a time is between reading the session it refreshes and filing what came
  back: two processes never have a rotation of one session under way together.
\<close>

theorem one_rotation_per_session:
  assumes "session_reachable (file_store_ops cd) (fs_holds cd) cr state_dir k s"
    and "sy_phase s i \<noteq> Quiet" and "sy_phase s j \<noteq> Quiet"
  shows "i = j"
  using assms by (rule fs.one_rotation_at_a_time)

lemma one_rotation_per_session_witness:
  "\<exists>s. plain_reachable s \<and> sy_phase s 1 \<noteq> Quiet \<and> (\<forall>j. sy_phase s j \<noteq> Quiet \<longrightarrow> 1 = j)"
proof -
  obtain s where s: "plain_reachable s" "sy_phase s 1 = Refreshing session_b" using run_second by blast
  then have "sy_phase s 1 \<noteq> Quiet" by simp
  with s one_rotation_per_session [OF s(1), of 1] show ?thesis by blast
qed

text \<open>
  Between commands, the session the machine has -- the stored one, or the parked one where the store
  still holds what that one replaced -- is one the issuer has spent only if a sign-out put it up for
  revocation or its successor never reached the machine.
\<close>

theorem quiet_machine_is_live:
  assumes "session_reachable (file_store_ops cd) (fs_holds cd) cr state_dir k s" and "sy_holder s = None"
    and "effective cr (fs_holds cd (ma_store (sy_machine s)) k) (ma_parked (sy_machine s) (ck_audience k)) = Held c"
  shows "refresh_token c \<in> sy_spent s \<longrightarrow> refresh_token c \<in> sy_retired s \<or> refresh_token c \<in> sy_lost s"
  using assms by (rule fs.quiet_session_not_stale)

lemma parked_machine_effective:
  "effective plain_crates (fs_holds plain_reader (ma_store parked_machine) operator_key)
     (ma_parked parked_machine (ck_audience operator_key)) = Held session_b"
  by (simp add: parked_machine_def plain_defs file_defs session_defs effective_def parked_content_def)

lemma quiet_machine_is_live_witness:
  "\<exists>s. plain_reachable s \<and> sy_holder s = None \<and> sy_machine s = parked_machine \<and>
     refresh_token session_a \<in> sy_spent s \<and> refresh_token session_b \<notin> sy_spent s"
proof -
  obtain s where s: "plain_reachable s" "sy_holder s = None" "sy_machine s = parked_machine"
    "sy_spent s = {refresh_token session_a}" "sy_retired s = {}" "sy_lost s = {}" using run_parked by blast
  have "refresh_token session_b \<in> sy_spent s \<longrightarrow> refresh_token session_b \<in> sy_retired s \<or> refresh_token session_b \<in> sy_lost s"
    by (rule quiet_machine_is_live [OF s(1,2)]) (simp add: s(3) parked_machine_effective)
  with s show ?thesis by (intro exI [of _ s]) simp
qed

subsection \<open>One command after another\<close>



text \<open>
  C32: A sign-out that reports success has left no session: neither the store nor the parked file
  holds one. If it reports the revocation confirmed, the issuer confirmed it for the stored session and
  for the parked one, each of which there was.
\<close>

theorem sign_out_leaves_nothing:
  assumes "sign_out (file_store_ops cd) cr k m = (Ok outcome, m')"
  shows "fs_holds cd (ma_store m') k = Vacant \<and> ma_parked m' (ck_audience k) = NoFile \<and>
    (outcome = Confirmed \<longrightarrow>
      (\<forall>h. fs_holds cd (ma_store m) k = Held h \<longrightarrow> (ck_audience k, refresh_token h, True) \<in> set (ma_revoked m')) \<and>
      (\<forall>p. parked_content cr (ma_parked m (ck_audience k)) = Some p \<longrightarrow>
         (ck_audience k, refresh_token (pk_credential p), True) \<in> set (ma_revoked m')))"
  using fs.sign_out_Ok [OF assms] by blast

lemma sign_out_leaves_nothing_witness:
  "fst (sign_out (file_store_ops plain_reader) plain_crates operator_key parked_machine) = Ok Confirmed \<and>
   fs_holds plain_reader (ma_store (snd (sign_out (file_store_ops plain_reader) plain_crates operator_key parked_machine))) operator_key = Vacant"
proof -
  have "fst (sign_out (file_store_ops plain_reader) plain_crates operator_key parked_machine) = Ok Confirmed"
    by (simp add: sign_out_def parked_machine_def plain_defs file_defs session_defs revocation_of_Confirmed)
  with sign_out_leaves_nothing [of plain_reader plain_crates operator_key parked_machine Confirmed] show ?thesis
    by (metis prod.collapse)
qed

text \<open>
  After a sign-in that reports success, the next command reads the new session, whatever was
  parked before, and the session it replaced was put to the issuer for revocation.
\<close>

theorem sign_in_takes_over:
  assumes "store_new_session (file_store_ops cd) cr state_dir k c m = (Ok rep, m1)"
    and "read_locked (file_store_ops cd) cr k m1 = (Ok found, m2)" and "usable c" and "sound_files m"
    and "\<And>p. parked_content cr (ma_parked m (ck_audience k)) = Some p \<Longrightarrow> fingerprint cr (refresh_token c) \<noteq> pk_replaces p"
  shows "found = Some c \<and>
    (\<forall>h. fs_holds cd (ma_store m) k = Held h \<longrightarrow> (\<exists>b. (ck_audience k, refresh_token h, b) \<in> set (ma_revoked m1)))"
proof -
  note n = fs.store_new_session_Ok [OF assms(1,3)]
  have s: "sound_files m1" using fs.store_new_session_any [OF assms(4,1,3)] by simp
  have "effective cr (fs_holds cd (ma_store m1) k) (ma_parked m1 (ck_audience k)) = Held c"
  proof (cases "ma_parked m1 (ck_audience k) = NoFile")
    case True
    with n(1) show ?thesis by simp
  next
    case False
    with n(2) have same: "ma_parked m1 = ma_parked m" by auto
    show ?thesis
    proof (cases "parked_content cr (ma_parked m (ck_audience k))")
      case None
      with same n(1) show ?thesis by (simp add: effective_no_content)
    next
      case (Some p)
      with same n(1) assms(5) show ?thesis by (simp add: effective_other)
    qed
  qed
  then have "found = Some c"
    using fs.read_locked_effective(2,3) [OF s assms(2)] by (cases found) auto
  with n(3) show ?thesis by blast
qed

lemma sign_in_takes_over_witness:
  "fst (read_locked (file_store_ops plain_reader) plain_crates operator_key
     (snd (store_new_session (file_store_ops plain_reader) plain_crates ''/state'' operator_key session_b
        (machine_with (file_with session_a []))))) = Ok (Some session_b)"
proof -
  let ?m = "machine_with (file_with session_a [])"
  let ?m1 = "snd (store_new_session (file_store_ops plain_reader) plain_crates ''/state'' operator_key session_b ?m)"
  let ?ops = "file_store_ops plain_reader"
  have "fst (store_new_session ?ops plain_crates ''/state'' operator_key session_b ?m) =
      Ok \<lparr>si_parked = None, si_previous_unreadable = None\<rparr>"
    by (simp add: store_new_session_def plain_defs file_defs session_defs Let_def)
  then have sn: "store_new_session ?ops plain_crates ''/state'' operator_key session_b ?m =
      (Ok \<lparr>si_parked = None, si_previous_unreadable = None\<rparr>, ?m1)" by (metis prod.collapse)
  have "is_ok (fst (read_locked ?ops plain_crates operator_key ?m1))"
    by (simp add: store_new_session_def plain_defs file_defs session_defs Let_def)
  then obtain found m2 where rd: "read_locked ?ops plain_crates operator_key ?m1 = (Ok found, m2)"
    by (cases "read_locked ?ops plain_crates operator_key ?m1") (auto simp: is_ok_def split: sum.splits)
  have "found = Some session_b"
    using sign_in_takes_over [OF sn rd]
    by (simp add: plain_defs usable_def sound_files_def)
  with rd show ?thesis by simp
qed

text \<open>
  \<open>current_session\<close> shows the issuer a refresh token only when the session the machine has is due, and then
  that of the session the machine really has, the parked one where that is the newer; a process that has
  begun to leave shows none.
\<close>

theorem current_session_shows_only_due:
  assumes "current_session (file_store_ops cd) cr answer leaving state_dir k now m = (r, Some tok, m')" and "sound_files m"
  shows "\<exists>c. tok = refresh_token c \<and> needs_refresh c now \<and> \<not> leaving \<and>
    effective cr (fs_holds cd (ma_store m) k) (ma_parked m (ck_audience k)) = Held c"
proof -
  obtain found m1 where rd: "read_locked (file_store_ops cd) cr k m = (Ok (Some found), m1)"
    and due: "needs_refresh found now" "\<not> leaving" "tok = refresh_token found"
    using assms(1) by (auto simp: current_session_def split: prod.splits sum.splits option.splits if_splits)
  with fs.read_locked_effective(2) [OF assms(2) rd] show ?thesis by blast
qed

lemma current_session_shows_only_due_witness:
  "fst (snd (current_session (file_store_ops plain_reader) plain_crates (\<lambda>aud tok now. Ok session_b) False ''/state'' operator_key 990
     (machine_with refused_file))) = Some (refresh_token session_a) \<and> needs_refresh session_a 990"
proof -
  let ?run = "current_session (file_store_ops plain_reader) plain_crates (\<lambda>aud tok now. Ok session_b) False ''/state'' operator_key 990
     (machine_with refused_file)"
  have shown: "fst (snd ?run) = Some (refresh_token session_a)"
    by (simp add: current_session_def step_read_a session_a_due split: prod.splits)
  then have run: "?run = (fst ?run, Some (refresh_token session_a), snd (snd ?run))" by (metis prod.collapse)
  have "sound_files (machine_with refused_file)" by (simp add: sound_files_def machine_with_def)
  from current_session_shows_only_due [OF run this] obtain c where
    c: "refresh_token session_a = refresh_token c" "needs_refresh c 990"
      "effective plain_crates (fs_holds plain_reader (ma_store (machine_with refused_file)) operator_key)
         (ma_parked (machine_with refused_file) (ck_audience operator_key)) = Held c" by blast
  have "fs_holds plain_reader (ma_store (machine_with refused_file)) operator_key = Held session_a"
    and "ma_parked (machine_with refused_file) (ck_audience operator_key) = NoFile"
    by (simp_all add: refused_file_def plain_defs file_defs)
  with c(3) have "c = session_a" by simp
  with shown c(2) show ?thesis by simp
qed

subsection \<open>The credentials file\<close>

text \<open>
  On a file system that works, saving a session always succeeds, also over a file nothing can
  read, and the next read of that key returns exactly that session.
\<close>

theorem file_store_roundtrip:
  assumes "usable c" and "fs_faults w = []" and "fs_save cd k c w = (r, w1)"
  shows "r = Ok () \<and> fst (fs_load cd k w1) = Ok (Some c)"
proof -
  obtain r1 w0 where l: "fs_lock w = (r1, w0)" and l': "r1 = Ok ()" "w0 = w"
    using assms(2) by (simp add: fs_lock_def take_fault_def)
  have rd: "read_document cd w = (case fs_document cd (fs_text w) of Inl e \<Rightarrow> Err (Corrupt (e @
      ''; nothing in it can be read, so signing in replaces the whole file and signing out removes it''))
      | Inr d \<Rightarrow> Ok d, w)"
    using assms(2)
    by (auto simp: read_document_def take_fault_def fs_document_def split: option.splits file_text.splits sum.splits)
  have wr: "write_document d w = (Ok (), w\<lparr>fs_text := Some (Written d)\<rparr>)" for d
    using assms(2) by (simp add: write_document_def take_fault_def)
  obtain d where w1: "r = Ok ()" "w1 = w\<lparr>fs_text := Some (Written (doc_insert (keychain_account k) (credential_to_stored c) d))\<rparr>"
    using assms(3) l l' rd wr by (auto simp: fs_save_def split: sum.splits)
  have "fst (fs_load cd k w1) = Ok (Some c)"
    using assms(1,2) w1
    by (simp add: fs_load_def fs_lock_def read_document_def take_fault_def doc_get_insert stored_roundtrip)
  with w1 show ?thesis by simp
qed

lemma file_store_roundtrip_witness:
  "fst (fs_load plain_reader operator_key (snd (fs_save plain_reader operator_key session_b (file_with session_a [])))) = Ok (Some session_b)"
  using file_store_roundtrip [OF _ _ surjective_pairing, of session_b "file_with session_a []" plain_reader operator_key]
  by (simp add: usable_def session_b_def file_with_def)

text \<open>
  One audience's session is untouched by what is done to another's: after a save or a removal under
  one key, a read under a key of another audience or account returns what that key held, or nothing
  when the file as a whole could not be read before.
\<close>

theorem file_store_frame:
  assumes "fs_save cd k c w = (rs, w1) \<or> fs_delete cd k w = (rd, w1)"
    and "ck_audience k' \<noteq> ck_audience k \<or> ck_account k' \<noteq> ck_account k"
  shows "fs_holds cd w1 k' = fs_holds cd w k' \<or> fs_holds cd w k' = Illegible"
  using assms fs_save_other [OF _ keychain_account_distinct] fs_delete_other [OF _ keychain_account_distinct] by blast

lemma file_store_frame_witness:
  "fs_holds plain_reader (snd (fs_save plain_reader \<lparr>ck_audience = McpUserApi, ck_account = ''default''\<rparr> session_b (file_with session_a [])))
     operator_key = Held session_a"
proof -
  let ?k = "\<lparr>ck_audience = McpUserApi, ck_account = ''default''\<rparr>"
  have held: "fs_holds plain_reader (file_with session_a []) operator_key = Held session_a"
    by (simp add: plain_defs file_defs)
  obtain rs w1 where sv: "fs_save plain_reader ?k session_b (file_with session_a []) = (rs, w1)" by fastforce
  have "fs_holds plain_reader w1 operator_key = fs_holds plain_reader (file_with session_a []) operator_key \<or>
      fs_holds plain_reader (file_with session_a []) operator_key = Illegible"
    by (rule file_store_frame [OF disjI1 [OF sv]]) (simp add: operator_key_def)
  with held sv show ?thesis by simp
qed

end
