(* ===== verification/Allowlist.thy ===== *)
theory Allowlist
  imports Device_Flow
begin

text \<open>
  \<open>crates/erpc-auth/src/allowlist.rs\<close>: the hosts each token may be sent to. The URL parser is the
  \<open>url\<close> crate's, so it is a parameter: \<open>parse url\<close> is the scheme and the host, if the text is an
  absolute URL and has a host.
\<close>

type_synonym url_parser = "string \<Rightarrow> (string \<times> string option) option"

definition auth_api_token_destinations :: "string list" where
  "auth_api_token_destinations = [''user-api.erpc.global'']"

definition mcp_token_destinations :: "string list" where
  "mcp_token_destinations = [''mcp-user-api.erpc.global'']"

fun destinations :: "audience \<Rightarrow> string list" where
  "destinations AuthApi = auth_api_token_destinations"
| "destinations McpUserApi = mcp_token_destinations"

datatype allowlist_error =
    NotHttps string
  | HostNotAllowed audience string string

definition https_host :: "url_parser \<Rightarrow> string \<Rightarrow> string option" where
  "https_host parse url =
     (case parse url of
        None \<Rightarrow> None
      | Some (scheme, host) \<Rightarrow> (if scheme \<noteq> ''https'' then None else host))"

definition ensure_token_destination :: "url_parser \<Rightarrow> audience \<Rightarrow> string \<Rightarrow> allowlist_error + unit" where
  "ensure_token_destination parse aud url =
     (case https_host parse url of
        None \<Rightarrow> Err (NotHttps url)
      | Some host \<Rightarrow>
         (if list_ex (\<lambda>a. a = host) (destinations aud) then Ok ()
          else Err (HostNotAllowed aud host (join_with '', '' (destinations aud)))))"

text \<open>A \<open>RefreshDestination\<close> is its URL; the only way to one is \<open>refresh_destination_checked\<close>.\<close>

datatype refresh_destination = RefreshDestination (refresh_url: string)

definition refresh_destination_checked :: "url_parser \<Rightarrow> audience \<Rightarrow> string \<Rightarrow> allowlist_error + refresh_destination" where
  "refresh_destination_checked parse aud url =
     (case https_host parse url of
        None \<Rightarrow> Err (NotHttps url)
      | Some host \<Rightarrow>
         (if host = issuer_host aud then Ok (RefreshDestination url)
          else Err (HostNotAllowed aud host (issuer_host aud))))"

subsection \<open>Lemmas\<close>

lemmas destination_defs = auth_api_token_destinations_def mcp_token_destinations_def

lemma ensure_token_destination_Ok:
  "ensure_token_destination parse aud url = Ok () \<longleftrightarrow>
     (\<exists>host. parse url = Some (''https'', Some host) \<and> host \<in> set (destinations aud))"
  by (auto simp: ensure_token_destination_def https_host_def list_ex_iff split: option.splits if_splits)

lemma refresh_destination_checked_Ok:
  "refresh_destination_checked parse aud url = Ok d \<longleftrightarrow>
     parse url = Some (''https'', Some (issuer_host aud)) \<and> d = RefreshDestination url"
  by (auto simp: refresh_destination_checked_def https_host_def split: option.splits if_splits)

text \<open>The two audiences' tokens never share a destination.\<close>

lemma destinations_disjoint: "set (destinations AuthApi) \<inter> set (destinations McpUserApi) = {}"
  by (simp add: destination_defs)

lemma auth_issuer_not_destination: "issuer_host AuthApi \<notin> set (destinations aud)"
  by (cases aud) (simp_all add: destination_defs)

text \<open>
  What the code relies on of the parser, for the addresses it builds itself: \<open>https://\<close>, a host in
  lower case and a path of plain characters read back as that host.
\<close>

definition reads_plain_https :: "url_parser \<Rightarrow> bool" where
  "reads_plain_https parse \<longleftrightarrow>
     (\<forall>aud path. list_all url_safe_byte path \<longrightarrow>
        parse (''https://'' @ issuer_host aud @ ''/'' @ path) = Some (''https'', Some (issuer_host aud)))"

lemma endpoints_on_issuer:
  "is_verification_url (endpoint_authorization aud) (issuer_host aud)"
  "is_verification_url (endpoint_token aud) (issuer_host aud)"
  "is_verification_url (endpoint_revoke aud) (issuer_host aud)"
  by (cases aud; simp add: is_verification_url_def starts_with_def url_safe_byte_def
      is_ascii_alphanumeric_def byte_of_def)+

lemma issuer_page_checked:
  assumes "reads_plain_https parse" and "is_verification_url url (issuer_host aud)"
  shows "refresh_destination_checked parse aud url = Ok (RefreshDestination url)"
proof -
  from assms(2) obtain path where "url = ''https://'' @ issuer_host aud @ ''/'' @ path" "list_all url_safe_byte path"
    by (auto simp: is_verification_url_iff)
  with assms(1) show ?thesis
    by (simp add: reads_plain_https_def refresh_destination_checked_Ok)
qed

end
