(* ===== verification/Gate.thy ===== *)
theory Gate
  imports Prelude
begin

text \<open>
  \<open>crates/erpc-secret/src/gate.rs\<close>: the table that decides whether a secret may be resolved, the
  facts about the process it reads, and how those facts are read from the environment.
\<close>

subsection \<open>Requests\<close>

datatype network = Mainnet | Testnet | Devnet

fun is_mainnet :: "network \<Rightarrow> bool" where
  "is_mainnet Mainnet = True"
| "is_mainnet Testnet = False"
| "is_mainnet Devnet = False"

datatype profile =
    ValidatorIdentity network
  | HumanWallet bool
  | AgentWallet
  | SessionToken
  | NodeResident network

datatype operation = Prepare | Resolve

subsection \<open>The facts about the process\<close>

record gate_context =
  has_tty :: bool
  in_ssh_session :: bool
  on_node :: bool
  ai_console :: bool
  ai_tool_path :: bool
  service_account :: bool
  op_env_session :: bool
  biometric_unlock :: bool

definition context_empty :: gate_context where
  "context_empty = \<lparr>has_tty = False, in_ssh_session = False, on_node = False, ai_console = False,
     ai_tool_path = False, service_account = False, op_env_session = False, biometric_unlock = True\<rparr>"

text \<open>One variable of the environment; an empty value counts as absent.\<close>

definition read_var :: "gate_context \<Rightarrow> string \<times> string \<Rightarrow> gate_context" where
  "read_var ctx nv =
     (let name = fst nv; val = snd nv in
      if val = [] then ctx
      else if name = ''SSH_CONNECTION'' \<or> name = ''SSH_TTY'' then ctx\<lparr>in_ssh_session := True\<rparr>
      else if name = ''ERPC_EXECUTION_CONTEXT'' then
        ctx\<lparr>ai_console := (val = ''ai-console''), ai_tool_path := (val = ''ai-tool'')\<rparr>
      else if name = ''OP_SERVICE_ACCOUNT_TOKEN'' then ctx\<lparr>service_account := True\<rparr>
      else if name = ''OP_CONNECT_HOST'' \<or> name = ''OP_CONNECT_TOKEN'' then ctx\<lparr>op_env_session := True\<rparr>
      else if name = ''OP_BIOMETRIC_UNLOCK_ENABLED'' then
        ctx\<lparr>biometric_unlock := \<not> eq_ignore_ascii_case val ''false''\<rparr>
      else if starts_with name ''OP_SESSION_'' \<or> name = ''OP_SESSION'' then ctx\<lparr>op_env_session := True\<rparr>
      else ctx)"

definition from_env :: "bool \<Rightarrow> bool \<Rightarrow> (string \<times> string) list \<Rightarrow> gate_context" where
  "from_env tty node vars = foldl read_var (context_empty\<lparr>has_tty := tty, on_node := node\<rparr>) vars"

subsection \<open>Answers\<close>

datatype confirmation = ConfirmNone | Tty | TtyPhrase

datatype denial =
    NoTerminal
  | FromAiPath
  | AiNotPermittedForWallet
  | ServiceAccount
  | OpEnvSession
  | SshSession
  | OnNode
  | BiometricUnlockRequired

datatype decision = Allow confirmation | Deny denial

fun is_allowed :: "decision \<Rightarrow> bool" where
  "is_allowed (Allow c) = True"
| "is_allowed (Deny d) = False"

subsection \<open>The table\<close>

definition agent_wallet :: "gate_context \<Rightarrow> decision" where
  "agent_wallet ctx = Allow ConfirmNone"

definition human_wallet :: "bool \<Rightarrow> operation \<Rightarrow> gate_context \<Rightarrow> decision" where
  "human_wallet allow_ai op ctx =
     (if service_account ctx then Deny ServiceAccount
      else if ai_tool_path ctx \<and> \<not> allow_ai then Deny AiNotPermittedForWallet
      else if op = Prepare then Allow ConfirmNone
      else if ai_console ctx then Deny FromAiPath
      else if \<not> has_tty ctx then Deny NoTerminal
      else Allow Tty)"

definition validator_identity :: "network \<Rightarrow> gate_context \<Rightarrow> decision" where
  "validator_identity network ctx =
     (if ai_console ctx \<or> ai_tool_path ctx then Deny FromAiPath
      else if on_node ctx then Deny OnNode
      else if is_mainnet network then
        (if service_account ctx then Deny ServiceAccount
         else if op_env_session ctx then Deny OpEnvSession
         else if \<not> biometric_unlock ctx then Deny BiometricUnlockRequired
         else if in_ssh_session ctx then Deny SshSession
         else if \<not> has_tty ctx then Deny NoTerminal
         else Allow TtyPhrase)
      else if service_account ctx then Allow ConfirmNone
      else if in_ssh_session ctx then Deny SshSession
      else if \<not> has_tty ctx then Deny NoTerminal
      else Allow Tty)"

definition node_resident :: "network \<Rightarrow> gate_context \<Rightarrow> decision" where
  "node_resident network ctx =
     (if ai_console ctx \<or> ai_tool_path ctx then Deny FromAiPath
      else if service_account ctx \<and> is_mainnet network then Deny ServiceAccount
      else if \<not> has_tty ctx then Deny NoTerminal
      else Allow Tty)"

fun evaluate :: "profile \<Rightarrow> operation \<Rightarrow> gate_context \<Rightarrow> decision" where
  "evaluate SessionToken op ctx = Allow ConfirmNone"
| "evaluate AgentWallet op ctx = agent_wallet ctx"
| "evaluate (HumanWallet allow_ai) op ctx = human_wallet allow_ai op ctx"
| "evaluate (ValidatorIdentity network) op ctx = validator_identity network ctx"
| "evaluate (NodeResident network) op ctx = node_resident network ctx"

lemmas gate_rows = agent_wallet_def human_wallet_def validator_identity_def node_resident_def

subsection \<open>What an allowed request has\<close>

text \<open>The abstract contract of the mainnet row: every condition of the design's table at once.\<close>

definition operator_present :: "gate_context \<Rightarrow> bool" where
  "operator_present ctx \<longleftrightarrow> has_tty ctx \<and> \<not> in_ssh_session ctx \<and> \<not> on_node ctx \<and> \<not> ai_console ctx \<and>
     \<not> ai_tool_path ctx \<and> \<not> service_account ctx \<and> \<not> op_env_session ctx \<and> biometric_unlock ctx"

lemma validator_mainnet_iff:
  "validator_identity Mainnet ctx = Allow c \<longleftrightarrow> operator_present ctx \<and> c = TtyPhrase"
  by (auto simp: validator_identity_def operator_present_def)

lemma human_wallet_resolve:
  "human_wallet allow_ai Resolve ctx = Allow c \<longleftrightarrow>
     c = Tty \<and> has_tty ctx \<and> \<not> service_account ctx \<and> \<not> ai_console ctx \<and> (ai_tool_path ctx \<longrightarrow> allow_ai)"
  by (auto simp: human_wallet_def)

text \<open>
  One context is at most as trusted as another when it adds only facts the table holds against a
  request. A service account is not one of them: it is how CI reaches a test network.
\<close>

definition less_trusted :: "gate_context \<Rightarrow> gate_context \<Rightarrow> bool" where
  "less_trusted a b \<longleftrightarrow>
     (has_tty a \<longrightarrow> has_tty b) \<and> (in_ssh_session b \<longrightarrow> in_ssh_session a) \<and> (on_node b \<longrightarrow> on_node a) \<and>
     (ai_console b \<longrightarrow> ai_console a) \<and> (ai_tool_path b \<longrightarrow> ai_tool_path a) \<and>
     (op_env_session b \<longrightarrow> op_env_session a) \<and> (biometric_unlock a \<longrightarrow> biometric_unlock b) \<and>
     service_account a = service_account b"

lemma evaluate_monotone:
  "less_trusted a b \<Longrightarrow> evaluate pr op a = Allow c \<Longrightarrow> evaluate pr op b = Allow c"
  by (cases pr) (auto simp: less_trusted_def gate_rows split: if_splits)

subsection \<open>Reading the environment\<close>

lemma read_var_keeps:
  "in_ssh_session ctx \<Longrightarrow> in_ssh_session (read_var ctx nv)"
  "service_account ctx \<Longrightarrow> service_account (read_var ctx nv)"
  "op_env_session ctx \<Longrightarrow> op_env_session (read_var ctx nv)"
  "has_tty (read_var ctx nv) = has_tty ctx"
  "on_node (read_var ctx nv) = on_node ctx"
  by (simp_all add: read_var_def Let_def)

lemma fold_read_var_keeps:
  "in_ssh_session ctx \<Longrightarrow> in_ssh_session (foldl read_var ctx vars)"
  "service_account ctx \<Longrightarrow> service_account (foldl read_var ctx vars)"
  "op_env_session ctx \<Longrightarrow> op_env_session (foldl read_var ctx vars)"
  "has_tty (foldl read_var ctx vars) = has_tty ctx"
  "on_node (foldl read_var ctx vars) = on_node ctx"
  by (induction vars arbitrary: ctx) (simp_all add: read_var_keeps)

lemma from_env_facts [simp]: "has_tty (from_env tty node vars) = tty" "on_node (from_env tty node vars) = node"
  by (simp_all add: from_env_def fold_read_var_keeps)

lemma starts_with_op_session:
  "starts_with name ''OP_SESSION_'' \<Longrightarrow>
     name \<noteq> ''SSH_CONNECTION'' \<and> name \<noteq> ''SSH_TTY'' \<and> name \<noteq> ''ERPC_EXECUTION_CONTEXT'' \<and>
     name \<noteq> ''OP_SERVICE_ACCOUNT_TOKEN'' \<and> name \<noteq> ''OP_BIOMETRIC_UNLOCK_ENABLED''"
  by (auto simp: starts_with_iff)

lemma read_var_op_session_prefix:
  assumes "val \<noteq> []" and "starts_with name ''OP_SESSION_''"
  shows "op_env_session (read_var ctx (name, val))"
  using assms starts_with_op_session [OF assms(2)]
  unfolding read_var_def Let_def fst_conv snd_conv by simp

lemma read_var_op_session_named:
  assumes "val \<noteq> []"
  shows "op_env_session (read_var ctx (''OP_SESSION'', val))"
    and "op_env_session (read_var ctx (''OP_CONNECT_HOST'', val))"
    and "op_env_session (read_var ctx (''OP_CONNECT_TOKEN'', val))"
  using assms by (simp_all add: read_var_def)

lemma read_var_op_session:
  "val \<noteq> [] \<Longrightarrow> starts_with name ''OP_SESSION_'' \<or> name \<in> {''OP_SESSION'', ''OP_CONNECT_HOST'', ''OP_CONNECT_TOKEN''} \<Longrightarrow>
     op_env_session (read_var ctx (name, val))"
  using read_var_op_session_prefix [of val name ctx] read_var_op_session_named [of val ctx] by blast

lemma read_var_ssh:
  assumes "val \<noteq> []" and "name \<in> {''SSH_CONNECTION'', ''SSH_TTY''}"
  shows "in_ssh_session (read_var ctx (name, val))"
  using assms by (auto simp: read_var_def)

lemma foldl_sticky:
  assumes keeps: "\<And>ctx nv. P ctx \<Longrightarrow> P (f ctx nv)" and sets: "\<And>ctx. P (f ctx nv)" and "nv \<in> set vars"
  shows "P (foldl f ctx vars)"
proof -
  from assms(3) obtain xs ys where vars: "vars = xs @ nv # ys" by (meson split_list)
  have all: "P c \<Longrightarrow> P (foldl f c ys)" for c
    by (induction ys arbitrary: c) (simp_all add: keeps)
  show ?thesis by (simp add: vars all sets)
qed

lemma from_env_op_session:
  assumes "(name, val) \<in> set vars" and "val \<noteq> []"
    and "starts_with name ''OP_SESSION_'' \<or> name \<in> {''OP_SESSION'', ''OP_CONNECT_HOST'', ''OP_CONNECT_TOKEN''}"
  shows "op_env_session (from_env tty node vars)"
  unfolding from_env_def
  by (rule foldl_sticky [where nv = "(name, val)"])
    (use assms in \<open>auto intro: read_var_keeps read_var_op_session\<close>)

lemma from_env_ssh:
  assumes "(name, val) \<in> set vars" and "val \<noteq> []" and "name \<in> {''SSH_CONNECTION'', ''SSH_TTY''}"
  shows "in_ssh_session (from_env tty node vars)"
  unfolding from_env_def
  by (rule foldl_sticky [where nv = "(name, val)"])
    (use assms in \<open>auto intro: read_var_keeps read_var_ssh\<close>)

end
