(* ===== verification/Access_Properties.thy ===== *)
theory Access_Properties
  imports Allowlist Gate Session
begin

text \<open>
  The properties of the pieces a session passes through on its way: the device grant, the shape of its
  tokens, the hosts it may be sent to, the page an operator is sent to, and the gate before a secret.
\<close>

subsection \<open>The device grant\<close>

text \<open>The waits of a grant never get shorter.\<close>

lemma advance_act: "advance p = (act, p') \<Longrightarrow> po_interval p' = po_interval p"
  by (auto simp: advance_def split: if_splits)

lemma next_wait_interval_bounded:
  assumes "po_interval p \<le> duration_max" and "next_wait p out = (act, p')"
  shows "po_interval p' \<le> duration_max"
proof (cases out)
  case (PollApproved at rt ex)
  with assms show ?thesis by (auto split: sum.splits)
next
  case PollSlowDown
  with assms(2) have "po_interval p' = duration_add_sat (po_interval p) slow_down_step"
    by (auto dest: advance_act)
  then show ?thesis by (simp add: duration_add_sat_def)
next
  case PollNetworkError
  with assms(2) have "po_interval p' = back_off (po_interval p) (duration_mul_sat (po_interval p) 2)"
    by (auto dest: advance_act)
  moreover have "max_interval \<le> duration_max" by (simp add: max_interval_def rust_arith)
  ultimately show ?thesis using assms(1) by (simp add: back_off_def)
qed (use assms in \<open>auto dest: advance_act\<close>)

lemma grant_loop_sorted:
  assumes "po_interval p \<le> duration_max" and "grant_loop fuel poll took n p = Some (r, ws, t)"
  shows "sorted ws \<and> list_all (\<lambda>w. po_interval p \<le> w) ws"
  using assms
proof (induction fuel arbitrary: n p ws t)
  case 0
  then show ?case by simp
next
  case (Suc fuel)
  obtain act p' where nx: "next_wait p (poll n) = (act, p')" by fastforce
  show ?case
  proof (cases act)
    case (Stop r)
    with nx Suc.prems show ?thesis by auto
  next
    case (Wait d)
    with nx Suc.prems obtain ws' t' where rec: "grant_loop fuel poll took (Suc n) p' = Some (r, ws', t')"
      and ws: "ws = d # ws'" by auto
    have "po_interval p \<le> po_interval p'" "po_interval p' \<le> duration_max"
      using next_wait_interval_grows [OF Suc.prems(1) nx] next_wait_interval_bounded [OF Suc.prems(1) nx] by auto
    with Suc.IH [OF _ rec] next_wait_Wait [OF nx [unfolded Wait]] ws show ?thesis
      by (auto simp: list_all_iff)
  qed
qed

lemma waits_fit: "\<forall>w\<in>set ws. d \<le> w \<Longrightarrow> length ws * d \<le> sum_list (ws :: nat list)"
  by (induction ws) auto

lemma requests_fit: "(\<And>n. took n \<le> d) \<Longrightarrow> sum_list (map took ns) \<le> length ns * (d :: nat)"
  by (induction ns) (auto intro: add_mono)

text \<open>
  C38: Whatever the issuer answers, and for however long, a sign-in ends: it has a result; its waits together stay within
  the lifetime the issuer gave the code, none is shorter than five seconds or than the one before it, so there are
  at most a fifth as many as the lifetime has seconds; and there is one request more than there are waits.
  The time that passes is all of them together: with every request given up after half a minute, as the
  client does, at most the lifetime and half a minute for each request.
\<close>

theorem device_grant_ends:
  assumes "da_interval a \<le> duration_max" and "\<And>n. took n \<le> request_timeout"
  shows "\<exists>r ws t. run_device_grant poll took a = Some (r, ws, t) \<and> sum_list ws \<le> da_expires_in a \<and>
    list_all (\<lambda>w. min_interval \<le> w) ws \<and> sorted ws \<and> length ws * min_interval \<le> da_expires_in a \<and>
    t = sum_list ws + sum_list (map took [0 ..< length ws + 1]) \<and>
    t \<le> da_expires_in a + (length ws + 1) * request_timeout"
proof -
  have pn: "po_budget (poller_new a) = da_expires_in a" "po_elapsed (poller_new a) = 0"
    "po_interval (poller_new a) \<le> duration_max"
    using assms min_interval_le_max by (simp_all add: poller_new_def)
  obtain r ws t where run: "run_device_grant poll took a = Some (r, ws, t)"
    using grant_loop_terminates [OF poller_ok_new, of a "grant_fuel a" poll took 0] pn
    by (auto simp: run_device_grant_def grant_fuel_def)
  note loop = run [unfolded run_device_grant_def]
  from grant_loop_waits [OF poller_ok_new loop] grant_loop_sorted [OF pn(3) loop] pn(1,2)
  have w: "sum_list ws \<le> da_expires_in a" "\<forall>w\<in>set ws. min_interval \<le> w" "sorted ws" by simp_all
  have "t = sum_list ws + sum_list (map took [0 ..< length ws + 1])" using grant_loop_time [OF loop] by simp
  moreover have "sum_list (map took [0 ..< length ws + 1]) \<le> (length ws + 1) * request_timeout"
    using requests_fit [where took = took and ns = "[0 ..< length ws + 1]", OF assms(2)] by (simp del: upt_Suc)
  moreover have "length ws * min_interval \<le> da_expires_in a" using waits_fit [OF w(2)] w(1) by (rule order_trans)
  ultimately show ?thesis
    using run w by (intro exI [of _ r] exI [of _ ws] exI [of _ t]) (simp add: list_all_iff del: upt_Suc)
qed

text \<open>
  The lifetime is charged for the waits only: a sign-in whose requests take half a minute each goes on long after a code
  of eleven seconds has expired, and asks about it twice more.
\<close>

lemma a_sign_in_can_outlast_its_code:
  "\<exists>r t. grant_loop 3 (\<lambda>n. PollPending) (\<lambda>n. request_timeout) 0 \<lparr>po_interval = from_secs 5, po_elapsed = 0, po_budget = from_secs 11\<rparr> =
     Some (r, [from_secs 5, from_secs 5], t) \<and> t = from_secs 100"
  by (simp add: numeral_3_eq_3 advance_def remaining_def request_timeout_def rust_arith)

definition sample_authorization :: device_authorization where
  "sample_authorization =
     \<lparr>da_device_code = ''device'', da_user_code = ''WDJB-MJHT'',
      da_verification_uri = ''https://auth-api.erpc.global/device'', da_verification_uri_complete = None,
      da_expires_in = from_secs 900, da_interval = from_secs 1\<rparr>"

lemma device_grant_ends_witness:
  "\<exists>r ws t. run_device_grant (\<lambda>n. PollSlowDown) (\<lambda>n. request_timeout) sample_authorization = Some (r, ws, t) \<and>
     sum_list ws \<le> from_secs 900 \<and> t \<le> from_secs 900 + (length ws + 1) * request_timeout"
  using device_grant_ends [of sample_authorization "\<lambda>n. request_timeout" "\<lambda>n. PollSlowDown"]
  by (fastforce simp: sample_authorization_def rust_arith)

text \<open>
  A sign-in yields tokens only out of an approval of the issuer, and only tokens that have the
  shape of a JWT, both of them.
\<close>

theorem device_grant_tokens:
  assumes "run_device_grant poll took a = Some (Ok ap, ws, t)"
  shows "poll (length ws) = PollApproved (ap_access_token ap) (ap_refresh_token ap) (ap_expires_in ap) \<and>
    check_token_shape (ap_access_token ap) = Ok () \<and> check_token_shape (ap_refresh_token ap) = Ok ()"
  using grant_loop_tokens [OF assms [unfolded run_device_grant_def]] by simp

definition sample_polls :: "nat \<Rightarrow> poll_outcome" where
  "sample_polls n = (if n = 0 then PollPending else PollApproved ''aa.bb.cc'' ''dd.ee.ff'' (from_secs 3600))"

lemma sample_tokens_shape: "check_token_shape ''aa.bb.cc'' = Ok ()" "check_token_shape ''dd.ee.ff'' = Ok ()"
  by (simp_all add: check_token_shape_def is_base64url_def is_ascii_alphanumeric_def byte_of_def)

lemma sample_grant:
  "run_device_grant sample_polls (\<lambda>n. 0) sample_authorization =
     Some (Ok \<lparr>ap_access_token = ''aa.bb.cc'', ap_refresh_token = ''dd.ee.ff'', ap_expires_in = from_secs 3600\<rparr>, [from_secs 5], from_secs 5)"
proof -
  have fuel: "grant_fuel sample_authorization = Suc (Suc 179)"
    by (simp add: grant_fuel_def sample_authorization_def poll_consts rust_arith)
  have "advance (poller_new sample_authorization) =
      (Wait (from_secs 5), (poller_new sample_authorization)\<lparr>po_elapsed := from_secs 5\<rparr>)"
    by (simp add: advance_def remaining_def poller_new_def sample_authorization_def poll_consts rust_arith)
  then have "grant_loop (Suc (Suc n)) sample_polls (\<lambda>n. 0) 0 (poller_new sample_authorization) =
     Some (Ok \<lparr>ap_access_token = ''aa.bb.cc'', ap_refresh_token = ''dd.ee.ff'', ap_expires_in = from_secs 3600\<rparr>, [from_secs 5], from_secs 5)" for n
    by (simp add: sample_polls_def sample_tokens_shape)
  then show ?thesis by (simp only: run_device_grant_def fuel)
qed

lemma device_grant_tokens_witness:
  "check_token_shape ''aa.bb.cc'' = Ok () \<and> check_token_shape ''dd.ee.ff'' = Ok () \<and>
     run_device_grant sample_polls (\<lambda>n. 0) sample_authorization =
     Some (Ok \<lparr>ap_access_token = ''aa.bb.cc'', ap_refresh_token = ''dd.ee.ff'', ap_expires_in = from_secs 3600\<rparr>, [from_secs 5], from_secs 5)"
  using device_grant_tokens [OF sample_grant] sample_grant by simp

text \<open>
  The shape check accepts exactly the strings that are three base64url parts joined by dots, the
  first two of them not empty.
\<close>

theorem token_shape_exact:
  "check_token_shape tok = Ok () \<longleftrightarrow>
     (\<exists>h p s. tok = h @ ''.'' @ p @ ''.'' @ s \<and> h \<noteq> [] \<and> p \<noteq> [] \<and>
        is_base64url h \<and> is_base64url p \<and> is_base64url s)"
  using check_token_shape_parts [of tok "()"] check_token_shape_complete by blast

text \<open>
  A session is used without a refresh only while it has more than a minute to live, and a session
  just approved for more than a minute is not refreshed again at once.
\<close>

theorem refresh_margin_kept:
  assumes "0 \<le> now" and "now + int (as_secs (ap_expires_in ap)) \<le> i64_max" and "expires_at c \<le> i64_max"
  shows "(\<not> needs_refresh c now \<longrightarrow> now + 60 < expires_at c) \<and>
    (needs_refresh (approved_to_credential ap now) now \<longleftrightarrow> as_secs (ap_expires_in ap) \<le> 60)"
proof -
  let ?secs = "as_secs (ap_expires_in ap)"
  have "expires_at (approved_to_credential ap now) = now + int ?secs"
    using assms(1,2)
    by (simp add: approved_to_credential_def Let_def i64_add_sat_def i64_sat_def i64_min_def i64_max_def)
  moreover have "now + int ?secs - 60 \<le> i64_max" using assms(2) by simp
  ultimately have "needs_refresh (approved_to_credential ap now) now \<longleftrightarrow> ?secs \<le> 60"
    using assms(1) by (auto simp: needs_refresh_def refresh_margin_secs_def i64_sub_sat_def i64_sat_def i64_min_def)
  moreover have "i64_min \<le> now" using assms(1) by (simp add: i64_min_def)
  ultimately show ?thesis using not_needs_refresh_margin [OF _ assms(3)] by blast
qed

lemma refresh_margin_kept_witness:
  "\<not> needs_refresh (approved_to_credential \<lparr>ap_access_token = ''aa.bb.cc'', ap_refresh_token = ''dd.ee.ff'', ap_expires_in = from_secs 3600\<rparr> 1000) 1000"
  using refresh_margin_kept [of 1000 "\<lparr>ap_access_token = ''aa.bb.cc'', ap_refresh_token = ''dd.ee.ff'', ap_expires_in = from_secs 3600\<rparr>"
      "\<lparr>access_token = [], refresh_token = [], expires_at = 0\<rparr>"]
  by (simp add: i64_max_def)

subsection \<open>Where tokens and operators are sent\<close>

text \<open>
  The page a sign-in opens, once it passes the check, is on the issuer's own host over https, and
  no character of it means anything to a shell: with a URL parser that reads plain https addresses as
  their text says, that host is also the one the refresh token may be sent to, and the parser agrees.
\<close>

theorem verification_page_is_safe:
  assumes "reads_plain_https parse" and "is_verification_url (open_url a) (issuer_host aud)"
  shows "refresh_destination_checked parse aud (open_url a) = Ok (RefreshDestination (open_url a)) \<and>
    list_all (\<lambda>c. c \<notin> set ''&|^% <>()!\";$`*'') (open_url a)"
proof -
  obtain path where url: "open_url a = ''https://'' @ issuer_host aud @ ''/'' @ path" and safe: "list_all url_safe_byte path"
    using assms(2) by (auto simp: is_verification_url_iff)
  from safe have "list_all (\<lambda>c. c \<notin> set ''&|^% <>()!\";$`*'') path"
    by (rule list.pred_mono_strong) (rule url_safe_not_shell)
  moreover have "list_all (\<lambda>c. c \<notin> set ''&|^% <>()!\";$`*'') (''https://'' @ issuer_host aud @ ''/'')"
    by (cases aud) simp_all
  ultimately show ?thesis using issuer_page_checked [OF assms] url by simp
qed

text \<open>A parser for the addresses of this program: the text between \<open>https://\<close> and the next slash is the host.\<close>

definition plain_parser :: url_parser where
  "plain_parser url =
     (case strip_prefix ''https://'' url of
        None \<Rightarrow> None
      | Some rest \<Rightarrow> Some (''https'', Some (takeWhile (\<lambda>c. c \<noteq> CHR ''/'') rest)))"

lemma plain_parser_reads: "reads_plain_https plain_parser"
proof -
  have "takeWhile (\<lambda>c. c \<noteq> CHR ''/'') (issuer_host aud @ ''/'' @ path) = issuer_host aud" for aud path
    by (cases aud) simp_all
  moreover have "strip_prefix ''https://'' (''https://'' @ rest) = Some rest" for rest by (simp del: append_Cons)
  ultimately show ?thesis by (simp add: reads_plain_https_def plain_parser_def)
qed

lemma verification_page_is_safe_witness:
  "refresh_destination_checked plain_parser AuthApi ''https://auth-api.erpc.global/device'' =
     Ok (RefreshDestination ''https://auth-api.erpc.global/device'')"
  using verification_page_is_safe [OF plain_parser_reads, of sample_authorization AuthApi]
  by (simp add: sample_authorization_def open_url_def is_verification_url_def starts_with_def url_safe_byte_def
      is_ascii_alphanumeric_def byte_of_def)

text \<open>
  An address one audience's access token may be sent to is never one for the other audience's
  tokens, neither its access token nor its refresh token.
\<close>

theorem tokens_never_cross:
  assumes "ensure_token_destination parse aud url = Ok ()" and "other \<noteq> aud"
  shows "ensure_token_destination parse other url \<noteq> Ok () \<and> \<not> is_ok (refresh_destination_checked parse other url)"
proof -
  obtain host where host: "parse url = Some (''https'', Some host)" "host \<in> set (destinations aud)"
    using assms(1) by (auto simp: ensure_token_destination_Ok)
  with assms(2) have "host \<notin> set (destinations other)" "host \<noteq> issuer_host other"
    by (cases aud; cases other; simp add: destination_defs)+
  with host(1) show ?thesis
    by (simp add: ensure_token_destination_Ok refresh_destination_checked_def https_host_def)
qed

lemma tokens_never_cross_witness:
  "\<not> is_ok (refresh_destination_checked plain_parser McpUserApi ''https://user-api.erpc.global/graphql'')"
proof -
  have ok: "ensure_token_destination plain_parser AuthApi ''https://user-api.erpc.global/graphql'' = Ok ()"
    by (simp add: ensure_token_destination_def https_host_def plain_parser_def destination_defs)
  show ?thesis using tokens_never_cross [OF ok, of McpUserApi] by simp
qed

text \<open>Every address the issuer client builds passes the check of where a refresh token may go.\<close>

theorem endpoints_pass_the_check:
  assumes "reads_plain_https parse"
  shows "is_ok (refresh_destination_checked parse aud (endpoint_authorization aud)) \<and>
    is_ok (refresh_destination_checked parse aud (endpoint_token aud)) \<and>
    is_ok (refresh_destination_checked parse aud (endpoint_revoke aud))"
  using issuer_page_checked [OF assms endpoints_on_issuer(1)] issuer_page_checked [OF assms endpoints_on_issuer(2)]
    issuer_page_checked [OF assms endpoints_on_issuer(3)] by simp

lemma endpoints_pass_the_check_witness: "is_ok (refresh_destination_checked plain_parser McpUserApi (endpoint_token McpUserApi))"
  using endpoints_pass_the_check [OF plain_parser_reads] by blast

subsection \<open>The gate\<close>

lemma read_var_service:
  "val \<noteq> [] \<Longrightarrow> service_account (read_var ctx (''OP_SERVICE_ACCOUNT_TOKEN'', val))"
  by (simp add: read_var_def)

lemma from_env_service:
  assumes "(''OP_SERVICE_ACCOUNT_TOKEN'', val) \<in> set vars" and "val \<noteq> []"
  shows "service_account (from_env tty node vars)"
  unfolding from_env_def
  by (rule foldl_sticky [where nv = "(''OP_SERVICE_ACCOUNT_TOKEN'', val)"])
    (use assms in \<open>auto intro: read_var_keeps read_var_service\<close>)

definition operator_variable :: "string \<Rightarrow> bool" where
  "operator_variable name \<longleftrightarrow>
     name \<in> {''SSH_CONNECTION'', ''SSH_TTY''} \<or> name = ''OP_SERVICE_ACCOUNT_TOKEN'' \<or>
     (starts_with name ''OP_SESSION_'' \<or> name \<in> {''OP_SESSION'', ''OP_CONNECT_HOST'', ''OP_CONNECT_TOKEN''})"

text \<open>
  No environment with an SSH session, a service account or a 1Password session in it resolves a
  mainnet identity, wherever those variables stand among the others.
\<close>

theorem mainnet_identity_not_from_such_env:
  assumes "evaluate (ValidatorIdentity Mainnet) op (from_env tty node vars) = Allow c" and "(name, val) \<in> set vars"
    and "operator_variable name"
  shows "val = []"
proof (rule ccontr)
  assume val: "val \<noteq> []"
  have present: "operator_present (from_env tty node vars)" using assms(1) by (simp add: validator_mainnet_iff)
  from assms(3) consider "name \<in> {''SSH_CONNECTION'', ''SSH_TTY''}" | "name = ''OP_SERVICE_ACCOUNT_TOKEN''"
    | "starts_with name ''OP_SESSION_'' \<or> name \<in> {''OP_SESSION'', ''OP_CONNECT_HOST'', ''OP_CONNECT_TOKEN''}"
    unfolding operator_variable_def by iprover
  then show False
  proof cases
    case 1
    have "in_ssh_session (from_env tty node vars)" using from_env_ssh [OF assms(2) val 1] .
    with present show ?thesis unfolding operator_present_def by blast
  next
    case 2
    have "service_account (from_env tty node vars)" using from_env_service assms(2) val unfolding 2 by blast
    with present show ?thesis unfolding operator_present_def by blast
  next
    case 3
    have "op_env_session (from_env tty node vars)" using from_env_op_session [OF assms(2) val 3] .
    with present show ?thesis unfolding operator_present_def by blast
  qed
qed

lemma mainnet_identity_not_from_such_env_witness:
  "evaluate (ValidatorIdentity Mainnet) Resolve (from_env True False [(''SSH_TTY'', [])]) = Allow TtyPhrase \<and>
     map snd [(''SSH_TTY'', [])] = [[] :: string]"
proof -
  let ?vars = "[(''SSH_TTY'', [] :: string)]"
  have ok: "evaluate (ValidatorIdentity Mainnet) Resolve (from_env True False ?vars) = Allow TtyPhrase"
    by (simp add: from_env_def read_var_def context_empty_def validator_identity_def)
  have "operator_variable ''SSH_TTY''" by (simp add: operator_variable_def)
  from mainnet_identity_not_from_such_env [OF ok _ this, of "snd (hd ?vars)"] ok show ?thesis by simp
qed

text \<open>
  Trust only narrows: a request the gate allows is allowed, with the same confirmation, in every
  context that differs only by having a terminal, or by lacking SSH, the node, an AI path or a 1Password
  session. No fact held against a request can open a row.
\<close>

theorem gate_is_monotone:
  assumes "less_trusted a b" and "evaluate pr op a = Allow c"
  shows "evaluate pr op b = Allow c"
  using evaluate_monotone [OF assms] .

lemma gate_is_monotone_witness:
  "evaluate (HumanWallet False) Resolve (context_empty\<lparr>has_tty := True\<rparr>) = Allow Tty"
  by (rule gate_is_monotone [of "context_empty\<lparr>has_tty := True, in_ssh_session := True\<rparr>"])
    (simp_all add: less_trusted_def context_empty_def human_wallet_def)

text \<open>
  A human's wallet key is released only at a terminal, never to a service account or from the AI
  console, and to an AI tool only if the wallet allows it; building a transaction needs no terminal.
\<close>

theorem human_wallet_rows:
  "(evaluate (HumanWallet allow_ai) Resolve ctx = Allow c \<longleftrightarrow>
      c = Tty \<and> has_tty ctx \<and> \<not> service_account ctx \<and> \<not> ai_console ctx \<and> (\<not> ai_tool_path ctx \<or> allow_ai)) \<and>
   (evaluate (HumanWallet allow_ai) Prepare ctx = Allow c' \<longleftrightarrow>
      c' = ConfirmNone \<and> \<not> service_account ctx \<and> (\<not> ai_tool_path ctx \<or> allow_ai))"
  by (auto simp: human_wallet_def)

lemma human_wallet_rows_witness:
  "evaluate (HumanWallet True) Resolve (context_empty\<lparr>has_tty := True, ai_tool_path := True\<rparr>) = Allow Tty \<and>
     evaluate (HumanWallet True) Prepare (context_empty\<lparr>has_tty := True, ai_tool_path := True\<rparr>) = Allow ConfirmNone"
  using human_wallet_rows [of True "context_empty\<lparr>has_tty := True, ai_tool_path := True\<rparr>" Tty ConfirmNone]
  by (simp add: context_empty_def)

subsection \<open>The choice of a store\<close>

text \<open>
  A session is written to disk only where the operator asked for the file store, by flag or by
  setting, or where there is neither a service account nor a keychain; a store's name reads back as that
  store.
\<close>

theorem disk_is_the_last_resort:
  "(warns (choose_store env requested configured) \<longleftrightarrow>
      requested = Some FileKind \<or> requested = None \<and> (configured = Some FileKind \<or>
        configured = None \<and> \<not> env_service_account_token env \<and> \<not> env_keychain_available env)) \<and>
   kind_parse (kind_as_str kind) = Some kind"
proof -
  have "writes_secrets_to_disk k \<longleftrightarrow> k = FileKind" for k by (cases k) simp_all
  then show ?thesis by (simp add: warns_def choose_store_file_iff kind_parse_as_str)
qed

end
