(* ===== verification/Op_Ref.thy ===== *)
theory Op_Ref
  imports Prelude
begin

text \<open>
  \<open>crates/erpc-secret/src/op_ref.rs\<close>: the one form a reference to a secret may have, parsed from and
  printed to text.
\<close>

definition id_len :: nat where "id_len = 26"

datatype op_ref_error =
    MissingScheme
  | WrongShape nat
  | NotAnIdentifier string
  | BadField

record op_ref =
  or_vault :: string
  or_item :: string
  or_field :: string

definition is_lower_or_digit :: "char \<Rightarrow> bool" where
  "is_lower_or_digit b = (97 \<le> byte_of b \<and> byte_of b \<le> 122 \<or> 48 \<le> byte_of b \<and> byte_of b \<le> 57)"

definition is_identifier :: "string \<Rightarrow> bool" where
  "is_identifier s = (length s = id_len \<and> list_all is_lower_or_digit s)"

definition is_field_name :: "string \<Rightarrow> bool" where
  "is_field_name s =
     (s \<noteq> [] \<and> list_all (\<lambda>b. is_ascii_alphanumeric b \<or> b = CHR ''_'' \<or> b = CHR ''-'' \<or> b = CHR ''.'') s)"

definition op_ref_parse :: "string \<Rightarrow> op_ref_error + op_ref" where
  "op_ref_parse raw =
     (case strip_prefix ''op://'' raw of
        None \<Rightarrow> Err MissingScheme
      | Some rest \<Rightarrow>
         (case split_on (CHR ''/'') rest of
            [vault, item, field] \<Rightarrow>
              (if \<not> is_identifier vault then Err (NotAnIdentifier ''vault'')
               else if \<not> is_identifier item then Err (NotAnIdentifier ''item'')
               else if \<not> is_field_name field then Err BadField
               else Ok \<lparr>or_vault = vault, or_item = item, or_field = field\<rparr>)
          | parts \<Rightarrow> Err (WrongShape (length parts))))"

definition op_ref_show :: "op_ref \<Rightarrow> string" where
  "op_ref_show r = ''op://'' @ or_vault r @ ''/'' @ or_item r @ ''/'' @ or_field r"

subsection \<open>Lemmas\<close>

definition op_ref_valid :: "op_ref \<Rightarrow> bool" where
  "op_ref_valid r \<longleftrightarrow> is_identifier (or_vault r) \<and> is_identifier (or_item r) \<and> is_field_name (or_field r)"

lemma identifier_no_slash: "is_identifier s \<Longrightarrow> CHR ''/'' \<notin> set s"
  by (auto simp: is_identifier_def list_all_iff is_lower_or_digit_def byte_of_def)

lemma field_no_slash: "is_field_name s \<Longrightarrow> CHR ''/'' \<notin> set s"
  by (auto simp: is_field_name_def list_all_iff is_ascii_alphanumeric_def byte_of_def)

lemma op_ref_parse_show: "op_ref_valid r \<Longrightarrow> op_ref_parse (op_ref_show r) = Ok r"
proof -
  assume v: "op_ref_valid r"
  have "strip_prefix ''op://'' (op_ref_show r) = Some (or_vault r @ ''/'' @ or_item r @ ''/'' @ or_field r)"
    unfolding op_ref_show_def by (rule strip_prefix_append)
  moreover have "split_on (CHR ''/'') (or_vault r @ ''/'' @ or_item r @ ''/'' @ or_field r) = [or_vault r, or_item r, or_field r]"
    using v by (simp add: op_ref_valid_def split_on_cons split_on_one identifier_no_slash field_no_slash)
  ultimately show ?thesis using v by (simp add: op_ref_parse_def op_ref_valid_def)
qed

lemma op_ref_parse_valid: "op_ref_parse raw = Ok r \<Longrightarrow> op_ref_valid r \<and> raw = op_ref_show r"
proof -
  assume "op_ref_parse raw = Ok r"
  then obtain rest where rest: "raw = ''op://'' @ rest"
    and split: "split_on (CHR ''/'') rest = [or_vault r, or_item r, or_field r]" and v: "op_ref_valid r"
    by (auto simp: op_ref_parse_def op_ref_valid_def split: option.splits list.splits if_splits)
  from join_split [of "CHR ''/''" rest] split have "rest = or_vault r @ ''/'' @ or_item r @ ''/'' @ or_field r" by simp
  with rest v show ?thesis by (simp add: op_ref_show_def)
qed

subsection \<open>Properties\<close>

text \<open>
  A reference parses exactly when it is \<open>op://\<close>, two 26-character identifiers and a field name, and
  then it prints back as the text it was: one reference has one text, and no reference by name passes.
\<close>

theorem op_ref_roundtrip: "op_ref_parse raw = Ok r \<longleftrightarrow> op_ref_valid r \<and> raw = op_ref_show r"
  using op_ref_parse_valid op_ref_parse_show by blast

end
