(* ===== verification/Bytes.thy ===== *)
theory Bytes
  imports Prelude
begin

text \<open>
  Bytes and the little-endian integers the chain's accounts and instructions are made of, and the
  standard library's slices.
\<close>

type_synonym byte = "8 word"
type_synonym bytes = "byte list"

text \<open>\<open>to_le_bytes\<close> of an integer of \<open>k\<close> bytes, and \<open>from_le_bytes\<close>.\<close>

fun le_bytes :: "nat \<Rightarrow> nat \<Rightarrow> bytes" where
  "le_bytes 0 n = []"
| "le_bytes (Suc k) n = word_of_nat n # le_bytes k (n div 256)"

fun le_nat :: "bytes \<Rightarrow> nat" where
  "le_nat [] = 0"
| "le_nat (b # bs) = unat b + 256 * le_nat bs"

definition slice :: "bytes \<Rightarrow> nat \<Rightarrow> nat \<Rightarrow> bytes" where
  "slice d at n = take n (drop at d)"

text \<open>\<open>d.get(at..at + n)\<close>.\<close>

definition get_slice :: "bytes \<Rightarrow> nat \<Rightarrow> nat \<Rightarrow> bytes option" where
  "get_slice d at n = (if at + n \<le> length d then Some (slice d at n) else None)"

definition str_bytes :: "string \<Rightarrow> bytes" where
  "str_bytes s = map (\<lambda>c. word_of_nat (byte_of c)) s"

subsection \<open>Lemmas\<close>

lemma length_le_bytes [simp]: "length (le_bytes k n) = k"
  by (induction k arbitrary: n) auto

lemma byte_bound: "unat (b :: byte) < 256"
proof -
  have "unat b < 2 ^ LENGTH(8)" by (rule unsigned_less)
  then show ?thesis by simp
qed

lemma unat_eq_iff_byte: "(a :: byte) = b \<longleftrightarrow> unat a = unat b"
  by (simp add: word_eq_iff_unsigned [where 'a = nat])

lemma unat_byte: "unat (word_of_nat n :: byte) = n mod 256"
  by (simp add: unat_of_nat)

lemma le_nat_le_bytes: "le_nat (le_bytes k n) = n mod 256 ^ k"
proof (induction k arbitrary: n)
  case (Suc k)
  have "n mod 256 ^ Suc k = n mod 256 + 256 * (n div 256 mod 256 ^ k)"
    by (simp add: mod_mult2_eq)
  with Suc show ?case by (simp add: unat_byte)
qed simp

lemma le_nat_le_bytes_small: "n < 256 ^ k \<Longrightarrow> le_nat (le_bytes k n) = n"
  by (simp add: le_nat_le_bytes)

lemma le_bytes_le_nat: "le_bytes (length bs) (le_nat bs) = bs"
proof (induction bs)
  case (Cons b bs)
  have b: "unat b < 256" by (rule byte_bound)
  then have "(unat b + 256 * le_nat bs) div 256 = le_nat bs" by simp
  moreover have "(word_of_nat (unat b + 256 * le_nat bs) :: byte) = b"
    unfolding unat_eq_iff_byte unat_byte using b by simp
  ultimately show ?case using Cons by simp
qed simp

lemma le_nat_bound: "le_nat bs < 256 ^ length bs"
proof (induction bs)
  case (Cons b bs)
  have "unat b < 256" by (rule byte_bound)
  with Cons show ?case by simp
qed simp

lemma length_slice: "at + n \<le> length d \<Longrightarrow> length (slice d at n) = n"
  by (simp add: slice_def)

lemma slice_append_left [simp]: "at + n \<le> length d \<Longrightarrow> slice (d @ e) at n = slice d at n"
  by (simp add: slice_def)

lemma slice_prefix: "length p = n \<Longrightarrow> slice (p @ e) 0 n = p"
  by (simp add: slice_def)

lemma slice_whole: "length p = n \<Longrightarrow> slice p 0 n = p"
  by (simp add: slice_def)

lemma slice_head [simp]: "slice (b # bs) 0 (Suc 0) = [b]"
  by (simp add: slice_def)

lemma slice_skip: "length p \<le> at \<Longrightarrow> slice (p @ e) at n = slice e (at - length p) n"
  by (simp add: slice_def)

lemma slice_join: "at + m = at' \<Longrightarrow> slice d at m @ slice d at' n = slice d at (m + n)"
  by (auto simp: slice_def take_add add.commute)

lemma slice_all: "slice d 0 (length d) = d"
  by (simp add: slice_def)

lemma slice_one: "at < length d \<Longrightarrow> slice d at 1 = [d ! at]"
  by (simp add: slice_def take_Suc hd_drop_conv_nth)

lemma slice_two: "Suc at < length d \<Longrightarrow> slice d at 2 = [d ! at, d ! Suc at]"
  using slice_join [of at 1 "Suc at" d 1] slice_one [of at d] slice_one [of "Suc at" d]
  by (simp add: numeral_2_eq_2)

end
