(* ===== verification/Amm.thy ===== *)
theory Amm
  imports Bytes
begin

text \<open>
  \<open>amm.rs\<close> of the pump.fun bot (\<open>crates/erpc-worker/templates/solana/pumpfun/src\<close>): PumpSwap pools as
  the program lays them out, what the \<open>create_pool\<close> and \<open>migrate_v2\<close> instructions say of one, and the
  instructions the bot builds. The \<open>ultima_swap_pumpfun\<close> and Solana crates are a parameter (\<open>chain\<close>).
\<close>

subsection \<open>What the crates provide\<close>

type_synonym pubkey = bytes

record account_meta =
  am_key :: pubkey
  am_signer :: bool
  am_writable :: bool

definition meta_new :: "pubkey \<Rightarrow> bool \<Rightarrow> account_meta" where
  "meta_new k s = \<lparr>am_key = k, am_signer = s, am_writable = True\<rparr>"

definition meta_readonly :: "pubkey \<Rightarrow> bool \<Rightarrow> account_meta" where
  "meta_readonly k s = \<lparr>am_key = k, am_signer = s, am_writable = False\<rparr>"

record instruction =
  ix_program_id :: pubkey
  ix_accounts :: "account_meta list"
  ix_data :: bytes

datatype swap_error = ZeroLiquidity | MathOverflow | OtherSwapError string

record chain =
  from_str_const :: "string \<Rightarrow> pubkey"
  find_program_address :: "bytes list \<Rightarrow> pubkey \<Rightarrow> pubkey"
  wsol_mint :: pubkey
  token_program :: pubkey
  token_2022_program :: pubkey
  system_program :: pubkey
  associated_token_program :: pubkey
  pump_amm_program_id :: pubkey
  global_config :: pubkey
  fee_program :: pubkey
  protocol_fee_recipients :: "pubkey list"
  buyback_fee_recipients :: "pubkey list"
  create_pool_discriminator :: bytes
  buy_discriminator :: bytes
  sell_discriminator :: bytes
  default_fee_bps :: u64
  derive_event_authority :: pubkey
  derive_pool_v2 :: "pubkey \<Rightarrow> pubkey"
  create_ata_if_needed :: "pubkey \<Rightarrow> pubkey \<Rightarrow> pubkey \<Rightarrow> instruction"
  quote_out_for_exact_base_in :: "u64 \<Rightarrow> u64 \<Rightarrow> u64 \<Rightarrow> u64 \<Rightarrow> swap_error + u64"
  base_out_for_exact_quote_in :: "u64 \<Rightarrow> u64 \<Rightarrow> u64 \<Rightarrow> u64 \<Rightarrow> swap_error + u64"
  with_slippage_min :: "u64 \<Rightarrow> u64 \<Rightarrow> swap_error + u64"

definition default_key :: pubkey where "default_key = replicate 32 0"

definition pump_program :: "chain \<Rightarrow> pubkey" where
  "pump_program ch = from_str_const ch ''6EF8rrecthR5Dkzon8Nwu78hRvfCKubJ14M5uBEwF6P''"

definition pump_global :: "chain \<Rightarrow> pubkey" where
  "pump_global ch = from_str_const ch ''4wTV1YmiEkRvAtNtsSGPtUrqRYQMe5SKy2uB4Jjaxnjf''"

definition pool_discriminator :: bytes where
  "pool_discriminator = [241, 154, 109, 4, 17, 177, 109, 188]"

definition migrate_v2_discriminator :: bytes where
  "migrate_v2_discriminator = [187, 203, 18, 31, 206, 237, 254, 41]"

definition key_len :: nat where "key_len = 32"
definition coin_creator_at :: nat where "coin_creator_at = 8 + 1 + 2 + 6 * key_len + 8"
definition migration_fee_at :: nat where "migration_fee_at = 146"
definition canonical_pool_index :: nat where "canonical_pool_index = 0"

lemmas layout_consts = key_len_def coin_creator_at_def

subsection \<open>Pools and their sides\<close>

record pool =
  pool_bump :: nat
  pool_index :: nat
  pool_creator :: pubkey
  base_mint :: pubkey
  quote_mint :: pubkey
  lp_mint :: pubkey
  pool_base_token_account :: pubkey
  pool_quote_token_account :: pubkey
  lp_supply :: u64
  coin_creator :: pubkey
  is_mayhem_mode :: bool

datatype side = SolBase | SolQuote

definition side_of :: "chain \<Rightarrow> pool \<Rightarrow> side option" where
  "side_of ch p =
     (case (base_mint p = wsol_mint ch, quote_mint p = wsol_mint ch) of
        (True, False) \<Rightarrow> Some SolBase
      | (False, True) \<Rightarrow> Some SolQuote
      | _ \<Rightarrow> None)"

fun side_token_mint :: "side \<Rightarrow> pool \<Rightarrow> pubkey" where
  "side_token_mint SolBase p = quote_mint p"
| "side_token_mint SolQuote p = base_mint p"

fun side_vaults :: "side \<Rightarrow> pool \<Rightarrow> pubkey \<times> pubkey" where
  "side_vaults SolBase p = (pool_base_token_account p, pool_quote_token_account p)"
| "side_vaults SolQuote p = (pool_quote_token_account p, pool_base_token_account p)"

fun side_sol_and_token :: "side \<Rightarrow> u64 \<Rightarrow> u64 \<Rightarrow> u64 \<times> u64" where
  "side_sol_and_token SolBase base quote = (base, quote)"
| "side_sol_and_token SolQuote base quote = (quote, base)"

definition tokens_for_sol :: "chain \<Rightarrow> u64 \<Rightarrow> u64 \<Rightarrow> u64 \<Rightarrow> swap_error + u64" where
  "tokens_for_sol ch sol_reserves token_reserves sol_in =
     quote_out_for_exact_base_in ch sol_reserves token_reserves sol_in (default_fee_bps ch)"

definition sol_for_tokens :: "chain \<Rightarrow> u64 \<Rightarrow> u64 \<Rightarrow> u64 \<Rightarrow> swap_error + u64" where
  "sol_for_tokens ch sol_reserves token_reserves tokens_in =
     base_out_for_exact_quote_in ch sol_reserves token_reserves tokens_in (default_fee_bps ch)"

definition decode_pool :: "bytes \<Rightarrow> string + pool" where
  "decode_pool data =
     (if length data < coin_creator_at + key_len + 1 then Err ''pool account too short''
      else if slice data 0 8 \<noteq> pool_discriminator then Err ''not a pool account''
      else
        (let key = (\<lambda>at. slice data at key_len); keys_at = 8 + 1 + 2
         in Ok \<lparr>pool_bump = unat (data ! 8),
                pool_index = le_nat [data ! 9, data ! 10],
                pool_creator = key keys_at,
                base_mint = key (keys_at + key_len),
                quote_mint = key (keys_at + 2 * key_len),
                lp_mint = key (keys_at + 3 * key_len),
                pool_base_token_account = key (keys_at + 4 * key_len),
                pool_quote_token_account = key (keys_at + 5 * key_len),
                lp_supply = le_nat (slice data (keys_at + 6 * key_len) (coin_creator_at - (keys_at + 6 * key_len))),
                coin_creator = key coin_creator_at,
                is_mayhem_mode = (data ! (coin_creator_at + key_len) \<noteq> 0)\<rparr>))"

text \<open>\<open>raw.and_then(|d| d.get(at)).is_some_and(|f| *f != 0)\<close>.\<close>

definition byte_set :: "bytes \<Rightarrow> nat \<Rightarrow> bool" where
  "byte_set d at = (at < length d \<and> d ! at \<noteq> 0)"

definition not_tradable :: "pool \<Rightarrow> bytes option \<Rightarrow> string option" where
  "not_tradable p raw =
     (if is_mayhem_mode p then Some ''a mayhem-mode pool''
      else if (case raw of None \<Rightarrow> False | Some d \<Rightarrow> byte_set d (coin_creator_at + key_len + 1))
        then Some ''a pool flag these swaps are not built for''
      else None)"

subsection \<open>A pool seen created\<close>

record new_pool =
  np_pool :: pubkey
  np_data :: pool
  np_base_token_program :: pubkey
  np_quote_token_program :: pubkey
  np_base_reserves :: u64
  np_quote_reserves :: u64
  np_graduated :: bool
  np_flagged :: bool

definition np_side :: "chain \<Rightarrow> new_pool \<Rightarrow> side option" where
  "np_side ch n = side_of ch (np_data n)"

definition np_token :: "chain \<Rightarrow> new_pool \<Rightarrow> (pubkey \<times> pubkey) option" where
  "np_token ch n =
     (case np_side ch n of
        None \<Rightarrow> None
      | Some SolBase \<Rightarrow> Some (quote_mint (np_data n), np_quote_token_program n)
      | Some SolQuote \<Rightarrow> Some (base_mint (np_data n), np_base_token_program n))"

definition np_sol_and_token :: "chain \<Rightarrow> new_pool \<Rightarrow> (u64 \<times> u64) option" where
  "np_sol_and_token ch n =
     (case np_side ch n of
        None \<Rightarrow> None
      | Some sd \<Rightarrow> Some (side_sol_and_token sd (np_base_reserves n) (np_quote_reserves n)))"

definition np_creator :: "new_pool \<Rightarrow> pubkey" where
  "np_creator n = (if np_graduated n then coin_creator (np_data n) else pool_creator (np_data n))"

definition np_not_tradable :: "chain \<Rightarrow> new_pool \<Rightarrow> string option" where
  "np_not_tradable ch n =
     (if np_side ch n = None then Some ''not a WSOL/token pool''
      else if np_flagged n then Some ''a pool flag these swaps are not built for''
      else not_tradable (np_data n) None)"

definition parse_create_pool :: "chain \<Rightarrow> bytes \<Rightarrow> pubkey list \<Rightarrow> pubkey \<Rightarrow> new_pool option" where
  "parse_create_pool ch data accounts called_by =
     (if length data < 8 + 2 + 8 + 8 + key_len + 1 \<or> slice data 0 8 \<noteq> create_pool_discriminator ch then None
      else if length accounts < 15 \<or> accounts ! 1 \<noteq> global_config ch then None
      else
        (let args = drop 8 data;
             graduated = (called_by = pump_program ch)
         in Some
          \<lparr>np_pool = accounts ! 0,
           np_data =
             \<lparr>pool_bump = 0,
              pool_index = le_nat [args ! 0, args ! 1],
              pool_creator = accounts ! 2,
              base_mint = accounts ! 3,
              quote_mint = accounts ! 4,
              lp_mint = accounts ! 5,
              pool_base_token_account = accounts ! 9,
              pool_quote_token_account = accounts ! 10,
              lp_supply = 0,
              coin_creator = (if graduated then slice args 18 key_len else default_key),
              is_mayhem_mode = (args ! (18 + key_len) \<noteq> 0)\<rparr>,
           np_base_token_program = accounts ! 13,
           np_quote_token_program = accounts ! 14,
           np_base_reserves = le_nat (slice args 2 8),
           np_quote_reserves = le_nat (slice args 10 8),
           np_graduated = graduated,
           np_flagged = byte_set args (18 + key_len + 1)\<rparr>))"

subsection \<open>Instructions\<close>

definition ata :: "chain \<Rightarrow> pubkey \<Rightarrow> pubkey \<Rightarrow> pubkey \<Rightarrow> pubkey" where
  "ata ch wallet mint program = find_program_address ch [wallet, program, mint] (associated_token_program ch)"

definition wsol_account :: "chain \<Rightarrow> pubkey \<Rightarrow> pubkey" where
  "wsol_account ch user = ata ch user (wsol_mint ch) (token_program ch)"

definition pda :: "chain \<Rightarrow> bytes list \<Rightarrow> pubkey \<Rightarrow> pubkey" where
  "pda ch seeds program = find_program_address ch seeds program"

record market =
  mk_pool :: pubkey
  mk_data :: pool
  mk_side :: side
  mk_token_program :: pubkey

datatype swap =
    SwapBuy (base_out: u64) (max_quote_in: u64)
  | SwapSell (base_in: u64) (min_quote_out: u64)

fun market_programs :: "chain \<Rightarrow> side \<Rightarrow> pubkey \<Rightarrow> pubkey \<times> pubkey" where
  "market_programs ch SolBase tp = (token_program ch, tp)"
| "market_programs ch SolQuote tp = (tp, token_program ch)"

fun swap_data :: "chain \<Rightarrow> swap \<Rightarrow> bytes" where
  "swap_data ch (SwapBuy out max_in) = buy_discriminator ch @ le_bytes 8 out @ le_bytes 8 max_in @ [0]"
| "swap_data ch (SwapSell amount min_out) = sell_discriminator ch @ le_bytes 8 amount @ le_bytes 8 min_out"

fun swap_buy_accounts :: "chain \<Rightarrow> pubkey \<Rightarrow> swap \<Rightarrow> account_meta list" where
  "swap_buy_accounts ch user (SwapBuy out max_in) =
     [meta_readonly (pda ch [str_bytes ''global_volume_accumulator''] (pump_amm_program_id ch)) False,
      meta_new (pda ch [str_bytes ''user_volume_accumulator'', user] (pump_amm_program_id ch)) False]"
| "swap_buy_accounts ch user (SwapSell amount min_out) = []"

definition market_swap :: "chain \<Rightarrow> market \<Rightarrow> swap \<Rightarrow> pubkey \<Rightarrow> nat \<Rightarrow> swap_error + instruction" where
  "market_swap ch mk sw user fee_index =
     (if fee_index \<ge> length (protocol_fee_recipients ch) then Err MathOverflow
      else if fee_index \<ge> length (buyback_fee_recipients ch) then Err MathOverflow
      else
        (let p = mk_data mk;
             programs = market_programs ch (mk_side mk) (mk_token_program mk);
             base_program = fst programs; quote_program = snd programs;
             fee_recipient = protocol_fee_recipients ch ! fee_index;
             buyback_recipient = buyback_fee_recipients ch ! fee_index;
             program = pump_amm_program_id ch;
             creator_vault = pda ch [str_bytes ''creator_vault'', coin_creator p] program;
             fee_config = pda ch [str_bytes ''fee_config'', program] (fee_program ch);
             accounts =
               [meta_new (mk_pool mk) False,
                meta_new user True,
                meta_readonly (global_config ch) False,
                meta_readonly (base_mint p) False,
                meta_readonly (quote_mint p) False,
                meta_new (ata ch user (base_mint p) base_program) False,
                meta_new (ata ch user (quote_mint p) quote_program) False,
                meta_new (pool_base_token_account p) False,
                meta_new (pool_quote_token_account p) False,
                meta_new fee_recipient False,
                meta_new (ata ch fee_recipient (quote_mint p) quote_program) False,
                meta_readonly base_program False,
                meta_readonly quote_program False,
                meta_readonly (system_program ch) False,
                meta_readonly (associated_token_program ch) False,
                meta_readonly (derive_event_authority ch) False,
                meta_readonly program False,
                meta_new (ata ch creator_vault (quote_mint p) quote_program) False,
                meta_readonly creator_vault False]
         in Ok \<lparr>ix_program_id = program,
                ix_accounts = accounts @ swap_buy_accounts ch user sw @
                  [meta_readonly fee_config False, meta_readonly (fee_program ch) False] @
                  (if coin_creator p \<noteq> default_key then [meta_readonly (derive_pool_v2 ch (base_mint p)) False] else []) @
                  [meta_readonly buyback_recipient False,
                   meta_new (ata ch buyback_recipient (quote_mint p) quote_program) False],
                ix_data = swap_data ch sw\<rparr>))"

fun buy_swap :: "side \<Rightarrow> u64 \<Rightarrow> u64 \<Rightarrow> swap" where
  "buy_swap SolBase max_sol min_tokens = SwapSell max_sol min_tokens"
| "buy_swap SolQuote max_sol min_tokens = SwapBuy min_tokens max_sol"

fun sell_swap :: "side \<Rightarrow> u64 \<Rightarrow> u64 \<Rightarrow> swap" where
  "sell_swap SolBase tokens min_sol = SwapBuy min_sol tokens"
| "sell_swap SolQuote tokens min_sol = SwapSell tokens min_sol"

definition buy_ix :: "chain \<Rightarrow> market \<Rightarrow> pubkey \<Rightarrow> u64 \<Rightarrow> u64 \<Rightarrow> nat \<Rightarrow> swap_error + instruction" where
  "buy_ix ch mk user max_sol min_tokens fee_index = market_swap ch mk (buy_swap (mk_side mk) max_sol min_tokens) user fee_index"

definition sell_ix :: "chain \<Rightarrow> market \<Rightarrow> pubkey \<Rightarrow> u64 \<Rightarrow> u64 \<Rightarrow> nat \<Rightarrow> swap_error + instruction" where
  "sell_ix ch mk user tokens min_sol fee_index = market_swap ch mk (sell_swap (mk_side mk) tokens min_sol) user fee_index"

definition close_account :: "chain \<Rightarrow> pubkey \<Rightarrow> pubkey \<Rightarrow> pubkey \<Rightarrow> instruction" where
  "close_account ch user mint program =
     \<lparr>ix_program_id = program,
      ix_accounts = [meta_new (ata ch user mint program) False, meta_new user False, meta_readonly user True],
      ix_data = [9]\<rparr>"

definition burn :: "chain \<Rightarrow> pubkey \<Rightarrow> pubkey \<Rightarrow> pubkey \<Rightarrow> u64 \<Rightarrow> instruction" where
  "burn ch user mint program amount =
     \<lparr>ix_program_id = program,
      ix_accounts = [meta_new (ata ch user mint program) False, meta_new mint False, meta_readonly user True],
      ix_data = 8 # le_bytes 8 amount\<rparr>"

definition unwrap_sol :: "chain \<Rightarrow> pubkey \<Rightarrow> instruction" where
  "unwrap_sol ch user = close_account ch user (wsol_mint ch) (token_program ch)"

definition wrap_sol :: "chain \<Rightarrow> pubkey \<Rightarrow> u64 \<Rightarrow> instruction list" where
  "wrap_sol ch user lamports =
     [create_ata_if_needed ch user (wsol_mint ch) (token_program ch),
      \<lparr>ix_program_id = system_program ch,
       ix_accounts = [meta_new user True, meta_new (wsol_account ch user) False],
       ix_data = [2, 0, 0, 0] @ le_bytes 8 lamports\<rparr>,
      \<lparr>ix_program_id = token_program ch, ix_accounts = [meta_new (wsol_account ch user) False], ix_data = [17]\<rparr>]"

subsection \<open>A migration seen before it has run\<close>

record account_read =
  rd_owner :: pubkey
  rd_data :: bytes

text \<open>The reasons a migration's pool is not made, one constructor for each message.\<close>

datatype migration_error =
    CurveNotPumpFuns
  | GlobalNotPumpFuns
  | TokenAccountNotTheCurves
  | CurveUnreadable
  | CurveNotComplete
  | TokenAccountUnreadable
  | GlobalUnreadable
  | AlreadyMigrated

datatype migration = Migration (migration_accounts: "pubkey list")

definition migration_pool_address :: "chain \<Rightarrow> pubkey \<Rightarrow> pubkey" where
  "migration_pool_address ch mint =
     pda ch [str_bytes ''pool'', le_bytes 2 canonical_pool_index,
         pda ch [str_bytes ''pool-authority'', mint] (pump_program ch), mint, wsol_mint ch] (pump_amm_program_id ch)"

definition migration_parse :: "chain \<Rightarrow> bytes \<Rightarrow> pubkey list \<Rightarrow> migration option" where
  "migration_parse ch data a =
     (if length data < 8 \<or> slice data 0 8 \<noteq> migrate_v2_discriminator \<or> length a \<noteq> 29 then None
      else if \<not> (a ! 0 = pump_global ch \<and> a ! 3 = wsol_mint ch \<and> a ! 9 = pump_amm_program_id ch \<and>
          a ! 14 = global_config ch) then None
      else
        (let mint = a ! 2; wsol = wsol_mint ch; tp = a ! 19
         in if tp \<noteq> token_program ch \<and> tp \<noteq> token_2022_program ch then None
            else
              (let curve = pda ch [str_bytes ''bonding-curve'', mint] (pump_program ch);
                   authority = pda ch [str_bytes ''pool-authority'', mint] (pump_program ch);
                   pool = migration_pool_address ch mint
               in if a ! 4 = curve \<and> a ! 5 = ata ch curve mint tp \<and> a ! 10 = pool \<and> a ! 11 = authority \<and>
                     a ! 15 = pda ch [str_bytes ''pool_lp_mint'', pool] (pump_amm_program_id ch) \<and>
                     a ! 17 = ata ch pool mint tp \<and> a ! 18 = ata ch pool wsol (token_program ch) \<and>
                     a ! 20 = token_program ch
                  then Some (Migration a) else None)))"

definition migration_pool :: "migration \<Rightarrow> pubkey" where
  "migration_pool m = migration_accounts m ! 10"

definition migration_to_read :: "chain \<Rightarrow> migration \<Rightarrow> pubkey list" where
  "migration_to_read ch m = [migration_accounts m ! 4, migration_accounts m ! 5, pump_global ch]"

definition u64_at :: "bytes \<Rightarrow> nat \<Rightarrow> u64 option" where
  "u64_at d at = map_option le_nat (get_slice d at 8)"

definition migration_new_pool ::
  "chain \<Rightarrow> migration \<Rightarrow> account_read \<Rightarrow> account_read \<Rightarrow> account_read \<Rightarrow> migration_error + new_pool" where
  "migration_new_pool ch m curve token_account global =
     (let a = migration_accounts m;
          holds = (\<lambda>at k. get_slice (rd_data token_account) at key_len = Some k);
          cd = rd_data curve
      in if rd_owner curve \<noteq> pump_program ch then Err CurveNotPumpFuns
         else if rd_owner global \<noteq> pump_program ch then Err GlobalNotPumpFuns
         else if rd_owner token_account \<noteq> a ! 19 \<or> \<not> holds 0 (a ! 2) \<or> \<not> holds key_len (a ! 4) then
           Err TokenAccountNotTheCurves
         else if length cd < 83 then Err CurveUnreadable
         else if cd ! 48 = 0 then Err CurveNotComplete
         else
           (case u64_at (rd_data token_account) 64 of
              None \<Rightarrow> Err TokenAccountUnreadable
            | Some tokens \<Rightarrow>
               (case u64_at (rd_data global) migration_fee_at of
                  None \<Rightarrow> Err GlobalUnreadable
                | Some fee \<Rightarrow>
                   (case u64_checked_sub (le_nat (slice cd 32 8)) fee of
                      None \<Rightarrow> Err AlreadyMigrated
                    | Some sol \<Rightarrow>
                       (if sol = 0 then Err AlreadyMigrated
                        else if tokens = 0 then Err AlreadyMigrated
                        else Ok
                          \<lparr>np_pool = a ! 10,
                           np_data =
                             \<lparr>pool_bump = 0, pool_index = canonical_pool_index, pool_creator = a ! 11,
                              base_mint = a ! 2, quote_mint = a ! 3, lp_mint = a ! 15,
                              pool_base_token_account = a ! 17, pool_quote_token_account = a ! 18,
                              lp_supply = 0, coin_creator = slice cd 49 32, is_mayhem_mode = (cd ! 81 \<noteq> 0)\<rparr>,
                           np_base_token_program = a ! 19, np_quote_token_program = a ! 20,
                           np_base_reserves = tokens, np_quote_reserves = sol,
                           np_graduated = True, np_flagged = (cd ! 82 \<noteq> 0)\<rparr>)))))"

subsection \<open>The layout of a pool account\<close>

text \<open>
  The account in the order the program stores it, with the mayhem byte as it stands there: what
  \<open>decode_pool\<close> reads, stated without offsets.
\<close>

definition pool_ok :: "pool \<Rightarrow> bool" where
  "pool_ok p \<longleftrightarrow> pool_bump p < 256 \<and> pool_index p < 256 ^ 2 \<and> lp_supply p < 256 ^ 8 \<and>
     list_all (\<lambda>k. length k = key_len) [pool_creator p, base_mint p, quote_mint p, lp_mint p,
       pool_base_token_account p, pool_quote_token_account p, coin_creator p]"

definition pool_layout :: "pool \<Rightarrow> byte \<Rightarrow> bytes" where
  "pool_layout p mayhem =
     pool_discriminator @ le_bytes 1 (pool_bump p) @ le_bytes 2 (pool_index p) @ pool_creator p @ base_mint p @
     quote_mint p @ lp_mint p @ pool_base_token_account p @ pool_quote_token_account p @
     le_bytes 8 (lp_supply p) @ coin_creator p @ [mayhem]"

lemma length_pool_discriminator [simp]: "length pool_discriminator = 8"
  by (simp add: pool_discriminator_def)

lemma length_pool_layout: "pool_ok p \<Longrightarrow> length (pool_layout p f) = coin_creator_at + key_len + 1"
  by (simp add: pool_ok_def pool_layout_def layout_consts)

lemma nth_as_slice: "at < length d \<Longrightarrow> d ! at = hd (slice d at 1)"
  using slice_one [of at d] by simp

lemma decode_pool_layout:
  assumes ok: "pool_ok p" and flag: "is_mayhem_mode p \<longleftrightarrow> f \<noteq> 0"
  shows "decode_pool (pool_layout p f @ rest) = Ok p"
proof -
  have len: "\<not> length (pool_layout p f @ rest) < coin_creator_at + key_len + 1"
    using length_pool_layout [OF ok] by simp
  have keys: "length (pool_creator p) = 32" "length (base_mint p) = 32" "length (quote_mint p) = 32" "length (lp_mint p) = 32"
    "length (pool_base_token_account p) = 32" "length (pool_quote_token_account p) = 32" "length (coin_creator p) = 32"
    using ok by (simp_all add: pool_ok_def key_len_def)
  let ?d = "pool_layout p f @ rest"
  have sl: "slice ?d 0 8 = pool_discriminator" "slice ?d 8 1 = le_bytes 1 (pool_bump p)" "slice ?d 9 2 = le_bytes 2 (pool_index p)"
    "slice ?d 11 32 = pool_creator p" "slice ?d 43 32 = base_mint p" "slice ?d 75 32 = quote_mint p" "slice ?d 107 32 = lp_mint p"
    "slice ?d 139 32 = pool_base_token_account p" "slice ?d 171 32 = pool_quote_token_account p"
    "slice ?d 203 8 = le_bytes 8 (lp_supply p)" "slice ?d 211 32 = coin_creator p" "slice ?d 243 1 = [f]"
    by (simp_all add: pool_layout_def slice_prefix slice_whole slice_skip keys del: le_bytes.simps)
  have long: "243 < length ?d" using length_pool_layout [OF ok] by (simp add: layout_consts)
  have bump: "unat (?d ! 8) = pool_bump p"
    using sl(2) nth_as_slice [of 8 ?d] long ok by (simp add: unat_byte pool_ok_def)
  have two: "slice ?d 9 2 = [?d ! 9, ?d ! 10]"
    using slice_two [of 9 ?d] long by simp
  have index: "le_nat [?d ! 9, ?d ! 10] = pool_index p"
    using sl(3) ok le_nat_le_bytes_small [of "pool_index p" 2] by (simp only: two pool_ok_def)
  have lp: "le_nat (slice ?d 203 8) = lp_supply p"
    using ok le_nat_le_bytes_small [of "lp_supply p" 8] by (simp only: sl(10) pool_ok_def)
  have mayhem: "?d ! 243 = f" using sl(12) nth_as_slice [of 243 ?d] long by simp
  show ?thesis
    using len bump index lp mayhem sl flag
    by (simp add: decode_pool_def Let_def layout_consts)
qed

lemma decode_pool_inv:
  assumes "decode_pool data = Ok p"
  shows "pool_ok p \<and> data = pool_layout p (data ! 243) @ drop 244 data \<and> (is_mayhem_mode p \<longleftrightarrow> data ! 243 \<noteq> 0)"
proof -
  have len: "244 \<le> length data" and disc: "slice data 0 8 = pool_discriminator"
    and p: "p = \<lparr>pool_bump = unat (data ! 8), pool_index = le_nat [data ! 9, data ! 10], pool_creator = slice data 11 32,
      base_mint = slice data 43 32, quote_mint = slice data 75 32, lp_mint = slice data 107 32,
      pool_base_token_account = slice data 139 32, pool_quote_token_account = slice data 171 32,
      lp_supply = le_nat (slice data 203 8), coin_creator = slice data 211 32, is_mayhem_mode = (data ! 243 \<noteq> 0)\<rparr>"
    using assms by (auto simp: decode_pool_def Let_def layout_consts split: if_splits)
  have bump: "le_bytes 1 (unat (data ! 8)) = slice data 8 1"
    using le_bytes_le_nat [of "[data ! 8]"] slice_one [of 8 data] len by simp
  have index: "le_bytes 2 (le_nat [data ! 9, data ! 10]) = slice data 9 2"
    using le_bytes_le_nat [of "[data ! 9, data ! 10]"] slice_two [of 9 data] len by (simp add: numeral_2_eq_2)
  have lp: "le_bytes 8 (le_nat (slice data 203 8)) = slice data 203 8"
    using le_bytes_le_nat [of "slice data 203 8"] length_slice [of 203 8 data] len by simp
  have last: "[data ! 243] = slice data 243 1" using slice_one [of 243 data] len by simp
  have "pool_layout p (data ! 243) = slice data 0 8 @ slice data 8 1 @ slice data 9 2 @ slice data 11 32 @ slice data 43 32 @
      slice data 75 32 @ slice data 107 32 @ slice data 139 32 @ slice data 171 32 @ slice data 203 8 @ slice data 211 32 @ slice data 243 1"
    unfolding pool_layout_def disc [symmetric] last [symmetric] bump [symmetric] index [symmetric]
    by (simp only: p pool.simps lp)
  also have "\<dots> = slice data 0 244" by (simp add: slice_join del: One_nat_def)
  also have "\<dots> = take 244 data" by (simp add: slice_def)
  finally have "data = pool_layout p (data ! 243) @ drop 244 data" by simp
  moreover have "pool_ok p"
    using len byte_bound [of "data ! 8"] le_nat_bound [of "[data ! 9, data ! 10]"] le_nat_bound [of "slice data 203 8"]
    by (simp add: pool_ok_def p key_len_def length_slice)
  ultimately show ?thesis by (simp add: p)
qed

subsection \<open>What a swap pays and brings in\<close>

text \<open>
  PumpSwap's own terms: a \<open>buy\<close> takes at most \<open>max_quote_in\<close> of the quote for exactly \<open>base_out\<close> of the
  base, a \<open>sell\<close> exactly \<open>base_in\<close> of the base for at least \<open>min_quote_out\<close>. Of each asset: at most what
  is paid, and at least what is received.
\<close>

record terms =
  pays_sol :: u64
  pays_tokens :: u64
  gets_sol :: u64
  gets_tokens :: u64

fun swap_terms :: "side \<Rightarrow> swap \<Rightarrow> terms" where
  "swap_terms SolBase (SwapBuy out max_in) = \<lparr>pays_sol = 0, pays_tokens = max_in, gets_sol = out, gets_tokens = 0\<rparr>"
| "swap_terms SolQuote (SwapBuy out max_in) = \<lparr>pays_sol = max_in, pays_tokens = 0, gets_sol = 0, gets_tokens = out\<rparr>"
| "swap_terms SolBase (SwapSell amount min_out) = \<lparr>pays_sol = amount, pays_tokens = 0, gets_sol = 0, gets_tokens = min_out\<rparr>"
| "swap_terms SolQuote (SwapSell amount min_out) = \<lparr>pays_sol = 0, pays_tokens = amount, gets_sol = min_out, gets_tokens = 0\<rparr>"

lemma buy_swap_terms:
  "swap_terms sd (buy_swap sd max_sol min_tokens) = \<lparr>pays_sol = max_sol, pays_tokens = 0, gets_sol = 0, gets_tokens = min_tokens\<rparr>"
  by (cases sd) simp_all

lemma sell_swap_terms:
  "swap_terms sd (sell_swap sd tokens min_sol) = \<lparr>pays_sol = 0, pays_tokens = tokens, gets_sol = min_sol, gets_tokens = 0\<rparr>"
  by (cases sd) simp_all

text \<open>The program reads its amounts back out of the instruction.\<close>

definition read_swap :: "chain \<Rightarrow> bytes \<Rightarrow> swap option" where
  "read_swap ch d =
     (if slice d 0 8 = buy_discriminator ch then Some (SwapBuy (le_nat (slice d 8 8)) (le_nat (slice d 16 8)))
      else if slice d 0 8 = sell_discriminator ch then Some (SwapSell (le_nat (slice d 8 8)) (le_nat (slice d 16 8)))
      else None)"

definition chain_ok :: "chain \<Rightarrow> bool" where
  "chain_ok ch \<longleftrightarrow> length (buy_discriminator ch) = 8 \<and> length (sell_discriminator ch) = 8 \<and>
     buy_discriminator ch \<noteq> sell_discriminator ch"

fun swap_u64 :: "swap \<Rightarrow> bool" where
  "swap_u64 (SwapBuy a b) = (a < 256 ^ 8 \<and> b < 256 ^ 8)"
| "swap_u64 (SwapSell a b) = (a < 256 ^ 8 \<and> b < 256 ^ 8)"

lemma read_swap_data:
  assumes "chain_ok ch" and "swap_u64 sw"
  shows "read_swap ch (swap_data ch sw) = Some sw"
proof (cases sw)
  case (SwapBuy a b)
  have "slice (swap_data ch sw) 0 8 = buy_discriminator ch" "slice (swap_data ch sw) 8 8 = le_bytes 8 a"
    "slice (swap_data ch sw) 16 8 = le_bytes 8 b"
    using assms SwapBuy
    by (simp_all add: chain_ok_def slice_prefix slice_skip slice_whole del: le_bytes.simps)
  with assms SwapBuy show ?thesis
    by (simp add: read_swap_def le_nat_le_bytes_small del: le_bytes.simps)
next
  case (SwapSell a b)
  have "slice (swap_data ch sw) 0 8 = sell_discriminator ch" "slice (swap_data ch sw) 8 8 = le_bytes 8 a"
    "slice (swap_data ch sw) 16 8 = le_bytes 8 b"
    using assms SwapSell
    by (simp_all add: chain_ok_def slice_prefix slice_skip slice_whole del: le_bytes.simps)
  with assms SwapSell show ?thesis
    by (auto simp add: read_swap_def le_nat_le_bytes_small chain_ok_def simp del: le_bytes.simps)
qed

text \<open>Whose signature an instruction asks for.\<close>

definition signers :: "instruction \<Rightarrow> pubkey list" where
  "signers ix = map am_key (filter am_signer (ix_accounts ix))"

lemma market_swap_Ok:
  assumes "market_swap ch mk sw user fee_index = Ok ix"
  shows "signers ix = [user] \<and> ix_data ix = swap_data ch sw \<and> ix_program_id ix = pump_amm_program_id ch"
proof -
  have "filter am_signer (swap_buy_accounts ch user sw) = []"
    by (cases sw) (simp_all add: meta_new_def meta_readonly_def)
  with assms show ?thesis
    by (auto simp: market_swap_def Let_def signers_def meta_new_def meta_readonly_def split: if_splits)
qed

subsection \<open>Properties\<close>

text \<open>A chain for the witnesses: derived addresses are the first bytes of the seeds and the program.\<close>

definition sample_chain :: chain where
  "sample_chain =
     \<lparr>from_str_const = str_bytes, find_program_address = (\<lambda>seeds program. take 32 (concat seeds @ program @ replicate 32 0)),
      wsol_mint = [1], token_program = [2], token_2022_program = [3], system_program = [4],
      associated_token_program = [5], pump_amm_program_id = [6], global_config = [7], fee_program = [8],
      protocol_fee_recipients = [[9]], buyback_fee_recipients = [[10]],
      create_pool_discriminator = [1, 1, 1, 1, 1, 1, 1, 1], buy_discriminator = [2, 2, 2, 2, 2, 2, 2, 2],
      sell_discriminator = [3, 3, 3, 3, 3, 3, 3, 3], default_fee_bps = 30, derive_event_authority = [11],
      derive_pool_v2 = (\<lambda>k. 12 # k),
      create_ata_if_needed = (\<lambda>u m p. \<lparr>ix_program_id = [5], ix_accounts = [meta_new u True], ix_data = [1]\<rparr>),
      quote_out_for_exact_base_in = (\<lambda>x y i f. if x = 0 \<or> y = 0 then Err ZeroLiquidity else Ok (y * i div (x + i))),
      base_out_for_exact_quote_in = (\<lambda>x y i f. if x = 0 \<or> y = 0 then Err ZeroLiquidity else Ok (x * i div (y + i))),
      with_slippage_min = (\<lambda>v bps. Ok (v * (10000 - bps) div 10000))\<rparr>"

lemma sample_chain_ok: "chain_ok sample_chain"
  by (simp add: chain_ok_def sample_chain_def)

text \<open>
  A pool account decodes exactly when its bytes are the program's layout of a pool followed by
  anything: no field is read from another's place, and what the program adds at the end changes nothing.
\<close>

theorem decode_pool_exact:
  "decode_pool data = Ok p \<longleftrightarrow>
     pool_ok p \<and> (\<exists>f rest. data = pool_layout p f @ rest \<and> (is_mayhem_mode p \<longleftrightarrow> f \<noteq> 0))"
  using decode_pool_inv [of data p] decode_pool_layout [of p] by blast

text \<open>
  A swap instruction the bot builds pays at most what was decided and brings in at least what was
  decided, on either side of a pool: read back as the program reads it, a buy pays at most \<open>max_sol\<close>
  lamports and no token for at least \<open>min_tokens\<close>, a sell at most \<open>tokens\<close> and no SOL for at least
  \<open>min_sol\<close> lamports; and it asks for the trading wallet's signature and no other.
\<close>

theorem swaps_keep_their_terms:
  assumes "chain_ok ch" and "a < 256 ^ 8" and "b < 256 ^ 8"
    and "buy_ix ch mk user a b i = Ok bi" and "sell_ix ch mk user a b i = Ok si"
  shows "(\<exists>sw. read_swap ch (ix_data bi) = Some sw \<and>
      swap_terms (mk_side mk) sw = \<lparr>pays_sol = a, pays_tokens = 0, gets_sol = 0, gets_tokens = b\<rparr>) \<and>
    (\<exists>sw. read_swap ch (ix_data si) = Some sw \<and>
      swap_terms (mk_side mk) sw = \<lparr>pays_sol = 0, pays_tokens = a, gets_sol = b, gets_tokens = 0\<rparr>) \<and>
    signers bi = [user] \<and> signers si = [user]"
proof -
  have "swap_u64 (buy_swap (mk_side mk) a b)" "swap_u64 (sell_swap (mk_side mk) a b)"
    using assms(2,3) by (cases "mk_side mk"; simp)+
  with assms(1) market_swap_Ok [OF assms(4) [unfolded buy_ix_def]] market_swap_Ok [OF assms(5) [unfolded sell_ix_def]]
  show ?thesis by (simp add: read_swap_data buy_swap_terms sell_swap_terms)
qed

definition sample_market :: market where
  "sample_market = \<lparr>mk_pool = [20], mk_data =
     \<lparr>pool_bump = 0, pool_index = 0, pool_creator = [21], base_mint = [22], quote_mint = [1], lp_mint = [23],
      pool_base_token_account = [24], pool_quote_token_account = [25], lp_supply = 0, coin_creator = [26],
      is_mayhem_mode = False\<rparr>, mk_side = SolQuote, mk_token_program = [3]\<rparr>"

lemma swaps_keep_their_terms_witness:
  "\<exists>bi. buy_ix sample_chain sample_market [30] 1000 7 0 = Ok bi \<and> signers bi = [[30]]"
proof -
  obtain bi si where ok: "buy_ix sample_chain sample_market [30] 1000 7 0 = Ok bi"
      "sell_ix sample_chain sample_market [30] 1000 7 0 = Ok si"
    by (simp add: buy_ix_def sell_ix_def market_swap_def sample_chain_def Let_def)
  from swaps_keep_their_terms [OF sample_chain_ok _ _ ok] ok show ?thesis by simp
qed

text \<open>
  Who is blamed for a pool cannot be chosen by its maker: a \<open>create_pool\<close> called by anything but
  pump.fun's program is not a graduation, stores no coin creator whatever its argument says, and is laid
  to the account that signed it; only one called by pump.fun's program names the token's deployer.
\<close>

theorem pool_creator_not_forged:
  assumes "parse_create_pool ch data accounts called_by = Some n"
  shows "np_graduated n = (called_by = pump_program ch) \<and>
    coin_creator (np_data n) = (if called_by = pump_program ch then slice data 26 key_len else default_key) \<and>
    np_creator n = (if called_by = pump_program ch then slice data 26 key_len else accounts ! 2) \<and>
    np_pool n = accounts ! 0 \<and> accounts ! 1 = global_config ch"
  using assms
  by (auto simp: parse_create_pool_def np_creator_def Let_def slice_def add.commute split: if_splits)

definition sample_create :: bytes where
  "sample_create = create_pool_discriminator sample_chain @ replicate 18 1 @ replicate 32 9 @ [0, 0]"

definition sample_accounts :: "pubkey list" where
  "sample_accounts = [[20], [7], [21], [22], [1], [23], [0], [0], [0], [24], [25], [4], [3], [3], [2]]"

lemma sample_create_parses:
  "parse_create_pool sample_chain sample_create sample_accounts [6] \<noteq> None"
  by (simp add: parse_create_pool_def sample_create_def sample_accounts_def sample_chain_def key_len_def slice_def Let_def)

lemma pool_creator_not_forged_witness:
  "map_option np_creator (parse_create_pool sample_chain sample_create sample_accounts [6]) = Some [21]"
proof -
  obtain n where n: "parse_create_pool sample_chain sample_create sample_accounts [6] = Some n"
    using sample_create_parses by blast
  have "[6] \<noteq> pump_program sample_chain" by (simp add: pump_program_def sample_chain_def str_bytes_def)
  with pool_creator_not_forged [OF n] n show ?thesis by (simp add: sample_accounts_def)
qed

lemma migration_parse_Some:
  "migration_parse ch data a = Some m \<longleftrightarrow>
     m = Migration a \<and> 8 \<le> length data \<and> slice data 0 8 = migrate_v2_discriminator \<and> length a = 29 \<and>
     a ! 0 = pump_global ch \<and> a ! 3 = wsol_mint ch \<and> a ! 9 = pump_amm_program_id ch \<and> a ! 14 = global_config ch \<and>
     (a ! 19 = token_program ch \<or> a ! 19 = token_2022_program ch) \<and>
     a ! 4 = pda ch [str_bytes ''bonding-curve'', a ! 2] (pump_program ch) \<and> a ! 5 = ata ch (a ! 4) (a ! 2) (a ! 19) \<and>
     a ! 10 = migration_pool_address ch (a ! 2) \<and> a ! 11 = pda ch [str_bytes ''pool-authority'', a ! 2] (pump_program ch) \<and>
     a ! 15 = pda ch [str_bytes ''pool_lp_mint'', a ! 10] (pump_amm_program_id ch) \<and>
     a ! 17 = ata ch (a ! 10) (a ! 2) (a ! 19) \<and> a ! 18 = ata ch (a ! 10) (wsol_mint ch) (token_program ch) \<and>
     a ! 20 = token_program ch"
  by (auto simp: migration_parse_def Let_def split: if_splits)

lemma migration_new_pool_Ok:
  assumes "migration_new_pool ch m curve ta global = Ok n"
  shows "rd_owner curve = pump_program ch \<and> rd_owner global = pump_program ch \<and>
    rd_owner ta = migration_accounts m ! 19 \<and>
    get_slice (rd_data ta) 0 key_len = Some (migration_accounts m ! 2) \<and>
    get_slice (rd_data ta) key_len key_len = Some (migration_accounts m ! 4) \<and> rd_data curve ! 48 \<noteq> 0 \<and>
    (\<exists>fee. u64_at (rd_data global) migration_fee_at = Some fee \<and>
       np_quote_reserves n + fee = le_nat (slice (rd_data curve) 32 8)) \<and>
    u64_at (rd_data ta) 64 = Some (np_base_reserves n) \<and> 0 < np_quote_reserves n \<and> 0 < np_base_reserves n \<and>
    np_pool n = migration_accounts m ! 10 \<and> base_mint (np_data n) = migration_accounts m ! 2 \<and>
    quote_mint (np_data n) = migration_accounts m ! 3 \<and> np_base_token_program n = migration_accounts m ! 19 \<and>
    pool_base_token_account (np_data n) = migration_accounts m ! 17 \<and>
    pool_quote_token_account (np_data n) = migration_accounts m ! 18 \<and> np_graduated n"
  using assms
  by (auto simp: migration_new_pool_def Let_def u64_checked_sub_def split: if_splits option.splits)

text \<open>
  What is bought out of a transaction that has not run is decided by the token alone: the pool, its
  vaults and the curve are the addresses the mint gives them, the accounts believed are owned by the
  programs that write them, and the opening reserves are the curve's tokens and its SOL less the
  migration fee, neither of them zero and nothing wrapped.
\<close>

theorem migration_decided_by_the_mint:
  assumes "migration_parse ch data accounts = Some m" and "migration_new_pool ch m curve ta global = Ok n"
  shows "np_pool n = migration_pool_address ch (base_mint (np_data n)) \<and> quote_mint (np_data n) = wsol_mint ch \<and>
    pool_base_token_account (np_data n) = ata ch (np_pool n) (base_mint (np_data n)) (np_base_token_program n) \<and>
    pool_quote_token_account (np_data n) = ata ch (np_pool n) (wsol_mint ch) (token_program ch) \<and>
    np_base_token_program n \<in> {token_program ch, token_2022_program ch} \<and>
    migration_to_read ch m = [pda ch [str_bytes ''bonding-curve'', base_mint (np_data n)] (pump_program ch),
      ata ch (pda ch [str_bytes ''bonding-curve'', base_mint (np_data n)] (pump_program ch)) (base_mint (np_data n)) (np_base_token_program n),
      pump_global ch] \<and>
    rd_owner curve = pump_program ch \<and> rd_owner global = pump_program ch \<and> rd_owner ta = np_base_token_program n \<and>
    (\<exists>fee. u64_at (rd_data global) migration_fee_at = Some fee \<and>
       np_quote_reserves n + fee = le_nat (slice (rd_data curve) 32 8)) \<and>
    u64_at (rd_data ta) 64 = Some (np_base_reserves n) \<and> 0 < np_quote_reserves n \<and> 0 < np_base_reserves n"
proof -
  have m: "migration_accounts m = accounts" using assms(1) by (auto simp: migration_parse_Some)
  have p: "accounts ! 3 = wsol_mint ch" "accounts ! 19 = token_program ch \<or> accounts ! 19 = token_2022_program ch"
    "accounts ! 4 = pda ch [str_bytes ''bonding-curve'', accounts ! 2] (pump_program ch)"
    "accounts ! 5 = ata ch (accounts ! 4) (accounts ! 2) (accounts ! 19)" "accounts ! 10 = migration_pool_address ch (accounts ! 2)"
    "accounts ! 17 = ata ch (accounts ! 10) (accounts ! 2) (accounts ! 19)"
    "accounts ! 18 = ata ch (accounts ! 10) (wsol_mint ch) (token_program ch)"
    using assms(1) unfolding migration_parse_Some by blast+
  note q = migration_new_pool_Ok [OF assms(2), unfolded m]
  from q have fields: "base_mint (np_data n) = accounts ! 2" "quote_mint (np_data n) = accounts ! 3"
    "np_base_token_program n = accounts ! 19" "pool_base_token_account (np_data n) = accounts ! 17"
    "pool_quote_token_account (np_data n) = accounts ! 18" "np_pool n = accounts ! 10" by blast+
  have reads: "migration_to_read ch m = [accounts ! 4, accounts ! 5, pump_global ch]"
    by (simp add: migration_to_read_def m)
  from q show ?thesis
    unfolding fields reads using p by simp
qed

definition sample_mint :: pubkey where "sample_mint = replicate 32 7"

definition sample_curve :: pubkey where
  "sample_curve = pda sample_chain [str_bytes ''bonding-curve'', sample_mint] (pump_program sample_chain)"

definition sample_migration_accounts :: "pubkey list" where
  "sample_migration_accounts =
     (let ch = sample_chain; pl = migration_pool_address ch sample_mint
      in [pump_global ch, [], sample_mint, wsol_mint ch, sample_curve, ata ch sample_curve sample_mint [3], [], [], [],
          pump_amm_program_id ch, pl, pda ch [str_bytes ''pool-authority'', sample_mint] (pump_program ch), [], [],
          global_config ch, pda ch [str_bytes ''pool_lp_mint'', pl] (pump_amm_program_id ch), [],
          ata ch pl sample_mint [3], ata ch pl (wsol_mint ch) (token_program ch), [3], [2], [], [], [], [], [], [], [], []])"

text \<open>A complete curve of 1000 lamports, an account of 500 tokens, a migration fee of 15 lamports.\<close>

definition sample_curve_read :: account_read where
  "sample_curve_read = \<lparr>rd_owner = pump_program sample_chain,
     rd_data = replicate 32 0 @ le_bytes 8 1000 @ replicate 8 0 @ [1] @ replicate 32 5 @ [0, 0]\<rparr>"

definition sample_token_read :: account_read where
  "sample_token_read = \<lparr>rd_owner = [3], rd_data = sample_mint @ sample_curve @ le_bytes 8 500\<rparr>"

definition sample_global_read :: account_read where
  "sample_global_read = \<lparr>rd_owner = pump_program sample_chain, rd_data = replicate 146 0 @ le_bytes 8 15\<rparr>"

lemma sample_curve_length: "length sample_curve = 32"
  by (simp add: sample_curve_def pda_def sample_chain_def)

lemma sample_migration_parses:
  "migration_parse sample_chain migrate_v2_discriminator sample_migration_accounts = Some (Migration sample_migration_accounts)"
proof -
  have "token_program sample_chain = [2]" "token_2022_program sample_chain = [3]" by (simp_all add: sample_chain_def)
  then show ?thesis
    unfolding migration_parse_Some
    by (simp add: sample_migration_accounts_def Let_def sample_curve_def migrate_v2_discriminator_def slice_def)
qed

lemma sample_migration_pool:
  "\<exists>n. migration_new_pool sample_chain (Migration sample_migration_accounts) sample_curve_read sample_token_read sample_global_read = Ok n \<and>
     np_quote_reserves n = 985 \<and> base_mint (np_data n) = sample_mint"
proof -
  have "get_slice (rd_data sample_token_read) 0 32 = Some sample_mint" "get_slice (rd_data sample_token_read) 32 32 = Some sample_curve"
    "get_slice (rd_data sample_token_read) 64 8 = Some (le_bytes 8 500)"
    using sample_curve_length
    by (simp_all add: sample_token_read_def get_slice_def sample_mint_def slice_prefix slice_skip slice_whole del: le_bytes.simps)
  moreover have "get_slice (rd_data sample_global_read) 146 8 = Some (le_bytes 8 15)"
    by (simp add: sample_global_read_def get_slice_def slice_skip slice_whole del: le_bytes.simps)
  moreover have "slice (rd_data sample_curve_read) 32 8 = le_bytes 8 1000"
    by (simp add: sample_curve_read_def slice_skip slice_prefix slice_whole del: le_bytes.simps)
  moreover have "rd_data sample_curve_read ! 48 = 1" "length (rd_data sample_curve_read) = 83"
    by (simp_all add: sample_curve_read_def nth_append)
  moreover have "le_nat (le_bytes 8 500) = 500" "le_nat (le_bytes 8 15) = 15" "le_nat (le_bytes 8 1000) = 1000"
    by (simp_all add: le_nat_le_bytes_small del: le_bytes.simps le_nat.simps)
  moreover have "sample_migration_accounts ! 2 = sample_mint" "sample_migration_accounts ! 4 = sample_curve"
    "sample_migration_accounts ! 19 = [3]" by (simp_all add: sample_migration_accounts_def Let_def)
  moreover have "rd_owner sample_curve_read = pump_program sample_chain" "rd_owner sample_global_read = pump_program sample_chain"
    "rd_owner sample_token_read = [3]"
    by (simp_all add: sample_curve_read_def sample_global_read_def sample_token_read_def)
  ultimately show ?thesis
    by (simp add: migration_new_pool_def Let_def u64_at_def migration_fee_at_def key_len_def u64_checked_sub_def del: le_bytes.simps)
qed

lemma migration_decided_by_the_mint_witness:
  "\<exists>n. migration_new_pool sample_chain (Migration sample_migration_accounts) sample_curve_read sample_token_read sample_global_read = Ok n \<and>
     np_pool n = migration_pool_address sample_chain sample_mint"
proof -
  obtain n where n: "migration_new_pool sample_chain (Migration sample_migration_accounts) sample_curve_read sample_token_read sample_global_read = Ok n"
      "base_mint (np_data n) = sample_mint" using sample_migration_pool by blast
  from migration_decided_by_the_mint [OF sample_migration_parses n(1)]
  have "np_pool n = migration_pool_address sample_chain (base_mint (np_data n))" by (rule conjunct1)
  with n show ?thesis by (intro exI [of _ n]) simp
qed

end
