(* ===== verification/Creators.thy ===== *)
theory Creators
  imports Amm "HOL-Library.Sublist"
begin

text \<open>
  \<open>creators.rs\<close> of the pump.fun bot: who opened which pools lately, and who is banned. Instants are
  nanoseconds of a clock that never goes back; the bans kept in Redis are not modelled.
\<close>

type_synonym instant = nat

definition withdraw_discriminator :: bytes where
  "withdraw_discriminator = [183, 18, 70, 156, 148, 109, 161, 34]"

definition withdraw_of :: "bytes \<Rightarrow> pubkey list \<Rightarrow> (pubkey \<times> pubkey) option" where
  "withdraw_of data accounts =
     (case get_slice data 0 8 of
        None \<Rightarrow> None
      | Some d \<Rightarrow>
         (if d \<noteq> withdraw_discriminator then None
          else case accounts of
             p # u # _ \<Rightarrow> Some (p, u)
           | _ \<Rightarrow> None))"

text \<open>The reason of a ban, with the values its message shows.\<close>

datatype ban_reason =
    OpenedPools nat u64
  | PulledLiquidity pubkey
  | ListedInConfig
  | FundedBanned pubkey
  | FundedByFunder pubkey pubkey

record creator_watch =
  cw_created :: "(pubkey, instant list) hash_map"
  cw_banned :: "(pubkey, ban_reason) hash_map"
  cw_pool_creator :: "(pubkey, pubkey) hash_map"
  cw_traced :: "pubkey list"

definition creator_watch_default :: creator_watch where
  "creator_watch_default = \<lparr>cw_created = [], cw_banned = [], cw_pool_creator = [], cw_traced = []\<rparr>"

datatype verdict = Fine | Banned ban_reason | NewlyBanned ban_reason

definition ban :: "pubkey \<Rightarrow> ban_reason \<Rightarrow> creator_watch \<Rightarrow> bool \<times> creator_watch" where
  "ban creator reason w =
     (if hm_contains (cw_banned w) creator then (False, w)
      else (True, w\<lparr>cw_banned := hm_insert creator reason (cw_banned w)\<rparr>))"

text \<open>The times after \<open>now\<close> is pushed and those past the window are popped from the front.\<close>

definition times_after :: "instant \<Rightarrow> duration \<Rightarrow> instant list \<Rightarrow> instant list" where
  "times_after now window ts = dropWhile (\<lambda>t. now - t > window) (ts @ [now])"

definition on_create ::
  "pubkey \<Rightarrow> pubkey \<Rightarrow> instant \<Rightarrow> duration \<Rightarrow> nat \<Rightarrow> creator_watch \<Rightarrow> verdict \<times> creator_watch" where
  "on_create pool creator now window max_pools w =
     (let seen_before = hm_contains (cw_pool_creator w) pool;
          w1 = w\<lparr>cw_pool_creator := hm_insert pool creator (cw_pool_creator w)\<rparr>
      in case hm_get (cw_banned w1) creator of
           Some reason \<Rightarrow> (Banned reason, w1)
         | None \<Rightarrow>
            (if seen_before then (Fine, w1)
             else
               (let times = times_after now window
                    (case hm_get (cw_created w1) creator of Some ts \<Rightarrow> ts | None \<Rightarrow> []);
                    w2 = w1\<lparr>cw_created := hm_insert creator times (cw_created w1)\<rparr>
                in if length times > max_pools then
                     (let reason = OpenedPools (length times) (as_secs window)
                      in (NewlyBanned reason, snd (ban creator reason w2)))
                   else (Fine, w2))))"

definition on_withdraw :: "pubkey \<Rightarrow> pubkey \<Rightarrow> creator_watch \<Rightarrow> pubkey option \<times> creator_watch" where
  "on_withdraw pool user w =
     (let creator = (case hm_get (cw_pool_creator w) pool of Some c \<Rightarrow> c | None \<Rightarrow> user)
      in case ban creator (PulledLiquidity pool) w of
           (newly, w1) \<Rightarrow> (if newly then Some creator else None, w1))"

text \<open>The order of addresses is that of their bytes.\<close>

fun bytes_le :: "bytes \<Rightarrow> bytes \<Rightarrow> bool" where
  "bytes_le [] ys = True"
| "bytes_le (x # xs) [] = False"
| "bytes_le (x # xs) (y # ys) = (x < y \<or> x = y \<and> bytes_le xs ys)"

fun insert_key :: "pubkey \<Rightarrow> pubkey list \<Rightarrow> pubkey list" where
  "insert_key k [] = [k]"
| "insert_key k (x # xs) = (if bytes_le k x then k # x # xs else x # insert_key k xs)"

definition sort_keys :: "pubkey list \<Rightarrow> pubkey list" where
  "sort_keys ks = foldr insert_key ks []"

definition untraced :: "creator_watch \<Rightarrow> pubkey list" where
  "untraced w = sort_keys (filter (\<lambda>c. c \<notin> set (cw_traced w)) (map fst (cw_banned w)))"

definition mark_traced :: "pubkey \<Rightarrow> creator_watch \<Rightarrow> creator_watch" where
  "mark_traced c w = w\<lparr>cw_traced := List.insert c (cw_traced w)\<rparr>"

definition prune :: "instant \<Rightarrow> duration \<Rightarrow> creator_watch \<Rightarrow> creator_watch" where
  "prune now window w =
     (let w1 = w\<lparr>cw_created := filter (\<lambda>kv. snd kv \<noteq> [])
            (map (\<lambda>kv. (fst kv, filter (\<lambda>t. now - t \<le> window) (snd kv))) (cw_created w))\<rparr>
      in if length (cw_pool_creator w1) > 100000 then w1\<lparr>cw_pool_creator := []\<rparr> else w1)"

subsection \<open>Lemmas\<close>

definition is_banned :: "creator_watch \<Rightarrow> pubkey \<Rightarrow> bool" where
  "is_banned w c = hm_contains (cw_banned w) c"

text \<open>A ban is for as long as the bot runs: nothing here lifts one or changes its reason.\<close>

lemma ban_keeps: "hm_get (cw_banned w) c = Some r \<Longrightarrow> hm_get (cw_banned (snd (ban c' r' w))) c = Some r"
  by (auto simp: ban_def hm_contains_def)

lemma ban_bans: "is_banned (snd (ban c r w)) c"
  by (auto simp: ban_def is_banned_def hm_contains_def)

lemma on_create_keeps:
  "hm_get (cw_banned w) c = Some r \<Longrightarrow> hm_get (cw_banned (snd (on_create pool creator now window mx w))) c = Some r"
  by (auto simp: on_create_def Let_def ban_keeps split: option.splits)

lemma on_withdraw_keeps:
  "hm_get (cw_banned w) c = Some r \<Longrightarrow> hm_get (cw_banned (snd (on_withdraw pool user w))) c = Some r"
  by (auto simp: on_withdraw_def Let_def ban_def hm_contains_def split: option.splits prod.splits)

lemma prune_keeps: "cw_banned (prune now window w) = cw_banned w"
  by (simp add: prune_def Let_def)

lemma mark_traced_keeps: "cw_banned (mark_traced c w) = cw_banned w"
  by (simp add: mark_traced_def)

lemma on_create_Fine:
  "on_create pool creator now window mx w = (Fine, w') \<Longrightarrow> \<not> is_banned w creator \<and> \<not> is_banned w' creator"
  by (auto simp: on_create_def Let_def is_banned_def hm_contains_def split: option.splits if_splits)

text \<open>Times in order: what is kept is exactly what is within the window.\<close>

lemma dropWhile_sorted_filter:
  "sorted ts \<Longrightarrow> dropWhile (\<lambda>t. now - t > window) ts = filter (\<lambda>t. now - t \<le> window) (ts :: nat list)"
proof (induction ts)
  case (Cons t ts)
  show ?case
  proof (cases "now - t > window")
    case True
    with Cons show ?thesis by simp
  next
    case False
    have "x \<in> set ts \<Longrightarrow> now - x \<le> window" for x
      using Cons.prems False diff_le_mono2 [of t x now] by (auto dest: le_trans)
    with False show ?thesis by (simp add: filter_id_conv)
  qed
qed simp

lemma times_after_window:
  "sorted ts \<Longrightarrow> list_all (\<lambda>t. t \<le> now) ts \<Longrightarrow>
     times_after now window ts = filter (\<lambda>t. now - t \<le> window) (ts @ [now])"
  unfolding times_after_def by (rule dropWhile_sorted_filter) (auto simp: sorted_append list_all_iff)

subsection \<open>Whole runs\<close>

text \<open>What the bot is told, newest first, and the watch it has made of it.\<close>

datatype watch_event = PoolCreated pubkey pubkey instant | Withdrawn pubkey pubkey | Pruned instant

fun watch_step :: "duration \<Rightarrow> nat \<Rightarrow> creator_watch \<Rightarrow> watch_event \<Rightarrow> creator_watch" where
  "watch_step window mx w (PoolCreated p c t) = snd (on_create p c t window mx w)"
| "watch_step window mx w (Withdrawn p u) = snd (on_withdraw p u w)"
| "watch_step window mx w (Pruned t) = prune t window w"

fun watch_run :: "duration \<Rightarrow> nat \<Rightarrow> watch_event list \<Rightarrow> creator_watch" where
  "watch_run window mx [] = creator_watch_default"
| "watch_run window mx (e # older) = watch_step window mx (watch_run window mx older) e"

fun log_time :: "watch_event list \<Rightarrow> instant" where
  "log_time [] = 0"
| "log_time (PoolCreated p c t # older) = t"
| "log_time (Withdrawn p u # older) = log_time older"
| "log_time (Pruned t # older) = t"

fun log_ok :: "watch_event list \<Rightarrow> bool" where
  "log_ok [] = True"
| "log_ok (e # older) = (log_time older \<le> log_time (e # older) \<and> log_ok older)"

definition created_pools :: "watch_event list \<Rightarrow> pubkey set" where
  "created_pools log = {p. \<exists>c t. PoolCreated p c t \<in> set log}"

text \<open>When a creator opened pools not seen before, oldest first.\<close>

fun opened :: "watch_event list \<Rightarrow> pubkey \<Rightarrow> instant list" where
  "opened [] c = []"
| "opened (PoolCreated p c' t # older) c =
     opened older c @ (if c' = c \<and> p \<notin> created_pools older then [t] else [])"
| "opened (Withdrawn p u # older) c = opened older c"
| "opened (Pruned t # older) c = opened older c"

definition recorded :: "creator_watch \<Rightarrow> pubkey \<Rightarrow> instant list" where
  "recorded w c = (case hm_get (cw_created w) c of Some ts \<Rightarrow> ts | None \<Rightarrow> [])"

definition within :: "duration \<Rightarrow> instant \<Rightarrow> instant list \<Rightarrow> instant list" where
  "within window now ts = filter (\<lambda>t. now - t \<le> window) ts"

definition watch_inv :: "duration \<Rightarrow> instant \<Rightarrow> watch_event list \<Rightarrow> creator_watch \<Rightarrow> bool" where
  "watch_inv window now log w \<longleftrightarrow>
     hm_ok (cw_created w) \<and>
     (\<forall>c. sorted (recorded w c) \<and> list_all (\<lambda>t. t \<le> now) (recorded w c)) \<and>
     (\<forall>c. is_banned w c \<or> subseq (within window now (opened log c)) (within window now (recorded w c))) \<and>
     (\<forall>p. hm_contains (cw_pool_creator w) p \<longrightarrow> p \<in> created_pools log)"

lemma within_later: "now \<le> now' \<Longrightarrow> within window now' ts = within window now' (within window now ts)"
  by (auto simp: within_def intro!: filter_cong)

lemma subseq_within_later:
  "now \<le> now' \<Longrightarrow> subseq (within window now xs) (within window now ys) \<Longrightarrow>
     subseq (within window now' xs) (within window now' ys)"
  using within_later [of now now' window xs] within_later [of now now' window ys] subseq_filter
  by (metis within_def)

lemma recorded_insert: "recorded (w\<lparr>cw_created := hm_insert c ts (cw_created w)\<rparr>) c' = (if c' = c then ts else recorded w c')"
  by (simp add: recorded_def)

lemma recorded_ban [simp]: "recorded (snd (ban c r w)) c' = recorded w c'"
  by (simp add: recorded_def ban_def)

lemma ban_frame [simp]: "cw_created (snd (ban c r w)) = cw_created w" "cw_pool_creator (snd (ban c r w)) = cw_pool_creator w"
  by (simp_all add: ban_def)

lemma is_banned_ban: "is_banned (snd (ban c r w)) c' \<longleftrightarrow> c' = c \<or> is_banned w c'"
  by (auto simp: is_banned_def ban_def hm_contains_def)

lemma times_after_facts:
  assumes "sorted ts" and "list_all (\<lambda>t. t \<le> now) ts"
  shows "times_after now window ts = within window now ts @ [now]" and "sorted (times_after now window ts)"
    and "list_all (\<lambda>t. t \<le> now) (times_after now window ts)"
    and "within window now (times_after now window ts) = times_after now window ts"
proof -
  show t: "times_after now window ts = within window now ts @ [now]"
    using times_after_window [OF assms, of window] by (simp add: within_def)
  show "sorted (times_after now window ts)" "list_all (\<lambda>t. t \<le> now) (times_after now window ts)"
    using assms by (auto simp: t within_def sorted_append sorted_filter [where f = id, simplified] list_all_iff)
  show "within window now (times_after now window ts) = times_after now window ts"
    unfolding t by (simp add: within_def)
qed

lemma watch_inv_later: "watch_inv window now log w \<Longrightarrow> now \<le> now' \<Longrightarrow> watch_inv window now' log w"
  unfolding watch_inv_def list_all_iff by (meson order_trans subseq_within_later)

lemma within_append: "within window now (xs @ ys) = within window now xs @ within window now ys"
  by (simp add: within_def)

lemma watch_inv_times:
  fixes c :: pubkey
  assumes inv: "watch_inv window t log w"
  defines "recent \<equiv> times_after t window (recorded w c)"
  shows "watch_inv window t (PoolCreated p c t # log)
    (w\<lparr>cw_pool_creator := hm_insert p c (cw_pool_creator w), cw_created := hm_insert c recent (cw_created w)\<rparr>)"
    (is "watch_inv _ _ _ ?w")
proof -
  have rec: "sorted (recorded w c)" "list_all (\<lambda>x. x \<le> t) (recorded w c)"
    using inv by (simp_all add: watch_inv_def)
  note facts = times_after_facts [OF rec, of window, folded recent_def]
  have r: "recorded ?w c' = (if c' = c then recent else recorded w c')" for c' by (simp add: recorded_def)
  have b: "is_banned ?w c' = is_banned w c'" for c' by (simp add: is_banned_def)
  have "is_banned w c' \<or> subseq (within window t (opened (PoolCreated p c t # log) c')) (within window t (recorded ?w c'))" for c'
  proof (cases "is_banned w c'")
    case False
    then have old: "subseq (within window t (opened log c')) (within window t (recorded w c'))"
      using inv by (auto simp: watch_inv_def)
    show ?thesis
    proof (cases "c' = c")
      case True
      have "within window t (recorded ?w c') = within window t (recorded w c) @ [t]"
        using r [of c'] facts(1,4) by (simp only: True if_True simp_thms)
      moreover have "within window t (opened (PoolCreated p c t # log) c') =
          within window t (opened log c) @ (if p \<notin> created_pools log then [t] else [])"
        using True by (simp add: within_append) (simp add: within_def)
      ultimately show ?thesis using old True by (auto intro: list_emb_append_mono subseq_rev_drop_many)
    qed (use old r in simp)
  qed simp
  moreover have "sorted (recorded ?w c') \<and> list_all (\<lambda>x. x \<le> t) (recorded ?w c')" for c'
    using inv facts(2,3) by (auto simp: r watch_inv_def)
  moreover have "hm_contains (cw_pool_creator ?w) q \<longrightarrow> q \<in> created_pools (PoolCreated p c t # log)" for q
    using inv by (auto simp: watch_inv_def hm_contains_def created_pools_def)
  ultimately show ?thesis
    using inv by (simp add: watch_inv_def b)
qed

lemma watch_inv_ban:
  "watch_inv window now log w \<Longrightarrow> watch_inv window now log (snd (ban c r w))"
  by (auto simp: watch_inv_def is_banned_ban)

text \<open>A pool noted that opens nothing new.\<close>

lemma watch_inv_noted:
  assumes inv: "watch_inv window t log w" and known: "is_banned w c \<or> p \<in> created_pools log"
  shows "watch_inv window t (PoolCreated p c t # log) (w\<lparr>cw_pool_creator := hm_insert p c (cw_pool_creator w)\<rparr>)"
    (is "watch_inv _ _ _ ?w")
proof -
  have r: "recorded ?w c' = recorded w c'" and b: "is_banned ?w c' = is_banned w c'" for c'
    by (simp_all add: recorded_def is_banned_def)
  have "is_banned w c' \<or> subseq (within window t (opened (PoolCreated p c t # log) c')) (within window t (recorded w c'))" for c'
    using inv known by (auto simp: watch_inv_def)
  moreover have "hm_contains (cw_pool_creator ?w) q \<longrightarrow> q \<in> created_pools (PoolCreated p c t # log)" for q
    using inv by (auto simp: watch_inv_def hm_contains_def created_pools_def)
  ultimately show ?thesis using inv by (simp add: watch_inv_def r b)
qed

lemma watch_inv_create:
  assumes inv: "watch_inv window t log w"
  shows "watch_inv window t (PoolCreated p c t # log) (snd (on_create p c t window mx w))"
proof (cases "is_banned w c \<or> hm_contains (cw_pool_creator w) p")
  case True
  then have "snd (on_create p c t window mx w) = w\<lparr>cw_pool_creator := hm_insert p c (cw_pool_creator w)\<rparr>"
    by (auto simp: on_create_def Let_def is_banned_def hm_contains_def split: option.splits)
  moreover have "is_banned w c \<or> p \<in> created_pools log" using True inv by (auto simp: watch_inv_def)
  ultimately show ?thesis using watch_inv_noted [OF inv] by simp
next
  case False
  let ?w = "w\<lparr>cw_pool_creator := hm_insert p c (cw_pool_creator w),
    cw_created := hm_insert c (times_after t window (recorded w c)) (cw_created w)\<rparr>"
  have "snd (on_create p c t window mx w) = ?w \<or> (\<exists>r. snd (on_create p c t window mx w) = snd (ban c r ?w))"
    using False
    by (auto simp: on_create_def Let_def is_banned_def hm_contains_def recorded_def split: option.splits if_splits)
  with watch_inv_times [OF inv, of p c] watch_inv_ban show ?thesis by fastforce
qed

lemma watch_inv_prune:
  assumes inv: "watch_inv window t log w"
  shows "watch_inv window t (Pruned t # log) (prune t window w)"
proof -
  have get: "hm_get (filter (\<lambda>kv. snd kv \<noteq> []) (map (\<lambda>kv. (fst kv, within window t (snd kv))) m)) c =
      (case hm_get m c of Some ts \<Rightarrow> (if within window t ts = [] then None else Some (within window t ts)) | None \<Rightarrow> None)"
    if "hm_ok m" for m :: "(pubkey, instant list) hash_map" and c
    using that
  proof (induction m)
    case (Cons kv m)
    have "hm_get m (fst kv) = None" using Cons.prems by (auto simp: hm_ok_def hm_get_def map_of_eq_None_iff)
    with Cons show ?case by (auto simp: hm_get_def hm_ok_def split: option.splits)
  qed simp
  have ok: "hm_ok (cw_created w)" using inv by (simp add: watch_inv_def)
  have cr: "cw_created (prune t window w) = filter (\<lambda>kv. snd kv \<noteq> []) (map (\<lambda>kv. (fst kv, within window t (snd kv))) (cw_created w))"
    by (simp add: prune_def Let_def within_def)
  have r: "recorded (prune t window w) c = within window t (recorded w c)" for c
    using get [OF ok, of c] by (auto simp: recorded_def cr within_def split: option.splits if_splits)
  have b: "is_banned (prune t window w) c = is_banned w c" for c by (simp add: is_banned_def prune_keeps)
  have idem: "within window t (within window t ts) = within window t ts" for ts by (simp add: within_def)
  have "hm_ok (cw_created (prune t window w))"
    unfolding cr hm_ok_def
  proof (rule distinct_map_filter)
    show "distinct (map fst (map (\<lambda>kv. (fst kv, within window t (snd kv))) (cw_created w)))"
      using ok by (simp add: hm_ok_def o_def)
  qed
  moreover have "hm_contains (cw_pool_creator (prune t window w)) q \<longrightarrow> q \<in> created_pools (Pruned t # log)" for q
    using inv by (auto simp: watch_inv_def created_pools_def prune_def Let_def hm_contains_def split: if_splits)
  moreover have "sorted (within window t (recorded w c))" "list_all (\<lambda>x. x \<le> t) (within window t (recorded w c))" for c
    using inv by (auto simp: watch_inv_def within_def list_all_iff sorted_filter [where f = id, simplified])
  ultimately show ?thesis
    using inv by (simp add: watch_inv_def r b idem)
qed

lemma watch_run_inv: "log_ok log \<Longrightarrow> watch_inv window (log_time log) log (watch_run window mx log)"
proof (induction log)
  case Nil
  show ?case
    by (simp add: watch_inv_def creator_watch_default_def recorded_def within_def hm_contains_def)
next
  case (Cons e log)
  then have inv: "watch_inv window (log_time (e # log)) log (watch_run window mx log)"
    using watch_inv_later by auto
  show ?case
  proof (cases e)
    case (PoolCreated p c t)
    with inv watch_inv_create show ?thesis by simp
  next
    case (Withdrawn p u)
    have "\<exists>c. snd (on_withdraw p u w) = snd (ban c (PulledLiquidity p) w)" for w
      by (auto simp: on_withdraw_def Let_def split: prod.splits) (metis snd_conv)
    then obtain c where "watch_run window mx (e # log) = snd (ban c (PulledLiquidity p) (watch_run window mx log))"
      using Withdrawn by fastforce
    moreover have "created_pools (e # log) = created_pools log" using Withdrawn by (auto simp: created_pools_def)
    ultimately show ?thesis
      using Withdrawn watch_inv_ban [OF inv] by (simp add: watch_inv_def)
  next
    case (Pruned t)
    with inv watch_inv_prune show ?thesis by simp
  qed
qed

text \<open>A creator not banned has opened no more than the allowed pools within the window.\<close>

lemma on_create_few:
  assumes "\<And>c. is_banned w c \<or> length (recorded w c) \<le> mx"
  shows "is_banned (snd (on_create p c t window mx w)) c' \<or> length (recorded (snd (on_create p c t window mx w)) c') \<le> mx"
  using assms [of c']
  by (auto simp: on_create_def Let_def is_banned_def recorded_def ban_def hm_contains_def split: option.splits if_splits)

lemma on_withdraw_snd:
  "snd (on_withdraw p u w) = snd (ban (case hm_get (cw_pool_creator w) p of Some c \<Rightarrow> c | None \<Rightarrow> u) (PulledLiquidity p) w)"
  by (simp add: on_withdraw_def Let_def split: prod.splits)

lemma watch_run_hm_ok: "hm_ok (cw_created (watch_run window mx log))"
proof (induction log)
  case (Cons e log)
  then show ?case
    by (cases e) (auto simp: on_create_def on_withdraw_snd prune_def Let_def hm_ok_def distinct_map_filter o_def
        split: option.splits intro: hm_ok_insert [unfolded hm_ok_def])
qed (simp add: creator_watch_default_def)

lemma watch_run_few:
  "is_banned (watch_run window mx log) c \<or> length (recorded (watch_run window mx log) c) \<le> mx"
proof (induction log arbitrary: c)
  case Nil
  show ?case by (simp add: creator_watch_default_def recorded_def)
next
  case (Cons e log)
  let ?w = "watch_run window mx log"
  show ?case
  proof (cases e)
    case (PoolCreated p c' t)
    with on_create_few [OF Cons.IH] show ?thesis by simp
  next
    case (Withdrawn p u)
    with Cons.IH [of c] show ?thesis by (simp add: on_withdraw_snd is_banned_ban)
  next
    case (Pruned t)
    have "length (recorded (prune t window ?w) c) \<le> length (recorded ?w c)"
    proof (cases "hm_get (cw_created (prune t window ?w)) c")
      case (Some ts)
      then have "(c, ts) \<in> set (cw_created (prune t window ?w))" by (simp add: hm_get_def map_of_SomeD)
      then obtain ts0 where ts0: "(c, ts0) \<in> set (cw_created ?w)" "ts = filter (\<lambda>x. t - x \<le> window) ts0"
        by (auto simp: prune_def Let_def split: if_splits)
      have "hm_ok (cw_created ?w)" by (rule watch_run_hm_ok)
      with ts0(1) have "hm_get (cw_created ?w) c = Some ts0" by (simp add: hm_ok_def hm_get_def)
      with Some ts0(2) show ?thesis by (simp add: recorded_def)
    qed (simp add: recorded_def)
    with Pruned Cons.IH [of c] show ?thesis by (auto simp: is_banned_def prune_keeps)
  qed
qed

lemma watch_step_keeps: "is_banned w c \<Longrightarrow> is_banned (watch_step window mx w e) c"
  by (cases e) (auto simp: is_banned_def hm_contains_def prune_keeps dest: on_create_keeps on_withdraw_keeps)

lemma watch_run_keeps: "is_banned (watch_run window mx older) c \<Longrightarrow> is_banned (watch_run window mx (newer @ older)) c"
  by (induction newer) (simp_all add: watch_step_keeps)

lemma on_withdraw_bans: "fst (on_withdraw q u w) = Some c \<Longrightarrow> is_banned (snd (on_withdraw q u w)) c"
  by (auto simp: on_withdraw_def Let_def ban_def is_banned_def hm_contains_def split: if_splits)

subsection \<open>Properties\<close>

text \<open>
  Whatever the bot has seen, a pool passes only if its creator, this pool counted, has opened no
  more than the allowed number of new pools within the window, and no withdraw seen before was laid to
  that creator: a ban is for as long as the bot runs.
\<close>

theorem pool_spammers_refused:
  assumes "log_ok (PoolCreated p c t # log)" and "fst (on_create p c t window mx (watch_run window mx log)) = Fine"
  shows "length (within window t (opened (PoolCreated p c t # log) c)) \<le> mx \<and>
    (\<forall>newer older q u. log = newer @ Withdrawn q u # older \<longrightarrow> fst (on_withdraw q u (watch_run window mx older)) \<noteq> Some c)"
proof -
  let ?w = "watch_run window mx log" and ?w' = "watch_run window mx (PoolCreated p c t # log)"
  have "on_create p c t window mx ?w = (Fine, ?w')" using assms(2) by (simp add: prod_eq_iff)
  from on_create_Fine [OF this] have nb: "\<not> is_banned ?w c" "\<not> is_banned ?w' c" by auto
  have inv: "watch_inv window t (PoolCreated p c t # log) ?w'"
    using watch_run_inv [OF assms(1)] by simp
  then have "subseq (within window t (opened (PoolCreated p c t # log) c)) (within window t (recorded ?w' c))"
    using nb(2) by (auto simp: watch_inv_def)
  then have "length (within window t (opened (PoolCreated p c t # log) c)) \<le> length (within window t (recorded ?w' c))"
    by (rule list_emb_length)
  also have "\<dots> \<le> length (recorded ?w' c)" by (simp add: within_def)
  also have "\<dots> \<le> mx" using watch_run_few [of window mx "PoolCreated p c t # log" c] nb(2) by blast
  finally have few: "length (within window t (opened (PoolCreated p c t # log) c)) \<le> mx" .
  have "fst (on_withdraw q u (watch_run window mx older)) \<noteq> Some c" if "log = newer @ Withdrawn q u # older" for newer older q u
  proof
    assume "fst (on_withdraw q u (watch_run window mx older)) = Some c"
    then have "is_banned (watch_run window mx (Withdrawn q u # older)) c" using on_withdraw_bans by simp
    then have "is_banned ?w c" unfolding that by (rule watch_run_keeps)
    with nb(1) show False ..
  qed
  with few show ?thesis by blast
qed

lemma pool_spammers_refused_witness:
  "length (within 600 100 (opened [PoolCreated [2] [9] 100, PoolCreated [1] [9] 50] [9])) \<le> 2 \<and>
     fst (on_create [2] [9] 100 600 2 (watch_run 600 2 [PoolCreated [1] [9] 50])) = Fine"
proof -
  have ok: "fst (on_create [2] [9] 100 600 2 (watch_run 600 2 [PoolCreated [1] [9] 50])) = Fine"
    by (simp add: on_create_def creator_watch_default_def hm_contains_def times_after_def Let_def hm_get_def)
  from pool_spammers_refused [OF _ ok] ok show ?thesis by simp
qed

end
