(* ===== verification/Timing.thy ===== *)
theory Timing
  imports Creators
begin

text \<open>
  \<open>timing.rs\<close> of the pump.fun bot: how early migrations are seen and how late buys land. It measures
  only, so what matters is that it stays bounded and that its figures are what they say. Iterations over
  a hash map take the order of the list.
\<close>

definition samples_cap :: nat where "samples_cap = 1000"
definition buys_cap :: nat where "buys_cap = 50"
definition forget_after :: duration where "forget_after = from_secs 120"

datatype via = ViaShreds | ViaGeyser

record sighting =
  sg_slot :: u64
  sg_seen :: instant
  sg_via :: via

type_synonym samples = "u64 list"
type_synonym signature = string

definition samples_push :: "u64 \<Rightarrow> samples \<Rightarrow> samples" where
  "samples_push v s = (if length s = samples_cap then tl s else s) @ [v]"

record summary =
  sm_count :: nat
  sm_p50 :: "u64 option"
  sm_p90 :: "u64 option"
  sm_min :: "u64 option"
  sm_max :: "u64 option"

definition list_get :: "'a list \<Rightarrow> nat \<Rightarrow> 'a option" where
  "list_get xs i = (if i < length xs then Some (xs ! i) else None)"

definition samples_summary :: "samples \<Rightarrow> summary" where
  "samples_summary s =
     (let sorted = sort s;
          at = (\<lambda>q. list_get sorted (min (length sorted * q div 100) (length sorted - 1)))
      in \<lparr>sm_count = length sorted, sm_p50 = at 50, sm_p90 = at 90,
          sm_min = list_get sorted 0, sm_max = (if sorted = [] then None else Some (last sorted))\<rparr>)"

record track =
  tk_slot :: u64
  tk_shred :: "instant option"
  tk_processed :: "instant option"
  tk_since :: instant

record buy_timing =
  bt_pool :: pubkey
  bt_via :: via
  bt_pool_slot :: u64
  bt_detect_to_send_ms :: u64
  bt_landed_slot :: "u64 option"
  bt_slots_late :: "u64 option"

record timing =
  tm_tracks :: "(signature, track) hash_map"
  tm_slot_started :: "(u64, instant) hash_map"
  tm_shred_to_processed :: samples
  tm_shred_to_confirmed :: samples
  tm_processed_to_confirmed :: samples
  tm_shred_offset :: samples
  tm_processed_offset :: samples
  tm_detect_to_send :: samples
  tm_slots_late :: samples
  tm_buys :: "buy_timing list"

definition timing_default :: timing where
  "timing_default = \<lparr>tm_tracks = [], tm_slot_started = [], tm_shred_to_processed = [], tm_shred_to_confirmed = [],
     tm_processed_to_confirmed = [], tm_shred_offset = [], tm_processed_offset = [], tm_detect_to_send = [],
     tm_slots_late = [], tm_buys = []\<rparr>"

definition ms :: "instant \<Rightarrow> instant \<Rightarrow> u64" where
  "ms start stop = (stop - start) div 1000000 mod 2 ^ 64"

definition new_track :: "u64 \<Rightarrow> instant \<Rightarrow> track" where
  "new_track slot now = \<lparr>tk_slot = slot, tk_shred = None, tk_processed = None, tk_since = now\<rparr>"

text \<open>\<open>entry(sig).or_insert(..)\<close>.\<close>

definition entry_or :: "'k \<Rightarrow> 'v \<Rightarrow> ('k, 'v) hash_map \<Rightarrow> ('k, 'v) hash_map" where
  "entry_or k v m = (if hm_contains m k then m else hm_insert k v m)"

definition on_shred :: "signature \<Rightarrow> u64 \<Rightarrow> instant \<Rightarrow> timing \<Rightarrow> timing" where
  "on_shred sig slot now t =
     (let t1 = (case hm_get (tm_slot_started t) slot of
           Some start \<Rightarrow> t\<lparr>tm_shred_offset := samples_push (ms start now) (tm_shred_offset t)\<rparr>
         | None \<Rightarrow> t)
      in t1\<lparr>tm_tracks := hm_modify sig (\<lambda>tr. tr\<lparr>tk_shred := (case tk_shred tr of Some s \<Rightarrow> Some s | None \<Rightarrow> Some now)\<rparr>)
           (entry_or sig (new_track slot now) (tm_tracks t1))\<rparr>)"

definition timing_tracks :: "signature \<Rightarrow> timing \<Rightarrow> bool" where
  "timing_tracks sig t = hm_contains (tm_tracks t) sig"

definition on_processed :: "signature \<Rightarrow> u64 \<Rightarrow> instant \<Rightarrow> timing \<Rightarrow> timing" where
  "on_processed sig slot now t =
     (let m = entry_or sig (new_track slot now) (tm_tracks t);
          t1 = t\<lparr>tm_tracks := m\<rparr>
      in case hm_get m sig of
           None \<Rightarrow> t1
         | Some tr \<Rightarrow>
            (if tk_processed tr \<noteq> None then t1
             else
               (let t2 = t1\<lparr>tm_tracks := hm_modify sig (\<lambda>tr. tr\<lparr>tk_processed := Some now\<rparr>) m\<rparr>;
                    t3 = (case tk_shred tr of
                        Some s \<Rightarrow> t2\<lparr>tm_shred_to_processed := samples_push (ms s now) (tm_shred_to_processed t2)\<rparr>
                      | None \<Rightarrow> t2)
                in case hm_get (tm_slot_started t3) slot of
                     Some start \<Rightarrow> t3\<lparr>tm_processed_offset := samples_push (ms start now) (tm_processed_offset t3)\<rparr>
                   | None \<Rightarrow> t3)))"

definition on_slot_started :: "u64 \<Rightarrow> instant \<Rightarrow> timing \<Rightarrow> timing" where
  "on_slot_started slot now t = t\<lparr>tm_slot_started := entry_or slot now (tm_slot_started t)\<rparr>"

definition timing_forget :: "instant \<Rightarrow> timing \<Rightarrow> timing" where
  "timing_forget now t =
     t\<lparr>tm_tracks := filter (\<lambda>kv. now - tk_since (snd kv) < forget_after) (tm_tracks t),
       tm_slot_started := filter (\<lambda>kv. now - snd kv < forget_after) (tm_slot_started t)\<rparr>"

definition push_opt :: "instant option \<Rightarrow> instant \<Rightarrow> samples \<Rightarrow> samples" where
  "push_opt start now s = (case start of Some i \<Rightarrow> samples_push (ms i now) s | None \<Rightarrow> s)"

definition on_slot_confirmed :: "u64 \<Rightarrow> instant \<Rightarrow> timing \<Rightarrow> timing" where
  "on_slot_confirmed slot now t =
     (let gone = filter (\<lambda>kv. tk_slot (snd kv) = slot) (tm_tracks t)
      in timing_forget now
          (t\<lparr>tm_shred_to_confirmed := foldl (\<lambda>s kv. push_opt (tk_shred (snd kv)) now s) (tm_shred_to_confirmed t) gone,
             tm_processed_to_confirmed := foldl (\<lambda>s kv. push_opt (tk_processed (snd kv)) now s) (tm_processed_to_confirmed t) gone,
             tm_tracks := filter (\<lambda>kv. tk_slot (snd kv) \<noteq> slot) (tm_tracks t)\<rparr>))"

definition on_slot_dead :: "u64 \<Rightarrow> timing \<Rightarrow> timing" where
  "on_slot_dead slot t =
     t\<lparr>tm_tracks := filter (\<lambda>kv. tk_slot (snd kv) \<noteq> slot) (tm_tracks t),
       tm_slot_started := hm_remove slot (tm_slot_started t)\<rparr>"

definition on_buy_sent :: "pubkey \<Rightarrow> sighting \<Rightarrow> instant \<Rightarrow> timing \<Rightarrow> timing" where
  "on_buy_sent pool sg now t =
     (let d = ms (sg_seen sg) now
      in t\<lparr>tm_detect_to_send := samples_push d (tm_detect_to_send t),
           tm_buys := (if length (tm_buys t) = buys_cap then tl (tm_buys t) else tm_buys t) @
             [\<lparr>bt_pool = pool, bt_via = sg_via sg, bt_pool_slot = sg_slot sg, bt_detect_to_send_ms = d,
               bt_landed_slot = None, bt_slots_late = None\<rparr>]\<rparr>)"

text \<open>The last buy of the pool not landed yet, found from the back.\<close>

fun land_first :: "pubkey \<Rightarrow> u64 \<Rightarrow> buy_timing list \<Rightarrow> (u64 \<times> buy_timing list) option" where
  "land_first pool slot [] = None"
| "land_first pool slot (b # bs) =
     (if bt_pool b = pool \<and> bt_landed_slot b = None then
        Some (slot - bt_pool_slot b, b\<lparr>bt_landed_slot := Some slot, bt_slots_late := Some (slot - bt_pool_slot b)\<rparr> # bs)
      else map_option (\<lambda>(l, bs'). (l, b # bs')) (land_first pool slot bs))"

definition on_buy_landed :: "pubkey \<Rightarrow> u64 \<Rightarrow> timing \<Rightarrow> timing" where
  "on_buy_landed pool slot t =
     (case land_first pool slot (List.rev (tm_buys t)) of
        None \<Rightarrow> t
      | Some (late, bs) \<Rightarrow> t\<lparr>tm_buys := List.rev bs, tm_slots_late := samples_push late (tm_slots_late t)\<rparr>)"

record timing_report =
  tr_shred_to_processed_ms :: summary
  tr_shred_to_confirmed_ms :: summary
  tr_processed_to_confirmed_ms :: summary
  tr_shred_offset_in_slot_ms :: summary
  tr_processed_offset_in_slot_ms :: summary
  tr_detect_to_send_ms :: summary
  tr_slots_late :: summary
  tr_buys :: "buy_timing list"

definition timing_report_of :: "timing \<Rightarrow> timing_report" where
  "timing_report_of t =
     \<lparr>tr_shred_to_processed_ms = samples_summary (tm_shred_to_processed t),
      tr_shred_to_confirmed_ms = samples_summary (tm_shred_to_confirmed t),
      tr_processed_to_confirmed_ms = samples_summary (tm_processed_to_confirmed t),
      tr_shred_offset_in_slot_ms = samples_summary (tm_shred_offset t),
      tr_processed_offset_in_slot_ms = samples_summary (tm_processed_offset t),
      tr_detect_to_send_ms = samples_summary (tm_detect_to_send t),
      tr_slots_late = samples_summary (tm_slots_late t),
      tr_buys = tm_buys t\<rparr>"

subsection \<open>Bounds\<close>

datatype timing_event =
    EvShred signature u64 instant
  | EvProcessed signature u64 instant
  | EvSlotStarted u64 instant
  | EvSlotConfirmed u64 instant
  | EvSlotDead u64
  | EvBuySent pubkey sighting instant
  | EvBuyLanded pubkey u64

fun timing_step :: "timing \<Rightarrow> timing_event \<Rightarrow> timing" where
  "timing_step t (EvShred sig slot now) = on_shred sig slot now t"
| "timing_step t (EvProcessed sig slot now) = on_processed sig slot now t"
| "timing_step t (EvSlotStarted slot now) = on_slot_started slot now t"
| "timing_step t (EvSlotConfirmed slot now) = on_slot_confirmed slot now t"
| "timing_step t (EvSlotDead slot) = on_slot_dead slot t"
| "timing_step t (EvBuySent pool sg now) = on_buy_sent pool sg now t"
| "timing_step t (EvBuyLanded pool slot) = on_buy_landed pool slot t"

definition measures :: "timing \<Rightarrow> samples list" where
  "measures t = [tm_shred_to_processed t, tm_shred_to_confirmed t, tm_processed_to_confirmed t, tm_shred_offset t,
     tm_processed_offset t, tm_detect_to_send t, tm_slots_late t]"

definition timing_bounded :: "timing \<Rightarrow> bool" where
  "timing_bounded t \<longleftrightarrow> list_all (\<lambda>s. length s \<le> samples_cap) (measures t) \<and> length (tm_buys t) \<le> buys_cap"

lemma samples_push_bound: "length s \<le> samples_cap \<Longrightarrow> length (samples_push v s) \<le> samples_cap"
  by (auto simp: samples_push_def samples_cap_def)

lemma push_opt_bound: "length s \<le> samples_cap \<Longrightarrow> length (push_opt i now s) \<le> samples_cap"
  by (simp add: push_opt_def samples_push_bound split: option.splits)

lemma foldl_push_bound: "length s \<le> samples_cap \<Longrightarrow> length (foldl (\<lambda>s x. push_opt (f x) now s) s xs) \<le> samples_cap"
  by (induction xs arbitrary: s) (simp_all add: push_opt_bound)

lemma land_first_length: "land_first pool slot bs = Some (l, bs') \<Longrightarrow> length bs' = length bs"
  by (induction bs arbitrary: bs') (auto split: if_splits)

lemma timing_step_bounded: "timing_bounded t \<Longrightarrow> timing_bounded (timing_step t e)"
proof (cases e)
  case (EvBuySent pool sg now)
  assume "timing_bounded t"
  with EvBuySent show ?thesis
    by (auto simp: timing_bounded_def measures_def on_buy_sent_def Let_def samples_push_bound buys_cap_def)
next
  case (EvBuyLanded pool slot)
  assume "timing_bounded t"
  with EvBuyLanded show ?thesis
    by (auto simp: timing_bounded_def measures_def on_buy_landed_def samples_push_bound dest: land_first_length split: option.splits)
qed (auto simp: timing_bounded_def measures_def on_shred_def on_processed_def on_slot_started_def on_slot_confirmed_def
    on_slot_dead_def timing_forget_def Let_def samples_push_bound foldl_push_bound split: option.splits)

lemma samples_summary_facts:
  assumes "s \<noteq> []"
  shows "\<exists>lo p50 p90 hi. samples_summary s = \<lparr>sm_count = length s, sm_p50 = Some p50, sm_p90 = Some p90, sm_min = Some lo, sm_max = Some hi\<rparr> \<and>
    {lo, p50, p90, hi} \<subseteq> set s \<and> lo \<le> p50 \<and> p50 \<le> p90 \<and> p90 \<le> hi \<and> list_all (\<lambda>x. lo \<le> x \<and> x \<le> hi) s"
proof -
  let ?s = "sort s" and ?n = "length s"
  have n: "0 < ?n" using assms by simp
  have ne: "?s \<noteq> []" using n by (metis length_sort list.size(3) less_irrefl)
  have i: "min a (?n - 1) < ?n" for a using n by (simp add: min_less_iff_disj)
  note i50 = i [of "?n * 50 div 100"] and i90 = i [of "?n * 90 div 100"]
  have le: "min (?n * 50 div 100) (?n - 1) \<le> min (?n * 90 div 100) (?n - 1)"
    by (intro min.mono div_le_mono) auto
  have mono: "i \<le> j \<Longrightarrow> j < ?n \<Longrightarrow> ?s ! i \<le> ?s ! j" for i j by (rule sorted_nth_mono) simp_all
  have mem: "i < ?n \<Longrightarrow> ?s ! i \<in> set s" for i using nth_mem [of i ?s] by simp
  have hi: "last ?s = ?s ! (?n - 1)" using last_conv_nth [OF ne] by simp
  have all: "list_all (\<lambda>x. ?s ! 0 \<le> x \<and> x \<le> ?s ! (?n - 1)) s"
  proof -
    have "\<exists>i<?n. x = ?s ! i" if "x \<in> set s" for x
      using that in_set_conv_nth [of x ?s] by auto
    moreover have "?s ! 0 \<le> ?s ! i \<and> ?s ! i \<le> ?s ! (?n - 1)" if "i < ?n" for i
      using mono [of 0 i] mono [of i "?n - 1"] that by auto
    ultimately show ?thesis by (auto simp: list_all_iff)
  qed
  let ?i = "min (?n * 50 div 100) (?n - 1)" and ?j = "min (?n * 90 div 100) (?n - 1)"
  have top: "?n - 1 < ?n" using n by simp
  have sum: "samples_summary s = \<lparr>sm_count = ?n, sm_p50 = Some (?s ! ?i), sm_p90 = Some (?s ! ?j), sm_min = Some (?s ! 0),
      sm_max = Some (?s ! (?n - 1))\<rparr>"
    unfolding samples_summary_def Let_def list_get_def length_sort hi [symmetric]
    using ne n i50 i90 by (simp only: if_True if_False simp_thms)
  have sub: "{?s ! 0, ?s ! ?i, ?s ! ?j, ?s ! (?n - 1)} \<subseteq> set s"
    using mem [OF n] mem [OF i50] mem [OF i90] mem [OF top] by simp
  have "?s ! 0 \<le> ?s ! ?i" "?s ! ?i \<le> ?s ! ?j" "?s ! ?j \<le> ?s ! (?n - 1)"
    using mono [OF _ i50, of 0] mono [OF le i90] mono [OF _ top, of ?j] by simp_all
  with sum sub all show ?thesis by (intro exI conjI)
qed

subsection \<open>Properties\<close>

definition summary_ok :: "samples \<Rightarrow> bool" where
  "summary_ok s =
     (if s = [] then samples_summary s = \<lparr>sm_count = 0, sm_p50 = None, sm_p90 = None, sm_min = None, sm_max = None\<rparr>
      else \<exists>lo p50 p90 hi. samples_summary s =
          \<lparr>sm_count = length s, sm_p50 = Some p50, sm_p90 = Some p90, sm_min = Some lo, sm_max = Some hi\<rparr> \<and>
        {lo, p50, p90, hi} \<subseteq> set s \<and> lo \<le> p50 \<and> p50 \<le> p90 \<and> p90 \<le> hi \<and> list_all (\<lambda>x. lo \<le> x \<and> x \<le> hi) s)"

lemma summary_ok_all: "summary_ok s"
  using samples_summary_facts [of s] by (simp add: summary_ok_def samples_summary_def list_get_def Let_def)

lemma timing_run_bounded: "timing_bounded t \<Longrightarrow> timing_bounded (foldl timing_step t es)"
  by (induction es arbitrary: t) (simp_all add: timing_step_bounded)

text \<open>
  However long the bot runs, the timing keeps at most 1000 samples of each measure and 50 buys, and
  what it reports of a measure is figures of samples it holds, in order: the least, the median, the
  ninetieth percentile, the greatest.
\<close>

theorem timing_stays_bounded:
  "timing_bounded (foldl timing_step timing_default es) \<and>
     list_all summary_ok (measures (foldl timing_step timing_default es))"
proof -
  have "timing_bounded timing_default"
    by (simp add: timing_bounded_def measures_def timing_default_def)
  then show ?thesis using timing_run_bounded by (simp add: list_all_iff summary_ok_all)
qed

end
