(* ===== verification/Floats.thy ===== *)
theory Floats
  imports Prelude
begin

text \<open>
  The \<open>f64\<close> operations the bot's thresholds use, on IEEE 754 double precision: a finite value is a
  mantissa times a power of two, rounded to 53 bits, half to even. The values that occur are zero or at
  least one, so nothing is subnormal and the least exponent plays no part.
\<close>

datatype f64 = NaN | Infinite bool | Finite bool nat int

fun bit_count :: "nat \<Rightarrow> nat" where
  "bit_count m = (if m = 0 then 0 else Suc (bit_count (m div 2)))"

declare bit_count.simps [simp del]

definition round_53 :: "nat \<Rightarrow> int \<Rightarrow> nat \<times> int" where
  "round_53 m e =
     (let k = bit_count m - 53
      in if k = 0 then (m, e)
         else (let q = m div 2 ^ k; r = m mod 2 ^ k; half = 2 ^ (k - 1)
               in (if r > half \<or> r = half \<and> odd q then q + 1 else q, e + int k)))"

definition f64_make :: "bool \<Rightarrow> nat \<Rightarrow> int \<Rightarrow> f64" where
  "f64_make neg m e =
     (case round_53 m e of (m', e') \<Rightarrow>
       if m' \<noteq> 0 \<and> int (bit_count m') + e' > 1024 then Infinite neg else Finite neg m' e')"

text \<open>\<open>as f64\<close>.\<close>

definition u64_to_f64 :: "u64 \<Rightarrow> f64" where
  "u64_to_f64 n = f64_make False n 0"

fun f64_mul :: "f64 \<Rightarrow> f64 \<Rightarrow> f64" where
  "f64_mul (Finite s m e) (Finite s' m' e') = f64_make (s \<noteq> s') (m * m') (e + e')"
| "f64_mul (Infinite s) (Infinite s') = Infinite (s \<noteq> s')"
| "f64_mul (Infinite s) (Finite s' m e) = (if m = 0 then NaN else Infinite (s \<noteq> s'))"
| "f64_mul (Finite s' m e) (Infinite s) = (if m = 0 then NaN else Infinite (s \<noteq> s'))"
| "f64_mul NaN y = NaN"
| "f64_mul x NaN = NaN"

text \<open>\<open>as u64\<close>: towards zero, saturating, \<open>NaN\<close> to zero.\<close>

fun f64_to_u64 :: "f64 \<Rightarrow> u64" where
  "f64_to_u64 NaN = 0"
| "f64_to_u64 (Infinite neg) = (if neg then 0 else u64_max)"
| "f64_to_u64 (Finite neg m e) =
     (if neg then 0 else min u64_max (if e \<ge> 0 then m * 2 ^ nat e else m div 2 ^ nat (- e)))"

fun f64_is_finite :: "f64 \<Rightarrow> bool" where
  "f64_is_finite (Finite neg m e) = True"
| "f64_is_finite (Infinite neg) = False"
| "f64_is_finite NaN = False"

text \<open>\<open>x < 1.0\<close>.\<close>

fun f64_lt_one :: "f64 \<Rightarrow> bool" where
  "f64_lt_one NaN = False"
| "f64_lt_one (Infinite neg) = neg"
| "f64_lt_one (Finite neg m e) = (neg \<or> m = 0 \<or> e < 0 \<and> m < 2 ^ nat (- e))"

subsection \<open>Lemmas\<close>

lemma bit_count_bounds: "m < 2 ^ bit_count m \<and> (m > 0 \<longrightarrow> 2 ^ (bit_count m - 1) \<le> m)"
proof (induction m rule: bit_count.induct)
  case (1 m)
  show ?case
  proof (cases "m = 0")
    case False
    let ?h = "m div 2"
    have b: "bit_count m = Suc (bit_count ?h)" using False by (subst bit_count.simps) simp
    from 1 [OF False] have "?h < 2 ^ bit_count ?h" and lo: "?h > 0 \<longrightarrow> 2 ^ (bit_count ?h - 1) \<le> ?h" by auto
    then have "m < 2 ^ bit_count m" unfolding b by simp
    moreover have "2 ^ (bit_count m - 1) \<le> m"
    proof (cases "?h = 0")
      case True
      then have "bit_count ?h = 0" by (subst bit_count.simps) simp
      with False b show ?thesis by simp
    next
      case h: False
      then have "bit_count ?h \<noteq> 0" by (subst bit_count.simps) simp
      then have "2 ^ (bit_count m - 1) = 2 * 2 ^ (bit_count ?h - 1)" unfolding b by (cases "bit_count ?h") simp_all
      also have "\<dots> \<le> 2 * ?h" using lo h by simp
      finally show ?thesis by simp
    qed
    ultimately show ?thesis by simp
  qed (simp add: bit_count.simps)
qed

lemma bit_count_le: "m < 2 ^ k \<Longrightarrow> bit_count m \<le> k"
proof (rule ccontr)
  assume m: "m < 2 ^ k" and "\<not> bit_count m \<le> k"
  then have "k \<le> bit_count m - 1" and "m > 0"
    using bit_count_bounds [of m] by (auto simp: bit_count.simps [of 0] intro: Nat.gr0I)
  then have "(2 :: nat) ^ k \<le> 2 ^ (bit_count m - 1)" by (intro power_increasing) auto
  also have "\<dots> \<le> m" using bit_count_bounds [of m] \<open>m > 0\<close> by simp
  finally show False using m by simp
qed

lemma round_53_small: "m < 2 ^ 53 \<Longrightarrow> round_53 m e = (m, e)"
  using bit_count_le [of m 53] by (simp add: round_53_def Let_def)

text \<open>\<open>n\<close> is at most the value of mantissa and exponent.\<close>

definition at_least :: "nat \<Rightarrow> nat \<Rightarrow> int \<Rightarrow> bool" where
  "at_least n m e \<longleftrightarrow> (if e \<ge> 0 then n \<le> m * 2 ^ nat e else n * 2 ^ nat (- e) \<le> m)"

lemma le_div_power: "a * 2 ^ k \<le> m \<Longrightarrow> a \<le> (m :: nat) div 2 ^ k"
  using div_le_mono [of "a * 2 ^ k" m "2 ^ k"] by simp

text \<open>Rounding does not take a value below a whole number that has an exact place.\<close>

lemma round_53_at_least:
  assumes n: "n < 2 ^ 53" and v: "at_least n m e" and r: "round_53 m e = (m', e')"
  shows "at_least n m' e'"
proof (cases "bit_count m - 53 = 0")
  case True
  with r v show ?thesis by (simp add: round_53_def)
next
  case False
  let ?k = "bit_count m - 53"
  let ?q = "m div 2 ^ ?k"
  have q: "?q \<le> m'" and e': "e' = e + int ?k"
    using r False by (auto simp: round_53_def Let_def split: if_splits)
  have "m > 0" using False by (auto simp: bit_count.simps [of 0] intro: Nat.gr0I)
  then have "2 ^ (bit_count m - 1) \<le> m" using bit_count_bounds [of m] by simp
  moreover have "bit_count m - 1 = 52 + ?k" using False by simp
  ultimately have "2 ^ 52 * 2 ^ ?k \<le> m" by (simp only: power_add)
  then have big: "2 ^ 52 \<le> ?q" by (rule le_div_power)
  show ?thesis
  proof (cases "e' > 0")
    case True
    then have "(2 :: nat) ^ 1 \<le> 2 ^ nat e'" by (intro power_increasing) auto
    then have "2 ^ 52 * 2 \<le> m' * 2 ^ nat e'" using le_trans [OF big q] by (intro mult_le_mono) simp_all
    moreover have "n \<le> 2 ^ 52 * 2" using n by simp
    ultimately have "n \<le> m' * 2 ^ nat e'" by (rule le_trans [rotated])
    with True show ?thesis by (simp add: at_least_def)
  next
    case False
    then have e: "e < 0" "nat (- e) = ?k + nat (- e')" using e' \<open>bit_count m - 53 \<noteq> 0\<close> by auto
    then have "n * 2 ^ nat (- e') * 2 ^ ?k \<le> m"
      using v by (simp add: at_least_def power_add mult.commute mult.left_commute)
    then have "n * 2 ^ nat (- e') \<le> ?q" by (rule le_div_power)
    with q False show ?thesis by (auto simp: at_least_def)
  qed
qed

lemma f64_to_u64_at_least:
  "at_least n m e \<Longrightarrow> n \<le> u64_max \<Longrightarrow> n \<le> f64_to_u64 (Finite False m e)"
  by (auto simp: at_least_def intro: le_div_power)

text \<open>A whole number times a factor of at least one, back as a whole number, is no less.\<close>

lemma f64_mul_no_less:
  assumes n: "n < 2 ^ 53" and y: "f64_is_finite y" "\<not> f64_lt_one y"
  shows "n \<le> f64_to_u64 (f64_mul (u64_to_f64 n) y)"
proof -
  obtain m e where ym: "y = Finite False m e" and one: "m \<noteq> 0" "\<not> (e < 0 \<and> m < 2 ^ nat (- e))"
    using y by (cases y) auto
  have "bit_count n \<le> 53" using n by (rule bit_count_le)
  then have nf: "u64_to_f64 n = Finite False n 0"
    using round_53_small [OF n, of 0] by (simp add: u64_to_f64_def f64_make_def)
  have "at_least n (n * m) e"
    using one by (auto simp: at_least_def not_less)
  moreover obtain m' e' where r: "round_53 (n * m) e = (m', e')" by fastforce
  ultimately have "at_least n m' e'" using round_53_at_least [OF n] by blast
  moreover have small: "n \<le> u64_max" using n by (simp add: u64_max_def)
  ultimately show ?thesis
    using f64_to_u64_at_least [of n m' e'] by (simp add: nf ym f64_make_def r)
qed

end
