(* ===== verification/Bot_State.thy ===== *)
theory Bot_State
  imports Timing Floats
begin

text \<open>
  \<open>state.rs\<close> of the pump.fun bot: its configuration and when it is refused, positions, and the state
  every task shares behind one lock, with the operations that take it from one consistent state to the
  next. Times of day are nanoseconds (\<open>int\<close>); what goes to Redis and Discord is not modelled, except what
  a start takes up again.
\<close>

definition trade_log_cap :: nat where "trade_log_cap = 10000"
definition seen_pools_cap :: nat where "seen_pools_cap = 50000"
definition max_sell_failures :: u32 where "max_sell_failures = 5"
definition max_sell_attempts :: u32 where "max_sell_attempts = 20"
definition max_sell_retry_secs :: i64 where "max_sell_retry_secs = 60"
definition pending_sell_recheck_secs :: i64 where "pending_sell_recheck_secs = 2"

lemmas sell_limits = max_sell_failures_def max_sell_attempts_def max_sell_retry_secs_def pending_sell_recheck_secs_def

subsection \<open>Configuration\<close>

record trade_config =
  cf_buy_amount_lamports :: u64
  cf_sell_multiplier :: f64
  cf_slippage_bps :: u64
  cf_max_positions :: nat
  cf_min_pool_sol_lamports :: u64
  cf_sell_timeout_secs :: u64
  cf_exit_pool_sol_lamports :: u64
  cf_auto_loop :: bool
  cf_warmup_secs :: u64
  cf_creator_window_secs :: u64
  cf_creator_max_pools :: nat
  cf_banned_creators :: "string list"
  cf_graduated_only :: bool
  cf_buy_on_shreds :: bool
  cf_priority_fee_micro_lamports :: u64
  cf_compute_unit_limit :: u32

definition default_compute_unit_limit :: u32 where "default_compute_unit_limit = 200000"
definition default_warmup_secs :: u64 where "default_warmup_secs = 300"
definition default_creator_window_secs :: u64 where "default_creator_window_secs = 600"
definition default_creator_max_pools :: nat where "default_creator_max_pools = 2"

text \<open>The literal \<open>1.1\<close>.\<close>

definition f64_1_1 :: f64 where "f64_1_1 = Finite False 4953959590107546 (- 52)"

definition trade_config_default :: trade_config where
  "trade_config_default =
     \<lparr>cf_buy_amount_lamports = 100000, cf_sell_multiplier = f64_1_1, cf_slippage_bps = 500, cf_max_positions = 1,
      cf_min_pool_sol_lamports = 1000000000, cf_sell_timeout_secs = 300, cf_exit_pool_sol_lamports = 1000000,
      cf_auto_loop = False, cf_warmup_secs = default_warmup_secs, cf_creator_window_secs = default_creator_window_secs,
      cf_creator_max_pools = default_creator_max_pools, cf_banned_creators = [], cf_graduated_only = False,
      cf_buy_on_shreds = False, cf_priority_fee_micro_lamports = 0, cf_compute_unit_limit = default_compute_unit_limit\<rparr>"

definition div_ceil :: "nat \<Rightarrow> nat \<Rightarrow> nat" where
  "div_ceil a b = (a + b - 1) div b"

definition priority_fee_lamports :: "trade_config \<Rightarrow> u64" where
  "priority_fee_lamports c =
     min u64_max (div_ceil (cf_priority_fee_micro_lamports c * cf_compute_unit_limit c) 1000000)"

text \<open>\<open>parse\<close> is an address read from its text, as the Solana crate reads it.\<close>

definition validate :: "(string \<Rightarrow> pubkey option) \<Rightarrow> trade_config \<Rightarrow> string + unit" where
  "validate parse c =
     (if cf_buy_amount_lamports c = 0 then Err ''buy_amount_lamports must be above 0''
      else if \<not> f64_is_finite (cf_sell_multiplier c) \<or> f64_lt_one (cf_sell_multiplier c) then
        Err ''sell_multiplier must be 1.0 or more''
      else if cf_slippage_bps c > 5000 then Err ''slippage_bps must be 5000 (50%) or less''
      else if cf_max_positions c = 0 then Err ''max_positions must be 1 or more''
      else if cf_creator_max_pools c = 0 then Err ''creator_max_pools must be 1 or more''
      else
        (case List.find (\<lambda>b. parse b = None) (cf_banned_creators c) of
           Some bad \<Rightarrow> Err (''banned_creators: '' @ bad @ '' is not an address'')
         | None \<Rightarrow>
            (if \<not> (1 \<le> cf_compute_unit_limit c \<and> cf_compute_unit_limit c \<le> 1400000) then
               Err ''compute_unit_limit must be between 1 and 1400000''
             else if priority_fee_lamports c > cf_buy_amount_lamports c then
               Err ''the priority fee (priority_fee_micro_lamports x compute_unit_limit / 1000000 lamports) must not be above buy_amount_lamports''
             else if cf_min_pool_sol_lamports c \<le> cf_exit_pool_sol_lamports c then
               Err ''min_pool_sol_lamports must be above exit_pool_sol_lamports, or a pool is sold as soon as it is bought''
             else Ok ())))"

subsection \<open>Positions\<close>

datatype position_status = Active | Selling | Sold | Closed | Failed

record pending_sell =
  ps_signature :: signature
  ps_last_valid_block_height :: u64
  ps_min_out :: u64

type_synonym utc = int

record position =
  pos_id :: string
  pos_pool :: pubkey
  pos_base_mint :: pubkey
  pos_buy_price_lamports :: u64
  pos_base_amount :: u64
  pos_bought_at :: utc
  pos_status :: position_status
  pos_total_sell_lamports :: u64
  pos_quote_token_program :: pubkey
  pos_sell_failures :: u32
  pos_sell_attempts :: u32
  pos_draining :: bool
  pos_closing :: bool
  pos_pending_sell :: "pending_sell option"
  pos_close_sent :: bool
  pos_amount_known :: bool
  pos_next_sell_at :: "utc option"
  pos_restored :: bool
  pos_side :: side

definition position_opened ::
  "string \<Rightarrow> utc \<Rightarrow> pubkey \<Rightarrow> pubkey \<Rightarrow> u64 \<Rightarrow> u64 \<Rightarrow> pubkey \<Rightarrow> side \<Rightarrow> position" where
  "position_opened i now pool mint price amount program sd =
     \<lparr>pos_id = i, pos_pool = pool, pos_base_mint = mint, pos_buy_price_lamports = price, pos_base_amount = amount,
      pos_bought_at = now, pos_status = Active, pos_total_sell_lamports = 0, pos_quote_token_program = program,
      pos_sell_failures = 0, pos_sell_attempts = 0, pos_draining = False, pos_closing = False, pos_pending_sell = None,
      pos_close_sent = False, pos_amount_known = True, pos_next_sell_at = None, pos_restored = False, pos_side = sd\<rparr>"

subsection \<open>What is logged\<close>

text \<open>
  The reasons and messages the trade log holds, one constructor for each with the values its text
  shows; the texts are \<open>i18n.rs\<close>'s, in five languages, and formatted floats.
\<close>

datatype exit_reason = TimeoutAndLowLiquidity u64 u64 | TimedOut u64 | LowLiquidity u64

datatype burn_reason = ForcedOut exit_reason | NoMoreThanItsFee u64

datatype pending_outcome = Landed | FailedOnChain | InFlight | Expired | UnknownOutcome

datatype holding = HoldingHeld u64 | HoldingGone | HoldingUnknown

datatype mint_block =
    NotATokenProgram pubkey
  | NotAMint
  | FreezeAuthority
  | NotMintData
  | TransferExtension nat
  | ExtensionsUnreadable

datatype market_error =
    NotWsolTokenPool
  | FetchPoolFailed
  | DeserializePoolFailed
  | NotAsCreated
  | FetchVaultFailed
  | FetchMintFailed
  | SkippedNotTradable string
  | SkippedMint mint_block

datatype log_text =
    GaveUpSelling string nat nat
  | SellFailedOnChain signature
  | SellSendFailed string
  | RetreatBurn burn_reason
  | CycleComplete
  | PositionRestored u64 u64
  | PoolQualified u64
  | InsufficientBalance u64 u64
  | BlockhashFailed
  | MarketUnread market_error
  | AmmMathFailed
  | BuildBuyFailed
  | BuyRefused
  | BuyFailedOnChain signature
  | BuyNotTracked signature pending_outcome holding

datatype trade_action = ActionBuy | ActionSell | ActionError | ActionNotification

text \<open>The amount of SOL is kept in lamports, which the code divides by \<open>1e9\<close>.\<close>

record trade_log =
  lg_action :: trade_action
  lg_pool :: pubkey
  lg_base_mint :: pubkey
  lg_lamports :: u64
  lg_tokens :: u64
  lg_signature :: "signature option"
  lg_error :: "log_text option"
  lg_message :: "log_text option"

definition log_now :: "trade_action \<Rightarrow> pubkey \<Rightarrow> pubkey \<Rightarrow> trade_log" where
  "log_now act pool mint = \<lparr>lg_action = act, lg_pool = pool, lg_base_mint = mint, lg_lamports = 0, lg_tokens = 0,
     lg_signature = None, lg_error = None, lg_message = None\<rparr>"

definition log_buy :: "pubkey \<Rightarrow> pubkey \<Rightarrow> u64 \<Rightarrow> u64 \<Rightarrow> signature \<Rightarrow> trade_log" where
  "log_buy pool mint lamports tokens sig =
     (log_now ActionBuy pool mint)\<lparr>lg_lamports := lamports, lg_tokens := tokens, lg_signature := Some sig\<rparr>"

definition log_sell :: "pubkey \<Rightarrow> pubkey \<Rightarrow> u64 \<Rightarrow> u64 \<Rightarrow> signature \<Rightarrow> trade_log" where
  "log_sell pool mint lamports tokens sig =
     (log_now ActionSell pool mint)\<lparr>lg_lamports := lamports, lg_tokens := tokens, lg_signature := Some sig\<rparr>"

definition log_error :: "pubkey \<Rightarrow> pubkey \<Rightarrow> u64 \<Rightarrow> u64 \<Rightarrow> signature option \<Rightarrow> log_text \<Rightarrow> trade_log" where
  "log_error pool mint lamports tokens sig error =
     (log_now ActionError pool mint)\<lparr>lg_lamports := lamports, lg_tokens := tokens, lg_signature := sig, lg_error := Some error\<rparr>"

definition log_note :: "pubkey \<Rightarrow> pubkey \<Rightarrow> u64 \<Rightarrow> log_text \<Rightarrow> trade_log" where
  "log_note pool mint tokens message =
     (log_now ActionNotification pool mint)\<lparr>lg_tokens := tokens, lg_message := Some message\<rparr>"

subsection \<open>The shared state\<close>

record app =
  st_config :: trade_config
  st_running :: bool
  st_grpc_streaming :: bool
  st_wallet :: "pubkey option"
  st_positions :: "(string, position) hash_map"
  st_trade_logs :: "trade_log list"
  st_watch_address :: pubkey
  st_sell_only :: bool
  st_pending_buys :: "(pubkey, pubkey) hash_map"
  st_seen_pools :: "pubkey list"
  st_creators :: creator_watch
  st_started :: instant
  st_timing :: timing

definition app_new :: "chain \<Rightarrow> instant \<Rightarrow> app" where
  "app_new ch started =
     \<lparr>st_config = trade_config_default, st_running = False, st_grpc_streaming = True, st_wallet = None,
      st_positions = [], st_trade_logs = [],
      st_watch_address = from_str_const ch ''pAMMBay6oceH9fJKBRHGP5D4bD4sWpmSwMn52FMfXEA'',
      st_sell_only = False, st_pending_buys = [], st_seen_pools = [], st_creators = creator_watch_default,
      st_started = started, st_timing = timing_default\<rparr>"

definition is_open :: "position \<Rightarrow> bool" where
  "is_open p = (pos_status p = Active \<or> pos_status p = Selling)"

definition active_position_count :: "app \<Rightarrow> nat" where
  "active_position_count s = hm_count is_open (st_positions s)"

definition reserve_buy :: "pubkey \<Rightarrow> pubkey \<Rightarrow> app \<Rightarrow> (string + unit) \<times> app" where
  "reserve_buy pool mint s =
     (if pool \<in> set (st_seen_pools s) then (Err ''considered already'', s)
      else if list_ex (\<lambda>p. pos_base_mint p = mint \<and> pos_status p \<noteq> Closed) (hm_values (st_positions s)) then
        (Err ''a position in this token is not closed'', s)
      else if list_ex (\<lambda>m. m = mint) (hm_values (st_pending_buys s)) then
        (Err ''this token is being bought through another pool'', s)
      else if active_position_count s + length (st_pending_buys s) \<ge> cf_max_positions (st_config s) then
        (Err ''max positions open or being bought'', s)
      else
        (let seen = (if length (st_seen_pools s) \<ge> seen_pools_cap then [] else st_seen_pools s)
         in (Ok (), s\<lparr>st_seen_pools := pool # seen, st_pending_buys := hm_insert pool mint (st_pending_buys s)\<rparr>)))"

definition release_buy :: "pubkey \<Rightarrow> app \<Rightarrow> app" where
  "release_buy pool s = s\<lparr>st_pending_buys := hm_remove pool (st_pending_buys s)\<rparr>"

definition may_sell :: "app \<Rightarrow> position \<Rightarrow> utc \<Rightarrow> bool" where
  "may_sell s p now =
     (pos_status p = Active \<and> (case pos_next_sell_at p of None \<Rightarrow> True | Some at \<Rightarrow> now \<ge> at) \<and>
      (\<not> pos_restored p \<or> st_running s))"

definition set_position :: "string \<Rightarrow> (position \<Rightarrow> position) \<Rightarrow> app \<Rightarrow> app" where
  "set_position i f s = s\<lparr>st_positions := hm_modify i f (st_positions s)\<rparr>"

definition claim_for_sell :: "string \<Rightarrow> utc \<Rightarrow> app \<Rightarrow> position option \<times> app" where
  "claim_for_sell i now s =
     (case hm_get (st_positions s) i of
        None \<Rightarrow> (None, s)
      | Some p \<Rightarrow>
         (if \<not> may_sell s p now then (None, s)
          else (Some (p\<lparr>pos_status := Selling\<rparr>), set_position i (\<lambda>p. p\<lparr>pos_status := Selling\<rparr>) s)))"

definition pool_has_open_position :: "pubkey \<Rightarrow> app \<Rightarrow> bool" where
  "pool_has_open_position pool s = list_ex (\<lambda>p. pos_pool p = pool \<and> is_open p) (hm_values (st_positions s))"

definition secs :: "i64 \<Rightarrow> int" where "secs n = n * 1000000000"

definition sell_wait :: "u32 \<Rightarrow> i64" where
  "sell_wait attempts = min (2 ^ min attempts 6) max_sell_retry_secs"

definition counted_failure :: "bool \<Rightarrow> position \<Rightarrow> position" where
  "counted_failure paid p =
     p\<lparr>pos_sell_attempts := u32_add (pos_sell_attempts p) 1,
       pos_sell_failures := (if paid then u32_add (pos_sell_failures p) 1 else pos_sell_failures p)\<rparr>"

definition given_up :: "position \<Rightarrow> bool" where
  "given_up p = (pos_sell_failures p \<ge> max_sell_failures \<or> pos_sell_attempts p \<ge> max_sell_attempts)"

definition after_failure :: "utc \<Rightarrow> bool \<Rightarrow> position \<Rightarrow> position" where
  "after_failure now paid p =
     (let p1 = counted_failure paid p
      in if given_up p1 then p1\<lparr>pos_status := Failed\<rparr>
         else p1\<lparr>pos_next_sell_at := Some (now + secs (sell_wait (pos_sell_attempts p1))), pos_status := Active\<rparr>)"

definition sell_failed :: "string \<Rightarrow> utc \<Rightarrow> bool \<Rightarrow> app \<Rightarrow> bool \<times> app" where
  "sell_failed i now paid s =
     (case hm_get (st_positions s) i of
        None \<Rightarrow> (False, s)
      | Some p \<Rightarrow> (given_up (counted_failure paid p), set_position i (after_failure now paid) s))"

definition wait_for_pending :: "string \<Rightarrow> utc \<Rightarrow> app \<Rightarrow> app" where
  "wait_for_pending i now s =
     set_position i (\<lambda>p. p\<lparr>pos_next_sell_at := Some (now + secs pending_sell_recheck_secs), pos_status := Active\<rparr>) s"

definition record_holding :: "string \<Rightarrow> u64 \<Rightarrow> app \<Rightarrow> app" where
  "record_holding i held s = set_position i (\<lambda>p. p\<lparr>pos_base_amount := held, pos_amount_known := True\<rparr>) s"

definition hold :: "string \<Rightarrow> app \<Rightarrow> app" where
  "hold i s = set_position i (\<lambda>p. p\<lparr>pos_status := Active, pos_closing := False\<rparr>) s"

definition sell_succeeded :: "string \<Rightarrow> app \<Rightarrow> app" where
  "sell_succeeded i s =
     set_position i (\<lambda>p. p\<lparr>pos_sell_failures := 0, pos_sell_attempts := 0, pos_next_sell_at := None\<rparr>) s"

definition push_log :: "trade_log \<Rightarrow> app \<Rightarrow> app" where
  "push_log lg s =
     s\<lparr>st_trade_logs := (if length (st_trade_logs s) \<ge> trade_log_cap then tl (st_trade_logs s) else st_trade_logs s) @ [lg]\<rparr>"

text \<open>\<open>record\<close>, whose copy in Redis outlasts a restart.\<close>

definition record_log :: "trade_log \<Rightarrow> app \<Rightarrow> app" where
  "record_log lg s = push_log lg s"

definition push_notification :: "pubkey \<Rightarrow> pubkey \<Rightarrow> log_text \<Rightarrow> app \<Rightarrow> app" where
  "push_notification pool mint message s = push_log (log_note pool mint 0 message) s"

datatype trading = TradingRunning | TradingSellOnly | TradingStopped

fun trading_as_str :: "trading \<Rightarrow> string" where
  "trading_as_str TradingRunning = ''running''"
| "trading_as_str TradingSellOnly = ''sell_only''"
| "trading_as_str TradingStopped = ''stopped''"

definition trading_of_str :: "string \<Rightarrow> trading option" where
  "trading_of_str v =
     (if v = ''running'' then Some TradingRunning
      else if v = ''sell_only'' then Some TradingSellOnly
      else if v = ''stopped'' then Some TradingStopped
      else None)"

text \<open>\<open>persist_trading\<close>: the value it saves.\<close>

definition persisted_trading :: "app \<Rightarrow> trading" where
  "persisted_trading s =
     (if \<not> st_running s then TradingStopped else if st_sell_only s then TradingSellOnly else TradingRunning)"

text \<open>\<open>take_up_saved\<close>, with what Redis answers, if there is one: the bans, those traced, the trading state.\<close>

definition take_up_saved ::
  "(string \<Rightarrow> pubkey option) \<Rightarrow> ((pubkey \<times> ban_reason) list \<times> pubkey list \<times> trading option) option \<Rightarrow> app \<Rightarrow> bool \<times> app" where
  "take_up_saved parse loaded s =
     (let (resumed, s1) =
        (case loaded of
           None \<Rightarrow> (False, s)
         | Some (bans, traced, wanted) \<Rightarrow>
            (let w1 = foldl (\<lambda>w (c, r). snd (ban c r w)) (st_creators s) bans;
                 w2 = foldl (\<lambda>w c. mark_traced c w) w1 traced;
                 s2 = s\<lparr>st_creators := w2\<rparr>
             in case wanted of
                  None \<Rightarrow> (False, s2)
                | Some t \<Rightarrow> (t \<noteq> TradingStopped, s2\<lparr>st_running := (t \<noteq> TradingStopped), st_sell_only := (t = TradingSellOnly)\<rparr>)));
          listed = List.map_filter parse (cf_banned_creators (st_config s1))
      in (resumed, s1\<lparr>st_creators := foldl (\<lambda>w c. snd (ban c ListedInConfig w)) (st_creators s1) listed\<rparr>))"

end
