(* ===== verification/Engine.thy ===== *)
theory Engine
  imports Bot_State
begin

text \<open>
  The decisions of \<open>engine.rs\<close>: when tokens are worth selling and for how much, when a position is forced
  out, what a claimed position does, whether a close goes ahead, what a mint's extensions allow, and
  what the RPC's answers say of a transaction sent before. Reasons are constructors with the values the
  messages show.
\<close>

definition fee_recipient_count :: nat where "fee_recipient_count = 8"
definition tx_fee_reserve :: u64 where "tx_fee_reserve = 10000000"
definition pool_fetch_retries :: nat where "pool_fetch_retries = 10"
definition tx_fee_lamports :: u64 where "tx_fee_lamports = 5000"
definition round_trip_tx_fees :: u64 where "round_trip_tx_fees = 3 * tx_fee_lamports"

lemmas fee_consts = tx_fee_lamports_def round_trip_tx_fees_def

subsection \<open>Taking profit\<close>

text \<open>The \<open>+\<close> of a release build wraps.\<close>

definition take_profit_target :: "u64 \<Rightarrow> f64 \<Rightarrow> u32 \<Rightarrow> u64" where
  "take_profit_target price multiplier failed_sells =
     u64_add (u64_add (f64_to_u64 (f64_mul (u64_to_f64 price) multiplier)) round_trip_tx_fees)
       (u64_mul failed_sells tx_fee_lamports)"

definition take_profit_reached :: "chain \<Rightarrow> u64 \<Rightarrow> u64 \<Rightarrow> u64 \<Rightarrow> f64 \<Rightarrow> u32 \<Rightarrow> bool" where
  "take_profit_reached ch value bps price multiplier failed_sells =
     (unwrap_or 0 (with_slippage_min ch value bps) \<ge> take_profit_target price multiplier failed_sells)"

definition worth_selling :: "u64 \<Rightarrow> bool" where
  "worth_selling min_out = (min_out > tx_fee_lamports)"

subsection \<open>Tokens that can be kept from being sold\<close>

definition allowed_mint_extensions :: "nat list" where
  "allowed_mint_extensions = [18, 19, 20, 21, 22, 23]"

definition mint_len :: nat where "mint_len = 82"
definition freeze_authority_at :: nat where "freeze_authority_at = 46"
definition extensions_at :: nat where "extensions_at = 166"

lemmas mint_consts = mint_len_def freeze_authority_at_def extensions_at_def

function extensions_block :: "bytes \<Rightarrow> nat \<Rightarrow> mint_block option" where
  "extensions_block data at =
     (if at + 4 \<le> length data then
        (let ty = le_nat (slice data at 2); len = le_nat (slice data (at + 2) 2)
         in if ty = 0 then None
            else if ty \<notin> set allowed_mint_extensions then Some (TransferExtension ty)
            else if at + 4 + len > length data then Some ExtensionsUnreadable
            else extensions_block data (at + 4 + len))
      else None)"
  by auto
termination by (relation "measure (\<lambda>(data, at). length data - at)") (auto simp: Let_def)

declare extensions_block.simps [simp del]

definition mint_blocks_selling :: "chain \<Rightarrow> bytes \<Rightarrow> pubkey \<Rightarrow> mint_block option" where
  "mint_blocks_selling ch data owner =
     (if owner \<noteq> token_program ch \<and> owner \<noteq> token_2022_program ch then Some (NotATokenProgram owner)
      else if length data < mint_len then Some NotAMint
      else if slice data freeze_authority_at 4 \<noteq> [0, 0, 0, 0] then Some FreezeAuthority
      else if length data = mint_len then None
      else if owner \<noteq> token_2022_program ch \<or> length data < extensions_at then Some NotMintData
      else extensions_block data extensions_at)"

subsection \<open>Forced exits and claims\<close>

definition forced_exit_reason :: "u64 \<Rightarrow> u64 \<Rightarrow> u64 \<Rightarrow> u64 \<Rightarrow> exit_reason option" where
  "forced_exit_reason elapsed timeout sol_reserves exit_sol =
     (case (timeout > 0 \<and> elapsed \<ge> timeout, exit_sol > 0 \<and> sol_reserves \<le> exit_sol) of
        (True, True) \<Rightarrow> Some (TimeoutAndLowLiquidity elapsed sol_reserves)
      | (True, False) \<Rightarrow> Some (TimedOut elapsed)
      | (False, True) \<Rightarrow> Some (LowLiquidity sol_reserves)
      | (False, False) \<Rightarrow> None)"

definition claimed_on_every_check :: "position \<Rightarrow> bool" where
  "claimed_on_every_check p =
     (pos_pending_sell p \<noteq> None \<or> pos_draining p \<or> \<not> pos_amount_known p \<or> pos_closing p)"

text \<open>\<open>(now - bought_at).num_seconds().max(0) as u64\<close>.\<close>

definition elapsed_secs :: "utc \<Rightarrow> position \<Rightarrow> u64" where
  "elapsed_secs now p = nat (now - pos_bought_at p) div 1000000000"

subsection \<open>What a claimed position does\<close>

datatype plan =
    PlanSell u64
  | PlanBurn burn_reason
  | PlanCloseSoldOut
  | PlanHold
  | PlanRetry string

definition plan_sell ::
  "chain \<Rightarrow> position \<Rightarrow> holding \<Rightarrow> exit_reason option \<Rightarrow> u64 \<Rightarrow> u64 \<Rightarrow> u64 \<Rightarrow> f64 \<Rightarrow> plan" where
  "plan_sell ch p h forced sol_reserves token_reserves bps multiplier =
     (case h of
        HoldingGone \<Rightarrow>
          (if pos_close_sent p then PlanCloseSoldOut
           else PlanRetry ''its token account is not found, and no close of ours was sent'')
      | HoldingUnknown \<Rightarrow> PlanRetry ''its token balance could not be read''
      | HoldingHeld held \<Rightarrow>
          (if held = 0 then PlanCloseSoldOut
           else
             (case (case base_out_for_exact_quote_in ch sol_reserves token_reserves held (default_fee_bps ch) of
                  Inr v \<Rightarrow> Some v
                | Inl ZeroLiquidity \<Rightarrow> Some 0
                | Inl _ \<Rightarrow> None) of
                None \<Rightarrow> PlanRetry ''the AMM math failed''
              | Some expected \<Rightarrow>
                 (let min_out = unwrap_or 0 (with_slippage_min ch expected bps)
                  in if \<not> pos_draining p \<and> forced = None \<and>
                        \<not> take_profit_reached ch expected bps (pos_buy_price_lamports p) multiplier (pos_sell_failures p)
                     then PlanHold
                     else if \<not> worth_selling min_out then
                       PlanBurn (case forced of Some f \<Rightarrow> ForcedOut f | None \<Rightarrow> NoMoreThanItsFee min_out)
                     else PlanSell min_out))))"

datatype close_start = CloseProceed | CloseAlreadyClosed | CloseNotNow string

definition close_start_of :: "u64 option \<Rightarrow> u64 \<Rightarrow> bool \<Rightarrow> close_start" where
  "close_start_of found amount close_sent =
     (case found of
        None \<Rightarrow> (if close_sent then CloseAlreadyClosed else CloseNotNow ''not found, and no close of ours was sent'')
      | Some held \<Rightarrow>
          (if held = amount then CloseProceed else CloseNotNow ''it holds other than what was decided''))"

subsection \<open>What became of a transaction\<close>

definition pending_after_unseen :: "u64 \<Rightarrow> u64 \<Rightarrow> pending_outcome" where
  "pending_after_unseen height last_valid = (if height > last_valid then Expired else InFlight)"

text \<open>
  The RPC's two answers, in the order they are asked: the block height, then the signature's status:
  \<open>None\<close> is an error, \<open>Some None\<close> a signature not seen, else whether it is confirmed and whether it failed.
\<close>

definition resolve_pending :: "u64 option \<Rightarrow> (bool \<times> bool) option option \<Rightarrow> u64 \<Rightarrow> pending_outcome" where
  "resolve_pending height status last_valid =
     (case height of
        None \<Rightarrow> UnknownOutcome
      | Some h \<Rightarrow>
         (case status of
            None \<Rightarrow> UnknownOutcome
          | Some (Some (confirmed, failed)) \<Rightarrow>
              (if confirmed then (if failed then FailedOnChain else Landed) else InFlight)
          | Some None \<Rightarrow> pending_after_unseen h last_valid))"

definition settle_buy_limit_secs :: u64 where "settle_buy_limit_secs = 180"

text \<open>The n-th poll's outcome, and the time since the first, in milliseconds, at which it comes.\<close>

fun settle_buy :: "nat \<Rightarrow> (nat \<Rightarrow> pending_outcome) \<Rightarrow> (nat \<Rightarrow> nat) \<Rightarrow> nat \<Rightarrow> pending_outcome option" where
  "settle_buy 0 poll elapsed n = None"
| "settle_buy (Suc fuel) poll elapsed n =
     (let o1 = poll n
      in if (o1 = InFlight \<or> o1 = UnknownOutcome) \<and> elapsed n < 1000 * settle_buy_limit_secs then
           settle_buy fuel poll elapsed (Suc n)
         else if o1 = InFlight then Some UnknownOutcome
         else Some o1)"

subsection \<open>The compute budget, and the end of a cycle\<close>

definition compute_budget_program :: "chain \<Rightarrow> pubkey" where
  "compute_budget_program ch = from_str_const ch ''ComputeBudget111111111111111111111111111111''"

definition compute_budget :: "chain \<Rightarrow> u64 \<Rightarrow> u32 \<Rightarrow> instruction list" where
  "compute_budget ch micro_lamports limit =
     (if micro_lamports = 0 then []
      else map (\<lambda>d. \<lparr>ix_program_id = compute_budget_program ch, ix_accounts = [], ix_data = d\<rparr>)
        [2 # le_bytes 4 limit, 3 # le_bytes 8 micro_lamports])"

definition maybe_auto_stop_after_cycle :: "app \<Rightarrow> app" where
  "maybe_auto_stop_after_cycle s =
     (if \<not> st_running s \<or> cf_auto_loop (st_config s) then s
      else if active_position_count s \<noteq> 0 then s
      else push_notification default_key default_key CycleComplete (s\<lparr>st_running := False\<rparr>))"

end
