(* ===== verification/Sell_Cycle.thy ===== *)
theory Sell_Cycle
  imports Engine
begin

text \<open>
  Selling, as \<open>check_and_sell_positions\<close> of \<open>engine.rs\<close> does it: each function that changes the shared
  state as one definition, and the tasks that run it side by side as a step relation whose program
  counters are the code's waits for the RPC. The monitor of a pool and every swap on it start such a
  task, so any number run at once.
\<close>

subsection \<open>What the RPC answers\<close>

datatype send_answer = SendOk | RefusedBySimulation | SendError
datatype confirm_answer = ConfirmedOk | ConfirmedFailed | NotConfirmed
datatype balance_answer = BalanceIs u64 | BalanceUnparsable | BalanceNotFound | BalanceError

definition read_holding :: "balance_answer \<Rightarrow> holding" where
  "read_holding b =
     (case b of
        BalanceIs n \<Rightarrow> HoldingHeld n
      | BalanceUnparsable \<Rightarrow> HoldingUnknown
      | BalanceNotFound \<Rightarrow> HoldingGone
      | BalanceError \<Rightarrow> HoldingUnknown)"

subsection \<open>Recording what happened\<close>

definition push_error_log :: "pubkey \<Rightarrow> pubkey \<Rightarrow> u64 \<Rightarrow> log_text \<Rightarrow> app \<Rightarrow> app" where
  "push_error_log pool mint lamports msg s = push_log (log_error pool mint lamports 0 None msg) s"

definition gave_up_message :: "string \<Rightarrow> app \<Rightarrow> log_text" where
  "gave_up_message i s =
     (let (failed, tries) = (case hm_get (st_positions s) i of None \<Rightarrow> (0, 0) | Some p \<Rightarrow> (pos_sell_failures p, pos_sell_attempts p))
      in GaveUpSelling i tries failed)"

definition record_sell_failure :: "string \<Rightarrow> position \<Rightarrow> utc \<Rightarrow> bool \<Rightarrow> app \<Rightarrow> app" where
  "record_sell_failure i p now paid s =
     (case sell_failed i now paid s of
        (gave_up, s1) \<Rightarrow>
          (if gave_up then
             (let s2 = s1\<lparr>st_sell_only := True\<rparr>
              in maybe_auto_stop_after_cycle
                   (push_error_log (pos_pool p) (pos_base_mint p) 0 (gave_up_message i s2) s2))
           else s1))"

definition set_pending_sell :: "string \<Rightarrow> pending_sell option \<Rightarrow> app \<Rightarrow> app" where
  "set_pending_sell i pending s = set_position i (\<lambda>p. p\<lparr>pos_pending_sell := pending\<rparr>) s"

text \<open>\<open>change\<close> is the payer's change of lamports in the transaction, when it can be read.\<close>

definition proceeds :: "int option \<Rightarrow> pending_sell \<Rightarrow> u64" where
  "proceeds change pending = (case change of Some d \<Rightarrow> (if d > 0 then nat d else ps_min_out pending) | None \<Rightarrow> ps_min_out pending)"

definition record_sell_proceeds :: "string \<Rightarrow> position \<Rightarrow> pending_sell \<Rightarrow> int option \<Rightarrow> app \<Rightarrow> app" where
  "record_sell_proceeds i p pending change s =
     (let actual = proceeds change pending;
          s1 = set_position i (\<lambda>q. q\<lparr>pos_total_sell_lamports := u64_add (pos_total_sell_lamports q) actual,
                 pos_pending_sell := None, pos_draining := True\<rparr>) s
      in record_log (log_sell (pos_pool p) (pos_base_mint p) actual (pos_base_amount p) (ps_signature pending))
           (sell_succeeded i s1))"

definition report_sell_error :: "position \<Rightarrow> signature option \<Rightarrow> log_text \<Rightarrow> app \<Rightarrow> app" where
  "report_sell_error p sig msg s = push_log (log_error (pos_pool p) (pos_base_mint p) 0 (pos_base_amount p) sig msg) s"

subsection \<open>Closing\<close>

datatype close_how = CloseSold "signature option" | CloseBurn burn_reason

datatype close_outcome = CloseDone "signature option" | CloseFailed (close_paid: bool) (close_went_out: bool)

text \<open>The instructions sent, if any were, and the outcome.\<close>

definition burn_and_close_ata ::
  "chain \<Rightarrow> pubkey \<Rightarrow> pubkey \<Rightarrow> pubkey \<Rightarrow> u64 \<Rightarrow> bool \<Rightarrow> balance_answer \<Rightarrow> signature option \<Rightarrow> send_answer \<Rightarrow> confirm_answer \<Rightarrow>
     instruction list option \<times> close_outcome" where
  "burn_and_close_ata ch user mint program amount close_sent bal sg sent confirmed =
     (case (case bal of
          BalanceIs n \<Rightarrow> Some (Some n)
        | BalanceNotFound \<Rightarrow> Some None
        | BalanceUnparsable \<Rightarrow> None
        | BalanceError \<Rightarrow> None) of
        None \<Rightarrow> (None, CloseFailed False False)
      | Some found \<Rightarrow>
         (case close_start_of found amount close_sent of
            CloseAlreadyClosed \<Rightarrow> (None, CloseDone None)
          | CloseNotNow why \<Rightarrow> (None, CloseFailed False False)
          | CloseProceed \<Rightarrow>
             (let ixs = (if amount > 0 then [burn ch user mint program amount] else []) @ [close_account ch user mint program]
              in case sg of
                   None \<Rightarrow> (None, CloseFailed False False)
                 | Some sig \<Rightarrow>
                    (Some ixs,
                     (case sent of
                        SendOk \<Rightarrow>
                          (case confirmed of
                             ConfirmedOk \<Rightarrow> CloseDone (Some sig)
                           | ConfirmedFailed \<Rightarrow> CloseFailed True False
                           | NotConfirmed \<Rightarrow> CloseFailed False True)
                      | RefusedBySimulation \<Rightarrow> CloseFailed False False
                      | SendError \<Rightarrow> CloseFailed False True)))))"

definition close_amount :: "position \<Rightarrow> close_how \<Rightarrow> u64" where
  "close_amount p how = (case how of CloseSold sig \<Rightarrow> 0 | CloseBurn r \<Rightarrow> pos_base_amount p)"

definition close_position_after :: "string \<Rightarrow> position \<Rightarrow> close_how \<Rightarrow> close_outcome \<Rightarrow> utc \<Rightarrow> app \<Rightarrow> app" where
  "close_position_after i p how out now s =
     (case out of
        CloseFailed paid sent \<Rightarrow>
          record_sell_failure i p now paid
            (set_position i (\<lambda>q. q\<lparr>pos_closing := True, pos_close_sent := (pos_close_sent q \<or> sent)\<rparr>) s)
      | CloseDone sig \<Rightarrow>
          (let s1 = set_position i (\<lambda>q. q\<lparr>pos_status := Closed\<rparr>) s;
               s2 = (case how of
                   CloseBurn r \<Rightarrow> record_log (log_note (pos_pool p) (pos_base_mint p) (pos_base_amount p) (RetreatBurn r)) s1
                 | CloseSold sg \<Rightarrow> s1)
           in maybe_auto_stop_after_cycle s2))"

subsection \<open>One check of a pool\<close>

record sell_env =
  se_pool :: pubkey
  se_token_reserves :: u64
  se_sol_reserves :: u64
  se_multiplier :: f64
  se_bps :: u64
  se_timeout :: u64
  se_exit_sol :: u64
  se_wallet :: pubkey

definition sell_env_of :: "app \<Rightarrow> pubkey \<Rightarrow> u64 \<Rightarrow> u64 \<Rightarrow> sell_env option" where
  "sell_env_of s pool token_reserves sol_reserves =
     (case st_wallet s of
        None \<Rightarrow> None
      | Some w \<Rightarrow> Some \<lparr>se_pool = pool, se_token_reserves = token_reserves, se_sol_reserves = sol_reserves,
          se_multiplier = cf_sell_multiplier (st_config s), se_bps = cf_slippage_bps (st_config s),
          se_timeout = cf_sell_timeout_secs (st_config s), se_exit_sol = cf_exit_pool_sol_lamports (st_config s), se_wallet = w\<rparr>)"

definition wants_sale :: "chain \<Rightarrow> sell_env \<Rightarrow> app \<Rightarrow> utc \<Rightarrow> position \<Rightarrow> bool" where
  "wants_sale ch env s now p =
     (if pos_pool p \<noteq> se_pool env \<or> \<not> may_sell s p now then False
      else if claimed_on_every_check p then True
      else if forced_exit_reason (elapsed_secs now p) (se_timeout env) (se_sol_reserves env) (se_exit_sol env) \<noteq> None then True
      else
        (let value = unwrap_or 0 (sol_for_tokens ch (se_sol_reserves env) (se_token_reserves env) (pos_base_amount p))
         in take_profit_reached ch value (se_bps env) (pos_buy_price_lamports p) (se_multiplier env) (pos_sell_failures p)))"

definition ids_to_sell :: "chain \<Rightarrow> sell_env \<Rightarrow> app \<Rightarrow> utc \<Rightarrow> string list" where
  "ids_to_sell ch env s now = map pos_id (filter (wants_sale ch env s now) (hm_values (st_positions s)))"

text \<open>A sell sent before is settled first. Whether the position goes on, and the state left.\<close>

definition settle_earlier ::
  "string \<Rightarrow> position \<Rightarrow> pending_sell \<Rightarrow> pending_outcome \<Rightarrow> int option \<Rightarrow> utc \<Rightarrow> app \<Rightarrow> bool \<times> app" where
  "settle_earlier i p pending out change now s =
     (case out of
        Landed \<Rightarrow> (True, record_sell_proceeds i p pending change s)
      | FailedOnChain \<Rightarrow> (False, record_sell_failure i p now True (set_pending_sell i None s))
      | InFlight \<Rightarrow> (False, wait_for_pending i now s)
      | Expired \<Rightarrow> (False, record_sell_failure i p now False (set_pending_sell i None s))
      | UnknownOutcome \<Rightarrow> (False, record_sell_failure i p now False s))"

definition refreshed :: "string \<Rightarrow> holding \<Rightarrow> position \<Rightarrow> app \<Rightarrow> position \<times> app" where
  "refreshed i h p s =
     (let s1 = (case h of HoldingHeld n \<Rightarrow> record_holding i n s | _ \<Rightarrow> s)
      in ((case hm_get (st_positions s1) i of Some q \<Rightarrow> q | None \<Rightarrow> p), s1))"

definition plan_now :: "chain \<Rightarrow> sell_env \<Rightarrow> position \<Rightarrow> holding \<Rightarrow> u64 \<Rightarrow> u64 \<Rightarrow> u64 \<Rightarrow> plan" where
  "plan_now ch env p h elapsed sol tokens =
     plan_sell ch p h (forced_exit_reason elapsed (se_timeout env) sol (se_exit_sol env)) sol tokens (se_bps env) (se_multiplier env)"

definition back_to_active :: "string \<Rightarrow> app \<Rightarrow> app" where
  "back_to_active i s = set_position i (\<lambda>p. p\<lparr>pos_status := Active\<rparr>) s"

text \<open>The instructions of a sell: the WSOL account, the swap, the WSOL account closed.\<close>

definition sell_instructions :: "chain \<Rightarrow> sell_env \<Rightarrow> pool \<Rightarrow> position \<Rightarrow> u64 \<Rightarrow> nat \<Rightarrow> swap_error + instruction list" where
  "sell_instructions ch env pd p min_out fee_idx =
     map_sum id (\<lambda>ix. [create_ata_if_needed ch (se_wallet env) (wsol_mint ch) (token_program ch), ix, unwrap_sol ch (se_wallet env)])
       (sell_ix ch \<lparr>mk_pool = se_pool env, mk_data = pd, mk_side = pos_side p, mk_token_program = pos_quote_token_program p\<rparr>
          (se_wallet env) (pos_base_amount p) min_out fee_idx)"

text \<open>What the send and the confirmation of a sell leave behind; whether what is left is read next.\<close>

definition sell_sent ::
  "string \<Rightarrow> position \<Rightarrow> pending_sell \<Rightarrow> send_answer \<Rightarrow> confirm_answer \<Rightarrow> int option \<Rightarrow> utc \<Rightarrow> app \<Rightarrow> bool \<times> app" where
  "sell_sent i p pending sent confirmed change now s =
     (case sent of
        SendOk \<Rightarrow>
          (case confirmed of
             ConfirmedOk \<Rightarrow> (True, record_sell_proceeds i p pending change s)
           | ConfirmedFailed \<Rightarrow>
               (False, report_sell_error p (Some (ps_signature pending)) (SellFailedOnChain (ps_signature pending))
                  (record_sell_failure i p now True (set_pending_sell i None s)))
           | NotConfirmed \<Rightarrow> (False, wait_for_pending i now s))
      | RefusedBySimulation \<Rightarrow>
          (False, report_sell_error p None (SellSendFailed i)
             (record_sell_failure i p now False (set_pending_sell i None s)))
      | SendError \<Rightarrow>
          (False, report_sell_error p None (SellSendFailed i) (wait_for_pending i now s)))"

definition after_sale :: "string \<Rightarrow> holding \<Rightarrow> app \<Rightarrow> bool \<times> app" where
  "after_sale i h s =
     (case h of
        HoldingHeld n \<Rightarrow> (if n = 0 then (True, s) else (False, back_to_active i (record_holding i n s)))
      | _ \<Rightarrow> (False, back_to_active i s))"

subsection \<open>Tasks\<close>

text \<open>
  Where a task stands: at the loop's head with the positions left, or with one claimed, waiting for the
  RPC at one of the code's reads or sends.
\<close>

datatype sell_at =
    AtSettle position
  | AtRead position "signature option"
  | AtPlanned position holding u64 plan "signature option"
  | AtSign position u64 pool holding u64
  | AtSent position pending_sell
  | AtSold position signature
  | AtClose position close_how

datatype sell_task =
    NoTask
  | Looping sell_env "string list"
  | Working sell_env "string list" string sell_at

record sell_system =
  ss_app :: app
  ss_task :: "nat \<Rightarrow> sell_task"
  ss_signed :: "(string \<times> signature) set"
  ss_settled :: "signature set"

definition with_task :: "nat \<Rightarrow> sell_task \<Rightarrow> app \<Rightarrow> sell_system \<Rightarrow> sell_system" where
  "with_task t k s y = y\<lparr>ss_app := s, ss_task := (ss_task y)(t := k)\<rparr>"

definition settles :: "pending_outcome \<Rightarrow> bool" where
  "settles out = (out \<in> {Landed, FailedOnChain, Expired})"

definition send_settles :: "send_answer \<Rightarrow> confirm_answer \<Rightarrow> bool" where
  "send_settles sent confirmed = (sent = RefusedBySimulation \<or> sent = SendOk \<and> confirmed \<noteq> NotConfirmed)"

definition settle_if :: "bool \<Rightarrow> signature \<Rightarrow> sell_system \<Rightarrow> sell_system" where
  "settle_if b sig y = (if b then y\<lparr>ss_settled := insert sig (ss_settled y)\<rparr> else y)"

inductive sell_step :: "chain \<Rightarrow> sell_system \<Rightarrow> sell_system \<Rightarrow> bool" for ch where
  check:
    "ss_task y t = NoTask \<Longrightarrow> sell_env_of (ss_app y) pool toks sol = Some env \<Longrightarrow>
     sell_step ch y (with_task t (Looping env (ids_to_sell ch env (ss_app y) now)) (ss_app y) y)"
| finish: "ss_task y t = Looping env [] \<Longrightarrow> sell_step ch y (with_task t NoTask (ss_app y) y)"
| not_claimed:
    "ss_task y t = Looping env (i # ids) \<Longrightarrow> claim_for_sell i now (ss_app y) = (None, s) \<Longrightarrow>
     sell_step ch y (with_task t (Looping env ids) s y)"
| claimed:
    "ss_task y t = Looping env (i # ids) \<Longrightarrow> claim_for_sell i now (ss_app y) = (Some p, s) \<Longrightarrow>
     sell_step ch y (with_task t (Working env ids i (AtSettle p)) s y)"
| nothing_earlier:
    "ss_task y t = Working env ids i (AtSettle p) \<Longrightarrow> pos_pending_sell p = None \<Longrightarrow>
     sell_step ch y (with_task t (Working env ids i (AtRead p None)) (ss_app y) y)"
| earlier:
    "ss_task y t = Working env ids i (AtSettle p) \<Longrightarrow> pos_pending_sell p = Some pd \<Longrightarrow>
     settle_earlier i p pd out change now (ss_app y) = (on, s) \<Longrightarrow>
     sell_step ch y (settle_if (settles out) (ps_signature pd)
       (with_task t (if on then Working env ids i (AtRead p (Some (ps_signature pd))) else Looping env ids) s y))"
| planned:
    "ss_task y t = Working env ids i (AtRead p last_sig) \<Longrightarrow> refreshed i h p (ss_app y) = (q, s) \<Longrightarrow>
     el = elapsed_secs now q \<Longrightarrow> pl = plan_now ch env q h el (se_sol_reserves env) (se_token_reserves env) \<Longrightarrow>
     sell_step ch y (with_task t (Working env ids i (AtPlanned q h el pl last_sig)) s y)"
| plan_holds:
    "ss_task y t = Working env ids i (AtPlanned p h el PlanHold last_sig) \<Longrightarrow>
     sell_step ch y (with_task t (Looping env ids) (hold i (ss_app y)) y)"
| plan_retries:
    "ss_task y t = Working env ids i (AtPlanned p h el (PlanRetry why) last_sig) \<Longrightarrow>
     sell_step ch y (with_task t (Looping env ids) (record_sell_failure i p now False (ss_app y)) y)"
| plan_closes:
    "ss_task y t = Working env ids i (AtPlanned p h el PlanCloseSoldOut last_sig) \<Longrightarrow>
     sell_step ch y (with_task t (Working env ids i (AtClose p (CloseSold last_sig))) (ss_app y) y)"
| pool_unread:
    "ss_task y t = Working env ids i (AtPlanned p h el pl last_sig) \<Longrightarrow> pl = PlanSell n \<or> pl = PlanBurn r \<Longrightarrow>
     sell_step ch y (with_task t (Looping env ids) (record_sell_failure i p now False (ss_app y)) y)"
| burn_again:
    "ss_task y t = Working env ids i (AtPlanned p h el (PlanBurn r0) last_sig) \<Longrightarrow>
     plan_now ch env p h el sol toks = PlanBurn r \<Longrightarrow>
     sell_step ch y (with_task t (Working env ids i (AtClose p (CloseBurn r))) (ss_app y) y)"
| burn_held:
    "ss_task y t = Working env ids i (AtPlanned p h el (PlanBurn r0) last_sig) \<Longrightarrow>
     plan_now ch env p h el sol toks = PlanHold \<Longrightarrow>
     sell_step ch y (with_task t (Looping env ids) (hold i (ss_app y)) y)"
| burn_otherwise:
    "ss_task y t = Working env ids i (AtPlanned p h el (PlanBurn r0) last_sig) \<Longrightarrow>
     plan_now ch env p h el sol toks = pl \<Longrightarrow> (\<forall>r. pl \<noteq> PlanBurn r) \<Longrightarrow> pl \<noteq> PlanHold \<Longrightarrow>
     sell_step ch y (with_task t (Looping env ids) (back_to_active i (ss_app y)) y)"
| to_sign:
    "ss_task y t = Working env ids i (AtPlanned p h el (PlanSell n) last_sig) \<Longrightarrow>
     sell_step ch y (with_task t (Working env ids i (AtSign p n pd h el)) (ss_app y) y)"
| not_signed:
    "ss_task y t = Working env ids i (AtSign p n pd h el) \<Longrightarrow>
     sell_step ch y (with_task t (Looping env ids) (record_sell_failure i p now False (ss_app y)) y)"
| signs:
    "ss_task y t = Working env ids i (AtSign p n pd h el) \<Longrightarrow> sell_instructions ch env pd p n fee_idx = Ok ixs \<Longrightarrow>
     pending = \<lparr>ps_signature = sig, ps_last_valid_block_height = lvbh, ps_min_out = n\<rparr> \<Longrightarrow>
     sell_step ch y ((with_task t (Working env ids i (AtSent p pending)) (set_pending_sell i (Some pending) (ss_app y)) y)
       \<lparr>ss_signed := insert (i, sig) (ss_signed y)\<rparr>)"
| sends:
    "ss_task y t = Working env ids i (AtSent p pending) \<Longrightarrow>
     sell_sent i p pending sent confirmed change now (ss_app y) = (on, s) \<Longrightarrow>
     sell_step ch y (settle_if (send_settles sent confirmed) (ps_signature pending)
       (with_task t (if on then Working env ids i (AtSold p (ps_signature pending)) else Looping env ids) s y))"
| sold:
    "ss_task y t = Working env ids i (AtSold p sig) \<Longrightarrow> after_sale i h (ss_app y) = (all_gone, s) \<Longrightarrow>
     sell_step ch y (with_task t (if all_gone then Working env ids i (AtClose p (CloseSold (Some sig))) else Looping env ids) s y)"
| closes:
    "ss_task y t = Working env ids i (AtClose p how) \<Longrightarrow>
     burn_and_close_ata ch (se_wallet env) (pos_base_mint p) (pos_quote_token_program p) (close_amount p how) (pos_close_sent p)
       bal sg sent confirmed = (ixs, out) \<Longrightarrow>
     sell_step ch y (with_task t (Looping env ids) (close_position_after i p how out now (ss_app y)) y)"
| opened:
    "hm_get (st_positions (ss_app y)) i = None \<Longrightarrow> pos_status p = Active \<Longrightarrow> pos_pending_sell p = None \<Longrightarrow>
     st_positions s = hm_insert i p (st_positions (ss_app y)) \<Longrightarrow>
     sell_step ch y (y\<lparr>ss_app := s\<rparr>)"
| elsewhere:
    "st_positions s = st_positions (ss_app y) \<Longrightarrow> sell_step ch y (y\<lparr>ss_app := s\<rparr>)"

text \<open>A bot that has just started: no position, no task.\<close>

definition sell_start :: "sell_system \<Rightarrow> bool" where
  "sell_start y \<longleftrightarrow> st_positions (ss_app y) = [] \<and> (\<forall>t. ss_task y t = NoTask) \<and> ss_signed y = {}"

inductive sell_reachable :: "chain \<Rightarrow> sell_system \<Rightarrow> bool" for ch where
  sell_init: "sell_start y \<Longrightarrow> sell_reachable ch y"
| sell_next: "sell_reachable ch y \<Longrightarrow> sell_step ch y y' \<Longrightarrow> sell_reachable ch y'"

end
