(* ===== verification/Sell_Safety.thy ===== *)
theory Sell_Safety
  imports Sell_Cycle
begin

text \<open>
  What holds in every interleaving of the tasks of \<open>Sell_Cycle\<close>: the invariant of positions being sold,
  its preservation by each step, and the properties of selling that rest on it.
\<close>

subsection \<open>What the operations do to the positions\<close>

text \<open>Each operation changes one position, by a function of that position alone.\<close>

named_theorems positions_simps "what an operation leaves of the positions"

lemma positions_set [positions_simps]: "st_positions (set_position i f s) = hm_modify i f (st_positions s)"
  by (simp add: set_position_def)

lemma positions_push_log [positions_simps]: "st_positions (push_log l s) = st_positions s"
  by (simp add: push_log_def)

lemma positions_notes [positions_simps]:
  "st_positions (record_log l s) = st_positions s"
  "st_positions (push_notification a b c s) = st_positions s"
  "st_positions (push_error_log a b n e s) = st_positions s"
  "st_positions (report_sell_error p sig e s) = st_positions s"
  by (simp_all add: record_log_def push_notification_def push_error_log_def report_sell_error_def positions_push_log)

lemma positions_auto_stop [positions_simps]: "st_positions (maybe_auto_stop_after_cycle s) = st_positions s"
  by (simp add: maybe_auto_stop_after_cycle_def positions_notes)

lemma positions_sell_failed [positions_simps]:
  "st_positions (snd (sell_failed i now paid s)) = hm_modify i (after_failure now paid) (st_positions s)"
  by (auto simp: sell_failed_def positions_set hm_modify_absent split: option.splits)

lemma positions_failure [positions_simps]:
  "st_positions (record_sell_failure i p now paid s) = hm_modify i (after_failure now paid) (st_positions s)"
  using positions_sell_failed [of i now paid s]
  by (auto simp: record_sell_failure_def positions_notes positions_auto_stop Let_def split: prod.splits)

lemma positions_waits [positions_simps]:
  "st_positions (wait_for_pending i now s) =
     hm_modify i (\<lambda>p. p\<lparr>pos_next_sell_at := Some (now + secs pending_sell_recheck_secs), pos_status := Active\<rparr>) (st_positions s)"
  "st_positions (hold i s) = hm_modify i (\<lambda>p. p\<lparr>pos_status := Active, pos_closing := False\<rparr>) (st_positions s)"
  "st_positions (back_to_active i s) = hm_modify i (\<lambda>p. p\<lparr>pos_status := Active\<rparr>) (st_positions s)"
  "st_positions (record_holding i n s) = hm_modify i (\<lambda>p. p\<lparr>pos_base_amount := n, pos_amount_known := True\<rparr>) (st_positions s)"
  "st_positions (set_pending_sell i pd s) = hm_modify i (\<lambda>p. p\<lparr>pos_pending_sell := pd\<rparr>) (st_positions s)"
  "st_positions (sell_succeeded i s) =
     hm_modify i (\<lambda>p. p\<lparr>pos_sell_failures := 0, pos_sell_attempts := 0, pos_next_sell_at := None\<rparr>) (st_positions s)"
  by (simp_all add: wait_for_pending_def hold_def back_to_active_def record_holding_def set_pending_sell_def
      sell_succeeded_def positions_set)

lemma after_failure_keeps [simp]:
  "pos_pending_sell (after_failure now paid p) = pos_pending_sell p"
  "pos_base_amount (after_failure now paid p) = pos_base_amount p"
  "pos_id (after_failure now paid p) = pos_id p"
  by (simp_all add: after_failure_def counted_failure_def Let_def)

lemma after_failure_status: "pos_status (after_failure now paid p) \<in> {Active, Failed}"
  by (simp add: after_failure_def counted_failure_def Let_def)

lemma after_failure_not_selling [simp]: "pos_status (after_failure now paid p) \<noteq> Selling"
  by (simp add: after_failure_def counted_failure_def Let_def)

lemma hm_ok_proceeds [positions_simps]:
  "st_positions (record_sell_proceeds i p pd change s) =
     hm_modify i (\<lambda>q. q\<lparr>pos_total_sell_lamports := u64_add (pos_total_sell_lamports q) (proceeds change pd),
       pos_pending_sell := None, pos_draining := True, pos_sell_failures := 0, pos_sell_attempts := 0,
       pos_next_sell_at := None\<rparr>) (st_positions s)"
  by (simp add: record_sell_proceeds_def Let_def positions_simps hm_modify_def o_def)

text \<open>The outcomes of the longer operations, as a function of the position and whether the task goes on with it.\<close>

lemma settle_earlier_position:
  assumes "settle_earlier i p pd out change now s = (on, s')" "hm_get (st_positions s) i = Some q"
    "pos_pending_sell q = Some pd" "pos_status q = Selling"
  obtains q' where "hm_get (st_positions s') i = Some q'" "on = (out = Landed)"
    "\<And>j. j \<noteq> i \<Longrightarrow> hm_get (st_positions s') j = hm_get (st_positions s) j"
    "on \<Longrightarrow> pos_status q' = Selling \<and> pos_pending_sell q' = None"
    "\<not> on \<Longrightarrow> pos_status q' \<noteq> Selling"
    "settles out \<or> pos_pending_sell q' = Some pd"
  using assms that by (cases out) (fastforce simp: settle_earlier_def positions_simps settles_def)+

lemma sell_sent_position:
  assumes "sell_sent i p pd sent confirmed change now s = (on, s')" "hm_get (st_positions s) i = Some q"
    "pos_pending_sell q = Some pd" "pos_status q = Selling"
  obtains q' where "hm_get (st_positions s') i = Some q'"
    "\<And>j. j \<noteq> i \<Longrightarrow> hm_get (st_positions s') j = hm_get (st_positions s) j"
    "on \<Longrightarrow> pos_status q' = Selling \<and> pos_pending_sell q' = None"
    "\<not> on \<Longrightarrow> pos_status q' \<noteq> Selling"
    "send_settles sent confirmed \<or> pos_pending_sell q' = Some pd"
  using assms that
  by (cases sent; cases confirmed) (fastforce simp: sell_sent_def positions_simps send_settles_def)+

lemma after_sale_position:
  assumes "after_sale i h s = (gone, s')" "hm_get (st_positions s) i = Some q"
    "pos_pending_sell q = None" "pos_status q = Selling"
  obtains q' where "hm_get (st_positions s') i = Some q'" "pos_pending_sell q' = None"
    "\<And>j. j \<noteq> i \<Longrightarrow> hm_get (st_positions s') j = hm_get (st_positions s) j"
    "gone \<Longrightarrow> pos_status q' = Selling" "\<not> gone \<Longrightarrow> pos_status q' \<noteq> Selling"
  using assms that by (cases h) (fastforce simp: after_sale_def positions_simps split: if_splits)+

lemma refreshed_position:
  assumes "refreshed i h p s = (r, s')" "hm_get (st_positions s) i = Some q"
    "pos_pending_sell q = None" "pos_status q = Selling"
  shows "hm_get (st_positions s') i = Some r" "pos_status r = Selling" "pos_pending_sell r = None"
    "j \<noteq> i \<Longrightarrow> hm_get (st_positions s') j = hm_get (st_positions s) j"
    "h = HoldingHeld n \<Longrightarrow> pos_base_amount r = n"
  using assms by (cases h; fastforce simp: refreshed_def positions_simps Let_def split: option.splits)+

lemma close_position_after_position:
  assumes "hm_get (st_positions s) i = Some q" "pos_pending_sell q = None"
  obtains q' where "hm_get (st_positions (close_position_after i p how out now s)) i = Some q'"
    "pos_pending_sell q' = None" "pos_status q' \<noteq> Selling"
    "\<And>j. j \<noteq> i \<Longrightarrow> hm_get (st_positions (close_position_after i p how out now s)) j = hm_get (st_positions s) j"
  using assms that
  by (cases out; cases how) (fastforce simp: close_position_after_def positions_simps Let_def)+

subsection \<open>The invariant\<close>

text \<open>What the stored sell is while a task works on a position, by where the task stands.\<close>

fun pending_at :: "sell_at \<Rightarrow> pending_sell option \<Rightarrow> bool" where
  "pending_at (AtSettle p) pd = (pd = pos_pending_sell p)"
| "pending_at (AtSent p pending) pd = (pd = Some pending)"
| "pending_at a pd = (pd = None)"

definition read_amount :: "position \<Rightarrow> holding \<Rightarrow> bool" where
  "read_amount p h \<longleftrightarrow> (\<forall>n. h = HoldingHeld n \<longrightarrow> pos_base_amount p = n)"

text \<open>What a task remembers of how its plan was made.\<close>

fun plan_kept :: "chain \<Rightarrow> sell_env \<Rightarrow> sell_at \<Rightarrow> bool" where
  "plan_kept ch env (AtPlanned p h el pl sig) =
     (pl = plan_now ch env p h el (se_sol_reserves env) (se_token_reserves env) \<and> read_amount p h)"
| "plan_kept ch env (AtSign p n pd h el) =
     (plan_now ch env p h el (se_sol_reserves env) (se_token_reserves env) = PlanSell n \<and> read_amount p h)"
| "plan_kept ch env (AtClose p (CloseBurn r)) =
     (\<exists>h el sol toks. plan_now ch env p h el sol toks = PlanBurn r \<and> read_amount p h)"
| "plan_kept ch env a = True"

abbreviation stored :: "sell_system \<Rightarrow> string \<Rightarrow> position option" where
  "stored y i \<equiv> hm_get (st_positions (ss_app y)) i"

definition tasks_hold :: "chain \<Rightarrow> sell_system \<Rightarrow> bool" where
  "tasks_hold ch y \<longleftrightarrow> (\<forall>t env ids i a. ss_task y t = Working env ids i a \<longrightarrow> plan_kept ch env a \<and>
     (\<exists>p. stored y i = Some p \<and> pos_status p = Selling \<and> pending_at a (pos_pending_sell p)))"

definition one_task :: "sell_system \<Rightarrow> bool" where
  "one_task y \<longleftrightarrow> (\<forall>t t' env env' ids ids' i a a'. ss_task y t = Working env ids i a \<longrightarrow>
     ss_task y t' = Working env' ids' i a' \<longrightarrow> t = t')"

definition selling_held :: "sell_system \<Rightarrow> bool" where
  "selling_held y \<longleftrightarrow> (\<forall>i p. stored y i = Some p \<longrightarrow> pos_status p = Selling \<longrightarrow>
     (\<exists>t env ids a. ss_task y t = Working env ids i a))"

definition signed_known :: "sell_system \<Rightarrow> bool" where
  "signed_known y \<longleftrightarrow> (\<forall>i sig. (i, sig) \<in> ss_signed y \<longrightarrow> sig \<notin> ss_settled y \<longrightarrow>
     (\<exists>p pd. stored y i = Some p \<and> pos_pending_sell p = Some pd \<and> ps_signature pd = sig))"

lemmas sell_inv_defs = tasks_hold_def one_task_def selling_held_def signed_known_def

definition sell_inv :: "chain \<Rightarrow> sell_system \<Rightarrow> bool" where
  "sell_inv ch y \<longleftrightarrow> tasks_hold ch y \<and> one_task y \<and> selling_held y \<and> signed_known y"

lemma sell_inv_task:
  assumes "sell_inv ch y" "ss_task y t = Working env ids i a"
  obtains p where "stored y i = Some p" "pos_status p = Selling" "pending_at a (pos_pending_sell p)" "plan_kept ch env a"
  using assms unfolding sell_inv_def tasks_hold_def by metis

lemma sell_inv_one_task:
  "sell_inv ch y \<Longrightarrow> ss_task y t = Working env ids i a \<Longrightarrow> ss_task y t' = Working env' ids' i a' \<Longrightarrow> t = t'"
  unfolding sell_inv_def one_task_def by metis

lemma sell_inv_owner:
  assumes "sell_inv ch y" "stored y i = Some p" "pos_status p = Selling"
  shows "\<exists>t env ids a. ss_task y t = Working env ids i a"
  using assms unfolding sell_inv_def selling_held_def by metis

lemma sell_inv_signed:
  assumes "sell_inv ch y" "(i, sig) \<in> ss_signed y" "sig \<notin> ss_settled y"
  shows "\<exists>p pd. stored y i = Some p \<and> pos_pending_sell p = Some pd \<and> ps_signature pd = sig"
  using assms unfolding sell_inv_def signed_known_def by metis

lemma sell_inv_start: "sell_start y \<Longrightarrow> sell_inv ch y"
  by (simp add: sell_inv_def sell_inv_defs sell_start_def)

text \<open>A task that works on no position moves on without touching any.\<close>

fun free_task :: "sell_task \<Rightarrow> bool" where
  "free_task (Working env ids i a) = False"
| "free_task k = True"

lemma sell_inv_idle:
  assumes "sell_inv ch y" and free: "free_task (ss_task y t)" "free_task k"
    and tasks: "ss_task y' = (ss_task y)(t := k)" and "st_positions (ss_app y') = st_positions (ss_app y)"
    "ss_signed y' = ss_signed y" "ss_settled y' = ss_settled y"
  shows "sell_inv ch y'"
proof -
  have same: "ss_task y' u = Working env ids i a \<longleftrightarrow> ss_task y u = Working env ids i a" for u env ids i a
    using free tasks by (cases "u = t") auto
  show ?thesis using assms(1,5-7) by (simp add: sell_inv_def sell_inv_defs same)
qed

text \<open>
  A task working on \<open>i\<close> changes that position only, and then either goes on with it or leaves it, no
  longer being sold.
\<close>

lemma sell_inv_move:
  assumes inv: "sell_inv ch y" and task: "ss_task y t = Working env ids i a"
    and tasks: "ss_task y' = (ss_task y)(t := k)"
    and other: "\<And>j. j \<noteq> i \<Longrightarrow> stored y' j = stored y j"
    and here: "stored y' i = Some q"
    and goes: "(\<exists>env' ids' a'. k = Working env' ids' i a' \<and> pos_status q = Selling \<and>
        pending_at a' (pos_pending_sell q) \<and> plan_kept ch env' a') \<or> free_task k \<and> pos_status q \<noteq> Selling"
    and settled: "ss_settled y \<subseteq> ss_settled y'"
    and signed: "\<And>j sig. (j, sig) \<in> ss_signed y' \<Longrightarrow> j \<noteq> i \<Longrightarrow> (j, sig) \<in> ss_signed y"
      "\<And>sig. (i, sig) \<in> ss_signed y' \<Longrightarrow> sig \<notin> ss_settled y' \<Longrightarrow>
         \<exists>pd. pos_pending_sell q = Some pd \<and> ps_signature pd = sig"
  shows "sell_inv ch y'"
proof -
  have elsewhere: "ss_task y' u = Working e zs j b \<longleftrightarrow> ss_task y u = Working e zs j b" if "j \<noteq> i" for u e zs j b
    using that task tasks goes by (cases "u = t"; cases k) auto
  have only: "u = t" if "ss_task y' u = Working e zs i b" for u e zs b
    using that tasks sell_inv_one_task [OF inv task, of u] by (cases "u = t") auto
  have "tasks_hold ch y'" unfolding tasks_hold_def
  proof (intro allI impI)
    fix u e zs j b assume w: "ss_task y' u = Working e zs j b"
    show "plan_kept ch e b \<and> (\<exists>p. stored y' j = Some p \<and> pos_status p = Selling \<and> pending_at b (pos_pending_sell p))"
    proof (cases "j = i")
      case True
      have "u = t" by (rule only) (use w True in simp)
      then have "k = Working e zs i b" using w tasks True by simp
      with goes have "pos_status q = Selling \<and> pending_at b (pos_pending_sell q) \<and> plan_kept ch e b" by auto
      with True here show ?thesis by simp
    next
      case False
      with w elsewhere have "ss_task y u = Working e zs j b" by simp
      then show ?thesis using other [OF False] by (metis sell_inv_task [OF inv])
    qed
  qed
  moreover have "one_task y'" unfolding one_task_def
  proof (intro allI impI)
    fix u u' e e' zs zs' j b b' assume "ss_task y' u = Working e zs j b" "ss_task y' u' = Working e' zs' j b'"
    then show "u = u'" using only elsewhere sell_inv_one_task [OF inv] by (cases "j = i") metis+
  qed
  moreover have "selling_held y'" unfolding selling_held_def
  proof (intro allI impI)
    fix j p assume st: "stored y' j = Some p" and sel: "pos_status p = Selling"
    show "\<exists>t env ids a. ss_task y' t = Working env ids j a"
    proof (cases "j = i")
      case True
      with st sel here goes obtain e zs b where "k = Working e zs i b" by auto
      with tasks True have "ss_task y' t = Working e zs j b" by simp
      then show ?thesis by blast
    next
      case False
      with st other have "stored y j = Some p" by simp
      with sel show ?thesis using sell_inv_owner [OF inv] elsewhere [OF False] by metis
    qed
  qed
  moreover have "signed_known y'" unfolding signed_known_def
  proof (intro allI impI)
    fix j sig assume *: "(j, sig) \<in> ss_signed y'" "sig \<notin> ss_settled y'"
    then have "sig \<notin> ss_settled y" using settled by blast
    with * show "\<exists>p pd. stored y' j = Some p \<and> pos_pending_sell p = Some pd \<and> ps_signature pd = sig"
      using here signed other settled sell_inv_signed [OF inv, of j sig] by (cases "j = i") auto
  qed
  ultimately show ?thesis by (simp add: sell_inv_def)
qed

subsection \<open>Every step keeps it\<close>

lemma with_task_simps [simp]:
  "ss_app (with_task t k s y) = s" "ss_task (with_task t k s y) = (ss_task y)(t := k)"
  "ss_signed (with_task t k s y) = ss_signed y" "ss_settled (with_task t k s y) = ss_settled y"
  by (simp_all add: with_task_def)

lemma settle_if_simps [simp]:
  "ss_app (settle_if b sig y) = ss_app y" "ss_task (settle_if b sig y) = ss_task y"
  "ss_signed (settle_if b sig y) = ss_signed y"
  "ss_settled (settle_if b sig y) = (if b then insert sig (ss_settled y) else ss_settled y)"
  by (simp_all add: settle_if_def)

text \<open>A step that leaves the signed sells as they are, as \<open>sell_inv_move\<close> needs it.\<close>

lemma signed_kept:
  assumes "sell_inv ch y" "(i, sig) \<in> ss_signed y" "sig \<notin> ss_settled y" "stored y i = Some p"
    "pos_pending_sell p = pd"
  shows "\<exists>x. pd = Some x \<and> ps_signature x = sig"
  using sell_inv_signed [OF assms(1-3)] assms(4,5) by auto

lemma sell_inv_leaves:
  assumes inv: "sell_inv ch y" and task: "ss_task y t = Working env ids i a" and p: "stored y i = Some p"
    and here: "hm_get (st_positions s) i = Some q" "pos_pending_sell q = pos_pending_sell p"
    and other: "\<And>j. j \<noteq> i \<Longrightarrow> hm_get (st_positions s) j = stored y j"
    and goes: "(\<exists>env' ids' a'. k = Working env' ids' i a' \<and> pos_status q = Selling \<and>
        pending_at a' (pos_pending_sell q) \<and> plan_kept ch env' a') \<or> free_task k \<and> pos_status q \<noteq> Selling"
  shows "sell_inv ch (with_task t k s y)"
  using signed_kept [OF inv _ _ p, of _ "pos_pending_sell q"] here other goes
  by (intro sell_inv_move [OF inv task]) auto

lemma plan_burn_amount:
  assumes "plan_now ch env p h el sol toks = PlanBurn r" "read_amount p h"
  shows "h = HoldingHeld (pos_base_amount p)"
  using assms by (auto simp: plan_now_def plan_sell_def read_amount_def split: holding.splits if_splits)

lemma claim_for_sell_Some:
  "claim_for_sell i now s = (Some p, s') \<Longrightarrow>
     \<exists>q. hm_get (st_positions s) i = Some q \<and> may_sell s q now \<and> pos_status q = Active \<and> p = q\<lparr>pos_status := Selling\<rparr> \<and>
       st_positions s' = hm_modify i (\<lambda>p. p\<lparr>pos_status := Selling\<rparr>) (st_positions s)"
  by (auto simp: claim_for_sell_def may_sell_def positions_simps split: option.splits if_splits)

lemma claim_for_sell_None: "claim_for_sell i now s = (None, s') \<Longrightarrow> s' = s"
  by (auto simp: claim_for_sell_def split: option.splits if_splits)

lemma sell_inv_claim:
  assumes inv: "sell_inv ch y" and task: "ss_task y t = Looping env (i # ids)"
    and claim: "claim_for_sell i now (ss_app y) = (Some p, s)"
  shows "sell_inv ch (with_task t (Working env ids i (AtSettle p)) s y)" (is "sell_inv ch ?y")
proof -
  obtain q where q: "stored y i = Some q" "pos_status q = Active" "p = q\<lparr>pos_status := Selling\<rparr>"
    and pos: "st_positions s = hm_modify i (\<lambda>p. p\<lparr>pos_status := Selling\<rparr>) (st_positions (ss_app y))"
    using claim_for_sell_Some [OF claim] by blast
  have other: "stored ?y j = stored y j" if "j \<noteq> i" for j using that pos by simp
  have here: "stored ?y i = Some p" using pos q by simp
  have free: "ss_task y u \<noteq> Working e zs i b" for u e zs b
    using sell_inv_task [OF inv, of u e zs i b] q by fastforce
  have tasks: "ss_task ?y u = Working e zs j b \<longleftrightarrow>
      (if u = t then e = env \<and> zs = ids \<and> j = i \<and> b = AtSettle p else ss_task y u = Working e zs j b)" for u e zs j b
    using task by auto
  have "tasks_hold ch ?y" unfolding tasks_hold_def tasks
    using here other q free sell_inv_task [OF inv] by (auto split: if_splits) (metis+)
  moreover have "one_task ?y" unfolding one_task_def tasks
    using free sell_inv_one_task [OF inv] by (auto split: if_splits)
  moreover have "selling_held ?y" unfolding selling_held_def
  proof (intro allI impI)
    fix j r assume r: "stored ?y j = Some r" "pos_status r = Selling"
    show "\<exists>t1 e zs b. ss_task ?y t1 = Working e zs j b"
    proof (cases "j = i")
      case True
      then have "ss_task ?y t = Working env ids j (AtSettle p)" by simp
      then show ?thesis by blast
    next
      case False
      with r other have "stored y j = Some r" by simp
      then obtain u e zs b where w: "ss_task y u = Working e zs j b" using sell_inv_owner [OF inv] r(2) by blast
      with task have "u \<noteq> t" by auto
      with w tasks have "ss_task ?y u = Working e zs j b" by simp
      then show ?thesis by blast
    qed
  qed
  moreover have "signed_known ?y" unfolding signed_known_def
  proof (intro allI impI)
    fix j sig assume "(j, sig) \<in> ss_signed ?y" "sig \<notin> ss_settled ?y"
    then obtain r pd where "stored y j = Some r" "pos_pending_sell r = Some pd" "ps_signature pd = sig"
      using sell_inv_signed [OF inv, of j sig] by auto
    then show "\<exists>r pd. stored ?y j = Some r \<and> pos_pending_sell r = Some pd \<and> ps_signature pd = sig"
      using here other q by (cases "j = i") auto
  qed
  ultimately show ?thesis by (simp add: sell_inv_def)
qed

text \<open>The steps that leave the position for the next, and those that go on with it, one lemma for each operation.\<close>

lemma sell_inv_drops:
  assumes inv: "sell_inv ch y" and task: "ss_task y t = Working env ids i a"
    and s: "st_positions s = hm_modify i f (st_positions (ss_app y))"
    and f: "\<And>p. pos_pending_sell (f p) = pos_pending_sell p" "\<And>p. pos_status (f p) \<noteq> Selling"
  shows "sell_inv ch (with_task t (Looping env ids) s y)"
proof -
  obtain p where "stored y i = Some p" using sell_inv_task [OF inv task] .
  then show ?thesis using sell_inv_leaves [OF inv task, of p s "f p" "Looping env ids"] s f by simp
qed

lemma sell_inv_goes:
  assumes inv: "sell_inv ch y" and task: "ss_task y t = Working env ids i a"
    and a': "plan_kept ch env a'" "\<And>pd. pending_at a pd \<Longrightarrow> pending_at a' pd"
  shows "sell_inv ch (with_task t (Working env ids i a') (ss_app y) y)"
proof -
  obtain p where "stored y i = Some p" "pos_status p = Selling" "pending_at a (pos_pending_sell p)"
    using sell_inv_task [OF inv task] .
  then show ?thesis using sell_inv_leaves [OF inv task, of p "ss_app y" p] a' by auto
qed

lemma sell_inv_earlier:
  assumes inv: "sell_inv ch y" and task: "ss_task y t = Working env ids i (AtSettle p)" and "pos_pending_sell p = Some pd"
    and out: "settle_earlier i p pd out change now (ss_app y) = (on, s)"
  shows "sell_inv ch (settle_if (settles out) (ps_signature pd)
       (with_task t (if on then Working env ids i (AtRead p (Some (ps_signature pd))) else Looping env ids) s y))"
proof -
  obtain q where q: "stored y i = Some q" "pos_status q = Selling" "pos_pending_sell q = Some pd"
    using sell_inv_task [OF inv task] assms(3) by auto
  obtain q' where q': "hm_get (st_positions s) i = Some q'"
    "\<And>j. j \<noteq> i \<Longrightarrow> hm_get (st_positions s) j = stored y j"
    "on \<Longrightarrow> pos_status q' = Selling \<and> pos_pending_sell q' = None" "\<not> on \<Longrightarrow> pos_status q' \<noteq> Selling"
    "settles out \<or> pos_pending_sell q' = Some pd"
    using settle_earlier_position [OF out q(1,3,2)] by metis
  show ?thesis
    using q' signed_kept [OF inv _ _ q(1,3)]
    by (intro sell_inv_move [OF inv task, of _ "if on then Working env ids i (AtRead p (Some (ps_signature pd))) else Looping env ids" q'])
       (auto split: if_splits)
qed

lemma sell_inv_sends:
  assumes inv: "sell_inv ch y" and task: "ss_task y t = Working env ids i (AtSent p pd)"
    and out: "sell_sent i p pd sent confirmed change now (ss_app y) = (on, s)"
  shows "sell_inv ch (settle_if (send_settles sent confirmed) (ps_signature pd)
       (with_task t (if on then Working env ids i (AtSold p (ps_signature pd)) else Looping env ids) s y))"
proof -
  obtain q where q: "stored y i = Some q" "pos_status q = Selling" "pos_pending_sell q = Some pd"
    using sell_inv_task [OF inv task] by auto
  obtain q' where q': "hm_get (st_positions s) i = Some q'"
    "\<And>j. j \<noteq> i \<Longrightarrow> hm_get (st_positions s) j = stored y j"
    "on \<Longrightarrow> pos_status q' = Selling \<and> pos_pending_sell q' = None" "\<not> on \<Longrightarrow> pos_status q' \<noteq> Selling"
    "send_settles sent confirmed \<or> pos_pending_sell q' = Some pd"
    using sell_sent_position [OF out q(1,3,2)] by metis
  show ?thesis
    using q' signed_kept [OF inv _ _ q(1,3)]
    by (intro sell_inv_move [OF inv task, of _ "if on then Working env ids i (AtSold p (ps_signature pd)) else Looping env ids" q'])
       (auto split: if_splits)
qed

lemma sell_inv_sold:
  assumes inv: "sell_inv ch y" and task: "ss_task y t = Working env ids i (AtSold p sig)"
    and out: "after_sale i h (ss_app y) = (gone, s)"
  shows "sell_inv ch (with_task t (if gone then Working env ids i (AtClose p (CloseSold (Some sig))) else Looping env ids) s y)"
proof -
  obtain q where q: "stored y i = Some q" "pos_status q = Selling" "pos_pending_sell q = None"
    using sell_inv_task [OF inv task] by auto
  obtain q' where q': "hm_get (st_positions s) i = Some q'" "pos_pending_sell q' = None"
    "\<And>j. j \<noteq> i \<Longrightarrow> hm_get (st_positions s) j = stored y j"
    "gone \<Longrightarrow> pos_status q' = Selling" "\<not> gone \<Longrightarrow> pos_status q' \<noteq> Selling"
    using after_sale_position [OF out q(1,3,2)] by metis
  then show ?thesis using sell_inv_leaves [OF inv task q(1), of s q'] q(3) by auto
qed

lemma sell_inv_closes:
  assumes inv: "sell_inv ch y" and task: "ss_task y t = Working env ids i (AtClose p how)"
  shows "sell_inv ch (with_task t (Looping env ids) (close_position_after i p how out now (ss_app y)) y)"
proof -
  obtain q where q: "stored y i = Some q" "pos_pending_sell q = None"
    using sell_inv_task [OF inv task] by auto
  obtain q' where q': "hm_get (st_positions (close_position_after i p how out now (ss_app y))) i = Some q'"
    "pos_pending_sell q' = None" "pos_status q' \<noteq> Selling"
    "\<And>j. j \<noteq> i \<Longrightarrow> hm_get (st_positions (close_position_after i p how out now (ss_app y))) j = stored y j"
    using close_position_after_position [OF q] by metis
  then show ?thesis using sell_inv_leaves [OF inv task q(1), of _ q' "Looping env ids"] q(2) by simp
qed

lemma sell_inv_planned:
  assumes inv: "sell_inv ch y" and task: "ss_task y t = Working env ids i (AtRead p sig)"
    and out: "refreshed i h p (ss_app y) = (q, s)"
    and pl: "pl = plan_now ch env q h el (se_sol_reserves env) (se_token_reserves env)"
  shows "sell_inv ch (with_task t (Working env ids i (AtPlanned q h el pl sig)) s y)"
proof -
  obtain r where r: "stored y i = Some r" "pos_status r = Selling" "pos_pending_sell r = None"
    using sell_inv_task [OF inv task] by auto
  note q = refreshed_position [OF out r(1,3,2)]
  have "read_amount q h" using q(5) by (simp add: read_amount_def)
  then show ?thesis using sell_inv_leaves [OF inv task r(1), of s q] q(1-4) r(3) pl by auto
qed

lemma sell_inv_signs:
  assumes inv: "sell_inv ch y" and task: "ss_task y t = Working env ids i (AtSign p n pd h el)"
  shows "sell_inv ch ((with_task t (Working env ids i (AtSent p pending)) (set_pending_sell i (Some pending) (ss_app y)) y)
       \<lparr>ss_signed := insert (i, ps_signature pending) (ss_signed y)\<rparr>)"
proof -
  obtain q where q: "stored y i = Some q" "pos_status q = Selling" "pos_pending_sell q = None"
    using sell_inv_task [OF inv task] by auto
  show ?thesis
    using q signed_kept [OF inv _ _ q(1,3)]
    by (intro sell_inv_move [OF inv task, of _ "Working env ids i (AtSent p pending)" "q\<lparr>pos_pending_sell := Some pending\<rparr>"])
       (auto simp: positions_simps)
qed

lemma sell_inv_opened:
  assumes inv: "sell_inv ch y" and new: "stored y i = None" "pos_status p = Active"
    and s: "st_positions s = hm_insert i p (st_positions (ss_app y))"
  shows "sell_inv ch (y\<lparr>ss_app := s\<rparr>)"
proof -
  have at: "hm_get (st_positions s) j = (if j = i then Some p else stored y j)" for j using s by simp
  have ne: "j \<noteq> i" if "stored y j = Some r" for j r using that new by auto
  have "tasks_hold ch (y\<lparr>ss_app := s\<rparr>)" unfolding tasks_hold_def
    using sell_inv_task [OF inv] ne by (simp add: at) metis
  moreover have "one_task (y\<lparr>ss_app := s\<rparr>)" unfolding one_task_def
    using sell_inv_one_task [OF inv] by simp
  moreover have "selling_held (y\<lparr>ss_app := s\<rparr>)" unfolding selling_held_def
    using sell_inv_owner [OF inv] new by (auto simp: at)
  moreover have "signed_known (y\<lparr>ss_app := s\<rparr>)" unfolding signed_known_def
    using sell_inv_signed [OF inv] ne by (simp add: at) metis
  ultimately show ?thesis by (simp add: sell_inv_def)
qed

lemmas sell_inv_left =
  sell_inv_drops [OF _ _ positions_waits(2)] sell_inv_drops [OF _ _ positions_waits(3)] sell_inv_drops [OF _ _ positions_failure]

lemma sell_inv_step: "sell_step ch y y' \<Longrightarrow> sell_inv ch y \<Longrightarrow> sell_inv ch y'"
proof (induction rule: sell_step.induct)
  case (not_claimed y t env i ids now s)
  have "s = ss_app y" by (rule claim_for_sell_None [OF not_claimed(2)])
  with not_claimed(1) show ?case by (intro sell_inv_idle [OF not_claimed(3), of t "Looping env ids"]) simp_all
next
  case (nothing_earlier y t env ids i p)
  show ?case by (rule sell_inv_goes [OF nothing_earlier(3,1)]) (use nothing_earlier(2) in simp_all)
next
  case (burn_again y t env ids i p h el r0 last_sig sol toks r)
  have "read_amount p h" by (rule sell_inv_task [OF burn_again(3,1)]) simp
  with burn_again(2) have "plan_kept ch env (AtClose p (CloseBurn r))" by auto
  then show ?case by (rule sell_inv_goes [OF burn_again(3,1)]) simp
next
  case (plan_closes y t env ids i p h el last_sig)
  show ?case by (rule sell_inv_goes [OF plan_closes(2,1)]) simp_all
next
  case (to_sign y t env ids i p h el n last_sig pd)
  have "plan_kept ch env (AtSign p n pd h el)" by (rule sell_inv_task [OF to_sign(2,1)]) simp
  then show ?case by (rule sell_inv_goes [OF to_sign(2,1)]) simp
next
  case (signs y t env ids i p n pd h el fee_idx ixs pending sig lvbh)
  then show ?case using sell_inv_signs [OF signs(4,1), of pending] by simp
next
  case (check y t pool toks sol env now)
  show ?case using check by (intro sell_inv_idle [OF check(3), of t]) simp_all
next
  case (finish y t env)
  show ?case using finish by (intro sell_inv_idle [OF finish(2), of t]) simp_all
next
  case (claimed y t env i ids now p s)
  show ?case by (rule sell_inv_claim [OF claimed(3,1,2)])
next
  case (earlier y t env ids i p pd out change now on s)
  show ?case by (rule sell_inv_earlier [OF earlier(4,1,2,3)])
next
  case (planned y t env ids i p last_sig h q s el now pl)
  show ?case by (rule sell_inv_planned [OF planned(5,1,2,4)])
next
  case (sends y t env ids i p pending sent confirmed change now on s)
  show ?case by (rule sell_inv_sends [OF sends(3,1,2)])
next
  case (sold y t env ids i p sig h all_gone s)
  show ?case by (rule sell_inv_sold [OF sold(3,1,2)])
next
  case (closes y t env ids i p how bal sg sent confirmed ixs out now)
  show ?case by (rule sell_inv_closes [OF closes(3,1)])
next
  case (opened y i p s)
  show ?case by (rule sell_inv_opened [OF opened(5,1,2,4)])
next
  case (elsewhere s y)
  then show ?case by (simp add: sell_inv_def sell_inv_defs)
qed (rule sell_inv_left, assumption, assumption, simp, simp)+

lemma sell_reachable_inv: "sell_reachable ch y \<Longrightarrow> sell_inv ch y"
  by (induction rule: sell_reachable.induct) (auto intro: sell_inv_start sell_inv_step)

end
