(* ===== verification/Buy_Cycle.thy ===== *)
theory Buy_Cycle
  imports Sell_Safety
begin

text \<open>
  Buying, as \<open>handle_new_pool\<close>, \<open>market_of\<close> and \<open>buy_new_pool\<close> of \<open>engine.rs\<close> do it, and
  \<open>restore_single_position\<close>: the reads with their retries, what is decided on them, the instructions of
  a buy, and the tasks that buy side by side with those that sell, as a step relation over the shared
  state whose program counters are the code's waits.
\<close>

subsection \<open>Reads\<close>

text \<open>An answer of the RPC to one try: \<open>FetchMissing\<close> is an account not there (yet).\<close>

datatype 'a fetch = Fetched 'a | FetchMissing | FetchError

text \<open>The loop of \<open>fetch_pool_account_with_retry\<close> and \<open>fetch_token_balance_with_retry\<close>, from the n-th try.\<close>

fun fetch_from :: "nat \<Rightarrow> (nat \<Rightarrow> 'a fetch) \<Rightarrow> nat \<Rightarrow> 'a option" where
  "fetch_from 0 ask n = None"
| "fetch_from (Suc k) ask n =
     (case ask n of
        Fetched a \<Rightarrow> Some a
      | FetchMissing \<Rightarrow> fetch_from k ask (Suc n)
      | FetchError \<Rightarrow> None)"

definition fetch_with_retry :: "(nat \<Rightarrow> 'a fetch) \<Rightarrow> 'a option" where
  "fetch_with_retry ask = fetch_from pool_fetch_retries ask 0"

text \<open>
  \<open>confirm_transaction\<close>: the n-th poll's answer, \<open>Some ok\<close> once it is confirmed; an error, a signature
  not seen and one not confirmed yet are \<open>None\<close>.
\<close>

fun confirm_from :: "nat \<Rightarrow> (nat \<Rightarrow> bool option) \<Rightarrow> nat \<Rightarrow> confirm_answer" where
  "confirm_from 0 poll n = NotConfirmed"
| "confirm_from (Suc k) poll n =
     (case poll n of
        Some ok \<Rightarrow> (if ok then ConfirmedOk else ConfirmedFailed)
      | None \<Rightarrow> confirm_from k poll (Suc n))"

definition confirm_transaction :: "nat \<Rightarrow> (nat \<Rightarrow> bool option) \<Rightarrow> confirm_answer" where
  "confirm_transaction max_polls poll = confirm_from max_polls poll 0"

subsection \<open>Whether a pool is considered\<close>

definition handle_new_pool :: "chain \<Rightarrow> new_pool \<Rightarrow> app \<Rightarrow> (pubkey \<times> app) option" where
  "handle_new_pool ch n s =
     (case np_token ch n of
        None \<Rightarrow> None
      | Some (mint, program) \<Rightarrow>
         (if \<not> st_running s \<or> st_sell_only s then None
          else if cf_graduated_only (st_config s) \<and> \<not> np_graduated n then None
          else (case reserve_buy (np_pool n) mint s of
             (Inl why, s') \<Rightarrow> None
           | (Inr u, s') \<Rightarrow> Some (mint, s'))))"

record buy_env =
  be_amount :: u64
  be_bps :: u64
  be_min_pool_sol :: u64
  be_wallet :: pubkey
  be_cu_price :: u64
  be_cu_limit :: u32
  be_priority_fee :: u64

definition buy_env_of :: "app \<Rightarrow> buy_env option" where
  "buy_env_of s =
     (case st_wallet s of
        None \<Rightarrow> None
      | Some w \<Rightarrow>
         (let c = st_config s
          in Some \<lparr>be_amount = cf_buy_amount_lamports c, be_bps = cf_slippage_bps c,
               be_min_pool_sol = cf_min_pool_sol_lamports c, be_wallet = w, be_cu_price = cf_priority_fee_micro_lamports c,
               be_cu_limit = cf_compute_unit_limit c, be_priority_fee = priority_fee_lamports c\<rparr>))"

subsection \<open>The market\<close>

text \<open>What the RPC answers while a pool made by hand is read: its account, its vaults, its token's mint.\<close>

record market_reads =
  mr_account :: "nat \<Rightarrow> bytes fetch"
  mr_sol_vault :: "nat \<Rightarrow> u64 fetch"
  mr_token_vault :: "nat \<Rightarrow> u64 fetch"
  mr_mint :: "account_read option"

definition market_of :: "chain \<Rightarrow> new_pool \<Rightarrow> market_reads \<Rightarrow> market_error + (market \<times> u64 \<times> u64)" where
  "market_of ch n r =
     (case (np_side ch n, np_token ch n, np_sol_and_token ch n) of
        (Some sd, Some (mint, program), Some (sol, tokens)) \<Rightarrow>
          (if np_graduated n then
             Ok (\<lparr>mk_pool = np_pool n, mk_data = np_data n, mk_side = sd, mk_token_program = program\<rparr>, sol, tokens)
           else
             (case fetch_with_retry (mr_account r) of
                None \<Rightarrow> Err FetchPoolFailed
              | Some raw \<Rightarrow>
                 (case decode_pool raw of
                    Inl why \<Rightarrow> Err DeserializePoolFailed
                  | Inr data \<Rightarrow>
                     (if side_of ch data \<noteq> Some sd then Err NotAsCreated
                      else case not_tradable data (Some raw) of
                        Some why \<Rightarrow> Err (SkippedNotTradable why)
                      | None \<Rightarrow>
                         (case (fetch_with_retry (mr_sol_vault r), fetch_with_retry (mr_token_vault r)) of
                            (Some sol_now, Some tokens_now) \<Rightarrow>
                              (case mr_mint r of
                                 None \<Rightarrow> Err FetchMintFailed
                               | Some m \<Rightarrow>
                                  (case mint_blocks_selling ch (rd_data m) (rd_owner m) of
                                     Some why \<Rightarrow> Err (SkippedMint why)
                                   | None \<Rightarrow>
                                      Ok (\<lparr>mk_pool = np_pool n, mk_data = data, mk_side = sd, mk_token_program = rd_owner m\<rparr>,
                                          sol_now, tokens_now)))
                          | _ \<Rightarrow> Err FetchVaultFailed)))))
      | _ \<Rightarrow> Err NotWsolTokenPool)"

text \<open>\<open>why.starts_with("skipped")\<close>: not an error, and not logged as one.\<close>

fun market_skipped :: "market_error \<Rightarrow> bool" where
  "market_skipped (SkippedNotTradable why) = True"
| "market_skipped (SkippedMint why) = True"
| "market_skipped e = False"

subsection \<open>Deciding a buy\<close>

definition buy_needs :: "buy_env \<Rightarrow> u64" where
  "buy_needs env = u64_add (u64_add (be_amount env) (be_priority_fee env)) tx_fee_reserve"

text \<open>
  From the balance and the blockhash (with its last valid block height), each unread when the RPC failed,
  and the market: the market to buy on with its reserves, or what is logged, if anything is.
\<close>

definition buy_choose ::
  "chain \<Rightarrow> new_pool \<Rightarrow> buy_env \<Rightarrow> u64 option \<Rightarrow> u64 option \<Rightarrow> market_reads \<Rightarrow> log_text option + (market \<times> u64 \<times> u64 \<times> u64)" where
  "buy_choose ch n env balance blockhash r =
     (case balance of
        None \<Rightarrow> Err None
      | Some b \<Rightarrow>
         (if b < buy_needs env then Err (Some (InsufficientBalance b (buy_needs env)))
          else case blockhash of
            None \<Rightarrow> Err (Some BlockhashFailed)
          | Some last_valid \<Rightarrow>
             (case market_of ch n r of
                Inl e \<Rightarrow> Err (if market_skipped e then None else Some (MarketUnread e))
              | Inr (mk, sol, tokens) \<Rightarrow>
                 (if sol < be_min_pool_sol env then Err None else Ok (mk, sol, tokens, last_valid)))))"

definition buy_min_tokens :: "chain \<Rightarrow> buy_env \<Rightarrow> u64 \<Rightarrow> u64 \<Rightarrow> swap_error + u64" where
  "buy_min_tokens ch env sol tokens =
     (case tokens_for_sol ch sol tokens (be_amount env) of
        Inl e \<Rightarrow> Err e
      | Inr expected \<Rightarrow> with_slippage_min ch expected (be_bps env))"

definition buy_instructions :: "chain \<Rightarrow> buy_env \<Rightarrow> market \<Rightarrow> pubkey \<Rightarrow> u64 \<Rightarrow> nat \<Rightarrow> swap_error + instruction list" where
  "buy_instructions ch env mk mint min_tokens fee_index =
     map_sum id (\<lambda>ix. compute_budget ch (be_cu_price env) (be_cu_limit env) @
         [create_ata_if_needed ch (be_wallet env) mint (mk_token_program mk)] @
         wrap_sol ch (be_wallet env) (be_amount env) @ [ix, unwrap_sol ch (be_wallet env)])
       (buy_ix ch mk (be_wallet env) (be_amount env) min_tokens fee_index)"

text \<open>The order of a buy: the least tokens taken, and the transaction's instructions.\<close>

definition buy_order :: "chain \<Rightarrow> buy_env \<Rightarrow> market \<Rightarrow> pubkey \<Rightarrow> u64 \<Rightarrow> u64 \<Rightarrow> nat \<Rightarrow> log_text + (u64 \<times> instruction list)" where
  "buy_order ch env mk mint sol tokens fee_index =
     (case buy_min_tokens ch env sol tokens of
        Inl e \<Rightarrow> Err AmmMathFailed
      | Inr min_tokens \<Rightarrow>
         (case buy_instructions ch env mk mint min_tokens fee_index of
            Inl e \<Rightarrow> Err BuildBuyFailed
          | Inr ixs \<Rightarrow> Ok (min_tokens, ixs)))"

text \<open>
  Whether the buy landed: \<open>out\<close> is what \<open>settle_buy\<close> found, \<open>h\<close> what the wallet holds when it could not
  say.
\<close>

definition buy_landed :: "signature \<Rightarrow> send_answer \<Rightarrow> pending_outcome \<Rightarrow> holding \<Rightarrow> log_text + unit" where
  "buy_landed sig sent out h =
     (if sent = RefusedBySimulation then Err BuyRefused
      else case out of
        Landed \<Rightarrow> Ok ()
      | FailedOnChain \<Rightarrow> Err (BuyFailedOnChain sig)
      | _ \<Rightarrow>
         (case h of
            HoldingHeld held \<Rightarrow> (if held > 0 then Ok () else Err (BuyNotTracked sig out h))
          | _ \<Rightarrow> Err (BuyNotTracked sig out h)))"

definition bought_position :: "string \<Rightarrow> utc \<Rightarrow> buy_env \<Rightarrow> market \<Rightarrow> pubkey \<Rightarrow> u64 \<Rightarrow> holding \<Rightarrow> position" where
  "bought_position i now env mk mint min_tokens h =
     (let (amount, known) = (case h of HoldingHeld n \<Rightarrow> (if n > 0 then (n, True) else (min_tokens, False)) | _ \<Rightarrow> (min_tokens, False))
      in (position_opened i now (mk_pool mk) mint (u64_add (be_amount env) (be_priority_fee env)) amount
           (mk_token_program mk) (mk_side mk))\<lparr>pos_amount_known := known\<rparr>)"

definition open_bought :: "position \<Rightarrow> buy_env \<Rightarrow> signature \<Rightarrow> app \<Rightarrow> app" where
  "open_bought p env sig s =
     record_log (log_buy (pos_pool p) (pos_base_mint p) (be_amount env) (pos_base_amount p) sig)
       (s\<lparr>st_positions := hm_insert (pos_id p) p (st_positions s)\<rparr>)"

subsection \<open>Positions taken up at start\<close>

definition restored_position :: "chain \<Rightarrow> string \<Rightarrow> utc \<Rightarrow> pubkey \<Rightarrow> side \<Rightarrow> pubkey \<Rightarrow> u64 \<Rightarrow> pubkey \<Rightarrow> u64 \<Rightarrow> u64 \<Rightarrow> position" where
  "restored_position ch i now pool sd mint amount program sol tokens =
     (let value = max 1 (unwrap_or 0 (sol_for_tokens ch sol tokens amount))
      in (position_opened i now pool mint value amount program sd)\<lparr>pos_restored := True\<rparr>)"

datatype restore_error = RestorePool string | RestoreMintUnread | RestoreBlocked mint_block | RestoreNotWsol | RestoreReserves

definition restore_single_position ::
  "chain \<Rightarrow> string \<Rightarrow> utc \<Rightarrow> pubkey \<Rightarrow> bytes \<Rightarrow> pubkey \<Rightarrow> u64 \<Rightarrow> pubkey \<Rightarrow> market_reads \<Rightarrow> app \<Rightarrow> restore_error + app" where
  "restore_single_position ch i now pool raw mint amount program r s =
     (case decode_pool raw of
        Inl why \<Rightarrow> Err (RestorePool why)
      | Inr data \<Rightarrow>
         (case mr_mint r of
            None \<Rightarrow> Err RestoreMintUnread
          | Some m \<Rightarrow>
             (case mint_blocks_selling ch (rd_data m) (rd_owner m) of
                Some why \<Rightarrow> Err (RestoreBlocked why)
              | None \<Rightarrow>
                 (case side_of ch data of
                    None \<Rightarrow> Err RestoreNotWsol
                  | Some sd \<Rightarrow>
                     (case (fetch_with_retry (mr_token_vault r), fetch_with_retry (mr_sol_vault r)) of
                        (Some tokens, Some sol) \<Rightarrow>
                          (let p = restored_position ch i now pool sd mint amount program sol tokens
                           in Ok (push_notification pool mint (PositionRestored amount (pos_buy_price_lamports p))
                                (s\<lparr>st_positions := hm_insert i p (st_positions s)\<rparr>)))
                      | _ \<Rightarrow> Err RestoreReserves)))))"

text \<open>The deepest of a token's pools that can be read, is a WSOL/token pool and is tradable; the first of equals.\<close>

definition deeper_pool ::
  "chain \<Rightarrow> (pubkey \<Rightarrow> nat \<Rightarrow> u64 fetch) \<Rightarrow> (pubkey \<times> bytes \<times> u64) option \<Rightarrow> pubkey \<times> bytes \<Rightarrow> (pubkey \<times> bytes \<times> u64) option" where
  "deeper_pool ch vault best found =
     (case found of (address, raw) \<Rightarrow>
        (case decode_pool raw of
           Inl why \<Rightarrow> best
         | Inr p \<Rightarrow>
            (case side_of ch p of
               None \<Rightarrow> best
             | Some sd \<Rightarrow>
                (if not_tradable p (Some raw) \<noteq> None then best
                 else case fetch_with_retry (vault (fst (side_vaults sd p))) of
                   None \<Rightarrow> best
                 | Some sol \<Rightarrow>
                    (case best of
                       None \<Rightarrow> Some (address, raw, sol)
                     | Some (_, _, b) \<Rightarrow> (if sol > b then Some (address, raw, sol) else best))))))"

definition deepest_pool :: "chain \<Rightarrow> (pubkey \<Rightarrow> nat \<Rightarrow> u64 fetch) \<Rightarrow> (pubkey \<times> bytes) list \<Rightarrow> (pubkey \<times> bytes \<times> u64) option" where
  "deepest_pool ch vault found = foldl (deeper_pool ch vault) None found"

subsection \<open>The bot: tasks that buy and tasks that sell\<close>

text \<open>
  Where a buy stands: its slot taken, its configuration read, its pool qualified, its transaction signed,
  it landed, or it is over and its slot is to be given back.
\<close>

datatype buy_task =
    NoBuy
  | Reserved new_pool pubkey
  | Configured new_pool pubkey buy_env
  | Qualified new_pool pubkey buy_env market u64 u64 u64
  | BuySigned new_pool pubkey buy_env market u64 "instruction list" signature
  | Bought new_pool pubkey buy_env market u64 signature
  | BuyOver new_pool

text \<open>The largest number of positions configured so far is kept beside the state, for what is stated of it.\<close>

record bot =
  bo_sell :: sell_system
  bo_buy :: "nat \<Rightarrow> buy_task"
  bo_started :: bool
  bo_max :: nat

abbreviation bot_app :: "bot \<Rightarrow> app" where "bot_app b \<equiv> ss_app (bo_sell b)"

definition with_buy :: "nat \<Rightarrow> buy_task \<Rightarrow> app \<Rightarrow> bot \<Rightarrow> bot" where
  "with_buy t k s b = b\<lparr>bo_sell := (bo_sell b)\<lparr>ss_app := s\<rparr>, bo_buy := (bo_buy b)(t := k)\<rparr>"

text \<open>What is logged of a buy that ends without one.\<close>

definition buy_logged :: "new_pool \<Rightarrow> pubkey \<Rightarrow> buy_env \<Rightarrow> log_text option \<Rightarrow> app \<Rightarrow> app" where
  "buy_logged n mint env text s =
     (case text of None \<Rightarrow> s | Some e \<Rightarrow> push_error_log (np_pool n) mint (be_amount env) e s)"

text \<open>A buy that goes out, or may have, is timed.\<close>

definition buy_timed :: "new_pool \<Rightarrow> sighting \<Rightarrow> instant \<Rightarrow> send_answer \<Rightarrow> app \<Rightarrow> app" where
  "buy_timed n sg at sent s =
     (if sent = RefusedBySimulation then s else s\<lparr>st_timing := on_buy_sent (np_pool n) sg at (st_timing s)\<rparr>)"

text \<open>
  \<open>token_of\<close> is the token of a pool: a pool's address is derived from its two mints, so the chain never
  has one address for the pools of two tokens.
\<close>

inductive bot_step :: "chain \<Rightarrow> (pubkey \<Rightarrow> pubkey) \<Rightarrow> bot \<Rightarrow> bot \<Rightarrow> bool" for ch token_of where
  restores:
    "\<not> bo_started b \<Longrightarrow> hm_get (st_positions (bot_app b)) i = None \<Longrightarrow>
     restore_single_position ch i now pool raw mint amount program r (bot_app b) = Ok s \<Longrightarrow>
     bot_step ch token_of b (b\<lparr>bo_sell := (bo_sell b)\<lparr>ss_app := s\<rparr>\<rparr>)"
| starts: "bot_step ch token_of b (b\<lparr>bo_started := True\<rparr>)"
| sells: "sell_step ch (bo_sell b) y \<Longrightarrow> ss_task y \<noteq> ss_task (bo_sell b) \<Longrightarrow> bot_step ch token_of b (b\<lparr>bo_sell := y\<rparr>)"
| takes_slot:
    "bo_started b \<Longrightarrow> bo_buy b t = NoBuy \<Longrightarrow> handle_new_pool ch n (bot_app b) = Some (mint, s) \<Longrightarrow>
     token_of (np_pool n) = mint \<Longrightarrow>
     bot_step ch token_of b (with_buy t (Reserved n mint) s b)"
| no_wallet:
    "bo_buy b t = Reserved n mint \<Longrightarrow> buy_env_of (bot_app b) = None \<Longrightarrow>
     bot_step ch token_of b (with_buy t (BuyOver n) (bot_app b) b)"
| configures:
    "bo_buy b t = Reserved n mint \<Longrightarrow> buy_env_of (bot_app b) = Some env \<Longrightarrow>
     bot_step ch token_of b (with_buy t (Configured n mint env) (bot_app b) b)"
| not_chosen:
    "bo_buy b t = Configured n mint env \<Longrightarrow> buy_choose ch n env balance blockhash r = Err text \<Longrightarrow>
     bot_step ch token_of b (with_buy t (BuyOver n) (buy_logged n mint env text (bot_app b)) b)"
| qualifies:
    "bo_buy b t = Configured n mint env \<Longrightarrow> buy_choose ch n env balance blockhash r = Ok (mk, sol, tokens, last_valid) \<Longrightarrow>
     bot_step ch token_of b (with_buy t (Qualified n mint env mk sol tokens last_valid)
       (push_notification (np_pool n) mint (PoolQualified sol) (bot_app b)) b)"
| not_ordered:
    "bo_buy b t = Qualified n mint env mk sol tokens last_valid \<Longrightarrow>
     buy_order ch env mk mint sol tokens fee_index = Err text \<Longrightarrow>
     bot_step ch token_of b (with_buy t (BuyOver n) (buy_logged n mint env (Some text) (bot_app b)) b)"
| orders:
    "bo_buy b t = Qualified n mint env mk sol tokens last_valid \<Longrightarrow>
     buy_order ch env mk mint sol tokens fee_index = Ok (min_tokens, ixs) \<Longrightarrow>
     bot_step ch token_of b (with_buy t (BuySigned n mint env mk min_tokens ixs sig) (bot_app b) b)"
| not_landed:
    "bo_buy b t = BuySigned n mint env mk min_tokens ixs sig \<Longrightarrow> buy_landed sig sent out h = Err text \<Longrightarrow>
     bot_step ch token_of b (with_buy t (BuyOver n)
       (buy_logged n mint env (Some text) (buy_timed n sg at sent (bot_app b))) b)"
| lands:
    "bo_buy b t = BuySigned n mint env mk min_tokens ixs sig \<Longrightarrow> buy_landed sig sent out h = Ok () \<Longrightarrow>
     bot_step ch token_of b (with_buy t (Bought n mint env mk min_tokens sig) (buy_timed n sg at sent (bot_app b)) b)"
| opens:
    "bo_buy b t = Bought n mint env mk min_tokens sig \<Longrightarrow> hm_get (st_positions (bot_app b)) i = None \<Longrightarrow>
     bot_step ch token_of b (with_buy t (BuyOver n)
       (open_bought (bought_position i now env mk mint min_tokens h) env sig (bot_app b)) b)"
| gives_back:
    "bo_buy b t = BuyOver n \<Longrightarrow> bot_step ch token_of b (with_buy t NoBuy (release_buy (np_pool n) (bot_app b)) b)"
| settings:
    "st_positions s = st_positions (bot_app b) \<Longrightarrow> st_pending_buys s = st_pending_buys (bot_app b) \<Longrightarrow>
     st_seen_pools s = st_seen_pools (bot_app b) \<Longrightarrow>
     bot_step ch token_of b (b\<lparr>bo_sell := (bo_sell b)\<lparr>ss_app := s\<rparr>, bo_max := max (bo_max b) (cf_max_positions (st_config s))\<rparr>)"

definition bot_start :: "bot \<Rightarrow> bool" where
  "bot_start b \<longleftrightarrow> sell_start (bo_sell b) \<and> (\<forall>t. bo_buy b t = NoBuy) \<and> \<not> bo_started b \<and>
     st_pending_buys (bot_app b) = [] \<and> st_seen_pools (bot_app b) = [] \<and> bo_max b = cf_max_positions (st_config (bot_app b))"

inductive bot_reachable :: "chain \<Rightarrow> (pubkey \<Rightarrow> pubkey) \<Rightarrow> bot \<Rightarrow> bool" for ch token_of where
  bot_init: "bot_start b \<Longrightarrow> bot_reachable ch token_of b"
| bot_next: "bot_reachable ch token_of b \<Longrightarrow> bot_step ch token_of b b' \<Longrightarrow> bot_reachable ch token_of b'"

end
