(* ===== verification/Bot_Safety.thy ===== *)
theory Bot_Safety
  imports Buy_Cycle
begin

text \<open>
  The bot's tasks together: what a step of a selling task is to those that buy, the invariant of slots
  taken and positions open, and that every step keeps it.
\<close>

subsection \<open>What selling changes\<close>

text \<open>What a position is from its opening on, and selling never changes.\<close>

definition fixed_part :: "position \<Rightarrow> string \<times> pubkey \<times> pubkey \<times> u64 \<times> utc \<times> pubkey \<times> side \<times> bool" where
  "fixed_part p = (pos_id p, pos_pool p, pos_base_mint p, pos_buy_price_lamports p, pos_bought_at p,
     pos_quote_token_program p, pos_side p, pos_restored p)"

definition sale_edit :: "(position \<Rightarrow> position) \<Rightarrow> bool" where
  "sale_edit f \<longleftrightarrow> (\<forall>p. fixed_part (f p) = fixed_part p \<and> (pos_status (f p) = Sold \<longrightarrow> pos_status p = Sold))"

text \<open>Selling changes one position, by such an edit, and nothing of the slots.\<close>

definition edits :: "string \<Rightarrow> app \<Rightarrow> app \<Rightarrow> bool" where
  "edits i s s' \<longleftrightarrow>
     (\<exists>f. st_positions s' = hm_modify i f (st_positions s) \<and> sale_edit f) \<and>
     st_pending_buys s' = st_pending_buys s \<and> st_seen_pools s' = st_seen_pools s \<and> st_config s' = st_config s"

lemma hm_modify_twice: "hm_modify i g (hm_modify i f m) = hm_modify i (g \<circ> f) m"
  by (simp add: hm_modify_def)

lemma hm_modify_id: "hm_modify i (\<lambda>p. p) m = m"
  by (induction m) (auto simp: hm_modify_def)

lemma edits_refl [intro!]: "edits i s s"
  unfolding edits_def by (intro conjI exI [of _ "\<lambda>p. p"]) (simp_all add: hm_modify_id sale_edit_def)

lemma sale_edit_comp: "sale_edit f \<Longrightarrow> sale_edit g \<Longrightarrow> sale_edit (g \<circ> f)"
  unfolding sale_edit_def comp_def by metis

lemma edits_trans: "edits i s s' \<Longrightarrow> edits i s' s'' \<Longrightarrow> edits i s s''"
  unfolding edits_def by (elim conjE exE, intro conjI exI) (rule trans [OF _ hm_modify_twice], simp, erule (1) sale_edit_comp, simp_all)

lemma edits_set: "sale_edit f \<Longrightarrow> edits i s (set_position i f s)"
  unfolding edits_def set_position_def by auto

lemma edits_log: "edits i s (push_log l s)"
  using edits_refl [of i s] unfolding edits_def push_log_def by simp

lemma edits_sell_only: "edits i s (s\<lparr>st_sell_only := b\<rparr>)" "edits i s (s\<lparr>st_running := b\<rparr>)"
  using edits_refl [of i s] unfolding edits_def by simp_all

lemma sale_edit_failure: "sale_edit (after_failure now paid)"
  by (simp add: sale_edit_def fixed_part_def after_failure_def counted_failure_def Let_def)

lemma edits_sell_failed: "edits i s (snd (sell_failed i now paid s))"
  by (auto simp: sell_failed_def intro!: edits_set sale_edit_failure split: option.splits)

lemma edits_auto_stop: "edits i s (maybe_auto_stop_after_cycle s)"
  by (auto simp: maybe_auto_stop_after_cycle_def push_notification_def intro: edits_trans [OF edits_sell_only(2) edits_log])

lemma edits_failure: "edits i s (record_sell_failure i p now paid s)"
proof -
  obtain g s1 where f: "sell_failed i now paid s = (g, s1)" by fastforce
  have 1: "edits i s s1" using edits_sell_failed [of i s now paid] f by simp
  have "edits i s1 (maybe_auto_stop_after_cycle (push_error_log a b n e (s1\<lparr>st_sell_only := True\<rparr>)))" for a b n e
    unfolding push_error_log_def
    by (rule edits_trans [OF edits_trans [OF edits_sell_only(1) edits_log] edits_auto_stop])
  with 1 show ?thesis by (auto simp: record_sell_failure_def f Let_def intro: edits_trans)
qed

lemma edits_simple:
  "edits i s (wait_for_pending i now s)" "edits i s (hold i s)" "edits i s (back_to_active i s)"
  "edits i s (record_holding i n s)" "edits i s (set_pending_sell i pd s)" "edits i s (sell_succeeded i s)"
  by (simp_all add: wait_for_pending_def hold_def back_to_active_def record_holding_def set_pending_sell_def
      sell_succeeded_def edits_set sale_edit_def fixed_part_def)

lemma edits_proceeds: "edits i s (record_sell_proceeds i p pd change s)"
  unfolding record_sell_proceeds_def Let_def record_log_def
  by (rule edits_trans [OF edits_trans [OF edits_set edits_simple(6)] edits_log]) (simp add: sale_edit_def fixed_part_def)

lemma edits_report: "edits i s (report_sell_error p sig e s)"
  by (simp add: report_sell_error_def edits_log)

lemmas edits_ops = edits_simple edits_proceeds edits_failure edits_trans [OF edits_simple(5) edits_failure]
  edits_trans [OF edits_failure edits_report] edits_trans [OF edits_simple(1) edits_report]
  edits_trans [OF edits_trans [OF edits_simple(5) edits_failure] edits_report] edits_trans [OF edits_simple(4) edits_simple(3)]

lemma edits_settle_earlier: "settle_earlier i p pd out change now s = (on, s') \<Longrightarrow> edits i s s'"
  by (cases out) (auto simp: settle_earlier_def intro: edits_ops)

lemma edits_sell_sent: "sell_sent i p pd sent confirmed change now s = (on, s') \<Longrightarrow> edits i s s'"
  by (cases sent; cases confirmed) (auto simp: sell_sent_def intro: edits_ops)

lemma edits_after_sale: "after_sale i h s = (gone, s') \<Longrightarrow> edits i s s'"
  by (cases h) (auto simp: after_sale_def intro: edits_ops split: if_splits)

lemma edits_refreshed: "refreshed i h p s = (q, s') \<Longrightarrow> edits i s s'"
  by (cases h) (auto simp: refreshed_def Let_def intro: edits_ops)

lemma edits_claim: "claim_for_sell i now s = (r, s') \<Longrightarrow> edits i s s'"
  by (auto simp: claim_for_sell_def simp: sale_edit_def fixed_part_def intro!: edits_set split: option.splits if_splits)

lemma edits_close: "edits i s (close_position_after i p how out now s)"
proof (cases out)
  case (CloseDone sig)
  have "edits i s (set_position i (\<lambda>q. q\<lparr>pos_status := Closed\<rparr>) s)"
    by (rule edits_set) (simp add: sale_edit_def fixed_part_def)
  with CloseDone show ?thesis
    by (cases how) (auto simp: close_position_after_def Let_def record_log_def
        intro: edits_trans [OF _ edits_auto_stop] edits_trans [OF edits_trans [OF _ edits_log] edits_auto_stop])
next
  case (CloseFailed paid sent)
  show ?thesis unfolding close_position_after_def CloseFailed close_outcome.case
    by (rule edits_trans [OF edits_set edits_failure]) (simp add: sale_edit_def fixed_part_def)
qed

text \<open>
  Every step of a selling task edits one position, or none: one being sold, or one not being sold that it
  claims.
\<close>

definition sale_of :: "sell_system \<Rightarrow> sell_system \<Rightarrow> string \<Rightarrow> bool" where
  "sale_of y y' i \<longleftrightarrow> edits i (ss_app y) (ss_app y') \<and>
     (\<forall>p. stored y i = Some p \<longrightarrow> pos_status p = Selling \<or>
        pos_status p = Active \<and> (\<exists>q. stored y' i = Some q \<and> pos_status q = Selling))"

lemma sell_step_edits:
  assumes "sell_step ch y y'" "ss_task y' \<noteq> ss_task y" "sell_inv ch y"
  shows "ss_app y' = ss_app y \<or> (\<exists>i. sale_of y y' i)"
proof -
  have w: "\<forall>p. stored y i = Some p \<longrightarrow> pos_status p = Selling" if "ss_task y t = Working env ids i a" for t env ids i a
    by (rule sell_inv_task [OF assms(3) that]) simp
  have g: "\<exists>i. sale_of y y' i" if "ss_task y t = Working env ids i a" "edits i (ss_app y) (ss_app y')" for t env ids i a
    using w that unfolding sale_of_def by blast
  show ?thesis using assms(1,2)
  proof (cases rule: sell_step.cases)
    case (claimed t env i ids now p s)
    then have "sale_of y y' i"
      using claim_for_sell_Some [OF claimed(3)] edits_claim [OF claimed(3)] by (auto simp: sale_of_def)
    then show ?thesis by blast
  next
    case (not_claimed t env i ids now s)
    then show ?thesis using claim_for_sell_None [OF not_claimed(3)] by simp
  next
    case (earlier t env ids i p pd out change now on s)
    then show ?thesis using g [OF earlier(2)] edits_settle_earlier [OF earlier(4)] by simp
  next
    case (planned t env ids i p last_sig h q s el now pl)
    then show ?thesis using g [OF planned(2)] edits_refreshed [OF planned(3)] by simp
  next
    case (sends t env ids i p pending sent confirmed change now on s)
    then show ?thesis using g [OF sends(2)] edits_sell_sent [OF sends(3)] by simp
  next
    case (sold t env ids i p sig h all_gone s)
    then show ?thesis using g [OF sold(2)] edits_after_sale [OF sold(3)] by simp
  qed ((rule disjI1, simp; fail) | (rule disjI2, rule g, assumption, simp add: edits_ops edits_close))+
qed

subsection \<open>The invariant of slots and positions\<close>

text \<open>The pool and token a task is buying, and the pool whose slot it holds.\<close>

fun buying :: "buy_task \<Rightarrow> (pubkey \<times> pubkey) option" where
  "buying (Reserved n mint) = Some (np_pool n, mint)"
| "buying (Configured n mint env) = Some (np_pool n, mint)"
| "buying (Qualified n mint env mk sol tokens lv) = Some (np_pool n, mint)"
| "buying (BuySigned n mint env mk min_tokens ixs sig) = Some (np_pool n, mint)"
| "buying (Bought n mint env mk min_tokens sig) = Some (np_pool n, mint)"
| "buying k = None"

fun slot_of :: "buy_task \<Rightarrow> pubkey option" where
  "slot_of NoBuy = None"
| "slot_of (BuyOver n) = Some (np_pool n)"
| "slot_of k = map_option fst (buying k)"

lemma buying_slot: "buying k = Some (pool, mint) \<Longrightarrow> slot_of k = Some pool"
  by (cases k) auto

abbreviation pending :: "bot \<Rightarrow> (pubkey, pubkey) hash_map" where "pending b \<equiv> st_pending_buys (bot_app b)"
abbreviation held :: "bot \<Rightarrow> (string, position) hash_map" where "held b \<equiv> st_positions (bot_app b)"

text \<open>The slots whose buy may still open a position, and the open positions that took one.\<close>

definition live_slots :: "bot \<Rightarrow> nat" where
  "live_slots b = length (filter (\<lambda>pm. \<exists>t. buying (bo_buy b t) = Some pm) (pending b))"

definition took_slot :: "position \<Rightarrow> bool" where
  "took_slot p = (is_open p \<and> \<not> pos_restored p)"

definition slots_ok :: "bot \<Rightarrow> bool" where
  "slots_ok b \<longleftrightarrow> hm_ok (pending b) \<and> hm_ok (held b) \<and>
     (\<forall>t pool. slot_of (bo_buy b t) = Some pool \<longrightarrow> hm_contains (pending b) pool) \<and>
     (\<forall>t t' pool. slot_of (bo_buy b t) = Some pool \<longrightarrow> slot_of (bo_buy b t') = Some pool \<longrightarrow> t = t')"

definition tokens_ok :: "(pubkey \<Rightarrow> pubkey) \<Rightarrow> bot \<Rightarrow> bool" where
  "tokens_ok token_of b \<longleftrightarrow>
     (\<forall>pool mint. hm_get (pending b) pool = Some mint \<longrightarrow> token_of pool = mint) \<and>
     (\<forall>t pool mint. buying (bo_buy b t) = Some (pool, mint) \<longrightarrow> token_of pool = mint) \<and>
     (\<forall>t t' pool pool' mint. buying (bo_buy b t) = Some (pool, mint) \<longrightarrow> buying (bo_buy b t') = Some (pool', mint) \<longrightarrow> t = t') \<and>
     (\<forall>t pool mint i p. buying (bo_buy b t) = Some (pool, mint) \<longrightarrow> hm_get (held b) i = Some p \<longrightarrow>
        pos_base_mint p = mint \<longrightarrow> pos_status p = Closed)"

definition count_ok :: "bot \<Rightarrow> bool" where
  "count_ok b \<longleftrightarrow> hm_count took_slot (held b) + live_slots b \<le> bo_max b"

definition bot_inv :: "chain \<Rightarrow> (pubkey \<Rightarrow> pubkey) \<Rightarrow> bot \<Rightarrow> bool" where
  "bot_inv ch token_of b \<longleftrightarrow> sell_inv ch (bo_sell b) \<and> slots_ok b \<and> tokens_ok token_of b \<and> count_ok b \<and>
     cf_max_positions (st_config (bot_app b)) \<le> bo_max b"

lemma bot_inv_start: "bot_start b \<Longrightarrow> bot_inv ch token_of b"
  by (auto simp: bot_inv_def bot_start_def slots_ok_def tokens_ok_def count_ok_def live_slots_def hm_count_def hm_values_def
      sell_start_def intro: sell_inv_start)

lemma length_filter_mono: "(\<And>x. x \<in> set xs \<Longrightarrow> P x \<Longrightarrow> Q x) \<Longrightarrow> length (filter P xs) \<le> length (filter Q xs)"
  by (induction xs) (auto simp: le_SucI)

lemma hm_count_modify_le:
  assumes "hm_ok m" "\<And>v. hm_get m k = Some v \<Longrightarrow> P (f v) \<Longrightarrow> P v"
  shows "hm_count P (hm_modify k f m) \<le> hm_count P m"
proof (cases "hm_get m k")
  case None
  then show ?thesis by (simp add: hm_modify_absent)
next
  case (Some v)
  show ?thesis using hm_count_modify [OF assms(1) Some, of P f] assms(2) [OF Some] by (auto split: if_splits)
qed

lemma hm_get_in_values: "hm_get m k = Some v \<Longrightarrow> v \<in> set (hm_values m)"
  by (force simp: hm_get_def hm_values_def dest: map_of_SomeD)

text \<open>A step that changes neither slots nor positions but may move a task on within its slot.\<close>

lemma bot_inv_moves:
  assumes inv: "bot_inv ch token_of b" and k: "buying k = buying (bo_buy b t) \<or> buying k = None" "slot_of k = slot_of (bo_buy b t)"
    and s: "st_positions s = held b" "st_pending_buys s = pending b" "st_config s = st_config (bot_app b)"
  shows "bot_inv ch token_of (with_buy t k s b)" (is "bot_inv ch token_of ?b")
proof -
  have tasks: "bo_buy ?b = (bo_buy b)(t := k)" "held ?b = held b" "pending ?b = pending b"
    using s by (simp_all add: with_buy_def)
  have slot: "slot_of (bo_buy ?b u) = slot_of (bo_buy b u)" for u by (simp add: tasks k(2))
  have buy: "buying (bo_buy ?b u) = Some pm \<Longrightarrow> buying (bo_buy b u) = Some pm" for u pm
    using k(1) by (auto simp: tasks split: if_splits)
  have "sell_inv ch (bo_sell ?b)" using inv s(1) unfolding bot_inv_def sell_inv_def sell_inv_defs with_buy_def by simp
  moreover have "slots_ok ?b" using inv unfolding bot_inv_def slots_ok_def slot tasks(2,3) by simp
  moreover have "tokens_ok token_of ?b" using inv buy unfolding bot_inv_def tokens_ok_def tasks(2,3) by (smt (verit))
  moreover have "live_slots ?b \<le> live_slots b" unfolding live_slots_def tasks(3)
    by (rule length_filter_mono) (use buy in blast)
  ultimately show ?thesis using inv s(3) by (simp add: bot_inv_def count_ok_def tasks(2)) (simp add: with_buy_def)
qed

text \<open>Selling.\<close>

lemma bot_inv_sells:
  assumes inv: "bot_inv ch token_of b" and step: "sell_step ch (bo_sell b) y" "ss_task y \<noteq> ss_task (bo_sell b)"
  shows "bot_inv ch token_of (b\<lparr>bo_sell := y\<rparr>)" (is "bot_inv ch token_of ?b")
proof -
  have sinv: "sell_inv ch (bo_sell b)" using inv by (simp add: bot_inv_def)
  have "sell_inv ch (bo_sell ?b)" using sell_inv_step [OF step(1) sinv] by simp
  moreover have "slots_ok ?b \<and> tokens_ok token_of ?b \<and> count_ok ?b \<and> cf_max_positions (st_config (bot_app ?b)) \<le> bo_max ?b"
    using sell_step_edits [OF step sinv]
  proof
    assume "ss_app y = bot_app b"
    with inv show ?thesis by (simp add: bot_inv_def slots_ok_def tokens_ok_def count_ok_def live_slots_def)
  next
    assume "\<exists>i. sale_of (bo_sell b) y i"
    then obtain i f where f: "held ?b = hm_modify i f (held b)" "\<And>p. pos_base_mint (f p) = pos_base_mint p \<and> pos_restored (f p) = pos_restored p"
      and same: "pending ?b = pending b" "st_config (bot_app ?b) = st_config (bot_app b)"
      and wasopen: "\<And>p. hm_get (held b) i = Some p \<Longrightarrow> is_open p"
      unfolding sale_of_def edits_def sale_edit_def fixed_part_def is_open_def by auto
    have "hm_count took_slot (held ?b) \<le> hm_count took_slot (held b)"
      unfolding f(1) using inv wasopen f(2)
      by (intro hm_count_modify_le) (auto simp: bot_inv_def slots_ok_def took_slot_def)
    moreover have "live_slots ?b = live_slots b" unfolding live_slots_def same by simp
    ultimately have "count_ok ?b" using inv by (simp add: bot_inv_def count_ok_def)
    moreover have "slots_ok ?b" using inv unfolding bot_inv_def slots_ok_def same f(1) by simp
    moreover have "tokens_ok token_of ?b" unfolding tokens_ok_def same f(1)
    proof (intro conjI allI impI)
      fix t pool mint j p
      assume "buying (bo_buy ?b t) = Some (pool, mint)" "hm_get (hm_modify i f (held b)) j = Some p" "pos_base_mint p = mint"
      then obtain q where q: "hm_get (held b) j = Some q" "pos_base_mint q = mint" "buying (bo_buy b t) = Some (pool, mint)"
          "j = i \<or> p = q"
        using f(2) by (auto split: if_splits)
      then have "pos_status q = Closed" using inv unfolding bot_inv_def tokens_ok_def by metis
      with q wasopen show "pos_status p = Closed" by (auto simp: is_open_def)
    qed (use inv in \<open>unfold bot_inv_def tokens_ok_def, simp; metis\<close>)+
    ultimately show ?thesis using inv same by (simp add: bot_inv_def)
  qed
  ultimately show ?thesis by (simp add: bot_inv_def)
qed

text \<open>Taking a slot.\<close>

lemma handle_new_pool_Some:
  assumes "handle_new_pool ch n s = Some (mint, s')"
  shows "hm_get (st_positions s) i = Some p \<Longrightarrow> pos_base_mint p = mint \<Longrightarrow> pos_status p = Closed"
    "hm_get (st_pending_buys s) pool \<noteq> Some mint"
    "active_position_count s + length (st_pending_buys s) < cf_max_positions (st_config s)"
    "st_pending_buys s' = hm_insert (np_pool n) mint (st_pending_buys s)" "st_positions s' = st_positions s" "st_config s' = st_config s"
    "st_running s" "\<not> st_sell_only s" "np_pool n \<notin> set (st_seen_pools s)"
  using assms
  by (auto simp: handle_new_pool_def reserve_buy_def list_ex_iff Let_def split: option.splits if_splits dest!: hm_get_in_values)

lemma bot_inv_takes_slot:
  assumes inv: "bot_inv ch token_of b" and free: "bo_buy b t = NoBuy"
    and new: "handle_new_pool ch n (bot_app b) = Some (mint, s)" "token_of (np_pool n) = mint"
  shows "bot_inv ch token_of (with_buy t (Reserved n mint) s b)" (is "bot_inv ch token_of ?b")
proof -
  note h = handle_new_pool_Some [OF new(1)]
  have tasks: "bo_buy ?b = (bo_buy b)(t := Reserved n mint)" "held ?b = held b" "pending ?b = hm_insert (np_pool n) mint (pending b)"
    "st_config (bot_app ?b) = st_config (bot_app b)" "bo_max ?b = bo_max b"
    using h by (simp_all add: with_buy_def)
  have notpending: "hm_get (pending b) (np_pool n) = None"
    using inv h(2) [of "np_pool n"] new(2) unfolding bot_inv_def tokens_ok_def by (metis option.exhaust)
  have s: "slots_ok b" "tokens_ok token_of b" using inv by (simp_all add: bot_inv_def)
  have noslot: "slot_of (bo_buy b u) \<noteq> Some (np_pool n)" for u
    using s(1) notpending unfolding slots_ok_def hm_contains_def by metis
  have nomint: "buying (bo_buy b u) \<noteq> Some (pool, mint)" for u pool
    using s h(2) [of pool] buying_slot [of "bo_buy b u" pool mint]
    unfolding slots_ok_def tokens_ok_def hm_contains_def by (metis option.exhaust)
  have "sell_inv ch (bo_sell ?b)" using inv h(5) unfolding bot_inv_def sell_inv_def sell_inv_defs with_buy_def by simp
  moreover have "slots_ok ?b"
    using s(1) noslot unfolding slots_ok_def tasks by (auto simp: hm_contains_def)
  moreover have "tokens_ok token_of ?b"
    using s(2) nomint new(2) h(1) unfolding tokens_ok_def tasks by (auto split: if_splits)
  moreover have "count_ok ?b"
  proof -
    have "live_slots ?b \<le> length (pending ?b)" by (simp add: live_slots_def)
    also have "\<dots> = Suc (length (pending b))" unfolding tasks by (rule hm_insert_length_new [OF notpending])
    finally have "live_slots ?b \<le> Suc (length (pending b))" .
    moreover have "hm_count took_slot (held b) \<le> active_position_count (bot_app b)"
      unfolding active_position_count_def hm_count_def by (rule length_filter_mono) (simp add: took_slot_def)
    ultimately show ?thesis using h(3) inv unfolding count_ok_def tasks bot_inv_def by simp
  qed
  ultimately show ?thesis using inv by (simp add: bot_inv_def tasks)
qed

text \<open>Opening the position, and giving the slot back.\<close>

lemma bought_position_fields [simp]:
  "pos_id (bought_position i now env mk mint m h) = i" "pos_base_mint (bought_position i now env mk mint m h) = mint"
  "pos_status (bought_position i now env mk mint m h) = Active" "pos_restored (bought_position i now env mk mint m h) = False"
  "pos_pending_sell (bought_position i now env mk mint m h) = None" "pos_pool (bought_position i now env mk mint m h) = mk_pool mk"
  by (simp_all add: bought_position_def position_opened_def Let_def split: prod.splits)

lemma sell_inv_inserts:
  assumes "sell_inv ch y" "stored y i = None" "pos_status p = Active" "st_positions s = hm_insert i p (st_positions (ss_app y))"
  shows "sell_inv ch (y\<lparr>ss_app := s\<rparr>)"
  using assms by (rule sell_inv_opened)

lemma one_filter_less:
  "x \<in> set xs \<Longrightarrow> P x \<Longrightarrow> \<not> Q x \<Longrightarrow> (\<And>x. Q x \<Longrightarrow> P x) \<Longrightarrow> Suc (length (filter Q xs)) \<le> length (filter P xs)"
proof (induction xs)
  case (Cons a xs)
  have "length (filter Q xs) \<le> length (filter P xs)" by (rule length_filter_mono) (use Cons.prems(4) in blast)
  with Cons show ?case by (cases "x = a") auto
qed simp

lemma bot_inv_opens:
  assumes inv: "bot_inv ch token_of b" and task: "bo_buy b t = Bought n mint env mk min_tokens sig"
    and new: "hm_get (held b) i = None"
  shows "bot_inv ch token_of (with_buy t (BuyOver n) (open_bought (bought_position i now env mk mint min_tokens h) env sig (bot_app b)) b)"
    (is "bot_inv ch token_of ?b")
proof -
  let ?p = "bought_position i now env mk mint min_tokens h"
  have tasks: "bo_buy ?b = (bo_buy b)(t := BuyOver n)" "held ?b = hm_insert i ?p (held b)" "pending ?b = pending b"
    "st_config (bot_app ?b) = st_config (bot_app b)" "bo_max ?b = bo_max b"
    by (simp_all add: with_buy_def open_bought_def record_log_def push_log_def)
  have s: "slots_ok b" "tokens_ok token_of b" using inv by (simp_all add: bot_inv_def)
  have mine: "buying (bo_buy b t) = Some (np_pool n, mint)" using task by simp
  have buy: "buying (bo_buy ?b u) = Some pm \<Longrightarrow> u \<noteq> t \<and> buying (bo_buy b u) = Some pm" for u pm
    by (auto simp: tasks split: if_splits)
  have slot: "slot_of (bo_buy ?b u) = slot_of (bo_buy b u)" for u using task by (simp add: tasks)
  have "sell_inv ch (bo_sell ?b)"
    using sell_inv_inserts [of ch "bo_sell b" i ?p "bot_app ?b"] inv new tasks(2) by (simp add: bot_inv_def) (simp add: with_buy_def)
  moreover have "slots_ok ?b" using s(1) unfolding slots_ok_def slot tasks(2,3) by simp
  moreover have "tokens_ok token_of ?b" unfolding tokens_ok_def tasks(2,3)
  proof (intro conjI allI impI)
    fix u pool m j p
    assume *: "buying (bo_buy ?b u) = Some (pool, m)" "hm_get (hm_insert i ?p (held b)) j = Some p" "pos_base_mint p = m"
    show "pos_status p = Closed"
    proof (cases "j = i")
      case True
      with *(2) have p: "?p = p" by simp
      have "pos_base_mint ?p = mint" by simp
      with *(3) have "m = mint" unfolding p by simp
      with * buy mine s(2) show ?thesis unfolding tokens_ok_def by metis
    next
      case False
      with * buy s(2) show ?thesis unfolding tokens_ok_def by (metis hm_get_insert)
    qed
  qed (use s(2) buy in \<open>unfold tokens_ok_def, metis\<close>)+
  moreover have "count_ok ?b"
  proof -
    have "hm_get (pending b) (np_pool n) = Some mint"
      using s mine buying_slot [OF mine] unfolding slots_ok_def tokens_ok_def hm_contains_def by (metis option.exhaust)
    then have mem: "(np_pool n, mint) \<in> set (pending b)" by (auto simp: hm_get_def dest: map_of_SomeD)
    have gone: "\<nexists>u. buying (bo_buy ?b u) = Some (np_pool n, mint)" using buy mine s(2) unfolding tokens_ok_def by metis
    have "Suc (live_slots ?b) \<le> live_slots b"
      unfolding live_slots_def tasks(3) by (rule one_filter_less [OF mem]) (use mine buy gone in blast)+
    moreover have "hm_count took_slot (held ?b) \<le> Suc (hm_count took_slot (held b))"
      unfolding tasks(2) using hm_count_insert_new [OF new, of took_slot ?p] by simp
    ultimately show ?thesis using inv by (simp add: count_ok_def bot_inv_def tasks(5))
  qed
  ultimately show ?thesis using inv by (simp add: bot_inv_def tasks)
qed

lemma bot_inv_gives_back:
  assumes inv: "bot_inv ch token_of b" and task: "bo_buy b t = BuyOver n"
  shows "bot_inv ch token_of (with_buy t NoBuy (release_buy (np_pool n) (bot_app b)) b)" (is "bot_inv ch token_of ?b")
proof -
  have tasks: "bo_buy ?b = (bo_buy b)(t := NoBuy)" "held ?b = held b" "pending ?b = hm_remove (np_pool n) (pending b)"
    "st_config (bot_app ?b) = st_config (bot_app b)" "bo_max ?b = bo_max b"
    by (simp_all add: with_buy_def release_buy_def)
  have s: "slots_ok b" "tokens_ok token_of b" using inv by (simp_all add: bot_inv_def)
  have buy: "buying (bo_buy ?b u) = Some pm \<Longrightarrow> buying (bo_buy b u) = Some pm" for u pm by (auto simp: tasks split: if_splits)
  have slot: "slot_of (bo_buy ?b u) = Some pool \<Longrightarrow> slot_of (bo_buy b u) = Some pool \<and> pool \<noteq> np_pool n" for u pool
    using s(1) task unfolding slots_ok_def tasks by (auto split: if_splits)
  have "sell_inv ch (bo_sell ?b)" using inv unfolding bot_inv_def sell_inv_def sell_inv_defs with_buy_def release_buy_def by simp
  moreover have "slots_ok ?b" using s(1) slot unfolding slots_ok_def tasks(2,3) by (simp add: hm_contains_def) metis
  moreover have "tokens_ok token_of ?b" using s(2) buy unfolding tokens_ok_def tasks(2,3) by (simp, metis)
  moreover have "live_slots ?b \<le> live_slots b"
    unfolding live_slots_def tasks(3) hm_remove_def filter_filter by (rule length_filter_mono) (use buy in blast)
  ultimately show ?thesis using inv by (simp add: bot_inv_def count_ok_def tasks)
qed

lemma restore_single_position_Ok:
  assumes "restore_single_position ch i now pool raw mint amount program r s = Ok s'"
  shows "\<exists>p. st_positions s' = hm_insert i p (st_positions s) \<and> pos_status p = Active \<and> pos_pending_sell p = None \<and> pos_restored p \<and>
    pos_base_mint p = mint \<and> pos_base_amount p = amount \<and> st_pending_buys s' = st_pending_buys s \<and> st_config s' = st_config s"
  using assms
  by (auto simp: restore_single_position_def push_notification_def push_log_def restored_position_def position_opened_def Let_def
      split: sum.splits option.splits)

text \<open>While positions are taken up no buy is under way.\<close>

definition not_buying :: "bot \<Rightarrow> bool" where
  "not_buying b \<longleftrightarrow> (bo_started b \<or> (\<forall>t. bo_buy b t = NoBuy))"

lemma bot_inv_restores:
  assumes inv: "bot_inv ch token_of b" and idle: "not_buying b" "\<not> bo_started b" and new: "hm_get (held b) i = None"
    and r: "restore_single_position ch i now pool raw mint amount program r (bot_app b) = Ok s"
  shows "bot_inv ch token_of (b\<lparr>bo_sell := (bo_sell b)\<lparr>ss_app := s\<rparr>\<rparr>)" (is "bot_inv ch token_of ?b")
proof -
  obtain p where p: "st_positions s = hm_insert i p (held b)" "pos_status p = Active" "pos_pending_sell p = None" "pos_restored p"
    "st_pending_buys s = pending b" "st_config s = st_config (bot_app b)"
    using restore_single_position_Ok [OF r] by blast
  have none: "bo_buy b t = NoBuy" for t using idle by (simp add: not_buying_def)
  have "sell_inv ch (bo_sell ?b)" using sell_inv_inserts [of ch "bo_sell b" i p s] inv new p by (simp add: bot_inv_def)
  moreover have "slots_ok ?b" "tokens_ok token_of ?b"
    using inv p none by (auto simp: bot_inv_def slots_ok_def tokens_ok_def)
  moreover have "live_slots ?b = 0" by (simp add: live_slots_def none)
  moreover have "hm_count took_slot (held ?b) = hm_count took_slot (held b)"
    using hm_count_insert_new [OF new, of took_slot p] p by (simp add: took_slot_def)
  ultimately show ?thesis using inv p by (simp add: bot_inv_def count_ok_def)
qed

lemma not_buying_step: "bot_step ch token_of b b' \<Longrightarrow> not_buying b \<Longrightarrow> not_buying b'"
  by (induction rule: bot_step.induct) (auto simp: not_buying_def with_buy_def)

lemma buy_logged_same [simp]:
  "st_positions (buy_logged n mint env e s) = st_positions s"
  "st_pending_buys (buy_logged n mint env e s) = st_pending_buys s" "st_config (buy_logged n mint env e s) = st_config s"
  by (cases e; simp add: buy_logged_def push_error_log_def push_log_def)+

lemma buy_timed_same [simp]:
  "st_positions (buy_timed n sg at sent s) = st_positions s"
  "st_pending_buys (buy_timed n sg at sent s) = st_pending_buys s" "st_config (buy_timed n sg at sent s) = st_config s"
  by (simp_all add: buy_timed_def)

lemma push_notification_same [simp]:
  "st_positions (push_notification a b c s) = st_positions s"
  "st_pending_buys (push_notification a b c s) = st_pending_buys s" "st_config (push_notification a b c s) = st_config s"
  by (simp_all add: push_notification_def push_log_def)

lemma bot_inv_step: "bot_step ch token_of b b' \<Longrightarrow> bot_inv ch token_of b \<Longrightarrow> not_buying b \<Longrightarrow> bot_inv ch token_of b'"
proof (induction rule: bot_step.induct)
  case (restores b i now pool raw mint amount program r s)
  show ?case by (rule bot_inv_restores [OF restores(4,5,1,2,3)])
next
  case (starts b)
  then show ?case by (simp add: bot_inv_def slots_ok_def tokens_ok_def count_ok_def live_slots_def)
next
  case (sells b y)
  show ?case by (rule bot_inv_sells [OF sells(3,1,2)])
next
  case (takes_slot b t n mint s)
  show ?case by (rule bot_inv_takes_slot [OF takes_slot(5,2,3,4)])
next
  case (opens b t n mint env mk min_tokens sig i now h)
  show ?case by (rule bot_inv_opens [OF opens(3,1,2)])
next
  case (gives_back b t n)
  show ?case by (rule bot_inv_gives_back [OF gives_back(2,1)])
next
  case (settings s b)
  then show ?case
    by (auto simp: bot_inv_def sell_inv_def sell_inv_defs slots_ok_def tokens_ok_def count_ok_def live_slots_def)
qed (rule bot_inv_moves, assumption, simp, simp, simp, simp, simp)+

lemma bot_reachable_inv: "bot_reachable ch token_of b \<Longrightarrow> bot_inv ch token_of b \<and> not_buying b"
proof (induction rule: bot_reachable.induct)
  case (bot_init b)
  then show ?case by (auto intro: bot_inv_start simp: not_buying_def bot_start_def)
next
  case (bot_next b b')
  then show ?case using bot_inv_step not_buying_step by blast
qed

end
