(* ===== verification/Sell_Properties.thy ===== *)
theory Sell_Properties
  imports Sell_Safety
begin

text \<open>
  What selling guarantees, whatever the number of tasks and however they interleave: no double sell,
  one task to a position, an end that is final, a take-profit that is one, and no token burned that was
  worth a sell.
\<close>

subsection \<open>Positions a step leaves alone\<close>

lemma settle_earlier_other:
  "settle_earlier i p pd out change now s = (on, s') \<Longrightarrow> j \<noteq> i \<Longrightarrow> hm_get (st_positions s') j = hm_get (st_positions s) j"
  by (cases out) (auto simp: settle_earlier_def positions_simps)

lemma sell_sent_other:
  "sell_sent i p pd sent confirmed change now s = (on, s') \<Longrightarrow> j \<noteq> i \<Longrightarrow> hm_get (st_positions s') j = hm_get (st_positions s) j"
  by (cases sent; cases confirmed) (auto simp: sell_sent_def positions_simps)

lemma after_sale_other:
  "after_sale i h s = (gone, s') \<Longrightarrow> j \<noteq> i \<Longrightarrow> hm_get (st_positions s') j = hm_get (st_positions s) j"
  by (cases h) (auto simp: after_sale_def positions_simps split: if_splits)

lemma refreshed_other:
  "refreshed i h p s = (q, s') \<Longrightarrow> j \<noteq> i \<Longrightarrow> hm_get (st_positions s') j = hm_get (st_positions s) j"
  by (cases h) (auto simp: refreshed_def positions_simps Let_def)

lemma close_position_after_other:
  "j \<noteq> i \<Longrightarrow> hm_get (st_positions (close_position_after i p how out now s)) j = hm_get (st_positions s) j"
  by (cases out; cases how) (simp_all add: close_position_after_def positions_simps Let_def)

lemma claim_for_sell_other:
  "claim_for_sell i now s = (r, s') \<Longrightarrow> hm_get (st_positions s) j = Some p \<Longrightarrow> pos_status p \<noteq> Active \<Longrightarrow>
     hm_get (st_positions s') j = Some p"
  by (auto simp: claim_for_sell_def may_sell_def positions_simps split: option.splits if_splits)

text \<open>A position that is not \<open>Active\<close> and that no task works on is as it was after any step.\<close>

lemma sell_step_frame:
  assumes "sell_step ch y y'" "stored y j = Some p" "pos_status p \<noteq> Active"
    "\<And>t env ids a. ss_task y t \<noteq> Working env ids j a"
  shows "stored y' j = Some p"
  using assms
proof (induction rule: sell_step.induct)
  case (not_claimed y t env i ids now s)
  then show ?case using claim_for_sell_other [OF not_claimed(2)] by simp
next
  case (claimed y t env i ids now q s)
  then show ?case using claim_for_sell_other [OF claimed(2)] by simp
next
  case (earlier y t env ids i q pd out change now on s)
  then have "j \<noteq> i" by auto
  with earlier show ?case using settle_earlier_other [OF earlier(3)] by simp
next
  case (planned y t env ids i q last_sig h r s el now pl)
  then have "j \<noteq> i" by auto
  with planned show ?case using refreshed_other [OF planned(2)] by simp
next
  case (sends y t env ids i q pending sent confirmed change now on s)
  then have "j \<noteq> i" by auto
  with sends show ?case using sell_sent_other [OF sends(2)] by simp
next
  case (sold y t env ids i q sig h all_gone s)
  then have "j \<noteq> i" by auto
  with sold show ?case using after_sale_other [OF sold(2)] by simp
next
  case (closes y t env ids i q how bal sg sent confirmed ixs out now)
  then have "j \<noteq> i" by auto
  with closes show ?case by (simp add: close_position_after_other)
next
  case (signs y t env ids i q n pd h el fee_idx ixs pending sig lvbh)
  then have "j \<noteq> i" by auto
  with signs show ?case by (simp add: positions_simps)
next
  case (opened y i q s)
  then show ?case by auto
qed (auto simp: positions_simps)

subsection \<open>A run to start from\<close>

text \<open>One task takes one position, in the first pool it checks, up to each of its sends; for the witnesses.\<close>

definition sample_id :: string where "sample_id = ''p''"

definition sample_position :: position where
  "sample_position = (position_opened sample_id 0 [20] [22] 100000 1000 [3] SolQuote)\<lparr>pos_amount_known := False\<rparr>"

definition sample_app :: "(string, position) hash_map \<Rightarrow> app" where
  "sample_app ps = (app_new sample_chain 0)\<lparr>st_wallet := Some [30], st_positions := ps\<rparr>"

definition sample_env :: "u64 \<Rightarrow> u64 \<Rightarrow> sell_env" where
  "sample_env toks sol = \<lparr>se_pool = [20], se_token_reserves = toks, se_sol_reserves = sol, se_multiplier = f64_1_1,
     se_bps = 500, se_timeout = 300, se_exit_sol = 1000000, se_wallet = [30]\<rparr>"

definition sample_system :: "app \<Rightarrow> sell_task \<Rightarrow> sell_system" where
  "sample_system s k = \<lparr>ss_app = s, ss_task = (\<lambda>t. NoTask)(0 := k), ss_signed = {}, ss_settled = {}\<rparr>"

definition sample_selling :: position where
  "sample_selling = sample_position\<lparr>pos_status := Selling\<rparr>"

definition sample_read :: "u64 \<Rightarrow> position" where
  "sample_read n = sample_selling\<lparr>pos_base_amount := n, pos_amount_known := True\<rparr>"

lemmas sample_defs = sample_id_def sample_position_def sample_app_def sample_env_def sample_system_def sample_selling_def
  sample_read_def position_opened_def app_new_def trade_config_default_def

lemma sample_with_task: "with_task 0 k s (sample_system s0 k0) = sample_system s k"
  by (simp add: with_task_def sample_system_def)

lemma sample_opened: "sell_reachable sample_chain (sample_system (sample_app [(sample_id, sample_position)]) NoTask)"
proof -
  have s: "sell_start (sample_system (sample_app []) NoTask)" by (simp add: sell_start_def sample_defs)
  have "sell_step sample_chain (sample_system (sample_app []) NoTask)
      ((sample_system (sample_app []) NoTask)\<lparr>ss_app := sample_app [(sample_id, sample_position)]\<rparr>)"
    by (rule opened [of _ sample_id sample_position]) (simp_all add: sample_defs)
  then show ?thesis using sell_next [OF sell_init [OF s]] by (simp add: sample_system_def)
qed

lemma sample_claimed:
  "sell_reachable sample_chain
     (sample_system (sample_app [(sample_id, sample_selling)]) (Working (sample_env toks sol) [] sample_id (AtSettle sample_selling)))"
proof -
  let ?s = "sample_app [(sample_id, sample_position)]"
  have ids: "ids_to_sell sample_chain (sample_env toks sol) ?s 0 = [sample_id]"
    by (simp add: ids_to_sell_def wants_sale_def may_sell_def claimed_on_every_check_def hm_values_def sample_defs)
  have env: "sell_env_of ?s [20] toks sol = Some (sample_env toks sol)"
    by (simp add: sell_env_of_def sample_defs)
  have 1: "sell_reachable sample_chain (sample_system ?s (Looping (sample_env toks sol) [sample_id]))"
    using sell_next [OF sample_opened check [of _ 0 "[20]" toks sol "sample_env toks sol" _ 0]] env
    by (simp add: sample_with_task ids) (simp add: sample_system_def ids)
  have claim: "claim_for_sell sample_id 0 ?s = (Some sample_selling, sample_app [(sample_id, sample_selling)])"
    by (simp add: claim_for_sell_def may_sell_def set_position_def hm_modify_def hm_get_def sample_defs)
  show ?thesis
    using sell_next [OF 1 claimed [of _ 0 "sample_env toks sol" sample_id "[]" 0]] claim
    by (simp add: sample_with_task) (simp add: sample_system_def)
qed

lemma sample_planned:
  assumes "pl = plan_now sample_chain (sample_env toks sol) (sample_read n) (HoldingHeld n) 0 sol toks"
  shows "sell_reachable sample_chain (sample_system (sample_app [(sample_id, sample_read n)])
     (Working (sample_env toks sol) [] sample_id (AtPlanned (sample_read n) (HoldingHeld n) 0 pl None)))"
proof -
  let ?s = "sample_app [(sample_id, sample_selling)]"
  have 1: "sell_reachable sample_chain (sample_system ?s (Working (sample_env toks sol) [] sample_id (AtRead sample_selling None)))"
    using sell_next [OF sample_claimed nothing_earlier [of _ 0 "sample_env toks sol" "[]" sample_id sample_selling]]
    by (simp add: sample_with_task) (simp add: sample_defs)
  have "refreshed sample_id (HoldingHeld n) sample_selling ?s = (sample_read n, sample_app [(sample_id, sample_read n)])"
    by (simp add: refreshed_def record_holding_def set_position_def hm_modify_def hm_get_def sample_defs)
  moreover have "elapsed_secs 0 (sample_read n) = 0" by (simp add: elapsed_secs_def sample_defs)
  ultimately show ?thesis
    using sell_next [OF 1 planned [of _ 0 "sample_env toks sol" "[]" sample_id sample_selling None "HoldingHeld n"
        "sample_read n" "sample_app [(sample_id, sample_read n)]" 0 0 pl]] assms
    by (simp add: sample_with_task) (simp add: sample_system_def sample_env_def)
qed

lemma sample_plan_sells:
  "plan_now sample_chain (sample_env 4000 1000000000) (sample_read 1000) (HoldingHeld 1000) 0 1000000000 4000 = PlanSell 190000000"
proof -
  have t: "take_profit_target 100000 f64_1_1 0 = 125000"
    by (simp add: take_profit_target_def f64_1_1_def u64_to_f64_def f64_make_def round_53_def bit_count.simps Let_def rust_arith fee_consts)
  show ?thesis
    by (simp add: plan_now_def plan_sell_def forced_exit_reason_def take_profit_reached_def worth_selling_def t
        sample_chain_def sample_defs tx_fee_lamports_def)
qed

lemma sample_plan_burns:
  "plan_now sample_chain (sample_env 1000000 1000000) (sample_read 1000) (HoldingHeld 1000) 0 1000000 1000000 =
     PlanBurn (ForcedOut (LowLiquidity 1000000))"
  by (simp add: plan_now_def plan_sell_def forced_exit_reason_def worth_selling_def sample_chain_def sample_defs tx_fee_lamports_def)

definition sample_pending :: pending_sell where
  "sample_pending = \<lparr>ps_signature = ''s'', ps_last_valid_block_height = 5, ps_min_out = 190000000\<rparr>"

abbreviation sample_pool :: pool where "sample_pool \<equiv> mk_data sample_market"

lemma sample_to_sign:
  "sell_reachable sample_chain (sample_system (sample_app [(sample_id, sample_read 1000)])
     (Working (sample_env 4000 1000000000) [] sample_id (AtSign (sample_read 1000) 190000000 sample_pool (HoldingHeld 1000) 0)))"
  using sell_next [OF sample_planned [OF sample_plan_sells [symmetric]]
      to_sign [of _ 0 "sample_env 4000 1000000000" "[]" sample_id "sample_read 1000" "HoldingHeld 1000" 0 190000000 None sample_chain sample_pool]]
  by (simp add: sample_with_task) (simp add: sample_system_def)

lemma sample_instructions:
  "\<exists>ixs. sell_instructions sample_chain (sample_env 4000 1000000000) sample_pool (sample_read 1000) 190000000 0 = Ok ixs"
  by (simp add: sell_instructions_def sell_ix_def market_swap_def sample_chain_def Let_def)

definition sample_sent :: sell_system where
  "sample_sent = (sample_system (sample_app [(sample_id, (sample_read 1000)\<lparr>pos_pending_sell := Some sample_pending\<rparr>)])
     (Working (sample_env 4000 1000000000) [] sample_id (AtSent (sample_read 1000) sample_pending)))
     \<lparr>ss_signed := {(sample_id, ''s'')}\<rparr>"

lemma sample_signed: "sell_reachable sample_chain sample_sent"
proof -
  obtain ixs where ixs: "sell_instructions sample_chain (sample_env 4000 1000000000) sample_pool (sample_read 1000) 190000000 0 = Ok ixs"
    using sample_instructions by blast
  have "set_pending_sell sample_id (Some sample_pending) (sample_app [(sample_id, sample_read 1000)]) =
      sample_app [(sample_id, (sample_read 1000)\<lparr>pos_pending_sell := Some sample_pending\<rparr>)]"
    by (simp add: set_pending_sell_def set_position_def hm_modify_def sample_app_def)
  then show ?thesis
    using sell_next [OF sample_to_sign signs [of _ 0 "sample_env 4000 1000000000" "[]" sample_id "sample_read 1000" 190000000
        sample_pool "HoldingHeld 1000" 0 sample_chain 0 ixs sample_pending "''s''" 5]] ixs
    by (simp add: sample_with_task sample_pending_def) (simp add: sample_system_def sample_sent_def sample_pending_def)
qed

subsection \<open>Properties\<close>

text \<open>
  C2: However many tasks check the pools at once and whatever the RPC answers, no position ever has two
  sells that can still land: of the sells signed for it, at most one is neither landed, failed on-chain,
  refused by its simulation nor expired.
\<close>

theorem no_two_sells_in_flight:
  assumes "sell_reachable ch y" and "(i, a) \<in> ss_signed y" "a \<notin> ss_settled y" and "(i, b) \<in> ss_signed y" "b \<notin> ss_settled y"
  shows "a = b"
  using sell_inv_signed [OF sell_reachable_inv [OF assms(1)]] assms(2-5) by (metis option.inject)

lemma no_two_sells_in_flight_witness:
  "(sample_id, ''s'') \<in> ss_signed sample_sent - UNIV \<times> ss_settled sample_sent \<and>
     ((sample_id, ''t'') \<notin> ss_signed sample_sent)"
proof -
  have "(sample_id, ''s'') \<in> ss_signed sample_sent" "''s'' \<notin> ss_settled sample_sent" "''t'' \<notin> ss_settled sample_sent"
    by (simp_all add: sample_sent_def sample_system_def)
  with no_two_sells_in_flight [OF sample_signed, of sample_id "''s''" "''t''"] show ?thesis by fastforce
qed

text \<open>
  C17: A position is marked as being sold exactly while one task has it, and never while two have: the
  mark that keeps the monitor and the swaps apart is neither shared nor left behind.
\<close>

theorem being_sold_is_one_task:
  assumes "sell_reachable ch y" and "hm_get (st_positions (ss_app y)) i = Some p"
  shows "pos_status p = Selling \<longleftrightarrow> (\<exists>!t. \<exists>env ids a. ss_task y t = Working env ids i a)"
proof -
  note inv = sell_reachable_inv [OF assms(1)]
  show ?thesis
    using sell_inv_owner [OF inv assms(2)] sell_inv_one_task [OF inv] sell_inv_task [OF inv] assms(2)
    by (metis option.inject)
qed

lemma being_sold_is_one_task_witness:
  "pos_status (sample_read 1000) = Selling \<and> (\<exists>!t. \<exists>env ids a. ss_task sample_sent t = Working env ids sample_id a)"
proof -
  have g: "hm_get (st_positions (ss_app sample_sent)) sample_id = Some ((sample_read 1000)\<lparr>pos_pending_sell := Some sample_pending\<rparr>)"
    by (simp add: sample_sent_def sample_defs hm_get_def)
  have "pos_status (sample_read 1000) = Selling" by (simp add: sample_defs)
  with being_sold_is_one_task [OF sample_signed g] show ?thesis by simp
qed

text \<open>
  The end of a position is final: one that is closed, or given up, stays as it is whatever any task
  does afterwards, so it is never claimed, sold or burned again.
\<close>

theorem the_end_is_final:
  assumes "sell_reachable ch y" and "sell_step ch y y'" and "hm_get (st_positions (ss_app y)) i = Some p"
    and "pos_status p \<in> {Closed, Failed, Sold}"
  shows "hm_get (st_positions (ss_app y')) i = Some p"
proof (rule sell_step_frame [OF assms(2,3)])
  show "pos_status p \<noteq> Active" using assms(4) by auto
  show "ss_task y t \<noteq> Working env ids i a" for t env ids a
    using sell_inv_task [OF sell_reachable_inv [OF assms(1)], of t env ids i a] assms(3,4) by fastforce
qed

definition sample_closed :: sell_system where
  "sample_closed = sample_system
     (close_position_after sample_id (sample_read 0) (CloseSold None) (CloseDone (Some ''s'')) 0 (sample_app [(sample_id, sample_read 0)]))
     (Looping (sample_env 4000 1000000000) [])"

lemma sample_closed_reached: "sell_reachable sample_chain sample_closed"
proof -
  let ?env = "sample_env 4000 1000000000"
  have pl: "plan_now sample_chain ?env (sample_read 0) (HoldingHeld 0) 0 1000000000 4000 = PlanCloseSoldOut"
    by (simp add: plan_now_def plan_sell_def)
  have 1: "sell_reachable sample_chain (sample_system (sample_app [(sample_id, sample_read 0)])
      (Working ?env [] sample_id (AtClose (sample_read 0) (CloseSold None))))"
    using sell_next [OF sample_planned [OF pl [symmetric]]
        plan_closes [of _ 0 ?env "[]" sample_id "sample_read 0" "HoldingHeld 0" 0 None]]
    by (simp add: sample_with_task) (simp add: sample_system_def)
  obtain ixs where "burn_and_close_ata sample_chain (se_wallet ?env) (pos_base_mint (sample_read 0))
      (pos_quote_token_program (sample_read 0)) (close_amount (sample_read 0) (CloseSold None)) (pos_close_sent (sample_read 0))
      (BalanceIs 0) (Some ''s'') SendOk ConfirmedOk = (ixs, CloseDone (Some ''s''))"
    by (simp add: burn_and_close_ata_def close_start_of_def close_amount_def)
  then show ?thesis
    using sell_next [OF 1 closes [of _ 0 ?env "[]" sample_id "sample_read 0" "CloseSold None" sample_chain
        "BalanceIs 0" "Some ''s''" SendOk ConfirmedOk ixs "CloseDone (Some ''s'')" 0]]
    by (simp add: sample_with_task sample_closed_def) (simp add: sample_system_def)
qed

lemma the_end_is_final_witness:
  "map_option pos_status (hm_get (st_positions (ss_app (with_task 0 NoTask (ss_app sample_closed) sample_closed))) sample_id) = Some Closed"
proof -
  obtain p where p: "hm_get (st_positions (ss_app sample_closed)) sample_id = Some p" "pos_status p = Closed"
    by (simp add: sample_closed_def sample_system_def close_position_after_def positions_simps Let_def sample_app_def
        hm_get_def hm_modify_def)
  have "sell_step sample_chain sample_closed (with_task 0 NoTask (ss_app sample_closed) sample_closed)"
    by (rule finish [of _ _ "sample_env 4000 1000000000"]) (simp add: sample_closed_def sample_system_def)
  from the_end_is_final [OF sample_closed_reached this p(1)] p(2) show ?thesis by simp
qed

text \<open>
  C20: Tokens are burned only when they are worth no more than a sell's fee: a burn that goes out burns
  exactly the balance read just before, which is what was decided on, and it was decided on reserves on
  which an exact-out sell of all of it was sure of at most 5,000 lamports.
\<close>

theorem only_the_worthless_is_burned:
  assumes "sell_reachable ch y" and "ss_task y t = Working env ids i (AtClose p (CloseBurn r))"
    and "burn_and_close_ata ch user mint program (close_amount p (CloseBurn r)) (pos_close_sent p) bal sg sent confirmed = (Some ixs, out)"
  shows "bal = BalanceIs (pos_base_amount p) \<and> 0 < pos_base_amount p \<and>
    ixs = [burn ch user mint program (pos_base_amount p), close_account ch user mint program] \<and>
    (\<exists>sol toks. let out = base_out_for_exact_quote_in ch sol toks (pos_base_amount p) (default_fee_bps ch)
       in (is_ok out \<or> out = Err ZeroLiquidity) \<and>
          unwrap_or 0 (with_slippage_min ch (unwrap_or 0 out) (se_bps env)) \<le> tx_fee_lamports)"
proof -
  have "plan_kept ch env (AtClose p (CloseBurn r))" by (rule sell_inv_task [OF sell_reachable_inv [OF assms(1)] assms(2)])
  then obtain h el sol toks where plan: "plan_now ch env p h el sol toks = PlanBurn r" and read: "read_amount p h" by auto
  from plan_burn_amount [OF plan read] plan have held: "h = HoldingHeld (pos_base_amount p)" "pos_base_amount p \<noteq> 0"
    by (auto simp: plan_now_def plan_sell_def split: if_splits)
  let ?out = "base_out_for_exact_quote_in ch sol toks (pos_base_amount p) (default_fee_bps ch)"
  have "(is_ok ?out \<or> ?out = Err ZeroLiquidity) \<and>
      unwrap_or 0 (with_slippage_min ch (unwrap_or 0 ?out) (se_bps env)) \<le> tx_fee_lamports"
    using plan held
    by (auto simp: plan_now_def plan_sell_def worth_selling_def Let_def split: sum.splits swap_error.splits if_splits)
  moreover have "bal = BalanceIs (pos_base_amount p) \<and>
      ixs = [burn ch user mint program (pos_base_amount p), close_account ch user mint program]"
    using assms(3) held
    by (auto simp: burn_and_close_ata_def close_amount_def close_start_of_def Let_def
        split: balance_answer.splits option.splits if_splits)
  ultimately show ?thesis using held by (auto simp: Let_def)
qed

lemma only_the_worthless_is_burned_witness:
  "\<exists>ixs out. burn_and_close_ata sample_chain [30] [22] [3] 1000 False (BalanceIs 1000) (Some ''s'') SendOk ConfirmedOk = (Some ixs, out) \<and>
     ixs = [burn sample_chain [30] [22] [3] 1000, close_account sample_chain [30] [22] [3]]"
proof -
  let ?env = "sample_env 1000000 1000000" and ?r = "ForcedOut (LowLiquidity 1000000)"
  let ?y = "sample_system (sample_app [(sample_id, sample_read 1000)])
    (Working ?env [] sample_id (AtClose (sample_read 1000) (CloseBurn ?r)))"
  have y: "sell_reachable sample_chain ?y"
    using sell_next [OF sample_planned [OF sample_plan_burns [symmetric]]
        burn_again [of _ 0 ?env "[]" sample_id "sample_read 1000" "HoldingHeld 1000" 0 ?r None sample_chain 1000000 1000000 ?r]]
      sample_plan_burns
    by (simp add: sample_with_task) (simp add: sample_system_def)
  have task: "ss_task ?y 0 = Working ?env [] sample_id (AtClose (sample_read 1000) (CloseBurn ?r))" by (simp add: sample_system_def)
  have n: "close_amount (sample_read 1000) (CloseBurn ?r) = 1000" "pos_close_sent (sample_read 1000) = False"
    "pos_base_amount (sample_read 1000) = 1000"
    by (simp_all add: close_amount_def sample_defs)
  obtain ixs out where ix: "burn_and_close_ata sample_chain [30] [22] [3] 1000 False (BalanceIs 1000) (Some ''s'') SendOk ConfirmedOk = (Some ixs, out)"
    by (simp add: burn_and_close_ata_def close_start_of_def Let_def)
  from only_the_worthless_is_burned [OF y task, of "[30]" "[22]" "[3]", unfolded n, OF ix] ix show ?thesis by blast
qed

text \<open>
  A take-profit is one: a sell signed for a position that neither drains nor is forced out sells all
  the tokens read just before and is sure to bring in the buy's cost and every fee of the trade, 15,000
  lamports and 5,000 for each sell that landed and failed, for every multiplier the configuration allows
  (as long as the target is a 64-bit number).
\<close>

theorem a_take_profit_is_one:
  assumes "sell_reachable ch y" and "ss_task y t = Working env ids i (AtSign p n pd h el)"
    and "\<not> pos_draining p" "forced_exit_reason el (se_timeout env) (se_sol_reserves env) (se_exit_sol env) = None"
    and "f64_is_finite (se_multiplier env)" "\<not> f64_lt_one (se_multiplier env)" "pos_buy_price_lamports p < 2 ^ 53"
    and "f64_to_u64 (f64_mul (u64_to_f64 (pos_buy_price_lamports p)) (se_multiplier env)) + 15000 + pos_sell_failures p * 5000 \<le> u64_max"
    and "chain_ok ch" "pos_base_amount p < 256 ^ 8" "n < 256 ^ 8" "sell_instructions ch env pd p n k = Ok ixs"
  shows "h = HoldingHeld (pos_base_amount p) \<and>
    pos_buy_price_lamports p + 15000 + pos_sell_failures p * 5000 \<le> n \<and>
    (\<exists>sw. read_swap ch (ix_data (ixs ! 1)) = Some sw \<and>
       swap_terms (pos_side p) sw = \<lparr>pays_sol = 0, pays_tokens = pos_base_amount p, gets_sol = n, gets_tokens = 0\<rparr>)"
proof -
  have "plan_kept ch env (AtSign p n pd h el)" by (rule sell_inv_task [OF sell_reachable_inv [OF assms(1)] assms(2)])
  then have plan: "plan_now ch env p h el (se_sol_reserves env) (se_token_reserves env) = PlanSell n" and read: "read_amount p h"
    by auto
  from plan read have held: "h = HoldingHeld (pos_base_amount p)"
    by (auto simp: plan_now_def plan_sell_def read_amount_def split: holding.splits if_splits)
  from plan held assms(3,4) have reached: "take_profit_target (pos_buy_price_lamports p) (se_multiplier env) (pos_sell_failures p) \<le> n"
    by (auto simp: plan_now_def plan_sell_def take_profit_reached_def Let_def split: sum.splits swap_error.splits if_splits)
  let ?v = "f64_to_u64 (f64_mul (u64_to_f64 (pos_buy_price_lamports p)) (se_multiplier env))"
  have "take_profit_target (pos_buy_price_lamports p) (se_multiplier env) (pos_sell_failures p) = ?v + 15000 + pos_sell_failures p * 5000"
    using assms(8) by (simp add: take_profit_target_def fee_consts u64_add_small u64_mul_small)
  moreover have "pos_buy_price_lamports p \<le> ?v" by (rule f64_mul_no_less [OF assms(7,5,6)])
  ultimately have price: "pos_buy_price_lamports p + 15000 + pos_sell_failures p * 5000 \<le> n" using reached by simp
  obtain si where si: "market_swap ch \<lparr>mk_pool = se_pool env, mk_data = pd, mk_side = pos_side p, mk_token_program = pos_quote_token_program p\<rparr>
      (sell_swap (pos_side p) (pos_base_amount p) n) (se_wallet env) k = Ok si" "ixs ! 1 = si"
    using assms(12) by (auto simp: sell_instructions_def sell_ix_def map_sum_def split: sum.splits)
  have "swap_u64 (sell_swap (pos_side p) (pos_base_amount p) n)" using assms(10,11) by (cases "pos_side p") simp_all
  then show ?thesis
    using held price market_swap_Ok [OF si(1)] si(2) by (simp add: read_swap_data [OF assms(9)] sell_swap_terms)
qed

lemma a_take_profit_is_one_witness: "pos_buy_price_lamports (sample_read 1000) + 15000 \<le> 190000000"
proof -
  let ?env = "sample_env 4000 1000000000"
  let ?y = "sample_system (sample_app [(sample_id, sample_read 1000)])
     (Working ?env [] sample_id (AtSign (sample_read 1000) 190000000 sample_pool (HoldingHeld 1000) 0))"
  obtain ixs where ixs: "sell_instructions sample_chain ?env sample_pool (sample_read 1000) 190000000 0 = Ok ixs"
    using sample_instructions by blast
  have task: "ss_task ?y 0 = Working ?env [] sample_id (AtSign (sample_read 1000) 190000000 sample_pool (HoldingHeld 1000) 0)"
    by (simp add: sample_system_def)
  have v: "f64_to_u64 (f64_mul (u64_to_f64 100000) f64_1_1) = 110000"
    by (simp add: f64_1_1_def u64_to_f64_def f64_make_def round_53_def bit_count.simps Let_def rust_arith)
  have f: "\<not> pos_draining (sample_read 1000)" "pos_buy_price_lamports (sample_read 1000) = 100000"
    "pos_sell_failures (sample_read 1000) = 0" "pos_base_amount (sample_read 1000) = 1000" "se_multiplier ?env = f64_1_1"
    "f64_is_finite f64_1_1" "\<not> f64_lt_one f64_1_1"
    "forced_exit_reason 0 (se_timeout ?env) (se_sol_reserves ?env) (se_exit_sol ?env) = None"
    by (simp_all add: sample_defs f64_1_1_def forced_exit_reason_def)
  show ?thesis
    using a_take_profit_is_one [OF sample_to_sign task f(1,8) _ _ _ _ sample_chain_ok _ _ ixs]
    by (simp add: f v u64_max_def)
qed

text \<open>
  A configuration the bot accepts can have a target that wraps: with a multiplier that is only
  required to be finite and at least one, the product saturates, the fees wrap it, and every sell of a
  position reaches the 14,999 lamports that are left, below what was paid for it.
\<close>

theorem a_target_can_wrap:
  "\<exists>c. validate parse c = Ok () \<and> take_profit_target (cf_buy_amount_lamports c) (cf_sell_multiplier c) 0 = 14999 \<and>
     14999 < cf_buy_amount_lamports c"
proof -
  let ?c = "trade_config_default\<lparr>cf_sell_multiplier := Finite False 4503599627370496 100\<rparr>"
  have "validate parse ?c = Ok ()"
    by (simp add: validate_def trade_config_default_def priority_fee_lamports_def div_ceil_def default_compute_unit_limit_def
        default_creator_max_pools_def u64_max_def)
  moreover have "take_profit_target (cf_buy_amount_lamports ?c) (cf_sell_multiplier ?c) 0 = 14999"
    by (simp add: trade_config_default_def take_profit_target_def u64_to_f64_def f64_make_def round_53_def bit_count.simps Let_def
        rust_arith fee_consts)
  ultimately show ?thesis by (intro exI [of _ ?c]) (simp add: trade_config_default_def)
qed

subsection \<open>Checks end, and failing positions are given up\<close>

text \<open>How many steps of its own a task has left at most, eight for each position still to take.\<close>

fun steps_at :: "sell_at \<Rightarrow> nat" where
  "steps_at (AtSettle p) = 7"
| "steps_at (AtRead p sig) = 6"
| "steps_at (AtPlanned p h el pl sig) = 5"
| "steps_at (AtSign p n pd h el) = 4"
| "steps_at (AtSent p pending) = 3"
| "steps_at (AtSold p sig) = 2"
| "steps_at (AtClose p how) = 1"

fun steps_left :: "sell_task \<Rightarrow> nat" where
  "steps_left NoTask = 0"
| "steps_left (Looping env ids) = 1 + 8 * length ids"
| "steps_left (Working env ids i a) = 1 + 8 * length ids + steps_at a"

lemma steps_left_step:
  "sell_step ch y y' \<Longrightarrow> ss_task y t \<noteq> NoTask \<Longrightarrow> ss_task y' t = ss_task y t \<or> steps_left (ss_task y' t) < steps_left (ss_task y t)"
  by (induction rule: sell_step.induct) auto

text \<open>Wherever a task stands, it has a next step, whatever was answered before.\<close>

lemma task_moves_to:
  assumes "sell_step ch y y'" "ss_task y' t \<noteq> ss_task y t"
  shows "\<exists>y'. sell_step ch y y' \<and> ss_task y' t \<noteq> ss_task y t"
  using assms by blast

lemma task_can_move:
  assumes "ss_task y t \<noteq> NoTask"
  shows "\<exists>y'. sell_step ch y y' \<and> ss_task y' t \<noteq> ss_task y t"
proof (cases "ss_task y t")
  case NoTask
  with assms show ?thesis by simp
next
  case (Looping env ids)
  show ?thesis
  proof (cases ids)
    case Nil
    with Looping show ?thesis using finish [of y t env ch] by (intro task_moves_to) auto
  next
    case (Cons i js)
    obtain r s where c: "claim_for_sell i 0 (ss_app y) = (r, s)" by fastforce
    with Looping Cons show ?thesis
      using not_claimed [of y t env i js 0 s ch] claimed [of y t env i js 0 _ s ch]
      by (cases r) (auto intro: task_moves_to)
  qed
next
  case (Working env ids i a)
  show ?thesis
  proof (cases a)
    case (AtSettle p)
    with Working have w: "ss_task y t = Working env ids i (AtSettle p)" by simp
    show ?thesis
    proof (cases "pos_pending_sell p")
      case None
      show ?thesis by (rule task_moves_to [OF nothing_earlier [OF w None]]) (simp add: w)
    next
      case (Some pd)
      obtain on s where c: "settle_earlier i p pd InFlight None 0 (ss_app y) = (on, s)" by fastforce
      show ?thesis by (rule task_moves_to [OF earlier [OF w Some c]]) (simp add: w)
    qed
  next
    case (AtRead p sig)
    with Working have w: "ss_task y t = Working env ids i (AtRead p sig)" by simp
    obtain q s where c: "refreshed i HoldingUnknown p (ss_app y) = (q, s)" by fastforce
    show ?thesis by (rule task_moves_to [OF planned [OF w c refl refl]]) (simp add: w)
  next
    case (AtPlanned p h el pl sig)
    with Working show ?thesis
      using plan_holds [of y t env ids i p h el sig ch] plan_retries [of y t env ids i p h el _ sig ch 0]
        plan_closes [of y t env ids i p h el sig ch] pool_unread [of y t env ids i p h el pl sig _ _ ch 0]
      by (cases pl) (auto intro!: task_moves_to)
  next
    case (AtSign p n pd h el)
    with Working show ?thesis using not_signed [of y t env ids i p n pd h el ch 0] by (auto intro!: task_moves_to)
  next
    case (AtSent p pd)
    with Working have w: "ss_task y t = Working env ids i (AtSent p pd)" by simp
    obtain b s where c: "sell_sent i p pd SendError NotConfirmed None 0 (ss_app y) = (b, s)" by fastforce
    show ?thesis by (rule task_moves_to [OF sends [OF w c]]) (simp add: w)
  next
    case (AtSold p sig)
    with Working have w: "ss_task y t = Working env ids i (AtSold p sig)" by simp
    obtain b s where c: "after_sale i HoldingUnknown (ss_app y) = (b, s)" by fastforce
    show ?thesis by (rule task_moves_to [OF sold [OF w c]]) (simp add: w)
  next
    case (AtClose p how)
    with Working have w: "ss_task y t = Working env ids i (AtClose p how)" by simp
    obtain ixs out where c: "burn_and_close_ata ch (se_wallet env) (pos_base_mint p) (pos_quote_token_program p)
        (close_amount p how) (pos_close_sent p) BalanceError None SendError NotConfirmed = (ixs, out)" by fastforce
    show ?thesis by (rule task_moves_to [OF closes [OF w c]]) (simp add: w)
  qed
qed

text \<open>
  C34: A check of a pool always ends: whatever the RPC answers and whatever the other tasks do, a task
  that is on its way has a next step, and its own steps count down, at most eight for each position it
  took up and one to finish; no step of another moves it back.
\<close>

theorem a_check_always_ends:
  assumes "ss_task y t \<noteq> NoTask"
  shows "(\<exists>y'. sell_step ch y y' \<and> ss_task y' t \<noteq> ss_task y t) \<and>
    (\<forall>y'. sell_step ch y y' \<longrightarrow> ss_task y' t \<noteq> ss_task y t \<longrightarrow> steps_left (ss_task y' t) < steps_left (ss_task y t))"
  using task_can_move [OF assms, of ch] steps_left_step [of ch y _ t] assms by blast

lemma a_check_always_ends_witness:
  "\<exists>y'. sell_step sample_chain sample_sent y' \<and> steps_left (ss_task y' 0) < 4"
proof -
  have t: "ss_task sample_sent 0 = Working (sample_env 4000 1000000000) [] sample_id (AtSent (sample_read 1000) sample_pending)"
    by (simp add: sample_sent_def sample_system_def)
  have "ss_task sample_sent 0 \<noteq> NoTask" unfolding t by simp
  from a_check_always_ends [OF this, of sample_chain]
  obtain y' where y': "sell_step sample_chain sample_sent y'" "steps_left (ss_task y' 0) < steps_left (ss_task sample_sent 0)" by blast
  then show ?thesis unfolding t by (intro exI [of _ y']) simp
qed

text \<open>A run of failed sells and closes of one position: when each came, and whether it paid a fee.\<close>

definition fails :: "string \<Rightarrow> (utc \<times> bool) list \<Rightarrow> app \<Rightarrow> app" where
  "fails i fs s = foldl (\<lambda>s (now, paid). snd (sell_failed i now paid s)) s fs"

definition paid_fails :: "(utc \<times> bool) list \<Rightarrow> nat" where
  "paid_fails fs = length (filter snd fs)"

lemma fails_snoc: "fails i (fs @ [(now, paid)]) s = snd (sell_failed i now paid (fails i fs s))"
  by (simp add: fails_def)

lemma paid_fails_snoc: "paid_fails (fs @ [(now, paid)]) = paid_fails fs + (if paid then 1 else 0)"
  by (simp add: paid_fails_def)

lemma paid_fails_le: "paid_fails fs \<le> length fs"
  by (simp add: paid_fails_def)

lemma fails_counts:
  assumes "hm_get (st_positions s) i = Some p" "pos_sell_attempts p = 0" "pos_sell_failures p = 0" "length fs \<le> u32_max"
  shows "\<exists>q. hm_get (st_positions (fails i fs s)) i = Some q \<and> pos_sell_attempts q = length fs \<and> pos_sell_failures q = paid_fails fs"
  using assms(4)
proof (induction fs rule: rev_induct)
  case Nil
  with assms show ?case by (simp add: fails_def paid_fails_def)
next
  case (snoc f fs)
  obtain now paid where f: "f = (now, paid)" by fastforce
  from snoc obtain q where "hm_get (st_positions (fails i fs s)) i = Some q" "pos_sell_attempts q = length fs" "pos_sell_failures q = paid_fails fs"
    by auto
  moreover have "u32_add (length fs) 1 = Suc (length fs)" "u32_add (paid_fails fs) 1 = Suc (paid_fails fs)"
    using snoc.prems paid_fails_le [of fs] by (simp_all add: u32_add_small)
  ultimately show ?case
    by (simp add: f fails_snoc paid_fails_snoc positions_simps after_failure_def counted_failure_def Let_def)
qed

lemma sell_wait_range: "1 \<le> n \<Longrightarrow> 2 \<le> sell_wait n \<and> sell_wait n \<le> 60"
proof -
  assume "1 \<le> n"
  then have "(2 :: int) ^ 1 \<le> 2 ^ min n 6" by (intro power_increasing) auto
  then show ?thesis by (simp add: sell_wait_def max_sell_retry_secs_def)
qed

text \<open>
  A position whose sells fail is retried and then given up, neither sooner nor later than meant:
  after any run of failures it is given up exactly when five of them paid their fee or there were
  twenty in all, and until then it is open again, to be tried after a wait of two to sixty seconds.
\<close>

theorem failing_is_given_up_in_time:
  assumes "hm_get (st_positions s) i = Some p" "pos_sell_attempts p = 0" "pos_sell_failures p = 0"
    and "Suc (length fs) \<le> u32_max"
  shows "\<exists>q. hm_get (st_positions (fails i (fs @ [(now, paid)]) s)) i = Some q \<and>
    (if 20 \<le> Suc (length fs) \<or> 5 \<le> paid_fails (fs @ [(now, paid)]) then pos_status q = Failed
     else pos_status q = Active \<and> (\<exists>w. pos_next_sell_at q = Some (now + secs w) \<and> 2 \<le> w \<and> w \<le> 60))"
proof -
  obtain q where q: "hm_get (st_positions (fails i fs s)) i = Some q" "pos_sell_attempts q = length fs" "pos_sell_failures q = paid_fails fs"
    using fails_counts [OF assms(1-3), of fs] assms(4) by auto
  have "u32_add (length fs) 1 = Suc (length fs)" "u32_add (paid_fails fs) 1 = Suc (paid_fails fs)"
    using assms(4) paid_fails_le [of fs] by (simp_all add: u32_add_small)
  then show ?thesis
    using q sell_wait_range [of "Suc (length fs)"]
    by (simp add: fails_snoc paid_fails_snoc positions_simps after_failure_def counted_failure_def given_up_def sell_limits Let_def) blast
qed

lemma failing_is_given_up_in_time_witness:
  "\<exists>q. hm_get (st_positions (fails sample_id (replicate 4 (0, True) @ [(0, True)]) (sample_app [(sample_id, sample_position)]))) sample_id = Some q \<and>
     pos_status q = Failed"
proof -
  have p: "hm_get (st_positions (sample_app [(sample_id, sample_position)])) sample_id = Some sample_position"
    "pos_sell_attempts sample_position = 0" "pos_sell_failures sample_position = 0"
    by (simp_all add: sample_defs hm_get_def)
  have n: "paid_fails (replicate 4 (0, True) @ [(0, True)]) = 5" by (simp add: paid_fails_def filter_replicate)
  have "Suc (length (replicate 4 (0 :: utc, True))) \<le> u32_max" by (simp add: u32_max_def)
  from failing_is_given_up_in_time [OF p this, of 0 True] show ?thesis unfolding n by simp
qed

end
