(* ===== verification/Engine_Properties.thy ===== *)
theory Engine_Properties
  imports Buy_Cycle
begin

text \<open>
  What the decisions and the loops of the engine come to: which mints can be sold, which reads succeed,
  that a buy's watch ends, and that a restart takes trading up as it was.
\<close>

subsection \<open>Mints\<close>

text \<open>Token-2022's extensions: a type, the length of the value, the value.\<close>

definition extension_bytes :: "nat \<times> bytes \<Rightarrow> bytes" where
  "extension_bytes e = le_bytes 2 (fst e) @ le_bytes 2 (length (snd e)) @ snd e"

definition extension_allowed :: "nat \<times> bytes \<Rightarrow> bool" where
  "extension_allowed e \<longleftrightarrow> fst e \<in> set allowed_mint_extensions \<and> length (snd e) < 256 ^ 2"

definition extensions_end :: "bytes \<Rightarrow> bool" where
  "extensions_end tail \<longleftrightarrow> length tail < 4 \<or> le_nat (take 2 tail) = 0"

definition extensions_ok :: "bytes \<Rightarrow> bool" where
  "extensions_ok d \<longleftrightarrow> (\<exists>es tail. d = concat (map extension_bytes es) @ tail \<and> list_all extension_allowed es \<and> extensions_end tail)"

lemma extensions_ok_end: "extensions_end d \<Longrightarrow> extensions_ok d"
  unfolding extensions_ok_def by (intro exI [of _ "[]"] exI [of _ d]) simp

lemma extensions_ok_cons:
  assumes "extension_allowed e"
  shows "extensions_ok (extension_bytes e @ d) \<longleftrightarrow> extensions_ok d"
proof
  assume "extensions_ok d"
  then obtain es tail where "d = concat (map extension_bytes es) @ tail" "list_all extension_allowed es" "extensions_end tail"
    unfolding extensions_ok_def by blast
  then show "extensions_ok (extension_bytes e @ d)"
    unfolding extensions_ok_def using assms by (intro exI [of _ "e # es"] exI [of _ tail]) simp
next
  assume "extensions_ok (extension_bytes e @ d)"
  then obtain es tail where s: "extension_bytes e @ d = concat (map extension_bytes es) @ tail"
      "list_all extension_allowed es" "extensions_end tail"
    unfolding extensions_ok_def by blast
  have ty: "0 < fst e" "fst e < 256 ^ 2" using assms by (auto simp: extension_allowed_def allowed_mint_extensions_def)
  show "extensions_ok d"
  proof (cases es)
    case Nil
    with s have "tail = extension_bytes e @ d" by simp
    with s(3) ty show ?thesis by (simp add: extensions_end_def extension_bytes_def le_nat_le_bytes_small del: le_bytes.simps)
  next
    case (Cons f fs)
    with s have f: "extension_allowed f" and eq: "extension_bytes e @ d = extension_bytes f @ concat (map extension_bytes fs) @ tail"
      by simp_all
    have tf: "fst f < 256 ^ 2" using f by (auto simp: extension_allowed_def allowed_mint_extensions_def)
    have 1: "take 2 (extension_bytes e @ d) = le_bytes 2 (fst e)" "take 2 (drop 2 (extension_bytes e @ d)) = le_bytes 2 (length (snd e))"
      by (simp_all add: extension_bytes_def del: le_bytes.simps)
    have 2: "take 2 (extension_bytes f @ x) = le_bytes 2 (fst f)" "take 2 (drop 2 (extension_bytes f @ x)) = le_bytes 2 (length (snd f))" for x
      by (simp_all add: extension_bytes_def del: le_bytes.simps)
    have "le_bytes 2 (fst e) = le_bytes 2 (fst f)" "le_bytes 2 (length (snd e)) = le_bytes 2 (length (snd f))"
      using 1 2 eq by metis+
    then have "length (snd e) = length (snd f)"
      using assms f by (metis extension_allowed_def le_nat_le_bytes_small)
    then have "length (extension_bytes e) = length (extension_bytes f)" by (simp add: extension_bytes_def)
    with eq have "d = concat (map extension_bytes fs) @ tail" by simp
    with s Cons show ?thesis unfolding extensions_ok_def by (intro exI [of _ fs] exI [of _ tail]) simp
  qed
qed

lemma extensions_ok_cut:
  assumes "extensions_ok d" "\<not> extensions_end d"
  shows "\<exists>e d'. d = extension_bytes e @ d' \<and> extension_allowed e"
proof -
  obtain es tail where s: "d = concat (map extension_bytes es) @ tail" "list_all extension_allowed es" "extensions_end tail"
    using assms(1) unfolding extensions_ok_def by blast
  with assms(2) obtain f fs where "es = f # fs" by (cases es) auto
  with s show ?thesis by (intro exI [of _ f] exI [of _ "concat (map extension_bytes fs) @ tail"]) simp
qed

lemma slice_drop: "slice d at n @ drop (at + n) d = drop at d"
  using append_take_drop_id [of n "drop at d"] by (simp add: slice_def add.commute)

text \<open>What the code reads at a place, and the extension it is the start of.\<close>

lemma extension_at:
  assumes "at + 4 \<le> length data" "at + 4 + le_nat (slice data (at + 2) 2) \<le> length data"
  shows "drop at data = extension_bytes (le_nat (slice data at 2), slice data (at + 4) (le_nat (slice data (at + 2) 2))) @
    drop (at + 4 + le_nat (slice data (at + 2) 2)) data"
proof -
  let ?len = "le_nat (slice data (at + 2) 2)"
  have l: "length (slice data (at + 4) ?len) = ?len" "length (slice data at 2) = 2" "length (slice data (at + 2) 2) = 2"
    using assms by (simp_all add: length_slice)
  have "le_bytes 2 (le_nat (slice data at 2)) = slice data at 2" "le_bytes 2 ?len = slice data (at + 2) 2"
    using le_bytes_le_nat [of "slice data at 2"] le_bytes_le_nat [of "slice data (at + 2) 2"] l by simp_all
  moreover have "slice data at 2 @ slice data (at + 2) 2 = slice data at 4"
    by (subst slice_join) simp_all
  moreover have "slice data at 4 @ slice data (at + 4) ?len = slice data at (4 + ?len)"
    by (rule slice_join) simp
  ultimately have "extension_bytes (le_nat (slice data at 2), slice data (at + 4) ?len) = slice data at (4 + ?len)"
    unfolding extension_bytes_def fst_conv snd_conv l(1) by (metis append_assoc)
  then show ?thesis using slice_drop [of data at "4 + ?len"] by (simp only: add.assoc)
qed

lemma extensions_block_None: "extensions_block data at = None \<longleftrightarrow> extensions_ok (drop at data)"
proof (induction data at rule: extensions_block.induct)
  case (1 data at)
  let ?ty = "le_nat (slice data at 2)" and ?len = "le_nat (slice data (at + 2) 2)"
  show ?case
  proof (cases "at + 4 \<le> length data \<and> ?ty \<noteq> 0")
    case False
    then have "extensions_end (drop at data)" by (auto simp: extensions_end_def slice_def)
    with False show ?thesis by (subst extensions_block.simps) (auto simp: Let_def intro: extensions_ok_end)
  next
    case True
    then have more: "\<not> extensions_end (drop at data)" by (auto simp: extensions_end_def slice_def)
    show ?thesis
    proof (cases "?ty \<in> set allowed_mint_extensions \<and> at + 4 + ?len \<le> length data")
      case ok: True
      let ?e = "(?ty, slice data (at + 4) ?len)"
      have "?len < 256 ^ 2" using le_nat_bound [of "slice data (at + 2) 2"] True by (simp add: length_slice)
      then have "extension_allowed ?e" using ok by (simp add: extension_allowed_def length_slice)
      then have "extensions_ok (drop at data) \<longleftrightarrow> extensions_ok (drop (at + 4 + ?len) data)"
        using extension_at [of at data] True ok extensions_ok_cons by auto
      moreover have "extensions_block data at = extensions_block data (at + 4 + ?len)"
        using True ok by (subst extensions_block.simps) (auto simp: Let_def)
      moreover have "extensions_block data (at + 4 + ?len) = None \<longleftrightarrow> extensions_ok (drop (at + 4 + ?len) data)"
        using 1 [OF _ refl refl] True ok by (simp add: not_less)
      ultimately show ?thesis by simp
    next
      case bad: False
      have "\<not> extensions_ok (drop at data)"
      proof
        assume "extensions_ok (drop at data)"
        from extensions_ok_cut [OF this more] obtain e d where e: "drop at data = extension_bytes e @ d" "extension_allowed e" by blast
        have ty: "fst e < 256 ^ 2" using e(2) by (auto simp: extension_allowed_def allowed_mint_extensions_def)
        have "drop (at + 2) data = drop 2 (drop at data)" by (simp add: add.commute)
        then have "slice data at 2 = le_bytes 2 (fst e)" "slice data (at + 2) 2 = le_bytes 2 (length (snd e))"
          unfolding slice_def e(1) by (simp_all add: extension_bytes_def del: le_bytes.simps)
        then have "?ty = fst e" "?len = length (snd e)" using e(2) ty by (simp_all add: extension_allowed_def le_nat_le_bytes_small)
        moreover have "length data - at = 4 + length (snd e) + length d" using arg_cong [OF e(1), of length] by (simp add: extension_bytes_def)
        ultimately show False using bad e(2) True by (simp add: extension_allowed_def)
      qed
      moreover have "extensions_block data at \<noteq> None"
        using True bad by (subst extensions_block.simps) (auto simp: Let_def)
      ultimately show ?thesis by simp
    qed
  qed
qed

text \<open>
  The check of a mint lets through exactly the tokens whose holders cannot be stopped: owned by a
  token program, without a freeze authority, and, when the account is longer than a plain mint, a
  Token-2022 mint whose extensions, read as the program lays them out up to the padding, are all of the
  six allowed; so every other extension, wherever it stands, is found.
\<close>

theorem mint_check_is_exact:
  "mint_blocks_selling ch data owner = None \<longleftrightarrow>
     owner \<in> {token_program ch, token_2022_program ch} \<and> 82 \<le> length data \<and> slice data 46 4 = [0, 0, 0, 0] \<and>
     (length data = 82 \<or> owner = token_2022_program ch \<and> 166 \<le> length data \<and> extensions_ok (drop 166 data))"
  by (auto simp: mint_blocks_selling_def mint_consts extensions_block_None)

subsection \<open>Watching a buy\<close>

abbreviation unsettled :: "pending_outcome \<Rightarrow> bool" where
  "unsettled o1 \<equiv> o1 = InFlight \<or> o1 = UnknownOutcome"

lemma settle_buy_from:
  assumes "\<And>k. 500 * (k + 1) \<le> elapsed k"
  shows "360 \<le> n + fuel \<Longrightarrow> n < 360 \<Longrightarrow>
     \<exists>m. n \<le> m \<and> m < 360 \<and> (\<forall>k. n \<le> k \<longrightarrow> k < m \<longrightarrow> unsettled (poll k)) \<and>
       (\<not> unsettled (poll m) \<and> settle_buy fuel poll elapsed n = Some (poll m) \<or>
        unsettled (poll m) \<and> settle_buy fuel poll elapsed n = Some UnknownOutcome \<and> 180000 \<le> elapsed m)"
proof (induction fuel arbitrary: n)
  case (Suc fuel)
  show ?case
  proof (cases "unsettled (poll n) \<and> elapsed n < 180000")
    case True
    then have "Suc n < 360" using assms [of n] by simp
    then obtain m where m: "Suc n \<le> m" "m < 360" "\<forall>k. Suc n \<le> k \<longrightarrow> k < m \<longrightarrow> unsettled (poll k)"
        "\<not> unsettled (poll m) \<and> settle_buy fuel poll elapsed (Suc n) = Some (poll m) \<or>
         unsettled (poll m) \<and> settle_buy fuel poll elapsed (Suc n) = Some UnknownOutcome \<and> 180000 \<le> elapsed m"
      using Suc.IH [of "Suc n"] Suc.prems by auto
    have "settle_buy (Suc fuel) poll elapsed n = settle_buy fuel poll elapsed (Suc n)"
      using True by (simp add: settle_buy_limit_secs_def)
    moreover have "unsettled (poll k)" if "n \<le> k" "k < m" for k using True m(3) that by (cases "k = n") auto
    ultimately show ?thesis using m(1,2,4) by (intro exI [of _ m]) auto
  next
    case False
    then show ?thesis using Suc.prems by (intro exI [of _ n]) (auto simp: settle_buy_limit_secs_def Let_def)
  qed
qed simp

text \<open>
  A buy is watched until it is settled, and not for ever: with half a second before each poll the
  watch ends within 360 polls, with the first outcome that settles it if one comes before three minutes
  are over, so that a buy seen to land is never left, and with "unknown", after which the wallet decides,
  only when none came in that time.
\<close>

theorem a_buy_is_watched_to_its_end:
  assumes "\<And>k. 500 * (k + 1) \<le> elapsed k"
  shows "\<exists>m < 360. (\<forall>k < m. unsettled (poll k)) \<and>
    (\<not> unsettled (poll m) \<and> settle_buy 360 poll elapsed 0 = Some (poll m) \<or>
     unsettled (poll m) \<and> settle_buy 360 poll elapsed 0 = Some UnknownOutcome \<and> 180000 \<le> elapsed m)"
  using settle_buy_from [of elapsed 0 360 poll] assms by auto

lemma a_buy_is_watched_to_its_end_witness:
  "settle_buy 360 (\<lambda>n. if n < 3 then InFlight else Landed) (\<lambda>n. 500 * (n + 1)) 0 = Some Landed"
proof -
  let ?poll = "\<lambda>n :: nat. if n < 3 then InFlight else Landed"
  obtain m where m: "m < 360" "\<forall>k < m. unsettled (?poll k)"
    "\<not> unsettled (?poll m) \<and> settle_buy 360 ?poll (\<lambda>n. 500 * (n + 1)) 0 = Some (?poll m) \<or>
     unsettled (?poll m) \<and> settle_buy 360 ?poll (\<lambda>n. 500 * (n + 1)) 0 = Some UnknownOutcome \<and> 180000 \<le> 500 * (m + 1)"
    using a_buy_is_watched_to_its_end [of "\<lambda>n. 500 * (n + 1)" ?poll] by auto
  have "m \<le> 3" using m(2) by (metis not_less_iff_gr_or_eq not_le pending_outcome.distinct(3) pending_outcome.distinct(7))
  with m(3) show ?thesis by (auto split: if_splits)
qed

subsection \<open>Reads\<close>

lemma fetch_from_Some:
  "fetch_from k ask n = Some a \<longleftrightarrow> (\<exists>m. n \<le> m \<and> m < n + k \<and> ask m = Fetched a \<and> (\<forall>j. n \<le> j \<longrightarrow> j < m \<longrightarrow> ask j = FetchMissing))"
proof (induction k arbitrary: n)
  case (Suc k)
  show ?case
  proof (cases "ask n")
    case FetchMissing
    then have "(\<exists>m. n \<le> m \<and> m < n + Suc k \<and> ask m = Fetched a \<and> (\<forall>j. n \<le> j \<longrightarrow> j < m \<longrightarrow> ask j = FetchMissing)) \<longleftrightarrow>
        (\<exists>m. Suc n \<le> m \<and> m < Suc n + k \<and> ask m = Fetched a \<and> (\<forall>j. Suc n \<le> j \<longrightarrow> j < m \<longrightarrow> ask j = FetchMissing))"
      by (metis Suc_leD Suc_leI add_Suc add_Suc_right fetch.distinct(1) le_neq_implies_less)
    with FetchMissing Suc show ?thesis by simp
  next
    case (Fetched b)
    have only: "m = n" if "n \<le> m" "\<forall>j. n \<le> j \<longrightarrow> j < m \<longrightarrow> ask j = FetchMissing" for m
      using that Fetched by (cases "n < m") auto
    show ?thesis
    proof
      assume "fetch_from (Suc k) ask n = Some a"
      with Fetched show "\<exists>m. n \<le> m \<and> m < n + Suc k \<and> ask m = Fetched a \<and> (\<forall>j. n \<le> j \<longrightarrow> j < m \<longrightarrow> ask j = FetchMissing)"
        by (intro exI [of _ n]) simp
    next
      assume "\<exists>m. n \<le> m \<and> m < n + Suc k \<and> ask m = Fetched a \<and> (\<forall>j. n \<le> j \<longrightarrow> j < m \<longrightarrow> ask j = FetchMissing)"
      with only have "ask n = Fetched a" by blast
      then show "fetch_from (Suc k) ask n = Some a" by simp
    qed
  next
    case FetchError
    have "m = n" if "n \<le> m" "\<forall>j. n \<le> j \<longrightarrow> j < m \<longrightarrow> ask j = FetchMissing" for m
      using that FetchError by (cases "n < m") auto
    with FetchError show ?thesis by simp (metis fetch.distinct(3))
  qed
qed simp

text \<open>
  An account not there yet is asked for again, at most ten times, and nothing else is: a read
  succeeds exactly with the first answer that finds it among ten tries before which each found it
  missing; any other error ends it at once.
\<close>

theorem reads_wait_for_the_account:
  "fetch_with_retry ask = Some a \<longleftrightarrow> (\<exists>m < 10. ask m = Fetched a \<and> ask ` {..<m} \<subseteq> {FetchMissing})"
  unfolding fetch_with_retry_def pool_fetch_retries_def fetch_from_Some by (auto simp: image_subset_iff)

subsection \<open>A restart\<close>

lemma trading_as_str_back: "trading_of_str (trading_as_str t) = Some t"
  by (cases t) (simp_all add: trading_of_str_def)

lemma bans_taken_up:
  "{c. is_banned w c} \<union> g ` set xs \<subseteq> {c. is_banned (foldl (\<lambda>w x. snd (ban (g x) (r x) w)) w xs) c}"
proof (induction xs arbitrary: w)
  case (Cons x xs)
  have "{c. is_banned w c} \<union> {g x} \<subseteq> {c. is_banned (snd (ban (g x) (r x) w)) c}"
    using ban_bans [of "g x" "r x" w] ban_keeps [of w _ _ "g x" "r x"] by (auto simp: is_banned_def hm_contains_def)
  with Cons [of "snd (ban (g x) (r x) w)"] show ?case by auto
qed simp

lemma traced_bans: "is_banned (foldl (\<lambda>w c. mark_traced c w) w cs) c = is_banned w c"
  by (induction cs arbitrary: w) (simp_all add: mark_traced_def is_banned_def)

text \<open>
  A restart takes up what was saved: whatever the state was when it was saved, trading runs, sells
  only or is stopped as then, what is reported as resumed is whether it runs, and every creator saved as
  banned or listed in the configuration is banned.
\<close>

theorem a_restart_takes_up_trading:
  "(case take_up_saved parse (Some (bans, traced, trading_of_str (trading_as_str (persisted_trading s0)))) s of (resumed, s') \<Rightarrow>
     resumed = st_running s0 \<and> st_running s' = st_running s0 \<and> st_sell_only s' = (st_running s0 \<and> st_sell_only s0) \<and>
     fst ` set bans \<union> set (List.map_filter parse (cf_banned_creators (st_config s))) \<subseteq> {c. is_banned (st_creators s') c})"
proof -
  let ?w = "foldl (\<lambda>w (c, r). snd (ban c r w)) (st_creators s) bans"
  let ?w2 = "foldl (\<lambda>w c. mark_traced c w) ?w traced"
  let ?listed = "List.map_filter parse (cf_banned_creators (st_config s))"
  have "(\<lambda>w (c, r). snd (ban c r w)) = (\<lambda>w x. snd (ban (fst x) (snd x) w))" by (simp add: fun_eq_iff split_beta)
  then have 1: "fst ` set bans \<subseteq> {c. is_banned ?w2 c}"
    using bans_taken_up [where g = fst and r = snd and xs = bans and w = "st_creators s"] by (auto simp: traced_bans case_prod_beta)
  have 2: "{c. is_banned ?w2 c} \<union> set ?listed \<subseteq> {c. is_banned (foldl (\<lambda>w c. snd (ban c ListedInConfig w)) ?w2 ?listed) c}"
    using bans_taken_up [where g = "\<lambda>c. c" and r = "\<lambda>c. ListedInConfig" and xs = ?listed and w = ?w2] by simp
  show ?thesis
    unfolding take_up_saved_def trading_as_str_back using 1 2
    by (auto simp: persisted_trading_def Let_def)
qed

end
