(* ===== verification/Bot_Properties.thy ===== *)
theory Bot_Properties
  imports Bot_Safety Sell_Properties Engine_Properties
begin

text \<open>
  What the bot guarantees with buys and sells side by side, what a buy is decided on and signs, and the
  loops and reads it rests on.
\<close>

subsection \<open>Slots and positions\<close>

text \<open>
  C4: One token is bought once: while a pool's buy is under way, no other task is buying the same token,
  and no position in it is open, being sold or given up, whatever the streams announce and however the
  tasks interleave.
\<close>

theorem one_buy_per_token:
  assumes "bot_reachable ch token_of b" and "buying (bo_buy b t) = Some (pool, mint)"
  shows "(\<forall>t' pool'. buying (bo_buy b t') = Some (pool', mint) \<longrightarrow> t' = t) \<and>
    (\<forall>i p. hm_get (st_positions (ss_app (bo_sell b))) i = Some p \<longrightarrow> pos_base_mint p = mint \<longrightarrow> pos_status p = Closed)"
  using bot_reachable_inv [OF assms(1)] assms(2) unfolding bot_inv_def tokens_ok_def by metis

text \<open>
  C11: The limit on positions holds at every moment: the open positions the bot bought, and the buys that
  may still open one, are together never more than the most positions configured so far; positions taken
  up from the wallet at the start are not bought and do not count here.
\<close>

theorem positions_within_the_limit:
  assumes "bot_reachable ch token_of b"
  shows "hm_count took_slot (st_positions (ss_app (bo_sell b))) + live_slots b \<le> bo_max b"
  using bot_reachable_inv [OF assms] by (simp add: bot_inv_def count_ok_def)

text \<open>A bot that has taken up nothing, and takes the slot of one graduation.\<close>

definition sample_running :: app where
  "sample_running = (sample_app [])\<lparr>st_running := True\<rparr>"

definition sample_bot :: bot where
  "sample_bot = \<lparr>bo_sell = sample_system sample_running NoTask, bo_buy = (\<lambda>t. NoBuy), bo_started = False, bo_max = 1\<rparr>"

definition sample_pool_seen :: new_pool where
  "sample_pool_seen = \<lparr>np_pool = [20], np_data = sample_pool, np_base_token_program = [3], np_quote_token_program = [2],
     np_base_reserves = 4000, np_quote_reserves = 1000000000, np_graduated = True, np_flagged = False\<rparr>"

definition sample_reserved :: app where
  "sample_reserved = sample_running\<lparr>st_seen_pools := [[20]], st_pending_buys := [([20], [22])]\<rparr>"

definition sample_buying :: bot where
  "sample_buying = with_buy 0 (Reserved sample_pool_seen [22]) sample_reserved (sample_bot\<lparr>bo_started := True\<rparr>)"

lemma sample_slot: "handle_new_pool sample_chain sample_pool_seen sample_running = Some ([22], sample_reserved)"
  by (simp add: handle_new_pool_def np_token_def np_side_def side_of_def sample_pool_seen_def sample_market_def sample_running_def
      sample_reserved_def sample_app_def app_new_def trade_config_default_def sample_chain_def reserve_buy_def
      active_position_count_def hm_count_def hm_values_def seen_pools_cap_def)

lemma sample_bot_reached: "bot_reachable sample_chain (\<lambda>p. [22]) sample_bot"
  by (rule bot_init) (simp add: bot_start_def sell_start_def sample_bot_def sample_system_def sample_running_def sample_app_def
      app_new_def trade_config_default_def)

lemma sample_buying_reached: "bot_reachable sample_chain (\<lambda>p. [22]) sample_buying"
  unfolding sample_buying_def
  by (rule bot_next [OF bot_next [OF sample_bot_reached starts]], rule takes_slot)
     (use sample_slot in \<open>simp_all add: sample_bot_def sample_system_def\<close>)

lemma one_buy_per_token_witness: "bo_buy sample_buying 1 = NoBuy \<and> buying (bo_buy sample_buying 0) = Some ([20], [22])"
proof -
  have b: "buying (bo_buy sample_buying 0) = Some ([20], [22])"
    by (simp add: sample_buying_def with_buy_def sample_pool_seen_def)
  from one_buy_per_token [OF sample_buying_reached b] have "buying (bo_buy sample_buying 1) \<noteq> Some ([20], [22])" by fastforce
  with b show ?thesis by (simp add: sample_buying_def with_buy_def sample_bot_def)
qed

lemma positions_within_the_limit_witness: "live_slots sample_buying \<le> 1"
  using positions_within_the_limit [OF sample_buying_reached] by (simp add: sample_buying_def with_buy_def sample_bot_def)

text \<open>
  C35: A position keeps to its states and to what it is: in any step of any task its status either stays
  or goes from active to being sold, or from being sold back to active, to closed or to given up; and its
  pool, token, side, cost, time and token program never change.
\<close>

theorem positions_keep_their_type:
  assumes "sell_reachable ch y" and "sell_step ch y y'" and "ss_task y' \<noteq> ss_task y"
    and "hm_get (st_positions (ss_app y)) i = Some p"
  shows "\<exists>q. hm_get (st_positions (ss_app y')) i = Some q \<and> fixed_part q = fixed_part p \<and>
    (pos_status q = pos_status p \<or>
     (pos_status p, pos_status q) \<in> {(Active, Selling), (Selling, Active), (Selling, Closed), (Selling, Failed)})"
  using sell_step_edits [OF assms(2,3) sell_reachable_inv [OF assms(1)]]
proof
  assume "ss_app y' = ss_app y"
  with assms(4) show ?thesis by simp
next
  assume "\<exists>i. sale_of y y' i"
  then obtain j f where f: "st_positions (ss_app y') = hm_modify j f (st_positions (ss_app y))" "sale_edit f"
    and j: "\<And>p. stored y j = Some p \<Longrightarrow> pos_status p = Selling \<or> pos_status p = Active \<and> (\<exists>q. stored y' j = Some q \<and> pos_status q = Selling)"
    unfolding sale_of_def edits_def by blast
  show ?thesis
  proof (cases "i = j")
    case True
    have "fixed_part (f p) = fixed_part p" "pos_status (f p) = Sold \<longrightarrow> pos_status p = Sold" using f(2) by (auto simp: sale_edit_def)
    with True f(1) assms(4) j [of p] show ?thesis by (cases "pos_status (f p)") auto
  qed (use f(1) assms(4) in simp)
qed

lemma positions_keep_their_type_witness:
  "\<exists>q. hm_get (st_positions (ss_app (with_task 0 NoTask (ss_app sample_closed) sample_closed))) sample_id = Some q \<and>
     fixed_part q = fixed_part sample_position"
proof -
  obtain p where p: "hm_get (st_positions (ss_app sample_closed)) sample_id = Some p" "fixed_part p = fixed_part sample_position"
    by (simp add: sample_closed_def sample_system_def close_position_after_def positions_simps Let_def sample_app_def
        hm_get_def hm_modify_def fixed_part_def sample_read_def sample_selling_def)
  have "sell_step sample_chain sample_closed (with_task 0 NoTask (ss_app sample_closed) sample_closed)"
    by (rule finish [of _ _ "sample_env 4000 1000000000"]) (simp add: sample_closed_def sample_system_def)
  moreover have "ss_task (with_task 0 NoTask (ss_app sample_closed) sample_closed) 0 \<noteq> ss_task sample_closed 0"
    by (simp add: sample_closed_def sample_system_def)
  then have "ss_task (with_task 0 NoTask (ss_app sample_closed) sample_closed) \<noteq> ss_task sample_closed" by metis
  ultimately show ?thesis using positions_keep_their_type [OF sample_closed_reached _ _ p(1)] p(2) by metis
qed

subsection \<open>What is bought\<close>

lemma market_of_Ok:
  assumes "market_of ch n r = Ok (mk, sol, tokens)"
  shows "np_side ch n = Some (mk_side mk) \<and> mk_pool mk = np_pool n \<and>
    (if np_graduated n then mk_data mk = np_data n \<and> np_token ch n = Some (side_token_mint (mk_side mk) (mk_data mk), mk_token_program mk)
     else side_of ch (mk_data mk) = Some (mk_side mk) \<and> \<not> is_mayhem_mode (mk_data mk) \<and>
       (\<exists>m. mr_mint r = Some m \<and> mint_blocks_selling ch (rd_data m) (rd_owner m) = None \<and> mk_token_program mk = rd_owner m))"
  using assms
  by (auto simp: market_of_def np_token_def np_sol_and_token_def not_tradable_def
      split: option.splits sum.splits side.splits if_splits prod.splits)

text \<open>The buy among a buy's instructions: the one before the last.\<close>

definition buy_among :: "instruction list \<Rightarrow> instruction" where
  "buy_among ixs = ixs ! (length ixs - 2)"

lemma buy_instructions_Ok:
  assumes "buy_instructions ch env mk mint m k = Ok ixs"
  shows "\<exists>ix. buy_ix ch mk (be_wallet env) (be_amount env) m k = Ok ix \<and> buy_among ixs = ix"
  using assms by (auto simp: buy_instructions_def buy_among_def map_sum_def wrap_sol_def nth_append split: sum.splits)

text \<open>
  What a buy signs was affordable, deep enough and sellable: the wallet holds the amount, the
  priority fee and the reserve (where their sum is a 64-bit number), the pool has the least SOL asked for,
  a token not minted by pump.fun's program has nothing that can stop its sale, and the transaction's swap
  pays at most the configured amount of SOL and no token, for at least what the amount buys at those
  reserves less the slippage allowed.
\<close>

theorem a_buy_is_affordable_and_sellable:
  assumes "buy_choose ch n env balance blockhash r = Ok (mk, sol, tokens, last_valid)"
    and "buy_order ch env mk mint sol tokens k = Ok (m, ixs)"
    and "be_amount env + be_priority_fee env + tx_fee_reserve \<le> u64_max"
    and "chain_ok ch" "be_amount env < 256 ^ 8" "m < 256 ^ 8"
  shows "(\<exists>have. balance = Some have \<and> be_amount env + be_priority_fee env + 10000000 \<le> have) \<and>
    be_min_pool_sol env \<le> sol \<and> mk_pool mk = np_pool n \<and>
    (np_graduated n \<or> (\<exists>acc. mr_mint r = Some acc \<and> mint_blocks_selling ch (rd_data acc) (rd_owner acc) = None)) \<and>
    (\<exists>out. tokens_for_sol ch sol tokens (be_amount env) = Ok out \<and> with_slippage_min ch out (be_bps env) = Ok m) \<and>
    (\<exists>sw. read_swap ch (ix_data (buy_among ixs)) = Some sw \<and>
       swap_terms (mk_side mk) sw = \<lparr>pays_sol = be_amount env, pays_tokens = 0, gets_sol = 0, gets_tokens = m\<rparr>) \<and>
    signers (buy_among ixs) = [be_wallet env]"
proof -
  have needs: "buy_needs env = be_amount env + be_priority_fee env + 10000000"
    using assms(3) by (simp add: buy_needs_def tx_fee_reserve_def u64_add_small)
  obtain b where b: "balance = Some b" "buy_needs env \<le> b" "market_of ch n r = Ok (mk, sol, tokens)" "be_min_pool_sol env \<le> sol"
    using assms(1) by (auto simp: buy_choose_def not_less split: option.splits sum.splits if_splits)
  have m: "buy_min_tokens ch env sol tokens = Ok m" and ixs: "buy_instructions ch env mk mint m k = Ok ixs"
    using assms(2) by (auto simp: buy_order_def split: sum.splits)
  obtain ix where ix: "market_swap ch mk (buy_swap (mk_side mk) (be_amount env) m) (be_wallet env) k = Ok ix" "buy_among ixs = ix"
    using buy_instructions_Ok [OF ixs] by (auto simp: buy_ix_def)
  have "swap_u64 (buy_swap (mk_side mk) (be_amount env) m)" using assms(5,6) by (cases "mk_side mk") simp_all
  then have "(\<exists>sw. read_swap ch (ix_data (buy_among ixs)) = Some sw \<and>
       swap_terms (mk_side mk) sw = \<lparr>pays_sol = be_amount env, pays_tokens = 0, gets_sol = 0, gets_tokens = m\<rparr>) \<and>
    signers (buy_among ixs) = [be_wallet env]"
    using market_swap_Ok [OF ix(1)] ix(2) by (simp add: read_swap_data [OF assms(4)] buy_swap_terms)
  moreover have "\<exists>out. tokens_for_sol ch sol tokens (be_amount env) = Ok out \<and> with_slippage_min ch out (be_bps env) = Ok m"
    using m by (auto simp: buy_min_tokens_def split: sum.splits)
  ultimately show ?thesis using market_of_Ok [OF b(3)] b needs by (auto split: if_splits)
qed

definition sample_buy_env :: buy_env where
  "sample_buy_env = \<lparr>be_amount = 100000, be_bps = 500, be_min_pool_sol = 1000000000, be_wallet = [30], be_cu_price = 0,
     be_cu_limit = 0, be_priority_fee = 0\<rparr>"

definition sample_reads :: market_reads where
  "sample_reads = \<lparr>mr_account = (\<lambda>n. FetchError), mr_sol_vault = (\<lambda>n. FetchError), mr_token_vault = (\<lambda>n. FetchError), mr_mint = None\<rparr>"

lemma a_buy_is_affordable_and_sellable_witness:
  "\<exists>m ixs. buy_order sample_chain sample_buy_env sample_market [22] 1000000000 400000000 0 = Ok (m, ixs) \<and>
     signers (buy_among ixs) = [[30]]"
proof -
  let ?n = "sample_pool_seen\<lparr>np_base_reserves := 400000000\<rparr>"
  have c: "buy_choose sample_chain ?n sample_buy_env (Some 20000000) (Some 7) sample_reads =
      Ok (sample_market\<lparr>mk_token_program := [3]\<rparr>, 1000000000, 400000000, 7)"
    by (simp add: buy_choose_def buy_needs_def tx_fee_reserve_def u64_add_def sample_buy_env_def market_of_def np_side_def np_token_def
        np_sol_and_token_def side_of_def sample_pool_seen_def sample_market_def sample_chain_def)
  have mk: "sample_market\<lparr>mk_token_program := [3]\<rparr> = sample_market" by (simp add: sample_market_def)
  obtain ixs where o: "buy_order sample_chain sample_buy_env sample_market [22] 1000000000 400000000 0 = Ok (37996, ixs)"
    by (simp add: buy_order_def buy_min_tokens_def tokens_for_sol_def buy_instructions_def buy_ix_def market_swap_def sample_chain_def
        sample_buy_env_def Let_def)
  have "signers (buy_among ixs) = [be_wallet sample_buy_env]"
    using a_buy_is_affordable_and_sellable [OF c [unfolded mk] o _ sample_chain_ok]
    by (simp add: sample_buy_env_def tx_fee_reserve_def u64_max_def)
  with o show ?thesis by (auto simp: sample_buy_env_def)
qed

end
