(* ===== verification/Stream.thy ===== *)
theory Stream
  imports Buy_Cycle
begin

text \<open>
  The streams the bot follows: \<open>shreds.rs\<close>, where a migration is read out of a transaction not run yet,
  its keys resolved through address lookup tables, and \<open>handlers/processor.rs\<close>, which takes an update of
  the Geyser stream apart and decides on each instruction. What they start are the tasks of \<open>Buy_Cycle\<close>
  and \<open>Sell_Cycle\<close>. Networking, and what Redis is sent, are not modelled.
\<close>

record compiled_ix =
  ci_program :: nat
  ci_accounts :: "nat list"
  ci_data :: bytes

subsection \<open>Address lookup tables\<close>

definition lookup_table_meta_size :: nat where "lookup_table_meta_size = 56"

fun chunks32 :: "nat \<Rightarrow> bytes \<Rightarrow> pubkey list" where
  "chunks32 0 d = []"
| "chunks32 (Suc k) d = take 32 d # chunks32 k (drop 32 d)"

definition lookup_table_addresses :: "bytes \<Rightarrow> pubkey list option" where
  "lookup_table_addresses d =
     (if length d < lookup_table_meta_size then None
      else Some (chunks32 ((length d - lookup_table_meta_size) div 32) (drop lookup_table_meta_size d)))"

type_synonym luts = "(pubkey, pubkey list) hash_map"

text \<open>\<open>Luts::fetch\<close>: the accounts the RPC answers, one for each table asked for, or an error.\<close>

definition luts_fetch :: "pubkey list \<Rightarrow> bytes option list option \<Rightarrow> luts \<Rightarrow> luts" where
  "luts_fetch tables answer known =
     (if tables = [] then known
      else case answer of
        None \<Rightarrow> known
      | Some accounts \<Rightarrow>
          foldl (\<lambda>known (table, account).
              case Option.bind account lookup_table_addresses of
                None \<Rightarrow> known
              | Some addresses \<Rightarrow> hm_insert table addresses known)
            known (zip tables accounts))"

subsection \<open>A transaction not run yet\<close>

record lookup =
  lk_table :: pubkey
  lk_writable :: "nat list"
  lk_readonly :: "nat list"

record shred_tx =
  sx_signatures :: "signature list"
  sx_keys :: "pubkey list"
  sx_instructions :: "compiled_ix list"
  sx_lookups :: "lookup list option"

record found =
  fd_signature :: signature
  fd_accounts :: "nat list"
  fd_data :: bytes

definition is_migration :: "chain \<Rightarrow> pubkey list \<Rightarrow> compiled_ix \<Rightarrow> bool" where
  "is_migration ch keys ix =
     (list_get keys (ci_program ix) = Some (pump_program ch) \<and> take 8 (ci_data ix) = migrate_v2_discriminator \<and>
      length (ci_accounts ix) = 29)"

definition migration_in :: "chain \<Rightarrow> shred_tx \<Rightarrow> found option" where
  "migration_in ch tx =
     (case List.find (is_migration ch (sx_keys tx)) (sx_instructions tx) of
        None \<Rightarrow> None
      | Some ix \<Rightarrow>
         (case sx_signatures tx of
            [] \<Rightarrow> None
          | sig # _ \<Rightarrow> Some \<lparr>fd_signature = sig, fd_accounts = ci_accounts ix, fd_data = ci_data ix\<rparr>))"

text \<open>\<open>pick\<close>: the addresses at the indexes, up to the first that is not there, and whether all were.\<close>

fun pick :: "pubkey list option \<Rightarrow> nat list \<Rightarrow> pubkey list \<times> bool" where
  "pick addresses [] = ([], True)"
| "pick addresses (i # is) =
     (case Option.bind addresses (\<lambda>a. list_get a i) of
        None \<Rightarrow> ([], False)
      | Some k \<Rightarrow> (case pick addresses is of (ks, ok) \<Rightarrow> (k # ks, ok)))"

text \<open>The loop over the lookups: the keys, the read-only ones, the tables missing.\<close>

fun resolve_from :: "luts \<Rightarrow> lookup list \<Rightarrow> pubkey list \<Rightarrow> pubkey list \<Rightarrow> pubkey list \<Rightarrow> pubkey list + pubkey list" where
  "resolve_from known [] keys readonly missing = (if missing \<noteq> [] then Err missing else Ok (keys @ readonly))"
| "resolve_from known (l # ls) keys readonly missing =
     (let addresses = hm_get known (lk_table l)
      in case (pick addresses (lk_writable l), pick addresses (lk_readonly l)) of
           ((ws, okw), (rs, okr)) \<Rightarrow>
             resolve_from known ls (keys @ ws) (readonly @ rs) (if okw \<and> okr then missing else missing @ [lk_table l]))"

definition resolve :: "shred_tx \<Rightarrow> luts \<Rightarrow> pubkey list + pubkey list" where
  "resolve tx known =
     (case sx_lookups tx of
        None \<Rightarrow> Ok (sx_keys tx)
      | Some lookups \<Rightarrow> resolve_from known lookups (sx_keys tx) [] [])"

text \<open>\<open>filter_map(|i| keys.get(i))\<close>.\<close>

definition accounts_at :: "pubkey list \<Rightarrow> nat list \<Rightarrow> pubkey list" where
  "accounts_at keys is = List.map_filter (list_get keys) is"

text \<open>
  The task \<open>on_migration\<close> starts when it is to buy: the tables, as read the second time when some were
  missing, and the pool to buy, if it can be made. \<open>answer\<close> is what the RPC says of the missing tables,
  \<open>reads\<close> what it says of the migration's accounts.
\<close>

definition migration_seen ::
  "chain \<Rightarrow> found \<Rightarrow> shred_tx \<Rightarrow> (pubkey list \<Rightarrow> bytes option list option) \<Rightarrow> (pubkey list \<Rightarrow> account_read option list option) \<Rightarrow>
     luts \<Rightarrow> luts \<times> new_pool option" where
  "migration_seen ch f tx answer reads known =
     (let known1 = (case resolve tx known of Inr keys \<Rightarrow> known | Inl missing \<Rightarrow> luts_fetch missing (answer missing) known)
      in case resolve tx known1 of
           Inl missing \<Rightarrow> (known1, None)
         | Inr keys \<Rightarrow>
            (case migration_parse ch (fd_data f) (accounts_at keys (fd_accounts f)) of
               None \<Rightarrow> (known1, None)
             | Some m \<Rightarrow>
                (known1,
                 (case reads (migration_to_read ch m) of
                    Some [Some curve, Some token_account, Some global] \<Rightarrow>
                      (case migration_new_pool ch m curve token_account global of
                         Inl why \<Rightarrow> None
                       | Inr n \<Rightarrow> Some n)
                  | _ \<Rightarrow> None))))"

text \<open>What is done at once with a migration in the stream, and whether it is to buy.\<close>

definition on_migration :: "found \<Rightarrow> u64 \<Rightarrow> instant \<Rightarrow> app \<Rightarrow> bool \<times> app" where
  "on_migration f slot seen s =
     (cf_buy_on_shreds (st_config s) \<and> st_grpc_streaming s \<and> st_running s,
      s\<lparr>st_timing := on_shred (fd_signature f) slot seen (st_timing s)\<rparr>)"

subsection \<open>A pool seen created\<close>

definition creator_allows :: "pubkey \<Rightarrow> pubkey \<Rightarrow> instant \<Rightarrow> app \<Rightarrow> bool \<times> app" where
  "creator_allows pool creator now s =
     (let window = from_secs (cf_creator_window_secs (st_config s))
      in case on_create pool creator now window (cf_creator_max_pools (st_config s)) (st_creators s) of
           (verdict, w) \<Rightarrow>
             (verdict = Fine \<and> \<not> as_secs (now - st_started s) < cf_warmup_secs (st_config s),
              s\<lparr>st_creators := prune now window w\<rparr>))"

text \<open>Whether a task is started that buys it.\<close>

definition on_create_pool :: "chain \<Rightarrow> new_pool \<Rightarrow> instant \<Rightarrow> app \<Rightarrow> bool \<times> app" where
  "on_create_pool ch n now s =
     (if np_not_tradable ch n \<noteq> None then (False, s) else creator_allows (np_pool n) (np_creator n) now s)"

subsection \<open>A transaction that ran\<close>

record tx_meta =
  me_writable :: "bytes list"
  me_readonly :: "bytes list"
  me_inner :: "(nat \<times> compiled_ix list) list"
  me_balances :: "(nat \<times> u64 option) list"

record geyser_tx =
  gx_signatures :: "signature list"
  gx_keys :: "bytes list"
  gx_instructions :: "compiled_ix list"
  gx_tables :: "bytes list"
  gx_meta :: "tx_meta option"

definition as_key :: "bytes \<Rightarrow> pubkey option" where
  "as_key b = (if length b = 32 then Some b else None)"

definition tx_signature :: "geyser_tx \<Rightarrow> signature option" where
  "tx_signature tx = (case gx_signatures tx of [] \<Rightarrow> None | s # _ \<Rightarrow> (if length s = 64 then Some s else None))"

definition tx_keys :: "geyser_tx \<Rightarrow> pubkey list" where
  "tx_keys tx =
     List.map_filter as_key (gx_keys tx) @
     (case gx_meta tx of
        None \<Rightarrow> []
      | Some m \<Rightarrow> List.map_filter as_key (me_writable m) @ List.map_filter as_key (me_readonly m))"

record stream_ix =
  sy_program :: pubkey
  sy_accounts :: "pubkey list"
  sy_data :: bytes
  sy_called_by :: pubkey

text \<open>An instruction run under a top-level one of program \<open>called_by\<close>, if its program is among the keys.\<close>

definition ix_under :: "pubkey list \<Rightarrow> pubkey \<Rightarrow> compiled_ix \<Rightarrow> stream_ix option" where
  "ix_under keys called_by ix =
     map_option (\<lambda>p. \<lparr>sy_program = p, sy_accounts = accounts_at keys (ci_accounts ix), sy_data = ci_data ix, sy_called_by = called_by\<rparr>)
       (list_get keys (ci_program ix))"

definition top_ix :: "pubkey list \<Rightarrow> compiled_ix \<Rightarrow> stream_ix option" where
  "top_ix keys ix = Option.bind (list_get keys (ci_program ix)) (\<lambda>p. ix_under keys p ix)"

definition instructions :: "geyser_tx \<Rightarrow> pubkey list \<Rightarrow> stream_ix list" where
  "instructions tx keys =
     (let tops = map (\<lambda>ix. list_get keys (ci_program ix)) (gx_instructions tx);
          inners = (case gx_meta tx of None \<Rightarrow> [] | Some m \<Rightarrow> me_inner m)
      in List.map_filter (top_ix keys) (gx_instructions tx) @
         concat (map (\<lambda>(index, ixs).
             (case list_get tops index of
                Some (Some called_by) \<Rightarrow> List.map_filter (ix_under keys called_by) ixs
              | _ \<Rightarrow> [])) inners))"

text \<open>
  \<open>on_swap\<close>: the reserves after the swap, from the transaction's own balances when both vaults are among
  them: the last balance of each counts.
\<close>

definition vault_balances :: "pubkey list \<Rightarrow> pubkey \<Rightarrow> pubkey \<Rightarrow> (nat \<times> u64 option) list \<Rightarrow> u64 option \<times> u64 option" where
  "vault_balances keys base_vault quote_vault bs =
     foldl (\<lambda>(b, q) (i, amount).
         case (list_get keys i, amount) of
           (Some acct, Some n) \<Rightarrow>
             (if acct = base_vault then (Some n, q) else if acct = quote_vault then (b, Some n) else (b, q))
         | _ \<Rightarrow> (b, q))
       (None, None) bs"

definition reserves_from_meta :: "side \<Rightarrow> pubkey list \<Rightarrow> pubkey list \<Rightarrow> tx_meta option \<Rightarrow> (u64 \<times> u64) option" where
  "reserves_from_meta sd accounts keys meta =
     (case meta of
        None \<Rightarrow> None
      | Some m \<Rightarrow>
         (if length accounts < 9 then None
          else case vault_balances keys (accounts ! 7) (accounts ! 8) (me_balances m) of
            (Some b, Some q) \<Rightarrow> Some (side_sol_and_token sd b q)
          | _ \<Rightarrow> None))"

subsection \<open>One update\<close>

datatype slot_status = FirstShredReceived | SlotConfirmed | SlotDead | OtherStatus

datatype update = SlotUpdate slot_status u64 | TransactionUpdate u64 geyser_tx | OtherUpdate

text \<open>What an update starts: a buy, the reading of lookup tables, or a check of a pool held, with its reserves if known.\<close>

datatype action =
    StartBuy new_pool sighting
  | ReadTables "pubkey list"
  | CheckPool pubkey side "(u64 \<times> u64) option"

text \<open>Of the tables, those to read: the ones not known when the task for them starts.\<close>

definition warm_lookup_tables :: "luts \<Rightarrow> pubkey list \<Rightarrow> pubkey list" where
  "warm_lookup_tables known tables = filter (\<lambda>t. \<not> hm_contains known t) tables"

definition active_side :: "app \<Rightarrow> pubkey \<Rightarrow> side option" where
  "active_side s pool =
     map_option pos_side (List.find (\<lambda>p. pos_pool p = pool \<and> pos_status p = Active) (hm_values (st_positions s)))"

text \<open>\<open>parse_swap\<close> is the swap crate's: the pool of a PumpSwap swap. \<open>slot\<close> and \<open>now\<close> are the update's.\<close>

definition on_instruction ::
  "chain \<Rightarrow> (bytes \<Rightarrow> pubkey list \<Rightarrow> pubkey option) \<Rightarrow> u64 \<Rightarrow> instant \<Rightarrow> geyser_tx \<Rightarrow> stream_ix \<Rightarrow> app \<Rightarrow> action list \<times> app" where
  "on_instruction ch parse_swap slot now tx ix s =
     (case parse_create_pool ch (sy_data ix) (sy_accounts ix) (sy_called_by ix) of
        Some n \<Rightarrow>
          (let s1 = (case (np_graduated n, tx_signature tx) of
                 (True, Some sig) \<Rightarrow> s\<lparr>st_timing := on_processed sig slot now (st_timing s)\<rparr>
               | _ \<Rightarrow> s);
               warm = (if np_graduated n then [ReadTables (List.map_filter as_key (gx_tables tx))] else [])
           in case on_create_pool ch n now s1 of
                (True, s2) \<Rightarrow> (warm @ [StartBuy n \<lparr>sg_slot = slot, sg_seen = now, sg_via = ViaGeyser\<rparr>], s2)
              | (False, s2) \<Rightarrow> (warm, s2))
      | None \<Rightarrow>
         (case withdraw_of (sy_data ix) (sy_accounts ix) of
            Some (pool, user) \<Rightarrow> ([], s\<lparr>st_creators := snd (on_withdraw pool user (st_creators s))\<rparr>)
          | None \<Rightarrow>
             (case parse_swap (sy_data ix) (sy_accounts ix) of
                None \<Rightarrow> ([], s)
              | Some pool \<Rightarrow>
                 (case active_side s pool of
                    None \<Rightarrow> ([], s)
                  | Some sd \<Rightarrow> ([CheckPool pool sd (reserves_from_meta sd (sy_accounts ix) (tx_keys tx) (gx_meta tx))], s)))))"

definition on_transaction ::
  "chain \<Rightarrow> (bytes \<Rightarrow> pubkey list \<Rightarrow> pubkey option) \<Rightarrow> pubkey \<Rightarrow> u64 \<Rightarrow> instant \<Rightarrow> geyser_tx \<Rightarrow> app \<Rightarrow> action list \<times> app" where
  "on_transaction ch parse_swap watched slot now tx s =
     (let s1 = (case tx_signature tx of
            Some sig \<Rightarrow> (if timing_tracks sig (st_timing s) then s\<lparr>st_timing := on_processed sig slot now (st_timing s)\<rparr> else s)
          | None \<Rightarrow> s)
      in foldl (\<lambda>(acts, s) ix. case on_instruction ch parse_swap slot now tx ix s of (new, s') \<Rightarrow> (acts @ new, s'))
           ([], s1) (filter (\<lambda>ix. sy_program ix = watched) (instructions tx (tx_keys tx))))"

definition handle_update ::
  "chain \<Rightarrow> (bytes \<Rightarrow> pubkey list \<Rightarrow> pubkey option) \<Rightarrow> instant \<Rightarrow> update \<Rightarrow> app \<Rightarrow> action list \<times> app" where
  "handle_update ch parse_swap now u s =
     (case u of
        SlotUpdate status slot \<Rightarrow>
          ([], s\<lparr>st_timing :=
              (case status of
                 FirstShredReceived \<Rightarrow> on_slot_started slot now (st_timing s)
               | SlotConfirmed \<Rightarrow> on_slot_confirmed slot now (st_timing s)
               | SlotDead \<Rightarrow> on_slot_dead slot (st_timing s)
               | OtherStatus \<Rightarrow> st_timing s)\<rparr>)
      | TransactionUpdate slot tx \<Rightarrow>
          (if \<not> st_grpc_streaming s then ([], s) else on_transaction ch parse_swap (st_watch_address s) slot now tx s)
      | OtherUpdate \<Rightarrow> ([], s))"

end
