(* ===== verification/Watching.thy ===== *)
theory Watching
  imports Stream
begin

text \<open>
  What goes on beside the buys and the sells of \<open>engine.rs\<close>: the monitor that polls a held pool, the check
  a swap of someone else on it starts, the note of the slot a buy landed in, and the positions taken up
  from the wallet's token accounts when the bot starts.
\<close>

subsection \<open>A held pool\<close>

datatype poll = MonitorExits | MonitorWaits | MonitorChecks u64 u64

text \<open>One round of the monitor's loop: with what reserves the positions are checked, tokens first.\<close>

definition monitor_poll :: "chain \<Rightarrow> pubkey \<Rightarrow> bytes option \<Rightarrow> market_reads \<Rightarrow> app \<Rightarrow> poll" where
  "monitor_poll ch pool account r s =
     (if \<not> pool_has_open_position pool s then MonitorExits
      else case account of
        None \<Rightarrow> MonitorWaits
      | Some raw \<Rightarrow>
         (case decode_pool raw of
            Inl why \<Rightarrow> MonitorWaits
          | Inr data \<Rightarrow>
             (case side_of ch data of
                None \<Rightarrow> MonitorWaits
              | Some sd \<Rightarrow>
                 (case (fetch_with_retry (mr_token_vault r), fetch_with_retry (mr_sol_vault r)) of
                    (Some tokens, Some sol) \<Rightarrow> MonitorChecks tokens sol
                  | _ \<Rightarrow> MonitorWaits))))"

text \<open>
  The task a swap on a held pool starts: the reserves, SOL first, from its transaction when they were
  there, else the pool's account and its vaults are read; \<open>balance\<close> is a vault's, when it can be read.
\<close>

definition swap_reserves :: "side \<Rightarrow> (u64 \<times> u64) option \<Rightarrow> bytes option \<Rightarrow> (pubkey \<Rightarrow> u64 option) \<Rightarrow> (u64 \<times> u64) option" where
  "swap_reserves sd from_meta account balance =
     (case from_meta of
        Some r \<Rightarrow> Some r
      | None \<Rightarrow>
         (case account of
            None \<Rightarrow> None
          | Some raw \<Rightarrow>
             (case decode_pool raw of
                Inl why \<Rightarrow> None
              | Inr data \<Rightarrow>
                 (case (balance (fst (side_vaults sd data)), balance (snd (side_vaults sd data))) of
                    (Some sol, Some tokens) \<Rightarrow> Some (sol, tokens)
                  | _ \<Rightarrow> None))))"

text \<open>\<open>status\<close> is the slot the buy's signature has a status for.\<close>

definition record_landing :: "pubkey \<Rightarrow> u64 option \<Rightarrow> app \<Rightarrow> app" where
  "record_landing pool status s =
     (case status of None \<Rightarrow> s | Some slot \<Rightarrow> s\<lparr>st_timing := on_buy_landed pool slot (st_timing s)\<rparr>)"

subsection \<open>The wallet's tokens\<close>

text \<open>A token account as the RPC parses it: the texts of its mint and amount, where they are there.\<close>

record wallet_account =
  wa_mint :: "string option"
  wa_amount :: "string option"

text \<open>
  The token to take up and how much of it, WSOL and what is empty left alone. \<open>parse\<close> and \<open>show_key\<close> are
  the Solana crate's reading and printing of an address.
\<close>

definition held_token :: "chain \<Rightarrow> (string \<Rightarrow> pubkey option) \<Rightarrow> (pubkey \<Rightarrow> string) \<Rightarrow> wallet_account \<Rightarrow> (pubkey \<times> u64) option" where
  "held_token ch parse show_key wa =
     (case wa_mint wa of
        None \<Rightarrow> None
      | Some mint_str \<Rightarrow>
         (if mint_str = show_key (wsol_mint ch) then None
          else case Option.bind (wa_amount wa) parse_u64 of
            None \<Rightarrow> None
          | Some amount \<Rightarrow>
             (if amount > 0 then map_option (\<lambda>mint. (mint, amount)) (parse mint_str) else None)))"

text \<open>
  What taking up one account's token asks for: the pools of a base and a quote mint, their SOL vaults, what
  \<open>restore_single_position\<close> reads, and the identifier and time its position gets.
\<close>

record restore_answers =
  ra_pools :: "pubkey \<Rightarrow> pubkey \<Rightarrow> (pubkey \<times> bytes) list option"
  ra_vault :: "pubkey \<Rightarrow> nat \<Rightarrow> u64 fetch"
  ra_reads :: market_reads
  ra_id :: string
  ra_now :: utc

definition token_pools :: "chain \<Rightarrow> restore_answers \<Rightarrow> pubkey \<Rightarrow> (pubkey \<times> bytes) list" where
  "token_pools ch an mint =
     concat (map (\<lambda>(base, quote). case ra_pools an base quote of None \<Rightarrow> [] | Some found \<Rightarrow> found)
       [(wsol_mint ch, mint), (mint, wsol_mint ch)])"

definition restore_account ::
  "chain \<Rightarrow> (string \<Rightarrow> pubkey option) \<Rightarrow> (pubkey \<Rightarrow> string) \<Rightarrow> pubkey \<Rightarrow> wallet_account \<times> restore_answers \<Rightarrow> app \<Rightarrow> app" where
  "restore_account ch parse show_key program keyed s =
     (case keyed of (wa, an) \<Rightarrow>
        (case held_token ch parse show_key wa of
           None \<Rightarrow> s
         | Some (mint, amount) \<Rightarrow>
            (case deepest_pool ch (ra_vault an) (token_pools ch an mint) of
               None \<Rightarrow> s
             | Some (pool, raw, _) \<Rightarrow>
                (case restore_single_position ch (ra_id an) (ra_now an) pool raw mint amount program (ra_reads an) s of
                   Inl e \<Rightarrow> s
                 | Inr s' \<Rightarrow> s'))))"

text \<open>The accounts of the two token programs, where the RPC lists them.\<close>

definition restore_positions_from_wallet ::
  "chain \<Rightarrow> (string \<Rightarrow> pubkey option) \<Rightarrow> (pubkey \<Rightarrow> string) \<Rightarrow> (pubkey \<Rightarrow> (wallet_account \<times> restore_answers) list option) \<Rightarrow> app \<Rightarrow> app" where
  "restore_positions_from_wallet ch parse show_key accounts s =
     (case st_wallet s of
        None \<Rightarrow> s
      | Some w \<Rightarrow>
         foldl (\<lambda>s program.
             case accounts program of
               None \<Rightarrow> s
             | Some listed \<Rightarrow> foldl (\<lambda>s keyed. restore_account ch parse show_key program keyed s) s listed)
           s [token_program ch, token_2022_program ch])"

end
