(* ===== verification/Trace.thy ===== *)
theory Trace
  imports Stream
begin

text \<open>
  \<open>trace.rs\<close>: from a banned creator to the wallet that funded it and the other wallets that one funded,
  each banned too. The RPC's answers are functions of what is asked; the order of its answers does not
  matter, as what is collected from them is a set. Texts of reasons are constructors.
\<close>

definition history_limit :: nat where "history_limit = 1000"
definition first_txs :: nat where "first_txs = 5"
definition funder_scan :: nat where "funder_scan = 200"
definition max_funded :: nat where "max_funded = 50"

definition system_program_id :: "chain \<Rightarrow> pubkey" where
  "system_program_id ch = from_str_const ch ''11111111111111111111111111111111''"

subsection \<open>The SOL a transaction sent\<close>

text \<open>
  A transaction as the RPC writes it: \<open>None\<close> for an encoding that is not its JSON, keys that are not
  addresses as \<open>None\<close>, instructions whose data is not base 58 as \<open>None\<close>, whether it failed, when that is
  there to read, and its inner instructions.
\<close>

record json_ix =
  ji_program :: nat
  ji_accounts :: "nat list"
  ji_data :: "bytes option"

record json_tx =
  jt_keys :: "pubkey option list"
  jt_loaded :: "pubkey option list"
  jt_instructions :: "json_ix list"
  jt_inner :: "json_ix list"
  jt_failed :: "bool option"

type_synonym transfer = "pubkey \<times> pubkey \<times> u64"

definition key_at :: "pubkey option list \<Rightarrow> nat \<Rightarrow> pubkey option" where
  "key_at keys i = Option.bind (list_get keys i) (\<lambda>k. k)"

definition transfer_of :: "pubkey option list \<Rightarrow> json_ix \<Rightarrow> transfer option" where
  "transfer_of keys ix =
     (case ji_data ix of
        None \<Rightarrow> None
      | Some data \<Rightarrow>
         (if length data \<noteq> 12 \<or> take 4 data \<noteq> [2, 0, 0, 0] then None
          else case (Option.bind (list_get (ji_accounts ix) 0) (key_at keys), Option.bind (list_get (ji_accounts ix) 1) (key_at keys)) of
            (Some sender, Some receiver) \<Rightarrow> Some (sender, receiver, le_nat (drop 4 data))
          | _ \<Rightarrow> None))"

definition sol_transfers :: "chain \<Rightarrow> json_tx option \<Rightarrow> transfer list" where
  "sol_transfers ch tx =
     (case tx of
        None \<Rightarrow> []
      | Some t \<Rightarrow>
         (if jt_failed t \<noteq> Some False then []
          else
            (let keys = jt_keys t @ jt_loaded t
             in List.map_filter (transfer_of keys)
                  (filter (\<lambda>ix. key_at keys (ji_program ix) = Some (system_program_id ch)) (jt_instructions t @ jt_inner t)))))"

subsection \<open>From a creator to its funder and what that one funded\<close>

datatype dead_end =
    RpcFailed
  | LongHistory
  | NotFunded
  | FunderLongHistory pubkey
  | FunderPaysMany pubkey nat
  | FundedByUs

definition retries :: "dead_end \<Rightarrow> bool" where
  "retries e = (e = RpcFailed)"

text \<open>What the RPC answers: an address's signatures, newest first, and a transaction.\<close>

record trace_rpc =
  tp_signatures :: "pubkey \<Rightarrow> signature list option"
  tp_transaction :: "signature \<Rightarrow> json_tx option option"

definition first_funder :: "chain \<Rightarrow> pubkey \<Rightarrow> json_tx option \<Rightarrow> pubkey option" where
  "first_funder ch creator tx =
     map_option fst (List.find (\<lambda>(sender, receiver, n). receiver = creator \<and> sender \<noteq> creator) (sol_transfers ch tx))"

fun first_funder_in :: "chain \<Rightarrow> trace_rpc \<Rightarrow> pubkey \<Rightarrow> signature list \<Rightarrow> pubkey option" where
  "first_funder_in ch rpc creator [] = None"
| "first_funder_in ch rpc creator (sig # sigs) =
     (case tp_transaction rpc sig of
        None \<Rightarrow> first_funder_in ch rpc creator sigs
      | Some tx \<Rightarrow>
         (case first_funder ch creator tx of
            Some w \<Rightarrow> Some w
          | None \<Rightarrow> first_funder_in ch rpc creator sigs))"

definition funder_of :: "chain \<Rightarrow> trace_rpc \<Rightarrow> pubkey \<Rightarrow> dead_end + pubkey" where
  "funder_of ch rpc creator =
     (case tp_signatures rpc creator of
        None \<Rightarrow> Err RpcFailed
      | Some sigs \<Rightarrow>
         (if length sigs \<ge> history_limit then Err LongHistory
          else case first_funder_in ch rpc creator (take first_txs (List.rev sigs)) of
            Some w \<Rightarrow> Ok w
          | None \<Rightarrow> Err NotFunded))"

text \<open>A \<open>BTreeSet\<close> of addresses, as its iteration gives it: in order, each once.\<close>

definition key_set :: "pubkey list \<Rightarrow> pubkey list" where
  "key_set ks = sort_keys (remdups ks)"

definition funded_in :: "chain \<Rightarrow> trace_rpc \<Rightarrow> pubkey \<Rightarrow> signature list \<Rightarrow> pubkey list" where
  "funded_in ch rpc funder sigs =
     (let transfers = concat (map (sol_transfers ch) (List.map_filter (tp_transaction rpc) sigs))
      in key_set (map (\<lambda>(sender, receiver, n). receiver)
           (filter (\<lambda>(sender, receiver, n). sender = funder \<and> receiver \<noteq> funder) transfers)))"

definition funded_by :: "chain \<Rightarrow> trace_rpc \<Rightarrow> pubkey \<Rightarrow> dead_end + pubkey list" where
  "funded_by ch rpc funder =
     (case tp_signatures rpc funder of
        None \<Rightarrow> Err RpcFailed
      | Some sigs \<Rightarrow>
         (if length sigs \<ge> history_limit then Err (FunderLongHistory funder)
          else
            (let funded = funded_in ch rpc funder (take funder_scan sigs)
             in if length funded > max_funded then Err (FunderPaysMany funder (length funded)) else Ok funded)))"

definition trace_one :: "chain \<Rightarrow> trace_rpc \<Rightarrow> pubkey \<Rightarrow> pubkey option \<Rightarrow> dead_end + (pubkey \<times> ban_reason) list" where
  "trace_one ch rpc creator keep =
     (case funder_of ch rpc creator of
        Inl e \<Rightarrow> Err e
      | Inr funder \<Rightarrow>
         (if Some funder = keep then Err FundedByUs
          else case funded_by ch rpc funder of
            Inl e \<Rightarrow> Err e
          | Inr funded \<Rightarrow>
              Ok ((funder, FundedBanned creator) #
                  map (\<lambda>w. (w, FundedByFunder funder creator)) (filter (\<lambda>w. w \<noteq> creator \<and> Some w \<noteq> keep) funded))))"

subsection \<open>A run\<close>

record trace_report =
  tt_traced :: "pubkey list"
  tt_banned :: "(pubkey \<times> ban_reason) list"
  tt_skipped :: "(pubkey \<times> dead_end) list"
  tt_left :: nat

definition ban_found :: "(pubkey \<times> ban_reason) list \<Rightarrow> trace_report \<times> creator_watch \<Rightarrow> trace_report \<times> creator_watch" where
  "ban_found bans rw =
     foldl (\<lambda>(r, w) (wallet, reason).
         case ban wallet reason w of
           (True, w') \<Rightarrow> (r\<lparr>tt_banned := tt_banned r @ [(wallet, reason)]\<rparr>, w')
         | (False, w') \<Rightarrow> (r, w'))
       rw bans"

definition trace_step :: "chain \<Rightarrow> trace_rpc \<Rightarrow> pubkey option \<Rightarrow> trace_report \<times> creator_watch \<Rightarrow> pubkey \<Rightarrow> trace_report \<times> creator_watch" where
  "trace_step ch rpc keep rw creator =
     (case rw of (r, w) \<Rightarrow>
        (let done = (\<lambda>(r, w). (r\<lparr>tt_traced := tt_traced r @ [creator]\<rparr>, mark_traced creator w))
         in case trace_one ch rpc creator keep of
              Inl e \<Rightarrow>
                (if retries e then (r\<lparr>tt_skipped := tt_skipped r @ [(creator, e)], tt_left := tt_left r + 1\<rparr>, w)
                 else done (r\<lparr>tt_skipped := tt_skipped r @ [(creator, e)]\<rparr>, w))
            | Inr bans \<Rightarrow> done (ban_found bans (r, w))))"

definition trace :: "chain \<Rightarrow> trace_rpc \<Rightarrow> pubkey option \<Rightarrow> nat \<Rightarrow> creator_watch \<Rightarrow> trace_report \<times> creator_watch" where
  "trace ch rpc keep limit w =
     (let todo = untraced w
      in foldl (trace_step ch rpc keep)
           (\<lparr>tt_traced = [], tt_banned = [], tt_skipped = [], tt_left = length todo - limit\<rparr>, w) (take limit todo))"

end
