(* ===== verification/Stream_Properties.thy ===== *)
theory Stream_Properties
  imports Trace
begin

text \<open>
  What the streams and the tracing guarantee: whom a buy is started for, that a transaction read before it
  has run has the keys it will have when it has, and who is banned for a banned creator.
\<close>

subsection \<open>Starting a buy\<close>

text \<open>What an instruction leaves as it was, and that no ban is lifted.\<close>

definition watch_keeps :: "app \<Rightarrow> app \<Rightarrow> bool" where
  "watch_keeps s s' \<longleftrightarrow> st_config s' = st_config s \<and> st_started s' = st_started s \<and> st_positions s' = st_positions s \<and>
     (\<forall>c. is_banned (st_creators s) c \<longrightarrow> is_banned (st_creators s') c)"

lemma watch_keeps_refl: "watch_keeps s s"
  by (simp add: watch_keeps_def)

lemma watch_keeps_trans: "watch_keeps a b \<Longrightarrow> watch_keeps b c \<Longrightarrow> watch_keeps a c"
  by (simp add: watch_keeps_def)

lemma watch_keeps_timing: "watch_keeps s (s\<lparr>st_timing := t\<rparr>)"
  by (simp add: watch_keeps_def)

lemma is_banned_iff: "is_banned w c \<longleftrightarrow> (\<exists>r. hm_get (cw_banned w) c = Some r)"
  by (simp add: is_banned_def hm_contains_def)

lemma creator_allows_keeps:
  assumes "creator_allows pool creator now s = (ok, s')"
  shows "watch_keeps s s'"
proof -
  let ?win = "from_secs (cf_creator_window_secs (st_config s))" and ?mx = "cf_creator_max_pools (st_config s)"
  obtain v w where oc: "on_create pool creator now ?win ?mx (st_creators s) = (v, w)" by fastforce
  have "is_banned w c" if "is_banned (st_creators s) c" for c
    using that on_create_keeps [of "st_creators s" c _ pool creator now ?win ?mx] oc by (auto simp: is_banned_iff)
  moreover have "s' = s\<lparr>st_creators := prune now ?win w\<rparr>" using assms oc by (simp add: creator_allows_def)
  ultimately show ?thesis by (simp add: watch_keeps_def is_banned_iff prune_keeps)
qed

lemma creator_allows_True:
  assumes "creator_allows pool creator now s = (True, s')"
  shows "\<not> is_banned (st_creators s) creator" "cf_warmup_secs (st_config s) \<le> as_secs (now - st_started s)"
  using assms by (auto simp: creator_allows_def on_create_def is_banned_iff Let_def not_less split: prod.splits option.splits)

text \<open>What the watch says of a pool seen created now.\<close>

definition verdict_on :: "app \<Rightarrow> instant \<Rightarrow> new_pool \<Rightarrow> verdict" where
  "verdict_on s now n =
     fst (on_create (np_pool n) (np_creator n) now (from_secs (cf_creator_window_secs (st_config s)))
       (cf_creator_max_pools (st_config s)) (st_creators s))"

lemma creator_allows_verdict:
  assumes "creator_allows (np_pool n) (np_creator n) now s = (True, s')"
  shows "verdict_on s now n = Fine" "\<not> is_banned (st_creators s') (np_creator n)"
  using assms by (auto simp: creator_allows_def verdict_on_def on_create_def is_banned_iff Let_def prune_keeps split: prod.splits option.splits if_splits)

lemma on_create_pool_keeps: "on_create_pool ch n now s = (ok, s') \<Longrightarrow> watch_keeps s s'"
  by (auto simp: on_create_pool_def watch_keeps_refl split: if_splits intro: creator_allows_keeps)

definition may_start :: "chain \<Rightarrow> app \<Rightarrow> instant \<Rightarrow> new_pool \<Rightarrow> bool" where
  "may_start ch s now n \<longleftrightarrow> np_not_tradable ch n = None \<and> \<not> is_banned (st_creators s) (np_creator n) \<and>
     cf_warmup_secs (st_config s) \<le> as_secs (now - st_started s)"

lemma may_start_earlier: "watch_keeps s s' \<Longrightarrow> may_start ch s' now n \<Longrightarrow> may_start ch s now n"
  by (auto simp: may_start_def watch_keeps_def)

lemma on_create_pool_True: "on_create_pool ch n now s = (True, s') \<Longrightarrow> may_start ch s now n"
  using creator_allows_True [of "np_pool n" "np_creator n" now s s']
  by (auto simp: on_create_pool_def may_start_def split: if_splits)

lemma on_create_pool_verdict:
  "on_create_pool ch n now s = (True, s') \<Longrightarrow> verdict_on s now n = Fine \<and> \<not> is_banned (st_creators s') (np_creator n)"
  using creator_allows_verdict [of n now s s'] by (auto simp: on_create_pool_def split: if_splits)

lemma on_instruction_keeps:
  assumes "on_instruction ch parse_swap slot now tx ix s = (acts, s')"
  shows "watch_keeps s s' \<and> (\<forall>n sg. StartBuy n sg \<in> set acts \<longrightarrow>
    may_start ch s now n \<and> sg_slot sg = slot \<and> sg_seen sg = now \<and> sg_via sg = ViaGeyser \<and>
    parse_create_pool ch (sy_data ix) (sy_accounts ix) (sy_called_by ix) = Some n)"
proof (cases "parse_create_pool ch (sy_data ix) (sy_accounts ix) (sy_called_by ix)")
  case None
  have w: "watch_keeps s (s\<lparr>st_creators := snd (on_withdraw p u (st_creators s))\<rparr>)" for p u
    using on_withdraw_keeps [of "st_creators s"] by (auto simp: watch_keeps_def is_banned_iff)
  show ?thesis using assms None w
    by (auto simp: on_instruction_def watch_keeps_refl split: option.splits)
next
  case (Some n)
  let ?s1 = "case (np_graduated n, tx_signature tx) of
      (True, Some sig) \<Rightarrow> s\<lparr>st_timing := on_processed sig slot now (st_timing s)\<rparr> | _ \<Rightarrow> s"
  have 1: "watch_keeps s ?s1" by (auto simp: watch_keeps_refl watch_keeps_timing split: bool.splits option.splits)
  obtain ok s2 where 2: "on_create_pool ch n now ?s1 = (ok, s2)" by fastforce
  have "s' = s2 \<and> (\<forall>m sg. StartBuy m sg \<in> set acts \<longrightarrow> ok \<and> m = n \<and> sg_slot sg = slot \<and> sg_seen sg = now \<and> sg_via sg = ViaGeyser)"
    using assms Some 2 by (cases ok) (auto simp: on_instruction_def Let_def split: if_splits)
  moreover have "ok \<longrightarrow> may_start ch s now n" using on_create_pool_True [of ch n now ?s1 s2] 2 may_start_earlier [OF 1, of ch now n] by (cases ok) auto
  ultimately show ?thesis using Some watch_keeps_trans [OF 1 on_create_pool_keeps [OF 2]] by blast
qed

lemma on_instruction_verdict:
  assumes "on_instruction ch parse_swap slot now tx ix s = (acts, s')" and "StartBuy n sg \<in> set acts"
  shows "verdict_on s now n = Fine \<and> \<not> is_banned (st_creators s') (np_creator n)"
proof (cases "parse_create_pool ch (sy_data ix) (sy_accounts ix) (sy_called_by ix)")
  case None
  with assms show ?thesis by (auto simp: on_instruction_def split: option.splits)
next
  case (Some m)
  let ?s1 = "case (np_graduated m, tx_signature tx) of
      (True, Some sig) \<Rightarrow> s\<lparr>st_timing := on_processed sig slot now (st_timing s)\<rparr> | _ \<Rightarrow> s"
  obtain ok s2 where 2: "on_create_pool ch m now ?s1 = (ok, s2)" by fastforce
  have "s' = s2 \<and> ok \<and> m = n"
    using assms Some 2 by (cases ok) (auto simp: on_instruction_def Let_def split: if_splits)
  moreover have "verdict_on ?s1 now n = verdict_on s now n" by (auto simp: verdict_on_def split: bool.splits option.splits)
  ultimately show ?thesis using on_create_pool_verdict [of ch n now ?s1 s2] 2 by auto
qed

text \<open>The instructions of a transaction before one of them.\<close>

definition after_earlier ::
  "chain \<Rightarrow> (bytes \<Rightarrow> pubkey list \<Rightarrow> pubkey option) \<Rightarrow> u64 \<Rightarrow> instant \<Rightarrow> geyser_tx \<Rightarrow> stream_ix list \<Rightarrow> app \<Rightarrow> app" where
  "after_earlier ch parse_swap slot now tx ixs s = foldl (\<lambda>s ix. snd (on_instruction ch parse_swap slot now tx ix s)) s ixs"

definition timed :: "u64 \<Rightarrow> instant \<Rightarrow> geyser_tx \<Rightarrow> app \<Rightarrow> app" where
  "timed slot now tx s =
     (case tx_signature tx of
        Some sig \<Rightarrow> (if timing_tracks sig (st_timing s) then s\<lparr>st_timing := on_processed sig slot now (st_timing s)\<rparr> else s)
      | None \<Rightarrow> s)"

lemma after_earlier_keeps: "watch_keeps s (after_earlier ch parse_swap slot now tx ixs s)"
proof (induction ixs arbitrary: s)
  case (Cons ix ixs)
  from on_instruction_keeps [where ch = ch and parse_swap = parse_swap and slot = slot and now = now and tx = tx and ix = ix and s = s,
      OF surjective_pairing]
  have "watch_keeps s (snd (on_instruction ch parse_swap slot now tx ix s))" by blast
  with Cons.IH show ?case unfolding after_earlier_def by (simp add: watch_keeps_trans)
qed (simp add: after_earlier_def watch_keeps_refl)

text \<open>A buy that is started is started by one of the instructions, in the state the earlier ones leave.\<close>

lemma started_by_one:
  assumes "foldl (\<lambda>(acts, s) ix. case on_instruction ch parse_swap slot now tx ix s of (new, s') \<Rightarrow> (acts @ new, s')) (acts0, s) ixs = (acts, s')"
    and "StartBuy n sg \<in> set acts" and "StartBuy n sg \<notin> set acts0"
  shows "\<exists>earlier ix later new s2. ixs = earlier @ ix # later \<and>
    on_instruction ch parse_swap slot now tx ix (after_earlier ch parse_swap slot now tx earlier s) = (new, s2) \<and> StartBuy n sg \<in> set new"
  using assms
proof (induction ixs arbitrary: acts0 s)
  case (Cons ix ixs)
  obtain new s1 where 1: "on_instruction ch parse_swap slot now tx ix s = (new, s1)" by fastforce
  show ?case
  proof (cases "StartBuy n sg \<in> set new")
    case True
    with 1 show ?thesis by (intro exI [of _ "[]"] exI [of _ ix] exI [of _ ixs] exI [of _ new] exI [of _ s1]) (simp add: after_earlier_def)
  next
    case False
    from Cons.prems 1 have "foldl (\<lambda>(acts, s) ix. case on_instruction ch parse_swap slot now tx ix s of (new, s') \<Rightarrow> (acts @ new, s')) (acts0 @ new, s1) ixs = (acts, s')"
      by simp
    from Cons.IH [OF this Cons.prems(2)] Cons.prems(3) False obtain earlier ix' later new' s2 where "ixs = earlier @ ix' # later"
      "on_instruction ch parse_swap slot now tx ix' (after_earlier ch parse_swap slot now tx earlier s1) = (new', s2)" "StartBuy n sg \<in> set new'"
      by auto
    with 1 show ?thesis
      by (intro exI [of _ "ix # earlier"] exI [of _ ix'] exI [of _ later] exI [of _ new'] exI [of _ s2]) (simp add: after_earlier_def)
  qed
qed simp

text \<open>
  C26: A buy is started from the Geyser stream only while streaming is on, for a pool that an instruction of the watched
  program in this very transaction created, that is tradable, once the warm-up is over, and dated at this update's
  slot and time. Its creator is not banned before the update, nor when that instruction is reached, nor by that
  instruction itself: with this pool counted the watch finds the creator fine, so one pool too many in the
  window, which bans the creator, is not bought.
\<close>

theorem a_buy_starts_only_when_allowed:
  assumes "handle_update ch parse_swap now (TransactionUpdate slot tx) s = (acts, s')" and "StartBuy n sg \<in> set acts"
  shows "st_grpc_streaming s \<and> np_not_tradable ch n = None \<and> \<not> is_banned (st_creators s) (np_creator n) \<and>
    cf_warmup_secs (st_config s) \<le> as_secs (now - st_started s) \<and>
    sg = \<lparr>sg_slot = slot, sg_seen = now, sg_via = ViaGeyser\<rparr> \<and>
    (\<exists>earlier ix later s1 new s2.
       filter (\<lambda>ix. sy_program ix = st_watch_address s) (instructions tx (tx_keys tx)) = earlier @ ix # later \<and>
       s1 = after_earlier ch parse_swap slot now tx earlier (timed slot now tx s) \<and>
       on_instruction ch parse_swap slot now tx ix s1 = (new, s2) \<and> StartBuy n sg \<in> set new \<and>
       sy_program ix = st_watch_address s \<and> parse_create_pool ch (sy_data ix) (sy_accounts ix) (sy_called_by ix) = Some n \<and>
       \<not> is_banned (st_creators s1) (np_creator n) \<and> \<not> is_banned (st_creators s2) (np_creator n) \<and> verdict_on s1 now n = Fine)"
proof -
  let ?ixs = "filter (\<lambda>ix. sy_program ix = st_watch_address s) (instructions tx (tx_keys tx))"
  have on: "st_grpc_streaming s" using assms by (auto simp: handle_update_def split: if_splits)
  have 1: "watch_keeps s (timed slot now tx s)" by (auto simp: timed_def watch_keeps_refl watch_keeps_timing split: option.splits)
  have "foldl (\<lambda>(acts, s) ix. case on_instruction ch parse_swap slot now tx ix s of (new, s') \<Rightarrow> (acts @ new, s')) ([], timed slot now tx s) ?ixs = (acts, s')"
    using assms(1) on by (simp add: handle_update_def on_transaction_def timed_def Let_def)
  from started_by_one [OF this assms(2)] obtain earlier ix later new s2 where ixs: "?ixs = earlier @ ix # later"
    and st: "on_instruction ch parse_swap slot now tx ix (after_earlier ch parse_swap slot now tx earlier (timed slot now tx s)) = (new, s2)"
    and new: "StartBuy n sg \<in> set new" by auto
  let ?s1 = "after_earlier ch parse_swap slot now tx earlier (timed slot now tx s)"
  note w = watch_keeps_trans [OF 1 after_earlier_keeps [of _ ch parse_swap slot now tx earlier]]
  from on_instruction_keeps [OF st] new have k: "may_start ch ?s1 now n" "sg_slot sg = slot" "sg_seen sg = now" "sg_via sg = ViaGeyser"
    "parse_create_pool ch (sy_data ix) (sy_accounts ix) (sy_called_by ix) = Some n" by auto
  have "ix \<in> set ?ixs" by (simp only: ixs) simp
  then have "sy_program ix = st_watch_address s" by simp
  with k on may_start_earlier [OF w k(1)] on_instruction_verdict [OF st new] ixs st new show ?thesis
    by (intro conjI exI [of _ earlier] exI [of _ ix] exI [of _ later] exI [of _ ?s1] exI [of _ new] exI [of _ s2])
      (simp_all add: may_start_def)
qed

text \<open>A pool made by hand, seen in a transaction with keys of 32 equal bytes.\<close>

definition key32 :: "nat \<Rightarrow> pubkey" where "key32 n = replicate 32 (word_of_nat n)"

definition stream_chain :: chain where
  "stream_chain = sample_chain\<lparr>wsol_mint := key32 1, global_config := key32 7\<rparr>"

definition stream_app :: app where
  "stream_app = (app_new sample_chain 0)\<lparr>st_watch_address := key32 15\<rparr>"

definition stream_tx :: geyser_tx where
  "stream_tx = \<lparr>gx_signatures = [], gx_keys = map key32 [0 ..< 16],
     gx_instructions = [\<lparr>ci_program = 15, ci_accounts = [2, 7, 3, 4, 1, 5, 0, 0, 0, 6, 8, 0, 0, 9, 10], ci_data = sample_create\<rparr>],
     gx_tables = [], gx_meta = None\<rparr>"

definition stream_accounts :: "pubkey list" where
  "stream_accounts = map key32 [2, 7, 3, 4, 1, 5, 0, 0, 0, 6, 8, 0, 0, 9, 10]"

lemma key32_length [simp]: "length (key32 n) = 32"
  by (simp add: key32_def)

lemma key32_eq: "m < 256 \<Longrightarrow> n < 256 \<Longrightarrow> key32 m = key32 n \<longleftrightarrow> m = n"
proof
  assume "m < 256" "n < 256" "key32 m = key32 n"
  then have "unat (word_of_nat m :: byte) = unat (word_of_nat n :: byte)" by (simp add: key32_def replicate_eq_replicate)
  with \<open>m < 256\<close> \<open>n < 256\<close> show "m = n" by (simp add: unat_byte)
qed simp

lemma stream_tx_keys: "tx_keys stream_tx = map key32 [0 ..< 16]"
proof -
  have "List.map_filter as_key (map key32 ns) = map key32 ns" for ns
    by (induction ns) (simp_all add: List.map_filter_simps as_key_def)
  then show ?thesis by (simp add: tx_keys_def stream_tx_def)
qed

lemma stream_instructions:
  "instructions stream_tx (tx_keys stream_tx) =
     [\<lparr>sy_program = key32 15, sy_accounts = stream_accounts, sy_data = sample_create, sy_called_by = key32 15\<rparr>]"
proof -
  have "list_get (map key32 [0 ..< 16]) i = (if i < 16 then Some (key32 i) else None)" for i
    by (simp add: list_get_def del: upt.simps)
  then show ?thesis
    unfolding stream_tx_keys
    by (simp add: instructions_def stream_tx_def top_ix_def ix_under_def accounts_at_def List.map_filter_simps
        stream_accounts_def del: upt.simps)
qed

lemma stream_pool_parses:
  "\<exists>n. parse_create_pool stream_chain sample_create stream_accounts (key32 15) = Some n \<and> \<not> np_graduated n \<and>
     np_not_tradable stream_chain n = None \<and> np_creator n = key32 3"
proof -
  have "length (pump_program stream_chain) \<noteq> 32"
    by (simp add: pump_program_def stream_chain_def sample_chain_def str_bytes_def)
  then have pump: "key32 15 \<noteq> pump_program stream_chain" by (metis key32_length)
  have chain: "wsol_mint stream_chain = key32 1" "global_config stream_chain = key32 7"
      "create_pool_discriminator stream_chain = [1, 1, 1, 1, 1, 1, 1, 1]"
    by (simp_all add: stream_chain_def sample_chain_def)
  have create: "sample_create = [1, 1, 1, 1, 1, 1, 1, 1] @ replicate 18 1 @ replicate 32 9 @ [0, 0]"
    by (simp add: sample_create_def sample_chain_def)
  show ?thesis
    using pump chain unfolding create
    by (simp add: parse_create_pool_def stream_accounts_def key_len_def slice_def Let_def np_not_tradable_def np_side_def
        side_of_def byte_set_def not_tradable_def np_creator_def key32_eq nth_append list_get_def)
qed

theorem a_buy_starts_only_when_allowed_witness:
  "\<exists>acts s' n sg. handle_update stream_chain (\<lambda>_ _. None) (from_secs 10000) (TransactionUpdate 7 stream_tx) stream_app = (acts, s') \<and>
     StartBuy n sg \<in> set acts \<and> sg_slot sg = 7 \<and> \<not> is_banned (st_creators stream_app) (np_creator n)"
proof -
  obtain n where n: "parse_create_pool stream_chain sample_create stream_accounts (key32 15) = Some n" "\<not> np_graduated n"
      "np_not_tradable stream_chain n = None" "np_creator n = key32 3"
    using stream_pool_parses by blast
  have ok: "\<exists>s'. on_create_pool stream_chain n (from_secs 10000) stream_app = (True, s')"
    using n by (simp add: on_create_pool_def creator_allows_def on_create_def stream_app_def app_new_def creator_watch_default_def
        trade_config_default_def default_warmup_secs_def default_creator_window_secs_def default_creator_max_pools_def
        times_after_def hm_contains_def rust_arith Let_def)
  have "tx_signature stream_tx = None" "st_watch_address stream_app = key32 15" "st_grpc_streaming stream_app"
    by (simp_all add: tx_signature_def stream_tx_def stream_app_def app_new_def)
  with n ok obtain s' where 1: "handle_update stream_chain (\<lambda>_ _. None) (from_secs 10000) (TransactionUpdate 7 stream_tx) stream_app
      = ([StartBuy n \<lparr>sg_slot = 7, sg_seen = from_secs 10000, sg_via = ViaGeyser\<rparr>], s')"
    by (auto simp: handle_update_def on_transaction_def stream_instructions on_instruction_def)
  from a_buy_starts_only_when_allowed [OF 1] 1 show ?thesis by fastforce
qed

subsection \<open>The keys of a transaction not run yet\<close>

text \<open>Whether a lookup's table is known and has every index it asks for; what it gives then.\<close>

definition lookup_fits :: "luts \<Rightarrow> lookup \<Rightarrow> bool" where
  "lookup_fits known l \<longleftrightarrow>
     list_all (\<lambda>i. \<exists>a. hm_get known (lk_table l) = Some a \<and> i < length a) (lk_writable l @ lk_readonly l)"

definition looked_up :: "luts \<Rightarrow> (lookup \<Rightarrow> nat list) \<Rightarrow> lookup list \<Rightarrow> pubkey list" where
  "looked_up known part ls = concat (map (\<lambda>l. map (\<lambda>i. the (hm_get known (lk_table l)) ! i) (part l)) ls)"

lemma looked_up_simps [simp]:
  "looked_up known part [] = []"
  "looked_up known part (l # ls) = map (\<lambda>i. the (hm_get known (lk_table l)) ! i) (part l) @ looked_up known part ls"
  by (simp_all add: looked_up_def)

lemma pick_ok: "snd (pick addresses is) \<longleftrightarrow> list_all (\<lambda>i. \<exists>a. addresses = Some a \<and> i < length a) is"
  by (induction "is") (auto simp: list_get_def bind_eq_Some_conv split: option.splits prod.splits)

lemma pick_all: "snd (pick addresses is) \<Longrightarrow> fst (pick addresses is) = map (\<lambda>i. the addresses ! i) is"
  by (induction "is") (auto simp: list_get_def split: option.splits prod.splits bind_splits if_splits)

lemma resolve_from_eq:
  "resolve_from known ls keys ro missing =
     (let unfit = missing @ map lk_table (filter (\<lambda>l. \<not> lookup_fits known l) ls)
      in if unfit = [] then Ok (keys @ looked_up known lk_writable ls @ ro @ looked_up known lk_readonly ls) else Err unfit)"
proof (induction ls arbitrary: keys ro missing)
  case (Cons l ls)
  obtain ws okw where w: "pick (hm_get known (lk_table l)) (lk_writable l) = (ws, okw)" by fastforce
  obtain rs okr where r: "pick (hm_get known (lk_table l)) (lk_readonly l) = (rs, okr)" by fastforce
  have fits: "lookup_fits known l \<longleftrightarrow> okw \<and> okr"
    using pick_ok [of "hm_get known (lk_table l)" "lk_writable l"] pick_ok [of "hm_get known (lk_table l)" "lk_readonly l"] w r
    by (simp add: lookup_fits_def)
  have all: "ws = map (\<lambda>i. the (hm_get known (lk_table l)) ! i) (lk_writable l)"
      "rs = map (\<lambda>i. the (hm_get known (lk_table l)) ! i) (lk_readonly l)" if "okw" "okr"
    using pick_all [of "hm_get known (lk_table l)"] w r that by (metis fst_conv snd_conv)+
  show ?case
    by (cases okw; cases okr) (use all in \<open>simp_all add: w r fits Cons.IH Let_def\<close>)
qed simp

text \<open>
  A transaction that has not run yet is read only when every table it looks up is known and long enough;
  its keys are then its own, those its lookups write, then those they only read, each in the order of the
  lookups. Otherwise what comes back is the tables to read, each lookup that misses one, in order.
\<close>

theorem a_transaction_not_run_is_read_exactly:
  "resolve tx known =
     (case sx_lookups tx of
        None \<Rightarrow> Ok (sx_keys tx)
      | Some ls \<Rightarrow>
          (if list_all (lookup_fits known) ls
           then Ok (sx_keys tx @ looked_up known lk_writable ls @ looked_up known lk_readonly ls)
           else Err (map lk_table (filter (\<lambda>l. \<not> lookup_fits known l) ls))))"
  by (auto simp: resolve_def resolve_from_eq Let_def filter_empty_conv list_all_iff split: option.splits)

subsection \<open>Who is banned for a banned creator\<close>

text \<open>In a transaction of these signatures, which ran, one sent the other SOL.\<close>

definition sent_sol :: "chain \<Rightarrow> trace_rpc \<Rightarrow> signature list \<Rightarrow> pubkey \<Rightarrow> pubkey \<Rightarrow> bool" where
  "sent_sol ch rpc sigs sender receiver \<longleftrightarrow>
     (\<exists>sig \<in> set sigs. \<exists>t n. tp_transaction rpc sig = Some (Some t) \<and> jt_failed t = Some False \<and>
        (sender, receiver, n) \<in> set (sol_transfers ch (Some t)))"

lemma sol_transfers_ran: "x \<in> set (sol_transfers ch tx) \<Longrightarrow> \<exists>t. tx = Some t \<and> jt_failed t = Some False"
  by (auto simp: sol_transfers_def split: option.splits if_splits)

lemma sent_solI: "sig \<in> set sigs \<Longrightarrow> tp_transaction rpc sig = Some tx \<Longrightarrow> (a, b, n) \<in> set (sol_transfers ch tx) \<Longrightarrow> sent_sol ch rpc sigs a b"
  unfolding sent_sol_def using sol_transfers_ran by metis

lemma first_funder_in_sent: "first_funder_in ch rpc creator sigs = Some w \<Longrightarrow> sent_sol ch rpc sigs w creator \<and> w \<noteq> creator"
proof (induction sigs)
  case (Cons sig sigs)
  have "sent_sol ch rpc (sig # sigs) w creator \<and> w \<noteq> creator" if tx: "tp_transaction rpc sig = Some tx" and f: "first_funder ch creator tx = Some w" for tx
  proof -
    from f obtain n where "(w, creator, n) \<in> set (sol_transfers ch tx)" "w \<noteq> creator"
      by (auto simp: first_funder_def find_Some_iff) (metis nth_mem)
    with tx show ?thesis using sent_solI [of sig "sig # sigs" rpc tx w creator n ch] by simp
  qed
  moreover have "sent_sol ch rpc (sig # sigs) w creator" if "sent_sol ch rpc sigs w creator"
    using that by (auto simp: sent_sol_def)
  ultimately show ?case using Cons by (auto split: option.splits)
qed simp

lemma set_insert_key [simp]: "set (insert_key k ks) = insert k (set ks)"
  by (induction ks) auto

lemma distinct_insert_key: "distinct ks \<Longrightarrow> k \<notin> set ks \<Longrightarrow> distinct (insert_key k ks)"
  by (induction ks) auto

lemma set_key_set [simp]: "set (key_set ks) = set ks"
proof -
  have "set (sort_keys ks) = set ks" for ks by (induction ks) (simp_all add: sort_keys_def)
  then show ?thesis by (simp add: key_set_def)
qed

lemma distinct_key_set [simp]: "distinct (key_set ks)"
proof -
  have set_sort: "set (foldr insert_key ks []) = set ks" for ks by (induction ks) simp_all
  have "distinct ks \<Longrightarrow> distinct (foldr insert_key ks [])" for ks
    by (induction ks) (simp_all add: distinct_insert_key set_sort)
  then show ?thesis by (simp add: key_set_def sort_keys_def)
qed

lemma funded_in_sent: "w \<in> set (funded_in ch rpc funder sigs) \<Longrightarrow> sent_sol ch rpc sigs funder w \<and> w \<noteq> funder"
  by (auto simp: funded_in_def Let_def List.map_filter_def intro!: sent_solI)

lemma distinct_funded_in [simp]: "distinct (funded_in ch rpc funder sigs)"
  by (simp add: funded_in_def Let_def)

text \<open>
  Tracing a banned creator bans one wallet as its funder, which is not the creator nor the wallet to keep
  and which sent it SOL in one of its first five transactions, its history being short enough to be read
  whole; and at most fifty more, each once, none of them the creator, the funder or the wallet to keep, and
  each sent SOL by that funder in one of its last two hundred transactions.
\<close>

theorem tracing_bans_only_the_funded:
  assumes "trace_one ch rpc creator keep = Ok bans"
  shows "\<exists>funder others csigs fsigs.
    bans = (funder, FundedBanned creator) # map (\<lambda>w. (w, FundedByFunder funder creator)) others \<and>
    tp_signatures rpc creator = Some csigs \<and> length csigs < 1000 \<and> sent_sol ch rpc (take 5 (List.rev csigs)) funder creator \<and>
    tp_signatures rpc funder = Some fsigs \<and> length fsigs < 1000 \<and> length others \<le> 50 \<and>
    distinct (creator # funder # others) \<and> keep \<notin> Some ` set (funder # others) \<and>
    list_all (sent_sol ch rpc (take 200 fsigs) funder) others"
proof -
  from assms obtain funder funded where f: "funder_of ch rpc creator = Ok funder" "Some funder \<noteq> keep"
      and g: "funded_by ch rpc funder = Ok funded"
      and bans: "bans = (funder, FundedBanned creator) # map (\<lambda>w. (w, FundedByFunder funder creator)) (filter (\<lambda>w. w \<noteq> creator \<and> Some w \<noteq> keep) funded)"
    by (auto simp: trace_one_def split: sum.splits if_splits)
  from f obtain csigs where c: "tp_signatures rpc creator = Some csigs" "length csigs < 1000"
      "first_funder_in ch rpc creator (take 5 (List.rev csigs)) = Some funder"
    by (auto simp: funder_of_def history_limit_def first_txs_def split: option.splits if_splits)
  from g obtain fsigs where d: "tp_signatures rpc funder = Some fsigs" "length fsigs < 1000" "length funded \<le> 50"
      "funded = funded_in ch rpc funder (take 200 fsigs)"
    by (auto simp: funded_by_def history_limit_def funder_scan_def max_funded_def Let_def split: option.splits if_splits)
  let ?others = "filter (\<lambda>w. w \<noteq> creator \<and> Some w \<noteq> keep) funded"
  have "length ?others \<le> 50" using d(3) le_trans [OF length_filter_le] by blast
  moreover have "list_all (\<lambda>w. sent_sol ch rpc (take 200 fsigs) funder w \<and> w \<noteq> funder) funded"
    using funded_in_sent by (auto simp: list_all_iff d(4))
  moreover have "distinct funded" by (simp add: d(4))
  ultimately show ?thesis
    using bans f(2) c d(1,2) first_funder_in_sent [OF c(3)]
    by (intro exI [of _ funder] exI [of _ ?others] exI [of _ csigs] exI [of _ fsigs]) (auto simp: list_all_iff)
qed

text \<open>A wallet \<open>[2]\<close> that sent SOL to the creator \<open>[1]\<close> and to \<open>[3]\<close>, each in a transaction of its own.\<close>

definition trace_tx :: "pubkey \<Rightarrow> pubkey \<Rightarrow> json_tx" where
  "trace_tx sender receiver =
     \<lparr>jt_keys = [Some sender, Some receiver, Some (system_program_id sample_chain)], jt_loaded = [],
      jt_instructions = [\<lparr>ji_program = 2, ji_accounts = [0, 1], ji_data = Some ([2, 0, 0, 0] @ le_bytes 8 9)\<rparr>],
      jt_inner = [], jt_failed = Some False\<rparr>"

definition trace_sample :: trace_rpc where
  "trace_sample =
     \<lparr>tp_signatures = (\<lambda>k. if k = [1] then Some [''a''] else if k = [2] then Some [''b'', ''a''] else None),
      tp_transaction = (\<lambda>sig. if sig = ''a'' then Some (Some (trace_tx [2] [1])) else if sig = ''b'' then Some (Some (trace_tx [2] [3])) else None)\<rparr>"

lemma trace_tx_sends: "sol_transfers sample_chain (Some (trace_tx a b)) = [(a, b, 9)]"
  by (simp add: sol_transfers_def trace_tx_def transfer_of_def key_at_def list_get_def List.map_filter_simps le_nat_le_bytes)

theorem tracing_bans_only_the_funded_witness:
  "trace_one sample_chain trace_sample [1] None = Ok [([2], FundedBanned [1]), ([3], FundedByFunder [2] [1])] \<and>
   sent_sol sample_chain trace_sample [''a''] [2] [1]"
proof -
  have "funder_of sample_chain trace_sample [1] = Ok [2]"
    by (simp add: funder_of_def trace_sample_def history_limit_def first_txs_def first_funder_def trace_tx_sends)
  moreover have "funded_by sample_chain trace_sample [2] = Ok [[1], [3]]"
    by (simp add: funded_by_def trace_sample_def history_limit_def funder_scan_def max_funded_def funded_in_def
        List.map_filter_simps trace_tx_sends key_set_def sort_keys_def Let_def)
  ultimately have 1: "trace_one sample_chain trace_sample [1] None = Ok [([2], FundedBanned [1]), ([3], FundedByFunder [2] [1])]"
    by (simp add: trace_one_def)
  from tracing_bans_only_the_funded [OF 1] 1 show ?thesis by (auto simp: trace_sample_def)
qed

end
