(* ===== verification/Restore_Properties.thy ===== *)
theory Restore_Properties
  imports Watching Stream_Properties
begin

text \<open>What is taken up from the wallet at the start: only tokens the bot could sell again, and nothing is sold by it.\<close>

text \<open>A position taken up with nothing wrong about it.\<close>

definition well_restored :: "chain \<Rightarrow> position \<Rightarrow> bool" where
  "well_restored ch p \<longleftrightarrow> pos_status p = Active \<and> pos_restored p \<and> pos_pending_sell p = None \<and>
     pos_base_amount p > 0 \<and> pos_buy_price_lamports p > 0 \<and> pos_base_mint p \<noteq> wsol_mint ch \<and>
     (\<exists>raw data. decode_pool raw = Ok data \<and> not_tradable data (Some raw) = None \<and> side_of ch data = Some (pos_side p)) \<and>
     (\<exists>m :: account_read. mint_blocks_selling ch (rd_data m) (rd_owner m) = None)"

definition pool_tradable :: "chain \<Rightarrow> bytes \<Rightarrow> bool" where
  "pool_tradable ch raw \<longleftrightarrow> (\<exists>data. decode_pool raw = Ok data \<and> not_tradable data (Some raw) = None)"

lemma deepest_pool_tradable: "deepest_pool ch vault found = Some (pool, raw, sol) \<Longrightarrow> pool_tradable ch raw"
proof -
  have "(\<forall>a r n. best = Some (a, r, n) \<longrightarrow> pool_tradable ch r) \<Longrightarrow>
      foldl (deeper_pool ch vault) best found = Some (pool, raw, sol) \<Longrightarrow> pool_tradable ch raw" for best
  proof (induction found arbitrary: best)
    case (Cons x xs)
    have "\<forall>a r n. deeper_pool ch vault best x = Some (a, r, n) \<longrightarrow> pool_tradable ch r"
      using Cons.prems(1) by (auto simp: deeper_pool_def pool_tradable_def split: sum.splits option.splits if_splits prod.splits)
    with Cons.prems(2) show ?case by (intro Cons.IH) simp_all
  qed simp
  from this [of None] show "deepest_pool ch vault found = Some (pool, raw, sol) \<Longrightarrow> ?thesis" by (simp add: deepest_pool_def)
qed

lemma held_token_Some:
  assumes "held_token ch parse show_key wa = Some (mint, amount)"
    and "\<And>m. parse m = Some (wsol_mint ch) \<Longrightarrow> m = show_key (wsol_mint ch)"
  shows "amount > 0 \<and> mint \<noteq> wsol_mint ch"
  using assms by (auto simp: held_token_def split: option.splits if_splits)

lemma restore_single_well:
  assumes "restore_single_position ch i now pool raw mint amount program r s = Ok s'"
    and "pool_tradable ch raw" "amount > 0" "mint \<noteq> wsol_mint ch"
  shows "\<exists>p. st_positions s' = hm_insert i p (st_positions s) \<and> well_restored ch p \<and> st_running s' = st_running s"
proof -
  obtain data m sd tokens sol where d: "decode_pool raw = Ok data" "side_of ch data = Some sd"
      "mint_blocks_selling ch (rd_data m) (rd_owner m) = None" "mr_mint r = Some m"
    and s': "s' = push_notification pool mint (PositionRestored amount (pos_buy_price_lamports (restored_position ch i now pool sd mint amount program sol tokens)))
        (s\<lparr>st_positions := hm_insert i (restored_position ch i now pool sd mint amount program sol tokens) (st_positions s)\<rparr>)"
    using assms(1) by (auto simp: restore_single_position_def Let_def split: sum.splits option.splits)
  have "well_restored ch (restored_position ch i now pool sd mint amount program sol tokens)"
    unfolding well_restored_def
    using d assms(2-4) by (auto simp: restored_position_def position_opened_def pool_tradable_def Let_def)
  with s' show ?thesis by (auto simp: push_notification_def push_log_def)
qed

text \<open>What taking up does to the state: positions are added, each a good one.\<close>

definition takes_up :: "chain \<Rightarrow> app \<Rightarrow> app \<Rightarrow> bool" where
  "takes_up ch s s' \<longleftrightarrow> st_running s' = st_running s \<and>
     (\<forall>i. hm_get (st_positions s') i = hm_get (st_positions s) i \<or>
        (\<exists>p. hm_get (st_positions s') i = Some p \<and> well_restored ch p))"

lemma takes_up_refl: "takes_up ch s s"
  by (simp add: takes_up_def)

lemma takes_up_trans: "takes_up ch a b \<Longrightarrow> takes_up ch b c \<Longrightarrow> takes_up ch a c"
  unfolding takes_up_def by metis

lemma takes_up_foldl: "(\<And>x s. takes_up ch s (f s x)) \<Longrightarrow> takes_up ch s (foldl f s xs)"
  by (induction xs arbitrary: s) (auto simp: takes_up_refl intro: takes_up_trans)

lemma restore_account_takes_up:
  assumes "\<And>m. parse m = Some (wsol_mint ch) \<Longrightarrow> m = show_key (wsol_mint ch)"
  shows "takes_up ch s (restore_account ch parse show_key program keyed s)"
proof -
  have "takes_up ch s s'"
    if h: "held_token ch parse show_key wa = Some (mint, amount)" and d: "deepest_pool ch v found = Some (pool, raw, n)"
      and r: "restore_single_position ch i now pool raw mint amount program rd s = Ok s'" for wa mint amount v found pool raw n i now rd s'
  proof -
    have "amount > 0" "mint \<noteq> wsol_mint ch" using held_token_Some [OF h assms] by auto
    from restore_single_well [OF r deepest_pool_tradable [OF d] this] show ?thesis by (auto simp: takes_up_def)
  qed
  then show ?thesis
    by (auto simp: restore_account_def takes_up_refl split: prod.splits option.splits sum.splits)
qed

text \<open>
  Taking up the wallet's tokens at the start touches no position there is, starts no trading, and adds
  only active positions in a positive amount of a token other than WSOL, with a baseline above zero, whose
  pool is a tradable WSOL/token pool and whose mint nothing blocks from being sold.
\<close>

theorem only_the_sellable_is_taken_up:
  assumes "\<And>m. parse m = Some (wsol_mint ch) \<Longrightarrow> m = show_key (wsol_mint ch)"
  shows "st_running (restore_positions_from_wallet ch parse show_key accounts s) = st_running s \<and>
    (\<forall>i. hm_get (st_positions (restore_positions_from_wallet ch parse show_key accounts s)) i = hm_get (st_positions s) i \<or>
       (\<exists>p. hm_get (st_positions (restore_positions_from_wallet ch parse show_key accounts s)) i = Some p \<and> well_restored ch p))"
proof -
  note one = restore_account_takes_up [of parse ch show_key, OF assms]
  have "takes_up ch s (restore_positions_from_wallet ch parse show_key accounts s)"
    unfolding restore_positions_from_wallet_def
    by (auto simp del: foldl_Cons simp: takes_up_refl split: option.splits intro!: takes_up_foldl one)
  then show ?thesis by (simp add: takes_up_def)
qed

text \<open>A wallet with one token, of a pool made by hand.\<close>

definition wallet_pool :: pool where
  "wallet_pool = \<lparr>pool_bump = 0, pool_index = 0, pool_creator = key32 3, base_mint = key32 4, quote_mint = key32 1, lp_mint = key32 5,
     pool_base_token_account = key32 6, pool_quote_token_account = key32 7, lp_supply = 0, coin_creator = key32 8, is_mayhem_mode = False\<rparr>"

definition wallet_answers :: restore_answers where
  "wallet_answers = \<lparr>ra_pools = (\<lambda>b q. if b = key32 4 then Some [(key32 2, pool_layout wallet_pool 0)] else None),
     ra_vault = (\<lambda>v n. Fetched 4000),
     ra_reads = \<lparr>mr_account = (\<lambda>n. FetchError), mr_sol_vault = (\<lambda>n. Fetched 4000), mr_token_vault = (\<lambda>n. Fetched 4000),
       mr_mint = Some \<lparr>rd_owner = [2], rd_data = replicate 82 0\<rparr>\<rparr>, ra_id = ''a'', ra_now = 0\<rparr>"

definition wallet_parse :: "string \<Rightarrow> pubkey option" where
  "wallet_parse m = (if m = ''token'' then Some (key32 4) else if m = ''wsol'' then Some (key32 1) else None)"

definition wallet_show :: "pubkey \<Rightarrow> string" where
  "wallet_show k = (if k = key32 1 then ''wsol'' else ''token'')"

definition wallet_app :: app where
  "wallet_app = (app_new sample_chain 0)\<lparr>st_wallet := Some [30]\<rparr>"

definition wallet_restored :: app where
  "wallet_restored = restore_positions_from_wallet stream_chain wallet_parse wallet_show
     (\<lambda>program. if program = [2] then Some [(\<lparr>wa_mint = Some ''token'', wa_amount = Some ''57''\<rparr>, wallet_answers)] else None) wallet_app"

theorem only_the_sellable_is_taken_up_witness:
  "\<exists>p. hm_get (st_positions wallet_restored) ''a'' = Some p \<and> well_restored stream_chain p \<and> \<not> st_running wallet_restored"
proof -
  have chain: "wsol_mint stream_chain = key32 1" "token_program stream_chain = [2]" "token_2022_program stream_chain = [3]"
    by (simp_all add: stream_chain_def sample_chain_def)
  have parses: "wallet_parse m = Some (wsol_mint stream_chain) \<Longrightarrow> m = wallet_show (wsol_mint stream_chain)" for m
    by (simp add: wallet_parse_def wallet_show_def chain key32_eq split: if_splits)
  have decodes: "decode_pool (pool_layout wallet_pool 0) = Ok wallet_pool"
    using decode_pool_layout [of wallet_pool 0 "[]"] by (simp add: wallet_pool_def pool_ok_def key_len_def)
  have len: "length (pool_layout wallet_pool 0) = 244"
    using length_pool_layout [of wallet_pool 0] by (simp add: wallet_pool_def pool_ok_def layout_consts)
  have side: "side_of stream_chain wallet_pool = Some SolQuote"
    by (simp add: side_of_def wallet_pool_def chain key32_eq)
  have trade: "not_tradable wallet_pool (Some (pool_layout wallet_pool 0)) = None"
  proof -
    have "\<not> is_mayhem_mode wallet_pool" by (simp add: wallet_pool_def)
    then show ?thesis by (simp add: not_tradable_def byte_set_def len layout_consts)
  qed
  have fetched: "fetch_with_retry (\<lambda>n. Fetched x) = Some x" for x :: nat
    by (simp add: fetch_with_retry_def pool_fetch_retries_def numeral_eq_Suc)
  have mint: "mint_blocks_selling stream_chain (replicate 82 0) [2] = None"
  proof -
    have "replicate 4 (0 :: byte) = [0, 0, 0, 0]" by code_simp
    then show ?thesis by (simp add: mint_blocks_selling_def chain mint_consts slice_def)
  qed
  have amount: "held_token stream_chain wallet_parse wallet_show \<lparr>wa_mint = Some ''token'', wa_amount = Some ''57''\<rparr> = Some (key32 4, 57)"
    by (simp add: held_token_def wallet_parse_def wallet_show_def chain parse_u64_def parse_upto_def is_digit_def digits_value_def byte_of_def u64_max_def)
  have deep: "deepest_pool stream_chain (ra_vault wallet_answers) (token_pools stream_chain wallet_answers (key32 4)) =
      Some (key32 2, pool_layout wallet_pool 0, 4000)"
    by (simp add: deepest_pool_def deeper_pool_def token_pools_def wallet_answers_def chain key32_eq decodes side trade fetched)
  have "\<exists>p. hm_get (st_positions wallet_restored) ''a'' = Some p"
    by (simp add: wallet_restored_def restore_positions_from_wallet_def wallet_app_def app_new_def chain restore_account_def amount deep)
       (simp add: restore_single_position_def wallet_answers_def decodes mint side fetched push_notification_def push_log_def Let_def hm_get_def)
  moreover have "hm_get (st_positions wallet_app) ''a'' = None" "\<not> st_running wallet_app"
    by (simp_all add: wallet_app_def app_new_def hm_get_def)
  moreover have "st_running wallet_restored = st_running wallet_app \<and> (\<forall>i. hm_get (st_positions wallet_restored) i = hm_get (st_positions wallet_app) i \<or>
      (\<exists>p. hm_get (st_positions wallet_restored) i = Some p \<and> well_restored stream_chain p))"
    unfolding wallet_restored_def by (rule only_the_sellable_is_taken_up) (rule parses)
  ultimately show ?thesis by (metis option.distinct(1))
qed

end
