(* ===== verification/Json.thy ===== *)
theory Json
  imports Floats
begin

text \<open>
  JSON values as serde_json holds them: a number is an unsigned or a negative integer of 64 bits, or a
  double. An object has each key once; \<open>json!\<close> and \<open>out[key] = value\<close> build one key by key.
\<close>

datatype json =
    JNull
  | JBool bool
  | JUint u64
  | JNeg i64
  | JFloat f64
  | JStr string
  | JArr "json list"
  | JObj "(string \<times> json) list"

text \<open>\<open>Value::get\<close> with a key, and with an \<open>Option\<close> in front.\<close>

fun jget :: "string \<Rightarrow> json \<Rightarrow> json option" where
  "jget k (JObj m) = hm_get m k"
| "jget k j = None"

definition jget_or_null :: "string \<Rightarrow> json \<Rightarrow> json" where
  "jget_or_null k j = (case jget k j of Some v \<Rightarrow> v | None \<Rightarrow> JNull)"

fun as_str :: "json \<Rightarrow> string option" where
  "as_str (JStr s) = Some s"
| "as_str j = None"

fun as_bool :: "json \<Rightarrow> bool option" where
  "as_bool (JBool b) = Some b"
| "as_bool j = None"

fun as_array :: "json \<Rightarrow> json list option" where
  "as_array (JArr xs) = Some xs"
| "as_array j = None"

fun as_object :: "json \<Rightarrow> (string \<times> json) list option" where
  "as_object (JObj m) = Some m"
| "as_object j = None"

fun as_u64 :: "json \<Rightarrow> u64 option" where
  "as_u64 (JUint n) = Some n"
| "as_u64 j = None"

fun as_i64 :: "json \<Rightarrow> i64 option" where
  "as_i64 (JUint n) = (if int n \<le> i64_max then Some (int n) else None)"
| "as_i64 (JNeg i) = Some i"
| "as_i64 j = None"

fun as_f64 :: "json \<Rightarrow> f64 option" where
  "as_f64 (JUint n) = Some (u64_to_f64 n)"
| "as_f64 (JNeg i) = Some (f64_make True (nat (- i)) 0)"
| "as_f64 (JFloat x) = Some x"
| "as_f64 j = None"

text \<open>\<open>v.get(key).and_then(Value::as_str)\<close>, and the empty string for want of it.\<close>

definition str_at :: "string \<Rightarrow> json \<Rightarrow> string option" where
  "str_at k j = Option.bind (jget k j) as_str"

definition str_or :: "string \<Rightarrow> string option \<Rightarrow> string" where
  "str_or d x = (case x of Some s \<Rightarrow> s | None \<Rightarrow> d)"

text \<open>\<open>out[key] = value\<close> on an object.\<close>

fun jset :: "string \<Rightarrow> json \<Rightarrow> json \<Rightarrow> json" where
  "jset k v (JObj m) = JObj (hm_insert k v m)"
| "jset k v JNull = JObj [(k, v)]"
| "jset k v j = j"

text \<open>\<open>pick\<close> of \<open>tools.rs\<close>: the named fields of an object; the rest is left out.\<close>

definition pick_fields :: "json \<Rightarrow> string list \<Rightarrow> json" where
  "pick_fields value fields =
     JObj (foldl (\<lambda>m f. case jget f value of None \<Rightarrow> m | Some v \<Rightarrow> hm_insert f v m) [] fields)"

lemma jget_jset [simp]: "jget k (jset k' v (JObj m)) = (if k = k' then Some v else jget k (JObj m))"
  by simp

lemma jset_JObj: "\<exists>m'. jset k v (JObj m) = JObj m'"
  by simp

lemma pick_fields_get: "jget k (pick_fields value fields) = (if k \<in> set fields then jget k value else None)"
proof -
  have "hm_get (foldl (\<lambda>m f. case jget f value of None \<Rightarrow> m | Some v \<Rightarrow> hm_insert f v m) m0 fields) k =
      (if k \<in> set fields \<and> jget k value \<noteq> None then jget k value else hm_get m0 k)" for m0
    by (induction fields arbitrary: m0) (auto split: option.splits)
  from this [of "[]"] show ?thesis by (auto simp: pick_fields_def)
qed

end
