(* ===== verification/Texts.thy ===== *)
theory Texts
  imports Prelude
begin

text \<open>
  More of Rust's string functions: pieces, lines and white space of a text, and its characters. A text is its
  UTF-8 bytes; the white space looked for is that of ASCII.
\<close>

subsection \<open>Pieces and lines\<close>

definition is_lower :: "char \<Rightarrow> bool" where "is_lower c = (97 \<le> byte_of c \<and> byte_of c \<le> 122)"

definition ends_in :: "string \<Rightarrow> string \<Rightarrow> bool" where
  "ends_in s p = (length p \<le> length s \<and> drop (length s - length p) s = p)"

fun has_text :: "string \<Rightarrow> string \<Rightarrow> bool" where
  "has_text p [] = (p = [])"
| "has_text p (c # cs) = (starts_with (c # cs) p \<or> has_text p cs)"

text \<open>\<open>str::split_once\<close>.\<close>

fun split_once :: "char \<Rightarrow> string \<Rightarrow> (string \<times> string) option" where
  "split_once sep [] = None"
| "split_once sep (c # cs) =
     (if c = sep then Some ([], cs) else map_option (\<lambda>(a, b). (c # a, b)) (split_once sep cs))"

definition strip_suffix :: "string \<Rightarrow> string \<Rightarrow> string option" where
  "strip_suffix p s = (if ends_in s p then Some (take (length s - length p) s) else None)"

text \<open>\<open>str::lines\<close>: without the line feeds; nothing after the last one; a carriage return before one goes too.\<close>

definition drop_cr :: "string \<Rightarrow> string" where
  "drop_cr l = (if l \<noteq> [] \<and> last l = CHR 0x0D then butlast l else l)"

definition text_lines :: "string \<Rightarrow> string list" where
  "text_lines s =
     (let ps = split_on (CHR 0x0A) s
      in map drop_cr (butlast ps) @ (if last ps = [] then [] else [last ps]))"

definition new_line :: string where "new_line = [CHR 0x0A]"

definition is_space :: "char \<Rightarrow> bool" where "is_space c = (9 \<le> byte_of c \<and> byte_of c \<le> 13 \<or> byte_of c = 32)"

definition trim :: "string \<Rightarrow> string" where
  "trim s = List.rev (dropWhile is_space (List.rev (dropWhile is_space s)))"

text \<open>\<open>Iterator::find_map\<close>.\<close>

fun first_some :: "('a \<Rightarrow> 'b option) \<Rightarrow> 'a list \<Rightarrow> 'b option" where
  "first_some f [] = None"
| "first_some f (x # xs) = (case f x of None \<Rightarrow> first_some f xs | Some b \<Rightarrow> Some b)"

lemma ends_in_append [simp]: "ends_in (s @ p) p"
  by (simp add: ends_in_def)

lemma strip_suffix_append [simp]: "strip_suffix p (s @ p) = Some s"
  by (simp add: strip_suffix_def)

lemma text_lines_cons:
  assumes "CHR 0x0A \<notin> set l" "CHR 0x0D \<notin> set l"
  shows "text_lines (l @ new_line @ s) = l # text_lines s"
proof -
  have sp: "split_on (CHR 0x0A) (l @ new_line @ s) = l # split_on (CHR 0x0A) s"
    using split_on_cons [OF assms(1)] by (simp add: new_line_def)
  have "drop_cr l = l" using assms(2) by (metis drop_cr_def last_in_set)
  with sp show ?thesis by (simp add: text_lines_def Let_def)
qed

lemma text_lines_prefix:
  "list_all (\<lambda>l. CHR 0x0A \<notin> set l \<and> CHR 0x0D \<notin> set l) ls \<Longrightarrow>
     text_lines (concat (map (\<lambda>l. l @ new_line) ls) @ s) = ls @ text_lines s"
  by (induction ls) (simp_all add: text_lines_cons)

lemma first_some_append: "first_some f (xs @ ys) = (case first_some f xs of None \<Rightarrow> first_some f ys | Some b \<Rightarrow> Some b)"
  by (induction xs) (simp_all split: option.split)

subsection \<open>Characters\<close>

text \<open>
  \<open>str::chars\<close>: each character of UTF-8 text is a byte that continues none, with those that continue it.
\<close>

definition continues_char :: "char \<Rightarrow> bool" where "continues_char c = (128 \<le> byte_of c \<and> byte_of c < 192)"

function utf8_chars :: "string \<Rightarrow> string list" where
  "utf8_chars [] = []"
| "utf8_chars (c # cs) = (c # takeWhile continues_char cs) # utf8_chars (dropWhile continues_char cs)"
  by pat_completeness auto
termination by (relation "measure length") (auto simp: le_imp_less_Suc length_dropWhile_le)

definition code_point :: "string \<Rightarrow> nat" where
  "code_point u =
     (case map byte_of u of
        [a] \<Rightarrow> a
      | [a, b] \<Rightarrow> (a - 192) * 64 + (b - 128)
      | [a, b, c] \<Rightarrow> (a - 224) * 4096 + (b - 128) * 64 + (c - 128)
      | [a, b, c, d] \<Rightarrow> (a - 240) * 262144 + (b - 128) * 4096 + (c - 128) * 64 + (d - 128)
      | _ \<Rightarrow> 0)"

definition take_chars :: "nat \<Rightarrow> string \<Rightarrow> string" where "take_chars n s = concat (take n (utf8_chars s))"

text \<open>
  \<open>String::from_utf8_lossy\<close>: well-formed characters stay, and the longest piece that could have begun one, or
  else one byte, becomes a replacement character.
\<close>

definition replacement :: string where "replacement = [CHR 0xEF, CHR 0xBF, CHR 0xBD]"

definition second_ok :: "nat \<Rightarrow> nat \<Rightarrow> bool" where
  "second_ok a b =
     (if a = 224 then 160 \<le> b \<and> b < 192 else if a = 237 then 128 \<le> b \<and> b < 160
      else if a = 240 then 144 \<le> b \<and> b < 192 else if a = 244 then 128 \<le> b \<and> b < 144
      else 128 \<le> b \<and> b < 192)"

definition char_width :: "nat \<Rightarrow> nat" where
  "char_width a =
     (if a < 128 then 1 else if 194 \<le> a \<and> a < 224 then 2 else if 224 \<le> a \<and> a < 240 then 3
      else if 240 \<le> a \<and> a < 245 then 4 else 0)"

definition char_start :: "string \<Rightarrow> nat" where
  "char_start s =
     (case s of
        a # b # cs \<Rightarrow>
          if char_width (byte_of a) \<le> 1 \<or> \<not> second_ok (byte_of a) (byte_of b) then 1
          else 2 + length (takeWhile continues_char (take (char_width (byte_of a) - 2) cs))
      | _ \<Rightarrow> length s)"

function from_utf8_lossy :: "string \<Rightarrow> string" where
  "from_utf8_lossy s =
     (if s = [] then []
      else (if char_start s = char_width (byte_of (hd s)) then take (char_start s) s else replacement) @
        from_utf8_lossy (drop (char_start s) s))"
  by pat_completeness auto
termination
  by (relation "measure length") (auto simp: char_start_def split: list.splits)

declare from_utf8_lossy.simps [simp del]

lemma concat_utf8_chars: "concat (utf8_chars s) = s"
  by (induction s rule: utf8_chars.induct) (auto simp: takeWhile_dropWhile_id)

lemma utf8_chars_ascii: "list_all (\<lambda>c. byte_of c < 128) s \<Longrightarrow> utf8_chars s = map (\<lambda>c. [c]) s"
proof (induction s)
  case (Cons c cs)
  then have "takeWhile continues_char cs = []" "dropWhile continues_char cs = cs"
    by (cases cs; simp add: continues_char_def)+
  with Cons show ?case by simp
qed simp

lemma from_utf8_lossy_ascii: "list_all (\<lambda>c. byte_of c < 128) s \<Longrightarrow> from_utf8_lossy s = s"
proof (induction s)
  case (Cons c cs)
  then have "char_start (c # cs) = 1" "char_width (byte_of c) = 1"
    by (auto simp: char_start_def char_width_def split: list.splits)
  with Cons show ?case by (subst from_utf8_lossy.simps) simp
qed (simp add: from_utf8_lossy.simps)

subsection \<open>Hexadecimal digits\<close>

text \<open>\<open>char::is_ascii_hexdigit\<close>, \<open>char::to_digit\<close> with radix 16, and \<open>{:x}\<close> of an unsigned integer.\<close>

definition is_hexdigit :: "char \<Rightarrow> bool" where
  "is_hexdigit c = (is_digit c \<or> 97 \<le> byte_of c \<and> byte_of c \<le> 102 \<or> 65 \<le> byte_of c \<and> byte_of c \<le> 70)"

definition hex_value :: "char \<Rightarrow> nat" where
  "hex_value c = (if is_digit c then byte_of c - 48 else if 97 \<le> byte_of c then byte_of c - 87 else byte_of c - 55)"

definition hex_digit :: "nat \<Rightarrow> char" where
  "hex_digit n = char_of (if n < 10 then 48 + n else 87 + n)"

fun lower_hex :: "nat \<Rightarrow> string" where
  "lower_hex n = (if n < 16 then [hex_digit n] else lower_hex (n div 16) @ [hex_digit (n mod 16)])"

declare lower_hex.simps [simp del]

definition hex_number :: "string \<Rightarrow> nat" where "hex_number ds = foldl (\<lambda>n c. 16 * n + hex_value c) 0 ds"

lemma hex_digit_ok: "n < 16 \<Longrightarrow> is_hexdigit (hex_digit n) \<and> hex_value (hex_digit n) = n"
  by (auto simp: hex_digit_def hex_value_def is_hexdigit_def is_digit_def byte_of_def)

lemma lower_hex_value [simp]: "hex_number (lower_hex n) = n"
proof (induction n rule: lower_hex.induct)
  case (1 n)
  then show ?case by (subst lower_hex.simps) (simp add: hex_number_def hex_digit_ok)
qed

lemma lower_hex_digits: "list_all is_hexdigit (lower_hex n)"
proof (induction n rule: lower_hex.induct)
  case (1 n)
  then show ?case by (subst lower_hex.simps) (simp add: hex_digit_ok)
qed

lemma lower_hex_nonempty [simp]: "lower_hex n \<noteq> []"
  by (subst lower_hex.simps) simp

end
