(* ===== verification/Eurc.thy ===== *)
theory Eurc
  imports Bytes Texts
begin

text \<open>
  The one payment erpc signs, \<open>eurc.rs\<close>, and the addresses and hex of \<open>evm.rs\<close>: a transfer of EURC on
  Base, checked before it is signed. Keccak-256 and secp256k1 are parameters.
\<close>

type_synonym address = bytes
type_synonym u128 = nat

definition u128_max :: u128 where "u128_max = 2 ^ 128 - 1"

subsection \<open>Hex and addresses\<close>

fun hex_bytes :: "string \<Rightarrow> bytes" where
  "hex_bytes (c # d # s) = word_of_nat (16 * hex_value c + hex_value d) # hex_bytes s"
| "hex_bytes _ = []"

definition from_hex :: "nat \<Rightarrow> string \<Rightarrow> bytes option" where
  "from_hex n s = (if length s \<noteq> n * 2 \<or> \<not> list_all is_hexdigit s then None else Some (hex_bytes s))"

definition hex :: "bytes \<Rightarrow> string" where
  "hex b = ''0x'' @ concat (map (\<lambda>x. [hex_digit (unat x div 16), hex_digit (unat x mod 16)]) b)"

datatype refused =
    PaysElsewhere address
  | FromElsewhere address
  | OtherAmount u128 u128
  | NotWithinADay
  | NotAnAmount string
  | AmountOutOfRange string
  | Not32Bytes string

datatype wallet_error = KeyError | AddressError | SignError string | Refused refused

definition address_parse :: "string \<Rightarrow> wallet_error + address" where
  "address_parse text =
     (case strip_prefix ''0x'' text of
        None \<Rightarrow> Err AddressError
      | Some h \<Rightarrow> (case from_hex 20 h of None \<Rightarrow> Err AddressError | Some b \<Rightarrow> Ok b))"

subsection \<open>What is pinned\<close>

definition chain_id :: u64 where "chain_id = 8453"
definition eurc_contract :: string where "eurc_contract = ''0x60a3e35cc302bfa44cb288bc5a4f316fdb1adb42''"
definition domain_name :: string where "domain_name = ''EURC''"
definition domain_version :: string where "domain_version = ''2''"
definition treasury :: string where "treasury = ''0x490842c32b83653dfd06eeeb53b9dbbf5d87f597''"
definition eurc_decimals :: u32 where "eurc_decimals = 6"

definition domain_type :: bytes where
  "domain_type = str_bytes ''EIP712Domain(string name,string version,uint256 chainId,address verifyingContract)''"

definition transfer_type :: bytes where
  "transfer_type = str_bytes ''TransferWithAuthorization(address from,address to,uint256 value,uint256 validAfter,uint256 validBefore,bytes32 nonce)''"

subsection \<open>A transfer\<close>

record transfer =
  tr_from :: address
  tr_to :: address
  tr_value :: u128
  tr_valid_after :: u64
  tr_valid_before :: u64
  tr_nonce :: bytes

text \<open>\<open>to_be_bytes\<close> of 16 bytes, at the end of a word of 32.\<close>

definition word_u128 :: "u128 \<Rightarrow> bytes" where
  "word_u128 v = replicate 16 0 @ List.rev (le_bytes 16 v)"

definition word_address :: "address \<Rightarrow> bytes" where
  "word_address a = replicate 12 0 @ a"

definition domain_separator :: "(bytes \<Rightarrow> bytes) \<Rightarrow> wallet_error + bytes" where
  "domain_separator keccak =
     (case address_parse eurc_contract of
        Inl e \<Rightarrow> Err e
      | Inr contract \<Rightarrow>
          Ok (keccak (keccak domain_type @ keccak (str_bytes domain_name) @ keccak (str_bytes domain_version) @
                word_u128 chain_id @ word_address contract)))"

definition transfer_data :: "(bytes \<Rightarrow> bytes) \<Rightarrow> transfer \<Rightarrow> bytes" where
  "transfer_data keccak t =
     keccak transfer_type @ word_address (tr_from t) @ word_address (tr_to t) @ word_u128 (tr_value t) @
     word_u128 (tr_valid_after t) @ word_u128 (tr_valid_before t) @ tr_nonce t"

definition digest :: "(bytes \<Rightarrow> bytes) \<Rightarrow> transfer \<Rightarrow> wallet_error + bytes" where
  "digest keccak t =
     (case domain_separator keccak of
        Inl e \<Rightarrow> Err e
      | Inr sep \<Rightarrow> Ok (keccak ([0x19, 0x01] @ sep @ keccak (transfer_data keccak t))))"

definition transfer_check :: "transfer \<Rightarrow> address \<Rightarrow> u128 \<Rightarrow> u64 \<Rightarrow> wallet_error + unit" where
  "transfer_check t payer agreed now =
     (case address_parse treasury of
        Inl e \<Rightarrow> Err e
      | Inr pinned \<Rightarrow>
         (if tr_to t \<noteq> pinned then Err (Refused (PaysElsewhere (tr_to t)))
          else if tr_from t \<noteq> payer then Err (Refused (FromElsewhere (tr_from t)))
          else if tr_value t \<noteq> agreed then Err (Refused (OtherAmount (tr_value t) agreed))
          else if tr_valid_before t \<le> now \<or> tr_valid_before t > u64_add now 86400 then Err (Refused NotWithinADay)
          else Ok ()))"

text \<open>The signing key: its address, and its signature of a digest.\<close>

record signer =
  sg_address :: address
  sg_sign :: "bytes \<Rightarrow> wallet_error + bytes"

definition transfer_sign :: "(bytes \<Rightarrow> bytes) \<Rightarrow> signer \<Rightarrow> transfer \<Rightarrow> u128 \<Rightarrow> u64 \<Rightarrow> wallet_error + bytes" where
  "transfer_sign keccak key t agreed now =
     (case transfer_check t (sg_address key) agreed now of
        Inl e \<Rightarrow> Err e
      | Inr u \<Rightarrow> (case digest keccak t of Inl e \<Rightarrow> Err e | Inr d \<Rightarrow> sg_sign key d))"

subsection \<open>Amounts as text\<close>

text \<open>\<open>{:06}\<close>.\<close>

definition pad_zeros :: "nat \<Rightarrow> string \<Rightarrow> string" where
  "pad_zeros n s = replicate (n - length s) CHR ''0'' @ s"

definition format_eurc :: "u128 \<Rightarrow> string" where
  "format_eurc atomic =
     show_nat (atomic div 10 ^ eurc_decimals) @ ''.'' @ pad_zeros 6 (show_nat (atomic mod 10 ^ eurc_decimals))"

definition parse_decimal :: "string \<Rightarrow> wallet_error + u128" where
  "parse_decimal text =
     (if text = [] \<or> length text > 39 \<or> \<not> list_all is_digit text then Err (Refused (NotAnAmount text))
      else case parse_upto u128_max text of
        None \<Rightarrow> Err (Refused (AmountOutOfRange text))
      | Some n \<Rightarrow> Ok n)"

definition parse_bytes32 :: "string \<Rightarrow> wallet_error + bytes" where
  "parse_bytes32 text =
     (case Option.bind (strip_prefix ''0x'' text) (from_hex 32) of
        None \<Rightarrow> Err (Refused (Not32Bytes text))
      | Some b \<Rightarrow> Ok b)"

subsection \<open>Lemmas\<close>

lemma length_hex_bytes: "even (length s) \<Longrightarrow> length (hex_bytes s) = length s div 2"
  by (induction s rule: hex_bytes.induct) auto

lemma from_hex_length: "from_hex n s = Some b \<Longrightarrow> length b = n"
  by (auto simp: from_hex_def length_hex_bytes split: if_splits)

lemma address_parse_length: "address_parse s = Ok a \<Longrightarrow> length a = 20"
  by (auto simp: address_parse_def from_hex_length split: option.splits)

lemma parse_bytes32_length: "parse_bytes32 s = Ok b \<Longrightarrow> length b = 32"
  by (auto simp: parse_bytes32_def from_hex_length bind_eq_Some_conv split: option.splits)

lemma parse_decimal_bound: "parse_decimal s = Ok n \<Longrightarrow> n \<le> u128_max \<and> n = digits_value s"
  by (auto simp: parse_decimal_def parse_upto_def Let_def is_digit_def byte_of_def split: if_splits list.splits)

text \<open>Printed and read back.\<close>

lemma unat_byte_less [simp]: "unat (x :: byte) div 16 < 16" "unat (x :: byte) mod 16 < 16"
  using byte_bound [of x] by simp_all

lemma hex_bytes_hex:
  "hex_bytes (concat (map (\<lambda>x. [hex_digit (unat x div 16), hex_digit (unat x mod 16)]) b)) = b"
  by (induction b) (simp_all add: hex_digit_ok)

lemma from_hex_hex: "length b = n \<Longrightarrow> strip_prefix ''0x'' (hex b) = Some h \<Longrightarrow> from_hex n h = Some b"
proof -
  assume n: "length b = n" and "strip_prefix ''0x'' (hex b) = Some h"
  then have h: "h = concat (map (\<lambda>x. [hex_digit (unat x div 16), hex_digit (unat x mod 16)]) b)" by (simp add: hex_def)
  have "length h = n * 2" unfolding h n [symmetric] by (induction b) simp_all
  moreover have "list_all is_hexdigit h" unfolding h by (induction b) (simp_all add: hex_digit_ok)
  ultimately show ?thesis by (simp add: from_hex_def h hex_bytes_hex)
qed

lemma strip_hex: "\<exists>h. strip_prefix ''0x'' (hex b) = Some h"
  by (simp add: hex_def)

lemma address_parse_hex [simp]: "length a = 20 \<Longrightarrow> address_parse (hex a) = Ok a"
  using strip_hex [of a] by (auto simp: address_parse_def from_hex_hex simp del: strip_prefix_Some)

lemma parse_bytes32_hex [simp]: "length b = 32 \<Longrightarrow> parse_bytes32 (hex b) = Ok b"
  using strip_hex [of b] by (auto simp: parse_bytes32_def from_hex_hex simp del: strip_prefix_Some)

lemma length_show_nat: "n < 10 ^ k \<Longrightarrow> k > 0 \<Longrightarrow> length (show_nat n) \<le> k"
proof (induction n arbitrary: k rule: show_nat.induct)
  case (1 n)
  show ?case
  proof (cases "n < 10")
    case False
    with 1(2) obtain j where k: "k = Suc j" "j > 0" by (cases k; cases "k - 1") auto
    with 1(2) have "n div 10 < 10 ^ j" by (simp add: less_mult_imp_div_less mult.commute)
    with 1(1) [OF False] k show ?thesis by (subst show_nat.simps) (simp add: False)
  qed (use 1(3) in \<open>subst show_nat.simps, simp\<close>)
qed

lemma parse_decimal_show [simp]: "n \<le> u128_max \<Longrightarrow> parse_decimal (show_nat n) = Ok n"
proof -
  assume n: "n \<le> u128_max"
  then have "n < 10 ^ 39" by (simp add: u128_max_def)
  then have "length (show_nat n) \<le> 39" by (rule length_show_nat) simp
  with n show ?thesis by (simp add: parse_decimal_def all_digits_show_nat parse_show_nat)
qed

lemma is_ok_treasury: "is_ok (address_parse treasury)" "is_ok (address_parse eurc_contract)"
  by (simp_all add: address_parse_def treasury_def eurc_contract_def from_hex_def is_hexdigit_def is_digit_def byte_of_def)

lemma transfer_check_Ok:
  "transfer_check t payer agreed now = Ok u \<longleftrightarrow>
     address_parse treasury = Ok (tr_to t) \<and> tr_from t = payer \<and> tr_value t = agreed \<and>
     now < tr_valid_before t \<and> tr_valid_before t \<le> u64_add now 86400"
  by (auto simp: transfer_check_def split: sum.splits)

text \<open>A transfer as its parts are read: addresses of 20 bytes, numbers that fit, a nonce of 32 bytes.\<close>

definition transfer_ok :: "transfer \<Rightarrow> bool" where
  "transfer_ok t \<longleftrightarrow> length (tr_from t) = 20 \<and> length (tr_to t) = 20 \<and> tr_value t \<le> u128_max \<and>
     tr_valid_after t \<le> u64_max \<and> tr_valid_before t \<le> u64_max \<and> length (tr_nonce t) = 32"

lemma word_u128_inj: "m \<le> u128_max \<Longrightarrow> n \<le> u128_max \<Longrightarrow> word_u128 m = word_u128 n \<Longrightarrow> m = n"
proof -
  assume b: "m \<le> u128_max" "n \<le> u128_max" and "word_u128 m = word_u128 n"
  then have "le_nat (le_bytes 16 m) = le_nat (le_bytes 16 n)" by (simp add: word_u128_def del: le_bytes.simps)
  with b show ?thesis by (simp add: le_nat_le_bytes u128_max_def del: le_bytes.simps)
qed

lemma length_word [simp]: "length (word_u128 n) = 32" "length (word_address a) = 12 + length a"
  by (simp_all add: word_u128_def word_address_def)

lemma transfer_data_inj:
  assumes ok: "transfer_ok t" "transfer_ok t'" and eq: "transfer_data keccak t = transfer_data keccak t'"
  shows "t = t'"
proof -
  have "word_address (tr_from t) = word_address (tr_from t')" "word_address (tr_to t) = word_address (tr_to t')"
      "word_u128 (tr_value t) = word_u128 (tr_value t')" "word_u128 (tr_valid_after t) = word_u128 (tr_valid_after t')"
      "word_u128 (tr_valid_before t) = word_u128 (tr_valid_before t')" "tr_nonce t = tr_nonce t'"
    using ok eq by (simp_all add: transfer_data_def transfer_ok_def)
  moreover have "u64_max \<le> u128_max" by (simp add: u64_max_def u128_max_def)
  ultimately show ?thesis
    using ok by (intro transfer.equality) (auto simp: transfer_ok_def word_address_def intro: word_u128_inj)
qed

text \<open>A digest as the signature of two transfers can be shared only if Keccak-256 collides on what is hashed for them.\<close>

definition digest_message :: "(bytes \<Rightarrow> bytes) \<Rightarrow> bytes \<Rightarrow> transfer \<Rightarrow> bytes" where
  "digest_message keccak sep t = [0x19, 0x01] @ sep @ keccak (transfer_data keccak t)"

definition collides :: "(bytes \<Rightarrow> bytes) \<Rightarrow> bytes \<Rightarrow> bytes \<Rightarrow> bool" where
  "collides keccak x y \<longleftrightarrow> x \<noteq> y \<and> keccak x = keccak y"

text \<open>
  A signature is good for one transfer only: two transfers with the same digest are the same one, payer,
  receiver, amount, validity and nonce, or Keccak-256 collides on the two transfers' fields or on the two
  messages made of them.
\<close>

theorem a_signature_is_for_one_transfer:
  assumes "transfer_ok t" "transfer_ok t'" "digest keccak t = Ok d" "digest keccak t' = Ok d"
    and "domain_separator keccak = Ok sep"
  shows "t = t' \<or> collides keccak (transfer_data keccak t) (transfer_data keccak t') \<or>
    collides keccak (digest_message keccak sep t) (digest_message keccak sep t')"
proof -
  have same: "keccak (digest_message keccak sep t) = keccak (digest_message keccak sep t')"
    using assms(3-5) by (simp add: digest_def digest_message_def)
  have "transfer_data keccak t = transfer_data keccak t'"
    if "digest_message keccak sep t = digest_message keccak sep t'" "\<not> collides keccak (transfer_data keccak t) (transfer_data keccak t')"
    using that by (auto simp: digest_message_def collides_def)
  then show ?thesis using transfer_data_inj [OF assms(1,2)] same unfolding collides_def by blast
qed

text \<open>With a stand-in hash, the length of what is hashed.\<close>

definition length_hash :: "bytes \<Rightarrow> bytes" where "length_hash b = [word_of_nat (length b)]"

definition sample_transfer :: "u128 \<Rightarrow> transfer" where
  "sample_transfer v = \<lparr>tr_from = replicate 20 1, tr_to = replicate 20 2, tr_value = v, tr_valid_after = 0,
     tr_valid_before = 1000, tr_nonce = replicate 32 7\<rparr>"

lemma a_signature_is_for_one_transfer_witness:
  "\<exists>sep. domain_separator length_hash = Ok sep \<and>
     (collides length_hash (transfer_data length_hash (sample_transfer 5)) (transfer_data length_hash (sample_transfer 6)) \<or>
      collides length_hash (digest_message length_hash sep (sample_transfer 5)) (digest_message length_hash sep (sample_transfer 6)))"
proof -
  obtain sep where sep: "domain_separator length_hash = Ok sep"
    using is_ok_treasury(2) by (cases "address_parse eurc_contract") (simp_all add: domain_separator_def is_ok_def)
  have ok: "transfer_ok (sample_transfer 5)" "transfer_ok (sample_transfer 6)"
    by (simp_all add: transfer_ok_def sample_transfer_def u128_max_def u64_max_def)
  have len: "length (transfer_data length_hash (sample_transfer v)) = 193" for v
    by (simp add: transfer_data_def sample_transfer_def length_hash_def)
  have "digest length_hash (sample_transfer 5) = digest length_hash (sample_transfer 6)"
    by (simp add: digest_def sep length_hash_def len)
  moreover obtain d where "digest length_hash (sample_transfer 5) = Ok d" by (simp add: digest_def sep)
  ultimately have "sample_transfer 5 = sample_transfer 6 \<or>
      collides length_hash (transfer_data length_hash (sample_transfer 5)) (transfer_data length_hash (sample_transfer 6)) \<or>
      collides length_hash (digest_message length_hash sep (sample_transfer 5)) (digest_message length_hash sep (sample_transfer 6))"
    using a_signature_is_for_one_transfer [OF ok _ _ sep] by metis
  with sep show ?thesis by (auto simp: sample_transfer_def)
qed

end
