(* ===== verification/Top_Up.thy ===== *)
theory Top_Up
  imports Json Eurc
begin

text \<open>
  Buying credit from the assistant: \<open>top_up_credit\<close> of \<open>actions.rs\<close> with the sessions of
  \<open>gasless.rs\<close>. The person, the wallet, the clock and user-api's answers are inputs; what is done to
  the outside, in its order, is a list of events. Texts of errors are constructors.
\<close>

subsection \<open>Sessions\<close>

datatype api_error = ApiHttp | ApiUnauthorized | ApiMalformed string | ApiStatus nat

record reply =
  re_status :: nat
  re_body :: json

text \<open>What comes over the wire: nothing, or a status and its body, when that is JSON.\<close>

type_synonym wire = "(nat \<times> json option) option"

definition reply_of :: "wire \<Rightarrow> api_error + reply" where
  "reply_of w =
     (case w of
        None \<Rightarrow> Err ApiHttp
      | Some (status, body) \<Rightarrow>
         (if status = 401 then Err ApiUnauthorized
          else Ok \<lparr>re_status = status, re_body = (case body of Some j \<Rightarrow> j | None \<Rightarrow> JNull)\<rparr>))"

definition is_session_id :: "string \<Rightarrow> bool" where
  "is_session_id i =
     (length i = 36 \<and>
      list_all (\<lambda>(k, c). if k \<in> {8, 13, 18, 23} then c = CHR ''-'' else is_hexdigit c) (List.enumerate 0 i))"

text \<open>A request about a session: sent only for an id that may stand in a path.\<close>

definition session_call :: "string \<Rightarrow> wire \<Rightarrow> api_error + reply" where
  "session_call i w = (if is_session_id i then reply_of w else Err (ApiMalformed i))"

definition is_success :: "nat \<Rightarrow> bool" where
  "is_success status = (200 \<le> status \<and> status < 300)"

definition state_of :: "json \<Rightarrow> string" where
  "state_of body = str_or [] (str_at ''state'' body)"

definition is_settled :: "string \<Rightarrow> bool" where
  "is_settled state = (state \<in> {''granted'', ''stuck'', ''expired'', ''cancelled''})"

subsection \<open>The transfer asked for\<close>

datatype top_up_error =
    NotACreditAmount
  | NoWalletSupport
  | NoOneToAsk
  | WalletUnset string
  | NoRandomness string
  | NotPrepared api_error
  | NoTransferToSign
  | NotEurcOnBase
  | BadTransfer wallet_error
  | OutOfRange string
  | NothingSigned wallet_error
  | SaidNo
  | KeyUnread string

text \<open>
  \<open>to_lowercase\<close> on the contract's address, which is compared with one in ASCII: no other character
  becomes a hex digit or an \<open>x\<close>.
\<close>

definition is_eurc_transfer :: "json \<Rightarrow> bool" where
  "is_eurc_transfer typed =
     (let domain = jget_or_null ''domain'' typed
      in str_at ''name'' domain = Some domain_name \<and> str_at ''version'' domain = Some domain_version \<and>
         Option.bind (jget ''chainId'' domain) as_u64 = Some chain_id \<and>
         map to_ascii_lower (str_or [] (str_at ''verifyingContract'' domain)) = eurc_contract \<and>
         str_at ''primaryType'' typed = Some ''TransferWithAuthorization'')"

definition decimal_at :: "string \<Rightarrow> json \<Rightarrow> top_up_error + u128" where
  "decimal_at k m = map_err BadTransfer (parse_decimal (str_or [] (str_at k m)))"

definition u64_of :: "string \<Rightarrow> u128 \<Rightarrow> top_up_error + u64" where
  "u64_of what n = (if n \<le> u64_max then Ok n else Err (OutOfRange what))"

definition transfer_of_session :: "json \<Rightarrow> top_up_error + (transfer \<times> u128)" where
  "transfer_of_session session =
     and_then (ok_or NoTransferToSign (jget ''typedData'' session)) (\<lambda>typed.
       if \<not> is_eurc_transfer typed then Err NotEurcOnBase
       else
         let m = jget_or_null ''message'' typed
         in and_then (map_err BadTransfer (address_parse (str_or [] (str_at ''from'' m)))) (\<lambda>sender.
            and_then (map_err BadTransfer (address_parse (str_or [] (str_at ''to'' m)))) (\<lambda>receiver.
            and_then (decimal_at ''value'' m) (\<lambda>amount.
            and_then (and_then (decimal_at ''validAfter'' m) (u64_of ''validAfter'')) (\<lambda>valid_after.
            and_then (and_then (decimal_at ''validBefore'' m) (u64_of ''validBefore'')) (\<lambda>valid_before.
            and_then (map_err BadTransfer (parse_bytes32 (str_or [] (str_at ''nonce'' m)))) (\<lambda>nonce.
            and_then (decimal_at ''totalEurcAtomic'' (jget_or_null ''quote'' session)) (\<lambda>quoted.
              Ok (\<lparr>tr_from = sender, tr_to = receiver, tr_value = amount, tr_valid_after = valid_after,
                   tr_valid_before = valid_before, tr_nonce = nonce\<rparr>, quoted)))))))))"

subsection \<open>What the person is asked\<close>

record top_up_question =
  tq_credits :: u32
  tq_total_text :: string
  tq_subtotal :: string
  tq_vat :: string
  tq_rate :: string
  tq_total :: string
  tq_from :: address
  tq_to :: address
  tq_valid_until :: string

definition top_up_question_of :: "u32 \<Rightarrow> json \<Rightarrow> u128 \<Rightarrow> address \<Rightarrow> address \<Rightarrow> top_up_question" where
  "top_up_question_of credits session quoted payer receiver =
     (let q = jget_or_null ''quote'' session; txt = (\<lambda>k. str_or ''?'' (str_at k q))
      in \<lparr>tq_credits = credits, tq_total_text = txt ''totalEurc'', tq_subtotal = txt ''subtotalEurc'',
          tq_vat = txt ''vatAmountEurc'', tq_rate = txt ''vatRate'', tq_total = format_eurc quoted,
          tq_from = payer, tq_to = receiver, tq_valid_until = txt ''quoteExpiresAt''\<rparr>)"

subsection \<open>What a submit's answer amounts to\<close>

datatype submitted = Accepted reply | RefusedOutright reply | Unclear

definition nothing_taken :: "string \<Rightarrow> bool" where
  "nothing_taken state = (state \<in> {'''', ''ready'', ''expired'', ''cancelled''})"

definition classify_submit :: "api_error + reply \<Rightarrow> submitted" where
  "classify_submit result =
     (case result of
        Inl e \<Rightarrow> Unclear
      | Inr r \<Rightarrow>
         (let body = re_body r; status = re_status r; state = state_of body;
              has_words = (jget ''code'' body \<noteq> None \<or> jget ''message'' body \<noteq> None)
          in if is_success status \<and> state \<noteq> [] \<and> state \<noteq> ''ready'' then Accepted r
             else if 400 \<le> status \<and> status \<le> 499 \<and> status \<noteq> 408 \<and> status \<noteq> 429 \<and> has_words \<and> nothing_taken state
               then RefusedOutright r
             else Unclear))"

definition cancels_after_unclear_submit :: "string \<Rightarrow> bool" where
  "cancels_after_unclear_submit state = (state = ''ready'')"

subsection \<open>What is told\<close>

definition refusal :: "reply \<Rightarrow> string \<Rightarrow> string \<Rightarrow> json" where
  "refusal r i what =
     (let out = pick_fields (re_body r) [''state'', ''code'', ''message''];
          out1 = (if jget ''state'' out = None then jset ''state'' (JStr ''refused'') out else out)
      in jset ''what'' (JStr what) (jset ''sessionId'' (JStr i) (jset ''paid'' (JBool False)
           (jset ''done'' (JBool False) (jset ''httpStatus'' (JUint (re_status r)) out1)))))"

text \<open>\<open>{:?}\<close> of a string, on bytes: what is not ASCII is printed as it is.\<close>

definition debug_char :: "char \<Rightarrow> string" where
  "debug_char c =
     (if c = CHR 0x22 \<or> c = CHR 0x5C then [CHR 0x5C, c]
      else if c = CHR 0x00 then [CHR 0x5C, CHR ''0'']
      else if c = CHR 0x09 then [CHR 0x5C, CHR ''t'']
      else if c = CHR 0x0A then [CHR 0x5C, CHR ''n'']
      else if c = CHR 0x0D then [CHR 0x5C, CHR ''r'']
      else if byte_of c < 16 then [CHR 0x5C] @ ''u{'' @ [hex_digit (byte_of c)] @ ''}''
      else if byte_of c < 32 \<or> byte_of c = 127 then
        [CHR 0x5C] @ ''u{'' @ [hex_digit (byte_of c div 16), hex_digit (byte_of c mod 16)] @ ''}''
      else [c])"

definition str_debug :: "string \<Rightarrow> string" where
  "str_debug s = [CHR 0x22] @ concat (map debug_char s) @ [CHR 0x22]"

text \<open>
  The messages that keep a person from buying twice; \<open>why\<close> is what is not known, without the text of the
  error behind it.
\<close>

datatype why = NoAnswer | NoReadableState nat | LastState string

definition unknown_message :: "why \<Rightarrow> string" where
  "unknown_message w =
     ''the signed transfer was sent, and whether it was taken is not known ('' @
     (case w of
        NoAnswer \<Rightarrow> ''no answer came back''
      | NoReadableState n \<Rightarrow> ''no readable state (HTTP '' @ show_nat n @ '')''
      | LastState s \<Rightarrow> ''the session'' @ [CHR 0x27] @ ''s last known state is '' @ str_debug s) @
     ''). Do not buy again until the credit balance or this session shows what happened.''"

definition stuck_message :: string where
  "stuck_message =
     ''the session is stuck: the transfer may have been taken without the credit being granted. Do not buy again; give ERPC support this session id.''"

definition under_way_message :: "string \<Rightarrow> string" where
  "under_way_message state =
     ''user-api has the signed transfer and the session is still '' @ state @
     '': the credit is not granted yet. Do not buy again; the balance or this session shows when it is.''"

definition unknown_report :: "string \<Rightarrow> string \<Rightarrow> why \<Rightarrow> json" where
  "unknown_report i what w =
     JObj [(''state'', JStr ''unknown''), (''done'', JBool False), (''sessionId'', JStr i), (''what'', JStr what),
           (''message'', JStr (unknown_message w))]"

definition under_way_report :: "string \<Rightarrow> string \<Rightarrow> string \<Rightarrow> nat \<Rightarrow> json" where
  "under_way_report i what state status =
     JObj [(''state'', JStr state), (''done'', JBool False), (''sessionId'', JStr i), (''what'', JStr what),
           (''httpStatus'', JUint status), (''message'', JStr (under_way_message state))]"

definition report_of :: "bool \<Rightarrow> reply \<Rightarrow> string \<Rightarrow> string \<Rightarrow> json" where
  "report_of unclear ans i what =
     (let state = state_of (re_body ans)
      in if is_settled state then
           (let out = pick_fields (re_body ans) [''state'', ''code'', ''message'', ''transaction''];
                out1 = jset ''what'' (JStr what) (jset ''sessionId'' (JStr i)
                  (jset ''done'' (JBool (state = ''granted'')) (jset ''httpStatus'' (JUint (re_status ans)) out)))
            in if state = ''stuck'' then jset ''message'' (JStr stuck_message) out1 else out1)
         else if state = [] then unknown_report i what (NoReadableState (re_status ans))
         else if unclear then unknown_report i what (LastState state)
         else
           under_way_report i what state (re_status ans))"

subsection \<open>A top-up\<close>

text \<open>What is done to the outside, in order. A request about a session is listed when it is sent.\<close>

datatype top_up_event =
    PrepareSent u32 string
  | Asked top_up_question bool
  | KeyRead
  | SubmitSent string string
  | StatusSent string
  | CancelSent string

record top_up_world =
  tw_wallet :: "(string + address) option"
  tw_confirm :: "(top_up_question \<Rightarrow> bool) option"
  tw_uuid :: "string + string"
  tw_prepare :: wire
  tw_key :: "string + signer"
  tw_now_checked :: u64
  tw_now_signed :: u64
  tw_submit :: wire
  tw_status :: "nat \<Rightarrow> wire"

text \<open>\<open>amountCredits\<close> of what the model asked for: a whole number from 1 to 10,000.\<close>

definition credits_of :: "json \<Rightarrow> u32 option" where
  "credits_of input =
     (case Option.bind (jget ''amountCredits'' input) as_u64 of
        None \<Rightarrow> None
      | Some n \<Rightarrow> (if n \<le> u32_max \<and> 1 \<le> n \<and> n \<le> 10000 then Some n else None))"

definition if_sent :: "string \<Rightarrow> top_up_event \<Rightarrow> top_up_event list" where
  "if_sent i e = (if is_session_id i then [e] else [])"

text \<open>
  \<open>follow\<close>: at most \<open>k\<close> rounds from the n-th question about the session; the last answer, and how many
  questions were asked by then.
\<close>

fun follow :: "nat \<Rightarrow> string \<Rightarrow> (nat \<Rightarrow> wire) \<Rightarrow> nat \<Rightarrow> reply \<Rightarrow> reply \<times> nat" where
  "follow 0 i ask n ans = (ans, n)"
| "follow (Suc k) i ask n ans =
     (if is_settled (state_of (re_body ans)) \<or> \<not> is_success (re_status ans) then (ans, n)
      else case session_call i (ask n) of
        Inl e \<Rightarrow> (ans, Suc n)
      | Inr r \<Rightarrow> follow k i ask (Suc n) r)"

text \<open>
  From the submit on: the session is followed from the answer, or from what the session says when the
  answer was unclear; a signature that never arrived is made to stay away.
\<close>

definition followed :: "top_up_world \<Rightarrow> string \<Rightarrow> string \<Rightarrow> reply \<Rightarrow> nat \<Rightarrow> bool \<Rightarrow> top_up_event list \<times> json" where
  "followed w i what first n unclear =
     (case follow 20 i (tw_status w) n first of
        (ans, m) \<Rightarrow>
          (if unclear \<and> cancels_after_unclear_submit (state_of (re_body ans)) then
             (replicate (m - n) (StatusSent i) @ if_sent i (CancelSent i) @ if_sent i (StatusSent i),
              report_of unclear (case session_call i (tw_status w m) of Inl e \<Rightarrow> ans | Inr r \<Rightarrow> r) i what)
           else (replicate (m - n) (StatusSent i), report_of unclear ans i what)))"

definition after_submit :: "top_up_world \<Rightarrow> string \<Rightarrow> string \<Rightarrow> top_up_event list \<times> json" where
  "after_submit w i what =
     (case classify_submit (session_call i (tw_submit w)) of
        Accepted r \<Rightarrow> followed w i what r 0 False
      | RefusedOutright r \<Rightarrow> ([], refusal r i what)
      | Unclear \<Rightarrow>
         (case session_call i (tw_status w 0) of
            Inl e \<Rightarrow> (if_sent i (StatusSent i), unknown_report i what NoAnswer)
          | Inr r \<Rightarrow> (case followed w i what r 1 True of (es, out) \<Rightarrow> (StatusSent i # es, out))))"

text \<open>A session that is ready to be signed.\<close>

definition sign_and_submit ::
  "(bytes \<Rightarrow> bytes) \<Rightarrow> top_up_world \<Rightarrow> (top_up_question \<Rightarrow> bool) \<Rightarrow> u32 \<Rightarrow> address \<Rightarrow> json \<Rightarrow>
     top_up_event list \<times> (top_up_error + json)" where
  "sign_and_submit keccak w confirm credits payer session =
     (let i = str_or [] (str_at ''sessionId'' session); cancel = if_sent i (CancelSent i);
          what = ''buy '' @ show_nat credits @ '' credits''
      in case transfer_of_session session of
           Inl e \<Rightarrow> (cancel, Err e)
         | Inr (t, quoted) \<Rightarrow>
            (case transfer_check t payer quoted (tw_now_checked w) of
               Inl e \<Rightarrow> (cancel, Err (NothingSigned e))
             | Inr _ \<Rightarrow>
                (let q = top_up_question_of credits session quoted payer (tr_to t)
                 in if \<not> confirm q then (Asked q False # cancel, Err SaidNo)
                    else case tw_key w of
                      Inl e \<Rightarrow> (Asked q True # KeyRead # cancel, Err (KeyUnread e))
                    | Inr key \<Rightarrow>
                       (case transfer_sign keccak key t quoted (tw_now_signed w) of
                          Inl e \<Rightarrow> (Asked q True # KeyRead # cancel, Err (NothingSigned e))
                        | Inr sig \<Rightarrow>
                           (case after_submit w i what of
                              (es, out) \<Rightarrow> (Asked q True # KeyRead # if_sent i (SubmitSent i (hex sig)) @ es, Ok out))))))"

definition top_up_credit ::
  "(bytes \<Rightarrow> bytes) \<Rightarrow> top_up_world \<Rightarrow> json \<Rightarrow> top_up_event list \<times> (top_up_error + json)" where
  "top_up_credit keccak w input =
     (case credits_of input of
        None \<Rightarrow> ([], Err NotACreditAmount)
      | Some credits \<Rightarrow>
         (case (tw_wallet w, tw_confirm w) of
            (None, _) \<Rightarrow> ([], Err NoWalletSupport)
          | (_, None) \<Rightarrow> ([], Err NoOneToAsk)
          | (Some (Inl e), _) \<Rightarrow> ([], Err (WalletUnset e))
          | (Some (Inr payer), Some confirm) \<Rightarrow>
             (case tw_uuid w of
                Inl e \<Rightarrow> ([], Err (NoRandomness e))
              | Inr request_id \<Rightarrow>
                 (case reply_of (tw_prepare w) of
                    Inl e \<Rightarrow> ([PrepareSent credits (hex payer)], Err (NotPrepared e))
                  | Inr prepared \<Rightarrow>
                     (if \<not> is_success (re_status prepared) \<or> state_of (re_body prepared) \<noteq> ''ready'' then
                        ([PrepareSent credits (hex payer)],
                         Ok (jset ''done'' (JBool False) (jset ''httpStatus'' (JUint (re_status prepared))
                           (pick_fields (re_body prepared) [''code'', ''message'', ''state'']))))
                      else case sign_and_submit keccak w confirm credits payer (re_body prepared) of
                        (es, r) \<Rightarrow> (PrepareSent credits (hex payer) # es, r))))))"

end
