(* ===== verification/Top_Up_Properties.thy ===== *)
theory Top_Up_Properties
  imports Top_Up
begin

text \<open>
  What a top-up guarantees: nothing is signed but what the person was shown and agreed to, what is told
  afterwards is what user-api said, and no session is left open that could still be paid unseen.
\<close>

subsection \<open>What user-api said\<close>

text \<open>An answer to the submit, or to a question about the session, had this state.\<close>

definition answered :: "top_up_world \<Rightarrow> string \<Rightarrow> string \<Rightarrow> bool" where
  "answered w i state \<longleftrightarrow>
     (\<exists>r. (session_call i (tw_submit w) = Ok r \<or> (\<exists>n. session_call i (tw_status w n) = Ok r)) \<and> state_of (re_body r) = state)"

definition is_answer :: "top_up_world \<Rightarrow> string \<Rightarrow> reply \<Rightarrow> bool" where
  "is_answer w i r \<longleftrightarrow> session_call i (tw_submit w) = Ok r \<or> (\<exists>n. session_call i (tw_status w n) = Ok r)"

lemma answeredI: "is_answer w i r \<Longrightarrow> answered w i (state_of (re_body r))"
  by (auto simp: answered_def is_answer_def)

lemma follow_answers: "is_answer w i first \<Longrightarrow> follow k i (tw_status w) n first = (ans, m) \<Longrightarrow> is_answer w i ans \<and> n \<le> m"
proof (induction k arbitrary: n first)
  case (Suc k)
  show ?case
  proof (cases "is_settled (state_of (re_body first)) \<or> \<not> is_success (re_status first)")
    case False
    show ?thesis
    proof (cases "session_call i (tw_status w n)")
      case (Inr r)
      with Suc.prems(2) False have "follow k i (tw_status w) (Suc n) r = (ans, m)" by simp
      moreover have "is_answer w i r" using Inr by (auto simp: is_answer_def)
      ultimately show ?thesis using Suc.IH by fastforce
    qed (use Suc.prems False in auto)
  qed (use Suc.prems in auto)
qed simp

text \<open>What is told: done, with the credit granted; not paid; over without a payment; or not to buy again.\<close>

definition tells_not_to_buy :: "json \<Rightarrow> bool" where
  "tells_not_to_buy out \<longleftrightarrow>
     (\<exists>m. jget ''message'' out = Some (JStr m) \<and> (m = stuck_message \<or> (\<exists>y. m = unknown_message y) \<or> (\<exists>s. m = under_way_message s)))"

definition told_truly :: "top_up_world \<Rightarrow> string \<Rightarrow> json \<Rightarrow> bool" where
  "told_truly w i out \<longleftrightarrow>
     (jget ''done'' out = Some (JBool True) \<and> answered w i ''granted'') \<or>
     (jget ''done'' out = Some (JBool False) \<and>
       ((\<exists>r. jget ''paid'' out = Some (JBool False) \<and> classify_submit (session_call i (tw_submit w)) = RefusedOutright r) \<or>
        (state_of out \<in> {''expired'', ''cancelled''} \<and> answered w i (state_of out)) \<or>
        tells_not_to_buy out))"

lemma unknown_report_warns: "told_truly w i (unknown_report i what y)"
  by (auto simp: told_truly_def tells_not_to_buy_def unknown_report_def hm_get_def)

lemma under_way_report_warns: "told_truly w i (under_way_report i what state status)"
  by (auto simp: told_truly_def tells_not_to_buy_def under_way_report_def hm_get_def)

text \<open>An object, and what setting a key of one does.\<close>

definition is_object :: "json \<Rightarrow> bool" where "is_object j \<longleftrightarrow> (\<exists>m. j = JObj m)"

lemma is_object_simps [simp]: "is_object (JObj m)" "is_object (pick_fields v fs)" "is_object j \<Longrightarrow> is_object (jset k v j)"
  by (auto simp: is_object_def pick_fields_def)

lemma jget_jset_object [simp]: "is_object j \<Longrightarrow> jget k (jset k' v j) = (if k = k' then Some v else jget k j)"
  by (auto simp: is_object_def)

lemma report_told:
  assumes "is_answer w i r"
  shows "told_truly w i (report_of unclear r i what)"
proof (cases "is_settled (state_of (re_body r))")
  case True
  let ?s = "state_of (re_body r)"
  let ?out = "jset ''what'' (JStr what) (jset ''sessionId'' (JStr i) (jset ''done'' (JBool (?s = ''granted''))
    (jset ''httpStatus'' (JUint (re_status r)) (pick_fields (re_body r) [''state'', ''code'', ''message'', ''transaction'']))))"
  have st: "state_of ?out = ?s" by (simp add: state_of_def str_at_def pick_fields_get)
  have rep: "report_of unclear r i what = (if ?s = ''stuck'' then jset ''message'' (JStr stuck_message) ?out else ?out)"
    using True by (simp add: report_of_def Let_def)
  have fin: "jget ''done'' (report_of unclear r i what) = Some (JBool (?s = ''granted''))" by (simp add: rep)
  from True consider "?s = ''granted''" | "?s = ''stuck''" | "?s \<in> {''expired'', ''cancelled''}" by (auto simp: is_settled_def)
  then show ?thesis
  proof cases
    case 1
    with answeredI [OF assms] fin show ?thesis by (simp add: told_truly_def)
  next
    case 2
    then have "tells_not_to_buy (report_of unclear r i what)" unfolding rep by (simp add: tells_not_to_buy_def)
    with 2 fin show ?thesis by (simp add: told_truly_def)
  next
    case 3
    then have "?s \<noteq> ''stuck''" "?s \<noteq> ''granted''" by auto
    with fin rep st 3 answeredI [OF assms] show ?thesis by (simp add: told_truly_def)
  qed
next
  case False
  then show ?thesis
    by (simp add: report_of_def Let_def unknown_report_warns under_way_report_warns)
qed

lemma followed_told:
  assumes "is_answer w i first" and "followed w i what first n unclear = (es, out)"
  shows "told_truly w i out"
proof -
  obtain ans m where f: "follow 20 i (tw_status w) n first = (ans, m)" by fastforce
  from follow_answers [OF assms(1) f] have ans: "is_answer w i ans" by blast
  have "is_answer w i r" if "session_call i (tw_status w m) = Ok r" for r using that by (auto simp: is_answer_def)
  with ans f assms(2) show ?thesis by (auto simp: followed_def report_told split: if_splits sum.splits)
qed

lemma classify_Accepted: "classify_submit a = Accepted r \<Longrightarrow> a = Ok r"
  by (auto simp: classify_submit_def Let_def split: sum.splits if_splits)

lemma after_submit_told: "after_submit w i what = (es, out) \<Longrightarrow> told_truly w i out"
proof (cases "classify_submit (session_call i (tw_submit w))")
  case (Accepted r)
  assume "after_submit w i what = (es, out)"
  with Accepted show ?thesis
    using followed_told [of w i r what 0 False es out] classify_Accepted [OF Accepted] by (simp add: after_submit_def is_answer_def)
next
  case (RefusedOutright r)
  assume "after_submit w i what = (es, out)"
  with RefusedOutright show ?thesis by (auto simp: after_submit_def told_truly_def refusal_def Let_def)
next
  case Unclear
  assume "after_submit w i what = (es, out)"
  with Unclear show ?thesis
    using followed_told [of w i _ what 1 True _ out]
    by (auto simp: after_submit_def is_answer_def unknown_report_warns split: sum.splits prod.splits)
qed

subsection \<open>What is done to the outside\<close>

lemma followed_events:
  assumes "is_answer w i first" and "followed w i what first n unclear = (es, out)" and "e \<in> set es"
  shows "e = StatusSent i \<or> e = CancelSent i \<and> answered w i ''ready''"
proof -
  obtain ans m where f: "follow 20 i (tw_status w) n first = (ans, m)" by fastforce
  from follow_answers [OF assms(1) f] have "answered w i (state_of (re_body ans))" by (auto intro: answeredI)
  with assms(2,3) f show ?thesis
    by (auto simp: followed_def if_sent_def cancels_after_unclear_submit_def split: if_splits)
qed

lemma after_submit_events:
  assumes "after_submit w i what = (es, out)" and "e \<in> set es"
  shows "e = StatusSent i \<or> e = CancelSent i \<and> answered w i ''ready''"
proof (cases "classify_submit (session_call i (tw_submit w))")
  case (Accepted r)
  with assms show ?thesis
    using followed_events [of w i r what 0 False es out e] classify_Accepted [OF Accepted] by (simp add: after_submit_def is_answer_def)
next
  case (RefusedOutright r)
  with assms show ?thesis by (simp add: after_submit_def)
next
  case Unclear
  show ?thesis
  proof (cases "session_call i (tw_status w 0)")
    case (Inr r)
    obtain es' out' where f: "followed w i what r 1 True = (es', out')" by fastforce
    have "is_answer w i r" using Inr by (auto simp: is_answer_def)
    note es' = followed_events [OF this f]
    from assms(1) Unclear Inr f have "es = StatusSent i # es'" by (simp add: after_submit_def)
    with assms(2) es' show ?thesis by auto
  qed (use assms Unclear in \<open>auto simp: after_submit_def if_sent_def split: if_splits\<close>)
qed

lemma signed_and_sent:
  assumes run: "sign_and_submit keccak w confirm credits payer session = (es, r)" and sent: "SubmitSent j s \<in> set es"
  shows "\<exists>t quoted key sig rest out.
    j = str_or [] (str_at ''sessionId'' session) \<and> s = hex sig \<and> transfer_of_session session = Ok (t, quoted) \<and>
    transfer_check t payer quoted (tw_now_checked w) = Ok () \<and> confirm (top_up_question_of credits session quoted payer (tr_to t)) \<and>
    tw_key w = Ok key \<and> transfer_sign keccak key t quoted (tw_now_signed w) = Ok sig \<and>
    after_submit w j (''buy '' @ show_nat credits @ '' credits'') = (rest, out) \<and> r = Ok out \<and>
    es = Asked (top_up_question_of credits session quoted payer (tr_to t)) True # KeyRead # SubmitSent j s # rest"
  using run sent
  by (auto simp: sign_and_submit_def Let_def if_sent_def split: sum.splits if_splits prod.splits dest: after_submit_events)

text \<open>How far a top-up gets: to a session that is ready, or to nothing that could be signed.\<close>

lemma top_up_credit_cases:
  assumes run: "top_up_credit keccak w input = (es, r)"
  shows "(\<exists>credits payer confirm prepared es'. credits_of input = Some credits \<and> tw_wallet w = Some (Ok payer) \<and>
      tw_confirm w = Some confirm \<and> reply_of (tw_prepare w) = Ok prepared \<and> is_success (re_status prepared) \<and>
      state_of (re_body prepared) = ''ready'' \<and> sign_and_submit keccak w confirm credits payer (re_body prepared) = (es', r) \<and>
      es = PrepareSent credits (hex payer) # es') \<or>
    ((\<forall>e\<in>set es. \<exists>credits payer. e = PrepareSent credits (hex payer)) \<and>
     (\<forall>prepared. es \<noteq> [] \<longrightarrow> reply_of (tw_prepare w) = Ok prepared \<longrightarrow>
        \<not> is_success (re_status prepared) \<or> state_of (re_body prepared) \<noteq> ''ready''))"
  using run by (auto simp: top_up_credit_def split: option.splits sum.splits if_splits prod.splits)

lemma top_up_sent:
  assumes "top_up_credit keccak w input = (es, r)" and "SubmitSent i s \<in> set es"
  obtains credits payer confirm prepared es' where "credits_of input = Some credits" "tw_wallet w = Some (Ok payer)"
    "tw_confirm w = Some confirm" "reply_of (tw_prepare w) = Ok prepared"
    "sign_and_submit keccak w confirm credits payer (re_body prepared) = (es', r)" "es = PrepareSent credits (hex payer) # es'"
    "SubmitSent i s \<in> set es'"
  using top_up_credit_cases [OF assms(1)] assms(2) that by fastforce

lemma transfer_sign_Ok:
  "transfer_sign keccak key t agreed now = Ok sig \<longleftrightarrow>
     (\<exists>d. transfer_check t (sg_address key) agreed now = Ok () \<and> digest keccak t = Ok d \<and> sg_sign key d = Ok sig)"
  by (auto simp: transfer_sign_def split: sum.splits)

text \<open>
  C3: Nothing is paid but what was agreed to: before a signature leaves, the person was shown the credits, the
  total, the payer and the receiver of exactly the transfer that is signed and said yes, after that the key
  was read, the transfer pays ERPC's treasury from the wallet's own address and lapses within a day, and it
  is submitted once.
\<close>

theorem paid_only_what_was_agreed_to:
  assumes run: "top_up_credit keccak w input = (es, r)" and sent: "SubmitSent i s \<in> set es"
  shows "\<exists>credits confirm q t key d sig rest.
    credits_of input = Some credits \<and> tw_confirm w = Some confirm \<and> confirm q \<and>
    tw_wallet w = Some (Ok (sg_address key)) \<and> tw_key w = Ok key \<and>
    digest keccak t = Ok d \<and> sg_sign key d = Ok sig \<and> s = hex sig \<and>
    tr_from t = sg_address key \<and> address_parse treasury = Ok (tr_to t) \<and>
    tr_valid_before t \<le> u64_add (tw_now_signed w) 86400 \<and>
    tq_credits q = credits \<and> tq_total q = format_eurc (tr_value t) \<and> tq_from q = tr_from t \<and> tq_to q = tr_to t \<and>
    es = [PrepareSent credits (hex (tr_from t)), Asked q True, KeyRead, SubmitSent i s] @ rest \<and>
    set rest \<subseteq> {StatusSent i, CancelSent i}"
proof -
  from run sent obtain credits payer confirm prepared es' where
    p: "credits_of input = Some credits" "tw_wallet w = Some (Ok payer)" "tw_confirm w = Some confirm"
    "reply_of (tw_prepare w) = Ok prepared" "sign_and_submit keccak w confirm credits payer (re_body prepared) = (es', r)"
    "es = PrepareSent credits (hex payer) # es'" "SubmitSent i s \<in> set es'" by (rule top_up_sent)
  let ?q = "\<lambda>t quoted. top_up_question_of credits (re_body prepared) quoted payer (tr_to t)"
  from signed_and_sent [OF p(5,7)] obtain t quoted key sig rest out where
    s: "s = hex sig" "transfer_check t payer quoted (tw_now_checked w) = Ok ()" "confirm (?q t quoted)" "tw_key w = Ok key"
       "transfer_sign keccak key t quoted (tw_now_signed w) = Ok sig"
       "after_submit w i (''buy '' @ show_nat credits @ '' credits'') = (rest, out)"
       "es' = Asked (?q t quoted) True # KeyRead # SubmitSent i s # rest" by blast
  from s(5) obtain d where d: "transfer_check t (sg_address key) quoted (tw_now_signed w) = Ok ()" "digest keccak t = Ok d"
    "sg_sign key d = Ok sig" by (auto simp: transfer_sign_Ok)
  have "set rest \<subseteq> {StatusSent i, CancelSent i}" using after_submit_events [OF s(6)] by auto
  with p s d show ?thesis
    by (intro exI [of _ credits] exI [of _ confirm] exI [of _ "?q t quoted"] exI [of _ t] exI [of _ key] exI [of _ d]
        exI [of _ sig] exI [of _ rest]) (auto simp: transfer_check_Ok top_up_question_of_def Let_def)
qed

text \<open>
  C8: What is told of a transfer that was sent is what user-api said: done only when the session is granted,
  not paid only when the submit was refused outright, over only when the session expired or was cancelled,
  and whenever the payment may still happen the person is told not to buy again.
\<close>

theorem the_outcome_is_told_truly:
  assumes run: "top_up_credit keccak w input = (es, r)" and sent: "SubmitSent i s \<in> set es"
  shows "\<exists>out. r = Ok out \<and> told_truly w i out"
proof -
  from run sent obtain credits payer confirm prepared es' where st: "credits_of input = Some credits" "tw_wallet w = Some (Ok payer)" "tw_confirm w = Some confirm"
    "reply_of (tw_prepare w) = Ok prepared" "sign_and_submit keccak w confirm credits payer (re_body prepared) = (es', r)"
    "es = PrepareSent credits (hex payer) # es'" "SubmitSent i s \<in> set es'" by (rule top_up_sent)
  from signed_and_sent [OF st(5,7)] show ?thesis using after_submit_told by blast
qed

text \<open>The last answer user-api gave to the first \<open>n\<close> questions about a session.\<close>

fun last_said :: "top_up_world \<Rightarrow> string \<Rightarrow> nat \<Rightarrow> reply option" where
  "last_said w i 0 = None"
| "last_said w i (Suc n) = (case session_call i (tw_status w n) of Inr r \<Rightarrow> Some r | Inl e \<Rightarrow> last_said w i n)"

definition still_ready :: "top_up_world \<Rightarrow> string \<Rightarrow> nat \<Rightarrow> bool" where
  "still_ready w i n \<longleftrightarrow> (case last_said w i n of Some r \<Rightarrow> state_of (re_body r) = ''ready'' | None \<Rightarrow> False)"

lemma follow_last_said:
  "last_said w i n = Some first \<Longrightarrow> follow k i (tw_status w) n first = (ans, m) \<Longrightarrow> last_said w i m = Some ans \<and> n \<le> m"
proof (induction k arbitrary: n first)
  case (Suc k)
  show ?case
  proof (cases "is_settled (state_of (re_body first)) \<or> \<not> is_success (re_status first)")
    case False
    show ?thesis
    proof (cases "session_call i (tw_status w n)")
      case (Inr r)
      with Suc.prems(2) False have "follow k i (tw_status w) (Suc n) r = (ans, m)" by simp
      moreover have "last_said w i (Suc n) = Some r" using Inr by simp
      ultimately show ?thesis using Suc.IH by fastforce
    qed (use Suc.prems False in auto)
  qed (use Suc.prems in auto)
qed simp

text \<open>After the submit: questions, and a cancel exactly when the submit was unclear and the last answer calls the session ready.\<close>

lemma after_submit_cancels:
  assumes "after_submit w i what = (es, out)" and id: "is_session_id i"
  shows "\<exists>n. es = replicate n (StatusSent i) @
    (if classify_submit (session_call i (tw_submit w)) = Unclear \<and> still_ready w i n then [CancelSent i, StatusSent i] else [])"
proof (cases "classify_submit (session_call i (tw_submit w))")
  case (Accepted r)
  obtain ans m where "follow 20 i (tw_status w) 0 r = (ans, m)" by fastforce
  with assms(1) Accepted show ?thesis by (auto simp: after_submit_def followed_def)
next
  case (RefusedOutright r)
  with assms(1) show ?thesis by (auto simp: after_submit_def)
next
  case Unclear
  show ?thesis
  proof (cases "session_call i (tw_status w 0)")
    case (Inl e)
    with assms Unclear show ?thesis
      by (intro exI [of _ "Suc 0"]) (simp add: after_submit_def if_sent_def still_ready_def)
  next
    case (Inr first)
    obtain ans m where f: "follow 20 i (tw_status w) 1 first = (ans, m)" by fastforce
    have "last_said w i 1 = Some first" using Inr by simp
    from follow_last_said [OF this f] have said: "last_said w i m = Some ans" and m: "1 \<le> m" by auto
    have "replicate m (StatusSent i) = StatusSent i # replicate (m - 1) (StatusSent i)" using m by (cases m) simp_all
    with assms Unclear Inr f said show ?thesis
      by (intro exI [of _ m]) (auto simp: after_submit_def followed_def if_sent_def still_ready_def cancels_after_unclear_submit_def split: if_splits)
  qed
qed

text \<open>
  C27: No session is left open unseen: one that was ready and whose transfer is not sent is cancelled last of
  all. Once its transfer is sent, user-api is asked about it, and it is cancelled exactly when it is unclear whether
  the transfer arrived and the last answer user-api gave, of all those questions, still calls the session
  ready; not when its last answer is that the payment is under way, whatever it said before.
\<close>

theorem no_session_is_left_open:
  assumes run: "top_up_credit keccak w input = (es, r)"
    and asked: "es \<noteq> []" "reply_of (tw_prepare w) = Ok prepared" "is_success (re_status prepared)"
      "state_of (re_body prepared) = ''ready''" "str_at ''sessionId'' (re_body prepared) = Some i" "is_session_id i"
  shows "if \<exists>s. SubmitSent i s \<in> set es then
      \<exists>before s n. es = before @ SubmitSent i s # replicate n (StatusSent i) @
        (if classify_submit (session_call i (tw_submit w)) = Unclear \<and> still_ready w i n then [CancelSent i, StatusSent i] else []) \<and>
        CancelSent i \<notin> set before
    else last es = CancelSent i"
proof (cases "\<exists>s. SubmitSent i s \<in> set es")
  case True
  then obtain s where "SubmitSent i s \<in> set es" by blast
  with run obtain credits payer confirm prep es' where st: "credits_of input = Some credits" "tw_wallet w = Some (Ok payer)" "tw_confirm w = Some confirm"
    "reply_of (tw_prepare w) = Ok prep" "sign_and_submit keccak w confirm credits payer (re_body prep) = (es', r)"
    "es = PrepareSent credits (hex payer) # es'" "SubmitSent i s \<in> set es'" by (rule top_up_sent)
  from signed_and_sent [OF st(5,7)] obtain q rest out what where
    a: "after_submit w i what = (rest, out)" and es': "es' = Asked q True # KeyRead # SubmitSent i s # rest" by blast
  from after_submit_cancels [OF a asked(6)] obtain n where "rest = replicate n (StatusSent i) @
      (if classify_submit (session_call i (tw_submit w)) = Unclear \<and> still_ready w i n then [CancelSent i, StatusSent i] else [])" by blast
  then show ?thesis unfolding st(6) es' using True
    by (intro if_P [THEN iffD2] exI [of _ "[PrepareSent credits (hex payer), Asked q True, KeyRead]"] exI [of _ s] exI [of _ n]) simp_all
next
  case False
  from top_up_credit_cases [OF run] asked obtain credits payer confirm es' where
    es: "sign_and_submit keccak w confirm credits payer (re_body prepared) = (es', r)" "es = PrepareSent credits (hex payer) # es'"
    by fastforce
  with asked(5,6) False have "es' \<noteq> [] \<and> last es' = CancelSent i"
    by (auto simp: sign_and_submit_def Let_def if_sent_def str_or_def split: sum.splits if_splits prod.splits)
  with False es show ?thesis by simp
qed

subsection \<open>A top-up that goes through\<close>

definition sample_address :: address where "sample_address = replicate 20 1"

definition sample_session_id :: string where "sample_session_id = ''00000000-0000-0000-0000-000000000000''"

definition sample_typed :: json where
  "sample_typed =
     JObj [(''domain'', JObj [(''name'', JStr domain_name), (''version'', JStr domain_version), (''chainId'', JUint chain_id),
             (''verifyingContract'', JStr eurc_contract)]),
           (''primaryType'', JStr ''TransferWithAuthorization''),
           (''message'', JObj [(''from'', JStr (hex sample_address)), (''to'', JStr treasury), (''value'', JStr (show_nat 7)),
             (''validAfter'', JStr (show_nat 0)), (''validBefore'', JStr (show_nat 1000)), (''nonce'', JStr (hex (replicate 32 3)))])]"

definition sample_ready :: json where
  "sample_ready =
     JObj [(''state'', JStr ''ready''), (''sessionId'', JStr sample_session_id), (''typedData'', sample_typed),
           (''quote'', JObj [(''totalEurcAtomic'', JStr (show_nat 7))])]"

definition sample_top_up :: "bool \<Rightarrow> top_up_world" where
  "sample_top_up yes =
     \<lparr>tw_wallet = Some (Ok sample_address), tw_confirm = Some (\<lambda>q. yes), tw_uuid = Ok ''u'', tw_prepare = Some (200, Some sample_ready),
      tw_key = Ok \<lparr>sg_address = sample_address, sg_sign = Ok\<rparr>, tw_now_checked = 900, tw_now_signed = 910,
      tw_submit = Some (200, Some (JObj [(''state'', JStr ''granted'')])), tw_status = (\<lambda>n. None)\<rparr>"

definition sample_wish :: json where "sample_wish = JObj [(''amountCredits'', JUint 5)]"

lemma sample_session_id_ok [simp]: "is_session_id sample_session_id"
  by (simp add: is_session_id_def sample_session_id_def is_hexdigit_def is_digit_def byte_of_def)

lemma is_eurc_sample [simp]: "is_eurc_transfer sample_typed"
proof -
  have "map to_ascii_lower eurc_contract = eurc_contract" by (simp add: eurc_contract_def to_ascii_lower_def byte_of_def)
  then show ?thesis by (simp add: is_eurc_transfer_def sample_typed_def jget_or_null_def hm_get_def str_at_def str_or_def)
qed

lemma sample_transfer_read:
  assumes "address_parse treasury = Ok to"
  shows "transfer_of_session sample_ready =
    Ok (\<lparr>tr_from = sample_address, tr_to = to, tr_value = 7, tr_valid_after = 0, tr_valid_before = 1000, tr_nonce = replicate 32 3\<rparr>, 7)"
proof -
  have m: "jget_or_null ''message'' sample_typed =
      JObj [(''from'', JStr (hex sample_address)), (''to'', JStr treasury), (''value'', JStr (show_nat 7)),
        (''validAfter'', JStr (show_nat 0)), (''validBefore'', JStr (show_nat 1000)), (''nonce'', JStr (hex (replicate 32 3)))]"
    and t: "jget ''typedData'' sample_ready = Some sample_typed"
    and q: "jget_or_null ''quote'' sample_ready = JObj [(''totalEurcAtomic'', JStr (show_nat 7))]"
    by (simp_all add: sample_typed_def sample_ready_def jget_or_null_def hm_get_def)
  have "length sample_address = 20" by (simp add: sample_address_def)
  with assms show ?thesis
    by (simp add: transfer_of_session_def m t q decimal_at_def u64_of_def hm_get_def str_at_def str_or_def u128_max_def u64_max_def)
qed

lemma follow_settled: "is_settled (state_of (re_body ans)) \<Longrightarrow> follow k i ask n ans = (ans, n)"
  by (cases k) simp_all

lemma sample_top_up_runs:
  "\<exists>q r s. top_up_credit length_hash (sample_top_up True) sample_wish =
     ([PrepareSent 5 (hex sample_address), Asked q True, KeyRead, SubmitSent sample_session_id s], r)"
proof -
  obtain to where to: "address_parse treasury = Ok to"
    using is_ok_treasury(1) by (cases "address_parse treasury") (simp_all add: is_ok_def)
  obtain sep where sep: "domain_separator length_hash = Ok sep"
    using is_ok_treasury(2) by (cases "address_parse eurc_contract") (simp_all add: domain_separator_def is_ok_def)
  have cr: "credits_of sample_wish = Some 5" by (simp add: credits_of_def sample_wish_def hm_get_def u32_max_def)
  have st: "state_of sample_ready = ''ready''" "str_at ''sessionId'' sample_ready = Some sample_session_id"
    by (simp_all add: sample_ready_def state_of_def str_at_def str_or_def hm_get_def)
  have granted: "state_of (JObj [(''state'', JStr ''granted'')]) = ''granted''"
    by (simp add: state_of_def str_at_def str_or_def hm_get_def)
  show ?thesis
    by (simp add: top_up_credit_def cr sample_top_up_def reply_of_def is_success_def st sign_and_submit_def Let_def str_or_def
        sample_transfer_read [OF to] if_sent_def transfer_check_def to u64_add_def transfer_sign_def digest_def sep
        after_submit_def session_call_def classify_submit_def granted followed_def is_settled_def follow_settled)
qed

lemma paid_only_what_was_agreed_to_witness: "\<exists>(t :: transfer) s. tr_from t = sample_address \<and> address_parse treasury = Ok (tr_to t) \<and>
    SubmitSent sample_session_id s \<in> set (fst (top_up_credit length_hash (sample_top_up True) sample_wish))"
proof -
  obtain q r s where run: "top_up_credit length_hash (sample_top_up True) sample_wish =
     ([PrepareSent 5 (hex sample_address), Asked q True, KeyRead, SubmitSent sample_session_id s], r)"
    using sample_top_up_runs by blast
  have "SubmitSent sample_session_id s \<in> set [PrepareSent 5 (hex sample_address), Asked q True, KeyRead, SubmitSent sample_session_id s]"
    by simp
  from paid_only_what_was_agreed_to [OF run this] obtain t :: transfer and key :: signer
    where "tw_wallet (sample_top_up True) = Some (Ok (sg_address key))" "tr_from t = sg_address key"
      "address_parse treasury = Ok (tr_to t)" by blast
  with run show ?thesis by (intro exI [of _ t] exI [of _ s]) (simp add: sample_top_up_def)
qed

lemma the_outcome_is_told_truly_witness:
  "\<exists>out. snd (top_up_credit length_hash (sample_top_up True) sample_wish) = Ok out \<and> told_truly (sample_top_up True) sample_session_id out"
proof -
  obtain q r s where run: "top_up_credit length_hash (sample_top_up True) sample_wish =
     ([PrepareSent 5 (hex sample_address), Asked q True, KeyRead, SubmitSent sample_session_id s], r)"
    using sample_top_up_runs by blast
  from the_outcome_is_told_truly [OF this, of sample_session_id s] run show ?thesis by simp
qed

lemma no_session_is_left_open_witness:
  "last (fst (top_up_credit length_hash (sample_top_up False) sample_wish)) = CancelSent sample_session_id"
proof -
  obtain es r where run: "top_up_credit length_hash (sample_top_up False) sample_wish = (es, r)" by fastforce
  obtain to where to: "address_parse treasury = Ok to"
    using is_ok_treasury(1) by (cases "address_parse treasury") (simp_all add: is_ok_def)
  have cr: "credits_of sample_wish = Some 5" by (simp add: credits_of_def sample_wish_def hm_get_def u32_max_def)
  have st: "state_of sample_ready = ''ready''" "str_at ''sessionId'' sample_ready = Some sample_session_id"
    by (simp_all add: sample_ready_def state_of_def str_at_def str_or_def hm_get_def)
  have es: "\<exists>q. es = [PrepareSent 5 (hex sample_address), Asked q False, CancelSent sample_session_id]"
    using run [symmetric] by (simp add: top_up_credit_def cr sample_top_up_def reply_of_def is_success_def st sign_and_submit_def Let_def
        str_or_def sample_transfer_read [OF to] if_sent_def transfer_check_def to u64_add_def)
  then have ne: "es \<noteq> []" and not_sent: "\<nexists>s. SubmitSent sample_session_id s \<in> set es" by auto
  have "reply_of (tw_prepare (sample_top_up False)) = Ok \<lparr>re_status = 200, re_body = sample_ready\<rparr>"
    by (simp add: sample_top_up_def reply_of_def)
  from no_session_is_left_open [OF run ne this, of sample_session_id] not_sent st run show ?thesis
    by (simp add: is_success_def)
qed

end
