(* ===== verification/Hourly.thy ===== *)
theory Hourly
  imports Top_Up
begin

text \<open>
  Hourly products, paid from credit: the table of families in \<open>hourly.rs\<close>, and starting, ending and the
  catalogue of \<open>actions.rs\<close>, and setting up the wallet top-ups pay from. user-api's answers and the person
  are inputs, what is sent is a list of events. Texts a person reads are the numbers and names in them.
\<close>

subsection \<open>Families\<close>

record family =
  fm_name :: string
  fm_start_path :: string
  fm_end_path :: string
  fm_required :: "string list"
  fm_optional :: "string list"
  fm_end_id :: string
  fm_idempotent :: bool

definition make_family ::
  "string \<Rightarrow> string \<Rightarrow> string \<Rightarrow> string list \<Rightarrow> string list \<Rightarrow> string \<Rightarrow> bool \<Rightarrow> family" where
  "make_family n s e r opt i k =
     \<lparr>fm_name = n, fm_start_path = s, fm_end_path = e, fm_required = r, fm_optional = opt, fm_end_id = i, fm_idempotent = k\<rparr>"

definition families :: "family list" where
  "families =
     [make_family ''erpc'' ''/v3/erpc/start-hourly'' ''/v3/erpc/end-hourly'' [''productId''] [] ''userErpcPlanHourlyId'' True,
      make_family ''ai'' ''/v3/ai/start-hourly'' ''/v3/ai/end-hourly'' [''productId''] [] ''userSlvAiPlanHourlyId'' True,
      make_family ''vps'' ''/v3/vps/start-hourly'' ''/v3/vps/end-hourly'' [''productId'', ''region''] [] ''userVpsId'' True,
      make_family ''baremetal'' ''/v3/baremetal/start-hourly'' ''/v3/baremetal/end-hourly'' [''productId'', ''region''] [] ''userBareMetalId'' True,
      make_family ''grpc'' ''/v3/grpc/start-hourly'' ''/v3/grpc/end-hourly'' [''productId'', ''ip''] [] ''userGrpcId'' True,
      make_family ''grpc-bundle'' ''/v3/grpc/start-hourly-bundle'' ''/v3/grpc/end-hourly'' [''productId''] [] ''userGrpcId'' False,
      make_family ''geyser-grpc'' ''/v3/geyser-grpc/start-hourly'' ''/v3/geyser-grpc/end-hourly'' [''productId'', ''region''] [''identityPubkey'', ''validatorType''] ''geyserGrpcId'' True,
      make_family ''shreds-shared'' ''/v3/shreds-shared/start-hourly'' ''/v3/shreds-shared/end-hourly'' [''productId'', ''ip''] [] ''userShredsId'' True,
      make_family ''shreds-bundle'' ''/v3/shreds-shared/start-hourly-bundle'' ''/v3/shreds-shared/end-hourly'' [''productId''] [] ''userShredsId'' False,
      make_family ''direct-shreds'' ''/v3/direct-shreds/start-hourly'' ''/v3/direct-shreds/end-hourly'' [''productId'', ''region'', ''serverType''] [''blockEngineRegion'', ''whitelistIps'', ''destPorts''] ''directShredsId'' True,
      make_family ''epic-shreds-direct'' ''/v3/epic-shreds-direct/start-hourly'' ''/v3/epic-shreds-direct/end-hourly'' [''destination''] [] ''userEpicShredsDirectId'' True,
      make_family ''user-unlimited'' ''/v3/user-unlimited/start-hourly'' ''/v3/user-unlimited/end-hourly'' [''productId'', ''region''] [] ''userUnlimitedId'' True,
      make_family ''rpc-index'' ''/v3/rpc-index/start-hourly'' ''/v3/rpc-index/end-hourly'' [''productId'', ''region''] [''identityPubkey'', ''validatorType''] ''rpcIndexId'' True,
      make_family ''bundle'' ''/v3/bundle/start-hourly'' ''/v3/bundle/end-hourly'' [''productId'', ''region''] [''grpcPlan'', ''shredsPlan'', ''grpcWhitelistIp'', ''shredsWhitelistIp''] ''userBundleId'' False,
      make_family ''stream-bundle'' ''/v3/bundle/start-hourly-stream'' ''/v3/bundle/end-hourly'' [''productId'', ''region''] [''grpcPlan'', ''shredsPlan'', ''dedicatedServerType'', ''grpcWhitelistIp'', ''shredsWhitelistIp'', ''dedicatedBlockEngineRegion'', ''dedicatedWhitelistIps'', ''dedicatedDestPorts''] ''userBundleId'' False,
      make_family ''udp-forwarding'' ''/v3/udp-forwarding/start-hourly'' ''/v3/udp-forwarding/end-hourly'' [''subscriptionId''] [] ''subscriptionId'' True]"

definition find_family :: "string \<Rightarrow> family option" where
  "find_family n = find (\<lambda>f. fm_name f = n) families"

definition product_types :: "(string \<times> string) list" where
  "product_types =
     [(''vps'', ''vps''), (''bare_metal'', ''baremetal''), (''grpc'', ''grpc''), (''shreds'', ''shreds-shared''),
      (''unlimited'', ''user-unlimited''), (''direct_shreds'', ''direct-shreds''), (''geyser_grpc'', ''geyser-grpc''),
      (''rpc_index'', ''rpc-index''), (''bundle'', ''bundle''), (''epic_shreds_direct'', ''epic-shreds-direct''),
      (''erpc_plan'', ''erpc''), (''slv_ai_plan'', ''ai''), (''one_hop_direct'', ''udp-forwarding'')]"

definition for_product_type :: "string \<Rightarrow> family option" where
  "for_product_type t = Option.bind (map_of product_types t) find_family"

datatype hourly_error =
    NoSuchFamily string
  | FieldNotTaken string string
  | FieldMissing string string
  | NoneToAsk
  | Unread api_error
  | NotOffered string
  | NotForSale string string
  | NeedsProductId string
  | NoPrice
  | SaidNoToIt
  | NoPurchaseKey string
  | NotSent api_error
  | NoProductNumber
  | NotEndable string
  | NotOnTheAccount string i64
  | EndBlocked string

text \<open>\<open>Family::start_body\<close>: the fields, in the order of their keys; null is as good as missing.\<close>

definition start_body :: "family \<Rightarrow> (string \<times> json) list \<Rightarrow> hourly_error + json" where
  "start_body f given =
     (case find (\<lambda>k. k \<notin> set (fm_required f) \<and> k \<notin> set (fm_optional f)) (map fst given) of
        Some k \<Rightarrow> Err (FieldNotTaken (fm_name f) k)
      | None \<Rightarrow>
         (case find (\<lambda>k. hm_get given k = None \<or> hm_get given k = Some JNull) (fm_required f) of
            Some k \<Rightarrow> Err (FieldMissing (fm_name f) k)
          | None \<Rightarrow> Ok (JObj given)))"

definition end_body :: "family \<Rightarrow> i64 \<Rightarrow> json" where
  "end_body f i = JObj [(fm_end_id f, if i < 0 then JNeg i else JUint (nat i))]"

subsection \<open>The catalogue and the credit\<close>

definition catalog_family :: "json \<Rightarrow> string \<Rightarrow> json option" where
  "catalog_family catalog name =
     Option.bind (Option.bind (jget ''families'' catalog) as_array) (find (\<lambda>f. str_at ''family'' f = Some name))"

definition plans :: "json \<Rightarrow> json list" where
  "plans entry = (case Option.bind (jget ''plans'' entry) as_array of Some ps \<Rightarrow> ps | None \<Rightarrow> [])"

record credit =
  cr_balance_cents :: f64
  cr_burn_cents_per_hour :: f64
  cr_hourly :: "json list"

definition f64_or_zero :: "json option \<Rightarrow> f64" where
  "f64_or_zero v = (case Option.bind v as_f64 of Some x \<Rightarrow> x | None \<Rightarrow> Finite False 0 0)"

definition credit_of :: "json \<Rightarrow> credit" where
  "credit_of snapshot =
     (let m = jget_or_null ''message'' snapshot
      in \<lparr>cr_balance_cents = f64_or_zero (Option.bind (jget ''balance'' m) (jget ''balanceCents'')),
          cr_burn_cents_per_hour = f64_or_zero (jget ''burnRateCentsPerHour'' m),
          cr_hourly = (case Option.bind (jget ''hourlyResources'' m) as_array of Some xs \<Rightarrow> xs | None \<Rightarrow> [])\<rparr>)"

subsection \<open>What user-api answered\<close>

definition ends_with :: "string \<Rightarrow> string \<Rightarrow> bool" where
  "ends_with s p = starts_with (List.rev s) (List.rev p)"

fun contains_text :: "string \<Rightarrow> string \<Rightarrow> bool" where
  "contains_text [] p = (p = [])"
| "contains_text (c # cs) p = (starts_with (c # cs) p \<or> contains_text cs p)"

definition kept_id :: "string \<Rightarrow> bool" where
  "kept_id k = (ends_with k ''Id'' \<and> \<not> starts_with k ''stripe'' \<and> \<not> contains_text k ''Subscription'')"

definition outcome :: "reply \<Rightarrow> string \<Rightarrow> json" where
  "outcome r what =
     (let body = re_body r;
          out = pick_fields body [''success'', ''message'', ''code'', ''provisioningPending'', ''registerWarning''];
          out1 = (case as_object body of
                    None \<Rightarrow> out
                  | Some m \<Rightarrow> foldl (\<lambda>j (k, v). if kept_id k then jset k v j else j) out m)
      in jset ''what'' (JStr what)
           (jset ''done'' (JBool (is_success (re_status r) \<and> Option.bind (jget ''success'' body) as_bool \<noteq> Some False))
             (jset ''httpStatus'' (JUint (re_status r)) out1)))"

subsection \<open>Starting one\<close>

record start_question =
  sq_product :: string
  sq_hourly_cents :: f64
  sq_settings :: "(string \<times> json) list"
  sq_balance_cents :: f64
  sq_burn_cents :: f64

record end_question =
  eq_product :: string
  eq_type :: string
  eq_id :: i64
  eq_hourly_cents :: f64

datatype hourly_event =
    AskedStart start_question bool
  | StartSent string json "string option"
  | AskedEnd end_question bool
  | EndSent string json

text \<open>
  \<open>read\<close> gives the catalogue and the snapshot, \<open>product_name\<close> a name when user-api says one; what comes
  over the wire for the start or the end is read as for a session.
\<close>

record hourly_world =
  hw_confirm_start :: "(start_question \<Rightarrow> bool) option"
  hw_confirm_end :: "(end_question \<Rightarrow> bool) option"
  hw_catalog :: "api_error + json"
  hw_name :: "string \<Rightarrow> string option"
  hw_snapshot :: "api_error + json"
  hw_key :: "string + string"
  hw_answer :: wire

definition the_plan :: "family \<Rightarrow> json \<Rightarrow> string option \<Rightarrow> hourly_error + json" where
  "the_plan f entry product =
     (case product of
        Some i \<Rightarrow> ok_or (NotForSale i (fm_name f)) (find (\<lambda>p. str_at ''productId'' p = Some i) (plans entry))
      | None \<Rightarrow> (case plans entry of [p] \<Rightarrow> Ok p | _ \<Rightarrow> Err (NeedsProductId (fm_name f))))"

definition start_question_of :: "hourly_world \<Rightarrow> (string \<times> json) list \<Rightarrow> json \<Rightarrow> f64 \<Rightarrow> credit \<Rightarrow> start_question" where
  "start_question_of w given plan cents c =
     (let i = str_or [] (str_at ''productId'' plan)
      in \<lparr>sq_product = str_or i (hw_name w i), sq_hourly_cents = cents,
          sq_settings = filter (\<lambda>kv. fst kv \<noteq> ''productId'') given,
          sq_balance_cents = cr_balance_cents c, sq_burn_cents = cr_burn_cents_per_hour c\<rparr>)"

text \<open>What is asked, and the body, once everything is read.\<close>

definition start_prepared :: "hourly_world \<Rightarrow> json \<Rightarrow> hourly_error + (family \<times> json \<times> (start_question \<Rightarrow> bool) \<times> start_question)" where
  "start_prepared w input =
     (let name = str_or [] (str_at ''family'' input);
          given = (case Option.bind (jget ''fields'' input) as_object of Some m \<Rightarrow> m | None \<Rightarrow> [])
      in and_then (ok_or (NoSuchFamily name) (find_family name)) (\<lambda>f.
         and_then (start_body f given) (\<lambda>body.
         and_then (ok_or NoneToAsk (hw_confirm_start w)) (\<lambda>confirm.
         and_then (map_err Unread (hw_catalog w)) (\<lambda>catalog.
         and_then (ok_or (NotOffered (fm_name f)) (catalog_family catalog (fm_name f))) (\<lambda>entry.
         and_then (the_plan f entry (Option.bind (hm_get given ''productId'') as_str)) (\<lambda>plan.
         and_then (ok_or NoPrice (Option.bind (jget ''hourlyCents'' plan) as_f64)) (\<lambda>cents.
         and_then (map_err Unread (hw_snapshot w)) (\<lambda>snapshot.
           Ok (f, body, confirm, start_question_of w given plan cents (credit_of snapshot)))))))))))"

definition next_step :: "family \<Rightarrow> json \<Rightarrow> json" where
  "next_step f out =
     (if fm_name f = ''vps'' \<and> jget ''done'' out = Some (JBool True) \<and> jget ''userVpsId'' out \<noteq> None then
        jset ''next'' (JStr ''Tell the user it was started and that you are waiting for it to be ready, then call wait_until_ready with family vps and this userVpsId.'') out
      else out)"

definition start_hourly_product :: "hourly_world \<Rightarrow> json \<Rightarrow> hourly_event list \<times> (hourly_error + json)" where
  "start_hourly_product w input =
     (case start_prepared w input of
        Inl e \<Rightarrow> ([], Err e)
      | Inr (f, body, confirm, q) \<Rightarrow>
         (if \<not> confirm q then ([AskedStart q False], Err SaidNoToIt)
          else case hw_key w of
            Inl e \<Rightarrow> ([AskedStart q True], Err (NoPurchaseKey e))
          | Inr key \<Rightarrow>
             ([AskedStart q True, StartSent (fm_start_path f) body (if fm_idempotent f then Some key else None)],
              (case reply_of (hw_answer w) of
                 Inl e \<Rightarrow> Err (NotSent e)
               | Inr r \<Rightarrow> Ok (next_step f (outcome r (''start '' @ sq_product q)))))))"

subsection \<open>Ending one\<close>

definition end_prepared ::
  "hourly_world \<Rightarrow> json \<Rightarrow> hourly_error + (family \<times> i64 \<times> (end_question \<Rightarrow> bool) \<times> end_question)" where
  "end_prepared w input =
     (let t = str_or [] (str_at ''productType'' input)
      in and_then (ok_or NoProductNumber (Option.bind (jget ''userProductId'' input) as_i64)) (\<lambda>i.
         and_then (ok_or (NotEndable t) (for_product_type t)) (\<lambda>f.
         and_then (ok_or NoneToAsk (hw_confirm_end w)) (\<lambda>confirm.
         and_then (map_err Unread (hw_snapshot w)) (\<lambda>snapshot.
         and_then (ok_or (NotOnTheAccount t i)
             (find (\<lambda>r. str_at ''productType'' r = Some t \<and> Option.bind (jget ''userProductId'' r) as_i64 = Some i)
               (cr_hourly (credit_of snapshot)))) (\<lambda>row.
           if Option.bind (jget ''endHourlyEligible'' row) as_bool = Some False then
             Err (EndBlocked (str_or ''not endable now'' (str_at ''endHourlyBlockedReason'' row)))
           else
             Ok (f, i, confirm, \<lparr>eq_product = str_or t (str_at ''productName'' row), eq_type = t, eq_id = i,
               eq_hourly_cents = f64_or_zero (jget ''hourlyCents'' row)\<rparr>)))))))"

definition end_hourly_product :: "hourly_world \<Rightarrow> json \<Rightarrow> hourly_event list \<times> (hourly_error + json)" where
  "end_hourly_product w input =
     (case end_prepared w input of
        Inl e \<Rightarrow> ([], Err e)
      | Inr (f, i, confirm, q) \<Rightarrow>
         (if \<not> confirm q then ([AskedEnd q False], Err SaidNoToIt)
          else
            ([AskedEnd q True, EndSent (fm_end_path f) (end_body f i)],
             (case reply_of (hw_answer w) of
                Inl e \<Rightarrow> Err (NotSent e)
              | Inr r \<Rightarrow> Ok (outcome r (''end '' @ eq_product q))))))"

subsection \<open>Lemmas\<close>

lemma find_Some_set: "find P xs = Some x \<Longrightarrow> P x \<and> x \<in> set xs"
  by (induction xs) (auto split: if_splits)

lemma find_family_name: "find_family n = Some f \<Longrightarrow> fm_name f = n \<and> f \<in> set families"
  by (auto simp: find_family_def dest: find_Some_set)

text \<open>A body a family takes: its fields only, and all it needs.\<close>

definition body_of :: "family \<Rightarrow> (string \<times> json) list \<Rightarrow> bool" where
  "body_of f given \<longleftrightarrow>
     fst ` set given \<subseteq> set (fm_required f) \<union> set (fm_optional f) \<and>
     (\<forall>k\<in>set (fm_required f). \<exists>v. hm_get given k = Some v \<and> v \<noteq> JNull)"

lemma find_None: "find P xs = None \<longleftrightarrow> (\<forall>x\<in>set xs. \<not> P x)"
  by (induction xs) auto

lemma start_body_Ok: "start_body f given = Ok body \<longleftrightarrow> body = JObj given \<and> body_of f given"
proof -
  have "body_of f given \<longleftrightarrow>
      find (\<lambda>k. k \<notin> set (fm_required f) \<and> k \<notin> set (fm_optional f)) (map fst given) = None \<and>
      find (\<lambda>k. hm_get given k = None \<or> hm_get given k = Some JNull) (fm_required f) = None"
  proof -
    have "(\<exists>v. x = Some v \<and> v \<noteq> JNull) \<longleftrightarrow> \<not> (x = None \<or> x = Some JNull)" for x by (cases x) auto
    then show ?thesis unfolding body_of_def find_None by (simp add: subset_eq)
  qed
  then show ?thesis by (auto simp: start_body_def split: option.splits)
qed

lemma the_plan_Ok:
  "the_plan f entry product = Ok plan \<Longrightarrow> plan \<in> set (plans entry) \<and> (\<forall>i. product = Some i \<longrightarrow> str_at ''productId'' plan = Some i)"
  by (auto simp: the_plan_def dest: find_Some_set split: option.splits list.splits)

text \<open>What the person is shown of a plan, and that it is the plan of what is started.\<close>

definition offered :: "json \<Rightarrow> string \<Rightarrow> json \<Rightarrow> bool" where
  "offered catalog name plan \<longleftrightarrow> (\<exists>entry. catalog_family catalog name = Some entry \<and> plan \<in> set (plans entry))"

lemma start_prepared_Ok:
  assumes "start_prepared w input = Ok (f, body, confirm, q)"
  shows "\<exists>given catalog plan.
    str_or [] (str_at ''family'' input) = fm_name f \<and> f \<in> set families \<and> body = JObj given \<and> body_of f given \<and>
    hw_confirm_start w = Some confirm \<and> hw_catalog w = Ok catalog \<and> offered catalog (fm_name f) plan \<and>
    Option.bind (jget ''hourlyCents'' plan) as_f64 = Some (sq_hourly_cents q) \<and>
    (\<forall>i. hm_get given ''productId'' = Some (JStr i) \<longrightarrow> str_at ''productId'' plan = Some i) \<and>
    sq_settings q = filter (\<lambda>kv. fst kv \<noteq> ''productId'') given"
proof -
  let ?given = "case Option.bind (jget ''fields'' input) as_object of Some m \<Rightarrow> m | None \<Rightarrow> []"
  from assms obtain catalog entry plan cents snapshot where
    p: "find_family (str_or [] (str_at ''family'' input)) = Some f" "start_body f ?given = Ok body" "hw_confirm_start w = Some confirm"
      "hw_catalog w = Ok catalog" "catalog_family catalog (fm_name f) = Some entry"
      "the_plan f entry (Option.bind (hm_get ?given ''productId'') as_str) = Ok plan"
      "Option.bind (jget ''hourlyCents'' plan) as_f64 = Some cents" "q = start_question_of w ?given plan cents (credit_of snapshot)"
    by (auto simp: start_prepared_def and_then_Ok Let_def)
  from the_plan_Ok [OF p(6)] have "plan \<in> set (plans entry)"
      "\<forall>i. hm_get ?given ''productId'' = Some (JStr i) \<longrightarrow> str_at ''productId'' plan = Some i" by simp_all
  with p find_family_name [OF p(1)] show ?thesis
    by (intro exI [of _ ?given] exI [of _ catalog] exI [of _ plan])
      (simp add: start_body_Ok offered_def start_question_of_def Let_def)
qed

text \<open>
  Nothing is started on the account but what the person agreed to: the start that is sent comes right
  after a yes, goes to the route of the family asked for with the fields that route takes and all it needs,
  the price shown is the catalogue's for that product and not the model's, every other setting is shown, and
  a purchase key goes along exactly when the route takes one.
\<close>

theorem only_what_was_agreed_is_started:
  assumes "start_hourly_product w input = (es, r)" and "StartSent path body key \<in> set es"
  shows "\<exists>f given confirm q catalog plan.
    f \<in> set families \<and> str_or [] (str_at ''family'' input) = fm_name f \<and> path = fm_start_path f \<and>
    body = JObj given \<and> body_of f given \<and> (key \<noteq> None \<longleftrightarrow> fm_idempotent f) \<and>
    hw_confirm_start w = Some confirm \<and> confirm q \<and> es = [AskedStart q True, StartSent path body key] \<and>
    hw_catalog w = Ok catalog \<and> offered catalog (fm_name f) plan \<and>
    Option.bind (jget ''hourlyCents'' plan) as_f64 = Some (sq_hourly_cents q) \<and>
    (\<forall>i. hm_get given ''productId'' = Some (JStr i) \<longrightarrow> str_at ''productId'' plan = Some i) \<and>
    sq_settings q = filter (\<lambda>kv. fst kv \<noteq> ''productId'') given"
proof -
  from assms obtain f confirm q k where
    p: "start_prepared w input = Ok (f, body, confirm, q)" "confirm q" "path = fm_start_path f"
      "key = (if fm_idempotent f then Some k else None)" "es = [AskedStart q True, StartSent path body key]"
    by (auto simp: start_hourly_product_def split: sum.splits prod.splits if_splits)
  from start_prepared_Ok [OF p(1)] show ?thesis using p(2-5) by (clarsimp split del: if_split) (metis option.discI)
qed

lemma end_prepared_Ok:
  assumes "end_prepared w input = Ok (f, i, confirm, q)"
  shows "\<exists>t snapshot row.
    eq_type q = t \<and> eq_id q = i \<and> for_product_type t = Some f \<and> hw_confirm_end w = Some confirm \<and> hw_snapshot w = Ok snapshot \<and>
    row \<in> set (cr_hourly (credit_of snapshot)) \<and> str_at ''productType'' row = Some t \<and>
    Option.bind (jget ''userProductId'' row) as_i64 = Some i \<and> Option.bind (jget ''endHourlyEligible'' row) as_bool \<noteq> Some False"
  using assms by (auto simp: end_prepared_def and_then_Ok Let_def split: if_splits dest!: find_Some_set)

text \<open>
  Nothing is ended but a product the account has: the end that is sent comes right after a yes to that very
  product, which the credit snapshot lists with its type and number and does not bar from ending, and goes to
  the end route of its type, naming it by the field that route reads.
\<close>

theorem only_what_the_account_has_is_ended:
  assumes "end_hourly_product w input = (es, r)" and "EndSent path body \<in> set es"
  shows "\<exists>f confirm q snapshot row.
    for_product_type (eq_type q) = Some f \<and> path = fm_end_path f \<and> body = end_body f (eq_id q) \<and>
    hw_confirm_end w = Some confirm \<and> confirm q \<and> es = [AskedEnd q True, EndSent path body] \<and>
    hw_snapshot w = Ok snapshot \<and> row \<in> set (cr_hourly (credit_of snapshot)) \<and>
    str_at ''productType'' row = Some (eq_type q) \<and> Option.bind (jget ''userProductId'' row) as_i64 = Some (eq_id q) \<and>
    Option.bind (jget ''endHourlyEligible'' row) as_bool \<noteq> Some False"
proof -
  from assms obtain f i confirm q where
    p: "end_prepared w input = Ok (f, i, confirm, q)" "confirm q" "path = fm_end_path f" "body = end_body f i"
      "es = [AskedEnd q True, EndSent path body]"
    by (auto simp: end_hourly_product_def split: sum.splits prod.splits if_splits)
  from end_prepared_Ok [OF p(1)] show ?thesis using p(2-5) by blast
qed

subsection \<open>A start and an end\<close>

definition sample_catalog :: json where
  "sample_catalog =
     JObj [(''families'', JArr [JObj [(''family'', JStr ''vps''),
       (''plans'', JArr [JObj [(''productId'', JStr ''p1''), (''hourlyCents'', JUint 14)]])]])]"

definition sample_snapshot :: json where
  "sample_snapshot =
     JObj [(''message'', JObj [(''hourlyResources'', JArr [JObj [(''productType'', JStr ''shreds''), (''userProductId'', JUint 3)]])])]"

definition sample_hourly :: hourly_world where
  "sample_hourly =
     \<lparr>hw_confirm_start = Some (\<lambda>q. True), hw_confirm_end = Some (\<lambda>q. True), hw_catalog = Ok sample_catalog, hw_name = (\<lambda>i. None),
      hw_snapshot = Ok sample_snapshot, hw_key = Ok ''k'', hw_answer = None\<rparr>"

definition sample_start :: json where
  "sample_start = JObj [(''family'', JStr ''vps''), (''fields'', JObj [(''productId'', JStr ''p1''), (''region'', JStr ''fra'')])]"

definition sample_end :: json where
  "sample_end = JObj [(''productType'', JStr ''shreds''), (''userProductId'', JUint 3)]"

lemma sample_key: "hw_key sample_hourly = Ok ''k''"
  by (simp add: sample_hourly_def)

lemma only_what_was_agreed_is_started_witness:
  "\<exists>q r. start_hourly_product sample_hourly sample_start =
     ([AskedStart q True, StartSent ''/v3/vps/start-hourly'' (JObj [(''productId'', JStr ''p1''), (''region'', JStr ''fra'')]) (Some ''k'')], r) \<and>
     sq_hourly_cents q = u64_to_f64 14"
proof -
  let ?body = "JObj [(''productId'', JStr ''p1''), (''region'', JStr ''fra'')]"
  let ?vps = "make_family ''vps'' ''/v3/vps/start-hourly'' ''/v3/vps/end-hourly'' [''productId'', ''region''] [] ''userVpsId'' True"
  have f: "find_family ''vps'' =
      Some (make_family ''vps'' ''/v3/vps/start-hourly'' ''/v3/vps/end-hourly'' [''productId'', ''region''] [] ''userVpsId'' True)"
    by (simp add: find_family_def families_def make_family_def)
  have "\<exists>q. start_prepared sample_hourly sample_start = Ok (?vps, ?body, \<lambda>q. True, q)"
    by (simp add: start_prepared_def Let_def sample_start_def str_at_def str_or_def hm_get_def f start_body_def
        make_family_def sample_hourly_def sample_catalog_def catalog_family_def the_plan_def plans_def)
  then obtain q where prep: "start_prepared sample_hourly sample_start = Ok (?vps, ?body, \<lambda>q. True, q)" by blast
  have "\<exists>r. start_hourly_product sample_hourly sample_start =
      ([AskedStart q True, StartSent ''/v3/vps/start-hourly'' ?body (Some ''k'')], r)"
    by (simp add: start_hourly_product_def prep sample_key make_family_def)
  then obtain r where run: "start_hourly_product sample_hourly sample_start =
      ([AskedStart q True, StartSent ''/v3/vps/start-hourly'' ?body (Some ''k'')], r)" by blast
  have "StartSent ''/v3/vps/start-hourly'' ?body (Some ''k'') \<in> set [AskedStart q True, StartSent ''/v3/vps/start-hourly'' ?body (Some ''k'')]"
    by simp
  from only_what_was_agreed_is_started [OF run this] obtain plan n q' where
    "n = ''vps''" "offered sample_catalog n plan" "Option.bind (jget ''hourlyCents'' plan) as_f64 = Some (sq_hourly_cents q')" "q' = q"
    by (auto simp: sample_hourly_def sample_start_def str_at_def str_or_def hm_get_def)
  then have "sq_hourly_cents q = u64_to_f64 14"
    by (auto simp: offered_def catalog_family_def sample_catalog_def hm_get_def str_at_def plans_def)
  with run show ?thesis by blast
qed

lemma only_what_the_account_has_is_ended_witness:
  "\<exists>q r. end_hourly_product sample_hourly sample_end =
     ([AskedEnd q True, EndSent ''/v3/shreds-shared/end-hourly'' (JObj [(''userShredsId'', JUint 3)])], r) \<and>
     for_product_type (eq_type q) \<noteq> None"
proof -
  have f: "for_product_type ''shreds'' =
      Some (make_family ''shreds-shared'' ''/v3/shreds-shared/start-hourly'' ''/v3/shreds-shared/end-hourly'' [''productId'', ''ip''] []
        ''userShredsId'' True)"
    by (simp add: for_product_type_def product_types_def find_family_def families_def make_family_def)
  have "\<exists>q. end_prepared sample_hourly sample_end =
      Ok (make_family ''shreds-shared'' ''/v3/shreds-shared/start-hourly'' ''/v3/shreds-shared/end-hourly'' [''productId'', ''ip''] []
        ''userShredsId'' True, 3, \<lambda>q. True, q)"
    by (simp add: end_prepared_def Let_def sample_end_def str_at_def str_or_def hm_get_def f make_family_def i64_max_def
        sample_hourly_def sample_snapshot_def credit_of_def jget_or_null_def)
  then obtain q where prep: "end_prepared sample_hourly sample_end =
      Ok (make_family ''shreds-shared'' ''/v3/shreds-shared/start-hourly'' ''/v3/shreds-shared/end-hourly'' [''productId'', ''ip''] []
        ''userShredsId'' True, 3, \<lambda>q. True, q)" by blast
  have "\<exists>r. end_hourly_product sample_hourly sample_end =
      ([AskedEnd q True, EndSent ''/v3/shreds-shared/end-hourly'' (JObj [(''userShredsId'', JUint 3)])], r)"
    by (simp add: end_hourly_product_def prep make_family_def end_body_def)
  then obtain r where run: "end_hourly_product sample_hourly sample_end =
      ([AskedEnd q True, EndSent ''/v3/shreds-shared/end-hourly'' (JObj [(''userShredsId'', JUint 3)])], r)" by blast
  have "EndSent ''/v3/shreds-shared/end-hourly'' (JObj [(''userShredsId'', JUint 3)]) \<in>
      set [AskedEnd q True, EndSent ''/v3/shreds-shared/end-hourly'' (JObj [(''userShredsId'', JUint 3)])]" by simp
  from only_what_the_account_has_is_ended [OF run this] run show ?thesis by auto
qed

end
