(* ===== verification/Node_Chain.thy ===== *)
theory Node_Chain
  imports Prelude
begin

text \<open>
  Which chain a node command runs on, and the guard on production networks: \<open>chain.rs\<close> of erpc-core, and
  the way \<open>erpc validator\<close>, \<open>erpc rpc\<close> and \<open>erpc node\<close> reach a backend in \<open>tree.rs\<close>. clap's parse of the
  command line is an input: the verb, \<open>--network\<close> and \<open>--name\<close> as it read them.
\<close>

subsection \<open>Chains and roles\<close>

datatype node_chain =
    Solana | Eth | Avax | Sui | Arc | Bitcoin | Base | Arbitrum | Polygon | Bsc | Optimism | Kaia | Soneium
  | Monad | Hyperliquid | Robinhood | Near | Tron

definition all_chains :: "node_chain list" where
  "all_chains =
     [Solana, Eth, Avax, Sui, Arc, Bitcoin, Base, Arbitrum, Polygon, Bsc, Optimism, Kaia, Soneium, Monad, Hyperliquid,
      Robinhood, Near, Tron]"

fun chain_name :: "node_chain \<Rightarrow> string" where
  "chain_name Solana = ''solana''"
| "chain_name Eth = ''eth''"
| "chain_name Avax = ''avax''"
| "chain_name Sui = ''sui''"
| "chain_name Arc = ''arc''"
| "chain_name Bitcoin = ''bitcoin''"
| "chain_name Base = ''base''"
| "chain_name Arbitrum = ''arbitrum''"
| "chain_name Polygon = ''polygon''"
| "chain_name Bsc = ''bsc''"
| "chain_name Optimism = ''optimism''"
| "chain_name Kaia = ''kaia''"
| "chain_name Soneium = ''soneium''"
| "chain_name Monad = ''monad''"
| "chain_name Hyperliquid = ''hyperliquid''"
| "chain_name Robinhood = ''robinhood''"
| "chain_name Near = ''near''"
| "chain_name Tron = ''tron''"

definition chain_parse :: "string \<Rightarrow> node_chain option" where
  "chain_parse name =
     map_of
       [(''solana'', Solana), (''sol'', Solana), (''eth'', Eth), (''ethereum'', Eth), (''avax'', Avax), (''avalanche'', Avax),
        (''sui'', Sui), (''arc'', Arc), (''bitcoin'', Bitcoin), (''base'', Base), (''arbitrum'', Arbitrum),
        (''polygon'', Polygon), (''bsc'', Bsc), (''optimism'', Optimism), (''kaia'', Kaia), (''soneium'', Soneium),
        (''monad'', Monad), (''hyperliquid'', Hyperliquid), (''robinhood'', Robinhood), (''near'', Near), (''tron'', Tron)]
       (map to_ascii_lower name)"

datatype node_role = Validator | Rpc | Node

fun role_name :: "node_role \<Rightarrow> string" where
  "role_name Validator = ''validator''"
| "role_name Rpc = ''rpc''"
| "role_name Node = ''node''"

definition chain_roles :: "node_chain \<Rightarrow> node_role list" where
  "chain_roles c =
     (if c \<in> {Solana, Eth} then [Validator, Rpc]
      else if c = Avax then [Rpc, Validator, Node]
      else if c = Sui then [Rpc, Node, Validator]
      else if c \<in> {Arc, Bitcoin, Base, Optimism, Soneium} then [Rpc]
      else [Rpc, Validator])"

definition chain_networks :: "node_chain \<Rightarrow> string list" where
  "chain_networks c =
     (if c = Solana then [''mainnet'', ''testnet'', ''devnet'']
      else if c = Eth then [''mainnet'', ''sepolia'', ''hoodi'']
      else if c = Avax then [''mainnet'', ''fuji'']
      else if c \<in> {Sui, Arc, Monad, Hyperliquid, Robinhood, Near} then [''mainnet'', ''testnet'']
      else if c = Bitcoin then [''mainnet'', ''testnet4'', ''signet'', ''regtest'']
      else if c \<in> {Base, Optimism} then [''mainnet'', ''sepolia'']
      else if c = Arbitrum then [''mainnet'', ''nova'', ''sepolia'']
      else if c = Polygon then [''mainnet'', ''amoy'']
      else if c = Bsc then [''mainnet'', ''chapel'']
      else if c = Kaia then [''mainnet'', ''kairos'']
      else if c = Soneium then [''mainnet'', ''minato'']
      else [''mainnet'', ''nile''])"

definition is_production_network :: "node_chain \<Rightarrow> string \<Rightarrow> bool" where
  "is_production_network c network = (network = ''mainnet'' \<or> c = Arbitrum \<and> network = ''nova'')"

definition validator_na_reason :: "node_chain \<Rightarrow> string option" where
  "validator_na_reason c =
     (if c = Bitcoin then Some ''Bitcoin uses proof-of-work mining, not a validator role''
      else if c \<in> {Base, Optimism, Soneium} then
        Some ''this rollup has no independent PoS validator role; sequencer and dispute operations are separate''
      else None)"

subsection \<open>Verbs\<close>

text \<open>A verb, without its line of help.\<close>

record verb =
  vb_name :: string
  vb_read_only :: bool

definition common_verbs :: "verb list" where
  "common_verbs =
     map (\<lambda>(n, r). \<lparr>vb_name = n, vb_read_only = r\<rparr>)
       [(''init'', False), (''deploy'', False), (''list'', True), (''status'', True), (''logs'', True), (''start'', False),
        (''stop'', False), (''restart'', False), (''update'', False), (''update-config'', False), (''plan'', True),
        (''destroy'', False)]"

definition extra_verbs :: "node_role \<Rightarrow> node_chain \<Rightarrow> verb list" where
  "extra_verbs role c =
     map (\<lambda>(n, r). \<lparr>vb_name = n, vb_read_only = r\<rparr>)
       (if c = Avax then
          [(''identity-backup'', False), (''identity-restore'', False), (''prepare-registration'', True),
           (''validate-registration'', True)]
        else if (c = Sui \<or> c = Tron) \<and> role = Validator then [(''registration'', True)]
        else [])"

subsection \<open>The chain of a command\<close>

datatype chain_source = ByFlag | ByEnv | ByConfig | ByPrompt

text \<open>\<open>resolve\<close>; the error names the value and where it came from.\<close>

fun first_named :: "(string option \<times> chain_source) list \<Rightarrow> (string \<times> chain_source) + (node_chain \<times> chain_source) option" where
  "first_named [] = Ok None"
| "first_named ((v, s) # rest) =
     (case v of
        None \<Rightarrow> first_named rest
      | Some name \<Rightarrow>
         (if name = [] then first_named rest
          else case chain_parse name of
            None \<Rightarrow> Err (name, s)
          | Some c \<Rightarrow> Ok (Some (c, s))))"

definition resolve_chain ::
  "string option \<Rightarrow> string option \<Rightarrow> string option \<Rightarrow> (string \<times> chain_source) + (node_chain \<times> chain_source) option" where
  "resolve_chain flag env config = first_named [(flag, ByFlag), (env, ByEnv), (config, ByConfig)]"

definition guard_mainnet :: "verb \<Rightarrow> node_chain \<Rightarrow> chain_source \<Rightarrow> string option \<Rightarrow> bool" where
  "guard_mainnet v c s network =
     (vb_read_only v \<or> \<not> (case network of None \<Rightarrow> False | Some n \<Rightarrow> is_production_network c n) \<or> s = ByFlag)"

text \<open>\<open>--chain X\<close> or \<open>--chain=X\<close> among the arguments, read before anything else is.\<close>

fun chain_flag :: "string list \<Rightarrow> string option" where
  "chain_flag [] = None"
| "chain_flag (a # rest) =
     (case strip_prefix ''--chain='' a of
        Some v \<Rightarrow> Some v
      | None \<Rightarrow> (if a = ''--chain'' then (case rest of [] \<Rightarrow> None | v # vs \<Rightarrow> Some v) else chain_flag rest))"

datatype backend =
    ArcRpc | SolanaRpc | EthRpc | NitroRpc | AvaxNode | SuiNode | RollupRpc | BitcoinRpc | TronNode
  | SolanaValidators | SolanaValidatorInit | SolanaValidatorDeploy | SolanaValidatorStatus | NotImplemented

datatype node_outcome =
    NotAChain string chain_source
  | NoChainChosen
  | PickFailed string
  | NoSuchRole node_chain
  | NoSuchVerb
  | NeedsNetwork
  | NeedsNetworkAndName
  | NotAnEthValidatorNetwork
  | ChainNotOnTheCommandLine
  | RunsEthValidator string string
  | RunsVoteAccount string string
  | RunsKeys string string
  | Runs backend node_chain verb "string option"

text \<open>\<open>chain_for\<close>, at a terminal or not; \<open>pick\<close> is the person's choice among the chains that have the role.\<close>

definition chain_for ::
  "node_role \<Rightarrow> string option \<Rightarrow> string option \<Rightarrow> string option \<Rightarrow> bool \<Rightarrow> (nat \<Rightarrow> string + nat) \<Rightarrow>
     node_outcome + (node_chain \<times> chain_source)" where
  "chain_for role flag env config terminal pick =
     (case resolve_chain flag env config of
        Inl (v, s) \<Rightarrow> Err (NotAChain v s)
      | Inr (Some found) \<Rightarrow> Ok found
      | Inr None \<Rightarrow>
         (let candidates = filter (\<lambda>c. role \<in> set (chain_roles c)) all_chains
          in case candidates of
               [only] \<Rightarrow> Ok (only, ByPrompt)
             | _ \<Rightarrow>
                (if \<not> terminal then Err NoChainChosen
                 else case pick (length candidates) of
                   Inl e \<Rightarrow> Err (PickFailed e)
                 | Inr k \<Rightarrow> Ok (candidates ! k, ByPrompt))))"

definition eth_validator :: "string \<Rightarrow> chain_source \<Rightarrow> string option \<Rightarrow> node_outcome" where
  "eth_validator name source network =
     (case network of
        None \<Rightarrow> NotAnEthValidatorNetwork
      | Some n \<Rightarrow>
         (if n \<noteq> ''mainnet'' \<and> n \<noteq> ''hoodi'' then NotAnEthValidatorNetwork
          else if name \<notin> {''list'', ''status'', ''logs'', ''plan'', ''deposit-review''} \<and> n = ''mainnet'' \<and> source \<noteq> ByFlag
            then ChainNotOnTheCommandLine
          else RunsEthValidator name n))"

definition backend_of :: "node_role \<Rightarrow> node_chain \<Rightarrow> verb \<Rightarrow> backend" where
  "backend_of role c v =
     (if role = Rpc \<and> c = Arc then ArcRpc
      else if role = Rpc \<and> c = Solana then SolanaRpc
      else if role = Rpc \<and> c = Eth then EthRpc
      else if role = Rpc \<and> (c = Arbitrum \<or> c = Robinhood) then NitroRpc
      else if c = Avax then AvaxNode
      else if c = Sui then SuiNode
      else if role = Rpc \<and> c \<in> {Optimism, Base, Soneium} then RollupRpc
      else if role = Rpc \<and> c = Bitcoin then BitcoinRpc
      else if c = Tron then TronNode
      else if role = Validator \<and> c = Solana \<and> vb_name v = ''list'' then SolanaValidators
      else if role = Validator \<and> c = Solana \<and> vb_name v = ''init'' then SolanaValidatorInit
      else if role = Validator \<and> c = Solana \<and> vb_name v = ''deploy'' then SolanaValidatorDeploy
      else if role = Validator \<and> c = Solana \<and> vb_name v = ''status'' then SolanaValidatorStatus
      else NotImplemented)"

definition respond :: "node_role \<Rightarrow> node_chain \<Rightarrow> chain_source \<Rightarrow> verb \<Rightarrow> string option \<Rightarrow> string option \<Rightarrow> node_outcome" where
  "respond role c s v network host =
     (if \<not> vb_read_only v \<and> network = None then NeedsNetwork
      else if \<not> guard_mainnet v c s network then ChainNotOnTheCommandLine
      else
        (let b = backend_of role c v
         in if b = SolanaValidatorInit \<and> host = None then NeedsNetworkAndName
            else if b \<in> {SolanaValidatorDeploy, SolanaValidatorStatus} \<and> (network = None \<or> host = None) then NeedsNetworkAndName
            else Runs b c v network))"

definition run_on :: "node_role \<Rightarrow> node_chain \<Rightarrow> chain_source \<Rightarrow> string \<Rightarrow> string option \<Rightarrow> string option \<Rightarrow> node_outcome" where
  "run_on role c s name network host =
     (if role \<notin> set (chain_roles c) then NoSuchRole c
      else if role = Validator \<and> c = Eth then eth_validator name s network
      else if role = Validator \<and> c = Solana \<and> (name = ''vote-account'' \<or> name = ''keys'') then
        (case (network, host) of
           (Some n, Some h) \<Rightarrow> (if name = ''vote-account'' then RunsVoteAccount n h else RunsKeys n h)
         | _ \<Rightarrow> NeedsNetworkAndName)
      else case find (\<lambda>v. vb_name v = name) (common_verbs @ extra_verbs role c) of
        None \<Rightarrow> NoSuchVerb
      | Some v \<Rightarrow> respond role c s v network host)"

definition run_node ::
  "node_role \<Rightarrow> string list \<Rightarrow> string option \<Rightarrow> string option \<Rightarrow> bool \<Rightarrow> (nat \<Rightarrow> string + nat) \<Rightarrow>
     string \<Rightarrow> string option \<Rightarrow> string option \<Rightarrow> node_outcome" where
  "run_node role args env config terminal pick name network host =
     (case chain_for role (chain_flag args) env config terminal pick of
        Inl e \<Rightarrow> e
      | Inr (c, s) \<Rightarrow> run_on role c s name network host)"

subsection \<open>Lemmas\<close>

lemma chain_parse_name: "chain_parse (chain_name c) = Some c"
  by (cases c) (simp_all add: chain_parse_def to_ascii_lower_def byte_of_def)

lemma resolve_flag:
  "resolve_chain flag env config = Ok (Some (c, ByFlag)) \<Longrightarrow> \<exists>name. flag = Some name \<and> chain_parse name = Some c"
  by (auto simp: resolve_chain_def split: option.splits if_splits)

lemma chain_for_flag:
  assumes "chain_for role flag env config terminal pick = Ok (c, ByFlag)"
  shows "\<exists>name. flag = Some name \<and> chain_parse name = Some c"
proof (cases "resolve_chain flag env config")
  case (Inr found)
  with assms have "found = Some (c, ByFlag)"
    by (cases found) (simp_all add: chain_for_def Let_def split: list.splits if_splits sum.splits)
  with Inr show ?thesis using resolve_flag by simp
qed (use assms in \<open>auto simp: chain_for_def\<close>)

text \<open>
  What may change a node or the chain it is on, and where: a verb that the tree does not mark read-only, and the
  two it answers before it looks at any mark, which send transactions and write the keys a node signs with.
\<close>

fun changes :: "node_outcome \<Rightarrow> (node_chain \<times> string) option" where
  "changes (Runs b c v network) = (if vb_read_only v \<or> b = NotImplemented then None else map_option (Pair c) network)"
| "changes (RunsEthValidator name n) =
     (if name \<in> {''list'', ''status'', ''logs'', ''plan'', ''deposit-review''} then None else Some (Eth, n))"
| "changes (RunsVoteAccount n h) = Some (Solana, n)"
| "changes (RunsKeys n h) = Some (Solana, n)"
| "changes out = None"

lemma respond_changes:
  assumes "changes (respond role c s v network host) = Some (c', n)" and "is_production_network c' n"
  shows "s = ByFlag \<and> c' = c \<and> network = Some n"
  using assms by (auto simp: respond_def guard_mainnet_def Let_def split: if_splits)

text \<open>The verbs the tree answers itself, before the guard.\<close>

definition before_the_guard :: "node_role \<Rightarrow> node_chain \<Rightarrow> string \<Rightarrow> bool" where
  "before_the_guard role c name \<longleftrightarrow> role = Validator \<and> c = Solana \<and> (name = ''vote-account'' \<or> name = ''keys'')"

lemma run_on_changes:
  assumes ch: "changes (run_on role c s name network host) = Some (c', n)" and prod: "is_production_network c' n"
  shows "c' = c \<and> network = Some n \<and> (s = ByFlag \<or> before_the_guard role c name \<and> host \<noteq> None)"
proof (cases "role \<notin> set (chain_roles c) \<or> role = Validator \<and> c = Eth \<or> before_the_guard role c name")
  case True
  with assms show ?thesis
    by (auto simp: run_on_def eth_validator_def is_production_network_def before_the_guard_def split: if_splits option.splits)
next
  case False
  with assms show ?thesis
    using respond_changes [of role c s _ network host c' n]
    by (auto simp: run_on_def before_the_guard_def split: option.splits if_splits)
qed

text \<open>
  C37: What may change something on a network with real assets runs only when the command line itself names the
  network and the chain: never on a chain taken from the environment, the configuration or a prompt. Two verbs
  of a Solana validator are the exception, and the only one: its vote account and its keys need the
  network and the validator on the command line, and not the chain.
\<close>

theorem changes_to_production_name_their_chain:
  assumes "changes (run_node role args env config terminal pick name network host) = Some (c, n)"
    and "is_production_network c n"
  shows "network = Some n \<and>
    ((\<exists>f. chain_flag args = Some f \<and> chain_parse f = Some c) \<or>
     role = Validator \<and> c = Solana \<and> name \<in> {''vote-account'', ''keys''} \<and> host \<noteq> None)"
proof (cases "chain_for role (chain_flag args) env config terminal pick")
  case (Inl e)
  have "changes e = None"
  proof (cases "resolve_chain (chain_flag args) env config")
    case (Inr found)
    with Inl show ?thesis by (cases found) (auto simp: chain_for_def Let_def split: list.splits if_splits sum.splits)
  qed (use Inl in \<open>auto simp: chain_for_def split: prod.splits\<close>)
  with assms(1) Inl show ?thesis by (simp add: run_node_def)
next
  case (Inr cs)
  obtain c' s where cs: "cs = (c', s)" by (cases cs)
  with Inr assms have run: "changes (run_on role c' s name network host) = Some (c, n)" by (simp add: run_node_def)
  note facts = run_on_changes [OF run assms(2)]
  then show ?thesis using Inr chain_for_flag unfolding cs by (auto simp: before_the_guard_def)
qed

lemma changes_to_production_name_their_chain_witness:
  "changes (run_node Rpc [''stop'', ''--chain=arbitrum''] None (Some ''sol'') False (\<lambda>n. Ok 0) ''stop'' (Some ''nova'') None) = Some (Arbitrum, ''nova'') \<and>
   chain_parse ''arbitrum'' = Some Arbitrum"
proof -
  have run: "changes (run_node Rpc [''stop'', ''--chain=arbitrum''] None (Some ''sol'') False (\<lambda>n. Ok 0) ''stop'' (Some ''nova'') None) = Some (Arbitrum, ''nova'')"
    by code_simp
  have "is_production_network Arbitrum ''nova''" by (simp add: is_production_network_def)
  from changes_to_production_name_their_chain [OF run this] run show ?thesis by simp
qed

text \<open>
  The vote account and the keys of a Solana validator are reached before the guard, so with the chain from
  the environment, and the same verb of another node is refused.
\<close>

lemma vote_account_needs_no_chain_on_the_command_line:
  "run_node Validator [] (Some ''solana'') None False pick ''vote-account'' (Some ''mainnet'') (Some ''v1'') =
     RunsVoteAccount ''mainnet'' ''v1'' \<and>
   run_node Validator [] (Some ''solana'') None False pick ''start'' (Some ''mainnet'') (Some ''v1'') = ChainNotOnTheCommandLine"
proof -
  have "chain_for Validator None (Some ''solana'') None False pick = Ok (Solana, ByEnv)"
    by (simp add: chain_for_def resolve_chain_def chain_parse_def to_ascii_lower_def byte_of_def)
  then show ?thesis
    by (simp add: run_node_def run_on_def chain_roles_def common_verbs_def respond_def guard_mainnet_def is_production_network_def)
qed

end
