(* ===== verification/Credit_Wallet.thy ===== *)
theory Credit_Wallet
  imports Top_Up Gate Op_Ref Store Node_Chain "HOL-Library.List_Lexorder" "HOL-Library.Char_ord"
begin

text \<open>
  The wallet top-ups pay from: \<open>credit_wallet.rs\<close> with the settings of \<open>config.rs\<close>, and
  \<open>create_credit_wallet\<close> of \<open>actions.rs\<close>. What \<open>op\<close> answers may depend on every call made before; reading
  and writing the configuration file may fail at any access. Texts of errors are constructors.
\<close>

subsection \<open>The checksummed address\<close>

definition to_ascii_upper :: "char \<Rightarrow> char" where
  "to_ascii_upper c = (if 97 \<le> byte_of c \<and> byte_of c \<le> 122 then char_of (byte_of c - 32) else c)"

definition checksummed :: "(bytes \<Rightarrow> bytes) \<Rightarrow> address \<Rightarrow> string" where
  "checksummed keccak a =
     (let lower = drop 2 (hex a); hash = keccak (str_bytes lower)
      in ''0x'' @ map (\<lambda>(i, c).
           let nibble = (if even i then unat (hash ! (i div 2)) div 16 else unat (hash ! (i div 2)) mod 16)
           in if nibble \<ge> 8 then to_ascii_upper c else c) (List.enumerate 0 lower))"

subsection \<open>Settings\<close>

datatype config_error = NotASetting string | NotAValueFor string string | ConfigUnread | ConfigUnwritten

text \<open>\<open>checked\<close> of \<open>config.rs\<close>; whether a path is an absolute one of a file is the file system's to say.\<close>

definition checked :: "(string \<Rightarrow> bool) \<Rightarrow> string \<Rightarrow> string \<Rightarrow> config_error + string" where
  "checked is_key_file key v =
     (let ok = (if key = ''credential_store'' then Some (kind_parse v \<noteq> None)
                else if key = ''credential_vault'' then Some (v \<noteq> [] \<and> list_all is_ascii_alphanumeric v)
                else if key = ''default_chain'' then Some (chain_parse v \<noteq> None)
                else if key = ''locale'' then Some (v \<in> {''en'', ''ja'', ''zh'', ''ru''})
                else if key = ''credit_wallet'' then Some (is_ok (op_ref_parse v))
                else if key = ''credit_wallet_address'' then Some (is_ok (address_parse v))
                else if key = ''credit_wallet_ai'' then Some (v \<in> {''on'', ''off''})
                else if key = ''ssh_key'' then Some (is_key_file v)
                else None)
      in case ok of
           None \<Rightarrow> Err (NotASetting key)
         | Some b \<Rightarrow> (if b then Ok v else Err (NotAValueFor key v)))"

subsection \<open>The machine\<close>

datatype op_answer = OpNotRun | OpRan bool string

type_synonym op_call = "string list \<times> string option"

record wallet_machine =
  wm_config :: "(string \<times> string) list"
  wm_read_faults :: "bool list"
  wm_write_faults :: "bool list"
  wm_op_log :: "op_call list"

text \<open>
  What does not change meanwhile: the answers of \<open>op\<close>, JSON's parser, Keccak-256, the key a text is and the
  next random one, the environment, and which characters outside ASCII are letters or digits.
\<close>

record wallet_env =
  we_op :: "op_call list \<Rightarrow> op_call \<Rightarrow> op_answer"
  we_op_found :: bool
  we_parse :: "string \<Rightarrow> json option"
  we_keccak :: "bytes \<Rightarrow> bytes"
  we_key_of :: "string \<Rightarrow> wallet_error + signer"
  we_new_key :: "wallet_error + (string \<times> signer)"
  we_vars :: "(string \<times> string) list"
  we_tty :: bool
  we_key_file :: "string \<Rightarrow> bool"
  we_unicode_alphanumeric :: "string \<Rightarrow> bool"

record found_wallet =
  fo_address :: address
  fo_reference :: string
  fo_vault :: string
  fo_others :: nat

datatype credit_wallet_error =
    NoWallet
  | SetUpWithoutKey string
  | AddressNotSet
  | NotAnAddress wallet_error
  | GateSaidNo denial
  | OpMissing
  | OpCouldNot string
  | Unreadable string
  | UnusableItem
  | NotAKey wallet_error
  | KeyIsOf address
  | SetUpAlready string
  | KeySetAlready
  | ServiceAccountSet
  | NotAVault
  | InOnePasswordAlready address string
  | NoVaultId
  | TitleTaken string
  | NoKeyMade wallet_error
  | NotTheKeyStored string
  | Setting config_error
  | NoSupport
  | NoPersonToAsk
  | VaultNotNamed
  | PersonSaidNo

text \<open>A step may fail; what it did to the machine before that stays.\<close>

type_synonym 'a wallet_step = "wallet_machine \<Rightarrow> (credit_wallet_error + 'a) \<times> wallet_machine"

definition done_with :: "'a \<Rightarrow> 'a wallet_step" where "done_with a m = (Ok a, m)"
definition fail_with :: "credit_wallet_error \<Rightarrow> 'a wallet_step" where "fail_with e m = (Err e, m)"

definition step_then :: "'a wallet_step \<Rightarrow> ('a \<Rightarrow> 'b wallet_step) \<Rightarrow> 'b wallet_step" where
  "step_then f g m = (case f m of (Inl e, m') \<Rightarrow> (Err e, m') | (Inr a, m') \<Rightarrow> g a m')"

definition lift_result :: "credit_wallet_error + 'a \<Rightarrow> 'a wallet_step" where "lift_result r m = (r, m)"

definition pop :: "bool list \<Rightarrow> bool \<times> bool list" where
  "pop fs = (case fs of [] \<Rightarrow> (False, []) | f # gs \<Rightarrow> (f, gs))"

definition read_config :: "wallet_machine \<Rightarrow> (string \<times> string) list option \<times> wallet_machine" where
  "read_config m =
     (case pop (wm_read_faults m) of (f, fs) \<Rightarrow> (if f then None else Some (wm_config m), m\<lparr>wm_read_faults := fs\<rparr>))"

text \<open>\<open>setting\<close>: a configuration that cannot be read has no setting.\<close>

definition setting :: "string \<Rightarrow> string option wallet_step" where
  "setting key m = (case read_config m of (t, m') \<Rightarrow> (Ok (Option.bind t (\<lambda>t. hm_get t key)), m'))"

definition config_set :: "wallet_env \<Rightarrow> string \<Rightarrow> string \<Rightarrow> unit wallet_step" where
  "config_set env key v m =
     (case checked (we_key_file env) key v of
        Inl e \<Rightarrow> (Err (Setting e), m)
      | Inr v' \<Rightarrow>
         (case read_config m of
            (None, m1) \<Rightarrow> (Err (Setting ConfigUnread), m1)
          | (Some t, m1) \<Rightarrow>
             (case pop (wm_write_faults m1) of
                (True, fs) \<Rightarrow> (Err (Setting ConfigUnwritten), m1\<lparr>wm_write_faults := fs\<rparr>)
              | (False, fs) \<Rightarrow> (Ok (), m1\<lparr>wm_config := hm_insert key v' t, wm_write_faults := fs\<rparr>))))"

text \<open>\<open>run\<close>: what \<open>op\<close> printed, when it ran and succeeded.\<close>

definition op_run :: "wallet_env \<Rightarrow> string list \<Rightarrow> string option \<Rightarrow> string \<Rightarrow> string wallet_step" where
  "op_run env args stdin what m =
     (let m' = m\<lparr>wm_op_log := wm_op_log m @ [(args, stdin)]\<rparr>
      in case we_op env (wm_op_log m) (args, stdin) of
           OpRan True out \<Rightarrow> (Ok out, m')
         | _ \<Rightarrow> (Err (OpCouldNot what), m'))"

definition op_runner :: "wallet_env \<Rightarrow> unit wallet_step" where
  "op_runner env = (if we_op_found env then done_with () else fail_with OpMissing)"

definition parse_or :: "wallet_env \<Rightarrow> string \<Rightarrow> string \<Rightarrow> json wallet_step" where
  "parse_or env out what = lift_result (ok_or (Unreadable what) (we_parse env out))"

definition parse_list :: "wallet_env \<Rightarrow> string \<Rightarrow> string \<Rightarrow> json list wallet_step" where
  "parse_list env out what = lift_result (ok_or (Unreadable what) (Option.bind (we_parse env out) as_array))"

subsection \<open>The configured wallet\<close>

definition wallet_address :: "address wallet_step" where
  "wallet_address =
     step_then (setting ''credit_wallet'') (\<lambda>w.
       if w = None then
         step_then (setting ''credit_wallet_address'') (\<lambda>a.
           fail_with (case a of Some t \<Rightarrow> SetUpWithoutKey t | None \<Rightarrow> NoWallet))
       else
         step_then (setting ''credit_wallet_address'') (\<lambda>a.
           case a of None \<Rightarrow> fail_with AddressNotSet | Some t \<Rightarrow> lift_result (map_err NotAnAddress (address_parse t))))"

definition wallet_gate :: "wallet_env \<Rightarrow> bool \<Rightarrow> unit wallet_step" where
  "wallet_gate env allow_ai =
     (case evaluate (HumanWallet allow_ai) Resolve ((from_env (we_tty env) False (we_vars env))\<lparr>ai_tool_path := True\<rparr>) of
        Allow c \<Rightarrow> done_with ()
      | Deny why \<Rightarrow> fail_with (GateSaidNo why))"

text \<open>\<open>key\<close>. Reading the key has no further check between the gate and \<open>op\<close>.\<close>

definition wallet_key :: "wallet_env \<Rightarrow> signer wallet_step" where
  "wallet_key env =
     step_then (setting ''credit_wallet'') (\<lambda>w. case w of None \<Rightarrow> fail_with NoWallet | Some reference \<Rightarrow>
     step_then (setting ''credit_wallet_ai'') (\<lambda>ai.
     step_then (wallet_gate env (ai = Some ''on'')) (\<lambda>_.
     step_then (op_runner env) (\<lambda>_.
     step_then (op_run env [''read'', ''--no-newline'', reference] None ''give the wallet key'') (\<lambda>out.
     step_then (lift_result (map_err NotAKey (we_key_of env out))) (\<lambda>key.
     step_then wallet_address (\<lambda>configured.
       if sg_address key \<noteq> configured then fail_with (KeyIsOf (sg_address key)) else done_with key)))))))"

subsection \<open>The wallet made before\<close>

definition item_title :: string where "item_title = ''ERPC credit wallet (Base)''"
definition wallet_tag :: string where "wallet_tag = ''erpc-credit-wallet''"

definition plain_id :: "string \<Rightarrow> bool" where "plain_id v = (v \<noteq> [] \<and> list_all is_ascii_alphanumeric v)"

definition text_at :: "string \<Rightarrow> json \<Rightarrow> string" where "text_at k j = str_or [] (str_at k j)"

definition usable_items :: "json list \<Rightarrow> json list" where
  "usable_items listed =
     sort_key (text_at ''created_at'')
       (filter (\<lambda>i. str_at ''id'' i \<noteq> None \<and> str_at ''id'' (jget_or_null ''vault'' i) \<noteq> None) listed)"

definition key_reference :: "string \<Rightarrow> string \<Rightarrow> string" where
  "key_reference vault i = ''op://'' @ vault @ ''/'' @ i @ ''/private_key''"

definition read_found :: "wallet_env \<Rightarrow> json \<Rightarrow> nat \<Rightarrow> found_wallet option wallet_step" where
  "read_found env item others =
     (let i = text_at ''id'' item; vault = text_at ''id'' (jget_or_null ''vault'' item)
      in if \<not> plain_id i \<or> \<not> plain_id vault then fail_with UnusableItem
         else
           step_then (op_run env [''item'', ''get'', i, ''--vault'', vault, ''--fields'', ''label=address'', ''--format'', ''json'']
               None ''read the wallet address'') (\<lambda>field.
           step_then (parse_or env field ''address field'') (\<lambda>field.
           step_then (lift_result (map_err NotAnAddress (address_parse (text_at ''value'' field)))) (\<lambda>a.
             done_with (Some \<lparr>fo_address = a, fo_reference = key_reference vault i,
               fo_vault = str_or vault (str_at ''name'' (jget_or_null ''vault'' item)), fo_others = others\<rparr>)))))"

definition find_wallet :: "wallet_env \<Rightarrow> found_wallet option wallet_step" where
  "find_wallet env =
     step_then (op_run env [''item'', ''list'', ''--tags'', wallet_tag, ''--format'', ''json''] None ''look for an ERPC wallet'') (\<lambda>out.
     step_then (parse_list env out ''listing'') (\<lambda>listed.
       case usable_items listed of [] \<Rightarrow> done_with None | item # others \<Rightarrow> read_found env item (length others)))"

definition existing :: "credit_wallet_error option wallet_step" where
  "existing =
     step_then (setting ''credit_wallet_address'') (\<lambda>a. case a of Some t \<Rightarrow> done_with (Some (SetUpAlready t)) | None \<Rightarrow>
     step_then (setting ''credit_wallet'') (\<lambda>w. done_with (map_option (\<lambda>_. KeySetAlready) w)))"

definition point_config :: "wallet_env \<Rightarrow> string \<Rightarrow> address \<Rightarrow> bool \<Rightarrow> unit wallet_step" where
  "point_config env reference a allow_ai =
     step_then (config_set env ''credit_wallet'' reference) (\<lambda>_.
     step_then (config_set env ''credit_wallet_address'' (checksummed (we_keccak env) a)) (\<lambda>_.
       config_set env ''credit_wallet_ai'' (if allow_ai then ''on'' else ''off'')))"

definition adopt_wallet :: "wallet_env \<Rightarrow> found_wallet \<Rightarrow> bool \<Rightarrow> address wallet_step" where
  "adopt_wallet env found allow_ai =
     step_then existing (\<lambda>why. case why of Some e \<Rightarrow> fail_with e | None \<Rightarrow>
     step_then (point_config env (fo_reference found) (fo_address found) allow_ai) (\<lambda>_. done_with (fo_address found)))"

subsection \<open>A new wallet\<close>

definition is_vault_text :: "wallet_env \<Rightarrow> string \<Rightarrow> bool" where
  "is_vault_text env v =
     (v \<noteq> [] \<and> \<not> starts_with v ''-'' \<and>
      list_all (\<lambda>c. is_ascii_alphanumeric c \<or> c \<in> {CHR '' '', CHR ''-'', CHR ''_''} \<or> byte_of c \<ge> 128) v \<and>
      we_unicode_alphanumeric env v)"

definition is_lower_or_number :: "char \<Rightarrow> bool" where
  "is_lower_or_number c = (97 \<le> byte_of c \<and> byte_of c \<le> 122 \<or> is_digit c)"

definition vault_id :: "wallet_env \<Rightarrow> string \<Rightarrow> string wallet_step" where
  "vault_id env vault =
     step_then (op_run env [''vault'', ''get'', vault, ''--format'', ''json''] None ''find the vault'') (\<lambda>out.
     step_then (parse_or env out ''vault details'') (\<lambda>got.
       let i = text_at ''id'' got
       in if length i = 26 \<and> list_all is_lower_or_number i then done_with i else fail_with NoVaultId))"

text \<open>The item as JSON, with the secret in it; \<open>quoted\<close> is a text between quotation marks that needs no escapes.\<close>

definition quoted :: "string \<Rightarrow> string" where "quoted t = [CHR 0x22] @ t @ [CHR 0x22]"

definition json_pairs :: "(string \<times> string) list \<Rightarrow> string" where
  "json_pairs ps = ''{'' @ join_with '','' (map (\<lambda>(k, v). quoted k @ '':'' @ quoted v) ps) @ ''}''"

definition item_template :: "string \<Rightarrow> string \<Rightarrow> string" where
  "item_template secret address =
     ''{'' @ quoted ''category'' @ '':'' @ quoted ''API_CREDENTIAL'' @ '','' @
     quoted ''tags'' @ '':['' @ quoted ''erpc'' @ '','' @ quoted wallet_tag @ ''],'' @
     quoted ''title'' @ '':'' @ quoted item_title @ '','' @ quoted ''fields'' @ '':['' @
     json_pairs [(''id'', ''private_key''), (''label'', ''private_key''), (''type'', ''CONCEALED''), (''value'', secret)] @ '','' @
     json_pairs [(''id'', ''address''), (''label'', ''address''), (''type'', ''STRING''), (''value'', address)] @ '']}''"

definition store_wallet :: "wallet_env \<Rightarrow> string \<Rightarrow> (string \<times> address) wallet_step" where
  "store_wallet env vault_text =
     step_then (vault_id env vault_text) (\<lambda>vault.
     step_then (op_run env [''item'', ''list'', ''--vault'', vault, ''--format'', ''json''] None ''list the vault'') (\<lambda>out.
     step_then (parse_list env out ''listing'') (\<lambda>listed.
       case find (\<lambda>i. str_at ''title'' i = Some item_title) listed of
         Some item \<Rightarrow> fail_with (TitleTaken (key_reference vault (text_at ''id'' item)))
       | None \<Rightarrow>
     step_then (lift_result (map_err NoKeyMade (we_new_key env))) (\<lambda>(secret, key).
     step_then (op_run env [''item'', ''create'', ''-'', ''--vault'', vault, ''--format'', ''json'']
         (Some (item_template secret (checksummed (we_keccak env) (sg_address key)))) ''store the wallet'') (\<lambda>created.
     step_then (parse_or env created ''new item'') (\<lambda>created.
     step_then (lift_result (ok_or (Unreadable ''new item has no id'') (str_at ''id'' created))) (\<lambda>i.
       let reference = key_reference vault i
       in step_then (op_run env [''read'', ''--no-newline'', reference] None ''read the wallet back'') (\<lambda>back.
          if (case we_key_of env back of Inl e \<Rightarrow> False | Inr k \<Rightarrow> sg_address k = sg_address key)
          then done_with (reference, sg_address key) else fail_with (NotTheKeyStored reference)))))))))"

definition create_wallet :: "wallet_env \<Rightarrow> string \<Rightarrow> bool \<Rightarrow> address wallet_step" where
  "create_wallet env vault allow_ai =
     step_then existing (\<lambda>why. case why of Some e \<Rightarrow> fail_with e | None \<Rightarrow>
       if map_of (we_vars env) ''OP_SERVICE_ACCOUNT_TOKEN'' \<noteq> None then fail_with ServiceAccountSet
       else if \<not> is_vault_text env vault then fail_with NotAVault
       else
         step_then (op_runner env) (\<lambda>_.
         step_then (find_wallet env) (\<lambda>found. case found of
             Some f \<Rightarrow> fail_with (InOnePasswordAlready (fo_address f) (fo_vault f))
           | None \<Rightarrow>
         step_then (store_wallet env vault) (\<lambda>(reference, a).
         step_then (point_config env reference a allow_ai) (\<lambda>_. done_with a)))))"

subsection \<open>Setting one up\<close>

datatype wallet_question = UseFound address string bool | MakeNew string bool

definition wallet_report :: "wallet_env \<Rightarrow> (string \<times> json) list \<Rightarrow> address \<Rightarrow> json" where
  "wallet_report env more_of a =
     JObj ([(''done'', JBool True), (''address'', JStr (checksummed (we_keccak env) a)), (''network'', JStr ''Base'')] @ more_of)"

text \<open>\<open>attempt\<close> is \<open>.ok()\<close>: a failure is an answer.\<close>

definition attempt :: "'a wallet_step \<Rightarrow> (credit_wallet_error + 'a) wallet_step" where
  "attempt f m = (case f m of (r, m') \<Rightarrow> (Ok r, m'))"

definition may_pay :: "json \<Rightarrow> bool" where
  "may_pay input = (case Option.bind (jget ''allowAi'' input) as_bool of Some b \<Rightarrow> b | None \<Rightarrow> True)"

definition create_credit_wallet ::
  "wallet_env \<Rightarrow> bool \<Rightarrow> (wallet_question \<Rightarrow> bool) option \<Rightarrow> json \<Rightarrow> json wallet_step" where
  "create_credit_wallet env supported confirm input =
     (if \<not> supported then fail_with NoSupport
      else step_then (attempt wallet_address) (\<lambda>configured. case configured of
          Inr a \<Rightarrow> done_with (wallet_report env [(''already'', JBool True), (''note'',
            JStr (''This is the user'' @ [CHR 0x27] @ ''s wallet for buying credit; erpc keeps one, never more.''))] a)
        | Inl e \<Rightarrow>
      step_then existing (\<lambda>why. case why of Some e \<Rightarrow> fail_with e | None \<Rightarrow>
        (case confirm of
           None \<Rightarrow> fail_with NoPersonToAsk
         | Some ask \<Rightarrow>
            (let allow_ai = may_pay input; ai = (''erpcAiMayPay'', JBool allow_ai)
             in step_then (op_runner env) (\<lambda>_.
                step_then (find_wallet env) (\<lambda>found. case found of
                  Some f \<Rightarrow>
                    (if \<not> ask (UseFound (fo_address f) (fo_vault f) allow_ai) then fail_with PersonSaidNo
                     else step_then (adopt_wallet env f allow_ai) (\<lambda>a.
                       done_with (wallet_report env [(''found'', JBool True), (''otherWalletItems'', JUint (fo_others f)), ai,
                         (''next'', JStr ''send EURC on Base to this address if it holds too little; buying credit needs no ETH (ERPC pays the gas)'')] a)))
                | None \<Rightarrow>
                    step_then (case str_at ''vault'' input of Some v \<Rightarrow> done_with (Some v) | None \<Rightarrow> setting ''credential_vault'') (\<lambda>vault.
                      case vault of
                        None \<Rightarrow> fail_with VaultNotNamed
                      | Some v \<Rightarrow>
                         (if \<not> ask (MakeNew v allow_ai) then fail_with PersonSaidNo
                          else step_then (create_wallet env v allow_ai) (\<lambda>a.
                            done_with (wallet_report env [ai,
                              (''next'', JStr ''send EURC on Base to this address; buying credit needs no ETH (ERPC pays the gas)'')] a)))))))))))"

text \<open>\<open>erpc wallet create\<close>: the address, and whether the wallet was configured, found or made.\<close>

definition create_command :: "wallet_env \<Rightarrow> string option \<Rightarrow> bool \<Rightarrow> (address \<times> string) wallet_step" where
  "create_command env vault allow_ai =
     step_then (setting ''credit_wallet'') (\<lambda>w.
     step_then (setting ''credit_wallet_address'') (\<lambda>a.
       case (if w = None then None else Option.bind a (\<lambda>t. case address_parse t of Inl e \<Rightarrow> None | Inr a \<Rightarrow> Some a)) of
         Some a \<Rightarrow> done_with (a, ''configured'')
       | None \<Rightarrow>
     step_then existing (\<lambda>why. case why of Some e \<Rightarrow> fail_with e | None \<Rightarrow>
     step_then (op_runner env) (\<lambda>_.
     step_then (find_wallet env) (\<lambda>found. case found of
         Some f \<Rightarrow> step_then (adopt_wallet env f allow_ai) (\<lambda>a. done_with (a, ''found''))
       | None \<Rightarrow>
     step_then (case vault of Some v \<Rightarrow> done_with (Some v) | None \<Rightarrow> setting ''credential_vault'') (\<lambda>vault.
       case vault of
         None \<Rightarrow> fail_with VaultNotNamed
       | Some v \<Rightarrow> step_then (create_wallet env v allow_ai) (\<lambda>a. done_with (a, ''made''))))))))"

subsection \<open>Lemmas\<close>

lemma step_then_Ok: "step_then f g m = (Ok b, m'') \<longleftrightarrow> (\<exists>a m'. f m = (Ok a, m') \<and> g a m' = (Ok b, m''))"
  by (auto simp: step_then_def split: sum.splits prod.splits)

lemma step_simps [simp]: "done_with a m = (Ok a, m)" "fail_with e m = (Err e, m)" "lift_result r m = (r, m)"
  by (simp_all add: done_with_def fail_with_def lift_result_def)

text \<open>A configuration that can be read is read as it is.\<close>

definition config_readable :: "wallet_machine \<Rightarrow> bool" where "config_readable m \<longleftrightarrow> wm_read_faults m = []"

lemma setting_readable [simp]: "config_readable m \<Longrightarrow> setting key m = (Ok (hm_get (wm_config m) key), m)"
  by (simp add: setting_def read_config_def pop_def config_readable_def)

lemma existing_readable:
  "config_readable m \<Longrightarrow> existing m = (Ok (case hm_get (wm_config m) ''credit_wallet_address'' of Some t \<Rightarrow> Some (SetUpAlready t)
     | None \<Rightarrow> map_option (\<lambda>_. KeySetAlready) (hm_get (wm_config m) ''credit_wallet'')), m)"
  by (simp add: existing_def step_then_def split: option.splits)

text \<open>A wallet is set up, perhaps half way.\<close>

definition set_up :: "wallet_machine \<Rightarrow> bool" where
  "set_up m \<longleftrightarrow> hm_get (wm_config m) ''credit_wallet'' \<noteq> None \<or> hm_get (wm_config m) ''credit_wallet_address'' \<noteq> None"

lemma existing_set_up: "config_readable m \<Longrightarrow> set_up m \<longleftrightarrow> (\<exists>e. existing m = (Ok (Some e), m))"
  by (auto simp: existing_readable set_up_def split: option.splits)

text \<open>How many reads of the configuration failed between two states, and steps that never take a failure back.\<close>

definition failing :: "wallet_machine \<Rightarrow> nat" where "failing m = count_list (wm_read_faults m) True"

definition failed_reads :: "wallet_machine \<Rightarrow> wallet_machine \<Rightarrow> nat" where "failed_reads m m' = failing m - failing m'"

definition calm :: "'a wallet_step \<Rightarrow> bool" where "calm f \<longleftrightarrow> (\<forall>m. failing (snd (f m)) \<le> failing m)"

text \<open>Steps that leave the configuration as it is.\<close>

definition steady :: "'a wallet_step \<Rightarrow> bool" where
  "steady f \<longleftrightarrow> calm f \<and> (\<forall>m. wm_config (snd (f m)) = wm_config m)"

lemma calm_then: "calm f \<Longrightarrow> (\<And>a. calm (g a)) \<Longrightarrow> calm (step_then f g)"
  unfolding calm_def step_then_def by (auto split: sum.split prod.split) (metis le_trans snd_conv)+

lemma steady_then: "steady f \<Longrightarrow> (\<And>a. steady (g a)) \<Longrightarrow> steady (step_then f g)"
  using calm_then [of f g] unfolding steady_def step_then_def by (auto split: sum.split prod.split) (metis snd_conv)+

lemma steady_calm: "steady f \<Longrightarrow> calm f"
  by (simp add: steady_def)

lemma read_config_failing:
  "read_config m = (t, m') \<Longrightarrow> wm_config m' = wm_config m \<and> t = (if t = None then None else Some (wm_config m)) \<and>
     failing m = failing m' + (if t = None then 1 else 0)"
  by (auto simp: read_config_def pop_def failing_def split: prod.splits list.splits if_splits)

lemma setting_failing:
  "setting key m = (r, m') \<Longrightarrow> wm_config m' = wm_config m \<and>
     (\<exists>v. r = Ok v \<and> (v = hm_get (wm_config m) key \<and> failing m' \<le> failing m \<or> v = None \<and> failing m = failing m' + 1))"
  by (auto simp: setting_def dest!: read_config_failing split: prod.splits if_splits)

lemma steady_setting: "steady (setting key)"
proof -
  have "failing (snd (setting key m)) \<le> failing m \<and> wm_config (snd (setting key m)) = wm_config m" for m
    using setting_failing [of key m "fst (setting key m)" "snd (setting key m)"] by auto
  then show ?thesis by (simp add: steady_def calm_def)
qed

lemma steady_plain:
  "steady (done_with a)" "steady (fail_with e)" "steady (lift_result x)" "steady (op_run env args stdin what)" "steady (op_runner env)"
  "steady (parse_or env out what)" "steady (parse_list env out what)"
  by (auto simp: steady_def calm_def done_with_def fail_with_def lift_result_def op_run_def op_runner_def
      parse_or_def parse_list_def Let_def failing_def split: op_answer.split bool.split)

lemmas steady_basic = steady_plain steady_setting

lemma steady_existing: "steady existing"
  unfolding existing_def by (intro steady_then steady_basic) (auto intro!: steady_then steady_basic split: option.split)

lemma steady_attempt: "steady f \<Longrightarrow> steady (attempt f)"
  by (auto simp: steady_def calm_def attempt_def split: prod.split) (metis snd_conv)+

lemma steady_wallet_address: "steady wallet_address"
  unfolding wallet_address_def by (intro steady_then steady_basic) (auto intro!: steady_then steady_basic split: option.split)

lemma steady_find: "steady (find_wallet env)"
proof -
  have "steady (read_found env item n)" for item n
    unfolding read_found_def Let_def by (auto intro!: steady_then steady_basic)
  then show ?thesis unfolding find_wallet_def by (auto intro!: steady_then steady_basic split: list.split)
qed

lemma calm_set: "calm (config_set env key v)"
  by (auto simp: calm_def config_set_def pop_def failing_def dest!: read_config_failing split: sum.split prod.split option.split list.split bool.split)

lemma calm_point: "calm (point_config env reference a ai)"
  unfolding point_config_def by (intro calm_then calm_set)

lemma steady_store: "steady (store_wallet env v)"
  unfolding store_wallet_def vault_id_def Let_def
  by (auto intro!: steady_then steady_basic split: option.split prod.split)

text \<open>A wallet that is set up is taken for none only by a read that fails.\<close>

lemma existing_overlooks:
  assumes "set_up m" and "existing m = (Ok None, m')"
  shows "failing m' + 1 \<le> failing m"
proof -
  from assms(2) obtain a m1 w where a: "setting ''credit_wallet_address'' m = (Ok a, m1)" "a = None"
    and w: "setting ''credit_wallet'' m1 = (Ok w, m')" "w = None"
    by (auto simp: existing_def step_then_Ok split: option.splits)
  from setting_failing [OF a(1)] setting_failing [OF w(1)] a(2) w(2) assms(1) show ?thesis by (auto simp: set_up_def)
qed

text \<open>A step after the check either leaves the configuration or cost a failed read.\<close>

definition guarded :: "nat \<Rightarrow> 'a wallet_step \<Rightarrow> bool" where
  "guarded n f \<longleftrightarrow> calm f \<and> (\<forall>m. set_up m \<longrightarrow> wm_config (snd (f m)) = wm_config m \<or> failing (snd (f m)) + n \<le> failing m)"

lemma guarded_steady: "steady f \<Longrightarrow> guarded n f"
  by (simp add: guarded_def steady_def)

lemma guarded_calm: "calm f \<Longrightarrow> guarded 0 f"
  by (simp add: guarded_def calm_def)

lemma set_up_same: "wm_config m' = wm_config m \<Longrightarrow> set_up m' = set_up m"
  by (simp add: set_up_def)

lemma guarded_then:
  assumes "steady f" and "\<And>a. guarded n (g a)"
  shows "guarded n (step_then f g)"
proof -
  have "calm (step_then f g)" using assms by (intro calm_then) (auto simp: guarded_def steady_def)
  moreover have "wm_config (snd (step_then f g m)) = wm_config m \<or> failing (snd (step_then f g m)) + n \<le> failing m" if m: "set_up m" for m
  proof -
    obtain r m1 where f: "f m = (r, m1)" by fastforce
    with assms(1) have 1: "wm_config m1 = wm_config m" "failing m1 \<le> failing m" by (auto simp: steady_def calm_def) (metis snd_conv)+
    show ?thesis
    proof (cases r)
      case (Inl e)
      with f 1 show ?thesis by (simp add: step_then_def)
    next
      case (Inr a)
      with assms(2) [of a] set_up_same [OF 1(1)] m have "wm_config (snd (g a m1)) = wm_config m1 \<or> failing (snd (g a m1)) + n \<le> failing m1"
        by (simp add: guarded_def)
      with f 1 Inr show ?thesis by (auto simp: step_then_def)
    qed
  qed
  ultimately show ?thesis by (simp add: guarded_def)
qed

lemma guarded_then_calm:
  assumes "guarded n f" and "\<And>a. steady (g a)"
  shows "guarded n (step_then f g)"
proof -
  have "calm (step_then f g)" using assms by (intro calm_then) (auto simp: guarded_def steady_def)
  moreover have "wm_config (snd (step_then f g m)) = wm_config m \<or> failing (snd (step_then f g m)) + n \<le> failing m" if m: "set_up m" for m
  proof -
    obtain r m1 where f: "f m = (r, m1)" by fastforce
    from assms(1) m have "wm_config (snd (f m)) = wm_config m \<or> failing (snd (f m)) + n \<le> failing m" by (simp add: guarded_def)
    with f have 1: "wm_config m1 = wm_config m \<or> failing m1 + n \<le> failing m" by simp
    have "wm_config (snd (g a m1)) = wm_config m1" "failing (snd (g a m1)) \<le> failing m1" for a
      using assms(2) [of a] by (simp_all add: steady_def calm_def)
    with 1 f show ?thesis by (cases r) (auto simp: step_then_def intro: le_trans [OF add_le_mono1])
  qed
  ultimately show ?thesis by (simp add: guarded_def)
qed

lemma guarded_existing:
  assumes "guarded n f" and "\<And>e. steady (g e)"
  shows "guarded (Suc n) (step_then existing (\<lambda>why. case why of Some e \<Rightarrow> g e | None \<Rightarrow> f))"
proof -
  let ?h = "step_then existing (\<lambda>why. case why of Some e \<Rightarrow> g e | None \<Rightarrow> f)"
  have "calm ?h" using assms steady_existing by (intro calm_then) (auto simp: guarded_def steady_def split: option.split)
  moreover have "wm_config (snd (?h m)) = wm_config m \<or> failing (snd (?h m)) + Suc n \<le> failing m" if m: "set_up m" for m
  proof -
    obtain why m1 where e: "existing m = (why, m1)" by fastforce
    with steady_existing have 1: "wm_config m1 = wm_config m" by (auto simp: steady_def) (metis snd_conv)
    show ?thesis
    proof (cases "why = Ok None")
      case True
      with existing_overlooks [OF m] e have "failing m1 + 1 \<le> failing m" by simp
      moreover have "wm_config (snd (f m1)) = wm_config m1 \<or> failing (snd (f m1)) + n \<le> failing m1"
        using assms(1) set_up_same [OF 1] m by (simp add: guarded_def)
      ultimately show ?thesis using True e 1 by (auto simp: step_then_def)
    next
      case False
      have "wm_config (snd (g x m1)) = wm_config m1" for x using assms(2) [of x] by (simp add: steady_def)
      with False e 1 show ?thesis by (auto simp: step_then_def split: sum.split option.split)
    qed
  qed
  ultimately show ?thesis by (simp add: guarded_def)
qed

lemma guarded_adopt: "guarded 1 (adopt_wallet env found ai)"
  unfolding adopt_wallet_def One_nat_def
  by (intro guarded_existing guarded_calm calm_then calm_point steady_basic steady_calm [OF steady_basic(1)])

lemma guarded_create: "guarded 1 (create_wallet env v ai)"
proof -
  have "calm (if map_of (we_vars env) ''OP_SERVICE_ACCOUNT_TOKEN'' \<noteq> None then fail_with ServiceAccountSet
       else if \<not> is_vault_text env v then fail_with NotAVault
       else
         step_then (op_runner env) (\<lambda>_.
         step_then (find_wallet env) (\<lambda>found. case found of
             Some f \<Rightarrow> fail_with (InOnePasswordAlready (fo_address f) (fo_vault f))
           | None \<Rightarrow>
         step_then (store_wallet env v) (\<lambda>(reference, a).
         step_then (point_config env reference a ai) (\<lambda>_. done_with a)))))"
    by (auto intro!: calm_then calm_point steady_calm [OF steady_find] steady_calm [OF steady_store] steady_calm [OF steady_basic(1)]
        steady_calm [OF steady_basic(2)] steady_calm [OF steady_basic(5)] split: option.split prod.split)
  then show ?thesis unfolding create_wallet_def One_nat_def by (intro guarded_existing guarded_calm steady_basic)
qed

lemma guarded_assistant: "guarded 2 (create_credit_wallet env supported confirm input)"
proof -
  note a = guarded_then_calm [OF guarded_adopt [unfolded One_nat_def] steady_basic(1)]
    and c = guarded_then_calm [OF guarded_create [unfolded One_nat_def] steady_basic(1)]
  show ?thesis unfolding create_credit_wallet_def numeral_2_eq_2 Let_def
    by (auto intro!: guarded_then guarded_existing steady_attempt steady_wallet_address steady_basic steady_find a c
        guarded_steady [OF steady_basic(1)] guarded_steady [OF steady_basic(2)] split: sum.split option.split)
qed

lemma guarded_command: "guarded 2 (create_command env vault ai)"
proof -
  note a = guarded_then_calm [OF guarded_adopt [unfolded One_nat_def] steady_basic(1)]
    and c = guarded_then_calm [OF guarded_create [unfolded One_nat_def] steady_basic(1)]
  show ?thesis unfolding create_command_def numeral_2_eq_2
    by (auto intro!: guarded_then guarded_existing steady_basic steady_find a c
        guarded_steady [OF steady_basic(1)] guarded_steady [OF steady_basic(2)] split: option.split)
qed

lemma wallet_address_readable: "config_readable m \<Longrightarrow> \<exists>r. wallet_address m = (r, m)"
  by (simp add: wallet_address_def step_then_def split: option.splits)

text \<open>
  C29: A wallet that is set up, even half -- its key or its address is in the configuration -- is not replaced by
  anything the assistant or \<open>erpc wallet create\<close> does to set one up: no setting changes, whatever 1Password answers
  and the person says, unless the configuration could not be read at least twice on the way, a configuration that
  cannot be read being taken for one without settings. One process sets up at a time.
\<close>

theorem a_wallet_is_replaced_only_unread:
  assumes "set_up m"
  shows "(wm_config (snd (create_credit_wallet env supported confirm input m)) = wm_config m \<or>
      2 \<le> failed_reads m (snd (create_credit_wallet env supported confirm input m))) \<and>
    (wm_config (snd (create_command env vault allow_ai m)) = wm_config m \<or>
      2 \<le> failed_reads m (snd (create_command env vault allow_ai m)))"
  using guarded_assistant [of env supported confirm input] guarded_command [of env vault allow_ai] assms
  by (fastforce simp: guarded_def failed_reads_def)

subsection \<open>The key behind the gate\<close>

lemma from_env_service_account:
  assumes "(''OP_SERVICE_ACCOUNT_TOKEN'', v) \<in> set vars" and "v \<noteq> []"
  shows "service_account (from_env tty node vars)"
  unfolding from_env_def
  by (rule foldl_sticky [where nv = "(''OP_SERVICE_ACCOUNT_TOKEN'', v)"])
    (use assms in \<open>auto simp: read_var_def Let_def\<close>)

lemma wallet_gate_Ok:
  assumes "wallet_gate env allow_ai m = (Ok u, m')"
  shows "allow_ai \<and> we_tty env \<and> (\<forall>v. (''OP_SERVICE_ACCOUNT_TOKEN'', v) \<in> set (we_vars env) \<longrightarrow> v = []) \<and> m' = m"
proof -
  let ?ctx = "(from_env (we_tty env) False (we_vars env))\<lparr>ai_tool_path := True\<rparr>"
  from assms have "\<not> service_account ?ctx \<and> allow_ai \<and> has_tty ?ctx \<and> m' = m"
    by (auto simp: wallet_gate_def human_wallet_def split: if_splits)
  then show ?thesis using from_env_service_account [of _ "we_vars env"] by fastforce
qed

lemma op_run_Ok:
  "op_run env args stdin what m = (Ok out, m') \<longleftrightarrow>
     we_op env (wm_op_log m) (args, stdin) = OpRan True out \<and> m' = m\<lparr>wm_op_log := wm_op_log m @ [(args, stdin)]\<rparr>"
  by (auto simp: op_run_def Let_def split: op_answer.splits bool.splits)

lemma op_runner_Ok [simp]: "op_runner env m = (Ok u, m') \<longleftrightarrow> we_op_found env \<and> m' = m"
  by (auto simp: op_runner_def)

lemma readable_log [simp]: "config_readable (m\<lparr>wm_op_log := l\<rparr>) = config_readable m"
  by (simp add: config_readable_def)

lemma wallet_address_Ok:
  "config_readable m \<Longrightarrow> wallet_address m = (Ok a, m') \<longleftrightarrow>
     hm_get (wm_config m) ''credit_wallet'' \<noteq> None \<and>
     (\<exists>t. hm_get (wm_config m) ''credit_wallet_address'' = Some t \<and> address_parse t = Ok a) \<and> m' = m"
  by (auto simp: wallet_address_def step_then_def split: option.splits)

text \<open>
  C21: A key that is handed out to sign was read behind the gate and is the wallet's: the wallet is marked for
  the assistant, a terminal is attached, no 1Password service account is in the environment, 1Password was
  asked for the configured reference and nothing else, and the key's address is the configured one.
\<close>

theorem the_key_is_the_wallets:
  assumes "config_readable m" and "wallet_key env m = (Ok key, m')"
  shows "\<exists>reference out t.
    hm_get (wm_config m) ''credit_wallet'' = Some reference \<and> hm_get (wm_config m) ''credit_wallet_ai'' = Some ''on'' \<and>
    we_tty env \<and> (\<forall>v. (''OP_SERVICE_ACCOUNT_TOKEN'', v) \<in> set (we_vars env) \<longrightarrow> v = []) \<and>
    we_op env (wm_op_log m) ([''read'', ''--no-newline'', reference], None) = OpRan True out \<and> we_key_of env out = Ok key \<and>
    hm_get (wm_config m) ''credit_wallet_address'' = Some t \<and> address_parse t = Ok (sg_address key) \<and>
    m' = m\<lparr>wm_op_log := wm_op_log m @ [([''read'', ''--no-newline'', reference], None)]\<rparr>"
proof -
  let ?set = "hm_get (wm_config m)"
  from assms obtain reference where r: "?set ''credit_wallet'' = Some reference"
    by (auto simp: wallet_key_def step_then_Ok split: option.splits)
  with assms obtain u m1 out k m2 configured where
    gate: "wallet_gate env (?set ''credit_wallet_ai'' = Some ''on'') m = (Ok u, m1)" and
    op: "op_run env [''read'', ''--no-newline'', reference] None ''give the wallet key'' m1 = (Ok out, m2)" and
    k: "we_key_of env out = Ok k" "wallet_address m2 = (Ok configured, m')" "sg_address k = configured" "key = k"
    by (auto simp: wallet_key_def step_then_Ok split: if_splits)
  from wallet_gate_Ok [OF gate] have g: "?set ''credit_wallet_ai'' = Some ''on''" "we_tty env"
      "\<forall>v. (''OP_SERVICE_ACCOUNT_TOKEN'', v) \<in> set (we_vars env) \<longrightarrow> v = []" "m1 = m" by auto
  with op have m2: "we_op env (wm_op_log m) ([''read'', ''--no-newline'', reference], None) = OpRan True out"
      "m2 = m\<lparr>wm_op_log := wm_op_log m @ [([''read'', ''--no-newline'', reference], None)]\<rparr>" by (simp_all add: op_run_Ok)
  with assms(1) k(2) obtain t where "?set ''credit_wallet_address'' = Some t" "address_parse t = Ok configured" "m' = m2"
    by (auto simp: wallet_address_Ok)
  with r g m2 k show ?thesis by auto
qed

subsection \<open>What is set up is what is used\<close>

lemma upper_hex: "n < 16 \<Longrightarrow> is_hexdigit (to_ascii_upper (hex_digit n)) \<and> hex_value (to_ascii_upper (hex_digit n)) = n"
  by (auto simp: to_ascii_upper_def hex_digit_def hex_value_def is_hexdigit_def is_digit_def byte_of_def)

lemma hex_bytes_cong: "list_all2 (\<lambda>c d. hex_value c = hex_value d) s t \<Longrightarrow> hex_bytes s = hex_bytes t"
proof (induction s arbitrary: t rule: hex_bytes.induct)
  case (1 c d s)
  then show ?case by (auto simp: list_all2_Cons1)
qed (auto simp: list_all2_Cons1)

lemma address_parse_checksummed: "length a = 20 \<Longrightarrow> address_parse (checksummed keccak a) = Ok a"
proof -
  assume n: "length a = 20"
  define lower where "lower = concat (map (\<lambda>x. [hex_digit (unat (x :: byte) div 16), hex_digit (unat x mod 16)]) a)"
  define up where "up = (\<lambda>(i, c). let nibble = (if even i then unat (keccak (str_bytes lower) ! (i div 2)) div 16
      else unat (keccak (str_bytes lower) ! (i div 2)) mod 16) in if nibble \<ge> 8 then to_ascii_upper c else c)"
  have shown: "checksummed keccak a = ''0x'' @ map up (List.enumerate 0 lower)"
  proof -
    have "drop 2 (hex a) = lower" by (simp add: hex_def lower_def)
    then show ?thesis by (simp add: checksummed_def up_def Let_def)
  qed
  have len: "length lower = 40" using n unfolding lower_def by (subst length_concat) (simp add: comp_def sum_list_triv)
  have dig: "\<exists>k<16. c = hex_digit k" if "c \<in> set lower" for c
  proof -
    from that obtain x where "c = hex_digit (unat (x :: byte) div 16) \<or> c = hex_digit (unat x mod 16)" by (auto simp: lower_def)
    then show ?thesis using unat_byte_less [of x] by blast
  qed
  have ok: "is_hexdigit (up (i, c)) \<and> hex_value (up (i, c)) = hex_value c" if "c \<in> set lower" for i c
    using dig [OF that] upper_hex hex_digit_ok by (auto simp: up_def Let_def)
  have "list_all2 (\<lambda>c d. hex_value c = hex_value d) (map up (List.enumerate 0 lower)) lower"
    unfolding list_all2_conv_all_nth by (auto simp: nth_enumerate_eq ok)
  then have "hex_bytes (map up (List.enumerate 0 lower)) = hex_bytes lower" by (rule hex_bytes_cong)
  also have "\<dots> = a" unfolding lower_def by (rule hex_bytes_hex)
  finally have "from_hex 20 (map up (List.enumerate 0 lower)) = Some a"
    using ok len by (auto simp: from_hex_def list_all_iff in_set_enumerate_eq)
  then show ?thesis by (simp add: address_parse_def shown)
qed

lemma config_set_Ok:
  assumes "config_readable m" and "config_set env key v m = (Ok u, m')"
  shows "config_readable m' \<and> wm_config m' = hm_insert key v (wm_config m) \<and> wm_op_log m' = wm_op_log m"
proof -
  have "v' = v" if "checked (we_key_file env) key v = Ok v'" for v'
    using that by (auto simp: checked_def Let_def split: if_splits option.splits)
  with assms show ?thesis
    by (auto simp: config_set_def read_config_def pop_def config_readable_def split: sum.splits list.splits bool.splits prod.splits)
qed

lemma point_config_Ok:
  assumes r: "config_readable m" and p: "point_config env reference a ai m = (Ok u, m')"
  shows "config_readable m' \<and> wm_op_log m' = wm_op_log m \<and> hm_get (wm_config m') ''credit_wallet'' = Some reference \<and>
    hm_get (wm_config m') ''credit_wallet_address'' = Some (checksummed (we_keccak env) a) \<and>
    hm_get (wm_config m') ''credit_wallet_ai'' = Some (if ai then ''on'' else ''off'')"
proof -
  let ?ai = "if ai then ''on'' else ''off''"
  from p obtain m1 m2 where s: "config_set env ''credit_wallet'' reference m = (Ok (), m1)"
      "config_set env ''credit_wallet_address'' (checksummed (we_keccak env) a) m1 = (Ok (), m2)"
      "config_set env ''credit_wallet_ai'' ?ai m2 = (Ok (), m')"
    by (auto simp: point_config_def step_then_Ok simp del: if_split)
  from config_set_Ok [OF r s(1)] have m1: "config_readable m1" "wm_config m1 = hm_insert ''credit_wallet'' reference (wm_config m)"
    "wm_op_log m1 = wm_op_log m" by auto
  from config_set_Ok [OF m1(1) s(2)] have m2: "config_readable m2"
    "wm_config m2 = hm_insert ''credit_wallet_address'' (checksummed (we_keccak env) a) (wm_config m1)" "wm_op_log m2 = wm_op_log m1" by auto
  from config_set_Ok [OF m2(1) s(3)] m1 m2 show ?thesis by simp
qed

lemma op_steps_readable:
  "config_readable m \<Longrightarrow> op_run env args stdin what m = (r, m') \<Longrightarrow> config_readable m' \<and> wm_config m' = wm_config m"
  by (auto simp: op_run_def Let_def split: op_answer.splits bool.splits)

lemma store_wallet_Ok:
  assumes "config_readable m" and "store_wallet env vault m = (Ok (reference, a), m')"
  shows "config_readable m' \<and> wm_config m' = wm_config m \<and>
    (\<exists>secret key log out back. we_new_key env = Ok (secret, key) \<and> sg_address key = a \<and>
       we_op env log ([''read'', ''--no-newline'', reference], None) = OpRan True out \<and> we_key_of env out = Ok back \<and> sg_address back = a)"
  using assms
  by (auto simp: store_wallet_def vault_id_def step_then_Ok parse_or_def parse_list_def op_run_Ok Let_def
      split: option.splits if_splits sum.splits)

lemma read_found_some: "read_found env item n m \<noteq> (Ok None, m1)"
  by (auto simp: read_found_def Let_def step_then_Ok)

lemma find_wallet_None: "config_readable m \<Longrightarrow> find_wallet env m = (Ok None, m1) \<Longrightarrow> config_readable m1"
  by (auto simp: find_wallet_def step_then_Ok parse_list_def op_run_Ok read_found_some neq_Nil_conv split: list.splits)

text \<open>
  A new wallet is one that works: it is made only when none is configured and 1Password lists none, its
  configured reference gave back, before the configuration named it, a key of that address, and the next use
  finds that address.
\<close>

theorem a_new_wallet_can_pay:
  assumes "config_readable m" and made: "create_wallet env v ai m = (Ok a, m')"
    and len: "\<And>secret key. we_new_key env = Ok (secret, key) \<Longrightarrow> length (sg_address key) = 20"
  shows "\<not> set_up m \<and> (\<exists>m1. find_wallet env m = (Ok None, m1)) \<and> wallet_address m' = (Ok a, m') \<and>
    (\<exists>reference log out key. hm_get (wm_config m') ''credit_wallet'' = Some reference \<and>
       we_op env log ([''read'', ''--no-newline'', reference], None) = OpRan True out \<and> we_key_of env out = Ok key \<and>
       sg_address key = a)"
proof -
  have none: "existing m = (Ok None, m)"
    using made existing_readable [OF assms(1)] by (auto simp: create_wallet_def step_then_Ok split: option.splits)
  with made obtain m1 reference m2 where s: "find_wallet env m = (Ok None, m1)" "store_wallet env v m1 = (Ok (reference, a), m2)"
      "point_config env reference a ai m2 = (Ok (), m')"
    by (auto simp: create_wallet_def step_then_Ok split: if_splits option.splits)
  have m1: "config_readable m1" using find_wallet_None [OF assms(1) s(1)] .
  from store_wallet_Ok [OF m1 s(2)] obtain secret key log out again where
    st: "config_readable m2" "we_new_key env = Ok (secret, key)" "sg_address key = a"
      "we_op env log ([''read'', ''--no-newline'', reference], None) = OpRan True out" "we_key_of env out = Ok again" "sg_address again = a"
    by blast
  from point_config_Ok [OF st(1) s(3)] have p: "config_readable m'" "hm_get (wm_config m') ''credit_wallet'' = Some reference"
      "hm_get (wm_config m') ''credit_wallet_address'' = Some (checksummed (we_keccak env) a)" by auto
  have "length a = 20" using len [OF st(2)] st(3) by simp
  then have "wallet_address m' = (Ok a, m')" using p address_parse_checksummed by (simp add: wallet_address_Ok)
  moreover have "\<not> set_up m" using none existing_set_up [OF assms(1)] by auto
  ultimately show ?thesis using s(1) p(2) st(4-6) by blast
qed

subsection \<open>A wallet made and used\<close>

definition sample_wallet_key :: signer where
  "sample_wallet_key = \<lparr>sg_address = replicate 20 5, sg_sign = Ok\<rparr>"

definition sample_op_text :: "string \<Rightarrow> json option" where
  "sample_op_text out =
     (if out = ''list'' then Some (JArr [])
      else if out = ''get'' then Some (JObj [(''id'', JStr ''aaaaaaaaaaaaaaaaaaaaaaaaaa'')])
      else if out = ''create'' then Some (JObj [(''id'', JStr ''bbbbbbbbbbbbbbbbbbbbbbbbbb'')])
      else None)"

definition sample_wallet_env :: wallet_env where
  "sample_wallet_env =
     \<lparr>we_op = (\<lambda>log call. OpRan True (fst call ! 1)), we_op_found = True, we_parse = sample_op_text, we_keccak = (\<lambda>b. replicate 32 0),
      we_key_of = (\<lambda>t. Ok sample_wallet_key), we_new_key = Ok (''s'', sample_wallet_key), we_vars = [], we_tty = True,
      we_key_file = (\<lambda>p. False), we_unicode_alphanumeric = (\<lambda>v. True)\<rparr>"

definition sample_wallet_machine :: "(string \<times> string) list \<Rightarrow> wallet_machine" where
  "sample_wallet_machine c = \<lparr>wm_config = c, wm_read_faults = [], wm_write_faults = [], wm_op_log = []\<rparr>"

lemma sample_wallet_facts [simp]:
  "we_op sample_wallet_env l c = OpRan True (fst c ! 1)" "we_op_found sample_wallet_env" "we_parse sample_wallet_env = sample_op_text"
  "we_key_of sample_wallet_env x = Ok sample_wallet_key" "we_new_key sample_wallet_env = Ok (''s'', sample_wallet_key)"
  "we_vars sample_wallet_env = []" "we_tty sample_wallet_env" "we_unicode_alphanumeric sample_wallet_env v"
  by (simp_all add: sample_wallet_env_def)

lemma sample_readable [simp]: "config_readable (sample_wallet_machine c)" "wm_config (sample_wallet_machine c) = c"
  by (simp_all add: config_readable_def sample_wallet_machine_def)

lemma a_wallet_is_replaced_only_unread_witness:
  "wm_config (snd (create_credit_wallet sample_wallet_env True (Some (\<lambda>q. True)) JNull
     (sample_wallet_machine [(''credit_wallet_address'', ''0x'')]))) = [(''credit_wallet_address'', ''0x'')]"
  using a_wallet_is_replaced_only_unread [of "sample_wallet_machine [(''credit_wallet_address'', ''0x'')]" sample_wallet_env True
      "Some (\<lambda>q. True)" JNull None True]
  by (simp add: set_up_def hm_get_def failed_reads_def failing_def sample_wallet_machine_def)

lemma checksummed_ok: "length a = 20 \<Longrightarrow> checked f ''credit_wallet_address'' (checksummed k a) = Ok (checksummed k a)"
  by (simp add: checked_def address_parse_checksummed)

lemma sample_wallet_made: "\<exists>m'. create_wallet sample_wallet_env ''v'' True (sample_wallet_machine []) = (Ok (replicate 20 5), m')"
proof -
  let ?r = "key_reference ''aaaaaaaaaaaaaaaaaaaaaaaaaa'' ''bbbbbbbbbbbbbbbbbbbbbbbbbb''"
  have "op_ref_parse ?r = Ok \<lparr>or_vault = ''aaaaaaaaaaaaaaaaaaaaaaaaaa'', or_item = ''bbbbbbbbbbbbbbbbbbbbbbbbbb'', or_field = ''private_key''\<rparr>"
    by code_simp
  then have r: "checked f ''credit_wallet'' ?r = Ok ?r" for f by (simp add: checked_def)
  have ai: "checked f ''credit_wallet_ai'' ''on'' = Ok ''on''" for f by (simp add: checked_def)
  have point: "\<exists>m'. point_config sample_wallet_env ?r (replicate 20 5) True m = (Ok (), m')"
    if "wm_read_faults m = []" "wm_write_faults m = []" for m
    using that r ai checksummed_ok [of "replicate 20 5"]
    by (simp add: point_config_def step_then_def config_set_def read_config_def pop_def)
  have "length ''aaaaaaaaaaaaaaaaaaaaaaaaaa'' = 26" "list_all is_lower_or_number ''aaaaaaaaaaaaaaaaaaaaaaaaaa''"
    by (simp_all add: is_lower_or_number_def byte_of_def)
  then have "\<exists>m'. store_wallet sample_wallet_env ''v'' m = (Ok (?r, replicate 20 5), m') \<and> wm_read_faults m' = wm_read_faults m \<and>
      wm_write_faults m' = wm_write_faults m" for m
    by (simp add: store_wallet_def vault_id_def step_then_def op_run_def parse_or_def parse_list_def
        sample_op_text_def text_at_def str_at_def str_or_def hm_get_def sample_wallet_key_def Let_def del: list.size)
  note store = this
  have "\<exists>n. find_wallet sample_wallet_env (sample_wallet_machine []) = (Ok None, n) \<and> wm_read_faults n = [] \<and> wm_write_faults n = []"
    by (simp add: find_wallet_def step_then_def op_run_def parse_list_def sample_op_text_def usable_items_def sample_wallet_machine_def
        Let_def)
  then obtain n where "find_wallet sample_wallet_env (sample_wallet_machine []) = (Ok None, n)" "wm_read_faults n = []"
    "wm_write_faults n = []" by blast
  moreover from store [of n] calculation obtain m' where
    "store_wallet sample_wallet_env ''v'' n = (Ok (?r, replicate 20 5), m')" "wm_read_faults m' = []" "wm_write_faults m' = []" by auto
  moreover have "is_vault_text sample_wallet_env ''v''"
    by (simp add: is_vault_text_def starts_with_def is_ascii_alphanumeric_def byte_of_def)
  moreover have "existing (sample_wallet_machine []) = (Ok None, sample_wallet_machine [])" by (simp add: existing_readable)
  ultimately show ?thesis using point [of m'] by (auto simp: create_wallet_def step_then_def op_runner_def)
qed

lemma a_new_wallet_can_pay_witness:
  "\<exists>m'. wallet_address (snd (create_wallet sample_wallet_env ''v'' True (sample_wallet_machine []))) = (Ok (replicate 20 5), m')"
proof -
  obtain m' where run: "create_wallet sample_wallet_env ''v'' True (sample_wallet_machine []) = (Ok (replicate 20 5), m')"
    using sample_wallet_made by blast
  have "length (sg_address key) = 20" if "we_new_key sample_wallet_env = Ok (secret, key)" for secret key
    using that by (auto simp: sample_wallet_key_def)
  from a_new_wallet_can_pay [OF sample_readable(1) run this] run show ?thesis by auto
qed

lemma the_key_is_the_wallets_witness:
  "\<exists>key. fst (wallet_key sample_wallet_env (sample_wallet_machine
     [(''credit_wallet'', ''op://a/b/c''), (''credit_wallet_ai'', ''on''), (''credit_wallet_address'', hex (replicate 20 5))])) = Ok key \<and>
     sg_address key = replicate 20 5"
proof -
  let ?m = "sample_wallet_machine
     [(''credit_wallet'', ''op://a/b/c''), (''credit_wallet_ai'', ''on''), (''credit_wallet_address'', hex (replicate 20 5))]"
  have addr: "wallet_address (?m\<lparr>wm_op_log := l\<rparr>) = (Ok (replicate 20 5), ?m\<lparr>wm_op_log := l\<rparr>)" for l
    by (simp add: wallet_address_Ok hm_get_def)
  have log: "wm_op_log ?m = []" by (simp add: sample_wallet_machine_def)
  have gate: "wallet_gate sample_wallet_env True ?m = (Ok (), ?m)"
    by (simp add: wallet_gate_def human_wallet_def from_env_def context_empty_def)
  have "\<exists>key m'. wallet_key sample_wallet_env ?m = (Ok key, m')"
    by (simp add: wallet_key_def step_then_def hm_get_def gate op_runner_def op_run_def Let_def log addr sample_wallet_key_def)
  then obtain key m' where run: "wallet_key sample_wallet_env ?m = (Ok key, m')" by blast
  from the_key_is_the_wallets [OF sample_readable(1) run] run show ?thesis by (auto simp: hm_get_def)
qed

end
