(* ===== verification/Worker_Server.thy ===== *)
theory Worker_Server
  imports Json Texts
begin

text \<open>
  What erpc and its agent agree on about a server: names and paths of a worker, release ids and paths inside
  a release, backup credentials, and the firewall's table. \<open>server.rs\<close>, \<open>release.rs\<close>, \<open>is_host\<close> of \<open>net.rs\<close>
  and \<open>is_slug\<close> of \<open>manifest.rs\<close>. An address of a firewall entry is its text and whether it is IPv4.
\<close>

subsection \<open>Names\<close>

definition is_slug :: "string \<Rightarrow> nat \<Rightarrow> bool" where
  "is_slug s most =
     (s \<noteq> [] \<and> length s \<le> most \<and> is_lower (hd s) \<and> \<not> ends_in s ''-'' \<and> \<not> has_text ''--'' s \<and>
      list_all (\<lambda>b. is_lower b \<or> is_digit b \<or> b = CHR ''-'') s)"

definition is_unit_id :: "string \<Rightarrow> bool" where "is_unit_id i = is_slug i 49"

definition worker_base :: string where "worker_base = ''/opt/erpc/workers''"
definition worker_dir_of :: "string \<Rightarrow> string" where "worker_dir_of i = path_join worker_base i"
definition unit_name :: "string \<Rightarrow> string" where "unit_name i = ''erpc-worker-'' @ i @ ''.service''"
definition socket_path :: "string \<Rightarrow> string" where "socket_path i = ''/run/erpc-worker-'' @ i @ ''/agent.sock''"
definition state_dir_of :: "string \<Rightarrow> string" where "state_dir_of i = ''/var/lib/erpc-worker-'' @ i"

definition is_host_label :: "string \<Rightarrow> bool" where
  "is_host_label l =
     (l \<noteq> [] \<and> length l \<le> 63 \<and> \<not> starts_with l ''-'' \<and> \<not> ends_in l ''-'' \<and>
      list_all (\<lambda>b. is_ascii_alphanumeric b \<or> b = CHR ''-'') l)"

definition is_host :: "(string \<Rightarrow> bool) \<Rightarrow> string \<Rightarrow> bool" where
  "is_host is_ip_addr host =
     (is_ip_addr host \<or>
      host \<noteq> [] \<and> length host \<le> 253 \<and> \<not> starts_with host ''-'' \<and> list_all is_host_label (split_on (CHR ''.'') host))"

subsection \<open>Releases\<close>

definition release_id_of :: "string \<Rightarrow> string \<Rightarrow> string" where
  "release_id_of built_at sha256 = filter (\<lambda>c. c \<noteq> CHR ''-'' \<and> c \<noteq> CHR '':'') built_at @ ''-'' @ take 8 sha256"

definition is_inside :: "string \<Rightarrow> bool" where
  "is_inside path =
     (path \<noteq> [] \<and> CHR 0x5C \<notin> set path \<and> CHR 0x00 \<notin> set path \<and>
      list_all (\<lambda>p. p \<noteq> [] \<and> p \<noteq> ''.'' \<and> p \<noteq> ''..'') (split_on (CHR ''/'') path))"

definition is_lower_hex :: "char \<Rightarrow> bool" where
  "is_lower_hex c = (is_digit c \<or> 97 \<le> byte_of c \<and> byte_of c \<le> 102)"

definition is_release_id :: "string \<Rightarrow> bool" where
  "is_release_id t =
     (case split_once (CHR ''-'') t of
        None \<Rightarrow> False
      | Some (time, digest) \<Rightarrow>
         length time = 16 \<and> list_all is_digit (take 8 time) \<and> time ! 8 = CHR ''T'' \<and>
         list_all is_digit (take 6 (drop 9 time)) \<and> time ! 15 = CHR ''Z'' \<and>
         length digest = 8 \<and> list_all is_lower_hex digest)"

record shipped =
  sh_path :: string
  sh_sha256 :: string

record release =
  rl_format :: u32
  rl_id :: string
  rl_bin :: string
  rl_sha256 :: string
  rl_files :: "shipped list"

datatype release_error = NotARelease | OtherFormat u32 | BadReleaseId string | BadBinary string | BadShippedPath string

definition release_format :: u32 where "release_format = 1"

text \<open>serde's reading of the record is a parameter; fields that are only shown are left out.\<close>

definition release_parse :: "(string \<Rightarrow> release option) \<Rightarrow> string \<Rightarrow> release_error + release" where
  "release_parse read text_of =
     (case read text_of of
        None \<Rightarrow> Err NotARelease
      | Some r \<Rightarrow>
         (if rl_format r \<noteq> release_format then Err (OtherFormat (rl_format r))
          else if \<not> is_release_id (rl_id r) then Err (BadReleaseId (rl_id r))
          else if \<not> is_inside (rl_bin r) \<or> CHR ''/'' \<in> set (rl_bin r) then Err (BadBinary (rl_bin r))
          else case find (\<lambda>f. \<not> is_inside (sh_path f)) (rl_files r) of
            Some f \<Rightarrow> Err (BadShippedPath (sh_path f))
          | None \<Rightarrow> Ok r))"

record launch =
  la_format :: u32
  la_bin :: string
  la_args :: "string list"
  la_vars :: "(string \<times> string) list"
  la_secrets :: "string list"
  la_pubkey :: "string option"
  la_http :: "string option"
  la_timeout_secs :: u32
  la_keep_releases :: nat

definition launch_format :: u32 where "launch_format = 1"

definition launch_parse :: "(string \<Rightarrow> launch option) \<Rightarrow> string \<Rightarrow> release_error + launch" where
  "launch_parse read text_of =
     (case read text_of of
        None \<Rightarrow> Err NotARelease
      | Some l \<Rightarrow>
         (if la_format l \<noteq> launch_format then Err (OtherFormat (la_format l))
          else if \<not> is_inside (la_bin l) \<or> CHR ''/'' \<in> set (la_bin l) then Err (BadBinary (la_bin l))
          else Ok l))"

subsection \<open>Backups\<close>

definition backup_repository :: string where
  "backup_repository = ''rest:https://user-api.erpc.global/v3/storage/restic''"

definition backup_keys :: "string list" where
  "backup_keys =
     [''RESTIC_REPOSITORY'', ''RESTIC_REST_USERNAME'', ''RESTIC_REST_PASSWORD'', ''RESTIC_PASSWORD'', ''RESTIC_HOST'']"

definition backup_service_name :: "string \<Rightarrow> string" where "backup_service_name i = ''erpc-backup-'' @ i @ ''.service''"
definition backup_timer_name :: "string \<Rightarrow> string" where "backup_timer_name i = ''erpc-backup-'' @ i @ ''.timer''"
definition backup_env_path :: "string \<Rightarrow> string" where "backup_env_path i = ''/etc/erpc/backup/'' @ i @ ''.env''"
definition backup_source :: "string \<Rightarrow> string" where "backup_source i = ''/var/lib/private/erpc-worker-'' @ i"

definition backup_host :: "string \<Rightarrow> string \<Rightarrow> string" where
  "backup_host i tag = ''erpc-worker-'' @ i @ ''-'' @ tag"

definition is_backup_host :: "string \<Rightarrow> string \<Rightarrow> bool" where
  "is_backup_host i name =
     (case Option.bind (Option.bind (strip_prefix ''erpc-worker-'' name) (strip_prefix i)) (strip_prefix ''-'') of
        None \<Rightarrow> False
      | Some tag \<Rightarrow> length tag = 8 \<and> list_all is_lower_hex tag)"

definition time_of_day :: "string \<Rightarrow> (nat \<times> nat) option" where
  "time_of_day t =
     (case split_once (CHR '':'') t of
        None \<Rightarrow> None
      | Some (h, m) \<Rightarrow>
         (if length h \<noteq> 2 \<or> length m \<noteq> 2 then None
          else case (parse_upto 255 h, parse_upto 255 m) of
            (Some h, Some m) \<Rightarrow> (if h < 24 \<and> m < 60 then Some (h, m) else None)
          | _ \<Rightarrow> None))"

definition is_plain_value :: "string \<Rightarrow> bool" where
  "is_plain_value v =
     (v \<noteq> [] \<and> list_all (\<lambda>b. is_ascii_alphanumeric b \<or> b \<in> {CHR ''_'', CHR ''-'', CHR ''.'', CHR '':'', CHR ''/''}) v)"

definition backup_line_ok :: "string \<Rightarrow> string list \<Rightarrow> string \<Rightarrow> string list option" where
  "backup_line_ok i seen l =
     (case split_once (CHR ''='') l of
        None \<Rightarrow> None
      | Some (k, v) \<Rightarrow>
         (if k \<notin> set backup_keys \<or> k \<in> set seen \<or> \<not> is_plain_value v \<or> k = ''RESTIC_REPOSITORY'' \<and> v \<noteq> backup_repository \<or>
             k = ''RESTIC_HOST'' \<and> \<not> is_backup_host i v then None
          else Some (k # seen)))"

fun backup_lines_ok :: "string \<Rightarrow> string list \<Rightarrow> string list \<Rightarrow> bool" where
  "backup_lines_ok i seen [] = list_all (\<lambda>k. k \<in> set seen) backup_keys"
| "backup_lines_ok i seen (l # ls) =
     (case backup_line_ok i seen l of None \<Rightarrow> False | Some seen' \<Rightarrow> backup_lines_ok i seen' ls)"

definition backup_env_ok :: "string \<Rightarrow> string \<Rightarrow> bool" where
  "backup_env_ok i t = (CHR 0x0D \<notin> set t \<and> backup_lines_ok i [] (text_lines t))"

subsection \<open>The firewall's table\<close>

record port_opening =
  og_port :: nat
  og_allow :: "(bool \<times> string) list"



definition opening_lines :: "string \<Rightarrow> port_opening \<Rightarrow> string list" where
  "opening_lines i og =
     (''    # worker '' @ i) #
     concat (map (\<lambda>(family, v4).
         let given = map snd (filter (\<lambda>a. fst a = v4) (og_allow og))
         in if given = [] then []
            else [''    tcp dport '' @ show_nat (og_port og) @ '' '' @ family @ '' saddr { '' @ join_with '', '' given @ '' } accept''])
       [(''ip'', True), (''ip6'', False)])"

definition fixed_lines :: "string list" where
  "fixed_lines =
     [''table inet erpc_worker'', ''delete table inet erpc_worker'', ''table inet erpc_worker {'', ''  chain input {'',
      ''    type filter hook input priority filter; policy drop;'', ''    iif '' @ [CHR 0x22] @ ''lo'' @ [CHR 0x22] @ '' accept'',
      ''    ct state established,related accept'', ''    ct state invalid drop'', ''    meta l4proto icmp accept'',
      ''    meta l4proto ipv6-icmp accept'', ''    udp sport 67 udp dport 68 accept'', ''    udp sport 547 udp dport 546 accept'']"

definition ssh_line :: "nat \<Rightarrow> string" where "ssh_line p = ''    tcp dport '' @ show_nat p @ '' accept''"

definition firewall_table :: "nat \<Rightarrow> (string \<times> port_opening) list \<Rightarrow> string" where
  "firewall_table ssh_port ogs =
     concat (map (\<lambda>l. l @ new_line)
       (fixed_lines @ [ssh_line ssh_port] @ concat (map (\<lambda>(i, og). opening_lines i og) ogs) @ [''  }'', ''}'']))"

text \<open>\<open>trim\<close> of ASCII white space.\<close>

definition u16_max :: nat where "u16_max = 65535"

definition ssh_port_in :: "string \<Rightarrow> nat option" where
  "ssh_port_in l = Option.bind (Option.bind (strip_prefix ''tcp dport '' (trim l)) (strip_suffix '' accept'')) (parse_upto u16_max)"

definition ssh_port_of :: "string \<Rightarrow> nat option" where "ssh_port_of t = first_some ssh_port_in (text_lines t)"

subsection \<open>Lemmas\<close>

lemma fixed_lines_plain: "list_all (\<lambda>l. CHR 0x0A \<notin> set l \<and> CHR 0x0D \<notin> set l) fixed_lines"
  by (simp add: fixed_lines_def)

lemma fixed_lines_no_port: "first_some ssh_port_in fixed_lines = None"
  by code_simp

lemma digit_not_space: "is_digit c \<Longrightarrow> \<not> is_space c"
  by (auto simp: is_digit_def is_space_def)

lemma show_nat_plain: "CHR 0x0A \<notin> set (show_nat n)" "CHR 0x0D \<notin> set (show_nat n)"
  using all_digits_show_nat [of n] by (auto simp: list_all_iff is_digit_def byte_of_def)

lemma ssh_line_reads_back: "p \<le> u16_max \<Longrightarrow> ssh_port_in (ssh_line p) = Some p"
proof -
  assume p: "p \<le> u16_max"
  have "trim (ssh_line p) = ''tcp dport '' @ show_nat p @ '' accept''"
    by (simp add: trim_def ssh_line_def is_space_def byte_of_def)
  then show ?thesis using p parse_show_nat by (simp add: ssh_port_in_def strip_suffix_def ends_in_def)
qed

text \<open>
  The SSH port survives a removal: the port that closing a worker's opening reads back from the table in
  force is the one the table was made with, whatever openings it holds, so the table made anew lets SSH in.
\<close>

theorem the_ssh_port_reads_back:
  assumes "p \<le> u16_max"
  shows "ssh_port_of (firewall_table p ogs) = Some p"
proof -
  define rest where "rest = concat (map (\<lambda>l. l @ new_line) (concat (map (\<lambda>(i, og). opening_lines i og) ogs) @ [''  }'', ''}'']))"
  have table: "firewall_table p ogs = concat (map (\<lambda>l. l @ new_line) (fixed_lines @ [ssh_line p])) @ rest"
    by (simp add: firewall_table_def rest_def)
  have "list_all (\<lambda>l. CHR 0x0A \<notin> set l \<and> CHR 0x0D \<notin> set l) (fixed_lines @ [ssh_line p])"
    using fixed_lines_plain show_nat_plain [of p] by (simp add: ssh_line_def)
  then have "text_lines (firewall_table p ogs) = (fixed_lines @ [ssh_line p]) @ text_lines rest"
    unfolding table by (rule text_lines_prefix)
  then show ?thesis by (simp add: ssh_port_of_def first_some_append fixed_lines_no_port ssh_line_reads_back [OF assms])
qed

lemma the_ssh_port_reads_back_witness:
  "ssh_port_of (firewall_table 22 [(''a-b'', \<lparr>og_port = 8080, og_allow = [(True, ''10.0.0.0/8'')]\<rparr>)]) = Some 22"
  by (rule the_ssh_port_reads_back) (simp add: u16_max_def)

subsection \<open>Backup credentials\<close>

lemma split_once_Some: "split_once c s = Some (a, b) \<longleftrightarrow> s = a @ c # b \<and> c \<notin> set a"
proof (induction s arbitrary: a)
  case (Cons d s)
  show ?case
  proof (cases "d = c")
    case True
    then show ?thesis by (cases a) auto
  next
    case False
    then show ?thesis by (cases a) (auto simp: Cons.IH)
  qed
qed simp

text \<open>A variable and its value as the credentials may hold it.\<close>

definition backup_value_ok :: "string \<Rightarrow> string \<times> string \<Rightarrow> bool" where
  "backup_value_ok i kv \<longleftrightarrow>
     fst kv \<in> set backup_keys \<and> is_plain_value (snd kv) \<and> (fst kv = ''RESTIC_REPOSITORY'' \<longrightarrow> snd kv = backup_repository) \<and>
     (fst kv = ''RESTIC_HOST'' \<longrightarrow> is_backup_host i (snd kv))"

definition env_line :: "string \<times> string \<Rightarrow> string" where "env_line kv = fst kv @ ''='' @ snd kv"

lemma backup_keys_no_equals: "k \<in> set backup_keys \<Longrightarrow> CHR ''='' \<notin> set k"
  by (auto simp: backup_keys_def)

lemma split_env_line: "fst kv \<in> set backup_keys \<Longrightarrow> split_once (CHR ''='') (env_line kv) = Some kv"
  using backup_keys_no_equals [of "fst kv"] split_once_Some [of "CHR ''=''" "env_line kv" "fst kv" "snd kv"] by (simp add: env_line_def)

lemma backup_line_ok_Some:
  "backup_line_ok i seen l = Some seen' \<longleftrightarrow>
     (\<exists>kv. l = env_line kv \<and> backup_value_ok i kv \<and> fst kv \<notin> set seen \<and> seen' = fst kv # seen)"
proof
  assume ok: "backup_line_ok i seen l = Some seen'"
  then obtain k v where sp: "split_once (CHR ''='') l = Some (k, v)" by (auto simp: backup_line_ok_def split: option.splits)
  then have "l = env_line (k, v)" by (simp add: split_once_Some env_line_def)
  moreover have "backup_value_ok i (k, v) \<and> k \<notin> set seen \<and> seen' = k # seen"
    using ok sp by (auto simp: backup_line_ok_def backup_value_ok_def split: if_splits)
  ultimately show "\<exists>kv. l = env_line kv \<and> backup_value_ok i kv \<and> fst kv \<notin> set seen \<and> seen' = fst kv # seen" by auto
next
  assume "\<exists>kv. l = env_line kv \<and> backup_value_ok i kv \<and> fst kv \<notin> set seen \<and> seen' = fst kv # seen"
  then obtain kv where kv: "l = env_line kv" "backup_value_ok i kv" "fst kv \<notin> set seen" "seen' = fst kv # seen" by blast
  then have "split_once (CHR ''='') l = Some kv" by (simp add: split_env_line backup_value_ok_def)
  with kv show "backup_line_ok i seen l = Some seen'"
    by (cases kv) (auto simp: backup_line_ok_def backup_value_ok_def)
qed

lemma backup_lines_exact:
  "backup_lines_ok i seen ls \<longleftrightarrow>
     (\<exists>kvs. ls = map env_line kvs \<and> list_all (backup_value_ok i) kvs \<and> distinct (map fst kvs) \<and> set seen \<inter> fst ` set kvs = {} \<and>
        set backup_keys \<subseteq> set seen \<union> fst ` set kvs)"
proof (induction ls arbitrary: seen)
  case Nil
  then show ?case by (auto simp: list_all_iff)
next
  case (Cons l ls)
  have step: "backup_lines_ok i seen (l # ls) \<longleftrightarrow>
      (\<exists>kv. l = env_line kv \<and> backup_value_ok i kv \<and> fst kv \<notin> set seen \<and> backup_lines_ok i (fst kv # seen) ls)"
  proof (cases "backup_line_ok i seen l")
    case None
    then have "\<not> (\<exists>kv. l = env_line kv \<and> backup_value_ok i kv \<and> fst kv \<notin> set seen)"
      using backup_line_ok_Some [of i seen l] by (metis option.distinct(1))
    with None show ?thesis by auto
  next
    case (Some seen')
    then obtain kv where kv: "l = env_line kv" "backup_value_ok i kv" "fst kv \<notin> set seen" "seen' = fst kv # seen"
      using backup_line_ok_Some by blast
    have "seen' = fst kv' # seen" if "l = env_line kv'" "backup_value_ok i kv'" "fst kv' \<notin> set seen" for kv'
    proof -
      have "backup_line_ok i seen l = Some (fst kv' # seen)" unfolding backup_line_ok_Some using that by blast
      with Some show ?thesis by simp
    qed
    note uniq = this
    have eq: "backup_lines_ok i seen (l # ls) = backup_lines_ok i seen' ls" by (simp add: Some)
    show ?thesis unfolding eq
    proof
      assume "backup_lines_ok i seen' ls"
      with kv show "\<exists>kv. l = env_line kv \<and> backup_value_ok i kv \<and> fst kv \<notin> set seen \<and> backup_lines_ok i (fst kv # seen) ls"
        by blast
    next
      assume "\<exists>kv. l = env_line kv \<and> backup_value_ok i kv \<and> fst kv \<notin> set seen \<and> backup_lines_ok i (fst kv # seen) ls"
      then obtain kv' where "l = env_line kv'" "backup_value_ok i kv'" "fst kv' \<notin> set seen" "backup_lines_ok i (fst kv' # seen) ls" by blast
      with uniq [of kv'] show "backup_lines_ok i seen' ls" by simp
    qed
  qed
  show ?case (is "_ \<longleftrightarrow> (\<exists>kvs. ?P kvs)")
  proof
    assume "backup_lines_ok i seen (l # ls)"
    then obtain kv kvs where "l = env_line kv" "backup_value_ok i kv" "fst kv \<notin> set seen" "ls = map env_line kvs"
        "list_all (backup_value_ok i) kvs" "distinct (map fst kvs)" "set (fst kv # seen) \<inter> fst ` set kvs = {}"
        "set backup_keys \<subseteq> set (fst kv # seen) \<union> fst ` set kvs"
      unfolding step Cons.IH by blast
    then have "?P (kv # kvs)" by auto
    then show "\<exists>kvs. ?P kvs" ..
  next
    assume "\<exists>kvs. ?P kvs"
    then obtain kv kvs where "?P (kv # kvs)" by (metis list.distinct(1) list.map_disc_iff neq_Nil_conv)
    then have "l = env_line kv \<and> backup_value_ok i kv \<and> fst kv \<notin> set seen \<and> backup_lines_ok i (fst kv # seen) ls"
      unfolding Cons.IH by auto
    then show "backup_lines_ok i seen (l # ls)" unfolding step by blast
  qed
qed

text \<open>
  Exactly erpc's own credentials become the environment of the backup that runs as root: a text is taken
  just when it has no carriage return and its lines set each of the five variables once, to plain values, the
  repository to ERPC's own and the host to a name of this very worker.
\<close>

theorem root_gets_only_these_variables:
  "backup_env_ok i t \<longleftrightarrow>
     CHR 0x0D \<notin> set t \<and>
     (\<exists>kvs. text_lines t = map env_line kvs \<and> set (map fst kvs) = set backup_keys \<and> distinct (map fst kvs) \<and>
        list_all (backup_value_ok i) kvs)"
  by (auto simp: backup_env_ok_def backup_lines_exact list_all_iff backup_value_ok_def)

text \<open>A sign is taken for a digit: what is read is not always as \<open>HH:MM\<close>.\<close>

lemma a_sign_is_read_as_a_digit: "time_of_day ''+5:+7'' = Some (5, 7)"
  by code_simp

subsection \<open>Paths inside a release\<close>

text \<open>Where a path leads from a directory: \<open>.\<close> and nothing stay, \<open>..\<close> goes up.\<close>

definition go :: "string list \<Rightarrow> string \<Rightarrow> string list" where
  "go d p = (if p = [] \<or> p = ''.'' then d else if p = ''..'' then butlast d else d @ [p])"

definition leads_to :: "string list \<Rightarrow> string \<Rightarrow> string list" where
  "leads_to d path = foldl go d (split_on (CHR ''/'') path)"

lemma is_inside_leads: "is_inside path \<Longrightarrow> leads_to d path = d @ split_on (CHR ''/'') path"
proof -
  have "list_all (\<lambda>p. p \<noteq> [] \<and> p \<noteq> ''.'' \<and> p \<noteq> ''..'') ps \<Longrightarrow> foldl go d ps = d @ ps" for ps
    by (induction ps arbitrary: d) (simp_all add: go_def)
  moreover assume "is_inside path"
  ultimately show ?thesis by (simp add: is_inside_def leads_to_def)
qed

lemma split_16:
  assumes "length a = 16"
  shows "a = take 8 a @ [a ! 8] @ take 6 (drop 9 a) @ [a ! 15]"
proof (rule nth_equalityI)
  show "length a = length (take 8 a @ [a ! 8] @ take 6 (drop 9 a) @ [a ! 15])" using assms by simp
  fix k assume "k < length a"
  then consider "k < 8" | "k = 8" | "9 \<le> k" "k < 15" | "k = 15" using assms by linarith
  then show "a ! k = (take 8 a @ [a ! 8] @ take 6 (drop 9 a) @ [a ! 15]) ! k"
    by cases (use assms in \<open>auto simp: nth_append nth_Cons'\<close>)
qed

lemma is_release_id_plain: "is_release_id t \<Longrightarrow> CHR ''/'' \<notin> set t \<and> t \<noteq> []"
proof -
  assume "is_release_id t"
  then obtain a b where t: "t = a @ CHR ''-'' # b" and n: "length a = 16" and
    p: "list_all is_digit (take 8 a)" "a ! 8 = CHR ''T''" "list_all is_digit (take 6 (drop 9 a))" "a ! 15 = CHR ''Z''" "list_all is_lower_hex b"
    by (auto simp: is_release_id_def split_once_Some split: option.splits)
  from split_16 [OF n]
  have a: "a = take 8 a @ [CHR ''T''] @ take 6 (drop 9 a) @ [CHR ''Z'']" using p by simp
  have "\<not> is_digit (CHR ''/'')" "\<not> is_lower_hex (CHR ''/'')" by (simp_all add: is_digit_def is_lower_hex_def byte_of_def)
  then have "CHR ''/'' \<notin> set (take 8 a)" "CHR ''/'' \<notin> set (take 6 (drop 9 a))" "CHR ''/'' \<notin> set b"
    using p unfolding list_all_iff by blast+
  moreover have "set a = set (take 8 a @ [CHR ''T''] @ take 6 (drop 9 a) @ [CHR ''Z''])" using a by simp
  ultimately show ?thesis by (auto simp: t)
qed

end
