(* ===== verification/Worker_Firewall.thy ===== *)
theory Worker_Firewall
  imports Worker_Server "HOL-Library.List_Lexorder" "HOL-Library.Char_ord"
begin

text \<open>
  The server's firewall as \<open>firewall.rs\<close> changes it: a change is applied under a rollback timer, kept by a
  confirm that takes it before the rollback does, or undone. The verbs of several erpcs take turns by a lock;
  the timer, its shell, a reboot and the death of a verb interleave with their steps. Files that are there can be
  read and moved, writes and programs may fail. Each change has a number, and what happens to it is logged.
\<close>

subsection \<open>The server\<close>

record fw_change =
  fc_number :: nat
  fc_id :: string
  fc_opening :: "port_opening option"

datatype rollback_shell = NoShell | Fired | Took

datatype fw_event = Claimed nat | Kept nat | RolledBack nat | SetAside nat | Closed string

datatype fw_verb =
    NoVerb
  | ApplyChecked string nat "port_opening option"
  | ApplyStopped string "port_opening option" string
  | ApplyPrevious string "port_opening option" string
  | ApplyPending string
  | ApplyCleaned string
  | ApplyArmed string
  | ApplyFailed
  | ConfirmArmed
  | ConfirmTook fw_change
  | ConfirmStopped fw_change
  | ConfirmOpened fw_change
  | ConfirmKept
  | Holding string

record firewall =
  fi_pending :: "fw_change option"
  fi_confirming :: "fw_change option"
  fi_rolled_back :: "fw_change option"
  fi_previous :: "string option"
  fi_pending_nft :: "string option"
  fi_applied :: "string option"
  fi_workers :: "(string \<times> port_opening) list"
  fi_in_force :: "string option"
  fi_timer :: bool
  fi_shell :: rollback_shell
  fi_boot :: bool
  fi_verb :: fw_verb
  fi_next :: nat
  fi_log :: "fw_event list"

definition firewall_start :: firewall where
  "firewall_start =
     \<lparr>fi_pending = None, fi_confirming = None, fi_rolled_back = None, fi_previous = None, fi_pending_nft = None, fi_applied = None,
      fi_workers = [], fi_in_force = None, fi_timer = False, fi_shell = NoShell, fi_boot = False, fi_verb = NoVerb, fi_next = 0,
      fi_log = []\<rparr>"

definition logged :: "fw_event \<Rightarrow> firewall \<Rightarrow> firewall" where "logged e s = s\<lparr>fi_log := e # fi_log s\<rparr>"

subsection \<open>The operations\<close>

definition no_table :: string where
  "no_table = ''table inet erpc_worker'' @ new_line @ ''delete table inet erpc_worker'' @ new_line"

text \<open>What is in force when nothing waits: the table kept, or none.\<close>

definition kept_table :: "firewall \<Rightarrow> string" where
  "kept_table s = (case fi_applied s of Some t \<Rightarrow> t | None \<Rightarrow> no_table)"

definition timer_state :: "string \<Rightarrow> string + bool" where
  "timer_state stdout =
     (case text_lines stdout of
        [] \<Rightarrow> Err ''nothing''
      | l # ls \<Rightarrow>
         (if trim l \<in> {''active'', ''activating'', ''reloading''} then Ok True
          else if trim l \<in> {''inactive'', ''failed'', ''dead''} then Ok False
          else Err (if trim l = [] then ''nothing'' else trim l)))"

definition set_aside :: "firewall \<Rightarrow> firewall" where
  "set_aside s =
     (case fi_pending s of
        None \<Rightarrow> s
      | Some c \<Rightarrow> logged (SetAside (fc_number c)) (s\<lparr>fi_pending := None, fi_rolled_back := Some c\<rparr>))"

definition refuse_while_waiting :: "firewall \<Rightarrow> firewall option" where
  "refuse_while_waiting s =
     (if fi_pending s = None then Some s else if fi_timer s then None else Some (set_aside s))"

definition openings_of :: "(string \<times> port_opening) list \<Rightarrow> (string \<times> port_opening) list" where
  "openings_of ws = sort_key fst ws"

definition with_candidate :: "string \<Rightarrow> port_opening option \<Rightarrow> (string \<times> port_opening) list \<Rightarrow> (string \<times> port_opening) list" where
  "with_candidate i og ws = (case og of Some o' \<Rightarrow> hm_insert i o' ws | None \<Rightarrow> hm_remove i ws)"

definition request_ok :: "nat \<Rightarrow> port_opening option \<Rightarrow> bool" where
  "request_ok ssh_port og =
     (ssh_port \<noteq> 0 \<and>
      (case og of None \<Rightarrow> True
       | Some o' \<Rightarrow> og_port o' \<noteq> 0 \<and> og_port o' \<noteq> ssh_port \<and> og_allow o' \<noteq> [] \<and> length (og_allow o') \<le> 64))"

definition table_for :: "firewall \<Rightarrow> string \<Rightarrow> nat \<Rightarrow> port_opening option \<Rightarrow> string" where
  "table_for s i ssh_port og = firewall_table ssh_port (openings_of (with_candidate i og (fi_workers s)))"

definition write_pending :: "string \<Rightarrow> port_opening option \<Rightarrow> firewall \<Rightarrow> firewall" where
  "write_pending i og s =
     s\<lparr>fi_pending := Some \<lparr>fc_number = fi_next s, fc_id = i, fc_opening = og\<rparr>, fi_next := Suc (fi_next s)\<rparr>"

text \<open>\<open>claim\<close>: by one rename. \<open>None\<close> when there is nothing to take.\<close>

definition claim :: "firewall \<Rightarrow> (fw_change \<times> firewall) option" where
  "claim s =
     (case fi_pending s of
        None \<Rightarrow> None
      | Some c \<Rightarrow> Some (c, logged (Claimed (fc_number c)) (s\<lparr>fi_pending := None, fi_confirming := Some c\<rparr>)))"

definition keep_opening :: "fw_change \<Rightarrow> firewall \<Rightarrow> firewall" where
  "keep_opening c s = s\<lparr>fi_workers := with_candidate (fc_id c) (fc_opening c) (fi_workers s)\<rparr>"

definition keep_table :: "fw_change \<Rightarrow> string \<Rightarrow> firewall \<Rightarrow> firewall" where
  "keep_table c t s = logged (Kept (fc_number c)) (s\<lparr>fi_applied := Some t, fi_pending_nft := None\<rparr>)"

text \<open>The rollback's shell: it takes the pending change, and only then loads the table before it.\<close>

definition shell_take :: "firewall \<Rightarrow> firewall" where
  "shell_take s =
     (case fi_pending s of
        None \<Rightarrow> s\<lparr>fi_shell := NoShell, fi_timer := False\<rparr>
      | Some c \<Rightarrow> logged (RolledBack (fc_number c)) (s\<lparr>fi_pending := None, fi_rolled_back := Some c, fi_shell := Took\<rparr>))"

definition shell_load :: "firewall \<Rightarrow> firewall" where
  "shell_load s =
     s\<lparr>fi_in_force := (case fi_previous s of Some t \<Rightarrow> Some t | None \<Rightarrow> fi_in_force s), fi_shell := NoShell, fi_timer := False\<rparr>"

text \<open>\<open>close\<close>, with its table loaded and kept; nothing to load when the server has no firewall.\<close>

definition close_table :: "firewall \<Rightarrow> string \<Rightarrow> string \<Rightarrow> string" where
  "close_table s i applied =
     table_for s i (case ssh_port_of applied of Some p \<Rightarrow> p | None \<Rightarrow> 22) None"

definition close_port :: "string \<Rightarrow> firewall \<Rightarrow> firewall" where
  "close_port i s =
     (let gone = s\<lparr>fi_workers := hm_remove i (fi_workers s)\<rparr>
      in case fi_applied s of
           None \<Rightarrow> gone
         | Some a \<Rightarrow>
            (let t = close_table s i a in logged (Closed i) (gone\<lparr>fi_in_force := Some t, fi_applied := Some t\<rparr>)))"

definition boot :: "firewall \<Rightarrow> firewall" where
  "boot s =
     s\<lparr>fi_timer := False, fi_shell := NoShell, fi_verb := NoVerb, fi_in_force := (if fi_boot s then fi_applied s else None)\<rparr>"

subsection \<open>Steps\<close>

inductive fw_step :: "firewall \<Rightarrow> firewall \<Rightarrow> bool" where
  apply_start: "fi_verb s = NoVerb \<Longrightarrow> request_ok p og \<Longrightarrow> refuse_while_waiting s = Some s' \<Longrightarrow>
     fw_step s (s'\<lparr>fi_verb := ApplyChecked i p og\<rparr>)"
| apply_stop: "fi_verb s = ApplyChecked i p og \<Longrightarrow>
     fw_step s (s\<lparr>fi_timer := (fi_timer s \<and> \<not> stopped), fi_verb := ApplyStopped i og (table_for s i p og)\<rparr>)"
| apply_previous: "fi_verb s = ApplyStopped i og t \<Longrightarrow>
     fw_step s (s\<lparr>fi_previous := Some (kept_table s), fi_verb := ApplyPrevious i og t\<rparr>)"
| apply_pending: "fi_verb s = ApplyPrevious i og t \<Longrightarrow>
     fw_step s ((write_pending i og s)\<lparr>fi_verb := ApplyPending t\<rparr>)"
| apply_clean: "fi_verb s = ApplyPending t \<Longrightarrow>
     fw_step s (s\<lparr>fi_rolled_back := None, fi_confirming := None, fi_verb := ApplyCleaned t\<rparr>)"
| apply_arm: "fi_verb s = ApplyCleaned t \<Longrightarrow> fi_shell s = NoShell \<Longrightarrow>
     fw_step s (s\<lparr>fi_timer := True, fi_verb := ApplyArmed t\<rparr>)"
| apply_load: "fi_verb s = ApplyArmed t \<Longrightarrow>
     fw_step s (s\<lparr>fi_pending_nft := Some t, fi_in_force := Some t, fi_verb := NoVerb\<rparr>)"
| apply_load_fails: "fi_verb s = ApplyArmed t \<Longrightarrow>
     fw_step s (s\<lparr>fi_pending_nft := (if written then Some t else fi_pending_nft s), fi_verb := ApplyFailed\<rparr>)"
| apply_failed: "fi_verb s = ApplyFailed \<Longrightarrow>
     fw_step s (s\<lparr>fi_timer := (fi_timer s \<and> \<not> stopped), fi_verb := NoVerb\<rparr>)"
| confirm_start: "fi_verb s = NoVerb \<Longrightarrow>
     fw_step s (if fi_timer s then s\<lparr>fi_verb := ConfirmArmed\<rparr> else set_aside s)"
| confirm_claim: "fi_verb s = ConfirmArmed \<Longrightarrow>
     fw_step s (case claim s of None \<Rightarrow> s\<lparr>fi_verb := NoVerb\<rparr> | Some (c, s') \<Rightarrow> s'\<lparr>fi_verb := ConfirmTook c\<rparr>)"
| confirm_stop: "fi_verb s = ConfirmTook c \<Longrightarrow>
     fw_step s (s\<lparr>fi_timer := (fi_timer s \<and> \<not> stopped), fi_verb := ConfirmStopped c\<rparr>)"
| confirm_open: "fi_verb s = ConfirmStopped c \<Longrightarrow>
     fw_step s ((keep_opening c s)\<lparr>fi_verb := ConfirmOpened c\<rparr>)"
| confirm_keep: "fi_verb s = ConfirmOpened c \<Longrightarrow> fi_pending_nft s = Some t \<Longrightarrow>
     fw_step s ((keep_table c t s)\<lparr>fi_verb := ConfirmKept\<rparr>)"
| confirm_boot: "fi_verb s = ConfirmKept \<Longrightarrow>
     fw_step s (s\<lparr>fi_confirming := None, fi_boot := (fi_boot s \<or> enabled), fi_verb := NoVerb\<rparr>)"
| hold: "fi_verb s = NoVerb \<Longrightarrow> refuse_while_waiting s = Some s' \<Longrightarrow>
     fw_step s (s'\<lparr>fi_verb := Holding i\<rparr>)"
| closing: "fi_verb s = Holding i \<Longrightarrow> fw_step s ((close_port i s)\<lparr>fi_verb := NoVerb\<rparr>)"
| verb_dies: "fw_step s (s\<lparr>fi_verb := NoVerb\<rparr>)"
| timer_fires: "fi_timer s \<Longrightarrow> fi_shell s = NoShell \<Longrightarrow> fw_step s (s\<lparr>fi_shell := Fired\<rparr>)"
| shell_takes: "fi_shell s = Fired \<Longrightarrow> fw_step s (shell_take s)"
| shell_loads: "fi_shell s = Took \<Longrightarrow> fw_step s (shell_load s)"
| shell_fails: "fi_shell s = Took \<Longrightarrow> fw_step s (s\<lparr>fi_shell := NoShell, fi_timer := False\<rparr>)"
| reboot: "fw_step s (boot s)"
| boot_fails: "fw_step s ((boot s)\<lparr>fi_in_force := None\<rparr>)"

inductive fw_reachable :: "firewall \<Rightarrow> bool" where
  start: "fw_reachable firewall_start"
| step: "fw_reachable s \<Longrightarrow> fw_step s s' \<Longrightarrow> fw_reachable s'"

subsection \<open>Invariant\<close>

text \<open>How a change ended, if it did, and whether it waits.\<close>

definition waits :: "firewall \<Rightarrow> nat \<Rightarrow> bool" where
  "waits s n \<longleftrightarrow> (case fi_pending s of Some c \<Rightarrow> fc_number c = n | None \<Rightarrow> False)"

definition endings :: "firewall \<Rightarrow> nat \<Rightarrow> bool list" where
  "endings s n = [waits s n, Claimed n \<in> set (fi_log s), RolledBack n \<in> set (fi_log s), SetAside n \<in> set (fi_log s)]"

definition ends_once :: "firewall \<Rightarrow> nat \<Rightarrow> bool" where
  "ends_once s n \<longleftrightarrow> length (filter (\<lambda>b. b) (endings s n)) = (if n < fi_next s then 1 else 0)"

text \<open>Where a verb has the pending change out of the way.\<close>

fun nothing_pending :: "fw_verb \<Rightarrow> bool" where
  "nothing_pending (ApplyChecked i p og) = True"
| "nothing_pending (ApplyStopped i og t) = True"
| "nothing_pending (ApplyPrevious i og t) = True"
| "nothing_pending (ConfirmTook c) = True"
| "nothing_pending (ConfirmStopped c) = True"
| "nothing_pending (ConfirmOpened c) = True"
| "nothing_pending ConfirmKept = True"
| "nothing_pending (Holding i) = True"
| "nothing_pending v = False"

fun confirms :: "fw_verb \<Rightarrow> nat option" where
  "confirms (ConfirmTook c) = Some (fc_number c)"
| "confirms (ConfirmStopped c) = Some (fc_number c)"
| "confirms (ConfirmOpened c) = Some (fc_number c)"
| "confirms v = None"

definition fw_inv :: "firewall \<Rightarrow> bool" where
  "fw_inv s \<longleftrightarrow>
     (\<forall>n. ends_once s n) \<and>
     (nothing_pending (fi_verb s) \<longrightarrow> fi_pending s = None) \<and>
     (fi_pending s \<noteq> None \<or> (\<exists>i og t. fi_verb s = ApplyPrevious i og t) \<longrightarrow> fi_previous s = Some (kept_table s)) \<and>
     (\<forall>n. confirms (fi_verb s) = Some n \<longrightarrow> Claimed n \<in> set (fi_log s)) \<and>
     (\<forall>n. Kept n \<in> set (fi_log s) \<longrightarrow> Claimed n \<in> set (fi_log s))"

lemma ends_once_same:
  "fi_pending s' = fi_pending s \<Longrightarrow> fi_log s' = fi_log s \<Longrightarrow> fi_next s' = fi_next s \<Longrightarrow> ends_once s' n = ends_once s n"
  by (simp add: ends_once_def endings_def waits_def)

lemma ends_once_taken:
  assumes "ends_once s n" and "fi_pending s = Some c" and "fi_pending s' = None" and "fi_next s' = fi_next s"
    and "fi_log s' = e # fi_log s" and "e \<in> {Claimed (fc_number c), RolledBack (fc_number c), SetAside (fc_number c)}"
  shows "ends_once s' n"
  using assms by (cases "n = fc_number c") (auto simp: ends_once_def endings_def waits_def split: if_splits)

lemma ends_once_other_event:
  assumes "fi_pending s' = fi_pending s" "fi_next s' = fi_next s" "fi_log s' = e # fi_log s"
    and "\<And>m. e \<noteq> Claimed m \<and> e \<noteq> RolledBack m \<and> e \<noteq> SetAside m"
  shows "ends_once s' n = ends_once s n"
proof -
  have "endings s' n = endings s n" using assms(1,3) assms(4) [of n] by (auto simp: endings_def waits_def)
  then show ?thesis by (simp add: ends_once_def assms(2))
qed

lemma ends_once_written: "fi_pending s = None \<Longrightarrow> ends_once s n \<Longrightarrow> ends_once (write_pending i og s) n"
  by (auto simp: ends_once_def endings_def waits_def write_pending_def less_Suc_eq split: if_splits)

lemma set_aside_facts [simp]:
  "fi_pending (set_aside s) = None" "fi_previous (set_aside s) = fi_previous s" "fi_applied (set_aside s) = fi_applied s"
  "fi_verb (set_aside s) = fi_verb s" "kept_table (set_aside s) = kept_table s"
  by (auto simp: set_aside_def logged_def kept_table_def split: option.split)

lemma set_aside_log: "Claimed n \<in> set (fi_log (set_aside s)) \<longleftrightarrow> Claimed n \<in> set (fi_log s)"
    "Kept n \<in> set (fi_log (set_aside s)) \<longleftrightarrow> Kept n \<in> set (fi_log s)"
  by (auto simp: set_aside_def logged_def split: option.split)

lemma ends_once_set_aside: "ends_once s n \<Longrightarrow> ends_once (set_aside s) n"
  by (cases "fi_pending s") (simp_all add: set_aside_def logged_def ends_once_taken [of s n _ _ "SetAside _"])

lemma refuse_Some: "refuse_while_waiting s = Some s' \<Longrightarrow> (s' = s \<and> fi_pending s = None) \<or> s' = set_aside s"
  by (auto simp: refuse_while_waiting_def split: if_splits)

lemma fw_inv_start: "fw_inv firewall_start"
  by (simp add: fw_inv_def firewall_start_def ends_once_def endings_def waits_def)

text \<open>A step that leaves the change that waits, the log and the tables kept as they are.\<close>

lemma fw_inv_same:
  assumes "fw_inv s" "fi_pending s' = fi_pending s" "fi_log s' = fi_log s" "fi_next s' = fi_next s"
    "fi_previous s' = fi_previous s" "fi_applied s' = fi_applied s"
    "nothing_pending (fi_verb s') \<longrightarrow> fi_pending s = None" "\<nexists>i og t. fi_verb s' = ApplyPrevious i og t"
    "\<forall>n. confirms (fi_verb s') = Some n \<longrightarrow> Claimed n \<in> set (fi_log s)"
  shows "fw_inv s'"
  using assms ends_once_same [of s' s] by (auto simp: fw_inv_def kept_table_def)

lemma fw_inv_verb_NoVerb: "fw_inv s \<Longrightarrow> fw_inv (s\<lparr>fi_verb := NoVerb\<rparr>)"
  by (rule fw_inv_same) (auto simp: fw_inv_def)

lemma fw_inv_step: "fw_step s s' \<Longrightarrow> fw_inv s \<Longrightarrow> fw_inv s'"
proof (induction rule: fw_step.induct)
  case (apply_start s p og s' i)
  then show ?case using refuse_Some [OF apply_start(3)]
    by (auto simp: fw_inv_def kept_table_def set_aside_log ends_once_same [of "_\<lparr>fi_verb := _\<rparr>"] ends_once_set_aside)
next
  case (apply_stop s i p og stopped)
  then show ?case by (intro fw_inv_same [OF apply_stop(2)]) (auto simp: fw_inv_def)
next
  case (apply_previous s i og t)
  then show ?case by (auto simp: fw_inv_def kept_table_def ends_once_same [of "_\<lparr>fi_previous := _, fi_verb := _\<rparr>" s])
next
  case (apply_pending s i og t)
  then have "fi_pending s = None" "fi_previous s = Some (kept_table s)" by (auto simp: fw_inv_def)
  with apply_pending show ?case
    by (auto simp: fw_inv_def kept_table_def ends_once_same [of "(write_pending i og s)\<lparr>fi_verb := _\<rparr>" "write_pending i og s"]
        ends_once_written) (simp_all add: write_pending_def)
next
  case (apply_clean s t)
  then show ?case by (intro fw_inv_same [OF apply_clean(2)]) (auto simp: fw_inv_def)
next
  case (apply_arm s t)
  then show ?case by (intro fw_inv_same [OF apply_arm(3)]) (auto simp: fw_inv_def)
next
  case (apply_load s t)
  then show ?case by (intro fw_inv_same [OF apply_load(2)]) (auto simp: fw_inv_def)
next
  case (apply_load_fails s t written)
  then show ?case by (intro fw_inv_same [OF apply_load_fails(2)]) (auto simp: fw_inv_def)
next
  case (apply_failed s stopped)
  then show ?case by (intro fw_inv_same [OF apply_failed(2)]) (auto simp: fw_inv_def)
next
  case (confirm_start s)
  then show ?case
  proof (cases "fi_timer s")
    case True
    with confirm_start(2) have "fw_inv (s\<lparr>fi_verb := ConfirmArmed\<rparr>)" by (intro fw_inv_same [OF confirm_start(2)]) auto
    with True show ?thesis by simp
  next
    case False
    with confirm_start show ?thesis by (auto simp: fw_inv_def set_aside_log ends_once_set_aside)
  qed
next
  case (confirm_claim s)
  then show ?case
  proof (cases "fi_pending s")
    case None
    with confirm_claim show ?thesis by (simp add: claim_def fw_inv_verb_NoVerb)
  next
    case (Some c)
    with confirm_claim show ?thesis
      by (auto simp: claim_def logged_def fw_inv_def kept_table_def intro: ends_once_taken [of s _ c _ "Claimed (fc_number c)"])
  qed
next
  case (confirm_stop s c stopped)
  then show ?case by (intro fw_inv_same [OF confirm_stop(2)]) (auto simp: fw_inv_def)
next
  case (confirm_open s c)
  then show ?case by (intro fw_inv_same [OF confirm_open(2)]) (auto simp: fw_inv_def keep_opening_def)
next
  case (confirm_keep s c t)
  then have "ends_once ((keep_table c t s)\<lparr>fi_verb := ConfirmKept\<rparr>) n" for n
    using ends_once_other_event [of "(keep_table c t s)\<lparr>fi_verb := ConfirmKept\<rparr>" s "Kept (fc_number c)" n]
    by (auto simp: keep_table_def logged_def fw_inv_def)
  with confirm_keep show ?case by (auto simp: fw_inv_def keep_table_def logged_def)
next
  case (confirm_boot s enabled)
  then show ?case by (intro fw_inv_same [OF confirm_boot(2)]) (auto simp: fw_inv_def)
next
  case (hold s s' i)
  then show ?case using refuse_Some [OF hold(2)]
    by (auto simp: fw_inv_def kept_table_def set_aside_log ends_once_same [of "_\<lparr>fi_verb := _\<rparr>"] ends_once_set_aside)
next
  case (closing s i)
  then have p: "fi_pending s = None" by (auto simp: fw_inv_def)
  have "ends_once ((close_port i s)\<lparr>fi_verb := NoVerb\<rparr>) n" for n
    using closing ends_once_other_event [of "(close_port i s)\<lparr>fi_verb := NoVerb\<rparr>" s "Closed i" n]
      ends_once_same [of "(close_port i s)\<lparr>fi_verb := NoVerb\<rparr>" s n]
    by (cases "fi_applied s") (auto simp: close_port_def Let_def logged_def fw_inv_def)
  with closing p show ?case
    by (cases "fi_applied s") (auto simp: fw_inv_def close_port_def Let_def logged_def)
next
  case (verb_dies s)
  then show ?case by (rule fw_inv_verb_NoVerb)
next
  case (timer_fires s)
  then show ?case by (auto simp: fw_inv_def kept_table_def ends_once_same [of "_\<lparr>fi_shell := _\<rparr>" s])
next
  case (shell_takes s)
  then show ?case
  proof (cases "fi_pending s")
    case None
    with shell_takes show ?thesis
      by (auto simp: shell_take_def fw_inv_def kept_table_def ends_once_same [of "_\<lparr>fi_shell := _, fi_timer := _\<rparr>" s])
  next
    case (Some c)
    with shell_takes show ?thesis
      by (auto simp: shell_take_def logged_def fw_inv_def kept_table_def intro: ends_once_taken [of s _ c _ "RolledBack (fc_number c)"])
  qed
next
  case (shell_loads s)
  then show ?case
    by (auto simp: shell_load_def fw_inv_def kept_table_def ends_once_same [of "_\<lparr>fi_in_force := _, fi_shell := _, fi_timer := _\<rparr>" s])
next
  case (shell_fails s)
  then show ?case by (auto simp: fw_inv_def kept_table_def ends_once_same [of "_\<lparr>fi_shell := _, fi_timer := _\<rparr>" s])
next
  case (reboot s)
  then show ?case by (intro fw_inv_same [OF reboot(1)]) (auto simp: fw_inv_def boot_def)
next
  case (boot_fails s)
  then show ?case by (intro fw_inv_same [OF boot_fails(1)]) (auto simp: fw_inv_def boot_def)
qed

lemma fw_reachable_inv: "fw_reachable s \<Longrightarrow> fw_inv s"
  by (induction rule: fw_reachable.induct) (auto intro: fw_inv_start fw_inv_step)

subsection \<open>What changes promise\<close>

text \<open>
  C22: Each change of the firewall ends one way: it waits, or was taken by a confirm, or by the rollback, or was
  set aside, never two of these, however the verbs, the timer, restarts and deaths interleave; and a table is
  kept only for a change a confirm took, so never for one that was rolled back.
\<close>

theorem each_change_ends_one_way:
  assumes "fw_reachable s" and "n < fi_next s"
  shows "length (filter (\<lambda>b. b) (endings s n)) = 1 \<and>
    (if Kept n \<in> set (fi_log s) then Claimed n \<in> set (fi_log s) \<and> RolledBack n \<notin> set (fi_log s) \<and> \<not> waits s n else True)"
proof -
  from fw_reachable_inv [OF assms(1)] have once: "ends_once s n" and kept: "Kept n \<in> set (fi_log s) \<longrightarrow> Claimed n \<in> set (fi_log s)"
    by (auto simp: fw_inv_def)
  from once assms(2) have one: "length (filter (\<lambda>b. b) (endings s n)) = 1" by (simp add: ends_once_def)
  with kept show ?thesis by (auto simp: endings_def split: if_splits)
qed

text \<open>
  A rollback under way: the shell has taken the change that waited in \<open>s\<close> and has not yet loaded the table before
  it. The shell holds no lock, so every other step can come in between. The list has the tables that were
  the kept one, from the moment the change was taken.
\<close>

inductive undoing :: "firewall \<Rightarrow> string list \<Rightarrow> firewall \<Rightarrow> bool" for s where
  taken: "fi_shell s = Fired \<Longrightarrow> fi_pending s \<noteq> None \<Longrightarrow> undoing s [kept_table s] (shell_take s)"
| between: "undoing s ts u \<Longrightarrow> fw_step u u' \<Longrightarrow> fi_shell u' = Took \<Longrightarrow> undoing s (kept_table u' # ts) u'"

definition kept_or_closed :: "fw_event \<Rightarrow> bool" where
  "kept_or_closed e = (case e of Kept n \<Rightarrow> True | Closed i \<Rightarrow> True | _ \<Rightarrow> False)"

lemma set_aside_log_grows: "\<exists>es. fi_log (set_aside s) = es @ fi_log s"
  by (auto simp: set_aside_def logged_def split: option.split)

lemma fw_step_log_grows: "fw_step s s' \<Longrightarrow> \<exists>es. fi_log s' = es @ fi_log s"
proof (induction rule: fw_step.induct)
  case (apply_start s p og s' i)
  with refuse_Some [OF apply_start(3)] set_aside_log_grows [of s] show ?case by auto
next
  case (confirm_start s)
  with set_aside_log_grows [of s] show ?case by auto
next
  case (hold s s' i)
  with refuse_Some [OF hold(2)] set_aside_log_grows [of s] show ?case by auto
qed (auto simp: logged_def write_pending_def claim_def keep_opening_def keep_table_def close_port_def Let_def shell_take_def
    shell_load_def boot_def split: option.splits)

text \<open>A step that keeps no table and closes no port leaves the kept one, and the one to go back to is that one or as before.\<close>

lemma fw_step_tables:
  "fw_step s s' \<Longrightarrow>
     (kept_table s' = kept_table s \<or> (\<exists>e. kept_or_closed e \<and> fi_log s' = e # fi_log s)) \<and>
     (fi_previous s' = fi_previous s \<or> fi_previous s' = Some (kept_table s') \<and> kept_table s' = kept_table s)"
proof (induction rule: fw_step.induct)
  case (apply_start s p og s' i)
  with refuse_Some [OF apply_start(3)] show ?case by (auto simp: kept_table_def)
next
  case (confirm_start s)
  then show ?case by (auto simp: kept_table_def)
next
  case (hold s s' i)
  with refuse_Some [OF hold(2)] show ?case by (auto simp: kept_table_def)
qed (auto simp: logged_def write_pending_def claim_def keep_opening_def keep_table_def close_port_def Let_def shell_take_def
    shell_load_def boot_def kept_table_def kept_or_closed_def split: option.splits)

lemma undoing_facts:
  assumes "undoing s ts u" and "fw_reachable s" and "fi_pending s = Some c"
  shows "fw_reachable u \<and> fi_shell u = Took \<and> (\<exists>es. fi_log u = es @ RolledBack (fc_number c) # fi_log s \<and>
     (\<exists>t. fi_previous u = Some t \<and> t \<in> set ts \<and> (t = kept_table u \<or> list_ex kept_or_closed es)))"
  using assms(1)
proof induction
  case taken
  from fw_reachable_inv [OF assms(2)] assms(3) have "fi_previous s = Some (kept_table s)" by (auto simp: fw_inv_def)
  with taken assms(3) fw_reachable.step [OF assms(2) fw_step.shell_takes] show ?case
    by (auto simp: shell_take_def logged_def kept_table_def)
next
  case (between ts u u')
  then obtain es t where u: "fw_reachable u" "fi_log u = es @ RolledBack (fc_number c) # fi_log s" "fi_previous u = Some t" "t \<in> set ts"
      "t = kept_table u \<or> list_ex kept_or_closed es" by blast
  from fw_step_log_grows [OF between(2)] obtain fs where fs: "fi_log u' = fs @ fi_log u" by blast
  from fw_step_tables [OF between(2)] have k: "kept_table u' = kept_table u \<or> list_ex kept_or_closed fs"
    using fs by auto
  from fw_step_tables [OF between(2)] u(3) have "fi_previous u' = Some t \<or> fi_previous u' = Some (kept_table u')" by auto
  then obtain t' where t': "fi_previous u' = Some t'" "t' = t \<or> t' = kept_table u'" by blast
  have "t' \<in> set (kept_table u' # ts)" "t' = kept_table u' \<or> list_ex kept_or_closed (fs @ es)" using t'(2) u(4,5) k by auto
  with t'(1) fs u(2) fw_reachable.step [OF u(1) between(2)] between(3) show ?case
    by (intro conjI exI [of _ "fs @ es"] exI [of _ t']) simp_all
qed

text \<open>
  C12: A change that is not confirmed in time is undone, whatever runs between the rollback's taking it and its
  loading a table -- the shell holds no lock, so verbs, deaths and other changes can. The load puts in force a table
  that was the kept one then or since, and exactly the one kept now unless, in between, a port was closed or
  another change kept (a port closed then may be open again). The change itself is never kept, and the
  load leaves what loads at boot.
\<close>

theorem an_unconfirmed_change_is_undone:
  assumes "fw_reachable s" and "fi_pending s = Some c" and "undoing s ts u"
  shows "fw_step u (shell_load u) \<and>
    (\<exists>t es. fi_in_force (shell_load u) = Some t \<and> t \<in> set ts \<and>
       fi_log u = es @ RolledBack (fc_number c) # fi_log s \<and>
       (t = kept_table u \<or> list_ex kept_or_closed es)) \<and>
    Kept (fc_number c) \<notin> set (fi_log (shell_load u)) \<and> fi_applied (shell_load u) = fi_applied u"
proof -
  from undoing_facts [OF assms(3,1,2)] obtain es t where u: "fw_reachable u" "fi_shell u = Took"
    "fi_log u = es @ RolledBack (fc_number c) # fi_log s" "fi_previous u = Some t" "t \<in> set ts"
    "t = kept_table u \<or> list_ex kept_or_closed es" by blast
  from fw_reachable_inv [OF u(1)] have "ends_once u (fc_number c)" and kept: "Kept (fc_number c) \<in> set (fi_log u) \<longrightarrow> Claimed (fc_number c) \<in> set (fi_log u)"
    by (auto simp: fw_inv_def)
  with u(3) have "Kept (fc_number c) \<notin> set (fi_log u)" by (auto simp: ends_once_def endings_def split: if_splits)
  moreover have "fi_in_force (shell_load u) = Some t" "fi_log (shell_load u) = fi_log u" "fi_applied (shell_load u) = fi_applied u"
    by (simp_all add: shell_load_def u(4))
  moreover have "fw_step u (shell_load u)" by (rule fw_step.shell_loads [OF u(2)])
  ultimately show ?thesis using u(3,5,6) by (intro conjI exI [of _ t] exI [of _ es]) auto
qed

subsection \<open>The life of a change\<close>

text \<open>
  The contract of the firewall's changes, without files, timers and verbs: each change, once made, waits; one that
  waits is taken by a confirm, undone by the rollback or set aside; only one taken by a confirm is kept.
  Nothing else ever happens to a change.
\<close>

datatype life = NotMade | Waiting | TakenUp | KeptForGood | UndoneByTimer | PutAside

inductive life_step :: "life \<Rightarrow> life \<Rightarrow> bool" where
  "life_step NotMade Waiting"
| "life_step Waiting TakenUp"
| "life_step Waiting UndoneByTimer"
| "life_step Waiting PutAside"
| "life_step TakenUp KeptForGood"

definition lives :: "firewall \<Rightarrow> nat \<Rightarrow> life" where
  "lives s n =
     (if waits s n then Waiting
      else if Kept n \<in> set (fi_log s) then KeptForGood
      else if Claimed n \<in> set (fi_log s) then TakenUp
      else if RolledBack n \<in> set (fi_log s) then UndoneByTimer
      else if SetAside n \<in> set (fi_log s) then PutAside
      else NotMade)"

definition one_life_step :: "(nat \<Rightarrow> life) \<Rightarrow> (nat \<Rightarrow> life) \<Rightarrow> bool" where
  "one_life_step a b \<longleftrightarrow> b = a \<or> (\<exists>n l. life_step (a n) l \<and> b = a(n := l))"

lemma lives_same: "fi_pending s' = fi_pending s \<Longrightarrow> fi_log s' = fi_log s \<Longrightarrow> one_life_step (lives s) (lives s')"
  by (simp add: one_life_step_def lives_def waits_def fun_eq_iff)

text \<open>A change that waits is taken out of the way, by one of the three.\<close>

lemma lives_taken:
  assumes inv: "fw_inv s" and p: "fi_pending s = Some c" and "fi_pending s' = None" and "fi_log s' = e # fi_log s"
    and e: "(e, l) \<in> {(Claimed (fc_number c), TakenUp), (RolledBack (fc_number c), UndoneByTimer), (SetAside (fc_number c), PutAside)}"
  shows "one_life_step (lives s) (lives s')"
proof -
  let ?n = "fc_number c"
  from inv have "ends_once s ?n" and kept: "Kept ?n \<in> set (fi_log s) \<longrightarrow> Claimed ?n \<in> set (fi_log s)" by (auto simp: fw_inv_def)
  with p have none: "Claimed ?n \<notin> set (fi_log s)" "RolledBack ?n \<notin> set (fi_log s)" "SetAside ?n \<notin> set (fi_log s)" "Kept ?n \<notin> set (fi_log s)"
    by (auto simp: ends_once_def endings_def waits_def split: if_splits)
  have "lives s' = (lives s)(?n := l)"
    using assms(3,4) p e none by (auto simp: fun_eq_iff lives_def waits_def)
  moreover have "life_step (lives s ?n) l" using p e by (auto simp: lives_def waits_def intro: life_step.intros)
  ultimately show ?thesis by (auto simp: one_life_step_def)
qed

lemma lives_set_aside: "fw_inv s \<Longrightarrow> one_life_step (lives s) (lives (set_aside s))"
  by (cases "fi_pending s") (auto simp: set_aside_def logged_def intro: lives_same lives_taken [where l = PutAside])

lemma one_life_step_cong:
  "one_life_step (lives s) (lives s') \<Longrightarrow> fi_pending s'' = fi_pending s' \<Longrightarrow> fi_log s'' = fi_log s' \<Longrightarrow> one_life_step (lives s) (lives s'')"
proof -
  assume "one_life_step (lives s) (lives s')" "fi_pending s'' = fi_pending s'" "fi_log s'' = fi_log s'"
  moreover from this have "lives s'' = lives s'" by (simp add: lives_def waits_def fun_eq_iff)
  ultimately show ?thesis by simp
qed

text \<open>
  C28: The steps of the firewall do to its changes what the contract says, and no more: every step of the verbs, the
  timer, the rollback's shell, a restart or a death is a step in the life of at most one change -- made, taken by a
  confirm, undone, set aside or kept -- and leaves every other as it was.
\<close>

theorem each_change_lives_by_the_contract:
  assumes "fw_reachable s" and "fw_step s s'"
  shows "one_life_step (lives s) (lives s')"
proof -
  have inv: "fw_inv s" using assms(1) by (rule fw_reachable_inv)
  from assms(2) show ?thesis
  proof cases
    case (apply_start p og s'' i)
    with refuse_Some [OF apply_start(4)] show ?thesis
      using lives_set_aside [OF inv] by (auto intro: one_life_step_cong lives_same)
  next
    case (apply_pending i og t)
    from inv apply_pending have p: "fi_pending s = None" by (auto simp: fw_inv_def)
    let ?n = "fi_next s"
    from inv have "ends_once s ?n" "Kept ?n \<in> set (fi_log s) \<longrightarrow> Claimed ?n \<in> set (fi_log s)" by (auto simp: fw_inv_def)
    with p have none: "lives s ?n = NotMade" by (auto simp: ends_once_def endings_def waits_def lives_def split: if_splits)
    have "lives s' = (lives s)(?n := Waiting)"
      using apply_pending p by (auto simp: fun_eq_iff lives_def waits_def write_pending_def)
    moreover have "life_step (lives s ?n) Waiting" unfolding none by (rule life_step.intros(1))
    ultimately show ?thesis unfolding one_life_step_def by blast
  next
    case confirm_start
    then show ?thesis using lives_set_aside [OF inv] by (auto intro: lives_same)
  next
    case confirm_claim
    then show ?thesis
      by (cases "fi_pending s") (auto simp: claim_def logged_def intro: lives_same lives_taken [OF inv, where l = TakenUp])
  next
    case (confirm_keep c t)
    let ?n = "fc_number c"
    from inv confirm_keep have "Claimed ?n \<in> set (fi_log s)" "fi_pending s = None" by (auto simp: fw_inv_def)
    moreover from this have "lives s ?n \<in> {TakenUp, KeptForGood}" by (auto simp: lives_def waits_def)
    moreover have "lives s' = (lives s)(?n := KeptForGood)"
      using confirm_keep calculation(2) by (auto simp: fun_eq_iff lives_def waits_def keep_table_def logged_def)
    moreover have "lives s ?n = KeptForGood \<Longrightarrow> lives s' = lives s" using calculation(4) by (simp add: fun_upd_idem)
    ultimately show ?thesis unfolding one_life_step_def by (metis insertE singletonD life_step.intros(5))
  next
    case (hold s'' i)
    with refuse_Some [OF hold(3)] show ?thesis
      using lives_set_aside [OF inv] by (auto intro: one_life_step_cong lives_same)
  next
    case (closing i)
    then have "lives s' = lives s"
      by (cases "fi_applied s") (auto simp: fun_eq_iff lives_def waits_def close_port_def Let_def logged_def)
    then show ?thesis by (simp add: one_life_step_def)
  next
    case shell_takes
    then show ?thesis
      by (cases "fi_pending s") (auto simp: shell_take_def logged_def intro: lives_same lives_taken [OF inv, where l = UndoneByTimer])
  qed (auto simp: keep_opening_def shell_load_def boot_def intro: lives_same)
qed

text \<open>
  Only what was confirmed loads at boot: a step changes the kept table only by keeping that of a change a
  confirm took and no rollback did, or by closing a removed worker's port, with no change waiting in either case.
\<close>

theorem only_the_confirmed_is_kept:
  assumes "fw_reachable s" and "fw_step s s'" and "fi_applied s' \<noteq> fi_applied s"
  shows "fi_pending s = None \<and>
    ((\<exists>n. fi_log s' = Kept n # fi_log s \<and> Claimed n \<in> set (fi_log s) \<and> RolledBack n \<notin> set (fi_log s)) \<or>
     (\<exists>i. fi_verb s = Holding i \<and> fi_log s' = Closed i # fi_log s))"
  using assms(2,3)
proof cases
  case (apply_start p og s'' i)
  with assms(3) refuse_Some [OF apply_start(4)] show ?thesis by auto
next
  case confirm_start
  with assms(3) show ?thesis by (auto split: if_splits)
next
  case confirm_claim
  with assms(3) show ?thesis by (auto simp: claim_def logged_def split: option.splits)
next
  case (confirm_keep c t)
  from fw_reachable_inv [OF assms(1)] confirm_keep have "fi_pending s = None" "Claimed (fc_number c) \<in> set (fi_log s)"
      "ends_once s (fc_number c)" by (auto simp: fw_inv_def)
  moreover from this have "RolledBack (fc_number c) \<notin> set (fi_log s)"
    by (auto simp: ends_once_def endings_def split: if_splits)
  ultimately show ?thesis using confirm_keep by (auto simp: keep_table_def logged_def)
next
  case (hold s'' i)
  with assms(3) refuse_Some [OF hold(3)] show ?thesis by auto
next
  case (closing i)
  from fw_reachable_inv [OF assms(1)] closing have "fi_pending s = None" by (auto simp: fw_inv_def)
  with closing assms(3) show ?thesis by (cases "fi_applied s") (auto simp: close_port_def Let_def logged_def)
qed (auto simp: write_pending_def keep_opening_def shell_take_def shell_load_def boot_def logged_def split: option.splits)

text \<open>
  The rollback's shell holds no lock: between its taking a change and its loading the table before it, nothing
  waits any more, so a removal goes ahead, and the load brings the closed port back.
\<close>

lemma a_rollback_can_reopen_a_closed_port:
  assumes "fi_shell s = Took" "fi_pending s = None" "fi_verb s = NoVerb" "fi_previous s = Some before"
  shows "fw_step s (s\<lparr>fi_verb := Holding i\<rparr>)"
    and "fw_step (s\<lparr>fi_verb := Holding i\<rparr>) ((close_port i (s\<lparr>fi_verb := Holding i\<rparr>))\<lparr>fi_verb := NoVerb\<rparr>)"
    and "fi_in_force (shell_load ((close_port i (s\<lparr>fi_verb := Holding i\<rparr>))\<lparr>fi_verb := NoVerb\<rparr>)) = Some before"
proof -
  show "fw_step s (s\<lparr>fi_verb := Holding i\<rparr>)" by (rule fw_step.hold) (simp_all add: assms refuse_while_waiting_def)
  show "fw_step (s\<lparr>fi_verb := Holding i\<rparr>) ((close_port i (s\<lparr>fi_verb := Holding i\<rparr>))\<lparr>fi_verb := NoVerb\<rparr>)"
    by (rule fw_step.closing) simp
  show "fi_in_force (shell_load ((close_port i (s\<lparr>fi_verb := Holding i\<rparr>))\<lparr>fi_verb := NoVerb\<rparr>)) = Some before"
    using assms(4) by (cases "fi_applied s") (simp_all add: shell_load_def close_port_def Let_def logged_def)
qed

subsection \<open>A change applied and confirmed\<close>

definition sample_change :: fw_change where
  "sample_change = \<lparr>fc_number = 0, fc_id = ''a-b'', fc_opening = None\<rparr>"

lemma sample_applied:
  "\<exists>s t. fw_reachable s \<and> fi_pending s = Some sample_change \<and> fi_next s = 1 \<and> fi_timer s \<and> fi_verb s = NoVerb \<and>
     fi_pending_nft s = Some t \<and> fi_applied s = None \<and> fi_shell s = NoShell"
proof -
  define s0 where "s0 = firewall_start"
  define s1 where "s1 = s0\<lparr>fi_verb := ApplyChecked ''a-b'' 22 None\<rparr>"
  define t where "t = table_for s1 ''a-b'' 22 None"
  define s2 where "s2 = s1\<lparr>fi_timer := (fi_timer s1 \<and> \<not> True), fi_verb := ApplyStopped ''a-b'' None t\<rparr>"
  define s3 where "s3 = s2\<lparr>fi_previous := Some (kept_table s2), fi_verb := ApplyPrevious ''a-b'' None t\<rparr>"
  define s4 where "s4 = (write_pending ''a-b'' None s3)\<lparr>fi_verb := ApplyPending t\<rparr>"
  define s5 where "s5 = s4\<lparr>fi_rolled_back := None, fi_confirming := None, fi_verb := ApplyCleaned t\<rparr>"
  define s6 where "s6 = s5\<lparr>fi_timer := True, fi_verb := ApplyArmed t\<rparr>"
  define s7 where "s7 = s6\<lparr>fi_pending_nft := Some t, fi_in_force := Some t, fi_verb := NoVerb\<rparr>"
  note d = s0_def s1_def s2_def s3_def s4_def s5_def s6_def s7_def firewall_start_def write_pending_def
  have r0: "fw_reachable s0" unfolding s0_def by (rule fw_reachable.start)
  have r1: "fw_reachable s1" unfolding s1_def
    by (rule fw_reachable.step [OF r0], rule fw_step.apply_start) (simp_all add: s0_def firewall_start_def request_ok_def refuse_while_waiting_def)
  have r2: "fw_reachable s2" unfolding s2_def t_def
    by (rule fw_reachable.step [OF r1], rule fw_step.apply_stop) (simp add: s1_def)
  have r3: "fw_reachable s3" unfolding s3_def by (rule fw_reachable.step [OF r2], rule fw_step.apply_previous) (simp add: s2_def)
  have r4: "fw_reachable s4" unfolding s4_def by (rule fw_reachable.step [OF r3], rule fw_step.apply_pending) (simp add: s3_def)
  have r5: "fw_reachable s5" unfolding s5_def by (rule fw_reachable.step [OF r4], rule fw_step.apply_clean) (simp add: s4_def)
  have r6: "fw_reachable s6" unfolding s6_def by (rule fw_reachable.step [OF r5], rule fw_step.apply_arm) (simp_all add: d)
  have r7: "fw_reachable s7" unfolding s7_def by (rule fw_reachable.step [OF r6], rule fw_step.apply_load) (simp add: s6_def)
  show ?thesis by (rule exI [of _ s7], rule exI [of _ t]) (use r7 in \<open>simp add: d sample_change_def\<close>)
qed

lemma each_change_ends_one_way_witness: "\<exists>s. fi_pending s = Some sample_change \<and> length (filter (\<lambda>b. b) (endings s 0)) = 1"
proof -
  obtain s where s: "fw_reachable s" "fi_pending s = Some sample_change" "fi_next s = 1" using sample_applied by blast
  then have "0 < fi_next s" by simp
  from each_change_ends_one_way [OF s(1) this] s(2) show ?thesis by blast
qed

lemma each_change_lives_by_the_contract_witness:
  "\<exists>s s'. lives s 0 = Waiting \<and> lives s' 0 = UndoneByTimer \<and> one_life_step (lives s) (lives s')"
proof -
  obtain s where s: "fw_reachable s" "fi_pending s = Some sample_change" "fi_timer s" "fi_shell s = NoShell" "fi_next s = 1"
    using sample_applied by blast
  define s1 where "s1 = s\<lparr>fi_shell := Fired\<rparr>"
  have r1: "fw_reachable s1" unfolding s1_def by (rule fw_reachable.step [OF s(1)], rule fw_step.timer_fires) (simp_all add: s)
  have st: "fw_step s1 (shell_take s1)" by (rule fw_step.shell_takes) (simp add: s1_def)
  from fw_reachable_inv [OF r1] have "ends_once s1 0" "Kept 0 \<in> set (fi_log s1) \<longrightarrow> Claimed 0 \<in> set (fi_log s1)"
    by (auto simp: fw_inv_def)
  then have "lives s1 0 = Waiting" "lives (shell_take s1) 0 = UndoneByTimer"
    using s by (auto simp: s1_def lives_def waits_def shell_take_def logged_def sample_change_def ends_once_def endings_def split: if_splits)
  with each_change_lives_by_the_contract [OF r1 st] show ?thesis by blast
qed

text \<open>The timer fires, the shell takes the change, and a removal comes in before it loads.\<close>

lemma an_unconfirmed_change_is_undone_witness:
  "\<exists>s u. fi_pending s = Some sample_change \<and> fi_verb u = Holding ''c-d'' \<and> undoing s [no_table, no_table] u \<and>
     fi_in_force (shell_load u) = Some no_table"
proof -
  obtain s where s: "fw_reachable s" "fi_pending s = Some sample_change" "fi_applied s = None" "fi_timer s" "fi_shell s = NoShell" "fi_verb s = NoVerb"
    using sample_applied by blast
  define s1 where "s1 = s\<lparr>fi_shell := Fired\<rparr>"
  define u where "u = (shell_take s1)\<lparr>fi_verb := Holding ''c-d''\<rparr>"
  have r1: "fw_reachable s1" unfolding s1_def by (rule fw_reachable.step [OF s(1)], rule fw_step.timer_fires) (simp_all add: s)
  have f: "fi_shell s1 = Fired" "fi_pending s1 = Some sample_change" "fi_verb u = Holding ''c-d''" "fi_shell u = Took"
      "kept_table s1 = no_table" "kept_table u = no_table"
    by (simp_all add: s1_def u_def s shell_take_def logged_def kept_table_def)
  have "fw_step (shell_take s1) u" unfolding u_def
    by (rule fw_step.hold) (simp_all add: s1_def s shell_take_def logged_def refuse_while_waiting_def)
  then have "undoing s1 (kept_table u # [kept_table s1]) u" using f by (intro undoing.between [OF undoing.taken]) simp_all
  then have run: "undoing s1 [no_table, no_table] u" using f by simp
  from an_unconfirmed_change_is_undone [OF r1 f(2) run] have "fi_in_force (shell_load u) = Some no_table" by auto
  with f run show ?thesis by blast
qed

lemma only_the_confirmed_is_kept_witness: "\<exists>(s :: firewall) t. fi_applied s = Some t \<and> Kept 0 \<in> set (fi_log s) \<and> Claimed 0 \<in> set (fi_log s)"
proof -
  obtain s t where s: "fw_reachable s" "fi_pending s = Some sample_change" "fi_timer s" "fi_verb s = NoVerb" "fi_pending_nft s = Some t"
      "fi_applied s = None" using sample_applied by blast
  define s1 where "s1 = s\<lparr>fi_verb := ConfirmArmed\<rparr>"
  define s2 where "s2 = (logged (Claimed 0) (s1\<lparr>fi_pending := None, fi_confirming := Some sample_change\<rparr>))\<lparr>fi_verb := ConfirmTook sample_change\<rparr>"
  define s3 where "s3 = s2\<lparr>fi_timer := (fi_timer s2 \<and> \<not> True), fi_verb := ConfirmStopped sample_change\<rparr>"
  define s4 where "s4 = (keep_opening sample_change s3)\<lparr>fi_verb := ConfirmOpened sample_change\<rparr>"
  define s5 where "s5 = (keep_table sample_change t s4)\<lparr>fi_verb := ConfirmKept\<rparr>"
  have "fw_step s s1" using fw_step.confirm_start [OF s(4)] s(3) by (simp add: s1_def)
  then have r1: "fw_reachable s1" by (rule fw_reachable.step [OF s(1)])
  have "fw_step s1 s2" using fw_step.confirm_claim [of s1] s(2) by (simp add: s2_def s1_def claim_def sample_change_def)
  then have r2: "fw_reachable s2" by (rule fw_reachable.step [OF r1])
  have r3: "fw_reachable s3" unfolding s3_def by (rule fw_reachable.step [OF r2], rule fw_step.confirm_stop) (simp add: s2_def)
  have r4: "fw_reachable s4" unfolding s4_def by (rule fw_reachable.step [OF r3], rule fw_step.confirm_open) (simp add: s3_def)
  have st: "fw_step s4 s5" unfolding s5_def
    by (rule fw_step.confirm_keep) (simp_all add: s4_def s3_def s2_def s1_def logged_def keep_opening_def s(5))
  have ap: "fi_applied s5 = Some t" "fi_applied s4 = None" "fi_log s5 = Kept 0 # fi_log s4" "fi_verb s4 = ConfirmOpened sample_change"
    by (simp_all add: s5_def s4_def s3_def s2_def s1_def logged_def keep_opening_def keep_table_def sample_change_def s(6))
  then have "fi_applied s5 \<noteq> fi_applied s4" by simp
  from only_the_confirmed_is_kept [OF r4 st this] ap have "Claimed 0 \<in> set (fi_log s4)" by auto
  with ap show ?thesis by (intro exI [of _ s5] exI [of _ t]) simp
qed

end
