(* ===== verification/Worker_Release.thy ===== *)
theory Worker_Release
  imports Worker_Server "HOL-Library.List_Lexorder" "HOL-Library.Char_ord"
begin

text \<open>
  The releases of a worker as \<open>ctl.rs\<close> changes them, under the worker's lock: what a release must be to run,
  making one current and going back, removing old ones, and taking in an upload. Making a link or removing a
  directory may fail, and the agent's answers are an input, one after the other; a wait for health is the number
  of questions that fit in it. serde's reading of the records and SHA-256 are parameters.
\<close>

subsection \<open>The worker's directory\<close>

type_synonym release_dir = "(string \<times> string) list"

datatype agent_ask = AskStatus | AskRestart | AskStop

text \<open>Why an app cannot run.\<close>

datatype start_failure =
    NoCurrentRelease
  | CurrentIsNoRelease string
  | NoLaunchFile
  | BadLaunch release_error
  | LockedKey
  | LockedSecrets "string list"
  | CouldNotStart string
  | KeyNotHanded

record agent_status =
  as_state :: string
  as_healthy :: bool
  as_wanted :: bool
  as_key_held :: bool
  as_secrets_held :: "string list"
  as_release :: "string option"
  as_up_secs :: "u64 option"
  as_restarts :: u32
  as_last_exit :: "string option"
  as_reason :: "start_failure option"

record agent_reply =
  ar_ok :: bool
  ar_status :: "agent_status option"

record worker =
  wk_current :: "string option"
  wk_previous :: "string option"
  wk_releases :: "(string \<times> release_dir) list"
  wk_faults :: "bool list"
  wk_answers :: "agent_reply option list"
  wk_asked :: "agent_ask list"

record release_env =
  re_release :: "string \<Rightarrow> release option"
  re_launch :: "string \<Rightarrow> launch option"
  re_sha256 :: "string \<Rightarrow> string"
  re_polls :: "nat \<Rightarrow> nat"

datatype ctl_error =
    NotAReleaseId string
  | NoReadable string
  | BadRecord release_error
  | SaysItIs string
  | LaunchesOther string string
  | NotTheBinaryBuilt
  | NotTheFileShipped string
  | NotPointed string
  | NotRemoved string
  | NotListed
  | AgentSilent
  | AgentNoStatus
  | AgentRefused
  | AgentLocked
  | NotHealthyInTime string
  | NoPreviousRelease
  | NothingStaged

text \<open>The id a link points at, when it is one.\<close>

definition pointed :: "string option \<Rightarrow> string option" where
  "pointed link = (case link of Some i \<Rightarrow> (if is_release_id i then Some i else None) | None \<Rightarrow> None)"

definition take_fault_of :: "worker \<Rightarrow> bool \<times> worker" where
  "take_fault_of s = (case wk_faults s of [] \<Rightarrow> (False, s) | f # fs \<Rightarrow> (f, s\<lparr>wk_faults := fs\<rparr>))"

definition point_current :: "string \<Rightarrow> worker \<Rightarrow> (ctl_error + unit) \<times> worker" where
  "point_current i s =
     (case take_fault_of s of (f, s') \<Rightarrow> if f then (Err (NotPointed i), s') else (Ok (), s'\<lparr>wk_current := Some i\<rparr>))"

definition point_previous :: "string \<Rightarrow> worker \<Rightarrow> (ctl_error + unit) \<times> worker" where
  "point_previous i s =
     (case take_fault_of s of (f, s') \<Rightarrow> if f then (Err (NotPointed i), s') else (Ok (), s'\<lparr>wk_previous := Some i\<rparr>))"

definition ask_agent :: "agent_ask \<Rightarrow> worker \<Rightarrow> (ctl_error + agent_reply) \<times> worker" where
  "ask_agent q s =
     (case wk_answers s of
        [] \<Rightarrow> (Err AgentSilent, s\<lparr>wk_asked := wk_asked s @ [q]\<rparr>)
      | a # as \<Rightarrow>
         (case a of None \<Rightarrow> Err AgentSilent | Some r \<Rightarrow> Ok r, s\<lparr>wk_answers := as, wk_asked := wk_asked s @ [q]\<rparr>))"

subsection \<open>What a release must be\<close>

definition read_in :: "release_dir \<Rightarrow> string \<Rightarrow> ctl_error + string" where
  "read_in d name = ok_or (NoReadable name) (map_of d name)"

definition checked_release :: "release_env \<Rightarrow> worker \<Rightarrow> string \<Rightarrow> ctl_error + (release \<times> launch)" where
  "checked_release env s i =
     (if \<not> is_release_id i then Err (NotAReleaseId i)
      else
        (let d = (case map_of (wk_releases s) i of Some d \<Rightarrow> d | None \<Rightarrow> [])
         in and_then (and_then (read_in d ''release.json'') (\<lambda>t. map_err BadRecord (release_parse (re_release env) t))) (\<lambda>r.
            and_then (and_then (read_in d ''launch.json'') (\<lambda>t. map_err BadRecord (launch_parse (re_launch env) t))) (\<lambda>l.
            if rl_id r \<noteq> i then Err (SaysItIs (rl_id r))
            else if la_bin l \<noteq> rl_bin r then Err (LaunchesOther (la_bin l) (rl_bin r))
            else and_then (read_in d (rl_bin r)) (\<lambda>b.
              if re_sha256 env b \<noteq> rl_sha256 r then Err NotTheBinaryBuilt
              else case find (\<lambda>f. case map_of d (sh_path f) of None \<Rightarrow> True | Some t \<Rightarrow> re_sha256 env t \<noteq> sh_sha256 f) (rl_files r) of
                Some f \<Rightarrow> (case map_of d (sh_path f) of None \<Rightarrow> Err (NoReadable (sh_path f)) | Some t \<Rightarrow> Err (NotTheFileShipped (sh_path f)))
              | None \<Rightarrow> Ok (r, l))))))"

subsection \<open>Waiting for the agent\<close>

fun healthy :: "nat \<Rightarrow> string \<Rightarrow> worker \<Rightarrow> (ctl_error + agent_status) \<times> worker" where
  "healthy 0 i s = (Err (NotHealthyInTime i), s)"
| "healthy (Suc k) i s =
     (case ask_agent AskStatus s of
        (Inl e, s') \<Rightarrow> (Err e, s')
      | (Inr r, s') \<Rightarrow>
         (case ar_status r of
            None \<Rightarrow> (Err AgentNoStatus, s')
          | Some st \<Rightarrow>
             (if as_release st = Some i \<and> as_healthy st then (Ok st, s')
              else if as_state st = ''locked'' then (Err AgentLocked, s')
              else healthy k i s')))"

definition restart_app :: "worker \<Rightarrow> (ctl_error + unit) \<times> worker" where
  "restart_app s =
     (case ask_agent AskRestart s of
        (Inl e, s') \<Rightarrow> (Err e, s')
      | (Inr r, s') \<Rightarrow> (if ar_ok r \<or> ar_status r \<noteq> None then Ok () else Err AgentRefused, s'))"

subsection \<open>Old releases\<close>

text \<open>Listing the releases may fail; a directory that is not there has none.\<close>

definition oldest_first :: "worker \<Rightarrow> string list" where
  "oldest_first s = sort (filter is_release_id (map fst (wk_releases s)))"

definition release_ids :: "worker \<Rightarrow> (ctl_error + string list) \<times> worker" where
  "release_ids s = (case take_fault_of s of (f, s') \<Rightarrow> (if f then Err NotListed else Ok (oldest_first s'), s'))"

fun remove_all :: "string list \<Rightarrow> worker \<Rightarrow> (ctl_error + string list) \<times> worker" where
  "remove_all [] s = (Ok [], s)"
| "remove_all (i # is) s =
     (if pointed (wk_current s) = Some i \<or> pointed (wk_previous s) = Some i then remove_all is s
      else case take_fault_of s of
        (True, s') \<Rightarrow> (Err (NotRemoved i), s')
      | (False, s') \<Rightarrow>
         (case remove_all is (s'\<lparr>wk_releases := hm_remove i (wk_releases s')\<rparr>) of
            (Inl e, s'') \<Rightarrow> (Err e, s'')
          | (Inr gone, s'') \<Rightarrow> (Ok (i # gone), s'')))"

definition prune_releases :: "nat \<Rightarrow> worker \<Rightarrow> (ctl_error + string list) \<times> worker" where
  "prune_releases keep s =
     (case release_ids s of
        (Inl e, s') \<Rightarrow> (Err e, s')
      | (Inr ids, s') \<Rightarrow> remove_all (take (length ids - max keep 1) ids) s')"

subsection \<open>Making one current\<close>

datatype activation =
    Unchanged
  | Activated "string option" "string list"
  | LeftStopped ctl_error
  | PutBack string ctl_error bool

definition put_back :: "release_env \<Rightarrow> string \<Rightarrow> string option \<Rightarrow> ctl_error \<Rightarrow> worker \<Rightarrow> (ctl_error + activation) \<times> worker" where
  "put_back env old before_previous why s =
     (case point_current old s of
        (Inl e, s1) \<Rightarrow> (Err e, s1)
      | (Inr u, s1) \<Rightarrow>
         (case (case before_previous of None \<Rightarrow> (Ok (), s1) | Some p \<Rightarrow> point_previous p s1) of
            (Inl e, s2) \<Rightarrow> (Err e, s2)
          | (Inr u, s2) \<Rightarrow>
             (case restart_app s2 of
                (Inl e, s3) \<Rightarrow> (Err e, s3)
              | (Inr u, s3) \<Rightarrow>
                 (case healthy (re_polls env 1) old s3 of (b, s4) \<Rightarrow> (Ok (PutBack old why (is_ok b)), s4)))))"

definition activate_release :: "release_env \<Rightarrow> string \<Rightarrow> worker \<Rightarrow> (ctl_error + activation) \<times> worker" where
  "activate_release env i s =
     (case checked_release env s i of
        Inl e \<Rightarrow> (Err e, s)
      | Inr (r, l) \<Rightarrow>
         (let before = pointed (wk_current s); before_previous = pointed (wk_previous s)
          in if before = Some i then (Ok Unchanged, s)
             else case point_current i s of
               (Inl e, s1) \<Rightarrow> (Err e, s1)
             | (Inr u, s1) \<Rightarrow>
                (case (case before of None \<Rightarrow> (Ok (), s1) | Some old \<Rightarrow> point_previous old s1) of
                   (Inl e, s2) \<Rightarrow> (Err e, s2)
                 | (Inr u, s2) \<Rightarrow>
                    (case restart_app s2 of
                       (Inl e, s3) \<Rightarrow> (Err e, s3)
                     | (Inr u, s3) \<Rightarrow>
                        (case healthy (re_polls env 0) i s3 of
                           (Inr st, s4) \<Rightarrow>
                             (case prune_releases (la_keep_releases l) s4 of
                                (Inl e, s5) \<Rightarrow> (Err e, s5)
                              | (Inr gone, s5) \<Rightarrow> (Ok (Activated before gone), s5))
                         | (Inl why, s4) \<Rightarrow>
                             (case before of
                                None \<Rightarrow> (Ok (LeftStopped why), snd (ask_agent AskStop s4))
                              | Some old \<Rightarrow> put_back env old before_previous why s4))))))"

datatype going_back = SameRelease | WentBack string "string option" "ctl_error option"

definition rollback_release :: "release_env \<Rightarrow> string option \<Rightarrow> worker \<Rightarrow> (ctl_error + going_back) \<times> worker" where
  "rollback_release env to s =
     (let before = pointed (wk_current s)
      in case (case to of Some i \<Rightarrow> Some i | None \<Rightarrow> pointed (wk_previous s)) of
           None \<Rightarrow> (Err NoPreviousRelease, s)
         | Some i \<Rightarrow>
            (if before = Some i then (Ok SameRelease, s)
             else case checked_release env s i of
               Inl e \<Rightarrow> (Err e, s)
             | Inr (r, l) \<Rightarrow>
                (case point_current i s of
                   (Inl e, s1) \<Rightarrow> (Err e, s1)
                 | (Inr u, s1) \<Rightarrow>
                    (case (case before of None \<Rightarrow> (Ok (), s1) | Some old \<Rightarrow> point_previous old s1) of
                       (Inl e, s2) \<Rightarrow> (Err e, s2)
                     | (Inr u, s2) \<Rightarrow>
                        (case restart_app s2 of
                           (Inl e, s3) \<Rightarrow> (Err e, s3)
                         | (Inr u, s3) \<Rightarrow>
                            (case healthy (re_polls env 0) i s3 of
                               (b, s4) \<Rightarrow> (Ok (WentBack i before (case b of Inl e \<Rightarrow> Some e | Inr st \<Rightarrow> None)), s4)))))))"

subsection \<open>Taking in an upload\<close>

text \<open>\<open>staged\<close> is what was uploaded of the release, without what is neither a file nor a directory.\<close>

definition install_release :: "release_env \<Rightarrow> release_dir option \<Rightarrow> string \<Rightarrow> worker \<Rightarrow> (ctl_error + bool) \<times> worker" where
  "install_release env staged i s =
     (if \<not> is_release_id i then (Err (NotAReleaseId i), s)
      else if map_of (wk_releases s) i \<noteq> None then
        (case checked_release env s i of Inl e \<Rightarrow> (Err e, s) | Inr rl \<Rightarrow> (Ok False, s))
      else case Option.bind staged (\<lambda>d. map_of d ''release.json'') of
        None \<Rightarrow> (Err NothingStaged, s)
      | Some t \<Rightarrow>
         (case release_parse (re_release env) t of
            Inl e \<Rightarrow> (Err (BadRecord e), s)
          | Inr r \<Rightarrow>
             (case take_fault_of s of
                (True, s1) \<Rightarrow> (Err (NotPointed i), s1)
              | (False, s1) \<Rightarrow>
                 (let s2 = s1\<lparr>wk_releases := hm_insert i (case staged of Some d \<Rightarrow> d | None \<Rightarrow> []) (wk_releases s1)\<rparr>
                  in case checked_release env s2 i of
                       Inl e \<Rightarrow> (Err e, s2\<lparr>wk_releases := hm_remove i (wk_releases s2)\<rparr>)
                     | Inr rl \<Rightarrow> (Ok True, s2)))))"

subsection \<open>Lemmas\<close>

text \<open>The links and the releases a step leaves as they are.\<close>

definition same_dir :: "worker \<Rightarrow> worker \<Rightarrow> bool" where
  "same_dir s s' \<longleftrightarrow> wk_current s' = wk_current s \<and> wk_previous s' = wk_previous s \<and> wk_releases s' = wk_releases s"

lemma same_dir_refl [simp]: "same_dir s s"
  by (simp add: same_dir_def)

lemma take_fault_same: "take_fault_of s = (f, s') \<Longrightarrow> same_dir s s' \<and> wk_answers s' = wk_answers s"
  by (auto simp: take_fault_of_def same_dir_def split: list.splits)

lemma point_current_cases:
  "point_current i s = (r, s') \<Longrightarrow>
     wk_previous s' = wk_previous s \<and> wk_releases s' = wk_releases s \<and> wk_answers s' = wk_answers s \<and>
     (case r of Inl e \<Rightarrow> wk_current s' = wk_current s | Inr u \<Rightarrow> wk_current s' = Some i)"
  by (auto simp: point_current_def same_dir_def dest!: take_fault_same split: prod.splits if_splits)

lemma point_previous_cases:
  "point_previous i s = (r, s') \<Longrightarrow>
     wk_current s' = wk_current s \<and> wk_releases s' = wk_releases s \<and> wk_answers s' = wk_answers s \<and>
     (case r of Inl e \<Rightarrow> wk_previous s' = wk_previous s | Inr u \<Rightarrow> wk_previous s' = Some i)"
  by (auto simp: point_previous_def same_dir_def dest!: take_fault_same split: prod.splits if_splits)

lemma ask_same: "ask_agent q s = (r, s') \<Longrightarrow> same_dir s s' \<and> set (wk_answers s') \<subseteq> set (wk_answers s)"
  by (auto simp: ask_agent_def same_dir_def split: list.splits option.splits)

lemma ask_answer: "ask_agent q s = (Ok r, s') \<Longrightarrow> Some r \<in> set (wk_answers s)"
  by (auto simp: ask_agent_def split: list.splits option.splits)

lemma restart_same: "restart_app s = (r, s') \<Longrightarrow> same_dir s s' \<and> set (wk_answers s') \<subseteq> set (wk_answers s)"
  by (auto simp: restart_app_def dest: ask_same split: prod.splits sum.splits)

lemma healthy_same: "healthy k i s = (r, s') \<Longrightarrow> same_dir s s' \<and> set (wk_answers s') \<subseteq> set (wk_answers s)"
proof (induction k arbitrary: s)
  case (Suc k)
  obtain a s1 where a: "ask_agent AskStatus s = (a, s1)" by fastforce
  from ask_same [OF a] have s1: "same_dir s s1" "set (wk_answers s1) \<subseteq> set (wk_answers s)" by auto
  show ?case
  proof (cases "healthy k i s1 = (r, s')")
    case True
    from Suc.IH [OF this] s1 show ?thesis by (auto simp: same_dir_def)
  next
    case False
    with Suc.prems a have "s' = s1" by (auto split: sum.splits option.splits if_splits)
    with s1 show ?thesis by simp
  qed
qed simp

text \<open>The agent said it runs this release, healthy.\<close>

definition said_healthy :: "string \<Rightarrow> worker \<Rightarrow> bool" where
  "said_healthy i s \<longleftrightarrow> (\<exists>r st. Some r \<in> set (wk_answers s) \<and> ar_status r = Some st \<and> as_release st = Some i \<and> as_healthy st)"

lemma healthy_said: "healthy k i s = (Ok st, s') \<Longrightarrow> said_healthy i s"
proof (induction k arbitrary: s)
  case (Suc k)
  then obtain r s1 st1 where a: "ask_agent AskStatus s = (Ok r, s1)" and st1: "ar_status r = Some st1"
    by (auto split: prod.splits sum.splits option.splits)
  show ?case
  proof (cases "as_release st1 = Some i \<and> as_healthy st1")
    case True
    with ask_answer [OF a] st1 show ?thesis by (auto simp: said_healthy_def)
  next
    case False
    with Suc.prems a st1 have "healthy k i s1 = (Ok st, s')" by (auto split: if_splits)
    from Suc.IH [OF this] ask_same [OF a] show ?thesis by (auto simp: said_healthy_def)
  qed
qed simp

lemma hm_get_map_of: "map_of m k = hm_get m k"
  by (simp add: hm_get_def)

lemma remove_all_facts:
  "remove_all is s = (r, s') \<Longrightarrow>
     wk_current s' = wk_current s \<and> wk_previous s' = wk_previous s \<and>
     (\<forall>gone. r = Ok gone \<longrightarrow> gone = filter (\<lambda>x. pointed (wk_current s) \<noteq> Some x \<and> pointed (wk_previous s) \<noteq> Some x) is \<and>
        (\<forall>x. hm_get (wk_releases s') x = (if x \<in> set gone then None else hm_get (wk_releases s) x)))"
proof (induction "is" s arbitrary: r s' rule: remove_all.induct)
  case (2 i "is" s)
  show ?case
  proof (cases "pointed (wk_current s) = Some i \<or> pointed (wk_previous s) = Some i")
    case True
    with 2(3) have "remove_all is s = (r, s')" by simp
    from 2(1) [OF True this] True show ?thesis by auto
  next
    case False
    obtain f s1 where f: "take_fault_of s = (f, s1)" by fastforce
    from take_fault_same [OF f] have s1: "wk_current s1 = wk_current s" "wk_previous s1 = wk_previous s" "wk_releases s1 = wk_releases s"
      by (auto simp: same_dir_def)
    show ?thesis
    proof (cases f)
      case True
      with 2(3) False f s1 show ?thesis by auto
    next
      case nf: False
      obtain r2 s2 where rec: "remove_all is (s1\<lparr>wk_releases := hm_remove i (wk_releases s1)\<rparr>) = (r2, s2)" by fastforce
      have f': "take_fault_of s = (False, s1)" using f nf by simp
      note IH = 2(2) [OF False f' [symmetric] refl rec]
      from 2(3) False f' rec have r: "r = (case r2 of Inl e \<Rightarrow> Err e | Inr gone \<Rightarrow> Ok (i # gone))" "s' = s2"
        by (auto split: sum.splits)
      show ?thesis
      proof (cases r2)
        case (Inl e)
        with IH s1 show ?thesis by (simp add: r)
      next
        case (Inr gone)
        with IH s1 have g: "wk_current s2 = wk_current s" "wk_previous s2 = wk_previous s"
            "gone = filter (\<lambda>x. pointed (wk_current s) \<noteq> Some x \<and> pointed (wk_previous s) \<noteq> Some x) is"
            "\<forall>x. hm_get (wk_releases s2) x = (if x \<in> set gone then None else hm_get (hm_remove i (wk_releases s)) x)" by simp_all
        have "hm_get (wk_releases s2) x = (if x \<in> set (i # gone) then None else hm_get (wk_releases s) x)" for x
          using g(4) by simp
        with g False show ?thesis by (auto simp: r Inr)
      qed
    qed
  qed
qed auto

lemma prune_facts:
  assumes "prune_releases keep s = (r, s')"
  shows "wk_current s' = wk_current s \<and> wk_previous s' = wk_previous s \<and>
     (\<forall>gone. r = Ok gone \<longrightarrow>
        gone = filter (\<lambda>x. pointed (wk_current s) \<noteq> Some x \<and> pointed (wk_previous s) \<noteq> Some x)
          (take (length (oldest_first s) - max keep 1) (oldest_first s)) \<and>
        (\<forall>x. hm_get (wk_releases s') x = (if x \<in> set gone then None else hm_get (wk_releases s) x)))"
proof -
  obtain f s1 where f: "take_fault_of s = (f, s1)" by fastforce
  from take_fault_same [OF f] have s1: "wk_current s1 = wk_current s" "wk_previous s1 = wk_previous s" "wk_releases s1 = wk_releases s"
    by (auto simp: same_dir_def)
  then have "oldest_first s1 = oldest_first s" by (simp add: oldest_first_def)
  with assms f s1 remove_all_facts [of "take (length (oldest_first s) - max keep 1) (oldest_first s)" s1 r s'] show ?thesis
    by (cases f) (simp_all add: prune_releases_def release_ids_def, auto)
qed

text \<open>What runs from a release directory is what was built and shipped, from inside that directory.\<close>

definition sound_release :: "release_env \<Rightarrow> worker \<Rightarrow> string \<Rightarrow> bool" where
  "sound_release env s i \<longleftrightarrow>
     is_release_id i \<and>
     (\<exists>d t r. hm_get (wk_releases s) i = Some d \<and> map_of d ''release.json'' = Some t \<and> re_release env t = Some r \<and> rl_id r = i \<and>
        (\<forall>(path, digest) \<in> insert (rl_bin r, rl_sha256 r) (set (map (\<lambda>f. (sh_path f, sh_sha256 f)) (rl_files r))).
           (\<exists>b. map_of d path = Some b \<and> re_sha256 env b = digest) \<and>
           (\<forall>base. leads_to base path = base @ split_on (CHR ''/'') path)))"

lemma find_none: "find P xs = None \<Longrightarrow> x \<in> set xs \<Longrightarrow> \<not> P x"
  by (induction xs) (auto split: if_splits)

lemma release_parse_Ok:
  "release_parse read t = Ok r \<Longrightarrow>
     read t = Some r \<and> is_inside (rl_bin r) \<and> (\<forall>f\<in>set (rl_files r). is_inside (sh_path f)) \<and> is_release_id (rl_id r)"
  by (auto simp: release_parse_def split: option.splits if_splits dest: find_none)

lemma checked_sound:
  assumes "checked_release env s i = Ok rl"
  shows "sound_release env s i"
proof -
  obtain r l where rl: "rl = (r, l)" by (cases rl)
  let ?d = "case map_of (wk_releases s) i of Some d \<Rightarrow> d | None \<Rightarrow> []"
  from assms obtain t b where id: "is_release_id i" and t: "map_of ?d ''release.json'' = Some t" "release_parse (re_release env) t = Ok r"
    "rl_id r = i" "map_of ?d (rl_bin r) = Some b" "re_sha256 env b = rl_sha256 r" and
    f: "find (\<lambda>f. case map_of ?d (sh_path f) of None \<Rightarrow> True | Some t \<Rightarrow> re_sha256 env t \<noteq> sh_sha256 f) (rl_files r) = None"
    by (auto simp: checked_release_def read_in_def Let_def and_then_Ok rl split: if_splits option.splits)
  from t(1) obtain d where d: "map_of (wk_releases s) i = Some d" by (cases "map_of (wk_releases s) i") auto
  note p = release_parse_Ok [OF t(2)]
  have files: "\<exists>b. map_of d (sh_path f) = Some b \<and> re_sha256 env b = sh_sha256 f" if "f \<in> set (rl_files r)" for f
    using find_none [OF f that] by (auto simp: d split: option.splits)
  show ?thesis unfolding sound_release_def
    using id t d p files by (intro conjI exI [of _ d] exI [of _ t] exI [of _ r]) (auto simp: hm_get_map_of [symmetric] is_inside_leads)
qed

lemma pointed_Some: "pointed link = Some i \<Longrightarrow> link = Some i"
  by (auto simp: pointed_def split: option.splits if_splits)

lemma previous_step:
  assumes "(case before of None \<Rightarrow> (Ok (), s1) | Some old \<Rightarrow> point_previous old s1) = (r, s2)"
  shows "wk_current s2 = wk_current s1 \<and> wk_releases s2 = wk_releases s1 \<and> wk_answers s2 = wk_answers s1 \<and>
    (\<forall>u. r = Ok u \<longrightarrow> wk_previous s2 = (case before of None \<Rightarrow> wk_previous s1 | Some old \<Rightarrow> Some old))"
  using assms point_previous_cases [of _ s1 r s2] by (cases before) auto

lemma put_back_links:
  assumes "put_back env old before_previous why s = (r, s')"
  shows "wk_current s' \<in> {wk_current s, Some old} \<and> wk_releases s' = wk_releases s \<and>
    (\<forall>out. r = Ok out \<longrightarrow> (\<exists>b. out = PutBack old why b) \<and> wk_current s' = Some old \<and>
       wk_previous s' = (case before_previous of None \<Rightarrow> wk_previous s | Some p \<Rightarrow> Some p))"
proof -
  obtain r1 s1 where 1: "point_current old s = (r1, s1)" by fastforce
  note f1 = point_current_cases [OF 1]
  show ?thesis
  proof (cases r1)
    case (Inl e)
    with assms 1 f1 show ?thesis by (auto simp: put_back_def)
  next
    case (Inr u1)
    obtain r2 s2 where 2: "(case before_previous of None \<Rightarrow> (Ok (), s1) | Some p \<Rightarrow> point_previous p s1) = (r2, s2)" by fastforce
    note f2 = previous_step [OF 2]
    show ?thesis
    proof (cases r2)
      case (Inl e)
      with assms 1 2 Inr f1 f2 show ?thesis by (auto simp: put_back_def)
    next
      case r2: (Inr u2)
      obtain r3 s3 where 3: "restart_app s2 = (r3, s3)" by fastforce
      obtain r4 s4 where 4: "healthy (re_polls env 1) old s3 = (r4, s4)" by fastforce
      have dirs: "wk_current s2 = Some old" "wk_releases s2 = wk_releases s"
        "wk_previous s2 = (case before_previous of None \<Rightarrow> wk_previous s | Some p \<Rightarrow> Some p)"
        using f1 f2 r2 Inr by (auto split: option.splits)
      show ?thesis
      proof (cases r3)
        case (Inl e)
        with assms 1 2 3 Inr r2 have "r = Err e" "s' = s3" by (auto simp: put_back_def)
        with restart_same [OF 3] dirs show ?thesis by (simp add: same_dir_def)
      next
        case r3: (Inr u3)
        with assms 1 2 3 4 Inr r2 have "r = Ok (PutBack old why (is_ok r4))" "s' = s4" by (auto simp: put_back_def)
        with restart_same [OF 3] healthy_same [OF 4] dirs show ?thesis by (simp add: same_dir_def)
      qed
    qed
  qed
qed

lemma activate_links:
  assumes act: "activate_release env i s = (r, s')" and ck: "checked_release env s i = Ok (rl, l)" and other: "pointed (wk_current s) \<noteq> Some i"
  shows "wk_current s' \<in> {wk_current s, Some i} \<and>
    (\<forall>out. r = Ok out \<longrightarrow>
       (case out of
          Unchanged \<Rightarrow> False
        | Activated before gone \<Rightarrow>
           before = pointed (wk_current s) \<and> wk_current s' = Some i \<and> said_healthy i s \<and>
           wk_previous s' = (case before of None \<Rightarrow> wk_previous s | Some old \<Rightarrow> Some old) \<and>
           gone = filter (\<lambda>x. pointed (wk_current s') \<noteq> Some x \<and> pointed (wk_previous s') \<noteq> Some x)
             (take (length (oldest_first s) - max (la_keep_releases l) 1) (oldest_first s)) \<and>
           (\<forall>x. hm_get (wk_releases s') x = (if x \<in> set gone then None else hm_get (wk_releases s) x))
        | LeftStopped why \<Rightarrow>
           pointed (wk_current s) = None \<and> wk_current s' = Some i \<and> wk_previous s' = wk_previous s \<and> wk_releases s' = wk_releases s
        | PutBack old why b \<Rightarrow>
           wk_current s' = wk_current s \<and> wk_current s = Some old \<and> wk_releases s' = wk_releases s \<and>
           wk_previous s' = (case pointed (wk_previous s) of None \<Rightarrow> Some old | Some p \<Rightarrow> Some p)))"
proof -
  let ?before = "pointed (wk_current s)"
  have other': "(?before = Some i) = False" using other by simp
  obtain r1 s1 where 1: "point_current i s = (r1, s1)" by fastforce
  note f1 = point_current_cases [OF 1]
  show ?thesis
  proof (cases r1)
    case (Inl e)
    with act 1 f1 ck other' show ?thesis by (auto simp: activate_release_def Let_def)
  next
    case r1: (Inr u1)
    obtain r2 s2 where 2: "(case ?before of None \<Rightarrow> (Ok (), s1) | Some old \<Rightarrow> point_previous old s1) = (r2, s2)" by fastforce
    note f2 = previous_step [OF 2]
    show ?thesis
    proof (cases r2)
      case (Inl e)
      with act 1 2 r1 f1 f2 ck other' show ?thesis by (auto simp: activate_release_def Let_def)
    next
      case r2: (Inr u2)
      obtain r3 s3 where 3: "restart_app s2 = (r3, s3)" by fastforce
      note f3 = restart_same [OF 3]
      show ?thesis
      proof (cases r3)
        case (Inl e)
        with act 1 2 3 r1 r2 f1 f2 f3 ck other' show ?thesis by (auto simp: activate_release_def Let_def same_dir_def)
      next
        case r3: (Inr u3)
        obtain r4 s4 where 4: "healthy (re_polls env 0) i s3 = (r4, s4)" by fastforce
        note f4 = healthy_same [OF 4]
        have upto: "wk_current s4 = Some i" "wk_releases s4 = wk_releases s"
            "wk_previous s4 = (case ?before of None \<Rightarrow> wk_previous s | Some old \<Rightarrow> Some old)"
            "set (wk_answers s3) \<subseteq> set (wk_answers s)"
          using f1 f2 f3 f4 r1 r2 by (auto simp: same_dir_def split: option.splits)
        show ?thesis
        proof (cases r4)
          case (Inr st)
          obtain r5 s5 where 5: "prune_releases (la_keep_releases l) s4 = (r5, s5)" by fastforce
          note f5 = prune_facts [OF 5]
          have ids: "oldest_first s4 = oldest_first s" by (simp add: oldest_first_def upto)
          have said: "said_healthy i s"
            using healthy_said [of "re_polls env 0" i s3 st s4] 4 Inr upto(4) unfolding said_healthy_def by blast
          from act have act': "(r, s') = (case r5 of Inl e \<Rightarrow> Err e | Inr gone \<Rightarrow> Ok (Activated ?before gone), s5)"
            using 1 2 3 4 5 r1 r2 r3 Inr ck other' by (auto simp: activate_release_def Let_def split: sum.splits)
          show ?thesis
          proof (cases r5)
            case (Inl e)
            with act' f5 upto show ?thesis by auto
          next
            case (Inr gone)
            with act' f5 upto ids said show ?thesis by auto
          qed
        next
          case (Inl why)
          show ?thesis
          proof (cases ?before)
            case None
            obtain r5 s5 where 5: "ask_agent AskStop s4 = (r5, s5)" by fastforce
            from act have "(r, s') = (Ok (LeftStopped why), s5)"
              using 1 2 3 4 5 r1 r2 r3 Inl ck None by (auto simp: activate_release_def Let_def)
            with ask_same [OF 5] upto None show ?thesis by (auto simp: same_dir_def)
          next
            case (Some old)
            from act have pb: "put_back env old (pointed (wk_previous s)) why s4 = (r, s')"
              using 1 2 3 4 r1 r2 r3 Inl ck Some other by (auto simp: activate_release_def Let_def)
            from put_back_links [OF pb] upto pointed_Some [OF Some] Some show ?thesis
              by (auto split: option.splits)
          qed
        qed
      qed
    qed
  qed
qed

text \<open>What the agent was asked between two states, and what it answered to the question \<open>n\<close>.\<close>

definition asked_on :: "worker \<Rightarrow> agent_ask list \<Rightarrow> worker \<Rightarrow> bool" where
  "asked_on s qs s' \<longleftrightarrow> wk_asked s' = wk_asked s @ qs \<and> wk_answers s' = drop (length qs) (wk_answers s)"

definition answer_to :: "worker \<Rightarrow> nat \<Rightarrow> agent_reply option" where
  "answer_to s n = (if n < length (wk_answers s) then wk_answers s ! n else None)"

definition says_healthy :: "string \<Rightarrow> agent_reply option \<Rightarrow> bool" where
  "says_healthy i a =
     (case Option.bind a ar_status of Some st \<Rightarrow> as_release st = Some i \<and> as_healthy st | None \<Rightarrow> False)"

text \<open>After this answer the agent is not asked again: it could not be asked, told nothing of itself, or is locked.\<close>

definition gives_up :: "agent_reply option \<Rightarrow> bool" where
  "gives_up a = (case Option.bind a ar_status of None \<Rightarrow> True | Some st \<Rightarrow> as_state st = ''locked'')"

lemma asked_on_trans: "asked_on s qs s1 \<Longrightarrow> asked_on s1 qs' s2 \<Longrightarrow> asked_on s (qs @ qs') s2"
  by (simp add: asked_on_def add.commute)

lemma answer_to_on: "asked_on s qs s1 \<Longrightarrow> answer_to s1 n = answer_to s (length qs + n)"
  by (auto simp: asked_on_def answer_to_def)

lemma ask_talk: "ask_agent q s = (r, s') \<Longrightarrow> asked_on s [q] s' \<and> answer_to s 0 = (case r of Inl e \<Rightarrow> None | Inr a \<Rightarrow> Some a)"
  by (auto simp: ask_agent_def asked_on_def answer_to_def split: list.splits option.splits)

lemma restart_talk: "restart_app s = (r, s') \<Longrightarrow> asked_on s [AskRestart] s'"
  by (auto simp: restart_app_def dest: ask_talk split: prod.splits sum.splits)

lemma take_fault_talk: "take_fault_of s = (f, s') \<Longrightarrow> asked_on s [] s'"
  by (auto simp: take_fault_of_def asked_on_def split: list.splits)

lemma point_talk:
  "point_current i s = (r, s') \<Longrightarrow> asked_on s [] s'"
  "point_previous i s = (r, s') \<Longrightarrow> asked_on s [] s'"
  "(case before of None \<Rightarrow> (Ok (), s) | Some old \<Rightarrow> point_previous old s) = (r, s') \<Longrightarrow> asked_on s [] s'"
  by (auto simp: point_current_def point_previous_def asked_on_def dest!: take_fault_talk split: prod.splits if_splits option.splits)

lemma remove_all_talk: "remove_all is s = (r, s') \<Longrightarrow> asked_on s [] s'"
proof (induction "is" s arbitrary: r s' rule: remove_all.induct)
  case (2 i "is" s)
  then show ?case
    by (auto simp: asked_on_def dest!: take_fault_talk split: if_splits prod.splits bool.splits sum.splits)
qed (simp add: asked_on_def)

lemma prune_talk: "prune_releases keep s = (r, s') \<Longrightarrow> asked_on s [] s'"
  by (auto simp: prune_releases_def release_ids_def asked_on_def dest!: take_fault_talk remove_all_talk split: prod.splits if_splits)

lemma healthy_talk:
  "healthy k i s = (r, s') \<Longrightarrow>
     \<exists>n\<le>k. asked_on s (replicate n AskStatus) s' \<and> (is_ok r \<or> n = k \<or> (\<exists>m. n = Suc m \<and> gives_up (answer_to s m))) \<and>
       (is_ok r \<longrightarrow> (\<exists>m. n = Suc m \<and> says_healthy i (answer_to s m))) \<and> (\<not> is_ok r \<longrightarrow> (\<forall>j<n. \<not> says_healthy i (answer_to s j)))"
proof (induction k arbitrary: s)
  case 0
  then show ?case by (intro exI [of _ 0]) (auto simp: asked_on_def)
next
  case (Suc k)
  obtain a s1 where a: "ask_agent AskStatus s = (a, s1)" by fastforce
  note t = ask_talk [OF a, THEN conjunct1] and h = ask_talk [OF a, THEN conjunct2]
  have one: "replicate (Suc 0) AskStatus = [AskStatus]" by simp
  show ?case
  proof (cases "is_ok r \<and> says_healthy i (answer_to s 0) \<and> s' = s1 \<or>
      \<not> is_ok r \<and> \<not> says_healthy i (answer_to s 0) \<and> gives_up (answer_to s 0) \<and> s' = s1")
    case True
    with t show ?thesis by (intro exI [of _ "Suc 0"]) auto
  next
    case False
    with Suc.prems a h have rec: "healthy k i s1 = (r, s')" and no: "\<not> says_healthy i (answer_to s 0)"
      by (auto simp: says_healthy_def gives_up_def split: sum.splits option.splits if_splits)
    from Suc.IH [OF rec] obtain n where n: "asked_on s1 (replicate n AskStatus) s'"
      "is_ok r \<longrightarrow> (\<exists>m. n = Suc m \<and> says_healthy i (answer_to s1 m))" "\<not> is_ok r \<longrightarrow> (\<forall>j<n. \<not> says_healthy i (answer_to s1 j))"
      "n \<le> k" "is_ok r \<or> n = k \<or> (\<exists>m. n = Suc m \<and> gives_up (answer_to s1 m))" by blast
    have shift: "answer_to s1 j = answer_to s (Suc j)" for j using answer_to_on [OF t] by simp
    have "asked_on s (replicate (Suc n) AskStatus) s'" using asked_on_trans [OF t n(1)] by simp
    with n(2-5) no show ?thesis
      by (intro exI [of _ "Suc n"]) (auto simp: shift less_Suc_eq_0_disj)
  qed
qed

lemma put_back_talk:
  assumes "put_back env old before_previous why s = (Ok out, s')"
  shows "\<exists>k \<le> re_polls env 1. asked_on s (AskRestart # replicate k AskStatus) s' \<and>
    (\<exists>b. out = PutBack old why b \<and> b = (\<exists>j\<in>{1..k}. says_healthy old (answer_to s j)) \<and>
      (b \<or> k = re_polls env 1 \<or> 0 < k \<and> gives_up (answer_to s k)))"
proof -
  from assms obtain u1 s1 u2 s2 u3 s3 b where 1: "point_current old s = (Ok u1, s1)"
    and 2: "(case before_previous of None \<Rightarrow> (Ok (), s1) | Some p \<Rightarrow> point_previous p s1) = (Ok u2, s2)"
    and 3: "restart_app s2 = (Ok u3, s3)" and 4: "healthy (re_polls env 1) old s3 = (b, s')" and out: "out = PutBack old why (is_ok b)"
    by (auto simp: put_back_def split: prod.splits sum.splits)
  have t3: "asked_on s [AskRestart] s3"
    using asked_on_trans [OF asked_on_trans [OF point_talk(1) [OF 1] point_talk(3) [OF 2]] restart_talk [OF 3]] by simp
  from healthy_talk [OF 4] obtain k where k: "asked_on s3 (replicate k AskStatus) s'"
    "is_ok b \<longrightarrow> (\<exists>m. k = Suc m \<and> says_healthy old (answer_to s3 m))" "\<not> is_ok b \<longrightarrow> (\<forall>j<k. \<not> says_healthy old (answer_to s3 j))"
    "k \<le> re_polls env 1" "is_ok b \<or> k = re_polls env 1 \<or> (\<exists>m. k = Suc m \<and> gives_up (answer_to s3 m))" by blast
  have shift: "answer_to s3 j = answer_to s (Suc j)" for j using answer_to_on [OF t3] by simp
  have "is_ok b = (\<exists>j\<in>{1..k}. says_healthy old (answer_to s j))"
  proof
    assume "is_ok b"
    with k(2) obtain m where "k = Suc m" "says_healthy old (answer_to s3 m)" by blast
    then show "\<exists>j\<in>{1..k}. says_healthy old (answer_to s j)" by (intro bexI [of _ "Suc m"]) (simp_all add: shift)
  next
    assume "\<exists>j\<in>{1..k}. says_healthy old (answer_to s j)"
    then obtain m where "m < k" "says_healthy old (answer_to s (Suc m))"
      by (metis Suc_le_D Suc_le_lessD atLeastAtMost_iff One_nat_def)
    with k(3) show "is_ok b" by (auto simp: shift)
  qed
  moreover have "is_ok b \<or> k = re_polls env 1 \<or> 0 < k \<and> gives_up (answer_to s k)" using k(5) by (auto simp: shift)
  ultimately show ?thesis using asked_on_trans [OF t3 k(1)] out k(4)
    by (intro exI [of _ k] conjI exI [of _ "is_ok b"]) simp_all
qed

lemma activate_Ok:
  assumes act: "activate_release env i s = (Ok out, s')" and ck: "checked_release env s i = Ok (rl, l)" and other: "pointed (wk_current s) \<noteq> Some i"
  obtains s3 r4 s4 where "asked_on s [AskRestart] s3" and "healthy (re_polls env 0) i s3 = (r4, s4)"
    and "case r4 of
        Inr st \<Rightarrow> \<exists>gone. prune_releases (la_keep_releases l) s4 = (Ok gone, s') \<and> out = Activated (pointed (wk_current s)) gone
      | Inl why \<Rightarrow>
         (case pointed (wk_current s) of
            None \<Rightarrow> out = LeftStopped why \<and> s' = snd (ask_agent AskStop s4)
          | Some old \<Rightarrow> put_back env old (pointed (wk_previous s)) why s4 = (Ok out, s'))"
proof -
  let ?before = "pointed (wk_current s)"
  from act ck other obtain u1 s1 u2 s2 u3 s3 where 1: "point_current i s = (Ok u1, s1)"
    and 2: "(case ?before of None \<Rightarrow> (Ok (), s1) | Some old \<Rightarrow> point_previous old s1) = (Ok u2, s2)"
    and 3: "restart_app s2 = (Ok u3, s3)"
    by (auto simp: activate_release_def Let_def split: prod.splits sum.splits)
  obtain r4 s4 where 4: "healthy (re_polls env 0) i s3 = (r4, s4)" by fastforce
  have "asked_on s [AskRestart] s3"
    using asked_on_trans [OF asked_on_trans [OF point_talk(1) [OF 1] point_talk(3) [OF 2]] restart_talk [OF 3]] by simp
  moreover have "case r4 of
        Inr st \<Rightarrow> \<exists>gone. prune_releases (la_keep_releases l) s4 = (Ok gone, s') \<and> out = Activated ?before gone
      | Inl why \<Rightarrow>
         (case ?before of
            None \<Rightarrow> out = LeftStopped why \<and> s' = snd (ask_agent AskStop s4)
          | Some old \<Rightarrow> put_back env old (pointed (wk_previous s)) why s4 = (Ok out, s'))"
  proof (cases r4)
    case (Inl why)
    with act ck other 1 2 3 4 show ?thesis by (cases ?before) (simp_all add: activate_release_def Let_def)
  next
    case (Inr st)
    obtain r5 s5 where "prune_releases (la_keep_releases l) s4 = (r5, s5)" by fastforce
    with Inr act ck other 1 2 3 4 show ?thesis by (cases r5) (simp_all add: activate_release_def Let_def)
  qed
  ultimately show thesis using 4 that by blast
qed

text \<open>What an activation asked of the agent, and heard, for each answer it gives.\<close>

definition activation_talk :: "release_env \<Rightarrow> string \<Rightarrow> worker \<Rightarrow> worker \<Rightarrow> activation \<Rightarrow> bool" where
  "activation_talk env i s s' out =
     (case out of
        Unchanged \<Rightarrow> asked_on s [] s'
      | Activated before gone \<Rightarrow> \<exists>n. asked_on s (AskRestart # replicate (Suc n) AskStatus) s' \<and> says_healthy i (answer_to s (Suc n))
      | LeftStopped why \<Rightarrow> \<exists>n. asked_on s (AskRestart # replicate n AskStatus @ [AskStop]) s' \<and>
          (n = re_polls env 0 \<or> 0 < n \<and> gives_up (answer_to s n)) \<and> (\<forall>j\<in>{1..n}. \<not> says_healthy i (answer_to s j))
      | PutBack old why b \<Rightarrow> \<exists>n k. asked_on s (AskRestart # replicate n AskStatus @ AskRestart # replicate k AskStatus) s' \<and>
          (n = re_polls env 0 \<or> 0 < n \<and> gives_up (answer_to s n)) \<and> (\<forall>j\<in>{1..n}. \<not> says_healthy i (answer_to s j)) \<and>
          b = (\<exists>j\<in>{n + 2..n + k + 1}. says_healthy old (answer_to s j)) \<and>
          (b \<or> k = re_polls env 1 \<or> 0 < k \<and> gives_up (answer_to s (n + k + 1))))"

lemma not_said_shift:
  assumes "asked_on s [q] s3" and "\<forall>j<n. \<not> P (answer_to s3 j)"
  shows "\<forall>j\<in>{1..n}. \<not> P (answer_to s j)"
proof
  fix j assume "j \<in> {1..n}"
  then obtain m where "j = Suc m" "m < n" by (cases j) auto
  with assms(2) have "\<not> P (answer_to s3 m)" by blast
  with answer_to_on [OF assms(1), of m] \<open>j = Suc m\<close> show "\<not> P (answer_to s j)" by simp
qed

lemma activate_talk:
  assumes act: "activate_release env i s = (Ok out, s')" and ck: "checked_release env s i = Ok (rl, l)" and other: "pointed (wk_current s) \<noteq> Some i"
  shows "activation_talk env i s s' out"
proof -
  from activate_Ok [OF act ck other] obtain s3 r4 s4 where t3: "asked_on s [AskRestart] s3"
    and 4: "healthy (re_polls env 0) i s3 = (r4, s4)" and out: "case r4 of
        Inr st \<Rightarrow> \<exists>gone. prune_releases (la_keep_releases l) s4 = (Ok gone, s') \<and> out = Activated (pointed (wk_current s)) gone
      | Inl why \<Rightarrow>
         (case pointed (wk_current s) of
            None \<Rightarrow> out = LeftStopped why \<and> s' = snd (ask_agent AskStop s4)
          | Some old \<Rightarrow> put_back env old (pointed (wk_previous s)) why s4 = (Ok out, s'))" by blast
  from healthy_talk [OF 4] obtain n where n: "asked_on s3 (replicate n AskStatus) s4"
    "is_ok r4 \<longrightarrow> (\<exists>m. n = Suc m \<and> says_healthy i (answer_to s3 m))" "\<not> is_ok r4 \<longrightarrow> (\<forall>j<n. \<not> says_healthy i (answer_to s3 j))"
    "is_ok r4 \<or> n = re_polls env 0 \<or> (\<exists>m. n = Suc m \<and> gives_up (answer_to s3 m))" by blast
  note t4 = asked_on_trans [OF t3 n(1)]
  show ?thesis
  proof (cases r4)
    case (Inr st)
    with out obtain gone where g: "prune_releases (la_keep_releases l) s4 = (Ok gone, s')" "out = Activated (pointed (wk_current s)) gone" by auto
    from n(2) Inr obtain m where m: "n = Suc m" "says_healthy i (answer_to s3 m)" by auto
    with answer_to_on [OF t3, of m] asked_on_trans [OF t4 prune_talk [OF g(1)]] show ?thesis
      by (auto simp: activation_talk_def g(2))
  next
    case (Inl why)
    with n(3) have no: "\<forall>j\<in>{1..n}. \<not> says_healthy i (answer_to s j)" using not_said_shift [OF t3] by auto
    from n(4) Inl answer_to_on [OF t3] have till: "n = re_polls env 0 \<or> 0 < n \<and> gives_up (answer_to s n)" by auto
    show ?thesis
    proof (cases "pointed (wk_current s)")
      case None
      obtain r5 s5 where 5: "ask_agent AskStop s4 = (r5, s5)" by fastforce
      with out Inl None have "out = LeftStopped why" "s' = s5" by simp_all
      moreover have "asked_on s (AskRestart # replicate n AskStatus @ [AskStop]) s5"
        using asked_on_trans [OF t4 ask_talk [OF 5, THEN conjunct1]] by simp
      ultimately show ?thesis using no till by (auto simp: activation_talk_def)
    next
      case (Some old)
      with out Inl have "put_back env old (pointed (wk_previous s)) why s4 = (Ok out, s')" by simp
      from put_back_talk [OF this] obtain k b where k: "asked_on s4 (AskRestart # replicate k AskStatus) s'" "out = PutBack old why b"
        "b = (\<exists>j\<in>{1..k}. says_healthy old (answer_to s4 j))" "b \<or> k = re_polls env 1 \<or> 0 < k \<and> gives_up (answer_to s4 k)" by blast
      have shift: "answer_to s4 j = answer_to s (Suc n + j)" for j using answer_to_on [OF t4] by simp
      have "(+) (Suc n) ` {1..k} = {n + 2..n + k + 1}" by (subst image_add_atLeastAtMost) simp
      moreover have "(\<exists>j\<in>{1..k}. says_healthy old (answer_to s4 j)) = (\<exists>j\<in>(+) (Suc n) ` {1..k}. says_healthy old (answer_to s j))"
        unfolding shift by blast
      ultimately have again: "(\<exists>j\<in>{1..k}. says_healthy old (answer_to s4 j)) = (\<exists>j\<in>{n + 2..n + k + 1}. says_healthy old (answer_to s j))"
        by (simp only:)
      have "asked_on s (AskRestart # replicate n AskStatus @ AskRestart # replicate k AskStatus) s'"
        using asked_on_trans [OF t4 k(1)] by simp
      moreover have "b \<or> k = re_polls env 1 \<or> 0 < k \<and> gives_up (answer_to s (n + k + 1))" using k(4) by (simp add: shift)
      ultimately show ?thesis using no till k(3) again unfolding k(2) activation_talk_def activation.case by blast
    qed
  qed
qed

lemma activate_current: "wk_current (snd (activate_release env i s)) \<in> insert (wk_current s) {Some j |j. sound_release env s j}"
proof (cases "checked_release env s i")
  case (Inl e)
  then show ?thesis by (simp add: activate_release_def)
next
  case (Inr rl)
  show ?thesis
  proof (cases "pointed (wk_current s) = Some i")
    case True
    with Inr show ?thesis by (cases rl) (simp add: activate_release_def Let_def)
  next
    case False
    obtain r s' where run: "activate_release env i s = (r, s')" by fastforce
    obtain rel l where rl: "rl = (rel, l)" by (cases rl)
    from activate_links [OF run Inr [unfolded rl] False] have "wk_current s' \<in> {wk_current s, Some i}" by blast
    with checked_sound [OF Inr] run show ?thesis by auto
  qed
qed

lemma rollback_current: "wk_current (snd (rollback_release env to s)) \<in> insert (wk_current s) {Some j |j. sound_release env s j}"
proof (cases "case to of Some i \<Rightarrow> Some i | None \<Rightarrow> pointed (wk_previous s)")
  case None
  then show ?thesis by (simp add: rollback_release_def Let_def)
next
  case (Some i)
  show ?thesis
  proof (cases "pointed (wk_current s) = Some i")
    case True
    with Some show ?thesis by (simp add: rollback_release_def Let_def)
  next
    case other: False
    show ?thesis
    proof (cases "checked_release env s i")
      case (Inl e)
      with Some other show ?thesis by (simp add: rollback_release_def Let_def)
    next
      case (Inr rl)
      obtain rel l where rl: "rl = (rel, l)" by (cases rl)
      obtain r1 s1 where 1: "point_current i s = (r1, s1)" by fastforce
      obtain r2 s2 where 2: "(case pointed (wk_current s) of None \<Rightarrow> (Ok (), s1) | Some old \<Rightarrow> point_previous old s1) = (r2, s2)" by fastforce
      obtain r3 s3 where 3: "restart_app s2 = (r3, s3)" by fastforce
      obtain r4 s4 where 4: "healthy (re_polls env 0) i s3 = (r4, s4)" by fastforce
      have "wk_current (snd (rollback_release env to s)) \<in> {wk_current s1, wk_current s2, wk_current s3, wk_current s4}"
        using Some other Inr rl 1 2 3 4 by (auto simp: rollback_release_def Let_def split: sum.splits)
      moreover have "wk_current s1 \<in> {wk_current s, Some i}" using point_current_cases [OF 1] by (auto split: sum.splits)
      ultimately show ?thesis
        using previous_step [OF 2] restart_same [OF 3] healthy_same [OF 4] checked_sound [OF Inr] by (auto simp: same_dir_def)
    qed
  qed
qed

subsection \<open>What the verbs promise\<close>

text \<open>
  C33: Only what was built and shipped becomes current: whatever the agent answers and whichever step fails, an
  activation or a rollback leaves the link where it was or on a release whose record, binary and every shipped
  file are there with the digests recorded, each at a path that does not lead out of the release.
\<close>

theorem only_a_sound_release_becomes_current:
  "wk_current (snd (activate_release env i s)) \<in> insert (wk_current s) {Some j |j. sound_release env s j} \<and>
   wk_current (snd (rollback_release env to s)) \<in> insert (wk_current s) {Some j |j. sound_release env s j}"
  by (rule conjI [OF activate_current rollback_current])

text \<open>
  C14: An activation does what it answers. Activated: the agent was restarted and asked until it said it runs
  this very release and is healthy, the release before is the one to go back to, and removed are exactly the
  oldest releases beyond the number to keep that are neither of these two. Stopped: there was no release before, the agent
  was restarted, no answer said this release is healthy, and the last thing asked of the agent is to stop;
  the release stays current, and nothing else changed. Put back: no answer said this release is healthy, the links
  are as they were -- where nothing was linked as previous, the restored release is -- nothing was removed, the agent
  was restarted again, and the answer says the old one is healthy just if the agent then said so. A release is given up only after all the
  asking there is time for, or once the agent could not be asked, told nothing of itself, or was locked.
\<close>

theorem an_activation_does_what_it_answers:
  assumes act: "activate_release env i s = (Ok out, s')"
  shows "\<exists>rl l. checked_release env s i = Ok (rl, l) \<and>
    (case out of
       Unchanged \<Rightarrow> s' = s \<and> wk_current s = Some i
     | Activated before gone \<Rightarrow>
        before = pointed (wk_current s) \<and> wk_current s' = Some i \<and> said_healthy i s \<and>
        wk_previous s' = (case before of None \<Rightarrow> wk_previous s | Some old \<Rightarrow> Some old) \<and>
        gone = filter (\<lambda>x. pointed (wk_current s') \<noteq> Some x \<and> pointed (wk_previous s') \<noteq> Some x)
          (take (length (oldest_first s) - max (la_keep_releases l) 1) (oldest_first s)) \<and>
        (\<forall>x. hm_get (wk_releases s') x = (if x \<in> set gone then None else hm_get (wk_releases s) x))
     | LeftStopped why \<Rightarrow>
        pointed (wk_current s) = None \<and> wk_current s' = Some i \<and> wk_previous s' = wk_previous s \<and> wk_releases s' = wk_releases s
     | PutBack old why b \<Rightarrow>
        wk_current s' = wk_current s \<and> wk_current s = Some old \<and> wk_releases s' = wk_releases s \<and>
        wk_previous s' = (case pointed (wk_previous s) of None \<Rightarrow> Some old | Some p \<Rightarrow> Some p)) \<and>
    activation_talk env i s s' out"
proof -
  from act obtain rl l where ck: "checked_release env s i = Ok (rl, l)"
    by (cases "checked_release env s i") (auto simp: activate_release_def)
  show ?thesis
  proof (cases "pointed (wk_current s) = Some i")
    case True
    with act ck have "out = Unchanged" "s' = s" by (auto simp: activate_release_def Let_def)
    with ck pointed_Some [OF True] show ?thesis by (auto simp: activation_talk_def asked_on_def)
  next
    case False
    note g = activate_links [OF act ck False, THEN conjunct2, rule_format, OF refl]
    show ?thesis
      using g by (intro exI [of _ rl] exI [of _ l] conjI [OF ck] conjI [OF _ activate_talk [OF act ck False]])
        (cases out; hypsubst; unfold activation.case; (assumption | erule FalseE))
  qed
qed

text \<open>
  An activation that fails before the agent is asked leaves the new release current; asked again, it answers
  that nothing changed, with no word of its health.
\<close>

lemma checked_needs_the_releases:
  "wk_releases s' = wk_releases s \<Longrightarrow> checked_release env s' i = checked_release env s i"
  by (simp add: checked_release_def)

lemma a_failed_activation_is_unchanged_when_repeated:
  assumes "checked_release env s i = Ok (rl, l)" "is_release_id i" "pointed (wk_current s) = None" "wk_faults s = []" "wk_answers s = [None]"
  shows "\<exists>s'. activate_release env i s = (Err AgentSilent, s') \<and> fst (activate_release env i s') = Ok Unchanged"
proof -
  let ?s = "s\<lparr>wk_current := Some i, wk_answers := [], wk_asked := wk_asked s @ [AskRestart]\<rparr>"
  have "activate_release env i s = (Err AgentSilent, ?s)"
    using assms by (simp add: activate_release_def Let_def point_current_def take_fault_of_def restart_app_def ask_agent_def)
  moreover have "checked_release env ?s i = Ok (rl, l)" using assms(1) checked_needs_the_releases [of ?s s env i] by simp
  then have "fst (activate_release env i ?s) = Ok Unchanged"
    using assms(2) by (simp add: activate_release_def Let_def pointed_def)
  ultimately show ?thesis by blast
qed

subsection \<open>A deploy\<close>

definition sample_release_id :: string where "sample_release_id = ''20261029T121314Z-1a2b3c4d''"

definition sample_release_env :: release_env where
  "sample_release_env =
     \<lparr>re_release = (\<lambda>t. Some \<lparr>rl_format = 1, rl_id = sample_release_id, rl_bin = ''app'', rl_sha256 = ''B'', rl_files = []\<rparr>),
      re_launch = (\<lambda>t. Some \<lparr>la_format = 1, la_bin = ''app'', la_args = [], la_vars = [], la_secrets = [], la_pubkey = None, la_http = None, la_timeout_secs = 30,
        la_keep_releases = 3\<rparr>),
      re_sha256 = (\<lambda>t. t), re_polls = (\<lambda>k. 2)\<rparr>"

definition sample_worker :: worker where
  "sample_worker =
     \<lparr>wk_current = None, wk_previous = None,
      wk_releases = [(sample_release_id, [(''release.json'', ''r''), (''launch.json'', ''l''), (''app'', ''B'')])], wk_faults = [],
      wk_answers = [Some \<lparr>ar_ok = True, ar_status = None\<rparr>,
        Some \<lparr>ar_ok = True, ar_status = Some \<lparr>as_state = ''running'', as_healthy = True, as_wanted = True, as_key_held = False,
          as_secrets_held = [], as_release = Some sample_release_id, as_up_secs = Some 6, as_restarts = 0, as_last_exit = None,
          as_reason = None\<rparr>\<rparr>],
      wk_asked = []\<rparr>"

lemma an_activation_does_what_it_answers_witness:
  "wk_current (snd (activate_release sample_release_env sample_release_id sample_worker)) = Some sample_release_id \<and>
   said_healthy sample_release_id sample_worker"
proof -
  have "fst (activate_release sample_release_env sample_release_id sample_worker) = Ok (Activated None [])" by code_simp
  then obtain s' where run: "activate_release sample_release_env sample_release_id sample_worker = (Ok (Activated None []), s')"
    by (cases "activate_release sample_release_env sample_release_id sample_worker") auto
  from an_activation_does_what_it_answers [OF run] run show ?thesis by auto
qed

end
