(* ===== verification/State_Machine.thy ===== *)
theory State_Machine
  imports Prelude
begin

text \<open>
  What the components that take steps promise each other: an invariant of a machine holds from each start
  through every run. Each machine of the development interprets these locales with its own steps.
\<close>

locale state_machine =
  fixes start :: "'s \<Rightarrow> bool"
    and steps :: "'s \<Rightarrow> 's \<Rightarrow> bool"
    and inv :: "'s \<Rightarrow> bool"
  assumes inv_start: "start s \<Longrightarrow> inv s"
    and inv_step: "inv s \<Longrightarrow> steps s t \<Longrightarrow> inv t"
begin

lemma inv_run: "steps\<^sup>*\<^sup>* s t \<Longrightarrow> inv s \<Longrightarrow> inv t"
  by (induction rule: rtranclp_induct) (auto intro: inv_step)

lemma inv_reached: "start s \<Longrightarrow> steps\<^sup>*\<^sup>* s t \<Longrightarrow> inv t"
  by (rule inv_run [OF _ inv_start])

end

text \<open>A machine that writes down what it did, and never takes it back.\<close>

locale logged_machine = state_machine +
  fixes log :: "'s \<Rightarrow> 'e list"
  assumes log_grows: "inv s \<Longrightarrow> steps s t \<Longrightarrow> \<exists>es. log t = es @ log s"
begin

lemma log_run: "steps\<^sup>*\<^sup>* s t \<Longrightarrow> inv s \<Longrightarrow> \<exists>es. log t = es @ log s"
proof (induction rule: rtranclp_induct)
  case (step t u)
  then obtain es where es: "log t = es @ log s" by blast
  from log_grows [OF inv_run [OF step.hyps(1) step.prems] step.hyps(2)] obtain fs where "log u = fs @ log t" by blast
  with es show ?case by (intro exI [of _ "fs @ es"]) simp
qed simp

lemma logged_stays: "steps\<^sup>*\<^sup>* s t \<Longrightarrow> inv s \<Longrightarrow> e \<in> set (log s) \<Longrightarrow> e \<in> set (log t)"
  using log_run [of s t] by auto

end

end
