(* ===== verification/Worker_Supervisor.thy ===== *)
theory Worker_Supervisor
  imports Worker_Release Bytes State_Machine
begin

text \<open>
  The worker's unit process, \<open>supervise.rs\<close>: it holds the key and the secrets, starts the app from the current
  release, starts it again after a pause when it ends, and answers root's requests. What a program, a write
  or a probe comes to, and the worker's directory, are inputs of each step; time is in nanoseconds. A log says
  what was asked, kept and started, for the statements only.
\<close>

subsection \<open>The supervisor\<close>

type_synonym trading_key = bytes

datatype agent_request =
    ReqStatus
  | ReqUnlock "(string \<times> string) list" "bytes option"
  | ReqLock
  | ReqStart
  | ReqStop
  | ReqRestart

datatype agent_refusal = KeyLength nat | CannotStart start_failure

record app_start =
  ap_release :: string
  ap_bin :: string
  ap_args :: "string list"
  ap_env :: "(string, string) hash_map"
  ap_stdin :: "trading_key option"

record running_app =
  ra_release :: string
  ra_started :: nat
  ra_health_url :: "string option"
  ra_healthy :: bool
  ra_last_probe :: "nat option"

datatype agent_event =
    AgentUp
  | Unlocked "(string \<times> string) list" "trading_key option"
  | Forgot
  | Wants bool bool
  | AppStarted launch app_start

record supervisor =
  su_state_dir :: string
  su_secrets :: "(string \<times> string) list"
  su_key :: "trading_key option"
  su_wanted :: bool
  su_running :: "running_app option"
  su_restarts :: u32
  su_last_exit :: "string option"
  su_next_start :: "nat option"
  su_pause :: duration
  su_reason :: "start_failure option"
  su_wanted_file :: "string option"
  su_now :: nat
  su_log :: "agent_event list"

text \<open>What the app's process says when asked after.\<close>

datatype app_exit = StillRuns | Exited string | NoWord

record agent_env =
  ae_worker :: worker
  ae_reads :: release_env
  ae_spawns :: bool
  ae_takes_key :: bool
  ae_write_leaves :: "string option option"
  ae_exit :: app_exit
  ae_probe :: "string \<Rightarrow> bool"
  ae_stopping :: duration

definition first_pause :: duration where "first_pause = from_secs 1"
definition longest_pause :: duration where "longest_pause = from_secs 60"
definition steady :: duration where "steady = from_secs 300"
definition settle :: duration where "settle = from_secs 5"

definition wanted_text :: "bool \<Rightarrow> string" where
  "wanted_text b = (if b then ''1'' else ''0'') @ new_line"

definition supervisor_start :: "string \<Rightarrow> string option \<Rightarrow> nat \<Rightarrow> agent_event list \<Rightarrow> supervisor" where
  "supervisor_start d file now log =
     \<lparr>su_state_dir = d, su_secrets = [], su_key = None, su_wanted = (case file of Some t \<Rightarrow> trim t = ''1'' | None \<Rightarrow> False),
      su_running = None, su_restarts = 0, su_last_exit = None, su_next_start = None, su_pause = first_pause, su_reason = None,
      su_wanted_file = file, su_now = now, su_log = AgentUp # log\<rparr>"

subsection \<open>Starting the app\<close>

definition current_release :: "release_env \<Rightarrow> worker \<Rightarrow> start_failure + (string \<times> launch)" where
  "current_release env w =
     (case wk_current w of
        None \<Rightarrow> Err NoCurrentRelease
      | Some i \<Rightarrow>
         (case map_of (wk_releases w) i of
            None \<Rightarrow> Err NoCurrentRelease
          | Some d \<Rightarrow>
             (if \<not> is_release_id i then Err (CurrentIsNoRelease i)
              else case map_of d ''launch.json'' of
                None \<Rightarrow> Err NoLaunchFile
              | Some t \<Rightarrow> map_err BadLaunch (map_sum id (\<lambda>l. (i, l)) (launch_parse (re_launch env) t)))))"

definition missing :: "supervisor \<Rightarrow> launch \<Rightarrow> start_failure option" where
  "missing s l =
     (if la_pubkey l \<noteq> None \<and> su_key s = None then Some LockedKey
      else
        (let absent = filter (\<lambda>n. map_of (su_secrets s) n = None) (la_secrets l)
         in if absent = [] then None else Some (LockedSecrets absent)))"

text \<open>\<open>Command::envs\<close>: each in place of what had its name.\<close>

definition with_envs :: "(string \<times> string) list \<Rightarrow> (string, string) hash_map \<Rightarrow> (string, string) hash_map" where
  "with_envs kvs e = foldr (\<lambda>(k, v). hm_insert k v) kvs e"

definition app_env :: "supervisor \<Rightarrow> launch \<Rightarrow> (string, string) hash_map" where
  "app_env s l =
     (let e = with_envs (su_secrets s) (with_envs (la_vars l)
            [(''PATH'', ''/usr/local/bin:/usr/bin:/bin''), (''HOME'', su_state_dir s), (''LANG'', ''C.UTF-8''),
             (''ERPC_WORKER_STATE_DIR'', su_state_dir s)])
      in case la_pubkey l of
           None \<Rightarrow> e
         | Some p \<Rightarrow> hm_insert ''ERPC_WORKER_PUBKEY'' p (hm_insert ''ERPC_WORKER_KEY_FD'' ''0'' e))"

definition the_start :: "supervisor \<Rightarrow> string \<Rightarrow> launch \<Rightarrow> app_start" where
  "the_start s r l =
     \<lparr>ap_release = r, ap_bin = la_bin l, ap_args = la_args l, ap_env = app_env s l,
      ap_stdin = (if la_pubkey l = None then None else su_key s)\<rparr>"

definition start_app :: "agent_env \<Rightarrow> supervisor \<Rightarrow> bool \<times> supervisor" where
  "start_app env s =
     (case current_release (ae_reads env) (ae_worker env) of
        Inl why \<Rightarrow> (False, s\<lparr>su_reason := Some why\<rparr>)
      | Inr (r, l) \<Rightarrow>
         (case missing s l of
            Some why \<Rightarrow> (False, s\<lparr>su_reason := Some why\<rparr>)
          | None \<Rightarrow>
             (if \<not> ae_spawns env then (False, s\<lparr>su_reason := Some (CouldNotStart (la_bin l))\<rparr>)
              else
                (let s1 = s\<lparr>su_log := AppStarted l (the_start s r l) # su_log s\<rparr>
                 in if la_pubkey l \<noteq> None \<and> \<not> ae_takes_key env then (False, s1\<lparr>su_reason := Some KeyNotHanded\<rparr>)
                    else (True, s1\<lparr>su_reason := None,
                      su_running := Some \<lparr>ra_release = r, ra_started = su_now s, ra_health_url = la_http l, ra_healthy = False,
                        ra_last_probe = None\<rparr>\<rparr>)))))"

definition stop_app :: "agent_env \<Rightarrow> supervisor \<Rightarrow> supervisor" where
  "stop_app env s =
     (case su_running s of None \<Rightarrow> s | Some r \<Rightarrow> s\<lparr>su_running := None, su_now := su_now s + ae_stopping env\<rparr>)"

subsection \<open>Requests\<close>

definition want :: "agent_env \<Rightarrow> bool \<Rightarrow> supervisor \<Rightarrow> supervisor" where
  "want env b s =
     s\<lparr>su_wanted := b, su_wanted_file := (case ae_write_leaves env of None \<Rightarrow> Some (wanted_text b) | Some f \<Rightarrow> f),
       su_log := Wants b (ae_write_leaves env = None) # su_log s\<rparr>"

definition told :: "supervisor \<Rightarrow> agent_refusal + unit" where
  "told s = (case su_reason s of None \<Rightarrow> Ok () | Some why \<Rightarrow> Err (CannotStart why))"

definition start_afresh :: "agent_env \<Rightarrow> supervisor \<Rightarrow> supervisor" where
  "start_afresh env s = snd (start_app env (s\<lparr>su_pause := first_pause, su_next_start := None\<rparr>))"

definition handle :: "agent_env \<Rightarrow> agent_request \<Rightarrow> supervisor \<Rightarrow> (agent_refusal + unit) \<times> supervisor" where
  "handle env q s =
     (case q of
        ReqStatus \<Rightarrow> (Ok (), s)
      | ReqUnlock secrets key \<Rightarrow>
         (case key of
            Some bs \<Rightarrow> if length bs \<noteq> 64 then (Err (KeyLength (length bs)), s)
              else (Ok (), s\<lparr>su_secrets := secrets, su_key := Some bs, su_reason := None,
                su_next_start := (if su_wanted s \<and> su_running s = None then None else su_next_start s),
                su_log := Unlocked secrets key # su_log s\<rparr>)
          | None \<Rightarrow> (Ok (), s\<lparr>su_secrets := secrets, su_key := None, su_reason := None,
                su_next_start := (if su_wanted s \<and> su_running s = None then None else su_next_start s),
                su_log := Unlocked secrets key # su_log s\<rparr>))
      | ReqLock \<Rightarrow>
         (let s1 = stop_app env (want env False s)
          in (Ok (), s1\<lparr>su_secrets := [], su_key := None, su_log := Forgot # su_log s1\<rparr>))
      | ReqStart \<Rightarrow>
         (let s1 = want env True s; s2 = (if su_running s1 = None then start_afresh env s1 else s1)
          in (told s2, s2))
      | ReqStop \<Rightarrow> (Ok (), stop_app env (want env False s))
      | ReqRestart \<Rightarrow> (let s2 = start_afresh env (stop_app env (want env True s)) in (told s2, s2)))"

subsection \<open>Ticks\<close>

text \<open>\<open>Instant::elapsed\<close>.\<close>

definition elapsed :: "nat \<Rightarrow> nat \<Rightarrow> duration" where "elapsed now at = now - at"

definition probe_app :: "agent_env \<Rightarrow> nat \<Rightarrow> running_app \<Rightarrow> running_app" where
  "probe_app env now r =
     (let every = (if ra_healthy r then from_secs 5 else from_secs 1)
      in if (case ra_last_probe r of Some at \<Rightarrow> elapsed now at < every | None \<Rightarrow> False) then r
         else r\<lparr>ra_last_probe := Some now,
           ra_healthy := (case ra_health_url r of Some url \<Rightarrow> ae_probe env url | None \<Rightarrow> settle \<le> elapsed now (ra_started r))\<rparr>)"

definition ended :: "string \<Rightarrow> running_app \<Rightarrow> supervisor \<Rightarrow> supervisor" where
  "ended st r s =
     (let pause = (if steady \<le> elapsed (su_now s) (ra_started r) then first_pause else min (su_pause s * 2) longest_pause)
      in s\<lparr>su_last_exit := Some st, su_running := None, su_pause := pause,
           su_next_start := (if su_wanted s then Some (su_now s + pause) else su_next_start s)\<rparr>)"

definition after_app :: "agent_env \<Rightarrow> supervisor \<Rightarrow> supervisor" where
  "after_app env s =
     (case su_running s of
        None \<Rightarrow> s
      | Some r \<Rightarrow>
         (case ae_exit env of
            Exited st \<Rightarrow> ended st r s
          | StillRuns \<Rightarrow> s\<lparr>su_running := Some (probe_app env (su_now s) r)\<rparr>
          | NoWord \<Rightarrow> s))"

definition is_due :: "supervisor \<Rightarrow> bool" where
  "is_due s = (su_running s = None \<and> su_wanted s \<and> (case su_next_start s of None \<Rightarrow> True | Some at \<Rightarrow> at \<le> su_now s))"

definition tick :: "agent_env \<Rightarrow> supervisor \<Rightarrow> supervisor" where
  "tick env s =
     (let s1 = after_app env s
      in if is_due s1 then
           (case start_app env (s1\<lparr>su_next_start := None\<rparr>) of
              (True, s2) \<Rightarrow> s2\<lparr>su_restarts := u32_add (su_restarts s2) (if su_last_exit s2 = None then 0 else 1)\<rparr>
            | (False, s2) \<Rightarrow> s2\<lparr>su_next_start := Some (su_now s2 + longest_pause)\<rparr>)
         else s1)"

definition status_of :: "agent_env \<Rightarrow> supervisor \<Rightarrow> agent_status" where
  "status_of env s =
     (let locked = (case current_release (ae_reads env) (ae_worker env) of Inl e \<Rightarrow> None | Inr (r, l) \<Rightarrow> missing s l)
      in \<lparr>as_state =
            (case su_running s of
               Some r \<Rightarrow> if ra_healthy r then ''running'' else ''starting''
             | None \<Rightarrow> if locked \<noteq> None then ''locked''
                 else if su_wanted s \<and> su_next_start s \<noteq> None then ''waiting'' else ''stopped''),
          as_healthy = (case su_running s of Some r \<Rightarrow> ra_healthy r | None \<Rightarrow> False),
          as_wanted = su_wanted s,
          as_key_held = (su_key s \<noteq> None),
          as_secrets_held = map fst (su_secrets s),
          as_release = map_option ra_release (su_running s),
          as_up_secs = map_option (\<lambda>r. as_secs (elapsed (su_now s) (ra_started r))) (su_running s),
          as_restarts = su_restarts s,
          as_last_exit = su_last_exit s,
          as_reason = (case locked of Some why \<Rightarrow> Some why | None \<Rightarrow> su_reason s)\<rparr>)"

text \<open>The answer to a request, and the supervisor after it.\<close>

definition serve :: "agent_env \<Rightarrow> agent_request \<Rightarrow> supervisor \<Rightarrow> agent_reply \<times> supervisor" where
  "serve env q s =
     (case handle env q s of (r, s') \<Rightarrow> (\<lparr>ar_ok = is_ok r, ar_status = Some (status_of env s')\<rparr>, s'))"

subsection \<open>Runs\<close>

text \<open>
  Requests and ticks in any order, time that passes, and an agent that ends, by a signal or killed, its app with
  it, and is started anew by its unit.
\<close>

inductive agent_step :: "supervisor \<Rightarrow> supervisor \<Rightarrow> bool" where
  asked: "agent_step s (snd (serve env q s))"
| ticked: "agent_step s (tick env s)"
| time_passes: "agent_step s (s\<lparr>su_now := su_now s + d\<rparr>)"
| anew: "agent_step s (supervisor_start (su_state_dir s) (su_wanted_file s) (su_now s + d) (su_log s))"

definition agent_reachable :: "supervisor \<Rightarrow> bool" where
  "agent_reachable s \<longleftrightarrow> (\<exists>d file now. agent_step\<^sup>*\<^sup>* (supervisor_start d file now []) s)"

text \<open>What is held by then: what the last unlock brought, unless it was forgotten or the agent ended.\<close>

fun held_in :: "agent_event list \<Rightarrow> (string \<times> string) list \<times> trading_key option" where
  "held_in (Unlocked secrets key # es) = (secrets, key)"
| "held_in (Forgot # es) = ([], None)"
| "held_in (AgentUp # es) = ([], None)"
| "held_in (e # es) = held_in es"
| "held_in [] = ([], None)"

text \<open>The last word on whether the app is to run is no, and it was written down.\<close>

fun off_in :: "agent_event list \<Rightarrow> bool" where
  "off_in (Wants b written # es) = (\<not> b \<and> written)"
| "off_in (e # es) = off_in es"
| "off_in [] = False"

text \<open>What a start may rest on.\<close>

definition start_allowed :: "(string \<times> string) list \<times> trading_key option \<Rightarrow> launch \<Rightarrow> app_start \<Rightarrow> bool" where
  "start_allowed held l a \<longleftrightarrow>
     is_release_id (ap_release a) \<and> ap_bin a = la_bin l \<and> ap_args a = la_args l \<and>
     (case la_pubkey l of
        None \<Rightarrow> ap_stdin a = None
      | Some p \<Rightarrow> (\<exists>k. snd held = Some k \<and> length k = 64 \<and> ap_stdin a = Some k) \<and>
          hm_get (ap_env a) ''ERPC_WORKER_PUBKEY'' = Some p \<and> hm_get (ap_env a) ''ERPC_WORKER_KEY_FD'' = Some ''0'') \<and>
     list_all (\<lambda>n. \<exists>v. map_of (fst held) n = Some v \<and>
        (n \<in> {''ERPC_WORKER_PUBKEY'', ''ERPC_WORKER_KEY_FD''} \<or> hm_get (ap_env a) n = Some v)) (la_secrets l)"

fun starts_ok :: "agent_event list \<Rightarrow> bool" where
  "starts_ok (AppStarted l a # es) = (start_allowed (held_in es) l a \<and> \<not> off_in es \<and> starts_ok es)"
| "starts_ok (e # es) = starts_ok es"
| "starts_ok [] = True"

definition soon :: "nat \<Rightarrow> nat option \<Rightarrow> bool" where
  "soon now next = (case next of None \<Rightarrow> True | Some at \<Rightarrow> at \<le> now + longest_pause)"

lemma soon_simps [simp]: "soon now None" "soon now (Some at) \<longleftrightarrow> at \<le> now + longest_pause" "soon now next \<Longrightarrow> soon (now + d) next"
  by (auto simp: soon_def split: option.splits)

definition agent_inv :: "supervisor \<Rightarrow> bool" where
  "agent_inv s \<longleftrightarrow>
     held_in (su_log s) = (su_secrets s, su_key s) \<and>
     (case su_key s of None \<Rightarrow> True | Some k \<Rightarrow> length k = 64) \<and>
     (off_in (su_log s) \<longrightarrow> \<not> su_wanted s \<and> su_wanted_file s = Some (wanted_text False)) \<and>
     (su_running s \<noteq> None \<longrightarrow> su_wanted s \<and> su_reason s = None) \<and>
     first_pause \<le> su_pause s \<and> su_pause s \<le> longest_pause \<and>
     soon (su_now s) (su_next_start s) \<and>
     starts_ok (su_log s)"

lemmas pause_defs = first_pause_def longest_pause_def from_secs_def nanos_def

lemma hm_get_with_envs: "hm_get (with_envs kvs e) k = (case map_of kvs k of None \<Rightarrow> hm_get e k | Some v \<Rightarrow> Some v)"
  by (induction kvs) (auto simp: with_envs_def split: option.splits)

lemma app_env_key: "la_pubkey l = Some p \<Longrightarrow>
    hm_get (app_env s l) ''ERPC_WORKER_PUBKEY'' = Some p \<and> hm_get (app_env s l) ''ERPC_WORKER_KEY_FD'' = Some ''0''"
  by (simp add: app_env_def Let_def)

lemma app_env_secret:
  "map_of (su_secrets s) n = Some v \<Longrightarrow> n \<in> {''ERPC_WORKER_PUBKEY'', ''ERPC_WORKER_KEY_FD''} \<or> hm_get (app_env s l) n = Some v"
  by (simp add: app_env_def Let_def hm_get_with_envs split: option.split)

lemma missing_None:
  "missing s l = None \<Longrightarrow> (la_pubkey l \<noteq> None \<longrightarrow> su_key s \<noteq> None) \<and> (\<forall>n\<in>set (la_secrets l). \<exists>v. map_of (su_secrets s) n = Some v)"
  by (auto simp: missing_def Let_def filter_empty_conv split: if_splits)

lemma map_sum_Ok: "map_sum id f x = Ok y \<longleftrightarrow> (\<exists>z. x = Ok z \<and> y = f z)"
  by (cases x) auto

lemma current_release_Ok: "current_release env w = Ok (r, l) \<Longrightarrow> is_release_id r \<and> wk_current w = Some r"
  by (auto simp: current_release_def map_err_Ok map_sum_Ok split: option.splits if_splits)

lemma the_start_allowed:
  assumes "missing s l = None" "is_release_id r" "case su_key s of None \<Rightarrow> True | Some k \<Rightarrow> length k = 64"
  shows "start_allowed (su_secrets s, su_key s) l (the_start s r l)"
proof -
  from missing_None [OF assms(1)] have key: "la_pubkey l \<noteq> None \<Longrightarrow> su_key s \<noteq> None" and
    secrets: "\<And>n. n \<in> set (la_secrets l) \<Longrightarrow> \<exists>v. map_of (su_secrets s) n = Some v" by auto
  have env: "list_all (\<lambda>n. \<exists>v. map_of (su_secrets s) n = Some v \<and>
      (n \<in> {''ERPC_WORKER_PUBKEY'', ''ERPC_WORKER_KEY_FD''} \<or> hm_get (app_env s l) n = Some v)) (la_secrets l)"
    unfolding list_all_iff using secrets app_env_secret by blast
  show ?thesis
  proof (cases "la_pubkey l")
    case None
    with env assms(2) show ?thesis by (simp add: start_allowed_def the_start_def)
  next
    case (Some p)
    with key assms(3) obtain k where "su_key s = Some k" "length k = 64" by (auto split: option.splits)
    with env assms(2) Some app_env_key [OF Some] show ?thesis by (simp add: start_allowed_def the_start_def)
  qed
qed

subsection \<open>The invariant\<close>

lemma agent_inv_start: "agent_inv (supervisor_start d file now [])"
  by (auto simp: agent_inv_def supervisor_start_def pause_defs)

lemma trim_wanted_off: "trim (wanted_text False) = ''0''" "trim (wanted_text True) = ''1''"
  by code_simp+

lemma agent_inv_start_app:
  assumes inv: "agent_inv s" and on: "su_wanted s" "su_running s = None" and st: "start_app env s = (ok, s')"
  shows "agent_inv s' \<and> su_now s' = su_now s \<and> su_wanted s' \<and> ok = (su_running s' \<noteq> None) \<and> (ok \<longrightarrow> su_reason s' = None) \<and>
    (\<not> ok \<longrightarrow> su_reason s' \<noteq> None) \<and> su_pause s' = su_pause s"
proof (cases "current_release (ae_reads env) (ae_worker env)")
  case (Inl e)
  with st inv on show ?thesis by (auto simp: start_app_def agent_inv_def)
next
  case (Inr rl)
  then obtain r l where rl: "current_release (ae_reads env) (ae_worker env) = Ok (r, l)" by (cases rl) auto
  show ?thesis
  proof (cases "missing s l")
    case (Some why)
    with rl st inv on show ?thesis by (auto simp: start_app_def agent_inv_def)
  next
    case None
    from inv have "\<not> off_in (su_log s)" "case su_key s of None \<Rightarrow> True | Some k \<Rightarrow> length k = 64" "held_in (su_log s) = (su_secrets s, su_key s)"
      using on by (auto simp: agent_inv_def)
    moreover from None current_release_Ok [OF rl] this(2) have "start_allowed (su_secrets s, su_key s) l (the_start s r l)"
      by (intro the_start_allowed) auto
    ultimately show ?thesis using None rl st inv on
      by (auto simp: start_app_def agent_inv_def Let_def split: if_splits)
  qed
qed

lemma agent_inv_stop_app: "agent_inv s \<Longrightarrow> agent_inv (stop_app env s) \<and> su_running (stop_app env s) = None"
  by (auto simp: stop_app_def agent_inv_def split: option.splits)

lemma stop_app_keeps [simp]:
  "su_wanted (stop_app env s) = su_wanted s" "su_log (stop_app env s) = su_log s" "su_secrets (stop_app env s) = su_secrets s"
  "su_key (stop_app env s) = su_key s" "su_reason (stop_app env s) = su_reason s" "su_running (stop_app env s) = None"
  by (auto simp: stop_app_def split: option.splits)

lemma agent_inv_off: "agent_inv s \<Longrightarrow> agent_inv (stop_app env (want env False s))"
  by (auto simp: agent_inv_def stop_app_def want_def split: option.splits)

lemma agent_inv_on: "agent_inv s \<Longrightarrow> agent_inv (want env True s)"
  by (auto simp: agent_inv_def want_def)

lemma agent_inv_afresh:
  assumes "agent_inv s" "su_wanted s" "su_running s = None"
  shows "agent_inv (start_afresh env s)"
proof -
  have "agent_inv (s\<lparr>su_pause := first_pause, su_next_start := None\<rparr>)" using assms(1) by (auto simp: agent_inv_def pause_defs)
  moreover obtain ok s' where "start_app env (s\<lparr>su_pause := first_pause, su_next_start := None\<rparr>) = (ok, s')" by fastforce
  ultimately show ?thesis using agent_inv_start_app [of "s\<lparr>su_pause := first_pause, su_next_start := None\<rparr>" env ok s'] assms(2,3)
    by (simp add: start_afresh_def)
qed

lemma agent_inv_unlock:
  assumes "agent_inv s" "case key of None \<Rightarrow> True | Some k \<Rightarrow> length k = 64"
  shows "agent_inv (s\<lparr>su_secrets := secrets, su_key := key, su_reason := None,
    su_next_start := (if su_wanted s \<and> su_running s = None then None else su_next_start s), su_log := Unlocked secrets key # su_log s\<rparr>)"
  using assms by (auto simp: agent_inv_def)

lemma agent_inv_handle: "agent_inv s \<Longrightarrow> agent_inv (snd (handle env q s))"
proof (cases q)
  case (ReqUnlock secrets key)
  assume "agent_inv s"
  with ReqUnlock agent_inv_unlock [of s key secrets] show ?thesis by (auto simp: handle_def split: option.splits)
next
  case ReqLock
  assume "agent_inv s"
  from agent_inv_off [OF this, of env] ReqLock show ?thesis by (auto simp: handle_def Let_def agent_inv_def)
next
  case ReqStart
  assume "agent_inv s"
  from agent_inv_on [OF this, of env] ReqStart show ?thesis
    using agent_inv_afresh [of "want env True s" env] by (auto simp: handle_def Let_def want_def)
next
  case ReqStop
  assume "agent_inv s"
  from agent_inv_off [OF this, of env] ReqStop show ?thesis by (simp add: handle_def)
next
  case ReqRestart
  assume "agent_inv s"
  from agent_inv_on [OF this, of env] ReqRestart show ?thesis
    using agent_inv_afresh [of "stop_app env (want env True s)" env] agent_inv_stop_app [of "want env True s" env]
    by (auto simp: handle_def Let_def want_def)
qed (simp add: handle_def)

lemma serve_snd: "snd (serve env q s) = snd (handle env q s)"
  by (simp add: serve_def split: prod.split)

lemma agent_inv_after_app: "agent_inv s \<Longrightarrow> agent_inv (after_app env s)"
  by (auto simp: after_app_def agent_inv_def ended_def Let_def pause_defs min_def split: option.splits app_exit.splits)

lemma agent_inv_tick:
  assumes "agent_inv s"
  shows "agent_inv (tick env s)"
proof (cases "is_due (after_app env s)")
  case False
  with agent_inv_after_app [OF assms] show ?thesis by (simp add: tick_def)
next
  case True
  let ?s1 = "(after_app env s)\<lparr>su_next_start := None\<rparr>"
  obtain ok s2 where st: "start_app env ?s1 = (ok, s2)" by fastforce
  have "agent_inv ?s1" using agent_inv_after_app [OF assms] by (auto simp: agent_inv_def)
  from agent_inv_start_app [OF this _ _ st] True have s2: "agent_inv s2" by (auto simp: is_due_def)
  then have "agent_inv (s2\<lparr>su_restarts := k\<rparr>)" "agent_inv (s2\<lparr>su_next_start := Some (su_now s2 + longest_pause)\<rparr>)" for k
    by (auto simp: agent_inv_def)
  with st True show ?thesis by (cases ok) (auto simp: tick_def)
qed

lemma agent_inv_step:
  assumes inv: "agent_inv s" and st: "agent_step s t"
  shows "agent_inv t"
  using st
proof cases
  case (asked env q)
  with agent_inv_handle [OF inv] show ?thesis by (simp add: serve_snd)
next
  case (ticked env)
  with agent_inv_tick [OF inv] show ?thesis by simp
next
  case (time_passes d)
  with inv show ?thesis by (auto simp: agent_inv_def split: option.splits)
next
  case (anew d)
  with inv trim_wanted_off show ?thesis by (auto simp: agent_inv_def supervisor_start_def pause_defs)
qed

definition extends :: "supervisor \<Rightarrow> supervisor \<Rightarrow> bool" where
  "extends s t \<longleftrightarrow> (\<exists>es. su_log t = es @ su_log s)"

lemma extends_refl: "extends s s"
  by (simp add: extends_def)

lemma extends_trans: "extends s t \<Longrightarrow> extends t u \<Longrightarrow> extends s u"
  by (fastforce simp: extends_def)

lemma extends_log: "su_log t = su_log s \<or> su_log t = e # su_log s \<Longrightarrow> extends s t"
  by (auto simp: extends_def)

lemma extends_start_app: "extends s (snd (start_app env s))"
  by (auto simp: start_app_def Let_def split: sum.split option.split intro!: extends_log)

lemma extends_want: "extends s (stop_app env (want env b s))" "extends s (want env b s)"
  by (auto simp: extends_def want_def)

lemma extends_afresh: "extends s (start_afresh env s)"
  using extends_start_app [of "s\<lparr>su_pause := first_pause, su_next_start := None\<rparr>" env] by (simp add: start_afresh_def extends_def)

lemma extends_handle: "extends s (snd (handle env q s))"
proof (cases q)
  case ReqLock
  have "extends (stop_app env (want env False s)) (snd (handle env ReqLock s))"
    by (auto simp: handle_def Let_def extends_def)
  with extends_want [of s env False] ReqLock show ?thesis by (blast intro: extends_trans)
next
  case ReqStart
  have "extends (want env True s) (snd (handle env ReqStart s))"
    by (auto simp: handle_def Let_def intro: extends_afresh extends_refl)
  with extends_want [of s env True] ReqStart show ?thesis by (blast intro: extends_trans)
next
  case ReqRestart
  have "extends (stop_app env (want env True s)) (snd (handle env ReqRestart s))"
    by (auto simp: handle_def Let_def intro: extends_afresh)
  with extends_want [of s env True] ReqRestart show ?thesis by (blast intro: extends_trans)
qed (auto simp: handle_def extends_want intro: extends_refl split: option.split intro!: extends_log)

lemma extends_tick: "extends s (tick env s)"
proof -
  have a: "extends s (after_app env s)"
    by (auto simp: after_app_def ended_def Let_def split: option.split app_exit.split intro!: extends_log)
  show ?thesis
  proof (cases "is_due (after_app env s)")
    case True
    let ?s1 = "(after_app env s)\<lparr>su_next_start := None\<rparr>"
    obtain ok s2 where st: "start_app env ?s1 = (ok, s2)" by fastforce
    with extends_start_app [of ?s1 env] have "extends (after_app env s) s2" by (simp add: extends_def)
    then have "extends (after_app env s) (tick env s)" using st True by (cases ok) (auto simp: tick_def extends_def)
    with a show ?thesis by (rule extends_trans)
  qed (use a in \<open>simp add: tick_def\<close>)
qed

lemma agent_log_grows: "agent_step s t \<Longrightarrow> \<exists>es. su_log t = es @ su_log s"
  unfolding extends_def [symmetric]
  by (erule agent_step.cases) (auto simp: serve_snd extends_handle extends_tick supervisor_start_def intro!: extends_log)

interpretation agent: logged_machine "\<lambda>s. \<exists>d file now. s = supervisor_start d file now []" agent_step agent_inv su_log
  by unfold_locales (auto intro: agent_inv_start agent_inv_step agent_log_grows)

lemma agent_reachable_inv: "agent_reachable s \<Longrightarrow> agent_inv s"
  unfolding agent_reachable_def using agent.inv_reached [of _ s] by blast

lemma agent_reachable_run: "agent_reachable s \<Longrightarrow> agent_step\<^sup>*\<^sup>* s t \<Longrightarrow> agent_reachable t"
  unfolding agent_reachable_def by (meson rtranclp_trans)

text \<open>While only stops are asked for, nothing is started.\<close>

definition only_stops :: "agent_event list \<Rightarrow> bool" where
  "only_stops es = list_all (\<lambda>e. case e of Wants b written \<Rightarrow> \<not> b \<and> written | _ \<Rightarrow> True) es"

lemma only_stops_off: "only_stops es \<Longrightarrow> off_in log \<Longrightarrow> off_in (es @ log)"
proof (induction es)
  case (Cons e es)
  then show ?case by (cases e) (auto simp: only_stops_def)
qed simp

lemma starts_ok_append: "starts_ok (es @ log) \<Longrightarrow> starts_ok log"
proof (induction es)
  case (Cons e es)
  then show ?case by (cases e) auto
qed simp

lemma only_stops_starts: "only_stops es \<Longrightarrow> off_in log \<Longrightarrow> starts_ok (es @ log) \<Longrightarrow> AppStarted l a \<notin> set es"
proof (induction es)
  case (Cons e es)
  then have "off_in (es @ log)" using only_stops_off [of es log] by (simp add: only_stops_def)
  with Cons show ?case by (cases e) (auto simp: only_stops_def)
qed simp

subsection \<open>What the supervisor promises\<close>

text \<open>
  C10: The app is started only from a release that is current, with nothing missing: if it is to have a key, with the
  64 bytes the last unlock brought, on its standard input, and the public key to check them against, which no
  setting and no secret can replace; if not, with no key at all; and with every secret it names. What was
  forgotten by a lock, or with an agent that ended, is never in a start.
\<close>

theorem the_app_gets_what_was_handed_over:
  assumes "agent_reachable s" and "su_log s = later @ AppStarted l a # before"
  shows "start_allowed (held_in before) l a"
proof -
  from agent_reachable_inv [OF assms(1)] have "starts_ok (later @ AppStarted l a # before)" by (simp add: agent_inv_def assms(2))
  then have "starts_ok (AppStarted l a # before)" by (rule starts_ok_append)
  then show ?thesis by simp
qed

text \<open>
  A stopped or locked worker stays down: after a stop or a lock that was written down, and whatever ticks, fresh
  unlocks, releases made current and agents started anew come after it, no app runs or is started until a start
  or a restart is asked for.
\<close>

theorem a_stopped_worker_stays_down:
  assumes "agent_reachable s" and "q = ReqLock \<or> q = ReqStop" and "ae_write_leaves env = None"
    and "agent_step\<^sup>*\<^sup>* (snd (serve env q s)) t" and "su_log t = es @ su_log (snd (serve env q s))" and "only_stops es"
  shows "su_running t = None \<and> \<not> su_wanted t \<and> (\<forall>l a. AppStarted l a \<notin> set es)"
proof -
  let ?s = "snd (serve env q s)"
  have off: "off_in (su_log ?s)" using assms(2,3) by (auto simp: serve_snd handle_def Let_def want_def)
  have "agent_reachable t" using agent_reachable_run [OF assms(1)] agent_step.asked assms(4) by (meson converse_rtranclp_into_rtranclp)
  then have inv: "agent_inv t" by (rule agent_reachable_inv)
  with only_stops_off [OF assms(6) off] only_stops_starts [OF assms(6) off] assms(5) show ?thesis by (auto simp: agent_inv_def)
qed

text \<open>
  C23: A worker that is to run is tried again within a minute: by the first tick a minute after, whatever came before,
  the app runs from the current release, or the supervisor says why it cannot; and a pause is between a second
  and a minute.
\<close>

theorem a_wanted_app_is_tried_within_a_minute:
  assumes "agent_reachable s" and "su_wanted s" and "su_running s = None" and "longest_pause \<le> d"
  shows "first_pause \<le> su_pause s \<and> su_pause s \<le> longest_pause \<and>
    (let t = tick env (s\<lparr>su_now := su_now s + d\<rparr>) in
      case current_release (ae_reads env) (ae_worker env) of
        Inl why \<Rightarrow> su_running t = None \<and> su_reason t = Some why
      | Inr (r, l) \<Rightarrow>
         (case missing s l of
            Some why \<Rightarrow> su_running t = None \<and> su_reason t = Some why
          | None \<Rightarrow> if ae_spawns env \<and> (la_pubkey l = None \<or> ae_takes_key env) then map_option ra_release (su_running t) = Some r
              else su_running t = None \<and> su_reason t \<noteq> None))"
proof -
  from agent_reachable_inv [OF assms(1)] have inv: "agent_inv s" .
  let ?s = "s\<lparr>su_now := su_now s + d\<rparr>"
  have due: "is_due (after_app env ?s)" "after_app env ?s = ?s"
    using inv assms(2-4) by (auto simp: is_due_def after_app_def agent_inv_def split: option.splits)
  have m: "missing (?s\<lparr>su_next_start := None\<rparr>) l = missing s l" for l by (simp add: missing_def)
  show ?thesis using inv due assms(3) m
    by (auto simp: tick_def start_app_def agent_inv_def Let_def split: sum.splits option.splits)
qed

text \<open>The pause doubles before it is first waited for: an app that ends at once is started again after two seconds.\<close>

lemma the_first_restart_waits_two_seconds:
  "su_wanted s \<Longrightarrow> su_pause s = first_pause \<Longrightarrow> ra_started r = su_now s \<Longrightarrow> su_next_start (ended st r s) = Some (su_now s + from_secs 2)"
  by (simp add: ended_def Let_def elapsed_def steady_def pause_defs)

subsection \<open>A worker with a key\<close>

definition sample_launch :: launch where
  "sample_launch =
     \<lparr>la_format = 1, la_bin = ''app'', la_args = [], la_vars = [(''ERPC_WORKER_PUBKEY'', ''other'')], la_secrets = [''TOKEN''],
      la_pubkey = Some ''pub'', la_http = None, la_timeout_secs = 30, la_keep_releases = 3\<rparr>"

definition sample_agent_env :: "bool \<Rightarrow> agent_env" where
  "sample_agent_env spawns =
     \<lparr>ae_worker = sample_worker\<lparr>wk_current := Some sample_release_id\<rparr>,
      ae_reads = sample_release_env\<lparr>re_launch := (\<lambda>t. Some sample_launch)\<rparr>,
      ae_spawns = spawns, ae_takes_key = True, ae_write_leaves = None, ae_exit = StillRuns, ae_probe = (\<lambda>u. True), ae_stopping = 0\<rparr>"

definition sample_unlocked :: supervisor where
  "sample_unlocked =
     snd (serve (sample_agent_env True) (ReqUnlock [(''TOKEN'', ''t'')] (Some (replicate 64 7))) (supervisor_start ''/s'' None 5 []))"

definition sample_supervised :: "bool \<Rightarrow> supervisor" where
  "sample_supervised spawns = snd (serve (sample_agent_env spawns) ReqStart sample_unlocked)"

lemma sample_supervised_reached: "agent_reachable (sample_supervised spawns)"
proof -
  have "agent_step (supervisor_start ''/s'' None 5 []) sample_unlocked" "agent_step sample_unlocked (sample_supervised spawns)"
    unfolding sample_unlocked_def sample_supervised_def by (rule agent_step.asked)+
  then show ?thesis unfolding agent_reachable_def by (blast intro: converse_rtranclp_into_rtranclp)
qed

lemma sample_current: "current_release (ae_reads (sample_agent_env b)) (ae_worker (sample_agent_env b)) = Ok (sample_release_id, sample_launch)"
proof -
  have "is_release_id sample_release_id" by code_simp
  moreover have "is_inside ''app''" by code_simp
  ultimately show ?thesis
    by (simp add: current_release_def sample_agent_env_def sample_worker_def sample_release_env_def launch_parse_def launch_format_def
      sample_launch_def map_err_def)
qed

lemma sample_agent_env_simps [simp]:
  "ae_spawns (sample_agent_env b) = b" "ae_takes_key (sample_agent_env b)" "ae_write_leaves (sample_agent_env b) = None"
  by (simp_all add: sample_agent_env_def)

lemma sample_unlocked_facts:
  "su_secrets sample_unlocked = [(''TOKEN'', ''t'')]" "su_key sample_unlocked = Some (replicate 64 7)" "su_running sample_unlocked = None"
  "su_log sample_unlocked = [Unlocked [(''TOKEN'', ''t'')] (Some (replicate 64 7)), AgentUp]"
  by (simp_all add: sample_unlocked_def serve_snd handle_def supervisor_start_def)

lemma sample_unlocked_starts: "missing sample_unlocked sample_launch = None"
  by (simp add: missing_def sample_unlocked_facts sample_launch_def)

lemma sample_start: "sample_supervised b =
    snd (start_app (sample_agent_env b) ((want (sample_agent_env b) True sample_unlocked)\<lparr>su_pause := first_pause, su_next_start := None\<rparr>))"
  by (simp add: sample_supervised_def serve_snd handle_def Let_def start_afresh_def want_def sample_unlocked_facts)

lemma missing_cong: "su_secrets s = su_secrets t \<Longrightarrow> su_key s = su_key t \<Longrightarrow> missing s l = missing t l"
  by (simp add: missing_def)

lemma sample_supervised_log:
  "su_log (sample_supervised True) = [] @ AppStarted sample_launch (the_start sample_unlocked sample_release_id sample_launch) #
     [Wants True True, Unlocked [(''TOKEN'', ''t'')] (Some (replicate 64 7)), AgentUp]" (is ?log)
  and sample_supervised_runs: "su_running (sample_supervised True) \<noteq> None" (is ?runs)
  and sample_not_spawned: "su_wanted (sample_supervised False) \<and> su_running (sample_supervised False) = None \<and>
     missing (sample_supervised False) sample_launch = None" (is ?down)
proof -
  let ?s = "\<lambda>b. (want (sample_agent_env b) True sample_unlocked)\<lparr>su_pause := first_pause, su_next_start := None\<rparr>"
  have m: "missing (?s b) sample_launch = None" for b
    using sample_unlocked_starts missing_cong [of "?s b" sample_unlocked] by (simp add: want_def)
  have t: "the_start (?s b) r l = the_start sample_unlocked r l" for b r l by (simp add: the_start_def app_env_def want_def)
  show ?log ?runs using m [of True] t [of True]
    by (simp_all add: sample_start start_app_def sample_current Let_def want_def sample_unlocked_facts)
  show ?down using m [of False] missing_cong [of "sample_supervised False" "?s False" sample_launch]
    by (simp add: sample_start start_app_def sample_current want_def sample_unlocked_facts)
qed

lemma the_app_gets_what_was_handed_over_witness:
  "start_allowed ([(''TOKEN'', ''t'')], Some (replicate 64 7)) sample_launch (the_start sample_unlocked sample_release_id sample_launch)"
  using the_app_gets_what_was_handed_over [OF sample_supervised_reached sample_supervised_log] by simp

lemma a_stopped_worker_stays_down_witness:
  "su_running (sample_supervised True) \<noteq> None \<and> su_running (snd (serve (sample_agent_env True) ReqLock (sample_supervised True))) = None"
proof
  have "only_stops []" by (simp add: only_stops_def)
  with a_stopped_worker_stays_down [OF sample_supervised_reached, of ReqLock "sample_agent_env True" True _ "[]"]
  show "su_running (snd (serve (sample_agent_env True) ReqLock (sample_supervised True))) = None" by simp
qed (rule sample_supervised_runs)

lemma a_wanted_app_is_tried_within_a_minute_witness:
  "map_option ra_release (su_running (tick (sample_agent_env True) ((sample_supervised False)\<lparr>su_now := su_now (sample_supervised False) + longest_pause\<rparr>))) =
     Some sample_release_id"
  using a_wanted_app_is_tried_within_a_minute [OF sample_supervised_reached, of False longest_pause "sample_agent_env True"]
    sample_not_spawned sample_current [of True] by (simp add: Let_def)

end
