(* ===== verification/Host_Key.thy ===== *)
theory Host_Key
  imports Worker_Server Bytes
begin

text \<open>
  A server's pinned key, \<open>hostkey.rs\<close> of erpc-ssh: standard base64, the form of an Ed25519 public key, and the
  key in the output of \<open>ssh-keyscan\<close>. SHA-256 is a parameter; white space is ASCII.
\<close>

subsection \<open>Pieces\<close>

text \<open>\<open>slice::chunks\<close>.\<close>

function chunks :: "nat \<Rightarrow> 'a list \<Rightarrow> 'a list list" where
  "chunks n xs = (if n = 0 \<or> xs = [] then [] else take n xs # chunks n (drop n xs))"
  by pat_completeness auto
termination by (relation "measure (\<lambda>(n, xs). length xs)") auto

declare chunks.simps [simp del]

lemma chunks_Nil [simp]: "chunks n [] = []"
  by (subst chunks.simps) simp

lemma chunks_append: "0 < n \<Longrightarrow> length xs = n \<Longrightarrow> chunks n (xs @ ys) = xs # chunks n ys"
  by (subst chunks.simps) auto

lemma chunks_short: "0 < n \<Longrightarrow> xs \<noteq> [] \<Longrightarrow> length xs \<le> n \<Longrightarrow> chunks n xs = [xs]"
  by (subst chunks.simps) auto

text \<open>\<open>Iterator::position\<close>.\<close>

fun place_of :: "('a \<Rightarrow> bool) \<Rightarrow> 'a list \<Rightarrow> nat option" where
  "place_of P [] = None"
| "place_of P (x # xs) = (if P x then Some 0 else map_option Suc (place_of P xs))"

lemma position_nth: "distinct xs \<Longrightarrow> k < length xs \<Longrightarrow> place_of (\<lambda>x. x = xs ! k) xs = Some k"
proof (induction xs arbitrary: k)
  case (Cons x xs)
  show ?case
  proof (cases k)
    case (Suc j)
    with Cons.prems have "xs ! j \<in> set xs" "distinct xs" "x \<notin> set xs" by auto
    with Cons Suc show ?thesis by auto
  qed simp
qed simp

lemma position_None: "x \<notin> set xs \<Longrightarrow> place_of (\<lambda>y. y = x) xs = None"
  by (induction xs) auto

text \<open>\<open>str::split\<close> at the characters of a kind, and \<open>str::split_whitespace\<close>.\<close>

fun split_by :: "(char \<Rightarrow> bool) \<Rightarrow> string \<Rightarrow> string list" where
  "split_by sep [] = [[]]"
| "split_by sep (c # cs) =
     (if sep c then [] # split_by sep cs
      else (case split_by sep cs of [] \<Rightarrow> [[c]] | p # ps \<Rightarrow> (c # p) # ps))"

definition words_of :: "string \<Rightarrow> string list" where
  "words_of s = filter (\<lambda>w. w \<noteq> []) (split_by is_space s)"

subsection \<open>Base64\<close>

definition alphabet :: string where
  "alphabet = ''ABCDEFGHIJKLMNOPQRSTUVWXYZabcdefghijklmnopqrstuvwxyz0123456789+/''"

definition encode_chunk :: "bytes \<Rightarrow> string" where
  "encode_chunk chunk =
     (let b = (\<lambda>i. if i < length chunk then unat (chunk ! i) else 0);
          n = b 0 * 2 ^ 16 + b 1 * 2 ^ 8 + b 2
      in map (\<lambda>i. if i \<le> length chunk then alphabet ! (n div 2 ^ (18 - 6 * i) mod 64) else CHR ''='') [0, 1, 2, 3])"

definition encode_base64 :: "bytes \<Rightarrow> string" where
  "encode_base64 bs = concat (map encode_chunk (chunks 3 bs))"

fun values_of :: "string \<Rightarrow> nat \<Rightarrow> nat option" where
  "values_of [] n = Some n"
| "values_of (c # cs) n = (case place_of (\<lambda>a. a = c) alphabet of None \<Rightarrow> None | Some v \<Rightarrow> values_of cs (n * 64 + v))"

definition decode_chunk :: "bool \<Rightarrow> string \<Rightarrow> bytes option" where
  "decode_chunk is_last chunk =
     (let pad = length (takeWhile (\<lambda>c. c = CHR ''='') (List.rev chunk))
      in if pad > 2 \<or> (pad > 0 \<and> \<not> is_last) then None
         else map_option (\<lambda>n. take (3 - pad) (map (\<lambda>i. word_of_nat (n * 64 ^ pad div 2 ^ i mod 256)) [16, 8, 0]))
           (values_of (take (4 - pad) chunk) 0))"

fun decode_chunks :: "string list \<Rightarrow> bytes option" where
  "decode_chunks [] = Some []"
| "decode_chunks (c # cs) =
     (case decode_chunk (cs = []) c of None \<Rightarrow> None | Some b \<Rightarrow> map_option (\<lambda>bs. b @ bs) (decode_chunks cs))"

definition decode_base64 :: "string \<Rightarrow> bytes option" where
  "decode_base64 t = (if t = [] \<or> length t mod 4 \<noteq> 0 then None else decode_chunks (chunks 4 t))"

subsection \<open>Keys\<close>

definition algorithm :: string where "algorithm = ''ssh-ed25519''"

record host_key =
  hk_base64 :: string
  hk_blob :: bytes

datatype host_key_error = KeyFormat | KeyBase64 | KeyBlob

text \<open>A string of the SSH wire form: its length in four bytes, the most significant first, and its bytes.\<close>

definition take_string :: "bytes \<Rightarrow> (bytes \<times> bytes) option" where
  "take_string d =
     (if length d < 4 then None
      else
        (let n = le_nat (List.rev (take 4 d)); tail = drop 4 d
         in if length tail < n then None else Some (take n tail, drop n tail)))"

definition host_key_parse :: "string \<Rightarrow> host_key_error + host_key" where
  "host_key_parse s =
     (case words_of s of
        [] \<Rightarrow> Err KeyFormat
      | [a] \<Rightarrow> Err KeyFormat
      | a # b # rest \<Rightarrow>
         (if a \<noteq> algorithm then Err KeyFormat
          else case decode_base64 b of
            None \<Rightarrow> Err KeyBase64
          | Some blob \<Rightarrow>
             (case take_string blob of
                None \<Rightarrow> Err KeyBlob
              | Some (alg, r1) \<Rightarrow>
                 (case take_string r1 of
                    None \<Rightarrow> Err KeyBlob
                  | Some (key, r2) \<Rightarrow>
                     (if alg \<noteq> str_bytes algorithm \<or> length key \<noteq> 32 \<or> r2 \<noteq> [] then Err KeyBlob
                      else Ok \<lparr>hk_base64 = b, hk_blob = blob\<rparr>)))))"

definition to_openssh :: "host_key \<Rightarrow> string" where
  "to_openssh k = algorithm @ '' '' @ hk_base64 k"

definition fingerprint :: "(bytes \<Rightarrow> bytes) \<Rightarrow> host_key \<Rightarrow> string" where
  "fingerprint sha256 k =
     ''SHA256:'' @ List.rev (dropWhile (\<lambda>c. c = CHR ''='') (List.rev (encode_base64 (sha256 (hk_blob k)))))"

definition from_keyscan :: "string \<Rightarrow> host_key_error + host_key" where
  "from_keyscan output =
     (case first_some (\<lambda>l. map_option snd (split_once (CHR '' '') l))
        (filter (\<lambda>l. \<not> starts_with l ''#'') (map trim (text_lines output))) of
        None \<Rightarrow> Err KeyFormat
      | Some key \<Rightarrow> if starts_with key algorithm then host_key_parse key else Err KeyFormat)"

subsection \<open>Base64 reads back\<close>

lemma alphabet_length: "length alphabet = 64"
  by (simp add: alphabet_def)

lemma alphabet_distinct: "distinct alphabet"
  by code_simp

lemma alphabet_plain: "c \<in> set alphabet \<Longrightarrow> c \<noteq> CHR ''='' \<and> \<not> is_space c"
proof -
  have "list_all (\<lambda>c. c \<noteq> CHR ''='' \<and> \<not> is_space c) alphabet" by code_simp
  then show "c \<in> set alphabet \<Longrightarrow> c \<noteq> CHR ''='' \<and> \<not> is_space c" by (auto simp: list_all_iff)
qed

lemma alphabet_nth: "v < 64 \<Longrightarrow> alphabet ! v \<noteq> CHR ''='' \<and> \<not> is_space (alphabet ! v)"
  using alphabet_plain [OF nth_mem] by (simp add: alphabet_length)

lemma values_of_letters:
  "list_all (\<lambda>v. v < 64) vs \<Longrightarrow> values_of (map (\<lambda>v. alphabet ! v) vs) n = Some (foldl (\<lambda>n v. n * 64 + v) n vs)"
  by (induction vs arbitrary: n) (simp_all add: position_nth [OF alphabet_distinct] alphabet_length)

text \<open>A number below \<open>2 ^ 24\<close> is made of its four digits to the base 64.\<close>

lemma digits_64:
  fixes n :: nat
  assumes "n < 2 ^ 24"
  shows "((n div 2 ^ 18 mod 64 * 64 + n div 2 ^ 12 mod 64) * 64 + n div 2 ^ 6 mod 64) * 64 + n mod 64 = n"
proof -
  have d: "m div 2 ^ (k + 6) * 64 + m div 2 ^ k mod 64 = m div 2 ^ k" for m k :: nat
  proof -
    have "m div 2 ^ (k + 6) = m div 2 ^ k div 64" by (simp add: power_add div_mult2_eq)
    then show ?thesis by simp
  qed
  have "n div 2 ^ 18 mod 64 = n div 2 ^ 18" using assms by simp
  then show ?thesis using d [of n 12] d [of n 6] d [of n 0] by simp
qed

lemma foldl_64:
  "foldl (\<lambda>n v. n * 64 + v) 0 [p, q, r, t] = ((p * 64 + q) * 64 + r) * 64 + (t :: nat)"
  "foldl (\<lambda>n v. n * 64 + v) 0 [p, q, r] = (p * 64 + q) * 64 + (r :: nat)"
  "foldl (\<lambda>n v. n * 64 + v) 0 [p, q] = p * 64 + (q :: nat)"
  by simp_all

lemma bytes_24:
  fixes a b c :: byte
  defines "n \<equiv> unat a * 2 ^ 16 + unat b * 2 ^ 8 + unat c"
  shows "n < 2 ^ 24" "n div 2 ^ 16 mod 256 = unat a" "n div 2 ^ 8 mod 256 = unat b" "n mod 256 = unat c"
proof -
  note lt = byte_bound [of a] byte_bound [of b] byte_bound [of c]
  have n: "n = (unat a * 256 + unat b) * 256 + unat c" by (simp add: n_def)
  have d: "n div 256 = unat a * 256 + unat b" using lt by (simp add: n)
  show "n < 2 ^ 24" using lt by (simp add: n)
  have "n mod 256 = unat c mod 256" unfolding n by (rule mod_mult_self3)
  then show "n mod 256 = unat c" using lt by simp
  show "n div 2 ^ 8 mod 256 = unat b" using lt by (simp add: d)
  have "n div 2 ^ 16 = n div 256 div 256" by (simp add: div_mult2_eq [symmetric])
  then show "n div 2 ^ 16 mod 256 = unat a" using lt by (simp add: d)
qed

lemma decode_chunk_made:
  assumes "takeWhile (\<lambda>c. c = CHR ''='') (List.rev cs) = p" "length p \<le> 2" "p = [] \<or> is_last"
    "values_of (take (4 - length p) cs) 0 = Some m" "m * 64 ^ length p = n"
  shows "decode_chunk is_last cs =
    Some (take (3 - length p) [word_of_nat (n div 2 ^ 16 mod 256), word_of_nat (n div 2 ^ 8 mod 256), word_of_nat (n mod 256)])"
  unfolding decode_chunk_def Let_def assms(1,4) using assms(2,3) by (auto simp: assms(5))

lemma decode_encode_3: "decode_chunk is_last (encode_chunk [a, b, c]) = Some [a, b, c]"
proof -
  define n where "n = unat a * 2 ^ 16 + unat b * 2 ^ 8 + unat c"
  define vs where "vs = [n div 2 ^ 18 mod 64, n div 2 ^ 12 mod 64, n div 2 ^ 6 mod 64, n mod 64]"
  have e: "encode_chunk [a, b, c] = map (\<lambda>v. alphabet ! v) vs" by (simp add: encode_chunk_def Let_def n_def vs_def)
  have lt: "list_all (\<lambda>v. v < 64) vs" by (simp add: vs_def)
  have pad: "takeWhile (\<lambda>c. c = CHR ''='') (List.rev (map (\<lambda>v. alphabet ! v) vs)) = []"
    using alphabet_nth by (simp add: vs_def)
  have "foldl (\<lambda>n v. n * 64 + v) 0 vs = n"
    unfolding vs_def foldl_64 by (rule digits_64) (simp only: n_def bytes_24(1))
  then have v: "values_of (map (\<lambda>v. alphabet ! v) vs) 0 = Some n"
    using values_of_letters [OF lt, of 0] by simp
  have len: "length vs = 4" by (simp add: vs_def)
  have b: "n div 2 ^ 16 mod 256 = unat a" "n div 2 ^ 8 mod 256 = unat b" "n mod 256 = unat c"
    using bytes_24 [of a b c] by (simp_all add: n_def)
  show ?thesis unfolding e by (subst decode_chunk_made [OF pad _ _ _ refl, of is_last n]) (simp_all add: v len b [simplified])
qed

lemma decode_encode_2: "decode_chunk True (encode_chunk [a, b]) = Some [a, b]"
proof -
  define n where "n = unat a * 2 ^ 16 + unat b * 2 ^ 8"
  define vs where "vs = [n div 2 ^ 18 mod 64, n div 2 ^ 12 mod 64, n div 2 ^ 6 mod 64]"
  have e: "encode_chunk [a, b] = map (\<lambda>v. alphabet ! v) vs @ ''=''" by (simp add: encode_chunk_def Let_def n_def vs_def)
  have lt: "list_all (\<lambda>v. v < 64) vs" by (simp add: vs_def)
  have pad: "takeWhile (\<lambda>c. c = CHR ''='') (List.rev (map (\<lambda>v. alphabet ! v) vs @ ''='')) = ''=''"
    using alphabet_nth by (simp add: vs_def)
  have "n mod 64 = 0" by (simp add: n_def mod_eq_0_iff_dvd)
  moreover have "n < 2 ^ 24" using bytes_24(1) [of a b 0] by (simp add: n_def)
  ultimately have "(foldl (\<lambda>n v. n * 64 + v) 0 vs) * 64 = n"
    using digits_64 [of n] unfolding vs_def foldl_64 by (simp only: add_0_right)
  then have v: "values_of (map (\<lambda>v. alphabet ! v) vs) 0 = Some (foldl (\<lambda>n v. n * 64 + v) 0 vs) \<and> foldl (\<lambda>n v. n * 64 + v) 0 vs * 64 = n"
    using values_of_letters [OF lt, of 0] by simp
  have len: "length vs = 3" by (simp add: vs_def)
  have b: "n div 2 ^ 16 mod 256 = unat a" "n div 2 ^ 8 mod 256 = unat b"
    using bytes_24 [of a b 0] by (simp_all add: n_def)
  from v obtain m where m: "values_of (map (\<lambda>v. alphabet ! v) vs) 0 = Some m" "m * 64 ^ 1 = n" by auto
  show ?thesis unfolding e by (subst decode_chunk_made [OF pad, of True m n]) (use m in \<open>simp_all add: len b [simplified]\<close>)
qed

lemma decode_encode_1: "decode_chunk True (encode_chunk [a]) = Some [a]"
proof -
  define n where "n = unat a * 2 ^ 16"
  define vs where "vs = [n div 2 ^ 18 mod 64, n div 2 ^ 12 mod 64]"
  have e: "encode_chunk [a] = map (\<lambda>v. alphabet ! v) vs @ ''==''" by (simp add: encode_chunk_def Let_def n_def vs_def)
  have lt: "list_all (\<lambda>v. v < 64) vs" by (simp add: vs_def)
  have pad: "takeWhile (\<lambda>c. c = CHR ''='') (List.rev (map (\<lambda>v. alphabet ! v) vs @ ''=='')) = ''==''"
    using alphabet_nth by (simp add: vs_def)
  have "n mod 64 = 0" "n div 2 ^ 6 mod 64 = 0" by (simp_all add: n_def)
  moreover have "n < 2 ^ 24" using bytes_24(1) [of a 0 0] by (simp add: n_def)
  ultimately have "(foldl (\<lambda>n v. n * 64 + v) 0 vs) * 64 ^ 2 = n"
    using digits_64 [of n] unfolding vs_def foldl_64 by (simp only: add_0_right power2_eq_square mult.assoc)
  then have v: "values_of (map (\<lambda>v. alphabet ! v) vs) 0 = Some (foldl (\<lambda>n v. n * 64 + v) 0 vs) \<and> foldl (\<lambda>n v. n * 64 + v) 0 vs * 64 ^ 2 = n"
    using values_of_letters [OF lt, of 0] by simp
  have len: "length vs = 2" by (simp add: vs_def)
  have b: "n div 2 ^ 16 mod 256 = unat a"
    using bytes_24 [of a 0 0] by (simp_all add: n_def)
  from v obtain m where m: "values_of (map (\<lambda>v. alphabet ! v) vs) 0 = Some m" "m * 64 ^ 2 = n" by auto
  show ?thesis unfolding e by (subst decode_chunk_made [OF pad, of True m n]) (use m in \<open>simp_all add: len b [simplified]\<close>)
qed

lemma encode_chunk_length [simp]: "length (encode_chunk c) = 4"
  by (simp add: encode_chunk_def Let_def)

lemma chunks_encoded: "chunks 4 (concat (map encode_chunk cs)) = map encode_chunk cs"
  by (induction cs) (simp_all add: chunks_append)

lemma decode_encode_chunks: "decode_chunks (map encode_chunk (chunks 3 bs)) = Some bs"
proof (induction bs rule: length_induct)
  case (1 bs)
  show ?case
  proof (cases "length bs \<le> 3")
    case True
    then consider "bs = []" | a where "bs = [a]" | a b where "bs = [a, b]" | a b c where "bs = [a, b, c]"
      by (cases bs; cases "tl bs"; cases "tl (tl bs)") auto
    then show ?thesis
      by cases (simp_all add: chunks_short decode_encode_1 decode_encode_2 decode_encode_3)
  next
    case False
    obtain a bs1 where 1: "bs = a # bs1" "3 \<le> length bs1" using False by (cases bs) auto
    obtain b bs2 where 2: "bs1 = b # bs2" "2 \<le> length bs2" using 1(2) by (cases bs1) auto
    obtain c rest where 3: "bs2 = c # rest" using 2(2) by (cases bs2) auto
    have bs: "bs = a # b # c # rest" using 1(1) 2(1) 3 by simp
    have ch: "chunks 3 (a # b # c # rest) = [a, b, c] # chunks 3 rest" using chunks_append [of 3 "[a, b, c]" rest] by simp
    from "1.IH" bs have "decode_chunks (map encode_chunk (chunks 3 rest)) = Some rest" by simp
    then show ?thesis by (simp add: ch decode_encode_3 bs)
  qed
qed

lemma encode_base64_length: "length (encode_base64 bs) mod 4 = 0"
proof -
  have "length (concat (map encode_chunk cs)) = 4 * length cs" for cs by (induction cs) simp_all
  then show ?thesis by (simp add: encode_base64_def)
qed

lemma decode_encode_base64:
  assumes "bs \<noteq> []"
  shows "decode_base64 (encode_base64 bs) = Some bs"
proof -
  have "chunks 3 bs \<noteq> []" using assms by (subst chunks.simps) simp
  then have "encode_base64 bs \<noteq> []" by (cases "chunks 3 bs") (auto simp: encode_base64_def encode_chunk_def Let_def)
  with encode_base64_length [of bs] show ?thesis
    by (simp add: decode_base64_def) (simp add: encode_base64_def chunks_encoded decode_encode_chunks)
qed

lemma encode_base64_plain: "list_all (\<lambda>c. \<not> is_space c) (encode_base64 bs)"
proof -
  have "list_all (\<lambda>c. \<not> is_space c) (encode_chunk c)" for c
    using alphabet_nth by (auto simp: encode_chunk_def Let_def is_space_def byte_of_def)
  then have "list_all (\<lambda>c. \<not> is_space c) (concat (map encode_chunk cs))" for cs
    by (induction cs) simp_all
  then show ?thesis by (simp add: encode_base64_def)
qed

subsection \<open>Keys read back\<close>

lemma split_by_nonempty [simp]: "split_by sep s \<noteq> []"
  by (induction s) (auto split: list.splits)

lemma split_by_one: "list_all (\<lambda>c. \<not> sep c) p \<Longrightarrow> split_by sep p = [p]"
  by (induction p) auto

lemma split_by_cons: "list_all (\<lambda>c. \<not> sep c) p \<Longrightarrow> sep c \<Longrightarrow> split_by sep (p @ c # s) = p # split_by sep s"
  by (induction p) auto

lemma split_by_plain: "p \<in> set (split_by sep s) \<Longrightarrow> list_all (\<lambda>c. \<not> sep c) p"
  by (induction s arbitrary: p) (auto split: list.splits if_splits)

lemma words_of_plain: "w \<in> set (words_of s) \<Longrightarrow> w \<noteq> [] \<and> list_all (\<lambda>c. \<not> is_space c) w"
  using split_by_plain [of w is_space s] by (auto simp: words_of_def)

lemma algorithm_plain: "list_all (\<lambda>c. \<not> is_space c) algorithm" "algorithm \<noteq> []" "is_space (CHR '' '')"
  by code_simp+

lemma words_of_line:
  assumes "b \<noteq> []" "list_all (\<lambda>c. \<not> is_space c) b"
  shows "words_of (algorithm @ '' '' @ b) = [algorithm, b]"
  using split_by_cons [where sep = is_space, OF algorithm_plain(1,3), of b] split_by_one [where sep = is_space, OF assms(2)] assms(1) algorithm_plain(2)
  by (simp add: words_of_def)

definition wire_string :: "bytes \<Rightarrow> bytes" where
  "wire_string d = List.rev (le_bytes 4 (length d)) @ d"

definition wire_form :: "bytes \<Rightarrow> bytes" where
  "wire_form key = wire_string (str_bytes algorithm) @ wire_string key"

lemma take_string_wire: "length d < 2 ^ 32 \<Longrightarrow> take_string (wire_string d @ rest) = Some (d, rest)"
  by (simp add: take_string_def wire_string_def Let_def le_nat_le_bytes_small)

lemma le_nat_inj: "le_nat a = le_nat b \<Longrightarrow> length a = length b \<Longrightarrow> a = b"
  by (metis le_bytes_le_nat)

lemma take_string_Some:
  assumes "take_string d = Some (v, rest)"
  shows "d = wire_string v @ rest"
proof -
  from assms have len: "4 \<le> length d" and v: "v = take (le_nat (List.rev (take 4 d))) (drop 4 d)"
    and rest: "rest = drop (le_nat (List.rev (take 4 d))) (drop 4 d)" and fits: "le_nat (List.rev (take 4 d)) \<le> length (drop 4 d)"
    by (auto simp: take_string_def Let_def split: if_splits)
  have "length v = le_nat (List.rev (take 4 d))" using v fits by simp
  moreover have "length (List.rev (take 4 d)) = 4" using len by simp
  ultimately have "le_bytes 4 (length v) = List.rev (take 4 d)" by (metis le_bytes_le_nat)
  then have "List.rev (le_bytes 4 (length v)) = take 4 d" by simp
  moreover have "v @ rest = drop 4 d" unfolding v rest by (rule append_take_drop_id)
  ultimately have "wire_string v @ rest = take 4 d @ drop 4 d" by (simp add: wire_string_def)
  then show ?thesis by simp
qed

lemma host_key_parse_exact:
  "host_key_parse s = Ok k \<longleftrightarrow>
     (\<exists>rest key. words_of s = algorithm # hk_base64 k # rest \<and> decode_base64 (hk_base64 k) = Some (hk_blob k) \<and>
        length key = 32 \<and> hk_blob k = wire_form key)"
proof
  assume "host_key_parse s = Ok k"
  then obtain b rest blob alg r1 key where w: "words_of s = algorithm # b # rest" and d: "decode_base64 b = Some blob"
    and 1: "take_string blob = Some (alg, r1)" and 2: "take_string r1 = Some (key, [])" and a: "alg = str_bytes algorithm" "length key = 32"
    and k: "k = \<lparr>hk_base64 = b, hk_blob = blob\<rparr>"
    by (auto simp: host_key_parse_def split: list.splits option.splits if_splits)
  from take_string_Some [OF 1] take_string_Some [OF 2] a(1) have "blob = wire_form key" by (simp add: wire_form_def)
  with w d a(2) k show "\<exists>rest key. words_of s = algorithm # hk_base64 k # rest \<and> decode_base64 (hk_base64 k) = Some (hk_blob k) \<and>
      length key = 32 \<and> hk_blob k = wire_form key" by auto
next
  assume "\<exists>rest key. words_of s = algorithm # hk_base64 k # rest \<and> decode_base64 (hk_base64 k) = Some (hk_blob k) \<and>
      length key = 32 \<and> hk_blob k = wire_form key"
  then obtain rest key where w: "words_of s = algorithm # hk_base64 k # rest" and d: "decode_base64 (hk_base64 k) = Some (hk_blob k)"
    and key: "length key = 32" "hk_blob k = wire_form key" by blast
  have "take_string (wire_form key) = Some (str_bytes algorithm, wire_string key @ [])"
    unfolding wire_form_def append_Nil2 by (rule take_string_wire) (simp add: str_bytes_def algorithm_def)
  moreover have "take_string (wire_string key @ []) = Some (key, [])" by (rule take_string_wire) (simp add: key(1))
  ultimately show "host_key_parse s = Ok k" using w d key by (simp add: host_key_parse_def)
qed

lemma decode_base64_nonempty: "decode_base64 b \<noteq> None \<Longrightarrow> b \<noteq> []"
  by (auto simp: decode_base64_def)

lemma printed_key_reads:
  assumes "host_key_parse s = Ok k"
  shows "host_key_parse (to_openssh k) = Ok k"
proof -
  from assms obtain rest key where w: "words_of s = algorithm # hk_base64 k # rest" and d: "decode_base64 (hk_base64 k) = Some (hk_blob k)"
    and key: "length key = 32" "hk_blob k = wire_form key" unfolding host_key_parse_exact by blast
  have "hk_base64 k \<noteq> [] \<and> list_all (\<lambda>c. \<not> is_space c) (hk_base64 k)" using w words_of_plain [of "hk_base64 k" s] by simp
  then show ?thesis unfolding host_key_parse_exact to_openssh_def using words_of_line d key by blast
qed

text \<open>
  C39: A pinned key reads back: a key that was taken is printed as a line that is read as that very key, its blob is
  the wire form of 32 bytes, and the base64 of those bytes as erpc writes it is read as the same blob.
\<close>

theorem a_pinned_key_reads_back:
  assumes "host_key_parse s = Ok k"
  shows "host_key_parse (to_openssh k) = Ok k \<and>
    (\<exists>key. length key = 32 \<and> hk_blob k = wire_form key \<and>
       host_key_parse (algorithm @ '' '' @ encode_base64 (wire_form key)) = Ok (k\<lparr>hk_base64 := encode_base64 (wire_form key)\<rparr>))"
proof -
  from assms obtain rest key where w: "words_of s = algorithm # hk_base64 k # rest" and d: "decode_base64 (hk_base64 k) = Some (hk_blob k)"
    and key: "length key = 32" "hk_blob k = wire_form key" unfolding host_key_parse_exact by blast
  have "wire_form key \<noteq> []" using key(1) by (auto simp: wire_form_def wire_string_def)
  from decode_encode_base64 [OF this] have e: "decode_base64 (encode_base64 (wire_form key)) = Some (wire_form key)" .
  then have "encode_base64 (wire_form key) \<noteq> []" using decode_base64_nonempty by fastforce
  from words_of_line [OF this encode_base64_plain] e key
  have "host_key_parse (algorithm @ '' '' @ encode_base64 (wire_form key)) = Ok (k\<lparr>hk_base64 := encode_base64 (wire_form key)\<rparr>)"
    unfolding host_key_parse_exact by auto
  with printed_key_reads [OF assms] key show ?thesis by blast
qed

lemma sample_host_key: "\<exists>k. host_key_parse (algorithm @ '' '' @ encode_base64 (wire_form (replicate 32 7))) = Ok k"
proof -
  let ?w = "wire_form (replicate 32 7)" and ?b = "encode_base64 (wire_form (replicate 32 7))"
  have "?w \<noteq> []" by (simp add: wire_form_def wire_string_def)
  from decode_encode_base64 [OF this] have e: "decode_base64 ?b = Some ?w" .
  then have "?b \<noteq> []" using decode_base64_nonempty by fastforce
  from words_of_line [OF this encode_base64_plain] e have "host_key_parse (algorithm @ '' '' @ ?b) = Ok \<lparr>hk_base64 = ?b, hk_blob = ?w\<rparr>"
    unfolding host_key_parse_exact by (auto intro: exI [of _ "replicate 32 7"])
  then show ?thesis by blast
qed

lemma a_pinned_key_reads_back_witness: "\<exists>s k. host_key_parse s = Ok k \<and> host_key_parse (to_openssh k) = Ok k"
  using sample_host_key a_pinned_key_reads_back by blast

text \<open>Only the first line with a key is looked at: an Ed25519 key after another one is not found.\<close>

lemma a_later_key_is_not_found: "from_keyscan (''h ssh-rsa AAAA'' @ new_line @ ''h '' @ to_openssh k @ new_line) = Err KeyFormat"
proof -
  have "text_lines (''h ssh-rsa AAAA'' @ new_line @ ''h '' @ to_openssh k @ new_line) =
      ''h ssh-rsa AAAA'' # text_lines (''h '' @ to_openssh k @ new_line)"
    by (rule text_lines_cons) simp_all
  moreover have "trim ''h ssh-rsa AAAA'' = ''h ssh-rsa AAAA''" "\<not> starts_with ''h ssh-rsa AAAA'' ''#''"
    "split_once (CHR '' '') ''h ssh-rsa AAAA'' = Some (''h'', ''ssh-rsa AAAA'')" "\<not> starts_with ''ssh-rsa AAAA'' algorithm"
    by code_simp+
  ultimately show ?thesis by (simp add: from_keyscan_def)
qed

end
