(* ===== verification/Ssh_Session.thy ===== *)
theory Ssh_Session
  imports Host_Key
begin

text \<open>
  What a connection to a node may be, \<open>config.rs\<close>, \<open>exec.rs\<close> and \<open>first_login.rs\<close> of erpc-ssh: the values checked
  before they are written, the configuration and the pin, what \<open>ssh -G\<close> must report, the processes started, and
  how they ended. OpenSSH and the file system are inputs; paths are text, of characters below 256.
\<close>

subsection \<open>Targets\<close>

definition ssh_alias :: string where "ssh_alias = ''erpc-node''"

datatype ssh_identity = KeyFile string | KeyAgent string string

record ssh_target =
  tg_host :: string
  tg_port :: nat
  tg_user :: string
  tg_host_key :: host_key
  tg_identity :: ssh_identity

datatype target_error = BadHost string | BadUser string | BadPath string

datatype effective_error =
    IsSet string string
  | IsNot string string string
  | NotSet string
  | GFailed string
  | OldOpenSsh string
  | NoFifo

datatype ssh_error =
    NoOpenSsh
  | BadTarget target_error
  | Effective effective_error
  | HostKeyMismatch
  | NoHostKey host_key_error
  | CommandFailed int string
  | SshIo

definition check_user :: "string \<Rightarrow> target_error + unit" where
  "check_user user =
     (if user \<noteq> [] \<and> length user \<le> 32 \<and> \<not> starts_with user ''-'' \<and>
         list_all (\<lambda>b. is_ascii_alphanumeric b \<or> b \<in> set ''-_.'') user
      then Ok () else Err (BadUser user))"

definition check_host :: "string \<Rightarrow> target_error + unit" where
  "check_host host =
     (if host \<noteq> [] \<and> length host \<le> 253 \<and> \<not> (starts_with host ''-'' \<or> starts_with host ''.'') \<and>
         list_all (\<lambda>b. is_ascii_alphanumeric b \<or> b \<in> set ''-.:'') host
      then Ok () else Err (BadHost host))"

text \<open>\<open>char::is_control\<close>.\<close>

definition is_control :: "char \<Rightarrow> bool" where
  "is_control c = (byte_of c < 32 \<or> 127 \<le> byte_of c \<and> byte_of c < 160)"

definition quoted_path :: "string \<Rightarrow> string" where "quoted_path p = [CHR 0x22] @ p @ [CHR 0x22]"

definition path_value :: "string \<Rightarrow> target_error + string" where
  "path_value p =
     (if p = [] \<or> \<not> starts_with p ''/'' \<or> list_ex (\<lambda>c. is_control c \<or> c \<in> {CHR 0x22, CHR ''%'', CHR ''$''}) p then Err (BadPath p)
      else Ok (quoted_path p))"

definition target_paths :: "ssh_target \<Rightarrow> string list" where
  "target_paths t = (case tg_identity t of KeyFile p \<Rightarrow> [p] | KeyAgent socket pub \<Rightarrow> [socket, pub])"

fun check_paths :: "string list \<Rightarrow> target_error + unit" where
  "check_paths [] = Ok ()"
| "check_paths (p # ps) = and_then (path_value p) (\<lambda>v. check_paths ps)"

definition target_check :: "ssh_target \<Rightarrow> target_error + unit" where
  "target_check t =
     and_then (check_host (tg_host t)) (\<lambda>_. and_then (check_user (tg_user t)) (\<lambda>_. check_paths (target_paths t)))"

subsection \<open>The configuration\<close>

definition config_line :: "string \<times> string \<Rightarrow> string" where
  "config_line kv = ''  '' @ fst kv @ '' '' @ snd kv"

definition config_text :: "(string \<times> string) list \<Rightarrow> string" where
  "config_text kvs = concat (map (\<lambda>l. l @ new_line) ((''Host '' @ ssh_alias) # map config_line kvs))"

definition identity_settings :: "ssh_identity \<Rightarrow> target_error + (string \<times> string) list" where
  "identity_settings i =
     (case i of
        KeyFile p \<Rightarrow> and_then (path_value p) (\<lambda>v. Ok [(''IdentityFile'', v), (''IdentityAgent'', ''none'')])
      | KeyAgent socket pub \<Rightarrow>
         and_then (path_value pub) (\<lambda>v. and_then (path_value socket) (\<lambda>w. Ok [(''IdentityFile'', v), (''IdentityAgent'', w)])))"

text \<open>What would carry a connection elsewhere or open a channel back, shut.\<close>

definition side_doors :: "(string \<times> string) list" where
  "side_doors =
     [(''PasswordAuthentication'', ''no''), (''KbdInteractiveAuthentication'', ''no''), (''ForwardAgent'', ''no''), (''ForwardX11'', ''no''),
      (''ClearAllForwardings'', ''yes''), (''PermitLocalCommand'', ''no''), (''ProxyCommand'', ''none''), (''ProxyJump'', ''none''),
      (''RequestTTY'', ''no''), (''ControlMaster'', ''no''), (''ControlPath'', ''none''), (''ConnectTimeout'', ''20''),
      (''ServerAliveInterval'', ''15''), (''ServerAliveCountMax'', ''4''), (''LogLevel'', ''ERROR'')]"

definition target_settings :: "ssh_target \<Rightarrow> string \<Rightarrow> (string \<times> string) list \<Rightarrow> (string \<times> string) list" where
  "target_settings t known identity =
     [(''HostName'', tg_host t), (''Port'', show_nat (tg_port t)), (''User'', tg_user t), (''HostKeyAlias'', ssh_alias),
      (''HostKeyAlgorithms'', algorithm), (''StrictHostKeyChecking'', ''yes''), (''UserKnownHostsFile'', known),
      (''GlobalKnownHostsFile'', ''/dev/null''), (''UpdateHostKeys'', ''no''), (''CheckHostIP'', ''no''), (''BatchMode'', ''yes''),
      (''IdentitiesOnly'', ''yes'')] @ identity @
     side_doors"

definition render_config :: "ssh_target \<Rightarrow> string \<Rightarrow> target_error + string" where
  "render_config t known_hosts =
     and_then (target_check t) (\<lambda>_. and_then (path_value known_hosts) (\<lambda>known.
       and_then (identity_settings (tg_identity t)) (\<lambda>identity. Ok (config_text (target_settings t known identity)))))"

definition known_hosts_line :: "host_key \<Rightarrow> string" where
  "known_hosts_line k = ssh_alias @ '' '' @ to_openssh k @ new_line"

definition password_settings :: "string \<Rightarrow> nat \<Rightarrow> string \<Rightarrow> string \<Rightarrow> (string \<times> string) list" where
  "password_settings host port user known =
     [(''HostName'', host), (''Port'', show_nat port), (''User'', user), (''HostKeyAlias'', ssh_alias), (''HostKeyAlgorithms'', algorithm),
      (''StrictHostKeyChecking'', ''yes''), (''UserKnownHostsFile'', known), (''GlobalKnownHostsFile'', ''/dev/null''),
      (''UpdateHostKeys'', ''no''), (''CheckHostIP'', ''no''), (''BatchMode'', ''no''), (''PreferredAuthentications'', ''password''),
      (''PasswordAuthentication'', ''yes''), (''NumberOfPasswordPrompts'', ''1''), (''PubkeyAuthentication'', ''no''),
      (''KbdInteractiveAuthentication'', ''no''), (''HostbasedAuthentication'', ''no''), (''GSSAPIAuthentication'', ''no''),
      (''IdentitiesOnly'', ''yes''), (''IdentityAgent'', ''none''), (''ForwardAgent'', ''no''), (''ForwardX11'', ''no''),
      (''ClearAllForwardings'', ''yes''), (''PermitLocalCommand'', ''no''), (''ProxyCommand'', ''none''), (''ProxyJump'', ''none''),
      (''RequestTTY'', ''no''), (''ControlMaster'', ''no''), (''ControlPath'', ''none''), (''ConnectTimeout'', ''20''), (''LogLevel'', ''ERROR'')]"

subsection \<open>What ssh -G must report\<close>

definition required_settings :: "ssh_target \<Rightarrow> string \<Rightarrow> (string \<times> string) list" where
  "required_settings t known_hosts =
     [(''hostname'', map to_ascii_lower (tg_host t)), (''port'', show_nat (tg_port t)), (''user'', tg_user t), (''hostkeyalias'', ssh_alias),
      (''hostkeyalgorithms'', algorithm), (''stricthostkeychecking'', ''true''), (''userknownhostsfile'', known_hosts),
      (''globalknownhostsfile'', ''/dev/null''), (''updatehostkeys'', ''false''), (''batchmode'', ''yes''), (''identitiesonly'', ''yes''),
      (''passwordauthentication'', ''no''), (''kbdinteractiveauthentication'', ''no''), (''forwardagent'', ''no''), (''forwardx11'', ''no''),
      (''clearallforwardings'', ''yes''), (''permitlocalcommand'', ''no''), (''requesttty'', ''false''), (''controlmaster'', ''false''),
      (''tunnel'', ''false'')]"

definition password_required :: "string \<Rightarrow> nat \<Rightarrow> string \<Rightarrow> string \<Rightarrow> (string \<times> string) list" where
  "password_required host port user known_hosts =
     [(''hostname'', map to_ascii_lower host), (''port'', show_nat port), (''user'', user), (''userknownhostsfile'', known_hosts),
      (''hostkeyalias'', ssh_alias), (''hostkeyalgorithms'', algorithm), (''stricthostkeychecking'', ''true''),
      (''globalknownhostsfile'', ''/dev/null''), (''updatehostkeys'', ''false''), (''preferredauthentications'', ''password''),
      (''passwordauthentication'', ''yes''), (''pubkeyauthentication'', ''false|no''), (''kbdinteractiveauthentication'', ''no''),
      (''identityagent'', ''none''), (''forwardagent'', ''no''), (''forwardx11'', ''no''), (''clearallforwardings'', ''yes''),
      (''permitlocalcommand'', ''no''), (''requesttty'', ''false''), (''controlmaster'', ''false''), (''tunnel'', ''false'')]"

definition forbidden_settings :: "string list" where
  "forbidden_settings =
     [''proxycommand'', ''proxyjump'', ''localcommand'', ''remotecommand'', ''localforward'', ''remoteforward'', ''dynamicforward'',
      ''knownhostscommand'', ''pkcs11provider'', ''controlpath'', ''include'', ''setenv'']"

definition settings_in :: "string \<Rightarrow> (string \<times> string) list" where
  "settings_in output = List.map_filter (split_once (CHR '' '')) (text_lines output)"

fun check_required :: "(string \<times> string) list \<Rightarrow> (string \<times> string) list \<Rightarrow> effective_error + unit" where
  "check_required settings [] = Ok ()"
| "check_required settings ((name, want) # req) =
     (case map_of settings name of
        None \<Rightarrow> Err (NotSet name)
      | Some v \<Rightarrow> if v \<in> set (split_on (CHR ''|'') want) then check_required settings req else Err (IsNot name v want))"

definition check_settings :: "string \<Rightarrow> (string \<times> string) list \<Rightarrow> effective_error + unit" where
  "check_settings output req =
     (let settings = settings_in output
      in case first_some (\<lambda>n. map_option (IsSet n) (map_of settings n)) forbidden_settings of
           Some e \<Rightarrow> Err e
         | None \<Rightarrow> check_required settings req)"

definition check_effective :: "string \<Rightarrow> ssh_target \<Rightarrow> string \<Rightarrow> effective_error + unit" where
  "check_effective output t known_hosts = check_settings output (required_settings t known_hosts)"

subsection \<open>Sessions\<close>

text \<open>
  A run's private directory with what was written into it. \<open>se_dir\<close> is none when it, or a file in it, cannot be
  made; \<open>se_G\<close> is what \<open>ssh -G\<close> does with a configuration.
\<close>

record run_dir =
  rd_dir :: string
  rd_config :: string
  rd_pins :: string

record ssh_env =
  se_found :: bool
  se_dir :: "string option"
  se_G :: "string \<Rightarrow> (bool \<times> string \<times> string) option"
  se_version :: "string option"
  se_fifo :: bool

definition known_hosts_of :: "string \<Rightarrow> string" where "known_hosts_of d = path_join d ''known_hosts''"

definition last_line :: "string \<Rightarrow> string" where
  "last_line t =
     (let ls = filter (\<lambda>l. l \<noteq> []) (map trim (text_lines t))
      in take 300 (map (\<lambda>c. if is_control c then CHR ''?'' else c) (if ls = [] then [] else last ls)))"

definition run_dir_new :: "ssh_env \<Rightarrow> ssh_target \<Rightarrow> ssh_error + run_dir" where
  "run_dir_new env t =
     (case target_check t of
        Inl e \<Rightarrow> Err SshIo
      | Inr u \<Rightarrow>
         (case se_dir env of
            None \<Rightarrow> Err SshIo
          | Some d \<Rightarrow>
             (case render_config t (known_hosts_of d) of
                Inl e \<Rightarrow> Err SshIo
              | Inr c \<Rightarrow> Ok \<lparr>rd_dir = d, rd_config = c, rd_pins = known_hosts_line (tg_host_key t)\<rparr>)))"

definition session_open :: "ssh_env \<Rightarrow> ssh_target \<Rightarrow> ssh_error + run_dir" where
  "session_open env t =
     (case target_check t of
        Inl e \<Rightarrow> Err (BadTarget e)
      | Inr u \<Rightarrow>
         (if \<not> se_found env then Err NoOpenSsh
          else and_then (run_dir_new env t) (\<lambda>rd.
            case se_G env (rd_config rd) of
              None \<Rightarrow> Err SshIo
            | Some (ok, out, err) \<Rightarrow>
               (if \<not> ok then Err (Effective (GFailed (last_line err)))
                else and_then (map_err Effective (check_effective out t (known_hosts_of (rd_dir rd)))) (\<lambda>_. Ok rd)))))"

text \<open>The arguments of the \<open>ssh\<close> that runs a line.\<close>

definition session_args :: "run_dir \<Rightarrow> string \<Rightarrow> string list" where
  "session_args rd line = [''-F'', path_join (rd_dir rd) ''config'', ssh_alias, ''--'', line]"

definition finish :: "bool \<Rightarrow> int option \<Rightarrow> string \<Rightarrow> ssh_error + unit" where
  "finish success code err =
     (if success then Ok ()
      else if has_text ''Host key verification failed'' err \<or> has_text ''REMOTE HOST IDENTIFICATION HAS CHANGED'' err then Err HostKeyMismatch
      else Err (CommandFailed (case code of Some c \<Rightarrow> c | None \<Rightarrow> -1) (last_line err)))"

definition keyscan :: "ssh_env \<Rightarrow> (string list \<Rightarrow> string option) \<Rightarrow> string \<Rightarrow> nat \<Rightarrow> ssh_error + host_key" where
  "keyscan env scan host port =
     (case check_host host of
        Inl e \<Rightarrow> Err (BadTarget e)
      | Inr u \<Rightarrow>
         (if \<not> se_found env then Err NoOpenSsh
          else case scan [''-t'', algorithm, ''-T'', ''10'', ''-p'', show_nat port, host] of
            None \<Rightarrow> Err SshIo
          | Some out \<Rightarrow> map_err NoHostKey (from_keyscan out)))"

subsection \<open>The first login, by password\<close>

definition askpass_forced :: "string \<Rightarrow> bool" where
  "askpass_forced version =
     (case strip_prefix ''OpenSSH_'' version of
        None \<Rightarrow> False
      | Some rest \<Rightarrow>
         (case map (parse_upto u32_max) (split_by (\<lambda>c. \<not> is_digit c) rest) of
            Some major # Some minor # ns \<Rightarrow> 8 < major \<or> major = 8 \<and> 4 \<le> minor
          | _ \<Rightarrow> False))"

record password_login =
  pl_dir :: string
  pl_config :: string
  pl_pins :: string
  pl_helper :: string

definition helper_text :: "string \<Rightarrow> string" where
  "helper_text fifo = ''#!/bin/sh'' @ new_line @ ''exec /bin/cat '' @ fifo @ new_line"

definition password_open :: "ssh_env \<Rightarrow> string \<Rightarrow> nat \<Rightarrow> string \<Rightarrow> host_key \<Rightarrow> ssh_error + password_login" where
  "password_open env host port user key =
     and_then (map_err BadTarget (check_host host)) (\<lambda>_.
     and_then (map_err BadTarget (check_user user)) (\<lambda>_.
       if \<not> se_found env then Err NoOpenSsh
       else case se_version env of
         None \<Rightarrow> Err SshIo
       | Some v \<Rightarrow>
          (if \<not> askpass_forced (trim v) then Err (Effective (OldOpenSsh (trim v)))
           else case se_dir env of
             None \<Rightarrow> Err SshIo
           | Some d \<Rightarrow>
              and_then (map_err BadTarget (path_value (known_hosts_of d))) (\<lambda>known.
                if \<not> se_fifo env then Err (Effective NoFifo)
                else and_then (map_err BadTarget (path_value (path_join d ''secret''))) (\<lambda>fifo.
                  let config = config_text (password_settings host port user known)
                  in case se_G env config of
                       None \<Rightarrow> Err SshIo
                     | Some (ok, out, err) \<Rightarrow>
                        (if \<not> ok then Err (Effective (GFailed (last_line err)))
                         else and_then (map_err Effective (check_settings out (password_required host port user (known_hosts_of d)))) (\<lambda>_.
                           Ok \<lparr>pl_dir = d, pl_config = config, pl_pins = known_hosts_line key, pl_helper = helper_text fifo\<rparr>)))))))"

definition login_refused :: "ssh_error \<Rightarrow> bool" where
  "login_refused e = (case e of CommandFailed c m \<Rightarrow> has_text ''Permission denied'' m | _ \<Rightarrow> False)"

subsection \<open>Lemmas\<close>

definition no_break :: "string \<Rightarrow> bool" where
  "no_break l \<longleftrightarrow> CHR 0x0A \<notin> set l \<and> CHR 0x0D \<notin> set l"

lemma no_break_simps [simp]:
  "no_break []" "no_break (c # s) \<longleftrightarrow> c \<noteq> CHR 0x0A \<and> c \<noteq> CHR 0x0D \<and> no_break s" "no_break (a @ b) \<longleftrightarrow> no_break a \<and> no_break b"
  by (auto simp: no_break_def)

lemma side_doors_no_break: "list_all (\<lambda>kv. no_break (fst kv) \<and> no_break (snd kv)) side_doors"
  by (simp add: side_doors_def)

lemma alnum_no_break: "list_all (\<lambda>b. is_ascii_alphanumeric b \<or> b \<in> set extra) s \<Longrightarrow> no_break extra \<Longrightarrow> no_break s"
  by (auto simp: no_break_def list_all_iff is_ascii_alphanumeric_def Let_def byte_of_def)

lemma check_host_Ok: "check_host h = Ok u \<Longrightarrow> no_break h \<and> h \<noteq> [] \<and> \<not> starts_with h ''-'' \<and> CHR '' '' \<notin> set h"
  by (auto simp: check_host_def list_all_iff is_ascii_alphanumeric_def Let_def byte_of_def no_break_def split: if_splits)

lemma check_user_Ok: "check_user h = Ok u \<Longrightarrow> no_break h \<and> h \<noteq> [] \<and> \<not> starts_with h ''-'' \<and> CHR '' '' \<notin> set h"
  by (auto simp: check_user_def list_all_iff is_ascii_alphanumeric_def Let_def byte_of_def no_break_def split: if_splits)

lemma path_value_Ok:
  assumes "path_value p = Ok v"
  shows "v = quoted_path p \<and> no_break v \<and> CHR 0x22 \<notin> set p"
proof -
  from assms have v: "v = quoted_path p" and c: "\<And>c. c \<in> set p \<Longrightarrow> \<not> is_control c \<and> c \<noteq> CHR 0x22"
    by (auto simp: path_value_def list_ex_iff split: if_splits)
  have "is_control (CHR 0x0A)" "is_control (CHR 0x0D)" by (simp_all add: is_control_def byte_of_def)
  with c have "no_break p" by (auto simp: no_break_def)
  with v c show ?thesis by (auto simp: quoted_path_def no_break_def)
qed

lemma show_nat_no_break: "no_break (show_nat n)"
  using show_nat_digits by (fastforce simp: no_break_def byte_of_def)

lemma config_text_lines:
  assumes "list_all (\<lambda>kv. no_break (fst kv) \<and> no_break (snd kv)) kvs"
  shows "text_lines (config_text kvs) = (''Host '' @ ssh_alias) # map config_line kvs"
proof -
  have "no_break (''Host '' @ ssh_alias)" by (simp add: no_break_def ssh_alias_def)
  moreover have "no_break (config_line kv)" if "kv \<in> set kvs" for kv
  proof -
    have "no_break ''  ''" "no_break '' ''" by (simp_all add: no_break_def)
    with assms that show ?thesis by (auto simp: config_line_def list_all_iff)
  qed
  ultimately have "list_all (\<lambda>l. CHR 0x0A \<notin> set l \<and> CHR 0x0D \<notin> set l) ((''Host '' @ ssh_alias) # map config_line kvs)"
    by (auto simp: list_all_iff no_break_def)
  from text_lines_prefix [OF this, of "[]"] show ?thesis by (simp add: config_text_def text_lines_def Let_def)
qed

lemma key_no_break:
  assumes "host_key_parse l = Ok k"
  shows "no_break (to_openssh k)"
proof -
  from assms obtain rest where "words_of l = algorithm # hk_base64 k # rest" unfolding host_key_parse_exact by blast
  with words_of_plain [of "hk_base64 k" l] have "list_all (\<lambda>c. \<not> is_space c) (hk_base64 k)" by simp
  moreover have "is_space (CHR 0x0A)" "is_space (CHR 0x0D)" by (simp_all add: is_space_def byte_of_def)
  ultimately have "no_break (hk_base64 k)" by (auto simp: no_break_def list_all_iff)
  moreover have "no_break algorithm" by (simp add: no_break_def algorithm_def)
  ultimately show ?thesis by (auto simp: to_openssh_def no_break_def)
qed

lemma check_required_Ok:
  "check_required settings req = Ok u \<longleftrightarrow>
     list_all (\<lambda>(name, want). \<exists>v. map_of settings name = Some v \<and> v \<in> set (split_on (CHR ''|'') want)) req"
  by (induction settings req rule: check_required.induct) (auto split: option.splits)

lemma first_some_None: "first_some f xs = None \<longleftrightarrow> list_all (\<lambda>x. f x = None) xs"
  by (induction f xs rule: first_some.induct) (auto split: option.splits)

lemma check_settings_Ok:
  "check_settings out req = Ok u \<longleftrightarrow>
     list_all (\<lambda>n. map_of (settings_in out) n = None) forbidden_settings \<and>
     list_all (\<lambda>(name, want). \<exists>v. map_of (settings_in out) name = Some v \<and> v \<in> set (split_on (CHR ''|'') want)) req"
proof (cases "first_some (\<lambda>n. map_option (IsSet n) (map_of (settings_in out) n)) forbidden_settings")
  case None
  then have "list_all (\<lambda>n. map_of (settings_in out) n = None) forbidden_settings" by (simp add: first_some_None)
  with None show ?thesis unfolding check_settings_def Let_def by (simp only: option.case check_required_Ok simp_thms)
next
  case (Some e)
  then have "first_some (\<lambda>n. map_option (IsSet n) (map_of (settings_in out) n)) forbidden_settings \<noteq> None" by simp
  then have "\<not> list_all (\<lambda>n. map_of (settings_in out) n = None) forbidden_settings" by (simp add: first_some_None)
  with Some show ?thesis unfolding check_settings_def Let_def by simp
qed

lemma render_config_Ok:
  assumes "render_config t kh = Ok c"
  shows "\<exists>identity. identity_settings (tg_identity t) = Ok identity \<and> map fst identity = [''IdentityFile'', ''IdentityAgent''] \<and>
    c = config_text (target_settings t (quoted_path kh) identity) \<and>
    list_all (\<lambda>kv. no_break (fst kv) \<and> no_break (snd kv)) (target_settings t (quoted_path kh) identity)"
proof -
  from assms obtain u v identity where t: "target_check t = Ok u" and v: "path_value kh = Ok v"
    and i: "identity_settings (tg_identity t) = Ok identity" and c: "c = config_text (target_settings t v identity)"
    by (auto simp: render_config_def and_then_Ok)
  have kh: "v = quoted_path kh" "no_break v" using path_value_Ok [OF v] by auto
  from t obtain a b where "check_host (tg_host t) = Ok a" "check_user (tg_user t) = Ok b" by (auto simp: target_check_def and_then_Ok)
  then have names: "no_break (tg_host t)" "no_break (tg_user t)" using check_host_Ok check_user_Ok by blast+
  have none: "no_break ''none''" by (simp add: no_break_def)
  from i have id: "map fst identity = [''IdentityFile'', ''IdentityAgent'']" "list_all (\<lambda>kv. no_break (snd kv)) identity"
    using path_value_Ok none by (auto simp: identity_settings_def and_then_Ok split: ssh_identity.splits)
  have idk: "list_all (\<lambda>kv. no_break (fst kv)) identity"
  proof -
    have "list_all no_break (map fst identity)" unfolding id(1) by (simp add: no_break_def)
    then show ?thesis by (simp add: list_all_iff)
  qed
  have alg: "no_break ssh_alias" "no_break algorithm" by (simp_all add: no_break_def ssh_alias_def algorithm_def)
  have "list_all (\<lambda>kv. no_break (fst kv) \<and> no_break (snd kv)) identity" using id(2) idk by (auto simp: list_all_iff)
  then have all: "list_all (\<lambda>kv. no_break (fst kv) \<and> no_break (snd kv)) (target_settings t v identity)"
    using names alg kh(2) show_nat_no_break side_doors_no_break by (simp add: target_settings_def)
  show ?thesis by (rule exI [of _ identity], intro conjI i id(1)) (use c all in \<open>simp_all only: kh(1)\<close>)
qed

lemma session_open_Ok:
  assumes "session_open env t = Ok rd"
  shows "\<exists>out err u. run_dir_new env t = Ok rd \<and> se_G env (rd_config rd) = Some (True, out, err) \<and>
    check_effective out t (known_hosts_of (rd_dir rd)) = Ok u"
proof -
  from assms obtain rd' where r: "run_dir_new env t = Ok rd'" by (auto simp: session_open_def and_then_Ok split: sum.splits if_splits)
  with assms obtain ok out err where g: "se_G env (rd_config rd') = Some (ok, out, err)"
    by (cases "se_G env (rd_config rd')") (auto simp: session_open_def split: sum.splits if_splits)
  with assms r show ?thesis by (auto simp: session_open_def and_then_Ok map_err_Ok split: sum.splits if_splits)
qed

lemma split_once_value: "CHR '' '' \<notin> set k \<Longrightarrow> split_once (CHR '' '') (k @ CHR '' '' # v) = Some (k, v)"
  by (induction k) auto

lemma settings_read_back:
  "list_all (\<lambda>kv. CHR '' '' \<notin> set (fst kv)) kvs \<Longrightarrow> map (\<lambda>l. split_once (CHR '' '') (drop 2 l)) (map config_line kvs) = map Some kvs"
  by (induction kvs) (auto simp: config_line_def split_once_value)

lemma target_settings_keys:
  assumes "map fst identity = [''IdentityFile'', ''IdentityAgent'']"
  shows "distinct (map fst (target_settings t kh identity))" "list_all (\<lambda>kv. CHR '' '' \<notin> set (fst kv)) (target_settings t kh identity)"
proof -
  show "distinct (map fst (target_settings t kh identity))"
    by (simp add: target_settings_def side_doors_def assms)
  have "list_all (\<lambda>k. CHR '' '' \<notin> set k) (map fst (target_settings t kh identity))"
    by (simp add: target_settings_def side_doors_def assms)
  then show "list_all (\<lambda>kv. CHR '' '' \<notin> set (fst kv)) (target_settings t kh identity)" by (simp add: list_all_iff)
qed

subsection \<open>What connections promise\<close>

text \<open>
  What a configuration is to say, option by option: the target, its one pin in its one file, no questions, the
  one way to log in, and every side door shut. A key file is used without an agent; a key in an agent is
  asked of that agent's socket, and its public half is the file.
\<close>

definition meant_identity :: "ssh_identity \<Rightarrow> string \<times> string" where
  "meant_identity i =
     (case i of
        KeyFile p \<Rightarrow> (quoted_path p, ''none'')
      | KeyAgent socket pub \<Rightarrow> (quoted_path pub, quoted_path socket))"

definition meant_settings :: "ssh_target \<Rightarrow> string \<Rightarrow> (string \<times> string) list" where
  "meant_settings t kh =
     [(''HostName'', tg_host t), (''Port'', show_nat (tg_port t)), (''User'', tg_user t), (''HostKeyAlias'', ''erpc-node''),
      (''HostKeyAlgorithms'', ''ssh-ed25519''), (''StrictHostKeyChecking'', ''yes''), (''UserKnownHostsFile'', quoted_path kh),
      (''GlobalKnownHostsFile'', ''/dev/null''), (''UpdateHostKeys'', ''no''), (''CheckHostIP'', ''no''), (''BatchMode'', ''yes''),
      (''IdentitiesOnly'', ''yes''), (''IdentityFile'', fst (meant_identity (tg_identity t))),
      (''IdentityAgent'', snd (meant_identity (tg_identity t))),
      (''PasswordAuthentication'', ''no''), (''KbdInteractiveAuthentication'', ''no''), (''ForwardAgent'', ''no''), (''ForwardX11'', ''no''),
      (''ClearAllForwardings'', ''yes''), (''PermitLocalCommand'', ''no''), (''ProxyCommand'', ''none''), (''ProxyJump'', ''none''),
      (''RequestTTY'', ''no''), (''ControlMaster'', ''no''), (''ControlPath'', ''none''), (''ConnectTimeout'', ''20''),
      (''ServerAliveInterval'', ''15''), (''ServerAliveCountMax'', ''4''), (''LogLevel'', ''ERROR'')]"

lemma identity_meant:
  assumes "identity_settings i = Ok identity"
  shows "identity = [(''IdentityFile'', fst (meant_identity i)), (''IdentityAgent'', snd (meant_identity i))]"
proof (cases i)
  case (KeyFile p)
  with assms obtain v where "path_value p = Ok v" "identity = [(''IdentityFile'', v), (''IdentityAgent'', ''none'')]"
    by (auto simp: identity_settings_def and_then_Ok)
  with path_value_Ok KeyFile show ?thesis by (auto simp: meant_identity_def)
next
  case (KeyAgent socket pub)
  with assms obtain v w where "path_value pub = Ok v" "path_value socket = Ok w" "identity = [(''IdentityFile'', v), (''IdentityAgent'', w)]"
    by (auto simp: identity_settings_def and_then_Ok)
  with path_value_Ok KeyAgent show ?thesis by (auto simp: meant_identity_def)
qed

lemma settings_meant:
  assumes "identity_settings (tg_identity t) = Ok identity"
  shows "target_settings t (quoted_path kh) identity = meant_settings t kh"
  unfolding target_settings_def meant_settings_def side_doors_def identity_meant [OF assms] ssh_alias_def algorithm_def
  by (simp only: append.simps)

text \<open>No path among them can end its quotes early.\<close>

lemma target_paths_plain:
  assumes "target_check t = Ok u" and "p \<in> set (target_paths t)"
  shows "CHR 0x22 \<notin> set p"
proof -
  have "check_paths ps = Ok w \<Longrightarrow> q \<in> set ps \<Longrightarrow> CHR 0x22 \<notin> set q" for ps q w
    by (induction ps) (auto simp: and_then_Ok dest: path_value_Ok)
  with assms show ?thesis by (auto simp: target_check_def and_then_Ok)
qed

text \<open>
  C31: A configuration says only what was written: after the line that names the alias there is one line for
  each option meant, in their order, set to exactly the value meant for it, the key file and the agent
  among them, and each option once, however the host, the user and the paths were chosen; no path has a
  quote of its own, so no value opens a line, an option or a channel, and the side doors stay shut.
\<close>

theorem a_configuration_says_only_what_was_written:
  assumes "render_config t kh = Ok c"
  shows "hd (text_lines c) = ''Host erpc-node'' \<and>
    map (\<lambda>l. split_once (CHR '' '') (drop 2 l)) (tl (text_lines c)) = map Some (meant_settings t kh) \<and>
    distinct (map fst (meant_settings t kh)) \<and> CHR 0x22 \<notin> \<Union> (set ` set (kh # target_paths t))"
proof -
  from render_config_Ok [OF assms] obtain identity where id: "identity_settings (tg_identity t) = Ok identity"
    and i: "map fst identity = [''IdentityFile'', ''IdentityAgent'']"
    and c: "c = config_text (target_settings t (quoted_path kh) identity)"
    and plain: "list_all (\<lambda>kv. no_break (fst kv) \<and> no_break (snd kv)) (target_settings t (quoted_path kh) identity)"
    by (elim exE conjE) (rule that)
  note meant = settings_meant [OF id, of kh]
  note keys = target_settings_keys [OF i, of t "quoted_path kh", unfolded meant]
  have lines: "text_lines c = (''Host '' @ ssh_alias) # map config_line (meant_settings t kh)"
    unfolding c meant by (rule config_text_lines [OF plain [unfolded meant]])
  from assms obtain u v where "target_check t = Ok u" "path_value kh = Ok v" by (auto simp: render_config_def and_then_Ok)
  then have quotes: "CHR 0x22 \<notin> \<Union> (set ` set (kh # target_paths t))" using path_value_Ok target_paths_plain by auto
  have "''Host '' @ ssh_alias = ''Host erpc-node''" by (simp add: ssh_alias_def)
  then show ?thesis
    by (intro conjI quotes keys(1)) (simp_all only: lines list.sel settings_read_back [OF keys(2)])
qed

text \<open>
  C19: A session is opened only on what erpc wrote: its configuration is the one of the target, its one pin reads
  back as the target's key, and OpenSSH itself reported that it would use them, with strict checking of that
  key, no agent or X11 forwarded, and nothing that would send the connection or a command elsewhere.
\<close>

theorem a_session_uses_what_was_written:
  assumes "session_open env t = Ok rd" and "host_key_parse l = Ok (tg_host_key t)"
  shows "render_config t (known_hosts_of (rd_dir rd)) = Ok (rd_config rd) \<and>
    text_lines (rd_pins rd) = [ssh_alias @ '' '' @ to_openssh (tg_host_key t)] \<and> host_key_parse (to_openssh (tg_host_key t)) = Ok (tg_host_key t) \<and>
    (\<exists>out err. se_G env (rd_config rd) = Some (True, out, err) \<and>
       list_all (\<lambda>n. map_of (settings_in out) n = None) forbidden_settings \<and>
       list_all (\<lambda>(name, want). \<exists>v. map_of (settings_in out) name = Some v \<and> v \<in> set (split_on (CHR ''|'') want))
         (required_settings t (known_hosts_of (rd_dir rd))))"
proof -
  note opened = session_open_Ok [OF assms(1)]
  from opened obtain out err u where run: "run_dir_new env t = Ok rd" and g: "se_G env (rd_config rd) = Some (True, out, err)"
    and e: "check_effective out t (known_hosts_of (rd_dir rd)) = Ok u" by blast
  from run have r: "render_config t (known_hosts_of (rd_dir rd)) = Ok (rd_config rd)" and pins: "rd_pins rd = known_hosts_line (tg_host_key t)"
    by (auto simp: run_dir_new_def split: sum.splits option.splits)
  have "no_break (ssh_alias @ '' '' @ to_openssh (tg_host_key t))" using key_no_break [OF assms(2)] by (simp add: ssh_alias_def)
  then have "text_lines ((ssh_alias @ '' '' @ to_openssh (tg_host_key t)) @ new_line @ []) = [ssh_alias @ '' '' @ to_openssh (tg_host_key t)]"
    by (subst text_lines_cons) (auto simp: no_break_def text_lines_def Let_def)
  then have one: "text_lines (rd_pins rd) = [ssh_alias @ '' '' @ to_openssh (tg_host_key t)]" by (simp add: pins known_hosts_line_def)
  have back': "host_key_parse (to_openssh (tg_host_key t)) = Ok (tg_host_key t)" by (rule printed_key_reads [OF assms(2)])
  show ?thesis using e unfolding check_effective_def check_settings_Ok by (intro conjI r one back' exI [of _ out] exI [of _ err] g) blast+
qed

subsection \<open>A session\<close>

definition sample_target :: "host_key \<Rightarrow> ssh_target" where
  "sample_target k =
     \<lparr>tg_host = ''203.0.113.5'', tg_port = 22, tg_user = ''ubuntu'', tg_host_key = k, tg_identity = KeyFile ''/home/op/.ssh/id''\<rparr>"

definition reported :: "(string \<times> string) list \<Rightarrow> string" where
  "reported kvs = concat (map (\<lambda>(k, v). k @ '' '' @ v @ new_line) kvs)"

definition sample_ssh_env :: "host_key \<Rightarrow> ssh_env" where
  "sample_ssh_env k =
     \<lparr>se_found = True, se_dir = Some ''/r'', se_G = (\<lambda>c. Some (True, reported (required_settings (sample_target k) ''/r/known_hosts''), [])),
      se_version = None, se_fifo = False\<rparr>"

lemma sample_target_ok: "target_check (sample_target k) = Ok ()" "path_value ''/r/known_hosts'' = Ok (quoted_path ''/r/known_hosts'')"
  "path_value ''/home/op/.ssh/id'' = Ok (quoted_path ''/home/op/.ssh/id'')" "known_hosts_of ''/r'' = ''/r/known_hosts''"
proof -
  have "check_host ''203.0.113.5'' = Ok ()" "check_user ''ubuntu'' = Ok ()" by code_simp+
  moreover show 3: "path_value ''/home/op/.ssh/id'' = Ok (quoted_path ''/home/op/.ssh/id'')" by code_simp
  ultimately show "target_check (sample_target k) = Ok ()" by (simp add: target_check_def sample_target_def target_paths_def)
qed code_simp+

lemma sample_renders: "\<exists>c. render_config (sample_target k) ''/r/known_hosts'' = Ok c"
proof -
  have "identity_settings (tg_identity (sample_target k)) = Ok [(''IdentityFile'', quoted_path ''/home/op/.ssh/id''), (''IdentityAgent'', ''none'')]"
    by (simp add: identity_settings_def sample_target_def sample_target_ok(3))
  then show ?thesis by (simp add: render_config_def sample_target_ok)
qed

lemma a_configuration_says_only_what_was_written_witness:
  "\<exists>k c. render_config (sample_target k) ''/r/known_hosts'' = Ok c \<and> hd (text_lines c) = ''Host erpc-node''"
  using sample_renders a_configuration_says_only_what_was_written by blast

lemma sample_session: "\<exists>rd. session_open (sample_ssh_env k) (sample_target k) = Ok rd \<and> rd_dir rd = ''/r''"
proof -
  obtain c where c: "render_config (sample_target k) ''/r/known_hosts'' = Ok c" using sample_renders by blast
  have req: "required_settings (sample_target k) ''/r/known_hosts'' = required_settings (sample_target \<lparr>hk_base64 = [], hk_blob = []\<rparr>) ''/r/known_hosts''"
    by (simp add: required_settings_def sample_target_def)
  have "check_settings (reported (required_settings (sample_target \<lparr>hk_base64 = [], hk_blob = []\<rparr>) ''/r/known_hosts''))
      (required_settings (sample_target \<lparr>hk_base64 = [], hk_blob = []\<rparr>) ''/r/known_hosts'') = Ok ()" by code_simp
  then show ?thesis
    using c by (simp add: session_open_def run_dir_new_def sample_ssh_env_def sample_target_ok check_effective_def req)
qed

lemma a_session_uses_what_was_written_witness:
  "\<exists>k rd. session_open (sample_ssh_env k) (sample_target k) = Ok rd \<and> render_config (sample_target k) ''/r/known_hosts'' = Ok (rd_config rd)"
proof -
  from sample_host_key obtain l k where k: "host_key_parse l = Ok k" by blast
  obtain rd where rd: "session_open (sample_ssh_env k) (sample_target k) = Ok rd" "rd_dir rd = ''/r''" using sample_session by blast
  have "host_key_parse l = Ok (tg_host_key (sample_target k))" using k by (simp add: sample_target_def)
  from a_session_uses_what_was_written [OF rd(1) this] rd show ?thesis by (auto simp: sample_target_ok(4))
qed

end
