(* ===== verification/Remote_Command.thy ===== *)
theory Remote_Command
  imports Ssh_Session
begin

text \<open>
  What erpc may run on a node, \<open>command.rs\<close>, \<open>worker.rs\<close> and \<open>firewall.rs\<close> of erpc-ssh: the arguments and how each
  is checked, and the lines that are one simple command. The lines that are scripts, with conditions and
  loops around the same arguments, are left out; so is the shell, whose reading of words is a hypothesis.
\<close>

subsection \<open>Arguments\<close>

datatype command_error = BadRemotePath string | BadRun string

definition is_path_part :: "string \<Rightarrow> bool" where
  "is_path_part p =
     (p \<noteq> [] \<and> p \<noteq> ''.'' \<and> p \<noteq> ''..'' \<and> list_all (\<lambda>b. is_ascii_alphanumeric b \<or> b \<in> set ''._-'') p)"

definition writable_roots :: "string list" where "writable_roots = [''/opt/erpc/'']"

definition remote_path_new :: "string \<Rightarrow> command_error + string" where
  "remote_path_new path =
     (case first_some (\<lambda>root. strip_prefix root path) writable_roots of
        None \<Rightarrow> Err (BadRemotePath path)
      | Some rest \<Rightarrow> if list_all is_path_part (split_on (CHR ''/'') rest) then Ok path else Err (BadRemotePath path))"

definition run_id_new :: "string \<Rightarrow> command_error + string" where
  "run_id_new i =
     (case strip_prefix ''r-'' i of
        None \<Rightarrow> Err (BadRun i)
      | Some rest \<Rightarrow>
         (if 8 \<le> length rest \<and> length rest \<le> 40 \<and> list_all (\<lambda>b. is_lower b \<or> is_digit b \<or> b = CHR ''-'') rest then Ok i
          else Err (BadRun i)))"

definition run_dir_path :: "string \<Rightarrow> string" where "run_dir_path i = ''/opt/erpc/runs/'' @ i"

definition is_digest :: "string \<Rightarrow> bool" where "is_digest s = (length s = 64 \<and> list_all is_lower_hex s)"

record run_start =
  rs_run :: string
  rs_sha256 :: string
  rs_play :: string

definition run_start_new :: "string \<Rightarrow> string \<Rightarrow> string \<Rightarrow> command_error + run_start" where
  "run_start_new run sha256 play =
     (if \<not> is_digest sha256 \<or> \<not> (play \<noteq> [] \<and> list_all is_path_part (split_on (CHR ''/'') play)) then Err (BadRun (sha256 @ '' '' @ play))
      else Ok \<lparr>rs_run = run, rs_sha256 = sha256, rs_play = play\<rparr>)"

fun check_hosts :: "string list \<Rightarrow> command_error + unit" where
  "check_hosts [] = Ok ()"
| "check_hosts (h # hs) = and_then (map_err (\<lambda>e. BadRun h) (check_host h)) (\<lambda>_. check_hosts hs)"

definition ping_targets_new :: "string list \<Rightarrow> command_error + string list" where
  "ping_targets_new hosts =
     (if hosts = [] \<or> 32 < length hosts then Err (BadRun (show_nat (length hosts)))
      else and_then (check_hosts hosts) (\<lambda>_. Ok hosts))"

text \<open>\<open>Path::extension\<close>.\<close>

definition file_name_of :: "string \<Rightarrow> string option" where
  "file_name_of p =
     (let cs = filter (\<lambda>c. c \<noteq> [] \<and> c \<noteq> ''.'') (split_on (CHR ''/'') p)
      in if cs = [] \<or> last cs = ''..'' then None else Some (last cs))"

definition extension_of :: "string \<Rightarrow> string option" where
  "extension_of p =
     (case file_name_of p of
        None \<Rightarrow> None
      | Some f \<Rightarrow>
         (case split_once (CHR ''.'') (List.rev f) of
            None \<Rightarrow> None
          | Some (ext, stem) \<Rightarrow> if stem = [] then None else Some (List.rev ext)))"

definition key_file_path_new :: "string \<Rightarrow> command_error + string" where
  "key_file_path_new p =
     (if length p \<le> 255 \<and> starts_with p ''/'' \<and>
         (case extension_of p of None \<Rightarrow> False | Some e \<Rightarrow> eq_ignore_ascii_case e ''json'') \<and>
         list_all (\<lambda>b. is_ascii_alphanumeric b \<or> b \<in> set ''/._-'') p \<and>
         list_all (\<lambda>c. c \<noteq> [] \<and> c \<noteq> ''.'' \<and> c \<noteq> ''..'') (split_on (CHR ''/'') (tl p))
      then Ok p else Err (BadRemotePath p))"

definition two_digits :: "char \<Rightarrow> char \<Rightarrow> nat" where
  "two_digits a b = (byte_of a - 48) * 10 + (byte_of b - 48)"

definition time_of_day_new :: "string \<Rightarrow> string option" where
  "time_of_day_new t =
     (if length t = 5 \<and> t ! 2 = CHR '':'' \<and> list_all is_digit [t ! 0, t ! 1, t ! 3, t ! 4] \<and>
         two_digits (t ! 0) (t ! 1) < 24 \<and> two_digits (t ! 3) (t ! 4) < 60
      then Some t else None)"

definition unit_id_new :: "string \<Rightarrow> string option" where
  "unit_id_new i =
     (if i \<noteq> [] \<and> length i \<le> 49 \<and> is_lower (hd i) \<and> \<not> ends_in i ''-'' \<and> \<not> has_text ''--'' i \<and>
         list_all (\<lambda>b. is_lower b \<or> is_digit b \<or> b = CHR ''-'') i
      then Some i else None)"

definition release_id_new :: "string \<Rightarrow> string option" where
  "release_id_new b =
     (if length b = 25 \<and> list_all is_digit (take 8 b) \<and> b ! 8 = CHR ''T'' \<and> list_all is_digit (take 6 (drop 9 b)) \<and>
         b ! 15 = CHR ''Z'' \<and> b ! 16 = CHR ''-'' \<and> list_all is_lower_hex (drop 17 b)
      then Some b else None)"

definition digest_new :: "string \<Rightarrow> string option" where
  "digest_new h = (if is_digest h then Some h else None)"

text \<open>What confirms a firewall change: the run and the digest of its bundle.\<close>

definition firewall_token_new :: "string \<Rightarrow> string \<Rightarrow> (string \<times> string) option" where
  "firewall_token_new run bundle = (if is_digest bundle then Some (run, bundle) else None)"

subsection \<open>Commands\<close>

datatype worker_verb =
    VSetup bool
  | VInstall string
  | VStatus
  | VUnlock
  | VLock
  | VStart
  | VStop
  | VRestart
  | VActivate string
  | VRollback "string option"
  | VReleases
  | VRemove
  | VFirewallApply
  | VFirewallConfirm
  | VFirewallShow
  | VBenchRpc
  | VBackupSetup string
  | VBackupRemove
  | VBackupStatus
  | VServices bool bool
  | VBackupNow

datatype worker_command = WCtl string worker_verb | WLogs string nat bool

datatype remote_command =
    RUname
  | ROsRelease
  | RSha256 string
  | RRemove string
  | RReadKeyFile string
  | RRestartSolv
  | RWorker worker_command

definition agent_path :: string where "agent_path = ''/usr/local/lib/erpc/erpc-worker-agent''"

definition sq :: "string \<Rightarrow> string" where "sq s = [CHR 0x27] @ s @ [CHR 0x27]"

definition verb_text :: "worker_verb \<Rightarrow> string" where
  "verb_text v =
     (case v of
        VSetup again \<Rightarrow> if again then ''setup --restart-agent'' else ''setup''
      | VInstall r \<Rightarrow> ''install '' @ sq r
      | VStatus \<Rightarrow> ''status'' | VUnlock \<Rightarrow> ''unlock'' | VLock \<Rightarrow> ''lock'' | VStart \<Rightarrow> ''start'' | VStop \<Rightarrow> ''stop''
      | VRestart \<Rightarrow> ''restart''
      | VActivate r \<Rightarrow> ''activate '' @ sq r
      | VRollback None \<Rightarrow> ''rollback''
      | VRollback (Some r) \<Rightarrow> ''rollback --to '' @ sq r
      | VReleases \<Rightarrow> ''releases'' | VRemove \<Rightarrow> ''remove'' | VFirewallApply \<Rightarrow> ''firewall-apply''
      | VFirewallConfirm \<Rightarrow> ''firewall-confirm'' | VFirewallShow \<Rightarrow> ''firewall-show'' | VBenchRpc \<Rightarrow> ''bench-rpc''
      | VBackupSetup at \<Rightarrow> ''backup-setup --at '' @ sq at
      | VBackupRemove \<Rightarrow> ''backup-remove'' | VBackupStatus \<Rightarrow> ''backup-status'' | VBackupNow \<Rightarrow> ''backup-now''
      | VServices redis postgres \<Rightarrow>
         ''services'' @ (if redis then '' --redis'' else []) @ (if postgres then '' --postgres'' else []))"

definition worker_shell :: "worker_command \<Rightarrow> string" where
  "worker_shell c =
     (case c of
        WCtl i v \<Rightarrow> ''sudo -n '' @ sq agent_path @ '' ctl --id '' @ sq i @ '' '' @ verb_text v
      | WLogs i n follow \<Rightarrow>
         ''sudo -n journalctl --no-pager -o short-iso -n '' @ show_nat n @ '' -u '' @ sq (''erpc-worker-'' @ i @ ''.service'') @
         (if follow then '' -f'' else []))"

definition remote_line :: "remote_command \<Rightarrow> string" where
  "remote_line c =
     (case c of
        RUname \<Rightarrow> ''uname -srm''
      | ROsRelease \<Rightarrow> ''cat /etc/os-release''
      | RSha256 p \<Rightarrow> ''sha256sum -- '' @ sq p
      | RRemove p \<Rightarrow> ''rm -f -- '' @ sq p
      | RReadKeyFile p \<Rightarrow> ''cat -- '' @ sq p
      | RRestartSolv \<Rightarrow> ''sudo -n systemctl restart solv''
      | RWorker w \<Rightarrow> worker_shell w)"

subsection \<open>Words\<close>

text \<open>
  The words of a simple command: bare, of characters that mean themselves to a shell, or in single quotes with
  none inside. A shell that reads such words as POSIX says is \<open>posix_words\<close>.
\<close>

datatype shell_word = Bare string | Quoted string

fun written :: "shell_word \<Rightarrow> string" where
  "written (Bare w) = w"
| "written (Quoted w) = sq w"

fun meant :: "shell_word \<Rightarrow> string" where
  "meant (Bare w) = w"
| "meant (Quoted w) = w"

definition bare_char :: "char \<Rightarrow> bool" where
  "bare_char c = (is_ascii_alphanumeric c \<or> c \<in> set ''._-/'')"

fun word_ok :: "shell_word \<Rightarrow> bool" where
  "word_ok (Bare w) = (w \<noteq> [] \<and> list_all bare_char w)"
| "word_ok (Quoted w) = (CHR 0x27 \<notin> set w)"

definition posix_words :: "(string \<Rightarrow> string list option) \<Rightarrow> bool" where
  "posix_words sh \<longleftrightarrow> (\<forall>ws. list_all word_ok ws \<longrightarrow> sh (join_with '' '' (map written ws)) = Some (map meant ws))"

definition verb_words :: "worker_verb \<Rightarrow> shell_word list" where
  "verb_words v =
     (case v of
        VSetup again \<Rightarrow> Bare ''setup'' # (if again then [Bare ''--restart-agent''] else [])
      | VInstall r \<Rightarrow> [Bare ''install'', Quoted r]
      | VStatus \<Rightarrow> [Bare ''status''] | VUnlock \<Rightarrow> [Bare ''unlock''] | VLock \<Rightarrow> [Bare ''lock''] | VStart \<Rightarrow> [Bare ''start'']
      | VStop \<Rightarrow> [Bare ''stop''] | VRestart \<Rightarrow> [Bare ''restart'']
      | VActivate r \<Rightarrow> [Bare ''activate'', Quoted r]
      | VRollback None \<Rightarrow> [Bare ''rollback'']
      | VRollback (Some r) \<Rightarrow> [Bare ''rollback'', Bare ''--to'', Quoted r]
      | VReleases \<Rightarrow> [Bare ''releases''] | VRemove \<Rightarrow> [Bare ''remove''] | VFirewallApply \<Rightarrow> [Bare ''firewall-apply'']
      | VFirewallConfirm \<Rightarrow> [Bare ''firewall-confirm''] | VFirewallShow \<Rightarrow> [Bare ''firewall-show''] | VBenchRpc \<Rightarrow> [Bare ''bench-rpc'']
      | VBackupSetup at \<Rightarrow> [Bare ''backup-setup'', Bare ''--at'', Quoted at]
      | VBackupRemove \<Rightarrow> [Bare ''backup-remove''] | VBackupStatus \<Rightarrow> [Bare ''backup-status''] | VBackupNow \<Rightarrow> [Bare ''backup-now'']
      | VServices redis postgres \<Rightarrow>
         Bare ''services'' # (if redis then [Bare ''--redis''] else []) @ (if postgres then [Bare ''--postgres''] else []))"

definition command_words :: "remote_command \<Rightarrow> shell_word list" where
  "command_words c =
     (case c of
        RUname \<Rightarrow> [Bare ''uname'', Bare ''-srm'']
      | ROsRelease \<Rightarrow> [Bare ''cat'', Bare ''/etc/os-release'']
      | RSha256 p \<Rightarrow> [Bare ''sha256sum'', Bare ''--'', Quoted p]
      | RRemove p \<Rightarrow> [Bare ''rm'', Bare ''-f'', Bare ''--'', Quoted p]
      | RReadKeyFile p \<Rightarrow> [Bare ''cat'', Bare ''--'', Quoted p]
      | RRestartSolv \<Rightarrow> [Bare ''sudo'', Bare ''-n'', Bare ''systemctl'', Bare ''restart'', Bare ''solv'']
      | RWorker (WCtl i v) \<Rightarrow>
         [Bare ''sudo'', Bare ''-n'', Quoted agent_path, Bare ''ctl'', Bare ''--id'', Quoted i] @ verb_words v
      | RWorker (WLogs i n follow) \<Rightarrow>
         [Bare ''sudo'', Bare ''-n'', Bare ''journalctl'', Bare ''--no-pager'', Bare ''-o'', Bare ''short-iso'', Bare ''-n'',
          Bare (show_nat n), Bare ''-u'', Quoted (''erpc-worker-'' @ i @ ''.service'')] @ (if follow then [Bare ''-f''] else []))"

text \<open>The arguments were checked.\<close>

definition verb_checked :: "worker_verb \<Rightarrow> bool" where
  "verb_checked v =
     (case v of
        VInstall r \<Rightarrow> release_id_new r = Some r
      | VActivate r \<Rightarrow> release_id_new r = Some r
      | VRollback (Some r) \<Rightarrow> release_id_new r = Some r
      | VBackupSetup at \<Rightarrow> time_of_day_new at = Some at
      | _ \<Rightarrow> True)"

definition command_checked :: "remote_command \<Rightarrow> bool" where
  "command_checked c =
     (case c of
        RSha256 p \<Rightarrow> remote_path_new p = Ok p
      | RRemove p \<Rightarrow> remote_path_new p = Ok p
      | RReadKeyFile p \<Rightarrow> key_file_path_new p = Ok p
      | RWorker (WCtl i v) \<Rightarrow> unit_id_new i = Some i \<and> verb_checked v
      | RWorker (WLogs i n follow) \<Rightarrow> unit_id_new i = Some i
      | _ \<Rightarrow> True)"

lemma verb_line: "verb_text v = join_with '' '' (map written (verb_words v))"
  by (cases v) (auto simp: verb_text_def verb_words_def split: option.splits)

lemma verb_words_some: "verb_words v \<noteq> []"
  by (cases v) (auto simp: verb_words_def split: option.splits)

lemma remote_line_words: "remote_line c = join_with '' '' (map written (command_words c))"
proof (cases c)
  case (RWorker w)
  show ?thesis
  proof (cases w)
    case (WCtl i v)
    with RWorker verb_words_some [of v] show ?thesis
      by (simp add: remote_line_def worker_shell_def command_words_def verb_line join_with_Cons)
  next
    case (WLogs i n follow)
    with RWorker show ?thesis by (simp add: remote_line_def worker_shell_def command_words_def)
  qed
qed (simp_all add: remote_line_def command_words_def)

text \<open>What needs no quoting.\<close>

definition inert_char :: "char \<Rightarrow> bool" where
  "inert_char b = (is_ascii_alphanumeric b \<or> b \<in> set ''._-/:'')"

definition inert :: "string \<Rightarrow> bool" where
  "inert s \<longleftrightarrow> list_all inert_char s"

lemma inert_no_quote: "inert s \<Longrightarrow> CHR 0x27 \<notin> set s"
  by (auto simp: inert_def inert_char_def list_all_iff is_ascii_alphanumeric_def Let_def byte_of_def)

lemma inert_simps [simp]: "inert []" "inert (c # s) \<longleftrightarrow> inert_char c \<and> inert s" "inert (a @ b) \<longleftrightarrow> inert a \<and> inert b"
  by (simp_all add: inert_def)

lemma inert_chars [simp]: "inert_char (CHR ''/'')" "inert_char (CHR ''-'')" "inert_char (CHR '':'')" "inert_char (CHR ''T'')" "inert_char (CHR ''Z'')"
  by code_simp+

lemma join_inert: "list_all inert ps \<Longrightarrow> inert (join_with ''/'' ps)"
proof (induction ps)
  case (Cons p ps)
  then show ?case by (cases ps) simp_all
qed simp

lemma parts_inert:
  assumes "list_all is_path_part (split_on (CHR ''/'') p)"
  shows "inert p"
proof -
  have "list_all inert (split_on (CHR ''/'') p)"
    using assms by (auto simp: list_all_iff is_path_part_def inert_def inert_char_def)
  from join_inert [OF this] show ?thesis by (simp add: join_split)
qed

lemma remote_path_Ok:
  assumes "remote_path_new p = Ok q"
  shows "q = p \<and> (\<exists>rest. p = ''/opt/erpc/'' @ rest \<and> list_all is_path_part (split_on (CHR ''/'') rest)) \<and> inert p"
proof -
  from assms obtain rest where "p = ''/opt/erpc/'' @ rest" "list_all is_path_part (split_on (CHR ''/'') rest)" "q = p"
    by (cases "strip_prefix ''/opt/erpc/'' p") (auto simp: remote_path_new_def writable_roots_def split: if_splits option.splits)
  moreover have "inert ''/opt/erpc/''" by code_simp
  ultimately show ?thesis using parts_inert inert_simps by metis
qed

lemma unit_id_inert: "unit_id_new i = Some j \<Longrightarrow> inert i"
  by (auto simp: unit_id_new_def inert_def inert_char_def list_all_iff is_lower_def is_digit_def is_ascii_alphanumeric_def Let_def split: if_splits)

lemma key_file_inert: "key_file_path_new p = Ok q \<Longrightarrow> inert p"
  by (auto simp: key_file_path_new_def inert_def inert_char_def list_all_iff split: if_splits)

lemma digits_inert: "list_all is_digit s \<Longrightarrow> inert s"
  by (auto simp: inert_def inert_char_def list_all_iff is_digit_def is_ascii_alphanumeric_def Let_def)

lemma hex_inert: "list_all is_lower_hex s \<Longrightarrow> inert s"
  by (auto simp: inert_def inert_char_def list_all_iff is_lower_hex_def is_digit_def is_ascii_alphanumeric_def Let_def)

text \<open>A release id as erpc checks it is one as the agent does.\<close>

lemma release_id_new_exact: "release_id_new b = (if is_release_id b then Some b else None)"
proof -
  have hyphen: "\<not> is_digit (CHR ''-'')" by (simp add: is_digit_def byte_of_def)
  show ?thesis
  proof (cases "is_release_id b")
    case True
    then obtain time digest where b: "b = time @ CHR ''-'' # digest" and n: "length time = 16" "length digest = 8" and
      p: "list_all is_digit (take 8 time)" "time ! 8 = CHR ''T''" "list_all is_digit (take 6 (drop 9 time))" "time ! 15 = CHR ''Z''"
        "list_all is_lower_hex digest"
      by (auto simp: is_release_id_def split_once_Some split: option.splits)
    have "length b = 25" "take 8 b = take 8 time" "b ! 8 = time ! 8" "take 6 (drop 9 b) = take 6 (drop 9 time)" "b ! 15 = time ! 15"
      "b ! 16 = CHR ''-''" "drop 17 b = digest"
      using n by (simp_all add: b nth_append)
    with True p show ?thesis by (simp add: release_id_new_def)
  next
    case False
    have "release_id_new b = None"
    proof (rule ccontr)
      assume "release_id_new b \<noteq> None"
      then have len: "length b = 25" and p: "list_all is_digit (take 8 b)" "b ! 8 = CHR ''T''" "list_all is_digit (take 6 (drop 9 b))"
        "b ! 15 = CHR ''Z''" "b ! 16 = CHR ''-''" "list_all is_lower_hex (drop 17 b)"
        by (auto simp: release_id_new_def split: if_splits)
      define time where "time = take 16 b"
      have b: "b = time @ CHR ''-'' # drop 17 b"
        using id_take_nth_drop [of 16 b] len p(5) by (simp add: time_def)
      have t: "length time = 16" "take 8 time = take 8 b" "time ! 8 = b ! 8" "take 6 (drop 9 time) = take 6 (drop 9 b)" "time ! 15 = b ! 15"
        using len by (simp_all add: time_def drop_take)
      from split_16 [OF t(1)] have "set time = set (take 8 b) \<union> {CHR ''T''} \<union> set (take 6 (drop 9 b)) \<union> {CHR ''Z''}"
        using t p by (metis Un_insert_right list.simps(15) set_append sup_bot_right append.assoc set_empty)
      with p hyphen have "CHR ''-'' \<notin> set time" by (auto simp: list_all_iff)
      then have "split_once (CHR ''-'') b = Some (time, drop 17 b)" using b by (simp add: split_once_Some)
      with t p len have "is_release_id b" by (simp add: is_release_id_def)
      with False show False by simp
    qed
    with False show ?thesis by simp
  qed
qed

lemma unit_id_new_exact: "unit_id_new i = (if is_unit_id i then Some i else None)"
  by (auto simp: unit_id_new_def is_unit_id_def is_slug_def)

lemma release_id_inert: "release_id_new r = Some r \<Longrightarrow> inert r"
proof -
  assume "release_id_new r = Some r"
  then have "is_release_id r" by (simp add: release_id_new_exact split: if_splits)
  then obtain time digest where b: "r = time @ CHR ''-'' # digest" and n: "length time = 16" and
    p: "list_all is_digit (take 8 time)" "time ! 8 = CHR ''T''" "list_all is_digit (take 6 (drop 9 time))" "time ! 15 = CHR ''Z''"
      "list_all is_lower_hex digest"
    by (auto simp: is_release_id_def split_once_Some split: option.splits)
  have "inert (take 8 time @ [time ! 8] @ take 6 (drop 9 time) @ [time ! 15])" using p digits_inert by simp
  then have "inert time" by (simp only: split_16 [OF n, symmetric])
  with hex_inert [OF p(5)] show ?thesis by (simp add: b)
qed

lemma five_chars: "length t = 5 \<Longrightarrow> t = [t ! 0, t ! 1] @ (t ! 2) # [t ! 3, t ! 4]"
  by (cases t; cases "tl t"; cases "tl (tl t)"; cases "tl (tl (tl t))"; cases "tl (tl (tl (tl t)))") auto

lemma two_digits_value: "digits_value [a, b] = two_digits a b"
  by (simp add: digits_value_def two_digits_def)

lemma parse_two:
  assumes "a \<noteq> CHR ''+''"
  shows "parse_upto 255 [a, b] = (if is_digit a \<and> is_digit b then Some (two_digits a b) else None)"
proof -
  have "two_digits a b \<le> 255" if "is_digit a" "is_digit b"
  proof -
    have "byte_of a - 48 \<le> 9" "byte_of b - 48 \<le> 9" using that by (auto simp: is_digit_def)
    then show ?thesis by (simp add: two_digits_def)
  qed
  with assms show ?thesis by (auto simp: parse_upto_def two_digits_value)
qed

lemma time_of_day_two:
  assumes "length h = 2" "length m = 2" "CHR '':'' \<notin> set h"
  shows "time_of_day (h @ CHR '':'' # m) =
    (case (parse_upto 255 h, parse_upto 255 m) of (Some h, Some m) \<Rightarrow> (if h < 24 \<and> m < 60 then Some (h, m) else None) | _ \<Rightarrow> None)"
proof -
  have "split_once (CHR '':'') (h @ CHR '':'' # m) = Some (h, m)" using assms(3) by (simp add: split_once_Some)
  with assms(1,2) show ?thesis by (simp add: time_of_day_def)
qed

lemma time_of_day_new_taken:
  assumes "time_of_day_new t = Some u"
  shows "u = t \<and> time_of_day t = Some (two_digits (t ! 0) (t ! 1), two_digits (t ! 3) (t ! 4)) \<and> CHR ''+'' \<notin> set t"
proof -
  from assms have n: "length t = 5" and c: "t ! 2 = CHR '':''" and d: "is_digit (t ! 0)" "is_digit (t ! 1)" "is_digit (t ! 3)" "is_digit (t ! 4)"
    and r: "two_digits (t ! 0) (t ! 1) < 24" "two_digits (t ! 3) (t ! 4) < 60" and u: "u = t"
    by (auto simp: time_of_day_new_def split: if_splits)
  have t: "t = [t ! 0, t ! 1] @ CHR '':'' # [t ! 3, t ! 4]" using five_chars [OF n] c by simp
  have no: "c \<noteq> CHR '':''" "c \<noteq> CHR ''+''" if "is_digit c" for c using that by (auto simp: is_digit_def byte_of_def)
  have "time_of_day ([t ! 0, t ! 1] @ CHR '':'' # [t ! 3, t ! 4]) = Some (two_digits (t ! 0) (t ! 1), two_digits (t ! 3) (t ! 4))"
    using no [OF d(1)] no [OF d(2)] no [OF d(3)] d r by (subst time_of_day_two) (simp_all add: parse_two eq_commute)
  moreover have "CHR ''+'' \<notin> set ([t ! 0, t ! 1] @ CHR '':'' # [t ! 3, t ! 4])"
    using no [OF d(1)] no [OF d(2)] no [OF d(3)] no [OF d(4)] by (simp add: eq_commute)
  ultimately show ?thesis unfolding t [symmetric] using u by (intro conjI)
qed

lemma time_of_day_checked:
  assumes "time_of_day t = Some hm" "CHR ''+'' \<notin> set t"
  shows "time_of_day_new t = Some t"
proof -
  from assms(1) obtain h m x y where sp: "split_once (CHR '':'') t = Some (h, m)" and len: "length h = 2" "length m = 2"
    and p: "parse_upto 255 h = Some x" "parse_upto 255 m = Some y" "x < 24" "y < 60"
    by (auto simp: time_of_day_def split: option.splits if_splits)
  from sp have t: "t = h @ CHR '':'' # m" by (simp add: split_once_Some)
  obtain a b where h: "h = [a, b]" using len(1) by (cases h; cases "tl h") auto
  obtain c d where m: "m = [c, d]" using len(2) by (cases m; cases "tl m") auto
  have "a \<noteq> CHR ''+''" "c \<noteq> CHR ''+''" using assms(2) by (auto simp: t h m)
  with p show ?thesis by (auto simp: t h m parse_two time_of_day_new_def nth_Cons' split: if_splits)
qed

lemma time_inert: "time_of_day_new t = Some u \<Longrightarrow> inert t"
proof -
  assume a: "time_of_day_new t = Some u"
  then have n: "length t = 5" and c: "t ! 2 = CHR '':''" and d: "list_all is_digit [t ! 0, t ! 1]" "list_all is_digit [t ! 3, t ! 4]"
    by (auto simp: time_of_day_new_def split: if_splits)
  have "inert ([t ! 0, t ! 1] @ (t ! 2) # [t ! 3, t ! 4])" using digits_inert [OF d(1)] digits_inert [OF d(2)] c by simp
  then show "inert t" by (simp only: five_chars [OF n, symmetric])
qed

text \<open>The arguments of a checked command, none of which needs quoting.\<close>

definition arguments_of :: "shell_word list \<Rightarrow> string list" where
  "arguments_of ws = map meant (filter (\<lambda>w. case w of Bare b \<Rightarrow> False | Quoted q \<Rightarrow> True) ws)"

lemma agent_path_inert: "inert agent_path" "inert ''erpc-worker-''" "inert ''.service''"
  by code_simp+

lemma verb_arguments: "verb_checked v \<Longrightarrow> list_all inert (arguments_of (verb_words v))"
  using release_id_inert time_inert
  by (cases v) (auto simp: verb_checked_def verb_words_def arguments_of_def split: option.splits)

lemma command_arguments:
  assumes "command_checked c"
  shows "list_all inert (arguments_of (command_words c))"
proof (cases c)
  case (RWorker w)
  show ?thesis
  proof (cases w)
    case (WCtl i v)
    with RWorker assms have "list_all inert (arguments_of (verb_words v))" "inert i"
      using verb_arguments unit_id_inert by (auto simp: command_checked_def)
    then show ?thesis using RWorker WCtl agent_path_inert by (simp add: command_words_def arguments_of_def)
  next
    case (WLogs i n follow)
    with RWorker assms have "inert i" using unit_id_inert by (auto simp: command_checked_def)
    then show ?thesis using RWorker WLogs agent_path_inert by (simp add: command_words_def arguments_of_def)
  qed
qed (use assms remote_path_Ok key_file_inert in \<open>auto simp: command_checked_def command_words_def arguments_of_def\<close>)

lemma show_nat_bare: "list_all bare_char (show_nat n)"
  using show_nat_digits by (fastforce simp: list_all_iff bare_char_def is_ascii_alphanumeric_def Let_def)

definition bare_ok :: "shell_word \<Rightarrow> bool" where
  "bare_ok w = (case w of Bare b \<Rightarrow> word_ok w | Quoted q \<Rightarrow> True)"

lemma word_ok_iff: "list_all word_ok ws \<longleftrightarrow> list_all bare_ok ws \<and> list_all (\<lambda>a. CHR 0x27 \<notin> set a) (arguments_of ws)"
  by (induction ws) (auto simp: bare_ok_def arguments_of_def split: shell_word.splits)

lemma bare_words:
  "list_all (\<lambda>w. w \<noteq> [] \<and> list_all bare_char w)
     [''uname'', ''-srm'', ''cat'', ''/etc/os-release'', ''sha256sum'', ''--'', ''rm'', ''-f'', ''sudo'', ''-n'', ''systemctl'', ''restart'',
      ''solv'', ''ctl'', ''--id'', ''journalctl'', ''--no-pager'', ''-o'', ''short-iso'', ''-u'', ''setup'', ''--restart-agent'', ''install'',
      ''status'', ''unlock'', ''lock'', ''start'', ''stop'', ''activate'', ''rollback'', ''--to'', ''releases'', ''remove'', ''firewall-apply'',
      ''firewall-confirm'', ''firewall-show'', ''bench-rpc'', ''backup-setup'', ''--at'', ''backup-remove'', ''backup-status'', ''backup-now'',
      ''services'', ''--redis'', ''--postgres'']"
  by code_simp

lemma verb_bare_ok: "list_all bare_ok (verb_words v)"
  using bare_words by (cases v) (simp_all add: verb_words_def bare_ok_def split: option.split)

lemma command_bare_ok: "list_all bare_ok (command_words c)"
  using bare_words verb_bare_ok show_nat_bare
  by (auto simp: command_words_def bare_ok_def split: remote_command.split worker_command.split)

subsection \<open>What remote commands promise\<close>

text \<open>
  C15: A line is read as it was meant: whatever the checked arguments of a command, a shell that keeps to POSIX takes
  the line for one simple command, with exactly the words meant, the arguments among them unchanged, and none of
  them has a character that any shell would read as more than itself.
\<close>

theorem a_line_is_read_as_meant:
  assumes "posix_words sh" and "command_checked c"
  shows "sh (remote_line c) = Some (map meant (command_words c)) \<and> list_all inert (arguments_of (command_words c))"
proof -
  from command_arguments [OF assms(2)] have inert: "list_all inert (arguments_of (command_words c))" .
  then have "list_all word_ok (command_words c)"
    unfolding word_ok_iff using command_bare_ok inert_no_quote by (simp add: list_all_iff)
  with assms(1) have "sh (join_with '' '' (map written (command_words c))) = Some (map meant (command_words c))"
    unfolding posix_words_def by blast
  with inert show ?thesis by (simp only: remote_line_words simp_thms)
qed

text \<open>
  The agent takes what erpc sends: erpc passes on an id of a worker or of a release just when the agent takes it,
  and a time of day just when the agent reads one from it and it has no sign, as the same hour and minute.
\<close>

theorem the_agent_takes_what_erpc_sends:
  "unit_id_new i = (if is_unit_id i then Some i else None) \<and>
   release_id_new r = (if is_release_id r then Some r else None) \<and>
   time_of_day_new t = (if time_of_day t \<in> {Some (two_digits (t ! 0) (t ! 1), two_digits (t ! 3) (t ! 4))} \<and> CHR ''+'' \<notin> set t
     then Some t else None)"
proof (intro conjI unit_id_new_exact release_id_new_exact)
  show "time_of_day_new t = (if time_of_day t \<in> {Some (two_digits (t ! 0) (t ! 1), two_digits (t ! 3) (t ! 4))} \<and> CHR ''+'' \<notin> set t
     then Some t else None)"
    using time_of_day_new_taken [of t] time_of_day_checked [of t] by (cases "time_of_day_new t") auto
qed

text \<open>
  What erpc writes on a node stays where it may: a path that passes the check leads, from the root, to a place
  under \<open>/opt/erpc\<close>, whatever is in it.
\<close>

theorem a_written_path_stays_under_erpc:
  assumes "remote_path_new p = Ok q"
  shows "q = p \<and> (\<exists>parts. parts \<noteq> [] \<and> leads_to [] p = [''opt'', ''erpc''] @ parts)"
proof -
  from remote_path_Ok [OF assms] obtain rest where q: "q = p" and p: "p = ''/opt/erpc/'' @ rest"
    and parts: "list_all is_path_part (split_on (CHR ''/'') rest)" by blast
  have stay: "list_all is_path_part ps \<Longrightarrow> foldl go d ps = d @ ps" for ps d
    by (induction ps arbitrary: d) (simp_all add: go_def is_path_part_def)
  have "split_on (CHR ''/'') p = [[], ''opt'', ''erpc''] @ split_on (CHR ''/'') rest"
    using split_on_cons [of "CHR ''/''" "''opt''" "''erpc/'' @ rest"] split_on_cons [of "CHR ''/''" "''erpc''" rest] by (simp add: p)
  then have "leads_to [] p = [''opt'', ''erpc''] @ split_on (CHR ''/'') rest"
    using stay [OF parts, of "[''opt'', ''erpc'']"] by (simp add: leads_to_def go_def)
  with q show ?thesis by (intro conjI exI [of _ "split_on (CHR ''/'') rest"]) simp_all
qed

subsection \<open>A shell\<close>

text \<open>A shell that reads words of these two kinds and nothing else.\<close>

function plain_shell :: "string \<Rightarrow> string list option" where
  "plain_shell [] = Some []"
| "plain_shell (c # cs) =
     (let w = (if c = CHR 0x27 then takeWhile (\<lambda>x. x \<noteq> CHR 0x27) cs else takeWhile (\<lambda>x. x \<noteq> CHR '' '') (c # cs));
          r = (if c = CHR 0x27 then drop (Suc (length w)) cs else drop (length w) (c # cs))
      in case r of
           [] \<Rightarrow> Some [w]
         | s # rest \<Rightarrow> if s = CHR '' '' \<and> c \<noteq> CHR '' '' then map_option (\<lambda>ws. w # ws) (plain_shell rest) else None)"
  by pat_completeness auto
termination
proof (relation "measure length")
  fix c :: char and cs w r s rest
  assume r: "r = (if c = CHR 0x27 then drop (Suc (length w)) cs else drop (length w) (c # cs))" "r = s # rest"
  have "length r \<le> length (c # cs)" by (auto simp: r(1))
  then show "(rest, c # cs) \<in> measure length" using r(2) by simp
qed simp

declare plain_shell.simps(2) [simp del]

lemma takeWhile_stop: "list_all P xs \<Longrightarrow> \<not> P y \<Longrightarrow> takeWhile P (xs @ y # ys) = xs"
  by (induction xs) auto

lemma plain_shell_word:
  assumes "word_ok w"
  shows "plain_shell (written w) = Some [meant w]"
    and "plain_shell (written w @ CHR '' '' # rest) = map_option (\<lambda>ws. meant w # ws) (plain_shell rest)"
proof -
  have "plain_shell (written w) = Some [meant w] \<and>
      plain_shell (written w @ CHR '' '' # rest) = map_option (\<lambda>ws. meant w # ws) (plain_shell rest)"
  proof (cases w)
    case (Quoted q)
    with assms have q: "list_all (\<lambda>x. x \<noteq> CHR 0x27) q" by (auto simp: list_all_iff)
    have "takeWhile (\<lambda>x. x \<noteq> CHR 0x27) (q @ CHR 0x27 # r) = q" for r by (rule takeWhile_stop [OF q]) simp
    then show ?thesis using Quoted by (simp add: sq_def plain_shell.simps(2) Let_def)
  next
    case (Bare b)
    with assms obtain c cs where b: "b = c # cs" and ok: "list_all bare_char (c # cs)" by (cases b) auto
    have "bare_char x \<Longrightarrow> x \<noteq> CHR '' '' \<and> x \<noteq> CHR 0x27" for x
      by (auto simp: bare_char_def is_ascii_alphanumeric_def Let_def byte_of_def)
    with ok have plain: "list_all (\<lambda>x. x \<noteq> CHR '' '') (c # cs)" "c \<noteq> CHR 0x27" "c \<noteq> CHR '' ''" by (auto simp: list_all_iff)
    have "takeWhile (\<lambda>x. x \<noteq> CHR '' '') ((c # cs) @ CHR '' '' # rest) = c # cs" by (rule takeWhile_stop [OF plain(1)]) simp
    moreover have "takeWhile (\<lambda>x. x \<noteq> CHR '' '') cs = cs" using plain(1) by (simp add: list_all_iff)
    ultimately show ?thesis using Bare b plain(2,3) by (simp add: plain_shell.simps(2) Let_def del: takeWhile_eq_all_conv)
  qed
  then show "plain_shell (written w) = Some [meant w]"
    "plain_shell (written w @ CHR '' '' # rest) = map_option (\<lambda>ws. meant w # ws) (plain_shell rest)" by auto
qed

lemma plain_shell_posix: "posix_words plain_shell"
  unfolding posix_words_def
proof (intro allI impI)
  fix ws assume "list_all word_ok ws"
  then show "plain_shell (join_with '' '' (map written ws)) = Some (map meant ws)"
  proof (induction ws)
    case (Cons w ws)
    show ?case
    proof (cases ws)
      case Nil
      with Cons.prems plain_shell_word(1) [of w] show ?thesis by simp
    next
      case (Cons v vs)
      with Cons.IH Cons.prems plain_shell_word(2) [of w "join_with '' '' (map written ws)"] show ?thesis by simp
    qed
  qed simp
qed

definition sample_command :: remote_command where
  "sample_command = RWorker (WCtl ''bot-default'' (VActivate ''20261029T121314Z-1a2b3c4d''))"

lemma a_line_is_read_as_meant_witness:
  "plain_shell (remote_line sample_command) =
     Some [''sudo'', ''-n'', agent_path, ''ctl'', ''--id'', ''bot-default'', ''activate'', ''20261029T121314Z-1a2b3c4d'']"
proof -
  have "command_checked sample_command" by code_simp
  from a_line_is_read_as_meant [OF plain_shell_posix this] show ?thesis
    by (simp add: sample_command_def command_words_def verb_words_def)
qed

lemma a_written_path_stays_under_erpc_witness: "\<exists>parts. leads_to [] ''/opt/erpc/uploads/agent'' = [''opt'', ''erpc''] @ parts"
proof -
  have "remote_path_new ''/opt/erpc/uploads/agent'' = Ok ''/opt/erpc/uploads/agent''" by code_simp
  from a_written_path_stays_under_erpc [OF this] show ?thesis by blast
qed

end
