(* ===== verification/Chat_Answer.thy ===== *)
theory Chat_Answer
  imports Json Texts
begin

text \<open>
  One request to ERPC AI and its answer, \<open>ai.rs\<close> of erpc-api: the body that is sent, the event stream that comes
  back in chunks, the answer it builds up, and what a refusal is told as. The reading of JSON is a parameter,
  the reply an input. What a person is told, in four languages, is the constructor it is made from.
\<close>

subsection \<open>The request\<close>

datatype effort = EffortLow | EffortMedium | EffortHigh

definition effort_name :: "effort \<Rightarrow> string" where
  "effort_name e = (case e of EffortLow \<Rightarrow> ''low'' | EffortMedium \<Rightarrow> ''medium'' | EffortHigh \<Rightarrow> ''high'')"

definition default_model :: string where "default_model = ''erpc-ai-large''"
definition quick_model :: string where "quick_model = ''erpc-ai-small''"
definition fallback_model :: string where "fallback_model = ''''"

record chat_request =
  rq_system :: "string list"
  rq_messages :: "json list"
  rq_model :: string
  rq_max_tokens :: nat
  rq_effort :: effort
  rq_thinking :: bool
  rq_tools :: "json list"

definition text_block :: "string \<Rightarrow> (string \<times> json) list" where
  "text_block t = [(''type'', JStr ''text''), (''text'', JStr t)]"

definition cache_control :: "string \<times> json" where
  "cache_control = (''cache_control'', JObj [(''type'', JStr ''ephemeral'')])"

fun mark_last :: "json list \<Rightarrow> json list" where
  "mark_last [] = []"
| "mark_last [JObj m] = [JObj (hm_insert (fst cache_control) (snd cache_control) m)]"
| "mark_last [j] = [j]"
| "mark_last (j # js) = j # mark_last js"

definition marked :: "json \<Rightarrow> json" where
  "marked m =
     (case jget_or_null ''content'' m of
        JStr t \<Rightarrow> jset ''content'' (JArr (mark_last [JObj (text_block t)])) m
      | JArr bs \<Rightarrow> jset ''content'' (JArr (mark_last bs)) m
      | _ \<Rightarrow> m)"

definition with_history_breakpoint :: "json list \<Rightarrow> json list" where
  "with_history_breakpoint ms = (if ms = [] then [] else butlast ms @ [marked (last ms)])"

definition system_blocks :: "string list \<Rightarrow> json list" where
  "system_blocks ts =
     (if ts = [] then [] else map (\<lambda>t. JObj (text_block t)) (butlast ts) @ [JObj (text_block (last ts) @ [cache_control])])"

definition request_body :: "chat_request \<Rightarrow> json" where
  "request_body r =
     (let m0 = (if rq_model r = [] then [] else [(''model'', JStr (rq_model r))]) @
            [(''max_tokens'', JUint (rq_max_tokens r)), (''system'', JArr (system_blocks (rq_system r))), (''stream'', JBool True),
             (''messages'', JArr (with_history_breakpoint (rq_messages r)))];
          m1 = (if rq_thinking r then
                  hm_insert ''output_config'' (JObj [(''effort'', JStr (effort_name (rq_effort r)))])
                    (hm_insert ''thinking'' (JObj [(''type'', JStr ''adaptive''), (''display'', JStr ''omitted'')]) m0)
                else m0)
      in JObj (if rq_tools r = [] then m1 else hm_insert ''tools'' (JArr (rq_tools r)) m1))"

subsection \<open>Events\<close>

text \<open>Where the first empty line starts, \<open>windows(2).position\<close>, and the blocks that end in one, with what is left.\<close>

fun blank_at :: "string \<Rightarrow> nat option" where
  "blank_at (a # b # cs) = (if a = CHR 0x0A \<and> b = CHR 0x0A then Some 0 else map_option Suc (blank_at (b # cs)))"
| "blank_at _ = None"

lemma blank_at_length: "blank_at s = Some e \<Longrightarrow> e + 2 \<le> length s"
  by (induction s arbitrary: e rule: blank_at.induct) (auto split: if_splits)

function blocks_of :: "string \<Rightarrow> string list \<times> string" where
  "blocks_of s =
     (case blank_at s of
        None \<Rightarrow> ([], s)
      | Some e \<Rightarrow> (let (bs, rest) = blocks_of (drop (e + 2) s) in (take e s # bs, rest)))"
  by pat_completeness auto
termination
proof (relation "measure length", goal_cases)
  case (2 s e)
  then show ?case using blank_at_length [of s e] by auto
qed simp

declare blocks_of.simps [simp del]

definition event_line :: "string \<Rightarrow> string \<times> string list \<Rightarrow> string \<times> string list" where
  "event_line l ed =
     (case strip_prefix ''event:'' l of
        Some v \<Rightarrow> (trim v, snd ed)
      | None \<Rightarrow>
         (case strip_prefix ''data:'' l of
            Some v \<Rightarrow> (fst ed, snd ed @ [case strip_prefix '' '' v of Some w \<Rightarrow> w | None \<Rightarrow> v])
          | None \<Rightarrow> ed))"

definition event_of :: "string \<Rightarrow> (string \<times> string) option" where
  "event_of block =
     (case fold event_line (text_lines (from_utf8_lossy block)) (''message'', []) of
        (event, data) \<Rightarrow> if data = [] then None else Some (event, join_with [CHR 0x0A] data))"

text \<open>\<open>SseParser::push\<close>: the events completed and what stays pending.\<close>

definition sse_push :: "string \<Rightarrow> string \<Rightarrow> (string \<times> string) list \<times> string" where
  "sse_push pending bs =
     (let (blocks, rest) = blocks_of (pending @ filter (\<lambda>b. b \<noteq> CHR 0x0D) bs) in (List.map_filter event_of blocks, rest))"

subsection \<open>The answer\<close>

record declined =
  dc_category :: "string option"
  dc_explanation :: "string option"

record answer =
  an_text :: string
  an_content :: "json list"
  an_stop_reason :: "string option"
  an_refusal :: "declined option"
  an_input_tokens :: "nat option"
  an_cache_read_tokens :: "nat option"
  an_output_tokens :: "nat option"

definition answer_default :: answer where
  "answer_default = \<lparr>an_text = [], an_content = [], an_stop_reason = None, an_refusal = None, an_input_tokens = None,
     an_cache_read_tokens = None, an_output_tokens = None\<rparr>"

text \<open>\<open>Value::pointer\<close> with the names of fields.\<close>

fun pointer :: "string list \<Rightarrow> json \<Rightarrow> json option" where
  "pointer [] j = Some j"
| "pointer (k # ks) j = Option.bind (jget k j) (pointer ks)"

definition reorders :: "nat \<Rightarrow> bool" where
  "reorders c = (c = 0x061C \<or> c = 0x200E \<or> c = 0x200F \<or> 0x202A \<le> c \<and> c \<le> 0x202E \<or> 0x2066 \<le> c \<and> c \<le> 0x2069)"

definition control_point :: "nat \<Rightarrow> bool" where "control_point c = (c < 32 \<or> 127 \<le> c \<and> c < 160)"

definition printable :: "string \<Rightarrow> string" where
  "printable t = concat (take 300 (filter (\<lambda>u. \<not> control_point (code_point u) \<and> \<not> reorders (code_point u)) (utf8_chars t)))"

definition partial_input :: string where "partial_input = ''erpc_partial_input''"

fun append_field :: "string \<Rightarrow> string \<Rightarrow> json \<Rightarrow> json" where
  "append_field f t (JObj m) =
     (case hm_get m f of
        None \<Rightarrow> JObj (hm_insert f (JStr t) m)
      | Some (JStr s) \<Rightarrow> JObj (hm_insert f (JStr (s @ t)) m)
      | Some j \<Rightarrow> JObj m)"
| "append_field f t j = j"

definition set_block :: "nat \<Rightarrow> json \<Rightarrow> json list \<Rightarrow> json list" where
  "set_block i b bs = (bs @ replicate (Suc i - length bs) JNull)[i := b]"

definition in_block :: "nat option \<Rightarrow> (json \<Rightarrow> json) \<Rightarrow> json list \<Rightarrow> json list" where
  "in_block i f bs = (case i of None \<Rightarrow> bs | Some n \<Rightarrow> if n < length bs then bs[n := f (bs ! n)] else bs)"

definition delta_field :: "string \<Rightarrow> (string \<times> string) option" where
  "delta_field kind =
     (if kind = ''thinking_delta'' then Some (''thinking'', ''thinking'')
      else if kind = ''signature_delta'' then Some (''signature'', ''signature'')
      else if kind = ''input_json_delta'' then Some (''partial_json'', partial_input)
      else None)"

definition apply_delta :: "nat option \<Rightarrow> json \<Rightarrow> answer \<Rightarrow> answer \<times> string list" where
  "apply_delta i delta a =
     (case str_at ''type'' delta of
        None \<Rightarrow> (a, [])
      | Some kind \<Rightarrow>
          if kind = ''text_delta'' then
            (let t = str_or [] (str_at ''text'' delta)
             in (a\<lparr>an_content := in_block i (append_field ''text'' t) (an_content a), an_text := an_text a @ t\<rparr>, [t]))
          else
            (case delta_field kind of
               None \<Rightarrow> (a, [])
             | Some (from_field, to_field) \<Rightarrow>
                (case str_at from_field delta of
                   None \<Rightarrow> (a, [])
                 | Some t \<Rightarrow> (a\<lparr>an_content := in_block i (append_field to_field t) (an_content a)\<rparr>, []))))"

definition not_json :: string where "not_json = ''a tool call'' @ [CHR 0x27] @ ''s input was not JSON''"

definition close_block :: "(string \<Rightarrow> json option) \<Rightarrow> json \<Rightarrow> string + json" where
  "close_block parse b =
     (case b of
        JObj m \<Rightarrow>
         (case hm_get m partial_input of
            Some (JStr t) \<Rightarrow>
              if t = [] then Ok (JObj (hm_remove partial_input m))
              else (case parse t of
                      None \<Rightarrow> Err not_json
                    | Some v \<Rightarrow> Ok (JObj (hm_insert ''input'' v (hm_remove partial_input m))))
          | _ \<Rightarrow> Ok (JObj (hm_remove partial_input m)))
      | _ \<Rightarrow> Ok b)"

text \<open>\<open>apply\<close>: the answer after one event, with the text that is shown, or why the stream cannot be read.\<close>

definition apply_value :: "(string \<Rightarrow> json option) \<Rightarrow> answer \<Rightarrow> string \<Rightarrow> json \<Rightarrow> string + answer \<times> string list" where
  "apply_value parse a kind v =
     (let i = Option.bind (jget ''index'' v) as_u64
      in if kind = ''message_start'' then
           Ok (a\<lparr>an_input_tokens := Option.bind (pointer [''message'', ''usage'', ''input_tokens''] v) as_u64,
             an_cache_read_tokens := Option.bind (pointer [''message'', ''usage'', ''cache_read_input_tokens''] v) as_u64\<rparr>, [])
         else if kind = ''content_block_start'' then
           (case (i, jget ''content_block'' v) of
              (Some n, Some b) \<Rightarrow> Ok (a\<lparr>an_content := set_block n b (an_content a)\<rparr>, [])
            | _ \<Rightarrow> Ok (a, []))
         else if kind = ''content_block_delta'' then Ok (apply_delta i (jget_or_null ''delta'' v) a)
         else if kind = ''content_block_stop'' then
           (case i of
              None \<Rightarrow> Ok (a, [])
            | Some n \<Rightarrow>
                if n < length (an_content a) then
                  and_then (close_block parse (an_content a ! n)) (\<lambda>b. Ok (a\<lparr>an_content := (an_content a)[n := b]\<rparr>, []))
                else Ok (a, []))
         else if kind = ''message_delta'' then
           (let stop = Option.bind (pointer [''delta'', ''stop_reason''] v) as_str;
                detail = (\<lambda>f. map_option printable (Option.bind (pointer [''delta'', ''stop_details'', f] v) as_str));
                a1 = a\<lparr>an_stop_reason := stop,
                  an_refusal := (if stop = Some ''refusal'' then Some \<lparr>dc_category = detail ''category'', dc_explanation = detail ''explanation''\<rparr>
                    else an_refusal a)\<rparr>
            in Ok (a1\<lparr>an_output_tokens := Option.bind (pointer [''usage'', ''output_tokens''] v) as_u64\<rparr>, []))
         else if kind = ''error'' then Err (printable (str_or ''error'' (Option.bind (pointer [''error'', ''type''] v) as_str)))
         else Ok (a, []))"

definition apply_event :: "(string \<Rightarrow> json option) \<Rightarrow> answer \<Rightarrow> string \<times> string \<Rightarrow> string + answer \<times> string list" where
  "apply_event parse a ed =
     (case parse (snd ed) of
        None \<Rightarrow> Ok (a, [])
      | Some v \<Rightarrow> apply_value parse a (str_or (fst ed) (str_at ''type'' v)) v)"

subsection \<open>Refusals\<close>

datatype chat_trouble = TBlocked | TNoTokens | TSuspended | TTooLong | TBusy | TNotAccepted | TFailed

definition trouble_of_status :: "nat \<Rightarrow> chat_trouble" where
  "trouble_of_status s =
     (if s = 413 then TTooLong else if s = 429 \<or> 500 \<le> s \<and> s \<le> 599 then TBusy
      else if 400 \<le> s \<and> s \<le> 499 then TNotAccepted else TFailed)"

definition trouble_of_kind :: "string \<Rightarrow> chat_trouble option" where
  "trouble_of_kind k =
     (if k \<in> {''rate_limit_error'', ''overloaded_error'', ''api_error'', ''timeout_error''} then Some TBusy
      else if k = ''request_too_large'' then Some TTooLong else None)"

definition trouble_of_code :: "string \<Rightarrow> chat_trouble option" where
  "trouble_of_code c =
     (if c = ''ai_token_limit_reached'' then Some TNoTokens else if c = ''ai_suspended'' then Some TSuspended
      else if c = ''request_too_large'' then Some TTooLong else None)"

definition block_page_marks :: "string list" where
  "block_page_marks = [''Attention Required! | Cloudflare'', ''you have been blocked'']"

datatype chat_error =
    ChatHttp
  | ChatUnauthorized
  | ChatMalformed string
  | ModelNotAllowed string
  | ChatTroubled chat_trouble nat "string option"

definition trouble_of :: "nat \<Rightarrow> string \<Rightarrow> string option \<Rightarrow> json option \<Rightarrow> chat_trouble" where
  "trouble_of status t ray parsed =
     (case parsed of
        None \<Rightarrow>
          if status = 403 \<and> ray \<noteq> None \<and> starts_with (dropWhile is_space t) ''<'' \<and> list_ex (\<lambda>m. has_text m t) block_page_marks
          then TBlocked else trouble_of_status status
      | Some v \<Rightarrow>
          if status = 429 \<or> 500 \<le> status \<and> status \<le> 599 then TBusy
          else (case Option.bind (Option.bind (pointer [''error''] v) as_str) trouble_of_code of
                  Some c \<Rightarrow> c
                | None \<Rightarrow>
                   (case Option.bind (Option.bind (pointer [''error'', ''type''] v) as_str) trouble_of_kind of
                      Some c \<Rightarrow> c
                    | None \<Rightarrow> trouble_of_status status)))"

definition chat_refusal :: "(string \<Rightarrow> json option) \<Rightarrow> nat \<Rightarrow> string \<Rightarrow> string option \<Rightarrow> string \<Rightarrow> chat_error" where
  "chat_refusal parse status t ray model =
     (if status = 400 \<and> Option.bind (Option.bind (parse t) (pointer [''error''])) as_str = Some ''model_not_allowed'' then ModelNotAllowed model
      else ChatTroubled (trouble_of status t ray (parse t)) status ray)"

subsection \<open>Asking\<close>

text \<open>What comes back: nothing, or a status, the reference of the reply and its text, or its chunks and whether it broke off.\<close>

datatype wire_reply = NoWire | WireReply nat "string option" string "string list" "string option"

fun apply_all :: "(string \<Rightarrow> json option) \<Rightarrow> answer \<Rightarrow> (string \<times> string) list \<Rightarrow> string list \<times> (string + answer)" where
  "apply_all parse a [] = ([], Ok a)"
| "apply_all parse a (e # es) =
     (case apply_event parse a e of
        Inl k \<Rightarrow> ([], Err k)
      | Inr (b, shown) \<Rightarrow> (case apply_all parse b es of (ts, r) \<Rightarrow> (shown @ ts, r)))"

fun read_chunks :: "(string \<Rightarrow> json option) \<Rightarrow> string \<Rightarrow> answer \<Rightarrow> string list \<Rightarrow> string list \<times> (string + answer)" where
  "read_chunks parse pending a [] = ([], Ok a)"
| "read_chunks parse pending a (c # cs) =
     (case sse_push pending c of
        (es, rest) \<Rightarrow>
         (case apply_all parse a es of
            (ts, Inl k) \<Rightarrow> (ts, Err k)
          | (ts, Inr b) \<Rightarrow> (case read_chunks parse rest b cs of (us, r) \<Rightarrow> (ts @ us, r))))"

definition chat :: "(string \<Rightarrow> json option) \<Rightarrow> chat_request \<Rightarrow> wire_reply \<Rightarrow> string list \<times> (chat_error + answer)" where
  "chat parse r w =
     (case w of
        NoWire \<Rightarrow> ([], Err ChatHttp)
      | WireReply status ray t chunks broken \<Rightarrow>
          if status = 200 then
            (case read_chunks parse [] answer_default chunks of
               (ts, Inl k) \<Rightarrow> (ts, Err (ChatTroubled (case trouble_of_kind k of Some c \<Rightarrow> c | None \<Rightarrow> TFailed) 200 None))
             | (ts, Inr a) \<Rightarrow> (ts, case broken of Some why \<Rightarrow> Err (ChatMalformed why) | None \<Rightarrow> Ok a))
          else if status = 401 then ([], Err ChatUnauthorized)
          else ([], Err (chat_refusal parse status t (map_option printable ray) (rq_model r))))"

subsection \<open>Chunks\<close>

lemma blank_at_append: "blank_at s = Some e \<Longrightarrow> blank_at (s @ t) = Some e"
  by (induction s arbitrary: e rule: blank_at.induct) (auto split: if_splits)

lemma blocks_of_append:
  "blocks_of (s @ t) = (case blocks_of s of (bs, rest) \<Rightarrow> case blocks_of (rest @ t) of (cs, rest') \<Rightarrow> (bs @ cs, rest'))"
proof (induction s rule: blocks_of.induct)
  case (1 s)
  show ?case
  proof (cases "blank_at s")
    case None
    then show ?thesis by (simp add: blocks_of.simps [of s])
  next
    case (Some e)
    have e: "e + 2 \<le> length s" by (rule blank_at_length [OF Some])
    obtain bs rest cs rest' where b: "blocks_of (drop (e + 2) s) = (bs, rest)" "blocks_of (rest @ t) = (cs, rest')" by fastforce
    with 1 [OF Some] have "blocks_of (drop (e + 2) s @ t) = (bs @ cs, rest')" by simp
    with b e show ?thesis
      by (subst blocks_of.simps, subst blocks_of.simps [of s]) (simp add: Some blank_at_append [OF Some])
  qed
qed

lemma sse_push_append:
  "sse_push p (c @ d) = (case sse_push p c of (es, rest) \<Rightarrow> case sse_push rest d of (fs, rest') \<Rightarrow> (es @ fs, rest'))"
  using blocks_of_append [of "p @ filter (\<lambda>b. b \<noteq> CHR 0x0D) c" "filter (\<lambda>b. b \<noteq> CHR 0x0D) d"]
  by (auto simp: sse_push_def Let_def map_filter_def split: prod.splits)

lemma apply_all_append:
  "apply_all parse a (es @ fs) =
     (case apply_all parse a es of
        (ts, Inl k) \<Rightarrow> (ts, Err k)
      | (ts, Inr b) \<Rightarrow> (case apply_all parse b fs of (us, r) \<Rightarrow> (ts @ us, r)))"
  by (induction es arbitrary: a) (auto split: sum.splits prod.splits)

lemma blank_at_rest: "snd (blocks_of s) = r \<Longrightarrow> blank_at r = None"
proof (induction s arbitrary: r rule: blocks_of.induct)
  case (1 s)
  then show ?case by (cases "blank_at s") (auto simp: blocks_of.simps [of s] Let_def split: prod.splits)
qed

lemma sse_push_nothing: "sse_push (snd (sse_push p c)) [] = ([], snd (sse_push p c))"
proof -
  obtain bs rest where b: "blocks_of (p @ filter (\<lambda>b. b \<noteq> CHR 0x0D) c) = (bs, rest)" by fastforce
  then have "blank_at rest = None" by (intro blank_at_rest [of "p @ filter (\<lambda>b. b \<noteq> CHR 0x0D) c"]) simp
  then have "blocks_of rest = ([], rest)" by (subst blocks_of.simps) simp
  with b show ?thesis by (simp add: sse_push_def map_filter_def)
qed

lemma read_chunks_concat:
  "read_chunks parse (snd (sse_push [] before)) a chunks = read_chunks parse (snd (sse_push [] before)) a [concat chunks]"
proof (induction chunks arbitrary: before a)
  case Nil
  then show ?case by (simp add: sse_push_nothing)
next
  case (Cons c cs)
  obtain es rest where e: "sse_push (snd (sse_push [] before)) c = (es, rest)" by fastforce
  have rest: "rest = snd (sse_push [] (before @ c))" using e by (cases "sse_push [] before") (simp add: sse_push_append)
  obtain fs rest' where f: "sse_push rest (concat cs) = (fs, rest')" by fastforce
  have "sse_push (snd (sse_push [] before)) (c @ concat cs) = (es @ fs, rest')" by (simp add: sse_push_append e f)
  moreover have "read_chunks parse rest b cs = read_chunks parse rest b [concat cs]" for b unfolding rest by (rule Cons.IH)
  ultimately show ?case using e f by (auto simp: apply_all_append split: prod.splits sum.splits)
qed

text \<open>
  C36: An answer does not depend on how its stream was cut: in whatever chunks the bytes arrive, in the middle of a
  character, of a line ending or of an event, the same text is shown and the same answer or error comes of them.
\<close>

theorem an_answer_does_not_depend_on_the_chunks:
  "chat parse r (WireReply status ray t chunks broken) = chat parse r (WireReply status ray t [concat chunks] broken)"
proof -
  have "snd (sse_push [] []) = []" by (simp add: sse_push_def blocks_of.simps)
  then have "read_chunks parse [] answer_default chunks = read_chunks parse [] answer_default [concat chunks]"
    using read_chunks_concat [of parse "[]" answer_default chunks] by simp
  then show ?thesis by (simp only: chat_def wire_reply.case)
qed

text \<open>What is shown while an answer arrives is its text.\<close>

lemma apply_event_text: "apply_event parse a e = Ok (b, shown) \<Longrightarrow> an_text b = an_text a @ concat shown"
  by (auto simp: apply_event_def apply_value_def apply_delta_def and_then_def map_err_def Let_def
    split: option.splits if_splits sum.splits)

lemma apply_all_text: "apply_all parse a es = (ts, Ok b) \<Longrightarrow> an_text b = an_text a @ concat ts"
proof (induction es arbitrary: a ts)
  case (Cons e es)
  then obtain a1 shown us where "apply_event parse a e = Ok (a1, shown)" "apply_all parse a1 es = (us, Ok b)" "ts = shown @ us"
    by (auto split: sum.splits prod.splits)
  with Cons.IH apply_event_text show ?case by fastforce
qed simp

lemma what_was_shown_is_the_text: "read_chunks parse p a cs = (ts, Ok b) \<Longrightarrow> an_text b = an_text a @ concat ts"
proof (induction cs arbitrary: p a ts)
  case (Cons c cs)
  then obtain es rest a1 us vs where "sse_push p c = (es, rest)" "apply_all parse a es = (us, Ok a1)"
    "read_chunks parse rest a1 cs = (vs, Ok b)" "ts = us @ vs"
    by (auto split: sum.splits prod.splits)
  with Cons.IH apply_all_text show ?case by fastforce
qed simp

end
