(* ===== verification/Conversation.thy ===== *)
theory Conversation
  imports Chat_Answer
begin

text \<open>
  The assistant's conversation: \<open>session.rs\<close>, with \<open>compact.rs\<close>, which keeps it short, and the choice of a model
  in \<open>policy.rs\<close>. The service, the tools, the person and the moment a turn is stopped are a world that answers as
  it likes, knowing all that went before. Which words are small talk, and JSON as text, are parameters; so are the
  commands allowed and the other helpers of the tools, which no answer here looks at.
\<close>

subsection \<open>Messages\<close>

definition role_of :: "json \<Rightarrow> string option" where "role_of m = str_at ''role'' m"

definition message :: "string \<Rightarrow> json \<Rightarrow> json" where
  "message role content = JObj [(''role'', JStr role), (''content'', content)]"

definition message_blocks :: "json \<Rightarrow> json list" where
  "message_blocks m = (case jget ''content'' m of Some (JArr bs) \<Rightarrow> bs | _ \<Rightarrow> [])"

definition is_call :: "json \<Rightarrow> bool" where "is_call b = (str_at ''type'' b = Some ''tool_use'')"
definition is_result :: "json \<Rightarrow> bool" where "is_result b = (str_at ''type'' b = Some ''tool_result'')"

definition says_something :: "json list \<Rightarrow> bool" where
  "says_something bs =
     list_ex (\<lambda>b. str_at ''type'' b = Some ''text'' \<and> (case str_at ''text'' b of Some t \<Rightarrow> trim t \<noteq> [] | None \<Rightarrow> False)) bs"

text \<open>A string field of a call, empty when it has none.\<close>

definition field :: "string \<Rightarrow> json \<Rightarrow> string" where "field name b = str_or [] (str_at name b)"

subsection \<open>Keeping it short\<close>

definition compact_at :: nat where "compact_at = 160000"
definition keep_turns :: nat where "keep_turns = 2"
definition retry_after :: nat where "retry_after = compact_at div 4"
definition keep_results :: nat where "keep_results = 4"
definition max_piece :: nat where "max_piece = 600"

definition summary_prefix :: string where
  "summary_prefix = ''[erpc: a summary of the conversation so far, made to keep it short]''"

definition summary_instructions :: string where
  "summary_instructions =
     ''Summarise this conversation between a user and the ERPC assistant in erpc, so the assistant can carry on from the '' @
     ''summary alone. Keep what is still useful: what the user wants and decided, names and ids (hosts, VPS ids, regions, '' @
     ''products, networks), figures that were looked up and when, what was started, ended, bought or changed, and what is '' @
     ''still open. Drop greetings and anything settled and no longer relevant. Never include passwords, private keys, '' @
     ''seed phrases, API keys or tokens. Write in the user'' @ [CHR 0x27] @ ''s language, as short bullet points, at most 300 words.''"

definition history_size :: "(json \<Rightarrow> string) \<Rightarrow> json list \<Rightarrow> nat" where
  "history_size js h = length (js (JArr h))"

definition compact_due :: "(json \<Rightarrow> string) \<Rightarrow> json list \<Rightarrow> nat \<Rightarrow> bool" where
  "compact_due js h not_before = (history_size js h > max compact_at not_before)"

definition short :: "string \<Rightarrow> string" where
  "short t = (if length (utf8_chars t) > max_piece then take_chars max_piece t @ [CHR 0xE2, CHR 0x80, CHR 0xA6] else t)"

text \<open>The text of a result's content, and the block with it cut short.\<close>

definition content_text :: "(json \<Rightarrow> string) \<Rightarrow> json \<Rightarrow> string" where
  "content_text js c = (case c of JStr t \<Rightarrow> t | _ \<Rightarrow> js c)"

definition shrink_block :: "(json \<Rightarrow> string) \<Rightarrow> json \<Rightarrow> json" where
  "shrink_block js b =
     (case jget ''content'' b of
        None \<Rightarrow> b
      | Some c \<Rightarrow>
          if length (utf8_chars (content_text js c)) > max_piece * 2
          then jset ''content'' (JStr (short (content_text js c) @ '' [erpc: cut short to keep the conversation short]'')) b
          else b)"

fun shrink_blocks :: "(json \<Rightarrow> string) \<Rightarrow> nat \<Rightarrow> json list \<Rightarrow> json list \<times> nat" where
  "shrink_blocks js n [] = ([], n)"
| "shrink_blocks js n (b # bs) =
     (if is_result b \<and> 0 < n then (case shrink_blocks js (n - 1) bs of (cs, k) \<Rightarrow> (shrink_block js b # cs, k))
      else (case shrink_blocks js n bs of (cs, k) \<Rightarrow> (b # cs, k)))"

fun shrink_messages :: "(json \<Rightarrow> string) \<Rightarrow> nat \<Rightarrow> json list \<Rightarrow> json list" where
  "shrink_messages js n [] = []"
| "shrink_messages js n (m # ms) =
     (case jget ''content'' m of
        Some (JArr bs) \<Rightarrow> (case shrink_blocks js n bs of (cs, k) \<Rightarrow> jset ''content'' (JArr cs) m # shrink_messages js k ms)
      | _ \<Rightarrow> m # shrink_messages js n ms)"

definition result_count :: "json list \<Rightarrow> nat" where
  "result_count h = length (filter is_result (concat (map message_blocks h)))"

definition shrink :: "(json \<Rightarrow> string) \<Rightarrow> json list \<Rightarrow> json list" where
  "shrink js h = shrink_messages js (result_count h - keep_results) h"

definition is_question :: "json \<Rightarrow> bool" where
  "is_question m = (role_of m = Some ''user'' \<and> str_at ''content'' m \<noteq> None)"

definition question_places :: "json list \<Rightarrow> nat list" where
  "question_places h = filter (\<lambda>i. is_question (h ! i)) [0..<length h]"

definition cut_place :: "json list \<Rightarrow> nat option" where
  "cut_place h =
     (let starts = question_places h
      in if length starts < keep_turns then None
         else (let at = starts ! (length starts - keep_turns) in if 0 < at then Some at else None))"

definition transcript_block :: "(json \<Rightarrow> string) \<Rightarrow> string \<Rightarrow> json \<Rightarrow> string" where
  "transcript_block js role b =
     (if str_at ''type'' b = Some ''text'' then role @ '': '' @ field ''text'' b @ [CHR 0x0A, CHR 0x0A]
      else if is_call b then
        ''(tool '' @ str_or ''?'' (str_at ''name'' b) @ '' '' @
        short (case jget ''input'' b of Some v \<Rightarrow> js v | None \<Rightarrow> []) @ '')'' @ [CHR 0x0A, CHR 0x0A]
      else if is_result b then
        ''(result '' @ short (case jget ''content'' b of Some c \<Rightarrow> content_text js c | None \<Rightarrow> []) @ '')'' @ [CHR 0x0A, CHR 0x0A]
      else [])"

definition transcript_message :: "(json \<Rightarrow> string) \<Rightarrow> json \<Rightarrow> string" where
  "transcript_message js m =
     (let role = str_or ''?'' (role_of m)
      in case jget ''content'' m of
           Some (JStr t) \<Rightarrow> role @ '': '' @ t @ [CHR 0x0A, CHR 0x0A]
         | Some (JArr bs) \<Rightarrow> concat (map (transcript_block js role) bs)
         | _ \<Rightarrow> [])"

definition transcript :: "(json \<Rightarrow> string) \<Rightarrow> json list \<Rightarrow> string" where
  "transcript js ms = concat (map (transcript_message js) ms)"

definition rebuilt :: "string \<Rightarrow> json list \<Rightarrow> json list" where
  "rebuilt summary kept =
     [message ''user'' (JStr (summary_prefix @ [CHR 0x0A] @ trim summary)),
      message ''assistant'' (JArr [JObj (text_block ''Understood; I will carry on from this summary.'')])] @ kept"

subsection \<open>The conversation\<close>

datatype run_state = TurnRunning | TurnIdle

datatype told_error = TokenTrouble string | ChatTrouble chat_error | AnswerCutOff | TooManyRounds

datatype session_event =
    TextDelta string
  | ToolUseStart string string json
  | ToolProgress
  | ToolResult string bool string
  | StatusIs run_state
  | UsageIs "nat option" "nat option" "nat option"
  | Compacted nat
  | Complete
  | Refusal "string option" "string option"
  | Aborted
  | ErrorIs told_error

datatype turn = Answered | TurnAborted | TurnFailed

text \<open>
  What one call of a tool comes to: it ended, or the turn was stopped first, the person having said yes to it or
  not, and with what it returns if it is waited for.
\<close>

datatype tool_end = Finished "string + string" | Interrupted bool "string + string"

datatype wire_end = CutOff "string list" | Came wire_reply

text \<open>What went before: what the front end was told, what was asked of the service, and the tools run.\<close>

datatype conv_event = Told session_event | Requested chat_request | ToolRan json tool_end

record chat_world =
  wd_system :: "string list"
  wd_tools :: "json list"
  wd_quick :: "string \<Rightarrow> bool"
  wd_js :: "json \<Rightarrow> string"
  wd_parse :: "string \<Rightarrow> json option"
  wd_token :: "conv_event list \<Rightarrow> string + string"
  wd_wire :: "conv_event list \<Rightarrow> chat_request \<Rightarrow> wire_end"
  wd_tool :: "conv_event list \<Rightarrow> string \<Rightarrow> json \<Rightarrow> tool_end"

record conversation =
  cv_history :: "json list"
  cv_settled :: bool
  cv_sizes_refused :: bool
  cv_archived :: "json list"
  cv_not_before :: nat
  cv_turn_token :: "string option"
  cv_log :: "conv_event list"

definition conversation_new :: conversation where
  "conversation_new = \<lparr>cv_history = [], cv_settled = False, cv_sizes_refused = False, cv_archived = [], cv_not_before = 0,
     cv_turn_token = None, cv_log = []\<rparr>"

definition reset :: "conversation \<Rightarrow> conversation" where
  "reset s = s\<lparr>cv_history := [], cv_archived := [], cv_settled := False, cv_not_before := 0\<rparr>"

definition roles_alternate :: "json list \<Rightarrow> bool" where
  "roles_alternate h =
     list_all (\<lambda>i. role_of (h ! i) = Some (if even i then ''user'' else ''assistant'') \<and> jget ''content'' (h ! i) \<noteq> None) [0..<length h]"

datatype not_restored = NotContinuable

definition restore :: "json list \<Rightarrow> bool \<Rightarrow> conversation \<Rightarrow> not_restored + conversation" where
  "restore h settled s =
     (if \<not> roles_alternate h \<or> odd (length h) then Err NotContinuable else Ok (s\<lparr>cv_history := h, cv_settled := settled\<rparr>))"

definition noted :: "conv_event \<Rightarrow> conversation \<Rightarrow> conversation" where "noted e s = s\<lparr>cv_log := e # cv_log s\<rparr>"
definition emit :: "session_event \<Rightarrow> conversation \<Rightarrow> conversation" where "emit e = noted (Told e)"
definition push :: "json \<Rightarrow> conversation \<Rightarrow> conversation" where "push m s = s\<lparr>cv_history := cv_history s @ [m]\<rparr>"

subsection \<open>The model of a turn\<close>

record turn_policy =
  tp_model :: string
  tp_thinking :: bool
  tp_effort :: effort
  tp_max_tokens :: nat

definition conversation_effort :: effort where "conversation_effort = EffortMedium"

definition policy_for :: "chat_world \<Rightarrow> string \<Rightarrow> bool \<Rightarrow> turn_policy" where
  "policy_for w t settled =
     (if wd_quick w t \<and> \<not> settled
      then \<lparr>tp_model = quick_model, tp_thinking = True, tp_effort = EffortLow, tp_max_tokens = 4096\<rparr>
      else \<lparr>tp_model = default_model, tp_thinking = True, tp_effort = conversation_effort, tp_max_tokens = 16000\<rparr>)"

definition turn_request :: "chat_world \<Rightarrow> turn_policy \<Rightarrow> conversation \<Rightarrow> chat_request" where
  "turn_request w p s =
     \<lparr>rq_system = wd_system w, rq_messages = cv_history s, rq_model = tp_model p, rq_max_tokens = tp_max_tokens p,
      rq_effort = tp_effort p, rq_thinking = tp_thinking p, rq_tools = wd_tools w\<rparr>"

definition reached :: "turn_policy \<Rightarrow> conversation \<Rightarrow> conversation" where
  "reached p s = s\<lparr>cv_settled := (cv_settled s \<or> tp_model p \<noteq> quick_model)\<rparr>"

definition streamed :: "string list \<Rightarrow> conversation \<Rightarrow> conversation" where
  "streamed ts s = fold (\<lambda>t. emit (TextDelta t)) ts s"

definition sizes_unknown :: "chat_error + answer \<Rightarrow> bool" where
  "sizes_unknown res = (case res of Inl (ModelNotAllowed m) \<Rightarrow> True | _ \<Rightarrow> False)"

text \<open>
  \<open>ask\<close>: one request; none when the turn was stopped first. A service that does not know the sizes of models is
  asked again for the one it recommends.
\<close>

function ask :: "chat_world \<Rightarrow> string \<Rightarrow> turn_policy \<Rightarrow> conversation \<Rightarrow> (chat_error + answer) option \<times> turn_policy \<times> conversation" where
  "ask w t p s =
     (let r = turn_request w p s; s1 = noted (Requested r) s
      in case wd_wire w (cv_log s) r of
           CutOff ts \<Rightarrow> (None, p, reached p (streamed ts s1))
         | Came wr \<Rightarrow>
             (let ts = fst (chat (wd_parse w) r wr); res = snd (chat (wd_parse w) r wr); s2 = streamed ts s1
              in if sizes_unknown res \<and> tp_model p \<noteq> fallback_model
                 then ask w t ((policy_for w t True)\<lparr>tp_model := fallback_model\<rparr>) (s2\<lparr>cv_sizes_refused := True\<rparr>)
                 else (Some res, p, reached p s2)))"
  by pat_completeness auto
termination
  by (relation "measure (\<lambda>(w, t, p, s). if tp_model p = fallback_model then 0 else 1)") auto

declare ask.simps [simp del]

subsection \<open>Tools\<close>

definition stopped_tool :: string where "stopped_tool = ''stopped by the user before it finished''"

text \<open>What is told of a tool: what it returned, unless the turn was stopped and it was not to be waited for.\<close>

definition tool_outcome :: "string \<Rightarrow> tool_end \<Rightarrow> string + string" where
  "tool_outcome name e =
     (case e of
        Finished r \<Rightarrow> r
      | Interrupted said_yes r \<Rightarrow> if said_yes \<and> name \<noteq> ''run_command'' then r else Err stopped_tool)"

definition outcome_text :: "string + string \<Rightarrow> string" where
  "outcome_text r = (case r of Inl why \<Rightarrow> why | Inr c \<Rightarrow> c)"

definition result_block :: "string \<Rightarrow> string + string \<Rightarrow> json" where
  "result_block i r =
     JObj ([(''type'', JStr ''tool_result''), (''tool_use_id'', JStr i), (''content'', JStr (outcome_text r))] @
       (if is_ok r then [] else [(''is_error'', JBool True)]))"

definition not_run_block :: "string \<Rightarrow> json" where
  "not_run_block i = result_block i (Err ''not run: the user stopped the turn'')"

definition is_interrupted :: "tool_end \<Rightarrow> bool" where
  "is_interrupted e = (case e of Interrupted _ _ \<Rightarrow> True | Finished _ \<Rightarrow> False)"

definition waited_for :: "string \<Rightarrow> tool_end \<Rightarrow> bool" where
  "waited_for name e = (case e of Interrupted said_yes _ \<Rightarrow> said_yes \<and> name \<noteq> ''run_command'' | Finished _ \<Rightarrow> False)"

definition call_input :: "json \<Rightarrow> json" where
  "call_input c = (case jget ''input'' c of Some v \<Rightarrow> v | None \<Rightarrow> JObj [])"

definition call_tool :: "chat_world \<Rightarrow> json \<Rightarrow> conversation \<Rightarrow> tool_end \<times> conversation" where
  "call_tool w c s =
     (let i = field ''id'' c; name = field ''name'' c; e = wd_tool w (cv_log s) name (call_input c);
          s1 = noted (ToolRan c e) (emit (ToolUseStart i name (call_input c)) s);
          s2 = (if waited_for name e then emit ToolProgress s1 else s1)
      in (e, emit (ToolResult i (is_ok (tool_outcome name e)) (outcome_text (tool_outcome name e))) s2))"

fun call_tools :: "chat_world \<Rightarrow> json list \<Rightarrow> bool \<Rightarrow> conversation \<Rightarrow> json list \<times> bool \<times> conversation" where
  "call_tools w [] stopped s = ([], stopped, s)"
| "call_tools w (c # cs) stopped s =
     (if stopped then
        (case call_tools w cs True s of (bs, st, t) \<Rightarrow> (not_run_block (field ''id'' c) # bs, st, t))
      else
        (case call_tool w c s of
           (e, s1) \<Rightarrow>
            (case call_tools w cs (is_interrupted e) s1 of
               (bs, st, t) \<Rightarrow> (result_block (field ''id'' c) (tool_outcome (field ''name'' c) e) # bs, st, t))))"

subsection \<open>A turn\<close>

definition max_rounds :: nat where "max_rounds = 24"

definition kept_blocks :: "answer \<Rightarrow> json list" where
  "kept_blocks a = filter (\<lambda>b. b \<noteq> JNull \<and> (an_stop_reason a = Some ''tool_use'' \<or> \<not> is_call b)) (an_content a)"

definition kept_content :: "answer \<Rightarrow> json" where
  "kept_content a =
     (if filter is_call (kept_blocks a) \<noteq> [] \<or> says_something (kept_blocks a) then JArr (kept_blocks a)
      else if trim (an_text a) = [] then JStr ''(no answer)''
      else JStr (an_text a))"

definition after_answer :: "answer \<Rightarrow> conversation \<Rightarrow> conversation" where
  "after_answer a s =
     emit (UsageIs (an_input_tokens a) (an_cache_read_tokens a) (an_output_tokens a)) (push (message ''assistant'' (kept_content a)) s)"

fun run_rounds :: "nat \<Rightarrow> chat_world \<Rightarrow> string \<Rightarrow> turn_policy \<Rightarrow> conversation \<Rightarrow> turn \<times> conversation" where
  "run_rounds 0 w t p s = (TurnFailed, emit (ErrorIs TooManyRounds) s)"
| "run_rounds (Suc n) w t p s =
     (case wd_token w (cv_log s) of
        Inl why \<Rightarrow> (TurnFailed, emit (ErrorIs (TokenTrouble why)) s)
      | Inr token \<Rightarrow>
         (case ask w t p (s\<lparr>cv_turn_token := Some token\<rparr>) of
            (None, p1, s1) \<Rightarrow> (TurnAborted, emit Aborted s1)
          | (Some (Inl e), p1, s1) \<Rightarrow> (TurnFailed, emit (ErrorIs (ChatTrouble e)) s1)
          | (Some (Inr a), p1, s1) \<Rightarrow>
              if an_stop_reason a = Some ''refusal'' then
                (TurnFailed, emit (Refusal (Option.bind (an_refusal a) dc_category) (Option.bind (an_refusal a) dc_explanation)) s1)
              else
                (let calls = filter is_call (kept_blocks a); s2 = after_answer a s1
                 in if an_stop_reason a \<noteq> Some ''tool_use'' \<or> calls = [] then
                      (Answered, emit Complete (if an_stop_reason a = Some ''max_tokens'' then emit (ErrorIs AnswerCutOff) s2 else s2))
                    else
                      (case call_tools w calls False s2 of
                         (results, stopped, s3) \<Rightarrow>
                          if stopped then (TurnAborted, emit Aborted (push (message ''user'' (JArr results)) s3))
                          else run_rounds n w t p1 (push (message ''user'' (JArr results)) s3)))))"

definition run_turn :: "chat_world \<Rightarrow> string \<Rightarrow> conversation \<Rightarrow> turn \<times> conversation" where
  "run_turn w t s =
     (let p = policy_for w t (cv_settled s \<or> cv_sizes_refused s)
      in run_rounds max_rounds w t (if cv_sizes_refused s then p\<lparr>tp_model := fallback_model\<rparr> else p) s)"

definition last_place :: "nat \<Rightarrow> json list \<Rightarrow> nat" where
  "last_place before h =
     (case find (\<lambda>i. role_of (h ! i) = Some ''user'') (rev [before + 1..<length h]) of Some i \<Rightarrow> i + 1 | None \<Rightarrow> before)"

definition ended_note :: "bool \<Rightarrow> string" where
  "ended_note stopped =
     ''(This turn ended before an answer: '' @ (if stopped then ''the user stopped it'' else ''it failed'') @
     ''. The tool calls above did run, as their results say. Do not carry on with it unless the user asks.)''"

definition close_unanswered :: "nat \<Rightarrow> bool \<Rightarrow> conversation \<Rightarrow> conversation" where
  "close_unanswered before stopped s =
     (let h = cv_history s; e = last_place before h
      in if e \<le> before + 1 then s\<lparr>cv_history := take before h\<rparr>
         else s\<lparr>cv_history := take e h @ [message ''assistant'' (JStr (ended_note stopped))]\<rparr>)"

definition summary_request :: "chat_world \<Rightarrow> nat \<Rightarrow> conversation \<Rightarrow> chat_request" where
  "summary_request w at s =
     \<lparr>rq_system = [''You summarise conversations for the ERPC assistant.''],
      rq_messages = [message ''user'' (JStr (summary_instructions @ [CHR 0x0A, CHR 0x0A] @ ''<conversation>'' @ [CHR 0x0A] @
        transcript (wd_js w) (take at (cv_history s)) @ ''</conversation>''))],
      rq_model = (if cv_sizes_refused s then fallback_model else quick_model), rq_max_tokens = 1500, rq_effort = EffortLow,
      rq_thinking = False, rq_tools = []\<rparr>"

definition summarised :: "nat \<Rightarrow> string \<Rightarrow> conversation \<Rightarrow> conversation" where
  "summarised at summary s =
     emit (Compacted at)
       (s\<lparr>cv_archived := cv_archived s @ take at (cv_history s), cv_history := rebuilt summary (drop at (cv_history s))\<rparr>)"

text \<open>\<open>summarise\<close>: whether it was done; none when the turn was stopped first.\<close>

definition summarise :: "chat_world \<Rightarrow> conversation \<Rightarrow> bool option \<times> conversation" where
  "summarise w s =
     (case cut_place (cv_history s) of
        None \<Rightarrow> (Some False, s)
      | Some at \<Rightarrow>
         (case wd_token w (cv_log s) of
            Inl why \<Rightarrow> (Some False, s)
          | Inr token \<Rightarrow>
             (let r = summary_request w at s; s1 = noted (Requested r) s
              in case wd_wire w (cv_log s) r of
                   CutOff ts \<Rightarrow> (None, s1)
                 | Came wr \<Rightarrow>
                    (case snd (chat (wd_parse w) r wr) of
                       Inl e \<Rightarrow> (Some False, s1)
                     | Inr a \<Rightarrow>
                         if an_stop_reason a = Some ''refusal'' \<or> trim (an_text a) = [] then (Some False, s1)
                         else (Some True, summarised at (an_text a) s1)))))"

definition compact :: "chat_world \<Rightarrow> conversation \<Rightarrow> bool \<times> conversation" where
  "compact w s =
     (case summarise w s of
        (None, s1) \<Rightarrow> (False, s1)
      | (Some did, s1) \<Rightarrow>
          (True, if \<not> did \<or> history_size (wd_js w) (cv_history s1) > compact_at then
                   (let h = shrink (wd_js w) (cv_history s1)
                    in s1\<lparr>cv_history := h, cv_not_before := history_size (wd_js w) h + retry_after\<rparr>)
                 else s1\<lparr>cv_not_before := 0\<rparr>))"

text \<open>The part of \<open>send\<close> before the question is put, and whether it goes on.\<close>

definition prepare :: "chat_world \<Rightarrow> conversation \<Rightarrow> bool \<times> conversation" where
  "prepare w s =
     (let s1 = emit (StatusIs TurnRunning) s
      in if compact_due (wd_js w) (cv_history s1) (cv_not_before s1) then compact w s1 else (True, s1))"

definition send :: "chat_world \<Rightarrow> string \<Rightarrow> conversation \<Rightarrow> turn \<times> conversation" where
  "send w t s =
     (case prepare w s of
        (False, s1) \<Rightarrow> (TurnAborted, emit (StatusIs TurnIdle) (emit Aborted s1))
      | (True, s1) \<Rightarrow>
         (case run_turn w t (push (message ''user'' (JStr t)) s1) of
            (turn, s2) \<Rightarrow>
             (turn, emit (StatusIs TurnIdle)
               (if turn = Answered then s2 else close_unanswered (length (cv_history s1)) (turn = TurnAborted) s2))))"
end
