(* ===== verification/Conversation_Properties.thy ===== *)
theory Conversation_Properties
  imports Conversation
begin

text \<open>
  What a conversation guarantees: the service is only ever sent one it can go on from, a turn without an answer
  leaves behind what its tools did and nothing else, and a turn asks a bounded number of times.
\<close>

subsection \<open>Conversations a model can go on from\<close>

text \<open>
  Read message by message: after what the user says the assistant speaks, with something in it, and after that
  the user, with the results of exactly the calls it made, in order.
\<close>

datatype expects = FromUser "string list" | FromAssistant

definition calls_in :: "json \<Rightarrow> string list" where
  "calls_in m = map (field ''id'') (filter is_call (message_blocks m))"

definition results_in :: "json \<Rightarrow> string list" where
  "results_in m = map (field ''tool_use_id'') (filter is_result (message_blocks m))"

definition has_words :: "json \<Rightarrow> bool" where
  "has_words m =
     (case jget ''content'' m of
        Some (JStr t) \<Rightarrow> trim t \<noteq> []
      | Some (JArr bs) \<Rightarrow> list_ex is_call bs \<or> says_something bs
      | _ \<Rightarrow> False)"

fun takes :: "expects \<Rightarrow> json \<Rightarrow> expects option" where
  "takes (FromUser ids) m =
     (if role_of m = Some ''user'' \<and> jget ''content'' m \<noteq> None \<and> results_in m = ids then Some FromAssistant else None)"
| "takes FromAssistant m =
     (if role_of m = Some ''assistant'' \<and> has_words m then Some (FromUser (calls_in m)) else None)"

fun reads :: "expects \<Rightarrow> json list \<Rightarrow> expects option" where
  "reads e [] = Some e"
| "reads e (m # ms) = Option.bind (takes e m) (\<lambda>f. reads f ms)"

definition between_turns :: "json list \<Rightarrow> bool" where "between_turns h = (reads (FromUser []) h = Some (FromUser []))"
definition to_answer :: "json list \<Rightarrow> bool" where "to_answer h = (reads (FromUser []) h = Some FromAssistant)"

lemma reads_append: "reads e (a @ b) = Option.bind (reads e a) (\<lambda>f. reads f b)"
  by (induction a arbitrary: e) (auto split: bind_splits)

lemma role_message [simp]: "role_of (message r c) = Some r" "jget ''content'' (message r c) = Some c"
  by (simp_all add: role_of_def message_def str_at_def hm_get_def)

lemma message_blocks_message [simp]: "message_blocks (message r c) = (case c of JArr bs \<Rightarrow> bs | _ \<Rightarrow> [])"
  by (simp add: message_blocks_def)

lemma results_of_text [simp]: "results_in (message r (JStr t)) = []" "calls_in (message r (JStr t)) = []"
  by (simp_all add: results_in_def calls_in_def)

lemma trim_nonempty: "c \<in> set s \<Longrightarrow> \<not> is_space c \<Longrightarrow> trim s \<noteq> []"
  by (simp add: trim_def dropWhile_eq_Nil_conv) (metis dropWhile_eq_Nil_conv set_dropWhileD set_rev list.set_intros(1) hd_dropWhile list.set_sel(1))

lemma question_read: "between_turns h \<Longrightarrow> to_answer (h @ [message ''user'' (JStr t)])"
  by (simp add: between_turns_def to_answer_def reads_append)

lemma answer_read: "to_answer h \<Longrightarrow> has_words (message ''assistant'' c) \<Longrightarrow> calls_in (message ''assistant'' c) = [] \<Longrightarrow>
    between_turns (h @ [message ''assistant'' c])"
  by (simp add: between_turns_def to_answer_def reads_append)

subsection \<open>Tools\<close>

lemma result_block_facts [simp]:
  "is_result (result_block i r)" "field ''tool_use_id'' (result_block i r) = i"
  by (simp_all add: is_result_def field_def result_block_def str_at_def hm_get_def str_or_def)

definition tools_run :: "conv_event list \<Rightarrow> (json \<times> tool_end) set" where
  "tools_run es = {(c, e). ToolRan c e \<in> set es}"

definition requests :: "conv_event list \<Rightarrow> chat_request list" where
  "requests es = List.map_filter (\<lambda>e. case e of Requested r \<Rightarrow> Some r | _ \<Rightarrow> None) es"

lemma tools_run_simps [simp]:
  "tools_run [] = {}" "tools_run (Told x # es) = tools_run es" "tools_run (Requested r # es) = tools_run es"
  "tools_run (ToolRan c e # es) = insert (c, e) (tools_run es)" "tools_run (es @ fs) = tools_run es \<union> tools_run fs"
  by (auto simp: tools_run_def)

lemma requests_simps [simp]:
  "requests [] = []" "requests (Told x # es) = requests es" "requests (Requested r # es) = r # requests es"
  "requests (ToolRan c e # es) = requests es" "requests (es @ fs) = requests es @ requests fs"
  by (simp_all add: requests_def map_filter_def)

lemma call_tool_step:
  "call_tool w c s = (e, t) \<Longrightarrow> cv_history t = cv_history s \<and>
     (\<exists>es. cv_log t = es @ cv_log s \<and> tools_run es = {(c, e)} \<and> requests es = [])"
  by (auto simp: call_tool_def Let_def emit_def noted_def)

lemma call_tools_step:
  "call_tools w cs stopped s = (bs, st, t) \<Longrightarrow>
     cv_history t = cv_history s \<and> filter is_result bs = bs \<and> map (field ''tool_use_id'') bs = map (field ''id'') cs \<and>
     (\<exists>es. cv_log t = es @ cv_log s \<and> requests es = [] \<and>
        (\<forall>(c, e) \<in> tools_run es. result_block (field ''id'' c) (tool_outcome (field ''name'' c) e) \<in> set bs) \<and>
        (cs \<noteq> [] \<and> \<not> stopped \<longrightarrow> tools_run es \<noteq> {}))"
proof (induction cs arbitrary: stopped s bs st t)
  case (Cons c cs)
  show ?case
  proof (cases stopped)
    case True
    with Cons.prems obtain bs1 where b: "call_tools w cs True s = (bs1, st, t)" "bs = not_run_block (field ''id'' c) # bs1"
      by (auto split: prod.splits)
    from Cons.IH [OF b(1)] obtain es where "cv_log t = es @ cv_log s" "requests es = []"
      "\<forall>(c, e) \<in> tools_run es. result_block (field ''id'' c) (tool_outcome (field ''name'' c) e) \<in> set bs1" by blast
    with Cons.IH [OF b(1)] True show ?thesis by (intro conjI exI [of _ es]) (auto simp: b(2) not_run_block_def)
  next
    case False
    with Cons.prems obtain e s1 bs1 where a: "call_tool w c s = (e, s1)" "call_tools w cs (is_interrupted e) s1 = (bs1, st, t)"
      "bs = result_block (field ''id'' c) (tool_outcome (field ''name'' c) e) # bs1" by (auto split: prod.splits)
    from call_tool_step [OF a(1)] obtain fs where f: "cv_history s1 = cv_history s" "cv_log s1 = fs @ cv_log s"
      "tools_run fs = {(c, e)}" "requests fs = []" by blast
    from Cons.IH [OF a(2)] obtain es where "cv_log t = es @ cv_log s1" "requests es = []"
      "\<forall>(c, e) \<in> tools_run es. result_block (field ''id'' c) (tool_outcome (field ''name'' c) e) \<in> set bs1" by blast
    with Cons.IH [OF a(2)] f show ?thesis by (intro conjI exI [of _ "es @ fs"]) (auto simp: a(3))
  qed
qed simp

subsection \<open>One request\<close>

lemma streamed_facts [simp]:
  "cv_history (streamed ts s) = cv_history s" "cv_archived (streamed ts s) = cv_archived s"
  "cv_sizes_refused (streamed ts s) = cv_sizes_refused s" "cv_settled (streamed ts s) = cv_settled s"
  by (induction ts arbitrary: s) (simp_all add: streamed_def emit_def noted_def)

lemma streamed_log: "\<exists>es. cv_log (streamed ts s) = es @ cv_log s \<and> tools_run es = {} \<and> requests es = []"
proof (induction ts arbitrary: s)
  case (Cons t ts)
  from Cons [of "emit (TextDelta t) s"] obtain es where "cv_log (streamed ts (emit (TextDelta t) s)) = es @ cv_log (emit (TextDelta t) s)"
    "tools_run es = {}" "requests es = []" by blast
  then show ?case by (intro exI [of _ "es @ [Told (TextDelta t)]"]) (simp add: streamed_def emit_def noted_def)
qed (simp add: streamed_def)

lemma reached_facts [simp]:
  "cv_history (reached p s) = cv_history s" "cv_log (reached p s) = cv_log s" "cv_archived (reached p s) = cv_archived s"
  by (simp_all add: reached_def)

definition asks_left :: "turn_policy \<Rightarrow> nat" where "asks_left p = (if tp_model p = fallback_model then 0 else 1)"

lemma ask_step:
  "ask w q p s = (r, p', t) \<Longrightarrow> cv_history t = cv_history s \<and>
     (\<exists>es. cv_log t = es @ cv_log s \<and> tools_run es = {} \<and> (\<forall>r \<in> set (requests es). rq_messages r = cv_history s) \<and>
        length (requests es) + asks_left p' = Suc (asks_left p))"
proof (induction w q p s rule: ask.induct)
  case (1 w q p s)
  let ?r = "turn_request w p s" and ?s1 = "noted (Requested (turn_request w p s)) s"
  have r: "rq_messages ?r = cv_history s" by (simp add: turn_request_def)
  have streamed: "\<exists>es. cv_log (streamed ts ?s1) = es @ cv_log s \<and> tools_run es = {} \<and> requests es = [?r]" for ts
  proof -
    obtain es where "cv_log (streamed ts ?s1) = es @ cv_log ?s1" "tools_run es = {}" "requests es = []" using streamed_log by blast
    then show ?thesis by (intro exI [of _ "es @ [Requested ?r]"]) (simp add: noted_def)
  qed
  show ?case
  proof (cases "wd_wire w (cv_log s) ?r")
    case (CutOff ts)
    with "1.prems" have "p' = p" "t = reached p (streamed ts ?s1)" by (auto simp: ask.simps [of w q p s])
    with streamed [of ts] r show ?thesis by (auto simp: noted_def)
  next
    case (Came wr)
    let ?ts = "fst (chat (wd_parse w) ?r wr)" and ?res = "snd (chat (wd_parse w) ?r wr)"
    let ?s2 = "streamed ?ts ?s1" and ?again = "sizes_unknown ?res \<and> tp_model p \<noteq> fallback_model"
    from streamed [of ?ts] obtain es where es: "cv_log ?s2 = es @ cv_log s" "tools_run es = {}" "requests es = [?r]" by blast
    show ?thesis
    proof (cases ?again)
      case True
      with "1.prems" Came have "ask w q ((policy_for w q True)\<lparr>tp_model := fallback_model\<rparr>) (?s2\<lparr>cv_sizes_refused := True\<rparr>) = (r, p', t)"
        by (simp add: ask.simps [of w q p s] Let_def)
      from "1.IH" [OF refl refl Came refl refl refl True this] obtain fs where "cv_history t = cv_history s" "cv_log t = fs @ cv_log ?s2"
        "tools_run fs = {}" "\<forall>r \<in> set (requests fs). rq_messages r = cv_history s" "length (requests fs) + asks_left p' = 1"
        by (auto simp: asks_left_def noted_def)
      with es r True show ?thesis by (intro conjI exI [of _ "fs @ es"]) (auto simp: asks_left_def)
    next
      case False
      with "1.prems" Came have "p' = p" "t = reached p ?s2" by (auto simp: ask.simps [of w q p s] Let_def)
      with es r show ?thesis by (auto simp: noted_def)
    qed
  qed
qed

subsection \<open>Answers\<close>

lemma kept_content_words: "has_words (message ''assistant'' (kept_content a))"
proof -
  have "trim ''(no answer)'' \<noteq> []" by code_simp
  then show ?thesis by (auto simp: has_words_def kept_content_def list_ex_iff filter_empty_conv)
qed

lemma kept_content_calls:
  "calls_in (message ''assistant'' (kept_content a)) = map (field ''id'') (filter is_call (kept_blocks a))"
proof (cases "filter is_call (kept_blocks a) = []")
  case True
  then show ?thesis by (cases "says_something (kept_blocks a)") (simp_all add: calls_in_def kept_content_def)
next
  case False
  then show ?thesis by (simp add: calls_in_def kept_content_def)
qed

lemma no_call_kept: "an_stop_reason a \<noteq> Some ''tool_use'' \<Longrightarrow> filter is_call (kept_blocks a) = []"
  by (simp add: kept_blocks_def filter_empty_conv)

lemma after_answer_facts [simp]:
  "cv_history (after_answer a s) = cv_history s @ [message ''assistant'' (kept_content a)]"
  "\<exists>es. cv_log (after_answer a s) = es @ cv_log s \<and> tools_run es = {} \<and> requests es = []"
  by (auto simp: after_answer_def emit_def noted_def push_def intro: exI [of _ "[x]" for x])


subsection \<open>Turns\<close>

text \<open>
  What a piece of a turn comes to: messages the service can go on from, requests that were whole, the results of
  the tools run, and at most so many requests.
\<close>

definition told_in :: "json list \<Rightarrow> conv_event list \<Rightarrow> bool" where
  "told_in ms es \<longleftrightarrow>
     (\<forall>(c, e) \<in> tools_run es. result_block (field ''id'' c) (tool_outcome (field ''name'' c) e) \<in> set (concat (map message_blocks ms)))"

definition went :: "turn \<Rightarrow> nat \<Rightarrow> conversation \<Rightarrow> conversation \<Rightarrow> bool" where
  "went turn k s t \<longleftrightarrow>
     (\<exists>ms es. cv_history t = cv_history s @ ms \<and> cv_log t = es @ cv_log s \<and>
        reads FromAssistant ms = Some (if turn = Answered then FromUser [] else FromAssistant) \<and>
        (\<forall>r \<in> set (requests es). to_answer (rq_messages r)) \<and> told_in ms es \<and>
        (turn \<noteq> Answered \<longrightarrow> ms \<noteq> [] \<longrightarrow> tools_run es \<noteq> {}) \<and> length (requests es) \<le> k)"

lemma told_in_append: "told_in ms es \<Longrightarrow> told_in ns fs \<Longrightarrow> told_in (ms @ ns) (fs @ es)"
  by (auto simp: told_in_def)

lemma told_in_nothing: "tools_run es = {} \<Longrightarrow> told_in ms es"
  by (simp add: told_in_def)

lemma went_stop:
  assumes "cv_history t = cv_history s" "cv_log t = es @ cv_log s" "tools_run es = {}"
    "\<forall>r \<in> set (requests es). to_answer (rq_messages r)" "length (requests es) \<le> k" "turn \<noteq> Answered"
  shows "went turn k s t"
  using assms unfolding went_def by (intro exI [of _ "[]"] exI [of _ es]) (simp add: told_in_nothing)

lemma went_on:
  assumes "cv_history u = cv_history s @ ms" "cv_log u = es @ cv_log s" "reads FromAssistant ms = Some FromAssistant"
    "\<forall>r \<in> set (requests es). to_answer (rq_messages r)" "told_in ms es" "tools_run es \<noteq> {}" "went turn j u t"
    "length (requests es) + j \<le> k"
  shows "went turn k s t"
proof -
  from assms(7) obtain ns fs where n: "cv_history t = cv_history u @ ns" "cv_log t = fs @ cv_log u"
    "reads FromAssistant ns = Some (if turn = Answered then FromUser [] else FromAssistant)"
    "\<forall>r \<in> set (requests fs). to_answer (rq_messages r)" "told_in ns fs" "length (requests fs) \<le> j"
    unfolding went_def by blast
  show ?thesis unfolding went_def
    using n assms(1-6,8) by (intro exI [of _ "ms @ ns"] exI [of _ "fs @ es"]) (auto simp: reads_append told_in_append)
qed

lemma emit_facts [simp]: "cv_history (emit e s) = cv_history s" "cv_log (emit e s) = Told e # cv_log s"
  "cv_archived (emit e s) = cv_archived s"
  by (simp_all add: emit_def noted_def)

lemma push_facts [simp]: "cv_history (push m s) = cv_history s @ [m]" "cv_log (push m s) = cv_log s"
  by (simp_all add: push_def)

lemma results_read:
  assumes "filter is_result bs = bs" "map (field ''tool_use_id'') bs = calls_in (message ''assistant'' c)" "has_words (message ''assistant'' c)"
  shows "reads FromAssistant [message ''assistant'' c, message ''user'' (JArr bs)] = Some FromAssistant"
  using assms by (simp add: results_in_def)

text \<open>A round in which tools ran: what comes after it goes on from there.\<close>

lemma round_of_tools:
  assumes "call_tools w (filter is_call (kept_blocks b)) False (after_answer b s1) = (bs, stopped, s3)"
    and "filter is_call (kept_blocks b) \<noteq> []" and "to_answer (cv_history s)"
    and "cv_history s1 = cv_history s" "cv_log s1 = es @ cv_log s" "tools_run es = {}" "\<forall>r \<in> set (requests es). to_answer (rq_messages r)"
  shows "to_answer (cv_history (push (message ''user'' (JArr bs)) s3))"
    and "went turn j (push (message ''user'' (JArr bs)) s3) t \<Longrightarrow> length (requests es) + j \<le> k \<Longrightarrow> went turn k s t"
proof -
  let ?m = "message ''assistant'' (kept_content b)" and ?u = "push (message ''user'' (JArr bs)) s3"
  let ?ms = "[?m, message ''user'' (JArr bs)]"
  obtain fs where fs: "cv_log (after_answer b s1) = fs @ cv_log s1" "tools_run fs = {}" "requests fs = []" using after_answer_facts(2) by blast
  from call_tools_step [OF assms(1)] assms(2) obtain gs where g: "cv_history s3 = cv_history (after_answer b s1)" "filter is_result bs = bs"
    "map (field ''tool_use_id'') bs = map (field ''id'') (filter is_call (kept_blocks b))" "cv_log s3 = gs @ cv_log (after_answer b s1)"
    "requests gs = []" "tools_run gs \<noteq> {}"
    "\<forall>(c, e) \<in> tools_run gs. result_block (field ''id'' c) (tool_outcome (field ''name'' c) e) \<in> set bs" by auto
  have h: "cv_history ?u = cv_history s @ ?ms" "cv_log ?u = (gs @ fs @ es) @ cv_log s" using g(1,4) fs(1) assms(4,5) by simp_all
  have reads: "reads FromAssistant ?ms = Some FromAssistant"
    using g(2,3) kept_content_words by (intro results_read) (simp_all add: kept_content_calls)
  with assms(3) show "to_answer (cv_history ?u)" unfolding h(1) to_answer_def reads_append by simp
  have told: "told_in ?ms (gs @ fs @ es)" using g(7) fs(2) assms(6) by (auto simp: told_in_def)
  have here: "\<forall>r \<in> set (requests (gs @ fs @ es)). to_answer (rq_messages r)" using assms(7) g(5) fs(3) by simp
  show "went turn k s t" if "went turn j ?u t" "length (requests es) + j \<le> k"
    by (rule went_on [OF h reads here told _ that(1)]) (use g(5,6) fs(3) that(2) in auto)
qed

lemma run_rounds_went: "run_rounds n w q p s = (turn, t) \<Longrightarrow> to_answer (cv_history s) \<Longrightarrow> went turn (n + asks_left p) s t"
proof (induction n arbitrary: p s)
  case 0
  then show ?case by (intro went_stop [where es = "[Told (ErrorIs TooManyRounds)]"]) auto
next
  case (Suc n)
  show ?case
  proof (cases "wd_token w (cv_log s)")
    case (Inl why)
    with Suc.prems show ?thesis by (intro went_stop [where es = "[Told (ErrorIs (TokenTrouble why))]"]) auto
  next
    case (Inr token)
    let ?s0 = "s\<lparr>cv_turn_token := Some token\<rparr>"
    obtain r p1 s1 where a: "ask w q p ?s0 = (r, p1, s1)" by (cases "ask w q p ?s0")
    from ask_step [OF a] obtain es where es: "cv_history s1 = cv_history s" "cv_log s1 = es @ cv_log s" "tools_run es = {}"
      "\<forall>r \<in> set (requests es). rq_messages r = cv_history s" "length (requests es) + asks_left p1 = Suc (asks_left p)" by auto
    have whole: "\<forall>r \<in> set (requests es). to_answer (rq_messages r)" using es(4) Suc.prems(2) by simp
    have stop: "went turn (Suc n + asks_left p) s t" if "turn \<noteq> Answered" "t = emit x s1" for x
      using es whole that by (intro went_stop [where es = "Told x # es"]) auto
    consider (cut) "r = None" | (trouble) e where "r = Some (Inl e)" | (refused) b where "r = Some (Inr b)" "an_stop_reason b = Some ''refusal''"
      | (answer) b where "r = Some (Inr b)" "an_stop_reason b \<noteq> Some ''refusal''" by (cases r; metis sum.exhaust)
    then show ?thesis
    proof cases
      case cut
      with Suc.prems(1) Inr a show ?thesis by (intro stop [of Aborted]) auto
    next
      case (trouble e)
      with Suc.prems(1) Inr a show ?thesis by (intro stop [of "ErrorIs (ChatTrouble e)"]) auto
    next
      case (refused b)
      with Suc.prems(1) Inr a show ?thesis
        by (intro stop [of "Refusal (Option.bind (an_refusal b) dc_category) (Option.bind (an_refusal b) dc_explanation)"]) auto
    next
      case (answer b)
      let ?calls = "filter is_call (kept_blocks b)" and ?m = "message ''assistant'' (kept_content b)" and ?s2 = "after_answer b s1"
      obtain fs where fs: "cv_log ?s2 = fs @ cv_log s1" "tools_run fs = {}" "requests fs = []" using after_answer_facts(2) by blast
      show ?thesis
      proof (cases "an_stop_reason b \<noteq> Some ''tool_use'' \<or> ?calls = []")
        case True
        then have none: "?calls = []" using no_call_kept by blast
        from True Suc.prems(1) Inr a answer have t: "turn = Answered"
          "t = emit Complete (if an_stop_reason b = Some ''max_tokens'' then emit (ErrorIs AnswerCutOff) ?s2 else ?s2)"
          by (auto simp: Let_def)
        have "reads FromAssistant [?m] = Some (FromUser [])" using kept_content_words [of b] none by (simp add: kept_content_calls)
        with t es fs whole show ?thesis unfolding went_def
          by (intro exI [of _ "[?m]"] exI [of _ "Told Complete # (if an_stop_reason b = Some ''max_tokens'' then [Told (ErrorIs AnswerCutOff)] else []) @ fs @ es"])
            (auto simp: told_in_nothing)
      next
        case False
        obtain bs stopped s3 where c: "call_tools w ?calls False ?s2 = (bs, stopped, s3)" by (cases "call_tools w ?calls False ?s2")
        let ?u = "push (message ''user'' (JArr bs)) s3"
        from False have "?calls \<noteq> []" by blast
        note tools = round_of_tools [OF c this Suc.prems(2) es(1-3) whole]
        have "went turn (n + asks_left p1) ?u t"
        proof (cases stopped)
          case True
          with Suc.prems(1) Inr a answer False c show ?thesis
            by (intro went_stop [where es = "[Told Aborted]"]) (auto simp: Let_def)
        next
          case no: False
          with Suc.prems(1) Inr a answer False c have "run_rounds n w q p1 ?u = (turn, t)" by (simp add: Let_def)
          then show ?thesis using tools(1) by (rule Suc.IH)
        qed
        then show ?thesis by (rule tools(2)) (use es(5) in simp)
      qed
    qed
  qed
qed


subsection \<open>Keeping it short\<close>

definition same_but_content :: "json \<Rightarrow> json \<Rightarrow> bool" where
  "same_but_content b c \<longleftrightarrow> (\<forall>k. k \<noteq> ''content'' \<longrightarrow> str_at k c = str_at k b)"

lemma jset_other: "k \<noteq> k' \<Longrightarrow> jget k' j \<noteq> None \<Longrightarrow> str_at k (jset k' v j) = str_at k j"
  by (cases j) (simp_all add: str_at_def)

lemma shrink_block_same: "same_but_content b (shrink_block js b)"
  by (auto simp: same_but_content_def shrink_block_def jset_other split: option.split)

lemma same_but_content_refl [simp]: "same_but_content b b"
  by (simp add: same_but_content_def)

lemma shrink_blocks_same: "shrink_blocks js n bs = (cs, k) \<Longrightarrow> list_all2 same_but_content bs cs"
  by (induction bs arbitrary: n cs k) (auto split: if_splits prod.splits simp: shrink_block_same)

lemma same_but_content_iff:
  assumes "same_but_content b c"
  shows "is_call c = is_call b" "is_result c = is_result b" "field ''id'' c = field ''id'' b" "field ''tool_use_id'' c = field ''tool_use_id'' b"
    "says_something [c] = says_something [b]"
  using assms by (simp_all add: same_but_content_def is_call_def is_result_def field_def says_something_def)

lemma same_blocks:
  "list_all2 same_but_content bs cs \<Longrightarrow>
     map (field ''id'') (filter is_call cs) = map (field ''id'') (filter is_call bs) \<and>
     map (field ''tool_use_id'') (filter is_result cs) = map (field ''tool_use_id'') (filter is_result bs) \<and>
     list_ex is_call cs = list_ex is_call bs \<and> says_something cs = says_something bs"
proof (induction rule: list_all2_induct)
  case (Cons b bs c cs)
  have "says_something (c # cs) = (says_something [c] \<or> says_something cs)" "says_something (b # bs) = (says_something [b] \<or> says_something bs)"
    by (simp_all add: says_something_def)
  with Cons.IH same_but_content_iff [OF Cons.hyps(1)] show ?case by simp
qed simp

lemma takes_same:
  assumes "jget ''content'' m = Some (JArr bs)" "list_all2 same_but_content bs cs"
  shows "takes e (jset ''content'' (JArr cs) m) = takes e m"
proof -
  from assms(1) obtain fs where m: "m = JObj fs" by (cases m) auto
  have "role_of (jset ''content'' (JArr cs) m) = role_of m" unfolding role_of_def using assms(1) by (intro jset_other) auto
  moreover have "jget ''content'' (jset ''content'' (JArr cs) m) = Some (JArr cs)" by (simp add: m)
  ultimately show ?thesis using assms(1) same_blocks [OF assms(2)]
    by (cases e) (simp_all add: results_in_def calls_in_def has_words_def message_blocks_def)
qed

lemma reads_shrink_messages: "reads e (shrink_messages js n h) = reads e h"
proof (induction h arbitrary: e n)
  case (Cons m h)
  show ?case
  proof (cases "\<exists>bs. jget ''content'' m = Some (JArr bs)")
    case True
    then obtain bs cs k where m: "jget ''content'' m = Some (JArr bs)" "shrink_blocks js n bs = (cs, k)" by fastforce
    with takes_same [OF m(1) shrink_blocks_same [OF m(2)]] Cons.IH show ?thesis by simp
  next
    case False
    then have "shrink_messages js n (m # h) = m # shrink_messages js n h" by (auto split: option.split json.split)
    then show ?thesis using Cons.IH by simp
  qed
qed simp

lemma between_turns_shrink [simp]: "between_turns (shrink js h) = between_turns h"
  by (simp add: between_turns_def shrink_def reads_shrink_messages)

lemma cut_place_question: "cut_place h = Some at \<Longrightarrow> at < length h \<and> is_question (h ! at)"
proof -
  assume c: "cut_place h = Some at"
  then have "length (question_places h) \<ge> 2" "at = question_places h ! (length (question_places h) - 2)"
    by (auto simp: cut_place_def Let_def keep_turns_def split: if_splits)
  then have "at \<in> set (question_places h)" by simp
  then show ?thesis by (simp add: question_places_def)
qed

lemma question_results: "is_question m \<Longrightarrow> takes e m = Some f \<Longrightarrow> e = FromUser []"
  by (cases e) (auto simp: is_question_def results_in_def message_blocks_def str_at_def split: if_splits json.splits bind_splits)

lemma between_turns_cut:
  assumes "between_turns h" "cut_place h = Some at"
  shows "between_turns (drop at h)"
proof -
  from cut_place_question [OF assms(2)] have at: "at < length h" "is_question (h ! at)" by auto
  have h: "h = take at h @ h ! at # drop (Suc at) h" using at(1) by (simp add: Cons_nth_drop_Suc)
  from assms(1) have "Option.bind (reads (FromUser []) (take at h)) (\<lambda>f. reads f (h ! at # drop (Suc at) h)) = Some (FromUser [])"
    unfolding between_turns_def by (subst (asm) h) (simp only: reads_append)
  then obtain e where e: "reads e (h ! at # drop (Suc at) h) = Some (FromUser [])" by (auto split: bind_splits)
  then have "e = FromUser []" using question_results [OF at(2)] by (auto split: bind_splits)
  with e at(1) show ?thesis by (simp add: between_turns_def Cons_nth_drop_Suc)
qed

lemma between_turns_rebuilt: "between_turns kept \<Longrightarrow> between_turns (rebuilt summary kept)"
proof -
  assume k: "between_turns kept"
  have "has_words (message ''assistant'' (JArr [JObj (text_block ''Understood; I will carry on from this summary.'')]))"
    "calls_in (message ''assistant'' (JArr [JObj (text_block ''Understood; I will carry on from this summary.'')])) = []"
    by code_simp+
  with k show ?thesis by (simp add: between_turns_def rebuilt_def)
qed

text \<open>What comes before the question leaves the conversation between turns, runs no tool and asks at most once.\<close>

definition prepared :: "conversation \<Rightarrow> conversation \<Rightarrow> bool" where
  "prepared s t \<longleftrightarrow> between_turns (cv_history t) \<and>
     (\<exists>es. cv_log t = es @ cv_log s \<and> tools_run es = {} \<and> (\<forall>r \<in> set (requests es). to_answer (rq_messages r)) \<and> length (requests es) \<le> 1)"

lemma summary_request_read: "to_answer (rq_messages (summary_request w at s))"
  by (simp add: summary_request_def to_answer_def)

lemma preparedI:
  "between_turns (cv_history t) \<Longrightarrow> cv_log t = es @ cv_log s \<Longrightarrow> tools_run es = {} \<Longrightarrow>
     \<forall>r \<in> set (requests es). to_answer (rq_messages r) \<Longrightarrow> length (requests es) \<le> 1 \<Longrightarrow> prepared s t"
  unfolding prepared_def by blast


lemma summarise_prepared: "summarise w s = (r, t) \<Longrightarrow> between_turns (cv_history s) \<Longrightarrow> prepared s t"
proof (cases "cut_place (cv_history s)")
  case (Some at)
  assume r: "summarise w s = (r, t)" and h: "between_turns (cv_history s)"
  let ?r = "summary_request w at s" and ?s1 = "noted (Requested (summary_request w at s)) s"
  have asked: "prepared s ?s1" using h by (intro preparedI [where es = "[Requested ?r]"]) (simp_all add: noted_def summary_request_read)
  have summed: "prepared s (summarised at x ?s1)" for x
    using between_turns_rebuilt [OF between_turns_cut [OF h Some]]
    by (intro preparedI [where es = "[Told (Compacted at), Requested ?r]"]) (simp_all add: summarised_def noted_def summary_request_read)
  have "prepared s s" using h by (intro preparedI [where es = "[]"]) simp_all
  moreover from r Some have "t = s \<or> t = ?s1 \<or> (\<exists>x. t = summarised at x ?s1)"
    by (auto simp: summarise_def Let_def split: sum.splits wire_end.splits if_splits)
  ultimately show ?thesis using asked summed by blast
qed (auto simp: summarise_def intro: preparedI [where es = "[]"])

lemma compact_prepared: "compact w s = (go, t) \<Longrightarrow> between_turns (cv_history s) \<Longrightarrow> prepared s t"
proof -
  assume c: "compact w s = (go, t)" and h: "between_turns (cv_history s)"
  obtain r s1 where r: "summarise w s = (r, s1)" by fastforce
  from summarise_prepared [OF r h] have p: "prepared s s1" .
  then have "prepared s (s1\<lparr>cv_history := shrink (wd_js w) (cv_history s1), cv_not_before := n\<rparr>)" "prepared s (s1\<lparr>cv_not_before := n\<rparr>)" for n
    by (simp_all add: prepared_def)
  with p c r show ?thesis by (auto simp: compact_def Let_def split: option.splits if_splits)
qed

lemma prepare_prepared: "prepare w s = (go, t) \<Longrightarrow> between_turns (cv_history s) \<Longrightarrow> prepared s t"
proof -
  assume p: "prepare w s = (go, t)" and h: "between_turns (cv_history s)"
  let ?s1 = "emit (StatusIs TurnRunning) s"
  from p have "compact w ?s1 = (go, t) \<or> t = ?s1" by (auto simp: prepare_def Let_def split: if_splits)
  then have "prepared ?s1 t"
  proof
    assume "compact w ?s1 = (go, t)"
    then show ?thesis by (rule compact_prepared) (simp add: h)
  qed (use h in \<open>auto intro: preparedI [where es = "[]"]\<close>)
  then obtain es where "between_turns (cv_history t)" "cv_log t = es @ Told (StatusIs TurnRunning) # cv_log s" "tools_run es = {}"
    "\<forall>r \<in> set (requests es). to_answer (rq_messages r)" "length (requests es) \<le> 1" by (auto simp: prepared_def)
  then show ?thesis by (intro preparedI [where es = "es @ [Told (StatusIs TurnRunning)]"]) simp_all
qed

subsection \<open>Turns without an answer\<close>

lemma reads_last_user: "reads FromAssistant ms = Some FromAssistant \<Longrightarrow> ms \<noteq> [] \<Longrightarrow> role_of (last ms) = Some ''user''"
proof -
  assume r: "reads FromAssistant ms = Some FromAssistant" and n: "ms \<noteq> []"
  have "reads FromAssistant (butlast ms @ [last ms]) = Some FromAssistant" using r n by simp
  then obtain e where "takes e (last ms) = Some FromAssistant" unfolding reads_append by (auto split: bind_splits)
  then show ?thesis by (cases e) (auto split: if_splits)
qed

lemma last_place_asked:
  assumes "reads FromAssistant ms = Some FromAssistant"
  shows "last_place (length h) (h @ [q] @ ms) = (if ms = [] then length h else length (h @ [q] @ ms))"
proof (cases "ms = []")
  case False
  let ?l = "h @ [q] @ ms"
  have "[length h + 1..<length ?l] = [length h + 1..<length ?l - 1] @ [length ?l - 1]"
    using False by (cases ms) (simp_all flip: upt_Suc_append)
  moreover have "?l ! (length ?l - 1) = last ms" using False by (simp add: nth_append last_conv_nth)
  ultimately show ?thesis using False reads_last_user [OF assms False] by (simp add: last_place_def)
qed (simp add: last_place_def)

lemma close_unanswered_history:
  assumes "reads FromAssistant ms = Some FromAssistant" "cv_history s = h @ [q] @ ms"
  shows "cv_history (close_unanswered (length h) stopped s) =
    (if ms = [] then h else h @ [q] @ ms @ [message ''assistant'' (JStr (ended_note stopped))])"
  using assms(2) last_place_asked [OF assms(1), of h q] by (cases ms) (simp_all add: close_unanswered_def Let_def)

lemma close_unanswered_log [simp]: "cv_log (close_unanswered before stopped s) = cv_log s"
  by (simp add: close_unanswered_def Let_def)

lemma ended_note_words: "has_words (message ''assistant'' (JStr (ended_note b)))"
proof -
  have "trim (ended_note True) \<noteq> []" "trim (ended_note False) \<noteq> []" by code_simp+
  then show ?thesis by (cases b) (simp_all add: has_words_def)
qed


subsection \<open>Sending\<close>

lemma run_turn_went: "run_turn w q s = (turn, t) \<Longrightarrow> to_answer (cv_history s) \<Longrightarrow> went turn 25 s t"
proof -
  assume r: "run_turn w q s = (turn, t)" and h: "to_answer (cv_history s)"
  obtain p where p: "run_rounds max_rounds w q p s = (turn, t)" using r by (auto simp: run_turn_def Let_def)
  from run_rounds_went [OF p h] show ?thesis by (auto simp: went_def max_rounds_def asks_left_def split: if_splits)
qed

text \<open>
  A message sent, in one rule: the part before the question, and what the turn added, if it came to one.
\<close>

lemma send_cases:
  assumes "send w q s = (turn, t)" "between_turns (cv_history s)"
  obtains (stopped) s1 where "prepare w s = (False, s1)" "prepared s s1" "turn = TurnAborted" "cv_history t = cv_history s1"
      "cv_log t = [Told (StatusIs TurnIdle), Told Aborted] @ cv_log s1"
  | (turned) s1 ms es where "prepare w s = (True, s1)" "prepared s s1" "to_answer (cv_history s1 @ [message ''user'' (JStr q)])"
      "cv_log t = Told (StatusIs TurnIdle) # es @ cv_log s1"
      "reads FromAssistant ms = Some (if turn = Answered then FromUser [] else FromAssistant)"
      "\<forall>r \<in> set (requests es). to_answer (rq_messages r)" "told_in ms es" "turn \<noteq> Answered \<longrightarrow> ms \<noteq> [] \<longrightarrow> tools_run es \<noteq> {}"
      "length (requests es) \<le> 25"
      "cv_history t = (if turn = Answered then cv_history s1 @ [message ''user'' (JStr q)] @ ms
         else if ms = [] then cv_history s1
         else cv_history s1 @ [message ''user'' (JStr q)] @ ms @ [message ''assistant'' (JStr (ended_note (turn = TurnAborted)))])"
proof -
  obtain go s1 where p: "prepare w s = (go, s1)" by fastforce
  from prepare_prepared [OF p assms(2)] have prep: "prepared s s1" .
  show thesis
  proof (cases go)
    case False
    then have "turn = TurnAborted" "t = emit (StatusIs TurnIdle) (emit Aborted s1)" using p assms(1) by (auto simp: send_def)
    with p prep False show thesis by (intro stopped [of s1]) simp_all
  next
    case True
    let ?q = "message ''user'' (JStr q)"
    obtain turn' s2 where r: "run_turn w q (push ?q s1) = (turn', s2)" by fastforce
    have asked: "to_answer (cv_history s1 @ [?q])" using prep question_read by (simp add: prepared_def)
    with run_turn_went [OF r] obtain ms es where w: "cv_history s2 = (cv_history s1 @ [?q]) @ ms" "cv_log s2 = es @ cv_log s1"
      "reads FromAssistant ms = Some (if turn' = Answered then FromUser [] else FromAssistant)"
      "\<forall>r \<in> set (requests es). to_answer (rq_messages r)" "told_in ms es" "turn' \<noteq> Answered \<longrightarrow> ms \<noteq> [] \<longrightarrow> tools_run es \<noteq> {}"
      "length (requests es) \<le> 25" by (auto simp: went_def)
    from assms(1) p True r have t: "turn = turn'"
      "t = emit (StatusIs TurnIdle) (if turn = Answered then s2 else close_unanswered (length (cv_history s1)) (turn = TurnAborted) s2)"
      by (auto simp: send_def)
    show thesis
    proof (rule turned [OF _ prep asked _ w(3-7) [folded t(1)]])
      show "cv_history t = (if turn = Answered then cv_history s1 @ [?q] @ ms
         else if ms = [] then cv_history s1
         else cv_history s1 @ [?q] @ ms @ [message ''assistant'' (JStr (ended_note (turn = TurnAborted)))])"
        using close_unanswered_history [of ms s2 "cv_history s1" ?q] w(1,3) t by simp
    qed (use p True w t in simp_all)
  qed
qed

subsection \<open>Reachable conversations\<close>

text \<open>
  Messages sent in any world, conversations forgotten, and saved ones, from this session or another, picked up
  again with what was summarised away from them.
\<close>

inductive conv_reachable :: "conversation \<Rightarrow> bool" where
  fresh: "conv_reachable conversation_new"
| sent: "conv_reachable s \<Longrightarrow> conv_reachable (snd (send w q s))"
| forgotten: "conv_reachable s \<Longrightarrow> conv_reachable (reset s)"
| resumed: "conv_reachable s \<Longrightarrow> conv_reachable saved \<Longrightarrow> restore (cv_history saved) (cv_settled saved) s = Ok t \<Longrightarrow>
    conv_reachable (t\<lparr>cv_archived := cv_archived saved\<rparr>)"

definition conv_inv :: "conversation \<Rightarrow> bool" where
  "conv_inv s \<longleftrightarrow> between_turns (cv_history s) \<and> (\<forall>r. Requested r \<in> set (cv_log s) \<longrightarrow> to_answer (rq_messages r))"

lemma requests_iff: "r \<in> set (requests es) \<longleftrightarrow> Requested r \<in> set es"
  by (induction es) (auto simp: requests_def map_filter_def split: conv_event.splits)

lemma send_inv: "conv_inv s \<Longrightarrow> conv_inv (snd (send w q s))"
proof -
  assume inv: "conv_inv s"
  obtain turn t where send: "send w q s = (turn, t)" by fastforce
  from inv have h: "between_turns (cv_history s)" by (simp add: conv_inv_def)
  have requested: "Requested r \<in> set (cv_log u) \<Longrightarrow> to_answer (rq_messages r)" if "prepared s u" for u r
    using inv that by (auto simp: prepared_def conv_inv_def requests_iff)
  from send h have "conv_inv t"
  proof (cases rule: send_cases)
    case (stopped s1)
    then show ?thesis using requested [of s1] by (auto simp: conv_inv_def prepared_def)
  next
    case (turned s1 ms es)
    have "between_turns (cv_history t)"
      using turned(2,3,5,10) ended_note_words
      by (auto simp: between_turns_def to_answer_def prepared_def reads_append)
    with turned(4,6) requested [OF turned(2)] show ?thesis by (auto simp: conv_inv_def requests_iff)
  qed
  with send show ?thesis by simp
qed

lemma conv_reachable_inv: "conv_reachable s \<Longrightarrow> conv_inv s"
proof (induction rule: conv_reachable.induct)
  case (sent s w q)
  then show ?case by (intro send_inv)
qed (auto simp: conv_inv_def conversation_new_def between_turns_def reset_def restore_def split: if_splits)

lemma between_turns_roles:
  "reads e h = Some f \<Longrightarrow>
     (\<forall>i < length h. role_of (h ! i) = Some (if even i = (e \<noteq> FromAssistant) then ''user'' else ''assistant'') \<and> jget ''content'' (h ! i) \<noteq> None) \<and>
     (f \<noteq> FromAssistant) = (even (length h) = (e \<noteq> FromAssistant))"
proof (induction h arbitrary: e)
  case (Cons m h)
  then obtain g where g: "takes e m = Some g" "reads g h = Some f" by (auto split: bind_splits)
  from g(1) have m: "role_of m = Some (if e \<noteq> FromAssistant then ''user'' else ''assistant'')" "jget ''content'' m \<noteq> None"
    "(g \<noteq> FromAssistant) = (e = FromAssistant)" by (cases e; auto simp: has_words_def split: if_splits option.splits)+
  from Cons.IH [OF g(2)] m show ?case by (auto simp: nth_Cons split: nat.split)
qed simp

lemma between_turns_restored: "between_turns h \<Longrightarrow> roles_alternate h \<and> even (length h)"
  using between_turns_roles [of "FromUser []" h "FromUser []"] by (auto simp: between_turns_def roles_alternate_def list_all_iff)


subsection \<open>What a conversation guarantees\<close>

text \<open>
  C7: The service is only ever sent a conversation it can go on from: in whatever way turns end, are stopped, fail,
  call tools, are summarised, forgotten and picked up again, every request ends with the user's turn, the turns
  alternate, no answer in it is empty and each call has its result right after it; and between turns the
  conversation is one a later session takes up again.
\<close>

theorem the_service_is_sent_whole_conversations:
  assumes "conv_reachable s"
  shows "(\<forall>r. Requested r \<in> set (cv_log s) \<longrightarrow> to_answer (rq_messages r)) \<and> between_turns (cv_history s) \<and>
    restore (cv_history s) (cv_settled s) t = Ok (t\<lparr>cv_history := cv_history s, cv_settled := cv_settled s\<rparr>)"
  using conv_reachable_inv [OF assms] between_turns_restored by (auto simp: conv_inv_def restore_def)

text \<open>
  C25: A turn without an answer leaves behind what its tools did and nothing else: when none ran, the conversation is
  as it was before the question; when some did, the question stays, with the calls, their results, and a note
  that the turn ended there.
\<close>

theorem an_unanswered_turn_leaves_only_its_tools:
  assumes "conv_reachable s" and "send w q s = (turn, t)" and "turn \<noteq> Answered"
  shows "\<exists>es. cv_log t = es @ cv_log s \<and>
    (if tools_run es = {} then cv_history t = cv_history (snd (prepare w s))
     else \<exists>ms. told_in ms es \<and> reads FromAssistant ms = Some FromAssistant \<and>
       cv_history t = cv_history (snd (prepare w s)) @ [message ''user'' (JStr q)] @ ms @
         [message ''assistant'' (JStr (ended_note (turn = TurnAborted)))])"
proof -
  have "between_turns (cv_history s)" using conv_reachable_inv [OF assms(1)] by (simp add: conv_inv_def)
  with assms(2) show ?thesis
  proof (cases rule: send_cases)
    case (stopped s1)
    from stopped(2) obtain fs where "cv_log s1 = fs @ cv_log s" "tools_run fs = {}" by (auto simp: prepared_def)
    with stopped show ?thesis by (intro exI [of _ "[Told (StatusIs TurnIdle), Told Aborted] @ fs"]) simp
  next
    case (turned s1 ms es)
    from turned(2) obtain fs where fs: "cv_log s1 = fs @ cv_log s" "tools_run fs = {}" by (auto simp: prepared_def)
    have told: "told_in ms (Told (StatusIs TurnIdle) # es @ fs)" using turned(7) fs(2) by (simp add: told_in_def)
    show ?thesis
    proof (intro exI [of _ "Told (StatusIs TurnIdle) # es @ fs"] conjI)
      show "cv_log t = (Told (StatusIs TurnIdle) # es @ fs) @ cv_log s" using turned(4) fs(1) by simp
      show "if tools_run (Told (StatusIs TurnIdle) # es @ fs) = {} then cv_history t = cv_history (snd (prepare w s))
        else \<exists>ms. told_in ms (Told (StatusIs TurnIdle) # es @ fs) \<and> reads FromAssistant ms = Some FromAssistant \<and>
          cv_history t = cv_history (snd (prepare w s)) @ [message ''user'' (JStr q)] @ ms @
            [message ''assistant'' (JStr (ended_note (turn = TurnAborted)))]"
      proof (cases "ms = []")
        case True
        with turned(7) have "tools_run es = {}" by (auto simp: told_in_def)
        with True turned(1,10) fs(2) assms(3) show ?thesis by simp
      next
        case False
        with turned(1,5,8,10) told fs(2) assms(3) show ?thesis by (auto intro: exI [of _ ms])
      qed
    qed
  qed
qed

text \<open>
  C18: What a tool did is kept: however a turn ends, each tool it ran has its result in the conversation, the tool's own
  unless the turn was stopped before it ended; and then too, where the person had said yes to it and it was not a
  command, which is killed.
\<close>

theorem what_a_tool_did_is_kept:
  assumes "conv_reachable s" and "send w q s = (turn, t)" and "cv_log t = es @ cv_log s" and "ToolRan c e \<in> set es"
  shows "\<exists>m \<in> set (cv_history t). \<exists>r. result_block (field ''id'' c) r \<in> set (message_blocks m) \<and>
    (case e of
       Finished own \<Rightarrow> r = own
     | Interrupted said_yes own \<Rightarrow> r = (if said_yes \<and> field ''name'' c \<noteq> ''run_command'' then own else Err stopped_tool))"
proof -
  have "between_turns (cv_history s)" using conv_reachable_inv [OF assms(1)] by (simp add: conv_inv_def)
  with assms(2) have "\<exists>m \<in> set (cv_history t). result_block (field ''id'' c) (tool_outcome (field ''name'' c) e) \<in> set (message_blocks m)"
  proof (cases rule: send_cases)
    case (stopped s1)
    with assms(3,4) show ?thesis by (auto simp: prepared_def tools_run_def)
  next
    case (turned s1 ms fs)
    with assms(3,4) have "(c, e) \<in> tools_run fs" by (auto simp: prepared_def tools_run_def)
    with turned(7) have "\<exists>m \<in> set ms. result_block (field ''id'' c) (tool_outcome (field ''name'' c) e) \<in> set (message_blocks m)"
      by (auto simp: told_in_def)
    with turned(10) show ?thesis by (cases "ms = []") auto
  qed
  then show ?thesis by (elim bexE) (rule bexI [rotated], assumption, auto simp: tool_outcome_def split: tool_end.splits)
qed

text \<open>
  C40: A message is answered or given up within 26 requests: one for a summary, one for each of 24 rounds, and one more
  in the turn in which the service turns out not to know the sizes of models.
\<close>

theorem a_message_costs_at_most_26_requests:
  assumes "conv_reachable s" and "send w q s = (turn, t)"
  shows "\<exists>es. cv_log t = es @ cv_log s \<and> length (requests es) \<le> 26"
proof -
  have "between_turns (cv_history s)" using conv_reachable_inv [OF assms(1)] by (simp add: conv_inv_def)
  with assms(2) show ?thesis
  proof (cases rule: send_cases)
    case (stopped s1)
    then show ?thesis by (auto simp: prepared_def)
  next
    case (turned s1 ms es)
    then show ?thesis by (auto simp: prepared_def)
  qed
qed

text \<open>A summary loses nothing: what it stands for is archived, in order, before what is kept.\<close>

lemma a_summary_loses_nothing:
  "summarise w s = (Some True, t) \<Longrightarrow> cv_archived t @ drop 2 (cv_history t) = cv_archived s @ cv_history s"
  by (auto simp: summarise_def summarised_def rebuilt_def noted_def Let_def split: option.splits sum.splits wire_end.splits if_splits)

subsection \<open>A sample turn\<close>

text \<open>A model that calls a tool in every answer, and a person who says yes to it and then stops the turn.\<close>

definition sample_reading :: "string \<Rightarrow> json option" where
  "sample_reading d =
     (if d = ''call'' then
        Some (JObj [(''type'', JStr ''content_block_start''), (''index'', JUint 0),
          (''content_block'', JObj [(''type'', JStr ''tool_use''), (''id'', JStr ''t1''), (''name'', JStr ''top_up_credit'')])])
      else if d = ''stop'' then Some (JObj [(''type'', JStr ''message_delta''), (''delta'', JObj [(''stop_reason'', JStr ''tool_use'')])])
      else None)"

definition sample_stream :: "string list" where
  "sample_stream = [''data: call'' @ new_line @ new_line @ ''data: st'', ''op'' @ new_line @ new_line]"

definition sample_chat_world :: chat_world where
  "sample_chat_world = \<lparr>wd_system = [], wd_tools = [], wd_quick = (\<lambda>t. False), wd_js = (\<lambda>j. []), wd_parse = sample_reading,
     wd_token = (\<lambda>l. Ok ''token''), wd_wire = (\<lambda>l r. Came (WireReply 200 None [] sample_stream None)),
     wd_tool = (\<lambda>l name input. Interrupted True (Ok ''granted''))\<rparr>"

definition sample_call :: json where
  "sample_call = JObj [(''type'', JStr ''tool_use''), (''id'', JStr ''t1''), (''name'', JStr ''top_up_credit'')]"

definition sample_answer :: answer where
  "sample_answer = answer_default\<lparr>an_content := [sample_call], an_stop_reason := Some ''tool_use''\<rparr>"

lemma sample_events: "sse_push [] (hd sample_stream) = ([(''message'', ''call'')], ''data: st'')"
  "sse_push ''data: st'' (''op'' @ new_line @ new_line) = ([(''message'', ''stop'')], [])"
  by code_simp+

lemma sample_called: "apply_all sample_reading answer_default [(''message'', ''call'')] = ([], Ok (answer_default\<lparr>an_content := [sample_call]\<rparr>))"
  by (simp add: apply_event_def sample_reading_def apply_value_def str_at_def hm_get_def str_or_def set_block_def answer_default_def sample_call_def)


lemma sample_stopped: "apply_all sample_reading (answer_default\<lparr>an_content := [sample_call]\<rparr>) [(''message'', ''stop'')] = ([], Ok sample_answer)"
  by (simp add: apply_event_def sample_reading_def apply_value_def str_at_def hm_get_def str_or_def answer_default_def sample_answer_def)

lemma sample_chat: "chat sample_reading r (WireReply 200 None [] sample_stream None) = ([], Ok sample_answer)"
proof -
  have s: "sample_stream = [hd sample_stream, ''op'' @ new_line @ new_line]" by (simp add: sample_stream_def)
  have "read_chunks sample_reading [] answer_default sample_stream = ([], Ok sample_answer)"
    by (subst s) (simp only: read_chunks.simps sample_events sample_called sample_stopped prod.case sum.case append_Nil)
  then show ?thesis by (simp add: chat_def)
qed

lemma sample_prepare: "prepare sample_chat_world conversation_new = (True, emit (StatusIs TurnRunning) conversation_new)"
  by (simp add: prepare_def compact_due_def history_size_def sample_chat_world_def)

lemma sample_ask:
  assumes "tp_model p = default_model"
  shows "ask sample_chat_world q p s = (Some (Ok sample_answer), p, reached p (noted (Requested (turn_request sample_chat_world p s)) s))"
proof -
  have "wd_wire sample_chat_world (cv_log s) (turn_request sample_chat_world p s) = Came (WireReply 200 None [] sample_stream None)"
    "wd_parse sample_chat_world = sample_reading" by (simp_all add: sample_chat_world_def)
  then show ?thesis by (simp add: ask.simps [of sample_chat_world q p s] Let_def sample_chat sizes_unknown_def streamed_def)
qed

lemma sample_kept: "filter is_call (kept_blocks sample_answer) = [sample_call]" "an_stop_reason sample_answer = Some ''tool_use''"
  by (simp_all add: kept_blocks_def sample_answer_def sample_call_def is_call_def str_at_def hm_get_def answer_default_def)

lemma sample_tools:
  "\<exists>es. call_tools sample_chat_world [sample_call] False s = ([result_block ''t1'' (Ok ''granted'')], True, s\<lparr>cv_log := es @ cv_log s\<rparr>) \<and>
     ToolRan sample_call (Interrupted True (Ok ''granted'')) \<in> set es"
proof -
  have w: "wd_tool sample_chat_world l n i = Interrupted True (Ok ''granted'')" for l n i by (simp add: sample_chat_world_def)
  have f: "field ''id'' sample_call = ''t1''" "field ''name'' sample_call = ''top_up_credit''"
    by (simp_all add: sample_call_def field_def str_at_def hm_get_def str_or_def)
  show ?thesis
    by (rule exI [of _ "[Told (ToolResult ''t1'' True ''granted''), Told ToolProgress, ToolRan sample_call (Interrupted True (Ok ''granted'')),
          Told (ToolUseStart ''t1'' ''top_up_credit'' (call_input sample_call))]"])
      (simp add: call_tool_def w f Let_def is_interrupted_def tool_outcome_def waited_for_def emit_def noted_def outcome_text_def)
qed

lemma sample_turn:
  "\<exists>t es. send sample_chat_world ''buy'' conversation_new = (TurnAborted, t) \<and> cv_log t = es @ cv_log conversation_new \<and>
     ToolRan sample_call (Interrupted True (Ok ''granted'')) \<in> set es"
proof -
  let ?s = "push (message ''user'' (JStr ''buy'')) (emit (StatusIs TurnRunning) conversation_new)"
  let ?p = "policy_for sample_chat_world ''buy'' False"
  have p: "tp_model ?p = default_model" by (simp add: policy_for_def sample_chat_world_def)
  have token: "wd_token sample_chat_world l = Ok ''token''" for l by (simp add: sample_chat_world_def)
  let ?s1 = "reached ?p (noted (Requested (turn_request sample_chat_world ?p (?s\<lparr>cv_turn_token := Some ''token''\<rparr>))) (?s\<lparr>cv_turn_token := Some ''token''\<rparr>))"
  obtain es where tools: "call_tools sample_chat_world [sample_call] False (after_answer sample_answer ?s1) =
      ([result_block ''t1'' (Ok ''granted'')], True, (after_answer sample_answer ?s1)\<lparr>cv_log := es @ cv_log (after_answer sample_answer ?s1)\<rparr>)"
    and ran: "ToolRan sample_call (Interrupted True (Ok ''granted'')) \<in> set es" using sample_tools by blast
  let ?s2 = "emit Aborted (push (message ''user'' (JArr [result_block ''t1'' (Ok ''granted'')]))
    ((after_answer sample_answer ?s1)\<lparr>cv_log := es @ cv_log (after_answer sample_answer ?s1)\<rparr>))"
  have "run_rounds (Suc 23) sample_chat_world ''buy'' ?p ?s = (TurnAborted, ?s2)"
    by (subst run_rounds.simps(2)) (simp add: token sample_ask [OF p] sample_kept Let_def tools del: call_tools.simps)
  moreover have "max_rounds = Suc 23" by (simp add: max_rounds_def)
  moreover have "\<not> cv_settled ?s" "\<not> cv_sizes_refused ?s" by (simp_all add: conversation_new_def push_def emit_def noted_def)
  ultimately have "run_turn sample_chat_world ''buy'' ?s = (TurnAborted, ?s2)"
    unfolding run_turn_def Let_def by (simp only: simp_thms if_False)
  then have "send sample_chat_world ''buy'' conversation_new =
      (TurnAborted, emit (StatusIs TurnIdle) (close_unanswered (length (cv_history (emit (StatusIs TurnRunning) conversation_new))) True ?s2))"
    by (simp only: send_def sample_prepare prod.case bool.case) simp
  moreover have "cv_log conversation_new = []" by (simp add: conversation_new_def)
  ultimately show ?thesis using ran by auto
qed


theorem the_service_is_sent_whole_conversations_witness:
  "between_turns (cv_history (snd (send sample_chat_world ''buy'' conversation_new)))"
  using the_service_is_sent_whole_conversations [OF conv_reachable.sent [OF conv_reachable.fresh]] by blast

theorem an_unanswered_turn_leaves_only_its_tools_witness:
  "\<exists>t. send sample_chat_world ''buy'' conversation_new = (TurnAborted, t) \<and>
     last (cv_history t) = message ''assistant'' (JStr (ended_note True))"
proof -
  obtain t es where t: "send sample_chat_world ''buy'' conversation_new = (TurnAborted, t)" "cv_log t = es @ cv_log conversation_new"
    "ToolRan sample_call (Interrupted True (Ok ''granted'')) \<in> set es" using sample_turn by blast
  from an_unanswered_turn_leaves_only_its_tools [OF conv_reachable.fresh t(1)] obtain fs where fs: "cv_log t = fs @ cv_log conversation_new"
    "if tools_run fs = {} then cv_history t = cv_history (snd (prepare sample_chat_world conversation_new))
     else \<exists>ms. told_in ms fs \<and> reads FromAssistant ms = Some FromAssistant \<and>
       cv_history t = cv_history (snd (prepare sample_chat_world conversation_new)) @ [message ''user'' (JStr ''buy'')] @ ms @
         [message ''assistant'' (JStr (ended_note (TurnAborted = TurnAborted)))]" by auto
  from fs(1) t(2,3) have "tools_run fs \<noteq> {}" by (auto simp: tools_run_def)
  with fs(2) t(1) show ?thesis by auto
qed

theorem what_a_tool_did_is_kept_witness:
  "\<exists>t m. send sample_chat_world ''buy'' conversation_new = (TurnAborted, t) \<and> m \<in> set (cv_history t) \<and>
     result_block ''t1'' (Ok ''granted'') \<in> set (message_blocks m)"
proof -
  obtain t es where t: "send sample_chat_world ''buy'' conversation_new = (TurnAborted, t)" "cv_log t = es @ cv_log conversation_new"
    "ToolRan sample_call (Interrupted True (Ok ''granted'')) \<in> set es" using sample_turn by blast
  have "field ''id'' sample_call = ''t1''" "field ''name'' sample_call \<noteq> ''run_command''"
    by (simp_all add: sample_call_def field_def str_at_def hm_get_def str_or_def)
  with what_a_tool_did_is_kept [OF conv_reachable.fresh t] t(1) show ?thesis by auto
qed

theorem a_message_costs_at_most_26_requests_witness:
  "\<exists>t es. send sample_chat_world ''buy'' conversation_new = (TurnAborted, t) \<and> cv_log t = es @ cv_log conversation_new \<and> length (requests es) \<le> 26"
  using sample_turn a_message_costs_at_most_26_requests [OF conv_reachable.fresh] by blast

end
