(* ===== verification/Commands.thy ===== *)
theory Commands
  imports Json Texts
begin

text \<open>
  Commands the assistant runs on the person's own computer, \<open>commands.rs\<close> of erpc-ai: which only look and run at
  once, what the person is shown of the others, what they may allow, and what is passed on of the output. The
  shell that runs them is an input, on a system that is not Windows.
\<close>

subsection \<open>What only looks\<close>

definition versioned :: "string list" where
  "versioned = [''agave-validator'', ''curl'', ''docker'', ''erpc'', ''fdctl'', ''git'', ''jq'', ''solana'', ''solana-keygen'']"

definition readable_files :: "string list" where
  "readable_files = [''/etc/hostname'', ''/etc/lsb-release'', ''/etc/os-release'', ''/proc/cpuinfo'', ''/proc/loadavg'',
     ''/proc/meminfo'', ''/proc/uptime'', ''/proc/version'']"

definition erpc_verbs :: "string list list" where
  "erpc_verbs = [[''worker'', ''check''], [''worker'', ''list''], [''worker'', ''status''], [''worker'', ''logs''],
     [''worker'', ''releases''], [''worker'', ''key'', ''show''], [''worker'', ''key'', ''balance''],
     [''worker'', ''secret'', ''list''], [''worker'', ''firewall'', ''list''], [''worker'', ''backup'', ''status'']]"

definition erpc_with_value :: "string list" where
  "erpc_with_value = [''--dir'', ''--env'', ''-e'', ''-n'', ''--lines'', ''--lang'']"

definition is_help :: "string \<Rightarrow> bool" where "is_help w = (w = ''--help'' \<or> w = ''-h'')"

definition continues_verb :: "string list \<Rightarrow> string \<Rightarrow> bool" where
  "continues_verb verb w =
     (length verb < 3 \<and> list_ex (\<lambda>v. take (length verb) v = verb \<and> length verb < length v \<and> v ! length verb = w) erpc_verbs)"

text \<open>The words up to a verb: whether it is a look already, or the verb and the words after it.\<close>

fun erpc_head :: "string list \<Rightarrow> string list \<Rightarrow> bool + string list \<times> string list" where
  "erpc_head verb [] = Inr (verb, [])"
| "erpc_head verb (w # ws) =
     (if w = ''--lang'' then (case ws of [] \<Rightarrow> Inr (verb, []) | _ # rest \<Rightarrow> erpc_head verb rest)
      else if starts_with w ''--lang='' then erpc_head verb ws
      else if continues_verb verb w then
        (if verb @ [w] \<in> set erpc_verbs then Inr (verb @ [w], ws) else erpc_head (verb @ [w]) ws)
      else Inl (is_help w \<and> (verb = [] \<or> hd verb = ''worker'')))"

fun erpc_tail :: "bool \<Rightarrow> string list \<Rightarrow> bool" where
  "erpc_tail named [] = True"
| "erpc_tail named (w # ws) =
     (if w \<in> set erpc_with_value then (case ws of [] \<Rightarrow> False | v # rest \<Rightarrow> \<not> starts_with v ''-'' \<and> erpc_tail named rest)
      else (case split_once (CHR ''='') w of
              Some (flag, _) \<Rightarrow> flag \<in> set erpc_with_value \<and> erpc_tail named ws
            | None \<Rightarrow>
                if w = ''--json'' \<or> is_help w then erpc_tail named ws
                else if starts_with w ''-'' \<or> named then False
                else erpc_tail True ws))"

definition erpc_looks :: "string list \<Rightarrow> bool" where
  "erpc_looks args =
     (case erpc_head [] (filter (\<lambda>a. a \<noteq> ''--json'') args) of
        Inl look \<Rightarrow> look
      | Inr (verb, tail) \<Rightarrow> verb \<in> set erpc_verbs \<and> erpc_tail False tail)"

text \<open>\<open>str::parse\<close> of an \<open>i64\<close>.\<close>

definition parses_i64 :: "string \<Rightarrow> bool" where
  "parses_i64 s =
     (case s of
        [] \<Rightarrow> False
      | c # cs \<Rightarrow>
          if c = CHR ''-'' then cs \<noteq> [] \<and> list_all is_digit cs \<and> digits_value cs \<le> 2 ^ 63
          else parse_upto (2 ^ 63 - 1) s \<noteq> None)"

definition sysctl_name :: "string \<Rightarrow> bool" where
  "sysctl_name name =
     (\<not> has_text ''key'' (map to_ascii_lower name) \<and>
      (case name of [] \<Rightarrow> False | c # _ \<Rightarrow> is_ascii_alphanumeric c \<and> \<not> is_digit c) \<and>
      list_all (\<lambda>w. w \<noteq> [] \<and> list_all (\<lambda>c. is_ascii_alphanumeric c \<or> c = CHR ''_'' \<or> c = CHR ''-'') w) (split_on (CHR ''.'') name))"

text \<open>The name of a long option with its value attached.\<close>

definition long_name :: "string \<Rightarrow> string option" where
  "long_name a = (if starts_with a ''--'' then map_option fst (split_once (CHR ''='') a) else None)"

fun positionals :: "string list \<Rightarrow> string list \<Rightarrow> string list \<Rightarrow> string list option" where
  "positionals plain valued [] = Some []"
| "positionals plain valued (a # as) =
     (if \<not> starts_with a ''-'' \<or> a = ''-'' then map_option ((#) a) (positionals plain valued as)
      else if a \<in> set valued then
        (case as of
           [] \<Rightarrow> Some []
         | v # rest \<Rightarrow> if \<not> starts_with v ''-'' \<or> parses_i64 v then positionals plain valued rest else positionals plain valued as)
      else if a \<in> set plain \<or> (case long_name a of Some n \<Rightarrow> n \<in> set valued | None \<Rightarrow> False) then positionals plain valued as
      else None)"

definition du_long :: "string list" where
  "du_long = [''--summarize'', ''--human-readable'', ''--total'', ''--one-file-system'', ''--all'', ''--si'', ''--apparent-size'']"

fun du_looks :: "string list \<Rightarrow> bool" where
  "du_looks [] = True"
| "du_looks (a # as) =
     (if a = ''-d'' \<or> a = ''--max-depth'' then
        (case as of [] \<Rightarrow> False | n # rest \<Rightarrow> parse_upto u32_max n \<noteq> None \<and> du_looks rest)
      else
        (case strip_prefix ''--max-depth='' a of
           Some depth \<Rightarrow> parse_upto u32_max depth \<noteq> None
         | None \<Rightarrow>
             if starts_with a ''--'' then a \<in> set du_long
             else (case strip_prefix ''-'' a of
                     Some letters \<Rightarrow> letters \<noteq> [] \<and> list_all (\<lambda>c. c \<in> set ''achkmsx'') letters
                   | None \<Rightarrow> True)) \<and> du_looks as)"

definition curl_flags :: "string list" where
  "curl_flags = [''-4'', ''-6'', ''-s'', ''-S'', ''-f'', ''-sS'', ''-fsS'', ''-sSf'', ''--silent'', ''--show-error'', ''--fail'',
     ''--ipv4'', ''--ipv6'']"

definition address_echo_hosts :: "string list" where
  "address_echo_hosts = [''api.ipify.org'', ''api64.ipify.org'', ''checkip.amazonaws.com'', ''icanhazip.com'', ''ifconfig.co'', ''ifconfig.me'']"

definition url_host :: "string \<Rightarrow> string" where
  "url_host url =
     (let rest = (case strip_prefix ''https://'' url of
          Some r \<Rightarrow> r
        | None \<Rightarrow> (case strip_prefix ''http://'' url of Some r \<Rightarrow> r | None \<Rightarrow> url))
      in case strip_suffix ''/'' rest of Some h \<Rightarrow> h | None \<Rightarrow> rest)"

definition curl_looks :: "string list \<Rightarrow> bool" where
  "curl_looks args =
     (case args of
        [] \<Rightarrow> False
      | q # rest \<Rightarrow> q = ''-q'' \<and>
          (case filter (\<lambda>a. a \<notin> set curl_flags) rest of [url] \<Rightarrow> url_host url \<in> set address_echo_hosts | _ \<Rightarrow> False))"

definition ip_flags :: "string list" where
  "ip_flags = [''-4'', ''-6'', ''-br'', ''-brief'', ''-s'', ''-stats'', ''-d'', ''-details'', ''-j'', ''-json'', ''-p'', ''-pretty'', ''-o'',
     ''-oneline'', ''-c'', ''-color'']"

definition ip_objects :: "string list" where
  "ip_objects = [''a'', ''addr'', ''address'', ''r'', ''route'', ''l'', ''link'', ''n'', ''neigh'', ''neighbor'', ''neighbour'', ''rule'',
     ''maddr'', ''maddress'']"

definition ip_looks :: "string list \<Rightarrow> bool" where
  "ip_looks args =
     (case dropWhile (\<lambda>a. a \<in> set ip_flags) args of
        [] \<Rightarrow> False
      | [object] \<Rightarrow> object \<in> set ip_objects
      | object # verb # rest \<Rightarrow>
          object \<in> set ip_objects \<and> verb \<in> {''show'', ''list'', ''get''} \<and> list_all (\<lambda>a. \<not> starts_with a ''-'') rest)"

definition ss_long :: "string list" where
  "ss_long = [''--all'', ''--listening'', ''--tcp'', ''--udp'', ''--unix'', ''--raw'', ''--numeric'', ''--processes'', ''--extended'', ''--info'',
     ''--memory'', ''--summary'', ''--options'', ''--ipv4'', ''--ipv6'', ''--no-header'']"

definition ss_looks :: "string list \<Rightarrow> bool" where
  "ss_looks args =
     list_all (\<lambda>a. if starts_with a ''--'' then a \<in> set ss_long
       else (case strip_prefix ''-'' a of
               Some letters \<Rightarrow> letters \<noteq> [] \<and> list_all (\<lambda>c. c \<in> set ''atulnpxeimosH46w0S'') letters
             | None \<Rightarrow> True)) args"

definition short_formats :: "string list" where
  "short_formats = [''short'', ''short-full'', ''short-iso'', ''short-iso-precise'', ''short-precise'', ''short-monotonic'', ''short-unix'', ''cat'',
     ''with-unit'']"

fun plain_output :: "string list \<Rightarrow> bool" where
  "plain_output [] = True"
| "plain_output (a # as) =
     ((if a = ''-o'' \<or> a = ''--output'' then (case as of [] \<Rightarrow> False | v # _ \<Rightarrow> v \<in> set short_formats)
       else (case strip_prefix ''--output='' a of Some v \<Rightarrow> v \<in> set short_formats | None \<Rightarrow> True)) \<and> plain_output as)"

definition systemctl_verbs :: "string list" where
  "systemctl_verbs = [''status'', ''is-active'', ''is-enabled'', ''is-failed'', ''list-units'', ''list-unit-files'', ''list-timers'']"

definition systemctl_plain :: "string list" where
  "systemctl_plain = [''--no-pager'', ''--all'', ''-a'', ''-l'', ''--full'', ''--failed'', ''--plain'', ''--no-legend'', ''--user'', ''--system'',
     ''-q'', ''--quiet'']"

definition systemctl_valued :: "string list" where
  "systemctl_valued = [''-n'', ''--lines'', ''-t'', ''--type'', ''--state'', ''-o'', ''--output'']"

definition systemctl_looks :: "string list \<Rightarrow> bool" where
  "systemctl_looks args =
     (plain_output args \<and>
      (case positionals systemctl_plain systemctl_valued args of Some (v # _) \<Rightarrow> v \<in> set systemctl_verbs | _ \<Rightarrow> False))"

definition journalctl_plain :: "string list" where
  "journalctl_plain = [''--no-pager'', ''-r'', ''--reverse'', ''-k'', ''--dmesg'', ''-q'', ''--quiet'', ''-x'', ''--catalog'', ''-e'', ''--pager-end'',
     ''--utc'', ''--no-hostname'', ''-a'', ''--all'', ''--system'', ''--user'', ''--list-boots'', ''--disk-usage'']"

definition journalctl_valued :: "string list" where
  "journalctl_valued = [''-u'', ''--unit'', ''--user-unit'', ''-n'', ''--lines'', ''-p'', ''--priority'', ''-o'', ''--output'', ''-S'', ''--since'',
     ''-U'', ''--until'', ''-t'', ''--identifier'', ''-g'', ''--grep'', ''-b'', ''--boot'']"

definition journalctl_looks :: "string list \<Rightarrow> bool" where
  "journalctl_looks args = (plain_output args \<and> positionals journalctl_plain journalctl_valued args \<noteq> None)"

definition docker_elsewhere :: "string list" where
  "docker_elsewhere = [''-H'', ''--host'', ''-c'', ''--context'', ''--config'', ''--tls'']"

definition docker_looks :: "string list \<Rightarrow> bool" where
  "docker_looks args =
     (if list_ex (\<lambda>a. list_ex (starts_with a) docker_elsewhere) args then False
      else (case args of
              [] \<Rightarrow> False
            | sub # rest \<Rightarrow>
                if sub = ''ps'' \<or> sub = ''images'' then \<not> list_ex (\<lambda>a. starts_with a ''--no-trunc'' \<or> starts_with a ''--format'') rest
                else if sub = ''version'' \<or> sub = ''info'' then True
                else if sub = ''stats'' then ''--no-stream'' \<in> set rest
                else if sub = ''logs'' then
                  \<not> list_ex (\<lambda>a. starts_with a ''--follow'' \<or> (starts_with a ''-'' \<and> \<not> starts_with a ''--'' \<and> CHR ''f'' \<in> set a)) rest
                else False))"

definition solana_reads :: "string list" where
  "solana_reads = [''account'', ''address'', ''balance'', ''block-height'', ''block-production'', ''block-time'', ''cluster-version'', ''epoch'',
     ''epoch-info'', ''genesis-hash'', ''gossip'', ''inflation'', ''leader-schedule'', ''slot'', ''stake-account'', ''stakes'', ''supply'',
     ''transaction-count'', ''validators'', ''vote-account'']"

definition solana_values :: "string \<Rightarrow> string list option" where
  "solana_values name =
     (if name = ''-u'' \<or> name = ''--url'' then
        Some [''m'', ''mainnet-beta'', ''t'', ''testnet'', ''d'', ''devnet'', ''l'', ''localhost'']
      else if name = ''--output'' then Some [''json'', ''json-compact'', ''display'']
      else if name = ''--commitment'' then Some [''processed'', ''confirmed'', ''finalized'']
      else None)"

text \<open>The words that are no options, when each option has a value it may have.\<close>

fun solana_words :: "string list \<Rightarrow> string list option" where
  "solana_words [] = Some []"
| "solana_words (a # as) =
     (if \<not> starts_with a ''-'' then map_option ((#) a) (solana_words as)
      else if a = ''--lamports'' then solana_words as
      else
        (case (if starts_with a ''--'' then split_once (CHR ''='') a else None) of
           Some (name, v) \<Rightarrow>
            (case solana_values name of Some vs \<Rightarrow> if v \<in> set vs then solana_words as else None | None \<Rightarrow> None)
         | None \<Rightarrow>
            (case (solana_values a, as) of
               (Some vs, v # rest) \<Rightarrow> if v \<in> set vs then solana_words rest else None
             | _ \<Rightarrow> None)))"

definition solana_looks :: "string list \<Rightarrow> bool" where
  "solana_looks args = (case solana_words args of Some (sub # _) \<Rightarrow> sub \<in> set solana_reads | _ \<Rightarrow> False)"

definition date_looks :: "string list \<Rightarrow> bool" where
  "date_looks args =
     list_all (\<lambda>a. starts_with a ''+'' \<or> a \<in> {''-u'', ''--utc'', ''-R'', ''--rfc-email''} \<or> starts_with a ''-I'' \<or>
       starts_with a ''--iso-8601'' \<or> starts_with a ''--rfc-3339='') args"

definition sysctl_looks :: "string list \<Rightarrow> bool" where
  "sysctl_looks args =
     (let names = dropWhile (\<lambda>a. a \<in> {''-n'', ''-N'', ''-e''}) args in names \<noteq> [] \<and> list_all sysctl_name names)"

definition looks_alone :: "string list" where
  "looks_alone = [''df'', ''free'', ''id'', ''ls'', ''lsb_release'', ''nproc'', ''pwd'', ''sw_vers'', ''uname'', ''uptime'', ''vm_stat'', ''which'', ''whoami'']"

definition program_looks :: "string \<Rightarrow> string list \<Rightarrow> bool" where
  "program_looks p args =
     (if p = ''erpc'' then erpc_looks args
      else if p \<in> set looks_alone then True
      else if p = ''du'' then du_looks args
      else if p = ''lsblk'' \<or> p = ''lscpu'' then \<not> list_ex (\<lambda>a. starts_with a ''--sysroot'' \<or> a = ''-s'') args
      else if p = ''arch'' then args = []
      else if p = ''hostname'' then args = [] \<or> args = [''-I'']
      else if p = ''date'' then date_looks args
      else if p = ''sysctl'' then sysctl_looks args
      else if p = ''timedatectl'' \<or> p = ''hostnamectl'' then args = [] \<or> args = [''status'']
      else if p = ''cat'' then args \<noteq> [] \<and> list_all (\<lambda>a. a \<in> set readable_files) args
      else if p = ''curl'' then curl_looks args
      else if p = ''ip'' then ip_looks args
      else if p = ''ss'' then ss_looks args
      else if p = ''systemctl'' then systemctl_looks args
      else if p = ''journalctl'' then journalctl_looks args
      else if p = ''docker'' then docker_looks args
      else if p = ''solana'' then solana_looks args
      else False)"

definition only_looks :: "string list \<Rightarrow> bool" where
  "only_looks command =
     (case command of
        [] \<Rightarrow> False
      | p # args \<Rightarrow> args = [''--version''] \<and> p \<in> set versioned \<or> program_looks p args)"

subsection \<open>What is shown\<close>

definition char_hidden :: "nat \<Rightarrow> bool" where
  "char_hidden c =
     (c = 0xAD \<or> c = 0x34F \<or> c = 0x61C \<or> c = 0x180E \<or> 0x200B \<le> c \<and> c \<le> 0x200F \<or> 0x2028 \<le> c \<and> c \<le> 0x202E \<or>
      0x2060 \<le> c \<and> c \<le> 0x206F \<or> 0xFE00 \<le> c \<and> c \<le> 0xFE0F \<or> c = 0xFEFF \<or> 0xE0000 \<le> c \<and> c \<le> 0xE0FFF)"

definition char_control :: "nat \<Rightarrow> bool" where "char_control c = (c < 32 \<or> 127 \<le> c \<and> c < 160)"

definition char_escape :: "string \<Rightarrow> string" where
  "char_escape u = [CHR 0x5C, CHR ''u'', CHR ''{''] @ lower_hex (code_point u) @ [CHR ''}'']"

definition quote_char :: "string \<Rightarrow> string" where
  "quote_char u =
     (if u = [CHR 0x27] then [CHR 0x27, CHR 0x5C, CHR 0x27, CHR 0x27]
      else if u = [CHR 0x5C] then [CHR 0x5C, CHR 0x5C]
      else if char_control (code_point u) \<or> char_hidden (code_point u) then char_escape u
      else u)"

definition plain_char :: "char \<Rightarrow> bool" where
  "plain_char c = (is_ascii_alphanumeric c \<or> c \<in> set ''-_./=:,+@%^'')"

definition quote_arg :: "string \<Rightarrow> string" where
  "quote_arg a =
     (if a \<noteq> [] \<and> list_all plain_char a then a
      else [CHR 0x27] @ concat (map quote_char (utf8_chars a)) @ [CHR 0x27])"

definition shown :: "string list \<Rightarrow> string" where "shown argv = join_with '' '' (map quote_arg argv)"

definition script_char :: "string \<Rightarrow> string" where
  "script_char u =
     (if u = [CHR 0x5C] then [CHR 0x5C, CHR 0x5C]
      else if u = [CHR 0x0A] then [CHR 0x5C, CHR ''n'']
      else if u = [CHR 0x09] then [CHR 0x5C, CHR ''t'']
      else if char_control (code_point u) \<or> char_hidden (code_point u) then char_escape u
      else u)"

definition shown_script :: "string \<Rightarrow> string" where "shown_script s = concat (map script_char (utf8_chars s))"

subsection \<open>What is passed on\<close>

text \<open>\<open>str::find\<close>.\<close>

fun find_text :: "string \<Rightarrow> string \<Rightarrow> nat option" where
  "find_text p [] = (if p = [] then Some 0 else None)"
| "find_text p (c # cs) = (if starts_with (c # cs) p then Some 0 else map_option Suc (find_text p cs))"

definition secret_keys :: "string list" where
  "secret_keys = [''api-key='', ''api_key='', ''apikey='', ''token='']"

definition first_key_end :: "string \<Rightarrow> nat option" where
  "first_key_end t =
     (case List.map_filter (\<lambda>k. map_option (\<lambda>i. i + length k) (find_text k (map to_ascii_lower t))) secret_keys of
        [] \<Rightarrow> None
      | e # es \<Rightarrow> Some (foldr min es e))"

text \<open>\<open>char::is_whitespace\<close> beyond ASCII: U+0085, U+00A0, U+1680, U+2000 to U+200A, U+2028, U+2029, U+202F, U+205F, U+3000.\<close>

definition wide_space_at :: "string \<Rightarrow> bool" where
  "wide_space_at s =
     (case map byte_of (take 3 s) of
        [a, b] \<Rightarrow> a = 0xC2 \<and> (b = 0x85 \<or> b = 0xA0)
      | [a, b, c] \<Rightarrow>
          a = 0xC2 \<and> (b = 0x85 \<or> b = 0xA0) \<or> [a, b, c] = [0xE1, 0x9A, 0x80] \<or>
          a = 0xE2 \<and> b = 0x80 \<and> (0x80 \<le> c \<and> c \<le> 0x8A \<or> c = 0xA8 \<or> c = 0xA9 \<or> c = 0xAF) \<or>
          [a, b, c] = [0xE2, 0x81, 0x9F] \<or> [a, b, c] = [0xE3, 0x80, 0x80]
      | _ \<Rightarrow> False)"

definition space_char :: "string \<Rightarrow> bool" where
  "space_char u = ((case u of [c] \<Rightarrow> is_space c | _ \<Rightarrow> False) \<or> wide_space_at u)"

definition ends_secret :: "char \<Rightarrow> bool" where
  "ends_secret c = (is_space c \<or> c \<in> {CHR ''&'', CHR 0x22, CHR 0x27} \<union> set ''<>()[],;'')"

fun after_secret :: "string \<Rightarrow> string" where
  "after_secret [] = []"
| "after_secret (c # cs) = (if ends_secret c \<or> wide_space_at (c # cs) then c # cs else after_secret cs)"

lemma after_secret_length: "length (after_secret s) \<le> length s"
  by (induction s) auto

lemma find_text_le: "find_text p s = Some i \<Longrightarrow> i + length p \<le> length s"
  by (induction s arbitrary: i) (auto simp: starts_with_iff split: if_splits dest!: arg_cong [where f = length])

lemma foldr_min_in: "foldr min es e \<in> set (e # es)"
  by (induction es) (auto simp: min_def)

lemma key_end_cases:
  assumes "first_key_end t = Some n"
  obtains k i where "k \<in> set secret_keys" "find_text k (map to_ascii_lower t) = Some i" "n = i + length k"
proof -
  let ?ends = "List.map_filter (\<lambda>k. map_option (\<lambda>i. i + length k) (find_text k (map to_ascii_lower t))) secret_keys"
  from assms obtain e es where "?ends = e # es" "n = foldr min es e" by (auto simp: first_key_end_def split: list.splits)
  then have "n \<in> set ?ends" using foldr_min_in [of es e] by simp
  then show thesis using that by (auto simp: map_filter_def)
qed

lemma key_end_bounds: "first_key_end t = Some n \<Longrightarrow> 0 < n \<and> n \<le> length t"
proof -
  assume "first_key_end t = Some n"
  then obtain k i where k: "k \<in> set secret_keys" "find_text k (map to_ascii_lower t) = Some i" "n = i + length k" by (rule key_end_cases)
  from k(1) have "k \<noteq> []" by (auto simp: secret_keys_def)
  with k(3) find_text_le [OF k(2)] show ?thesis by auto
qed

function redacted :: "string \<Rightarrow> string" where
  "redacted t =
     (case first_key_end t of
        None \<Rightarrow> t
      | Some n \<Rightarrow> take n t @ ''REDACTED'' @ redacted (after_secret (drop n t)))"
  by pat_completeness auto
termination
proof (relation "measure length", goal_cases)
  case (2 t n)
  have "length (after_secret (drop n t)) \<le> length (drop n t)" by (rule after_secret_length)
  with key_end_bounds [OF 2] show ?case by auto
qed simp

declare redacted.simps [simp del]

subsection \<open>Running a command\<close>

definition max_args :: nat where "max_args = 64"
definition max_chars :: nat where "max_chars = 16 * 1024"
definition look_limit :: duration where "look_limit = from_secs 30"
definition agreed_limit :: duration where "agreed_limit = from_secs 300"

datatype run_error =
    NotTheScript | ScriptTooLong | ArgvNotStrings | CommandTooLong | HoldsNul | NeitherOrBoth | NoShellHere | NoOneToAsk | SaidNo
  | ShellFailed string

record asked =
  as_argv :: "string list"
  as_shown :: string
  as_script :: bool

definition strings_in :: "json list \<Rightarrow> string list" where "strings_in js = List.map_filter as_str js"

definition argv_of :: "json \<Rightarrow> run_error + string list" where
  "argv_of input =
     (let items = (case Option.bind (jget ''argv'' input) as_array of Some js \<Rightarrow> js | None \<Rightarrow> []); argv = strings_in items
      in if argv = [] \<or> length argv \<noteq> length items \<or> hd argv = [] then Err ArgvNotStrings
         else if length argv > max_args \<or> sum_list (map (\<lambda>a. length (utf8_chars a)) argv) > max_chars then Err CommandTooLong
         else if list_ex (\<lambda>a. CHR 0x00 \<in> set a) argv then Err HoldsNul
         else Ok argv)"

definition asked_of :: "json \<Rightarrow> run_error + asked" where
  "asked_of input =
     (case (jget ''argv'' input, jget ''shell'' input) of
        (Some _, None) \<Rightarrow> and_then (argv_of input) (\<lambda>argv. Ok \<lparr>as_argv = argv, as_shown = shown argv, as_script = False\<rparr>)
      | (None, Some script) \<Rightarrow>
         (case as_str script of
            None \<Rightarrow> Err NotTheScript
          | Some s \<Rightarrow>
              if list_all space_char (utf8_chars s) then Err NotTheScript
              else if length (utf8_chars s) > max_chars \<or> CHR 0x00 \<in> set s then Err ScriptTooLong
              else Ok \<lparr>as_argv = [''sh'', ''-c'', s], as_shown = shown_script s, as_script = True\<rparr>)
      | _ \<Rightarrow> Err NeitherOrBoth)"

record allowed =
  al_commands :: "string list list"
  al_everything :: bool

definition allowed_new :: allowed where "allowed_new = \<lparr>al_commands = [], al_everything = False\<rparr>"

definition covers :: "allowed \<Rightarrow> asked \<Rightarrow> bool" where
  "covers a q = (al_everything a \<or> as_argv q \<in> set (al_commands a))"

definition allow_command :: "string list \<Rightarrow> allowed \<Rightarrow> allowed" where
  "allow_command c a = (if c \<in> set (al_commands a) then a else a\<lparr>al_commands := al_commands a @ [c]\<rparr>)"

datatype allow = AllowNo | AllowOnce | AllowAlways | AllowEverything

record ran =
  rn_status :: "int option"
  rn_stdout :: string
  rn_stderr :: string
  rn_truncated :: bool
  rn_timed_out :: bool

text \<open>What went before, newest first: a command shown, whether as a script, with the answer; the second question; what ran.\<close>

datatype command_event =
    Shown bool string allow
  | MadeSure bool
  | Ran "string list" duration
  | AllCleared

record command_desk =
  dk_allowed :: allowed
  dk_log :: "command_event list"

text \<open>The person, if someone can be asked, whether what is allowed has a place to be kept, and the shell, if there is one, with what it makes of a command.\<close>

record command_world =
  cw_person :: "(bool \<Rightarrow> string \<Rightarrow> allow) option"
  cw_sure :: bool
  cw_keeps :: bool
  cw_shell :: "(string list \<Rightarrow> duration \<Rightarrow> string + ran) option"

definition desk_note :: "command_event \<Rightarrow> command_desk \<Rightarrow> command_desk" where
  "desk_note e d = d\<lparr>dk_log := e # dk_log d\<rparr>"

definition run_now :: "(string list \<Rightarrow> duration \<Rightarrow> string + ran) \<Rightarrow> asked \<Rightarrow> duration \<Rightarrow> command_desk \<Rightarrow> (run_error + json) \<times> command_desk" where
  "run_now shell q limit d =
     (case shell (as_argv q) limit of
        Inl why \<Rightarrow> (Err (ShellFailed why), desk_note (Ran (as_argv q) limit) d)
      | Inr r \<Rightarrow>
          (Ok (JObj [(''command'', JStr (as_shown q)),
             (''exitCode'', case rn_status r of None \<Rightarrow> JNull | Some n \<Rightarrow> if n < 0 then JNeg n else JUint (nat n)),
             (''stdout'', JStr (redacted (rn_stdout r))), (''stderr'', JStr (redacted (rn_stderr r))),
             (''truncated'', JBool (rn_truncated r)), (''timedOut'', JBool (rn_timed_out r))]),
           desk_note (Ran (as_argv q) limit) d))"

text \<open>With nowhere to keep it, any yes is to this command.\<close>

definition amounts_to :: "bool \<Rightarrow> allow \<Rightarrow> allow" where
  "amounts_to keeps a = (if keeps \<or> a = AllowNo then a else AllowOnce)"

definition run_command :: "command_world \<Rightarrow> json \<Rightarrow> command_desk \<Rightarrow> (run_error + json) \<times> command_desk" where
  "run_command w input d =
     (case asked_of input of
        Inl e \<Rightarrow> (Err e, d)
      | Inr q \<Rightarrow>
         (case cw_shell w of
            None \<Rightarrow> (Err NoShellHere, d)
          | Some shell \<Rightarrow>
             (let looks = (\<not> as_script q \<and> only_looks (as_argv q)); limit = (if looks then look_limit else agreed_limit)
              in if looks \<or> cw_keeps w \<and> covers (dk_allowed d) q then run_now shell q limit d
                 else
                   (case cw_person w of
                      None \<Rightarrow> (Err NoOneToAsk, d)
                    | Some person \<Rightarrow>
                       (let a = amounts_to (cw_keeps w) (person (as_script q) (as_shown q)); d1 = desk_note (Shown (as_script q) (as_shown q) a) d
                        in case a of
                             AllowNo \<Rightarrow> (Err SaidNo, d1)
                           | AllowOnce \<Rightarrow> run_now shell q limit d1
                           | AllowAlways \<Rightarrow> run_now shell q limit (d1\<lparr>dk_allowed := allow_command (as_argv q) (dk_allowed d1)\<rparr>)
                           | AllowEverything \<Rightarrow>
                               if cw_sure w
                               then run_now shell q limit (desk_note (MadeSure True) (d1\<lparr>dk_allowed := (dk_allowed d1)\<lparr>al_everything := True\<rparr>\<rparr>))
                               else (Err SaidNo, desk_note (MadeSure False) d1))))))"

definition clear_allowed :: "command_desk \<Rightarrow> command_desk" where
  "clear_allowed d = desk_note AllCleared (d\<lparr>dk_allowed := allowed_new\<rparr>)"

definition desk_new :: command_desk where "desk_new = \<lparr>dk_allowed = allowed_new, dk_log = []\<rparr>"

text \<open>Calls with any input in any world, and conversations cleared between them.\<close>

inductive desk_step :: "command_desk \<Rightarrow> command_desk \<Rightarrow> bool" where
  called: "desk_step d (snd (run_command w input d))"
| cleared: "desk_step d (clear_allowed d)"

end
