(* ===== verification/Command_Properties.thy ===== *)
theory Command_Properties
  imports Commands State_Machine
begin

text \<open>
  What running commands guarantees: nothing runs that only looks not and was not agreed to, what a person agrees to
  is one command, and no key in an address is passed on to the model.
\<close>

subsection \<open>What was agreed to\<close>

text \<open>What a person was shown, as a script or not, stands for a command.\<close>

definition stands_for :: "bool \<Rightarrow> string \<Rightarrow> string list \<Rightarrow> bool" where
  "stands_for script t c =
     (if script then (case c of [a, b, s] \<Rightarrow> a = ''sh'' \<and> b = ''-c'' \<and> t = shown_script s | _ \<Rightarrow> False) else t = shown c)"

text \<open>Allowed until all is cleared: this command word for word, or every one, which was made sure of.\<close>

fun kept_for :: "command_event list \<Rightarrow> string list \<Rightarrow> bool" where
  "kept_for [] c = False"
| "kept_for (AllCleared # es) c = False"
| "kept_for (MadeSure yes # es) c =
     (yes \<and> (case es of Shown _ _ AllowEverything # _ \<Rightarrow> True | _ \<Rightarrow> False) \<or> kept_for es c)"
| "kept_for (Shown script t a # es) c = (a = AllowAlways \<and> stands_for script t c \<or> kept_for es c)"
| "kept_for (Ran _ _ # es) c = kept_for es c"

definition agreed_to :: "command_event list \<Rightarrow> string list \<Rightarrow> bool" where
  "agreed_to es c =
     (kept_for es c \<or> (case es of Shown script t a # _ \<Rightarrow> a = AllowOnce \<and> stands_for script t c | _ \<Rightarrow> False))"

fun runs_ok :: "command_event list \<Rightarrow> bool" where
  "runs_ok [] = True"
| "runs_ok (Ran c limit # es) =
     ((only_looks c \<and> limit = look_limit \<or> agreed_to es c \<and> limit = agreed_limit) \<and> runs_ok es)"
| "runs_ok (_ # es) = runs_ok es"

definition desk_inv :: "command_desk \<Rightarrow> bool" where
  "desk_inv d \<longleftrightarrow> runs_ok (dk_log d) \<and>
     (\<forall>c. al_everything (dk_allowed d) \<or> c \<in> set (al_commands (dk_allowed d)) \<longrightarrow> kept_for (dk_log d) c)"

lemma asked_of_stands: "asked_of input = Ok q \<Longrightarrow> stands_for (as_script q) (as_shown q) (as_argv q)"
  by (auto simp: asked_of_def stands_for_def and_then_def split: option.splits sum.splits if_splits)

lemma run_now_log: "\<exists>r. run_now shell q limit d = (r, desk_note (Ran (as_argv q) limit) d)"
  by (auto simp: run_now_def split: sum.splits)

lemma run_now_inv:
  assumes "desk_inv d" "only_looks (as_argv q) \<and> limit = look_limit \<or> agreed_to (dk_log d) (as_argv q) \<and> limit = agreed_limit"
  shows "desk_inv (snd (run_now shell q limit d))"
proof -
  obtain r where "run_now shell q limit d = (r, desk_note (Ran (as_argv q) limit) d)" using run_now_log by blast
  with assms show ?thesis by (simp add: desk_inv_def desk_note_def)
qed

lemma shown_inv: "desk_inv d \<Longrightarrow> desk_inv (desk_note (Shown script t a) d)"
  by (simp add: desk_inv_def desk_note_def)

text \<open>What is asked about: neither on the list nor allowed before.\<close>

lemma run_command_asked:
  assumes "asked_of input = Ok q" "cw_shell w = Some shell" "cw_person w = Some person"
    "\<not> ((\<not> as_script q \<and> only_looks (as_argv q)) \<or> cw_keeps w \<and> covers (dk_allowed d) q)"
  shows "run_command w input d =
    (let a = amounts_to (cw_keeps w) (person (as_script q) (as_shown q)); d1 = desk_note (Shown (as_script q) (as_shown q) a) d
     in case a of
          AllowNo \<Rightarrow> (Err SaidNo, d1)
        | AllowOnce \<Rightarrow> run_now shell q agreed_limit d1
        | AllowAlways \<Rightarrow> run_now shell q agreed_limit (d1\<lparr>dk_allowed := allow_command (as_argv q) (dk_allowed d1)\<rparr>)
        | AllowEverything \<Rightarrow>
            if cw_sure w
            then run_now shell q agreed_limit (desk_note (MadeSure True) (d1\<lparr>dk_allowed := (dk_allowed d1)\<lparr>al_everything := True\<rparr>\<rparr>))
            else (Err SaidNo, desk_note (MadeSure False) d1))"
proof -
  have "(\<not> as_script q \<and> only_looks (as_argv q)) = False" "(cw_keeps w \<and> covers (dk_allowed d) q) = False" using assms(4) by auto
  then show ?thesis using assms(1-3) unfolding run_command_def Let_def by (simp only: sum.case option.case if_False simp_thms)
qed

lemma asked_inv:
  assumes d: "desk_inv d" and stands: "stands_for (as_script q) (as_shown q) (as_argv q)"
  shows "desk_inv (snd (run_now shell q agreed_limit (desk_note (Shown (as_script q) (as_shown q) AllowOnce) d)))" (is ?once)
    and "desk_inv (snd (run_now shell q agreed_limit ((desk_note (Shown (as_script q) (as_shown q) AllowAlways) d)
      \<lparr>dk_allowed := allow_command (as_argv q) (dk_allowed d)\<rparr>)))" (is ?always)
    and "desk_inv (snd (run_now shell q agreed_limit (desk_note (MadeSure True) ((desk_note (Shown (as_script q) (as_shown q) AllowEverything) d)
      \<lparr>dk_allowed := (dk_allowed d)\<lparr>al_everything := True\<rparr>\<rparr>))))" (is ?everything)
proof -
  have "agreed_to (Shown (as_script q) (as_shown q) AllowOnce # dk_log d) (as_argv q)" using stands by (simp add: agreed_to_def)
  then show ?once by (intro run_now_inv [OF shown_inv [OF d]]) (simp add: desk_note_def)
  have "desk_inv ((desk_note (Shown (as_script q) (as_shown q) AllowAlways) d)\<lparr>dk_allowed := allow_command (as_argv q) (dk_allowed d)\<rparr>)"
    using d stands by (auto simp: desk_inv_def allow_command_def desk_note_def)
  then show ?always by (intro run_now_inv) (simp_all add: stands agreed_to_def desk_note_def)
  have "desk_inv (desk_note (MadeSure True) ((desk_note (Shown (as_script q) (as_shown q) AllowEverything) d)
      \<lparr>dk_allowed := (dk_allowed d)\<lparr>al_everything := True\<rparr>\<rparr>))"
    using d by (simp add: desk_inv_def desk_note_def)
  then show ?everything by (intro run_now_inv) (simp_all add: agreed_to_def desk_note_def)
qed

lemma desk_note_allowed [simp]: "dk_allowed (desk_note e d) = dk_allowed d"
  by (simp add: desk_note_def)

lemma run_command_inv:
  assumes "desk_inv d"
  shows "desk_inv (snd (run_command w input d))"
proof (cases "asked_of input")
  case (Inl e)
  with assms show ?thesis by (simp add: run_command_def)
next
  case (Inr q)
  show ?thesis
  proof (cases "cw_shell w")
    case None
    with Inr assms show ?thesis by (simp add: run_command_def)
  next
    case (Some shell)
    let ?looks = "\<not> as_script q \<and> only_looks (as_argv q)"
    consider (free) "?looks \<or> cw_keeps w \<and> covers (dk_allowed d) q" | (none) "\<not> (?looks \<or> cw_keeps w \<and> covers (dk_allowed d) q)" "cw_person w = None"
      | (person) p where "\<not> (?looks \<or> cw_keeps w \<and> covers (dk_allowed d) q)" "cw_person w = Some p" by (cases "cw_person w") auto
    then show ?thesis
    proof cases
      case free
      then have "?looks \<or> kept_for (dk_log d) (as_argv q)" using assms by (auto simp: covers_def desk_inv_def)
      then have "desk_inv (snd (run_now shell q (if ?looks then look_limit else agreed_limit) d))"
        by (intro run_now_inv [OF assms]) (auto simp: agreed_to_def)
      with free Inr Some show ?thesis by (simp add: run_command_def Let_def)
    next
      case none
      with Inr Some assms show ?thesis by (auto simp: run_command_def Let_def)
    next
      case (person p)
      note eq = run_command_asked [OF Inr Some person(2,1)]
      have no: "desk_inv (desk_note (MadeSure False) (desk_note (Shown script t a) d))" for script t a
        using assms by (simp add: desk_inv_def desk_note_def)
      show ?thesis
        using asked_inv [OF assms asked_of_stands [OF Inr], of shell] shown_inv [OF assms] no
        by (cases "amounts_to (cw_keeps w) (p (as_script q) (as_shown q))") (simp_all add: eq Let_def)
    qed
  qed
qed

interpretation desk: state_machine "\<lambda>d. d = desk_new" desk_step desk_inv
proof
  fix d e
  show "desk_inv d" if "d = desk_new" using that by (simp add: desk_inv_def desk_new_def allowed_new_def)
  show "desk_inv e" if "desk_inv d" "desk_step d e"
    using that(2)
  proof (cases rule: desk_step.cases)
    case (called w input)
    with that(1) show ?thesis by (simp only: run_command_inv)
  next
    case cleared
    with that(1) show ?thesis by (simp add: desk_inv_def clear_allowed_def desk_note_def allowed_new_def)
  qed
qed

lemma runs_ok_append: "runs_ok (fs @ es) \<Longrightarrow> runs_ok es"
proof (induction fs)
  case (Cons e fs)
  then show ?case by (cases e) auto
qed simp

text \<open>
  C5: A command runs only if it may: each that ever runs is on the list of what only looks, for half a minute at most,
  or a person was shown it right before and said yes, or since the conversation was last cleared a person allowed
  that very command until the end, or allowed every command and made sure of it.
\<close>

theorem a_command_runs_only_if_it_may:
  assumes "desk_step\<^sup>*\<^sup>* desk_new d" and "dk_log d = later @ Ran c limit # before"
  shows "only_looks c \<and> limit = look_limit \<or> agreed_to before c \<and> limit = agreed_limit"
proof -
  from desk.inv_reached [OF refl assms(1)] have "runs_ok (later @ Ran c limit # before)" by (simp add: desk_inv_def assms(2))
  then have "runs_ok (Ran c limit # before)" by (rule runs_ok_append)
  then show ?thesis by simp
qed

subsection \<open>Keys in what is passed on\<close>



































subsection \<open>Characters and code points\<close>

definition valid_bytes :: "nat list \<Rightarrow> bool" where
  "valid_bytes xs =
     (case xs of
        [a] \<Rightarrow> a < 128
      | [a, b] \<Rightarrow> 194 \<le> a \<and> a < 224 \<and> 128 \<le> b \<and> b < 192
      | [a, b, c] \<Rightarrow> 224 \<le> a \<and> a < 240 \<and> second_ok a b \<and> 128 \<le> c \<and> c < 192
      | [a, b, c, d] \<Rightarrow> 240 \<le> a \<and> a < 245 \<and> second_ok a b \<and> 128 \<le> c \<and> c < 192 \<and> 128 \<le> d \<and> d < 192
      | _ \<Rightarrow> False)"

definition valid_char :: "string \<Rightarrow> bool" where "valid_char u = valid_bytes (map byte_of u)"

text \<open>What a Rust string is: well-formed UTF-8.\<close>

definition valid_text :: "string \<Rightarrow> bool" where "valid_text s = list_all valid_char (utf8_chars s)"

text \<open>\<open>char::encode_utf8\<close>.\<close>

definition encode_point :: "nat \<Rightarrow> nat list" where
  "encode_point p =
     (if p < 128 then [p]
      else if p < 2048 then [192 + p div 64, 128 + p mod 64]
      else if p < 65536 then [224 + p div 4096, 128 + p div 64 mod 64, 128 + p mod 64]
      else [240 + p div 262144, 128 + p div 4096 mod 64, 128 + p div 64 mod 64, 128 + p mod 64])"

lemma digit_64: "(z :: nat) < 64 \<Longrightarrow> (q * 64 + z) div 64 = q \<and> (q * 64 + z) mod 64 = z"
  by simp

lemma two_bytes: "2 \<le> x \<Longrightarrow> x < 32 \<Longrightarrow> y < 64 \<Longrightarrow> encode_point (x * 64 + y) = [192 + x, 128 + y]"
  by (simp add: encode_point_def)

lemma three_bytes:
  assumes "x < 16" "y < 64" "z < 64" "32 \<le> y \<or> 0 < x"
  shows "encode_point (x * 4096 + y * 64 + z) = [224 + x, 128 + y, 128 + z]"
proof -
  let ?p = "x * 4096 + y * 64 + z"
  have "?p = (x * 64 + y) * 64 + z" by simp
  then have p: "?p div 64 = x * 64 + y" "?p mod 64 = z" using digit_64 [OF assms(3), of "x * 64 + y"] by metis+
  have "?p div 4096 = ?p div 64 div 64" by (simp flip: div_mult2_eq)
  then have "?p div 4096 = x" "?p div 64 mod 64 = y" unfolding p using digit_64 [OF assms(2), of x] by simp_all
  moreover have "2048 \<le> ?p" "?p < 65536" using assms by auto
  ultimately show ?thesis using p(2) by (simp add: encode_point_def)
qed

lemma four_bytes:
  assumes "x < 8" "y < 64" "z < 64" "t < 64" "16 \<le> y \<or> 0 < x"
  shows "encode_point (x * 262144 + y * 4096 + z * 64 + t) = [240 + x, 128 + y, 128 + z, 128 + t]"
proof -
  let ?p = "x * 262144 + y * 4096 + z * 64 + t"
  have "?p = (x * 4096 + y * 64 + z) * 64 + t" "x * 4096 + y * 64 + z = (x * 64 + y) * 64 + z" by simp_all
  then have p: "?p div 64 = (x * 64 + y) * 64 + z" "?p mod 64 = t" using digit_64 [OF assms(4), of "(x * 64 + y) * 64 + z"] by metis+
  have "?p div 4096 = ?p div 64 div 64" by (simp flip: div_mult2_eq)
  then have q: "?p div 4096 = x * 64 + y" "?p div 64 mod 64 = z" unfolding p using digit_64 [OF assms(3), of "x * 64 + y"] by metis+
  have "?p div 262144 = ?p div 4096 div 64" by (simp flip: div_mult2_eq)
  then have "?p div 262144 = x" "?p div 4096 mod 64 = y" unfolding q using digit_64 [OF assms(2), of x] by metis+
  moreover have "65536 \<le> ?p" using assms(5) by auto
  ultimately show ?thesis using p(2) q(2) by (simp add: encode_point_def)
qed

lemma encode_code_point: "valid_char u \<Longrightarrow> encode_point (code_point u) = map byte_of u"
proof -
  assume v: "valid_char u"
  then consider a where "map byte_of u = [a]" | a b where "map byte_of u = [a, b]" | a b c where "map byte_of u = [a, b, c]"
    | a b c d where "map byte_of u = [a, b, c, d]"
    by (auto simp: valid_char_def valid_bytes_def split: list.splits)
  then show ?thesis
  proof cases
    case (1 a)
    with v show ?thesis by (simp add: valid_char_def valid_bytes_def code_point_def encode_point_def)
  next
    case (2 a b)
    with v have "2 \<le> a - 192" "a - 192 < 32" "b - 128 < 64" "192 \<le> a" "128 \<le> b" by (auto simp: valid_char_def valid_bytes_def)
    with 2 two_bytes [of "a - 192" "b - 128"] show ?thesis by (simp only: code_point_def list.case) simp
  next
    case (3 a b c)
    with v have "a - 224 < 16" "b - 128 < 64" "c - 128 < 64" "224 \<le> a" "128 \<le> b" "128 \<le> c" "32 \<le> b - 128 \<or> 0 < a - 224"
      by (auto simp: valid_char_def valid_bytes_def second_ok_def split: if_splits)
    with 3 three_bytes [of "a - 224" "b - 128" "c - 128"] show ?thesis by (simp only: code_point_def list.case) simp
  next
    case (4 a b c d)
    with v have "a - 240 < 8" "b - 128 < 64" "c - 128 < 64" "d - 128 < 64" "240 \<le> a" "128 \<le> b" "128 \<le> c" "128 \<le> d"
      "16 \<le> b - 128 \<or> 0 < a - 240"
      by (auto simp: valid_char_def valid_bytes_def second_ok_def split: if_splits)
    with 4 four_bytes [of "a - 240" "b - 128" "c - 128" "d - 128"] show ?thesis by (simp only: code_point_def list.case) simp
  qed
qed

lemma byte_of_inj: "map byte_of u = map byte_of v \<Longrightarrow> u = v"
  by (rule map_injective) (auto simp: inj_def byte_of_def)

lemma code_point_inj: "valid_char u \<Longrightarrow> valid_char v \<Longrightarrow> code_point u = code_point v \<Longrightarrow> u = v"
  by (metis encode_code_point byte_of_inj)

lemma valid_char_width: "valid_char u \<Longrightarrow> u \<noteq> [] \<and> length u = char_width (byte_of (hd u))"
  by (cases u) (auto simp: valid_char_def valid_bytes_def char_width_def split: list.splits)

lemma valid_char_prefix: "valid_char u \<Longrightarrow> valid_char v \<Longrightarrow> u @ r = v @ s \<Longrightarrow> u = v \<and> r = s"
proof -
  assume u: "valid_char u" and v: "valid_char v" and eq: "u @ r = v @ s"
  from u v eq have "hd u = hd v" using valid_char_width by (metis hd_append2)
  with u v have "length u = length v" using valid_char_width by metis
  with eq show ?thesis by simp
qed

lemma valid_char_ascii: "valid_char u \<Longrightarrow> byte_of (hd u) < 128 \<Longrightarrow> u = [hd u]"
  using valid_char_width [of u] by (cases u) (auto simp: char_width_def)

subsection \<open>Escapes\<close>

lemma up_to_unique: "c \<notin> set xs \<Longrightarrow> c \<notin> set ys \<Longrightarrow> xs @ c # r = ys @ c # s \<Longrightarrow> xs = ys \<and> r = s"
proof (induction xs arbitrary: ys)
  case Nil
  then show ?case by (cases ys) auto
next
  case (Cons x xs)
  then show ?case by (cases ys) auto
qed

lemma char_escape_prefix:
  assumes "valid_char u" "valid_char v" "char_escape u @ r = char_escape v @ s"
  shows "u = v \<and> r = s"
proof -
  have no: "CHR ''}'' \<notin> set (lower_hex n)" for n using lower_hex_digits [of n] by (auto simp: list_all_iff is_hexdigit_def is_digit_def byte_of_def)
  from assms(3) have "lower_hex (code_point u) @ CHR ''}'' # r = lower_hex (code_point v) @ CHR ''}'' # s" by (simp add: char_escape_def)
  then have same: "lower_hex (code_point u) = lower_hex (code_point v) \<and> r = s" by (rule up_to_unique [OF no no])
  then have "code_point u = code_point v" by (metis lower_hex_value)
  with assms(1,2) same show ?thesis by (simp add: code_point_inj)
qed


text \<open>Each character is shown so that it can be told where it ends, in an argument and in a script.\<close>

lemma char_escape_starts: "\<exists>x. char_escape u = CHR 0x5C # CHR ''u'' # x"
  by (simp add: char_escape_def)

lemma plain_starts: "valid_char u \<Longrightarrow> byte_of c < 128 \<Longrightarrow> u \<noteq> [c] \<Longrightarrow> \<exists>b x. u = b # x \<and> b \<noteq> c"
  using valid_char_ascii [of u] valid_char_width [of u] by (cases u) auto

lemma quote_char_cases:
  assumes "valid_char u"
  obtains (quote) "u = [CHR 0x27]" "quote_char u = [CHR 0x27, CHR 0x5C, CHR 0x27, CHR 0x27]"
  | (slash) "u = [CHR 0x5C]" "quote_char u = [CHR 0x5C, CHR 0x5C]"
  | (escaped) x where "quote_char u = char_escape u" "char_escape u = CHR 0x5C # CHR ''u'' # x"
  | (plain) b x where "quote_char u = u" "u = b # x" "b \<noteq> CHR 0x27" "b \<noteq> CHR 0x5C"
proof -
  obtain x where x: "char_escape u = CHR 0x5C # CHR ''u'' # x" using char_escape_starts by blast
  from plain_starts [OF assms, of "CHR 0x27"] plain_starts [OF assms, of "CHR 0x5C"]
  have b: "u \<noteq> [CHR 0x27] \<Longrightarrow> u \<noteq> [CHR 0x5C] \<Longrightarrow> \<exists>b x. u = b # x \<and> b \<noteq> CHR 0x27 \<and> b \<noteq> CHR 0x5C"
    by (auto simp: byte_of_def)
  show thesis
  proof (cases "u = [CHR 0x27] \<or> u = [CHR 0x5C]")
    case True
    then show thesis using quote slash by (auto simp: quote_char_def)
  next
    case False
    with b obtain c y where "u = c # y" "c \<noteq> CHR 0x27" "c \<noteq> CHR 0x5C" by blast
    note c = this
    show thesis
    proof (cases "char_control (code_point u) \<or> char_hidden (code_point u)")
      case True
      with False have "quote_char u = char_escape u" by (simp add: quote_char_def)
      then show thesis using x by (rule escaped)
    next
      case no: False
      with False have "quote_char u = u" by (simp add: quote_char_def)
      then show thesis using c by (rule plain)
    qed
  qed
qed

lemma quote_char_prefix:
  assumes "valid_char u" "valid_char v" "quote_char u @ r = quote_char v @ s"
  shows "u = v \<and> r = s"
  using assms(1)
proof (cases rule: quote_char_cases)
  case quote
  from assms(2) show ?thesis by (cases rule: quote_char_cases) (use assms(3) quote in auto)
next
  case slash
  from assms(2) show ?thesis by (cases rule: quote_char_cases) (use assms(3) slash in auto)
next
  case (escaped x)
  from assms(2) show ?thesis
  proof (cases rule: quote_char_cases)
    case (escaped y)
    with assms \<open>quote_char u = char_escape u\<close> show ?thesis by (intro char_escape_prefix) simp_all
  qed (use assms(3) escaped in auto)
next
  case (plain b x)
  from assms(2) show ?thesis
  proof (cases rule: quote_char_cases)
    case (plain c y)
    with assms \<open>quote_char u = u\<close> show ?thesis by (intro valid_char_prefix) simp_all
  qed (use assms(3) plain in auto)
qed

lemma script_char_cases:
  assumes "valid_char u"
  obtains (slash) "u = [CHR 0x5C]" "script_char u = [CHR 0x5C, CHR 0x5C]"
  | (line) "u = [CHR 0x0A]" "script_char u = [CHR 0x5C, CHR ''n'']"
  | (tab) "u = [CHR 0x09]" "script_char u = [CHR 0x5C, CHR ''t'']"
  | (escaped) x where "script_char u = char_escape u" "char_escape u = CHR 0x5C # CHR ''u'' # x"
  | (plain) b x where "script_char u = u" "u = b # x" "b \<noteq> CHR 0x5C"
proof -
  obtain x where x: "char_escape u = CHR 0x5C # CHR ''u'' # x" using char_escape_starts by blast
  show thesis
  proof (cases "u = [CHR 0x5C] \<or> u = [CHR 0x0A] \<or> u = [CHR 0x09]")
    case True
    then show thesis using slash line tab by (auto simp: script_char_def)
  next
    case False
    with plain_starts [OF assms, of "CHR 0x5C"] obtain c y where "u = c # y" "c \<noteq> CHR 0x5C" by (auto simp: byte_of_def)
    note c = this
    show thesis
    proof (cases "char_control (code_point u) \<or> char_hidden (code_point u)")
      case True
      with False have "script_char u = char_escape u" by (simp add: script_char_def)
      then show thesis using x by (rule escaped)
    next
      case no: False
      with False have "script_char u = u" by (simp add: script_char_def)
      then show thesis using c by (rule plain)
    qed
  qed
qed

lemma script_char_prefix:
  assumes "valid_char u" "valid_char v" "script_char u @ r = script_char v @ s"
  shows "u = v \<and> r = s"
  using assms(1)
proof (cases rule: script_char_cases)
  case slash
  from assms(2) show ?thesis by (cases rule: script_char_cases) (use assms(3) slash in auto)
next
  case line
  from assms(2) show ?thesis by (cases rule: script_char_cases) (use assms(3) line in auto)
next
  case tab
  from assms(2) show ?thesis by (cases rule: script_char_cases) (use assms(3) tab in auto)
next
  case (escaped x)
  from assms(2) show ?thesis
  proof (cases rule: script_char_cases)
    case (escaped y)
    with assms \<open>script_char u = char_escape u\<close> show ?thesis by (intro char_escape_prefix) simp_all
  qed (use assms(3) escaped in auto)
next
  case (plain b x)
  from assms(2) show ?thesis
  proof (cases rule: script_char_cases)
    case (plain c y)
    with assms \<open>script_char u = u\<close> show ?thesis by (intro valid_char_prefix) simp_all
  qed (use assms(3) plain in auto)
qed


lemma script_char_nonempty: "valid_char u \<Longrightarrow> script_char u \<noteq> []"
  by (cases rule: script_char_cases) auto

lemma shown_script_inj:
  assumes "valid_text s" "valid_text t" "shown_script s = shown_script t"
  shows "s = t"
proof -
  have "list_all valid_char us \<Longrightarrow> list_all valid_char vs \<Longrightarrow>
      concat (map script_char us) = concat (map script_char vs) \<Longrightarrow> us = vs" for us vs
  proof (induction us arbitrary: vs)
    case Nil
    then show ?case using script_char_nonempty by (cases vs) auto
  next
    case (Cons u us)
    show ?case
    proof (cases vs)
      case Nil
      with Cons.prems script_char_nonempty [of u] show ?thesis by simp
    next
      case v: (Cons v ws)
      with Cons.prems script_char_prefix [of u v "concat (map script_char us)" "concat (map script_char ws)"]
      have "u = v" "concat (map script_char us) = concat (map script_char ws)" by simp_all
      with Cons v show ?thesis by simp
    qed
  qed
  with assms have "utf8_chars s = utf8_chars t" by (simp add: valid_text_def shown_script_def)
  then show ?thesis by (metis concat_utf8_chars)
qed

text \<open>What comes after an argument: nothing, or a blank.\<close>

definition after_arg :: "string \<Rightarrow> bool" where "after_arg r = (r = [] \<or> hd r = CHR '' '')"

lemma quoted_unique:
  "list_all valid_char us \<Longrightarrow> list_all valid_char vs \<Longrightarrow> after_arg r \<Longrightarrow> after_arg s \<Longrightarrow>
     concat (map quote_char us) @ CHR 0x27 # r = concat (map quote_char vs) @ CHR 0x27 # s \<Longrightarrow> us = vs \<and> r = s"
proof (induction us arbitrary: vs)
  case Nil
  show ?case
  proof (cases vs)
    case (Cons v ws)
    with Nil.prems(2) have "valid_char v" by simp
    then show ?thesis by (cases rule: quote_char_cases) (use Nil.prems Cons in \<open>auto simp: after_arg_def\<close>)
  qed (use Nil in simp)
next
  case (Cons u us)
  show ?case
  proof (cases vs)
    case Nil
    from Cons.prems(1) have "valid_char u" by simp
    then show ?thesis by (cases rule: quote_char_cases) (use Cons.prems Nil in \<open>auto simp: after_arg_def\<close>)
  next
    case v: (Cons v ws)
    with Cons.prems quote_char_prefix [of u v "concat (map quote_char us) @ CHR 0x27 # r" "concat (map quote_char ws) @ CHR 0x27 # s"]
    have "u = v" "concat (map quote_char us) @ CHR 0x27 # r = concat (map quote_char ws) @ CHR 0x27 # s" by simp_all
    with Cons v show ?thesis by simp
  qed
qed

lemma plain_arg_unique:
  assumes "list_all plain_char a" "list_all plain_char b" "after_arg r" "after_arg s" "a @ r = b @ s"
  shows "a = b \<and> r = s"
proof -
  have stop: "takeWhile plain_char (x @ y) = x" if "list_all plain_char x" "after_arg y" for x y
  proof -
    have "\<not> plain_char (CHR '' '')" by code_simp
    then have "takeWhile plain_char y = []" using that(2) by (cases y) (auto simp: after_arg_def)
    then show ?thesis using that(1) by (simp add: list_all_iff takeWhile_append2)
  qed
  from assms have "a = b" by (metis stop)
  with assms(5) show ?thesis by simp
qed

lemma quote_arg_unique:
  assumes "valid_text a" "valid_text b" "after_arg r" "after_arg s" "quote_arg a @ r = quote_arg b @ s"
  shows "a = b \<and> r = s"
proof -
  have bare: "\<not> plain_char (CHR 0x27)" by code_simp
  consider "a \<noteq> [] \<and> list_all plain_char a" "b \<noteq> [] \<and> list_all plain_char b" | "a \<noteq> [] \<and> list_all plain_char a" "\<not> (b \<noteq> [] \<and> list_all plain_char b)"
    | "\<not> (a \<noteq> [] \<and> list_all plain_char a)" "b \<noteq> [] \<and> list_all plain_char b"
    | "\<not> (a \<noteq> [] \<and> list_all plain_char a)" "\<not> (b \<noteq> [] \<and> list_all plain_char b)" by blast
  then show ?thesis
  proof cases
    case 1
    with assms(3-5) show ?thesis by (intro plain_arg_unique) (simp_all add: quote_arg_def)
  next
    case 2
    with assms(5) bare show ?thesis by (cases a) (auto simp: quote_arg_def)
  next
    case 3
    with assms(5) bare show ?thesis by (cases b) (auto simp: quote_arg_def)
  next
    case 4
    with assms(5) have "concat (map quote_char (utf8_chars a)) @ CHR 0x27 # r = concat (map quote_char (utf8_chars b)) @ CHR 0x27 # s"
      by (simp only: quote_arg_def if_False append_assoc append_Cons append_Nil list.inject simp_thms)
    with quoted_unique assms(1-4) have "utf8_chars a = utf8_chars b" "r = s" unfolding valid_text_def by blast+
    then show ?thesis by (metis concat_utf8_chars)
  qed
qed

lemma quote_arg_nonempty: "quote_arg a \<noteq> []"
  by (simp add: quote_arg_def)

lemma shown_Cons: "shown (a # as) = quote_arg a @ (if as = [] then [] else CHR '' '' # shown as)"
  by (cases as) (simp_all add: shown_def)

lemma shown_inj:
  "list_all valid_text as \<Longrightarrow> list_all valid_text bs \<Longrightarrow> shown as = shown bs \<Longrightarrow> as = bs"
proof (induction as arbitrary: bs)
  case Nil
  have "shown [] = []" by (simp add: shown_def)
  with Nil show ?case using quote_arg_nonempty by (cases bs) (simp_all add: shown_Cons)
next
  case (Cons a as)
  show ?case
  proof (cases bs)
    case Nil
    have "shown [] = []" by (simp add: shown_def)
    with Nil Cons.prems(3) quote_arg_nonempty [of a] show ?thesis by (simp add: shown_Cons)
  next
    case b: (Cons b cs)
    let ?r = "if as = [] then [] else CHR '' '' # shown as" and ?s = "if cs = [] then [] else CHR '' '' # shown cs"
    have "a = b \<and> ?r = ?s"
      using Cons.prems b by (intro quote_arg_unique) (auto simp: after_arg_def shown_Cons)
    moreover from this have "as = cs" using Cons.IH [of cs] Cons.prems(1,2) b by (auto split: if_splits)
    ultimately show ?thesis using b by simp
  qed
qed

text \<open>
  C13: What is shown is what runs: a person who is shown a command, or a script, is shown no other one the same way,
  whatever characters are in it; so each yes is a yes to one command.
\<close>

theorem a_yes_is_to_one_command:
  assumes "stands_for script t c" and "stands_for script t d" and "list_all valid_text c" and "list_all valid_text d"
  shows "c = d"
proof (cases script)
  case True
  with assms(1,2) obtain s u where "c = [''sh'', ''-c'', s]" "d = [''sh'', ''-c'', u]" "shown_script s = shown_script u"
    by (auto simp: stands_for_def split: list.splits)
  with assms(3,4) shown_script_inj show ?thesis by auto
next
  case False
  with assms shown_inj show ?thesis by (auto simp: stands_for_def)
qed

subsection \<open>The claims at work\<close>

text \<open>A person says yes once to a command that does more than look.\<close>

definition asked_world :: command_world where
  "asked_world = \<lparr>cw_person = Some (\<lambda>script t. AllowOnce), cw_sure = False, cw_keeps = True,
     cw_shell = Some (\<lambda>argv limit. Inr \<lparr>rn_status = Some 0, rn_stdout = [], rn_stderr = [], rn_truncated = False, rn_timed_out = False\<rparr>)\<rparr>"

definition restart_input :: json where
  "restart_input = JObj [(''argv'', JArr [JStr ''systemctl'', JStr ''restart'', JStr ''sol''])]"

lemma restart_words:
  "shown [''systemctl'', ''restart'', ''sol''] = ''systemctl restart sol''"
  "length (utf8_chars ''systemctl'') = 9" "length (utf8_chars ''restart'') = 7" "length (utf8_chars ''sol'') = 3"
  by code_simp+

lemma restart_is_no_look: "\<not> only_looks [''systemctl'', ''restart'', ''sol'']"
  by code_simp

lemma restart_asked:
  "asked_of restart_input = Ok \<lparr>as_argv = [''systemctl'', ''restart'', ''sol''], as_shown = ''systemctl restart sol'', as_script = False\<rparr>"
  by (simp add: asked_of_def argv_of_def strings_in_def map_filter_def restart_input_def restart_words max_args_def max_chars_def and_then_def hm_get_def)

lemma restart_run:
  "dk_log (snd (run_command asked_world restart_input desk_new)) =
     [] @ Ran [''systemctl'', ''restart'', ''sol''] agreed_limit # [Shown False ''systemctl restart sol'' AllowOnce]"
  by (simp add: run_command_def restart_asked restart_is_no_look covers_def desk_new_def allowed_new_def run_now_def desk_note_def asked_world_def amounts_to_def)

theorem a_command_runs_only_if_it_may_witness:
  "dk_log (snd (run_command asked_world restart_input desk_new)) =
     [Ran [''systemctl'', ''restart'', ''sol''] agreed_limit, Shown False ''systemctl restart sol'' AllowOnce] \<and>
   agreed_to [Shown False ''systemctl restart sol'' AllowOnce] [''systemctl'', ''restart'', ''sol'']"
proof -
  have "desk_step\<^sup>*\<^sup>* desk_new (snd (run_command asked_world restart_input desk_new))" by (rule r_into_rtranclp, rule called)
  from a_command_runs_only_if_it_may [OF this restart_run] restart_is_no_look restart_run show ?thesis by simp
qed



lemma words_chars: "utf8_chars ''rm'' = [''r'', ''m'']" "utf8_chars ''it is'' = [''i'', ''t'', '' '', ''i'', ''s'']"
  by (simp_all add: continues_char_def byte_of_def)

lemma valid_char_single: "valid_char [c] \<longleftrightarrow> byte_of c < 128"
  by (simp add: valid_char_def valid_bytes_def)

lemma words_valid: "list_all valid_text [''rm'', ''it is'']"
  unfolding valid_text_def list_all_iff using words_chars by (auto simp: valid_char_single byte_of_def)

theorem a_yes_is_to_one_command_witness:
  "stands_for False (shown [''rm'', ''it is'']) [''rm'', ''it is''] \<and> [''rm'', ''it is''] = [''rm'', ''it is'']"
proof -
  have s: "stands_for False (shown [''rm'', ''it is'']) [''rm'', ''it is'']" by (simp add: stands_for_def)
  from a_yes_is_to_one_command [OF s s words_valid words_valid] show ?thesis using s by (rule conjI [rotated])
qed

text \<open>Among what only looks: \<open>lscpu\<close> made to read another folder, by an option that is attached or cut short.\<close>

lemma lscpu_reads_another_folder:
  "only_looks [''lscpu'', ''-s/mnt''] \<and> only_looks [''lscpu'', ''--sysroo=/mnt''] \<and> \<not> only_looks [''lscpu'', ''--sysroot=/mnt'']"
  by code_simp

end
