(* ===== verification/Net.thy ===== *)
theory Net
  imports Texts
begin

unbundle bit_operations_syntax

text \<open>
  Addresses as \<open>erpc.toml\<close> writes them, \<open>net.rs\<close> of erpc-worker: one address or one network, IPv4 or IPv6. An address
  is a word of 32 or of 128 bits, read and shown as the standard library does.
\<close>

datatype ip_addr = V4 "32 word" | V6 "128 word"

subsection \<open>Reading an address\<close>

text \<open>What is left of a text that is read from the left, with what was read.\<close>

type_synonym 'a reader = "string \<Rightarrow> ('a \<times> string) option"

definition read_char :: "char \<Rightarrow> unit reader" where
  "read_char c s = (case s of [] \<Rightarrow> None | d # ds \<Rightarrow> if d = c then Some ((), ds) else None)"

text \<open>A number of so many digits at most, with or without leading zeros.\<close>

definition read_number :: "(char \<Rightarrow> bool) \<Rightarrow> (string \<Rightarrow> nat) \<Rightarrow> nat \<Rightarrow> bool \<Rightarrow> nat \<Rightarrow> nat reader" where
  "read_number digit number width zeros most s =
     (let ds = takeWhile digit s
      in if ds = [] \<or> length ds > width \<or> number ds > most \<or> \<not> zeros \<and> hd ds = CHR ''0'' \<and> length ds > 1 then None
         else Some (number ds, dropWhile digit s))"

definition read_octet :: "nat reader" where "read_octet = read_number is_digit digits_value 3 False 255"
definition read_group :: "nat reader" where "read_group = read_number is_hexdigit hex_number 4 True 65535"

text \<open>What comes after a separator, or first.\<close>

definition after_sep :: "char \<Rightarrow> nat \<Rightarrow> 'a reader \<Rightarrow> 'a reader" where
  "after_sep c i inner s = (if i = 0 then inner s else Option.bind (read_char c s) (\<lambda>(_, r). inner r))"

lemma after_sep_0: "after_sep c 0 inner s = inner s"
  by (simp add: after_sep_def)

fun read_octets :: "nat \<Rightarrow> nat \<Rightarrow> nat list reader" where
  "read_octets i 0 s = Some ([], s)"
| "read_octets i (Suc n) s =
     Option.bind (after_sep (CHR ''.'') i read_octet s) (\<lambda>(a, r).
       map_option (\<lambda>(as, r). (a # as, r)) (read_octets (Suc i) n r))"

definition read_ipv4 :: "nat list reader" where "read_ipv4 = read_octets 0 4"

definition two_groups :: "nat list \<Rightarrow> nat list" where
  "two_groups o4 = [o4 ! 0 * 256 + o4 ! 1, o4 ! 2 * 256 + o4 ! 3]"

text \<open>Groups of an IPv6 address from the i-th on, up to the limit; whether they end in an IPv4 address.\<close>

function read_groups :: "nat \<Rightarrow> nat \<Rightarrow> string \<Rightarrow> (nat list \<times> bool) \<times> string" where
  "read_groups limit i s =
     (if i \<ge> limit then (([], False), s)
      else
        (case (if i < limit - 1 then after_sep (CHR '':'') i read_ipv4 s else None) of
           Some (o4, r) \<Rightarrow> ((two_groups o4, True), r)
         | None \<Rightarrow>
            (case after_sep (CHR '':'') i read_group s of
               Some (g, r) \<Rightarrow> (let ((gs, v4), r) = read_groups limit (Suc i) r in ((g # gs, v4), r))
             | None \<Rightarrow> (([], False), s))))"
  by pat_completeness auto
termination by (relation "measure (\<lambda>(limit, i, s). limit - i)") auto

declare read_groups.simps [simp del]

definition read_ipv6 :: "nat list reader" where
  "read_ipv6 s =
     (let ((head, v4), r) = read_groups 8 0 s
      in if length head = 8 then Some (head, r)
         else if v4 then None
         else Option.bind (read_char (CHR '':'') r) (\<lambda>(_, r).
                map_option (\<lambda>(_, r).
                  (let ((tail, _), r) = read_groups (8 - (length head + 1)) 0 r
                   in (head @ replicate (8 - length head - length tail) 0 @ tail, r)))
                  (read_char (CHR '':'') r)))"

definition number_of :: "nat \<Rightarrow> nat list \<Rightarrow> nat" where "number_of b ds = foldl (\<lambda>n d. b * n + d) 0 ds"

definition v4_of :: "nat list \<Rightarrow> 32 word" where "v4_of os = of_nat (number_of 256 os)"
definition v6_of :: "nat list \<Rightarrow> 128 word" where "v6_of gs = of_nat (number_of 65536 gs)"

text \<open>\<open>str::parse\<close> of an \<open>IpAddr\<close>: all of the text.\<close>

definition parse_ip :: "string \<Rightarrow> ip_addr option" where
  "parse_ip s =
     (case (case read_ipv4 s of Some (os, r) \<Rightarrow> Some (V4 (v4_of os), r) | None \<Rightarrow> map_option (\<lambda>(gs, r). (V6 (v6_of gs), r)) (read_ipv6 s)) of
        Some (a, []) \<Rightarrow> Some a
      | _ \<Rightarrow> None)"

subsection \<open>Showing an address\<close>

fun digits_of :: "nat \<Rightarrow> nat \<Rightarrow> nat \<Rightarrow> nat list" where
  "digits_of b 0 n = []"
| "digits_of b (Suc k) n = digits_of b k (n div b) @ [n mod b]"

definition octets :: "32 word \<Rightarrow> nat list" where "octets a = digits_of 256 4 (unat a)"
definition segments :: "128 word \<Rightarrow> nat list" where "segments a = digits_of 65536 8 (unat a)"

definition show_octets :: "nat list \<Rightarrow> string" where "show_octets os = join_with ''.'' (map show_nat os)"
definition show_groups :: "nat list \<Rightarrow> string" where "show_groups gs = join_with '':'' (map lower_hex gs)"

text \<open>The first of the longest runs of zeros, as where it starts and how long it is.\<close>

fun zero_run :: "nat \<Rightarrow> nat list \<Rightarrow> nat \<times> nat \<Rightarrow> nat \<times> nat \<Rightarrow> nat \<times> nat" where
  "zero_run i [] current longest = longest"
| "zero_run i (g # gs) current longest =
     (if g = 0 then
        (let current = (if snd current = 0 then (i, 1) else (fst current, snd current + 1))
         in zero_run (Suc i) gs current (if snd current > snd longest then current else longest))
      else zero_run (Suc i) gs (0, 0) longest)"

definition is_mapped :: "nat list \<Rightarrow> bool" where "is_mapped gs = (take 6 gs = [0, 0, 0, 0, 0, 65535])"

definition show_segments :: "nat list \<Rightarrow> string" where
  "show_segments gs =
     (if is_mapped gs then
        ''::ffff:'' @ show_octets [gs ! 6 div 256, gs ! 6 mod 256, gs ! 7 div 256, gs ! 7 mod 256]
      else
        (let (start, len) = zero_run 0 gs (0, 0) (0, 0)
         in if len > 1 then show_groups (take start gs) @ ''::'' @ show_groups (drop (start + len) gs) else show_groups gs))"

definition show_ip :: "ip_addr \<Rightarrow> string" where
  "show_ip a = (case a of V4 w \<Rightarrow> show_octets (octets w) | V6 w \<Rightarrow> show_segments (segments w))"

subsection \<open>One firewall entry\<close>

record cidr =
  cd_address :: ip_addr
  cd_prefix :: nat

datatype cidr_error = NotAnAddress string | BadPrefix string nat | AllowsEvery string | HostBits string string

definition mask32 :: "nat \<Rightarrow> 32 word" where "mask32 p = (if 32 - p < 32 then push_bit (32 - p) (- 1) else 0)"
definition mask128 :: "nat \<Rightarrow> 128 word" where "mask128 p = (if 128 - p < 128 then push_bit (128 - p) (- 1) else 0)"

definition cidr_network :: "cidr \<Rightarrow> ip_addr" where
  "cidr_network c = (case cd_address c of V4 a \<Rightarrow> V4 (a AND mask32 (cd_prefix c)) | V6 a \<Rightarrow> V6 (a AND mask128 (cd_prefix c)))"

definition cidr_contains :: "cidr \<Rightarrow> ip_addr \<Rightarrow> bool" where
  "cidr_contains c ip =
     (case (cd_address c, ip) of
        (V4 net, V4 ip) \<Rightarrow> net AND mask32 (cd_prefix c) = ip AND mask32 (cd_prefix c)
      | (V6 net, V6 ip) \<Rightarrow> net AND mask128 (cd_prefix c) = ip AND mask128 (cd_prefix c)
      | _ \<Rightarrow> False)"

definition bits_of :: "ip_addr \<Rightarrow> nat" where "bits_of a = (case a of V4 _ \<Rightarrow> 32 | V6 _ \<Rightarrow> 128)"

definition cidr_parse :: "string \<Rightarrow> cidr_error + cidr" where
  "cidr_parse text_of =
     (let raw = trim text_of;
          (address, prefix) = (case split_once (CHR ''/'') raw of Some (a, p) \<Rightarrow> (a, Some p) | None \<Rightarrow> (raw, None))
      in case parse_ip address of
           None \<Rightarrow> Err (NotAnAddress raw)
         | Some a \<Rightarrow>
            (let most = bits_of a
             in case (case prefix of
                        None \<Rightarrow> Some most
                      | Some p \<Rightarrow> (case parse_upto 255 p of Some n \<Rightarrow> if n \<le> most then Some n else None | None \<Rightarrow> None)) of
                  None \<Rightarrow> Err (BadPrefix raw most)
                | Some n \<Rightarrow>
                   (if n = 0 then Err (AllowsEvery raw)
                    else let c = \<lparr>cd_address = a, cd_prefix = n\<rparr>
                         in if cidr_network c \<noteq> a then Err (HostBits raw (show_ip (cidr_network c))) else Ok c)))"

definition cidr_show :: "cidr \<Rightarrow> string" where
  "cidr_show c = show_ip (cd_address c) @ ''/'' @ show_nat (cd_prefix c)"

subsection \<open>An address reads back\<close>

lemma digits_of_length [simp]: "length (digits_of b k n) = k"
  by (induction k arbitrary: n) simp_all

lemma digits_of_less: "0 < b \<Longrightarrow> d \<in> set (digits_of b k n) \<Longrightarrow> d < b"
  by (induction k arbitrary: n) auto

lemma number_of_digits_of: "number_of b (digits_of b k n) = n mod b ^ k"
proof (induction k arbitrary: n)
  case (Suc k)
  then show ?case using mod_mult2_eq [of n b "b ^ k"] by (simp add: number_of_def)
qed (simp add: number_of_def)

lemma unat_lt: "unat (a :: 'a :: len word) < 2 ^ LENGTH('a)"
  by (rule unsigned_less)

lemma v4_of_octets [simp]: "v4_of (octets a) = a"
proof -
  have "unat a mod 256 ^ 4 = unat a" using unat_lt [of a] by simp
  then show ?thesis unfolding v4_of_def octets_def number_of_digits_of by simp
qed

lemma v6_of_segments [simp]: "v6_of (segments a) = a"
proof -
  have "unat a mod 65536 ^ 8 = unat a" using unat_lt [of a] by simp
  then show ?thesis unfolding v6_of_def segments_def number_of_digits_of by simp
qed

lemma takeWhile_all: "list_all P xs \<Longrightarrow> ys = [] \<or> \<not> P (hd ys) \<Longrightarrow> takeWhile P (xs @ ys) = xs \<and> dropWhile P (xs @ ys) = ys"
  by (induction xs) (cases ys; simp)+

lemma read_number_shown:
  assumes "list_all digit ds" "ds \<noteq> []" "length ds \<le> width" "number ds = n" "n \<le> most" "zeros \<or> hd ds \<noteq> CHR ''0'' \<or> length ds = 1"
    and "r = [] \<or> \<not> digit (hd r)"
  shows "read_number digit number width zeros most (ds @ r) = Some (n, r)"
  using assms takeWhile_all [OF assms(1,7)] by (auto simp: read_number_def)

lemma show_nat_short: "n < 10 ^ Suc k \<Longrightarrow> length (show_nat n) \<le> Suc k"
proof (induction k arbitrary: n)
  case 0
  then show ?case by (subst show_nat.simps) simp
next
  case (Suc k)
  then have "n div 10 < 10 ^ Suc k" by (simp add: less_mult_imp_div_less mult.commute)
  from Suc.IH [OF this] show ?case by (subst show_nat.simps) simp
qed

lemma lower_hex_short: "n < 16 ^ Suc k \<Longrightarrow> length (lower_hex n) \<le> Suc k"
proof (induction k arbitrary: n)
  case 0
  then show ?case by (subst lower_hex.simps) simp
next
  case (Suc k)
  then have "n div 16 < 16 ^ Suc k" by (simp add: less_mult_imp_div_less mult.commute)
  from Suc.IH [OF this] show ?case by (subst lower_hex.simps) simp
qed

lemma show_nat_no_zero: "0 < n \<Longrightarrow> hd (show_nat n) \<noteq> CHR ''0''"
proof (induction n rule: show_nat.induct)
  case (1 n)
  show ?case
  proof (cases "n < 10")
    case True
    then have "byte_of (hd (show_nat n)) = 48 + n" by (subst show_nat.simps) (simp add: byte_of_def)
    then show ?thesis using 1 by (auto simp: byte_of_def)
  next
    case False
    with 1 show ?thesis by (subst show_nat.simps) simp
  qed
qed

definition stops_octet :: "string \<Rightarrow> bool" where "stops_octet r = (r = [] \<or> \<not> is_digit (hd r))"
definition stops_group :: "string \<Rightarrow> bool" where "stops_group r = (r = [] \<or> \<not> is_hexdigit (hd r))"

lemma read_octet_shown: "n \<le> 255 \<Longrightarrow> stops_octet r \<Longrightarrow> read_octet (show_nat n @ r) = Some (n, r)"
  unfolding read_octet_def
proof (rule read_number_shown)
  assume n: "n \<le> 255"
  then show "length (show_nat n) \<le> 3" using show_nat_short [of n 2] by simp
  show "False \<or> hd (show_nat n) \<noteq> CHR ''0'' \<or> length (show_nat n) = 1"
    using show_nat_no_zero [of n] by (cases "n = 0") (simp_all add: show_nat.simps)
qed (simp_all add: stops_octet_def all_digits_show_nat)

lemma read_group_shown: "n \<le> 65535 \<Longrightarrow> stops_group r \<Longrightarrow> read_group (lower_hex n @ r) = Some (n, r)"
  unfolding read_group_def
  by (rule read_number_shown) (use lower_hex_short [of n 3] in \<open>simp_all add: stops_group_def lower_hex_digits\<close>)

lemma read_octet_stopped: "stops_octet r \<Longrightarrow> read_octet r = None"
  by (cases r) (auto simp: read_octet_def read_number_def stops_octet_def)

lemma read_group_stopped: "stops_group r \<Longrightarrow> read_group r = None"
  by (cases r) (auto simp: read_group_def read_number_def stops_group_def)

lemma stops_at: "stops_octet (CHR ''.'' # r)" "stops_octet (CHR '':'' # r)" "stops_group (CHR '':'' # r)" "stops_octet []" "stops_group []"
  by (simp_all add: stops_octet_def stops_group_def is_digit_def is_hexdigit_def byte_of_def)

lemma read_ipv4_shown:
  assumes "a \<le> 255" "b \<le> 255" "c \<le> 255" "d \<le> 255" "stops_octet r"
  shows "read_ipv4 (show_octets [a, b, c, d] @ r) = Some ([a, b, c, d], r)"
  using assms
  by (simp add: read_ipv4_def show_octets_def numeral_eq_Suc after_sep_def read_char_def read_octet_shown stops_at)

text \<open>Without a point there is no IPv4 address.\<close>

lemma read_number_rest: "read_number digit number width zeros most s = Some (n, r) \<Longrightarrow> set r \<subseteq> set s"
  by (auto simp: read_number_def Let_def split: if_splits dest: set_dropWhileD)

lemma no_point_no_ipv4: "CHR ''.'' \<notin> set s \<Longrightarrow> read_ipv4 s = None"
proof -
  assume p: "CHR ''.'' \<notin> set s"
  have "read_char (CHR ''.'') r = None" if "set r \<subseteq> set s" for r
    using p that by (cases r) (auto simp: read_char_def)
  then show ?thesis
    by (auto simp: read_ipv4_def numeral_eq_Suc after_sep_def read_octet_def split: Option.bind_splits dest!: read_number_rest)
qed

definition colon_groups :: "nat list \<Rightarrow> string" where "colon_groups gs = concat (map (\<lambda>g. CHR '':'' # lower_hex g) gs)"

lemma show_groups_Cons: "show_groups (g # gs) = lower_hex g @ colon_groups gs"
  by (induction gs arbitrary: g) (simp_all add: show_groups_def colon_groups_def)

lemma hex_no_point: "CHR ''.'' \<notin> set (lower_hex g)" "CHR '':'' \<notin> set (lower_hex g)" "CHR ''/'' \<notin> set (lower_hex g)"
  using lower_hex_digits [of g] by (auto simp: list_all_iff is_hexdigit_def is_digit_def byte_of_def)

lemma colon_groups_no_point: "CHR ''.'' \<notin> set (colon_groups gs)"
  by (auto simp: colon_groups_def hex_no_point)

lemma show_groups_no_point: "CHR ''.'' \<notin> set (show_groups gs)"
  by (cases gs) (simp_all add: show_groups_Cons hex_no_point colon_groups_no_point, simp add: show_groups_def)

text \<open>Where groups end: the text does, or two colons come.\<close>

definition ends_groups :: "string \<Rightarrow> bool" where "ends_groups r = (r = [] \<or> (\<exists>t. r = CHR '':'' # CHR '':'' # t))"

lemma after_sep_no_point: "CHR ''.'' \<notin> set s \<Longrightarrow> after_sep (CHR '':'') i read_ipv4 s = None"
  by (cases s) (auto simp: after_sep_def read_char_def no_point_no_ipv4)

lemma ends_groups_stop: "ends_groups r \<Longrightarrow> after_sep (CHR '':'') i read_group r = None"
  by (auto simp: ends_groups_def after_sep_def read_char_def read_group_stopped stops_at)

lemma ends_groups_head: "ends_groups r \<Longrightarrow> stops_group (colon_groups gs @ r)"
  by (cases gs) (auto simp: colon_groups_def ends_groups_def stops_at)

lemma read_groups_more:
  assumes "\<forall>g \<in> set gs. g \<le> 65535" "CHR ''.'' \<notin> set r" "ends_groups r" "i + length gs \<le> limit" "0 < i"
  shows "read_groups limit i (colon_groups gs @ r) = ((gs, False), r)"
  using assms(1,4,5)
proof (induction gs arbitrary: i)
  case Nil
  then show ?case using assms(2,3)
    by (subst read_groups.simps) (simp add: colon_groups_def after_sep_no_point ends_groups_stop)
next
  case (Cons g gs)
  let ?s = "colon_groups (g # gs) @ r"
  have "after_sep (CHR '':'') i read_ipv4 ?s = None"
    using assms(2) colon_groups_no_point [of "g # gs"] by (intro after_sep_no_point) simp
  moreover have "after_sep (CHR '':'') i read_group ?s = Some (g, colon_groups gs @ r)"
    using Cons.prems ends_groups_head [OF assms(3)] by (simp add: colon_groups_def after_sep_def read_char_def read_group_shown)
  moreover have "read_groups limit (Suc i) (colon_groups gs @ r) = ((gs, False), r)" using Cons by simp
  ultimately show ?case using Cons.prems by (subst read_groups.simps) simp
qed

lemma read_groups_shown:
  assumes "\<forall>g \<in> set gs. g \<le> 65535" "CHR ''.'' \<notin> set r" "ends_groups r" "length gs \<le> limit"
  shows "read_groups limit 0 (show_groups gs @ r) = ((gs, False), r)"
proof (cases gs)
  case Nil
  then show ?thesis using assms(2,3)
    by (subst read_groups.simps) (simp add: show_groups_def after_sep_no_point ends_groups_stop)
next
  case (Cons g hs)
  let ?s = "show_groups gs @ r"
  have "after_sep (CHR '':'') 0 read_ipv4 ?s = None"
    using assms(2) show_groups_no_point [of gs] by (intro after_sep_no_point) simp
  moreover have "after_sep (CHR '':'') 0 read_group ?s = Some (g, colon_groups hs @ r)"
    using Cons assms ends_groups_head [OF assms(3)] by (simp add: show_groups_Cons after_sep_def read_group_shown)
  moreover have "read_groups limit (Suc 0) (colon_groups hs @ r) = ((hs, False), r)"
    using Cons assms by (intro read_groups_more) simp_all
  ultimately show ?thesis using Cons assms(4) by (subst read_groups.simps) simp
qed

text \<open>The run of zeros that is left out is one.\<close>

definition zeros_at :: "nat list \<Rightarrow> nat \<times> nat \<Rightarrow> bool" where
  "zeros_at gs run = (fst run + snd run \<le> length gs \<and> take (snd run) (drop (fst run) gs) = replicate (snd run) 0)"

lemma zero_run_ok:
  "i = length pre \<Longrightarrow> zeros_at (pre @ gs) longest \<Longrightarrow> zeros_at (pre @ gs) current \<Longrightarrow> snd current = 0 \<or> fst current + snd current = i \<Longrightarrow>
     zeros_at (pre @ gs) (zero_run i gs current longest)"
proof (induction gs arbitrary: i pre current longest)
  case (Cons g gs)
  have at: "zeros_at (pre @ g # gs) (0, 0)" by (simp add: zeros_at_def)
  show ?case
  proof (cases "g = 0")
    case False
    with Cons.IH [of "Suc i" "pre @ [g]" longest "(0, 0)"] Cons.prems at show ?thesis by simp
  next
    case True
    let ?c = "if snd current = 0 then (i, 1) else (fst current, snd current + 1)"
    have "zeros_at (pre @ g # gs) ?c"
    proof (cases "snd current = 0")
      case True
      with \<open>g = 0\<close> Cons.prems(1) show ?thesis by (simp add: zeros_at_def)
    next
      case False
      with Cons.prems(3,4) have at: "fst current + snd current = i"
        "take (snd current) (drop (fst current) (pre @ g # gs)) = replicate (snd current) 0" by (simp_all add: zeros_at_def)
      have "take (snd current + 1) (drop (fst current) (pre @ g # gs)) =
          take (snd current) (drop (fst current) (pre @ g # gs)) @ [(pre @ g # gs) ! i]"
        using at(1) Cons.prems(1) by (simp add: take_Suc_conv_app_nth del: drop_append take_append)
      also have "\<dots> = replicate (snd current + 1) 0" using at(2) Cons.prems(1) \<open>g = 0\<close> by (simp add: replicate_append_same)
      finally show ?thesis using False at(1) Cons.prems(1) by (simp add: zeros_at_def)
    qed
    with Cons.IH [of "Suc i" "pre @ [g]" "if snd ?c > snd longest then ?c else longest" ?c] Cons.prems True
    show ?thesis by (auto simp: Let_def)
  qed
qed simp

lemma segments_bound: "g \<in> set (segments a) \<Longrightarrow> g \<le> 65535"
  using digits_of_less [of 65536 g 8 "unat a"] by (simp add: segments_def)

lemma octets_bound: "d \<in> set (octets a) \<Longrightarrow> d \<le> 255"
  using digits_of_less [of 256 d 4 "unat a"] by (simp add: octets_def)

lemma eight: "length gs = 8 \<Longrightarrow> \<exists>a b c d e f g h. gs = [a, b, c, d, e, f, g, h]"
  by (auto simp: numeral_eq_Suc length_Suc_conv)

lemma read_groups_group:
  "i < limit \<Longrightarrow> after_sep (CHR '':'') i read_ipv4 s = None \<Longrightarrow> after_sep (CHR '':'') i read_group s = Some (g, r) \<Longrightarrow>
     read_groups limit (Suc i) r = ((gs, v4), q) \<Longrightarrow> read_groups limit i s = ((g # gs, v4), q)"
  by (subst read_groups.simps) simp

lemma read_groups_ipv4:
  "i < limit - 1 \<Longrightarrow> after_sep (CHR '':'') i read_ipv4 s = Some (o4, r) \<Longrightarrow> read_groups limit i s = ((two_groups o4, True), r)"
  by (subst read_groups.simps) simp

lemma read_ipv6_split:
  "read_groups 8 0 s = ((head, False), CHR '':'' # CHR '':'' # t) \<Longrightarrow> length head < 8 \<Longrightarrow>
     read_groups (8 - (length head + 1)) 0 t = ((tail, v4), r) \<Longrightarrow>
     read_ipv6 s = Some (head @ replicate (8 - length head - length tail) 0 @ tail, r)"
  by (simp add: read_ipv6_def read_char_def)

lemma colons_no_ipv4: "read_ipv4 (CHR '':'' # s) = None"
  by (simp add: read_ipv4_def numeral_eq_Suc after_sep_def read_octet_stopped stops_at)

lemma hex_no_ipv4: "read_ipv4 (lower_hex g @ CHR '':'' # s) = None"
proof -
  have "read_char (CHR ''.'') r = None" if "read_octet (lower_hex g @ CHR '':'' # s) = Some (n, r)" for n r
  proof -
    have "r = dropWhile is_digit (lower_hex g @ CHR '':'' # s)"
      using that by (auto simp: read_octet_def read_number_def Let_def split: if_splits)
    then have "r = dropWhile is_digit (lower_hex g) @ CHR '':'' # s"
      by (auto simp: dropWhile_append3 dropWhile_append1 dropWhile_append is_digit_def byte_of_def)
    moreover have "CHR ''.'' \<notin> set (dropWhile is_digit (lower_hex g))" using hex_no_point(1) set_dropWhileD by metis
    ultimately show ?thesis by (cases "dropWhile is_digit (lower_hex g)") (auto simp: read_char_def)
  qed
  then show ?thesis by (auto simp: read_ipv4_def numeral_eq_Suc after_sep_def split: Option.bind_splits)
qed

lemma two_groups_back: "x \<le> 65535 \<Longrightarrow> y \<le> 65535 \<Longrightarrow> two_groups [x div 256, x mod 256, y div 256, y mod 256] = [x, y]"
  by (simp add: two_groups_def)

lemma mapped_reads:
  assumes "x \<le> 65535" "y \<le> 65535"
  shows "read_groups 7 0 (lower_hex 65535 @ CHR '':'' # show_octets [x div 256, x mod 256, y div 256, y mod 256]) = (([65535, x, y], True), [])"
proof (rule read_groups_group)
  let ?o = "show_octets [x div 256, x mod 256, y div 256, y mod 256]"
  show "after_sep (CHR '':'') 0 read_ipv4 (lower_hex 65535 @ CHR '':'' # ?o) = None" unfolding after_sep_0 by (rule hex_no_ipv4)
  show "after_sep (CHR '':'') 0 read_group (lower_hex 65535 @ CHR '':'' # ?o) = Some (65535, CHR '':'' # ?o)"
    unfolding after_sep_0 by (rule read_group_shown) (simp_all add: stops_at)
  have "read_ipv4 (?o @ []) = Some ([x div 256, x mod 256, y div 256, y mod 256], [])"
    using assms by (intro read_ipv4_shown) (simp_all add: stops_at)
  then have "after_sep (CHR '':'') (Suc 0) read_ipv4 (CHR '':'' # ?o) = Some ([x div 256, x mod 256, y div 256, y mod 256], [])"
    by (simp only: after_sep_def read_char_def append_Nil2) simp
  then show "read_groups 7 (Suc 0) (CHR '':'' # ?o) = (([x, y], True), [])"
    using read_groups_ipv4 [of "Suc 0" 7] two_groups_back [OF assms] by simp
qed simp

lemma colons_end_groups: "read_groups 8 0 (CHR '':'' # CHR '':'' # s) = (([], False), CHR '':'' # CHR '':'' # s)"
  by (subst read_groups.simps) (simp add: after_sep_def colons_no_ipv4 read_group_stopped stops_at)

lemma segments_read:
  assumes "length gs = 8" "\<forall>g \<in> set gs. g \<le> 65535"
  shows "read_ipv4 (show_segments gs) = None \<and> read_ipv6 (show_segments gs) = Some (gs, [])"
proof (cases "is_mapped gs")
  case True
  from eight [OF assms(1)] obtain a b c d e f x y where gs: "gs = [a, b, c, d, e, f, x, y]" by blast
  let ?o = "show_octets [x div 256, x mod 256, y div 256, y mod 256]"
  from True gs have z: "[a, b, c, d, e, f] = [0, 0, 0, 0, 0, 65535]" by (simp add: is_mapped_def)
  have hex: "lower_hex 65535 = ''ffff''" by (simp add: lower_hex.simps hex_digit_def char_of_def bit_0)
  have five: "replicate 5 (0 :: nat) = [0, 0, 0, 0, 0]" by (simp add: numeral_eq_Suc)
  from True gs have s: "show_segments gs = CHR '':'' # CHR '':'' # lower_hex 65535 @ CHR '':'' # ?o" by (simp add: show_segments_def hex)
  have "read_groups (8 - (length [] + 1)) 0 (lower_hex 65535 @ CHR '':'' # ?o) = (([65535, x, y], True), [])"
    using assms(2) gs mapped_reads [of x y] by simp
  from read_ipv6_split [OF colons_end_groups _ this] z gs have "read_ipv6 (show_segments gs) = Some (gs, [])"
    unfolding s using five by simp
  then show ?thesis by (simp add: s colons_no_ipv4)
next
  case False
  obtain start len where run: "zero_run 0 gs (0, 0) (0, 0) = (start, len)" by fastforce
  show ?thesis
  proof (cases "len > 1")
    case no: False
    with False run have s: "show_segments gs = show_groups gs" by (simp add: show_segments_def)
    with read_groups_shown [of gs "[]" 8] assms show_groups_no_point [of gs] show ?thesis
      by (simp add: s no_point_no_ipv4 read_ipv6_def ends_groups_def)
  next
    case yes: True
    let ?h = "take start gs" and ?t = "drop (start + len) gs"
    from zero_run_ok [of 0 "[]" gs "(0, 0)" "(0, 0)"] run have z: "start + len \<le> 8" "take len (drop start gs) = replicate len 0"
      by (simp_all add: zeros_at_def assms(1))
    from False run yes have s: "show_segments gs = show_groups ?h @ CHR '':'' # CHR '':'' # show_groups ?t" by (simp add: show_segments_def)
    have "read_groups 8 0 (show_segments gs) = ((?h, False), CHR '':'' # CHR '':'' # show_groups ?t)"
      unfolding s using assms z(1) show_groups_no_point [of ?t]
      by (intro read_groups_shown) (auto simp: ends_groups_def dest: in_set_takeD)
    moreover have "read_groups (8 - Suc start) 0 (show_groups ?t @ []) = ((?t, False), [])"
      using assms z(1) yes by (intro read_groups_shown) (auto simp: ends_groups_def dest: in_set_dropD)
    ultimately have "read_ipv6 (show_segments gs) = Some (?h @ replicate (8 - start - (8 - (start + len))) 0 @ ?t, [])"
      using read_ipv6_split [of "show_segments gs" ?h "show_groups ?t" ?t False "[]"] assms(1) z(1) yes by simp
    moreover have "8 - start - (8 - (start + len)) = len" using z(1) by simp
    moreover have "?h @ replicate len 0 @ ?t = gs" unfolding z(2) [symmetric] by (simp add: add.commute flip: drop_drop)
    moreover have "CHR ''.'' \<notin> set (show_segments gs)" unfolding s using show_groups_no_point by simp
    ultimately show ?thesis by (simp add: no_point_no_ipv4)
  qed
qed

lemma parse_show_ip: "parse_ip (show_ip a) = Some a"
proof (cases a)
  case (V4 w)
  have "length (octets w) = 4" by (simp add: octets_def)
  then obtain p q r s where o4: "octets w = [p, q, r, s]" by (auto simp: numeral_eq_Suc length_Suc_conv)
  have "read_ipv4 (show_octets (octets w) @ []) = Some (octets w, [])"
    unfolding o4 by (rule read_ipv4_shown) (use octets_bound [of _ w] o4 in \<open>simp_all add: stops_at\<close>)
  with V4 show ?thesis by (simp add: parse_ip_def show_ip_def)
next
  case (V6 w)
  have "length (segments w) = 8" by (simp add: segments_def)
  with segments_read [of "segments w"] segments_bound [of _ w] V6 show ?thesis by (simp add: parse_ip_def show_ip_def)
qed

subsection \<open>An entry reads back, and admits what it says\<close>

definition address_char :: "char \<Rightarrow> bool" where "address_char c = (is_hexdigit c \<or> c = CHR ''.'' \<or> c = CHR '':'')"

lemma digit_is_hex: "is_digit c \<Longrightarrow> is_hexdigit c"
  by (simp add: is_hexdigit_def)

lemma join_chars: "(\<forall>p \<in> set ps. list_all P p) \<Longrightarrow> list_all P sep \<Longrightarrow> list_all P (join_with sep ps)"
  by (induction sep ps rule: join_with.induct) simp_all

lemma show_octets_chars: "list_all address_char (show_octets os)"
  unfolding show_octets_def using all_digits_show_nat
  by (intro join_chars) (auto simp: address_char_def list_all_iff intro: digit_is_hex)

lemma show_groups_chars: "list_all address_char (show_groups gs)"
  unfolding show_groups_def using lower_hex_digits
  by (intro join_chars) (auto simp: address_char_def list_all_iff)

lemma show_ip_chars: "list_all address_char (show_ip a)"
  using show_octets_chars show_groups_chars
  by (auto simp: show_ip_def show_segments_def address_char_def is_hexdigit_def is_digit_def byte_of_def split: ip_addr.split prod.split)

lemma address_char_plain: "address_char c \<Longrightarrow> \<not> is_space c \<and> c \<noteq> CHR ''/''"
  by (auto simp: address_char_def is_hexdigit_def is_digit_def is_space_def byte_of_def)

lemma digit_plain: "is_digit c \<Longrightarrow> \<not> is_space c"
  by (auto simp: is_digit_def is_space_def)

lemma trim_plain: "list_all (\<lambda>c. \<not> is_space c) s \<Longrightarrow> trim s = s"
proof -
  have stay: "dropWhile is_space t = t" if "list_all (\<lambda>c. \<not> is_space c) t" for t
    using that by (cases t) simp_all
  assume "list_all (\<lambda>c. \<not> is_space c) s"
  then show ?thesis using stay [of s] stay [of "List.rev s"] by (simp add: trim_def)
qed

lemma split_once_first: "c \<notin> set a \<Longrightarrow> split_once c (a @ c # b) = Some (a, b)"
  by (induction a) auto

lemma bits_of_range: "bits_of a = 32 \<or> bits_of a = 128"
  by (simp add: bits_of_def split: ip_addr.split)

lemma cidr_parse_Ok:
  assumes "cidr_parse s = Ok c"
  shows "0 < cd_prefix c \<and> cd_prefix c \<le> bits_of (cd_address c) \<and> cidr_network c = cd_address c"
  using assms by (cases c) (auto simp: cidr_parse_def Let_def split: option.splits prod.splits if_splits)

lemma cidr_show_parses:
  assumes "0 < cd_prefix c" "cd_prefix c \<le> bits_of (cd_address c)" "cidr_network c = cd_address c"
  shows "cidr_parse (cidr_show c) = Ok c"
proof -
  let ?a = "show_ip (cd_address c)"
  have "\<not> is_space (CHR ''/'')" by code_simp
  then have plain: "list_all (\<lambda>c. \<not> is_space c) (cidr_show c)"
    using show_ip_chars [of "cd_address c"] all_digits_show_nat [of "cd_prefix c"] address_char_plain digit_plain
    by (auto simp: cidr_show_def list_all_iff)
  have "CHR ''/'' \<notin> set ?a" using show_ip_chars [of "cd_address c"] address_char_plain by (auto simp: list_all_iff)
  then have "split_once (CHR ''/'') (cidr_show c) = Some (?a, show_nat (cd_prefix c))"
    unfolding cidr_show_def using split_once_first by simp
  moreover have "parse_upto 255 (show_nat (cd_prefix c)) = Some (cd_prefix c)"
    using assms(2) bits_of_range [of "cd_address c"] by (intro parse_show_nat) auto
  moreover have eq: "\<lparr>cd_address = cd_address c, cd_prefix = cd_prefix c\<rparr> = c" by simp
  ultimately show ?thesis using assms by (simp add: cidr_parse_def trim_plain [OF plain] parse_show_ip Let_def eq)
qed

text \<open>The i-th bit of an address from the left.\<close>

definition left_bit :: "ip_addr \<Rightarrow> nat \<Rightarrow> bool" where
  "left_bit a i = (case a of V4 w \<Rightarrow> bit w (31 - i) | V6 w \<Rightarrow> bit w (127 - i))"

lemma masked_bits:
  fixes a b :: "'a :: len word"
  assumes "n \<le> LENGTH('a)"
  shows "a AND push_bit n (- 1) = b AND push_bit n (- 1) \<longleftrightarrow> (\<forall>i < LENGTH('a) - n. bit a (LENGTH('a) - 1 - i) = bit b (LENGTH('a) - 1 - i))"
proof
  assume l: "a AND push_bit n (- 1) = b AND push_bit n (- 1)"
  show "\<forall>i < LENGTH('a) - n. bit a (LENGTH('a) - 1 - i) = bit b (LENGTH('a) - 1 - i)"
  proof (intro allI impI)
    fix i assume "i < LENGTH('a) - n"
    then have "n \<le> LENGTH('a) - 1 - i" "LENGTH('a) - 1 - i < LENGTH('a)" by simp_all
    with arg_cong [OF l, of "\<lambda>w. bit w (LENGTH('a) - 1 - i)"] show "bit a (LENGTH('a) - 1 - i) = bit b (LENGTH('a) - 1 - i)"
      by (simp add: bit_simps)
  qed
next
  assume r: "\<forall>i < LENGTH('a) - n. bit a (LENGTH('a) - 1 - i) = bit b (LENGTH('a) - 1 - i)"
  show "a AND push_bit n (- 1) = b AND push_bit n (- 1)"
  proof (rule bit_eqI)
    fix k
    have "bit a k = bit b k" if "n \<le> k" "k < LENGTH('a)"
      using r [rule_format, of "LENGTH('a) - 1 - k"] that by simp
    then show "bit (a AND push_bit n (- 1)) k = bit (b AND push_bit n (- 1)) k"
      by (cases "k < LENGTH('a)") (auto simp: bit_simps)
  qed
qed

lemma cidr_contains_bits:
  assumes "0 < cd_prefix c" "cd_prefix c \<le> bits_of (cd_address c)"
  shows "cidr_contains c ip \<longleftrightarrow> bits_of ip = bits_of (cd_address c) \<and> (\<forall>i < cd_prefix c. left_bit ip i = left_bit (cd_address c) i)"
proof (cases "cd_address c")
  case (V4 a)
  with assms masked_bits [of "32 - cd_prefix c" a] show ?thesis
    by (cases ip) (auto simp: cidr_contains_def bits_of_def left_bit_def mask32_def)
next
  case (V6 a)
  with assms masked_bits [of "128 - cd_prefix c" a] show ?thesis
    by (cases ip) (auto simp: cidr_contains_def bits_of_def left_bit_def mask128_def)
qed

text \<open>
  C30: A firewall entry admits what it says and reads back: what is accepted as one names at least one bit, admits the
  addresses of its family that begin with its bits and no others, and the text it is kept as is read as the same.
\<close>

theorem a_firewall_entry_reads_back:
  assumes "cidr_parse s = Ok c"
  shows "cidr_parse (cidr_show c) = Ok c \<and>
    (cidr_contains c ip \<longleftrightarrow>
       bits_of ip = bits_of (cd_address c) \<and> (\<forall>i < cd_prefix c. left_bit ip i = left_bit (cd_address c) i)) \<and> 0 < cd_prefix c"
  using cidr_parse_Ok [OF assms] cidr_show_parses cidr_contains_bits by blast

definition sample_entry :: cidr where "sample_entry = \<lparr>cd_address = V4 0x0A000000, cd_prefix = 8\<rparr>"

lemma sample_entry_network: "cidr_network sample_entry = cd_address sample_entry"
  by code_simp

lemma sample_entry_parses: "cidr_parse (cidr_show sample_entry) = Ok sample_entry"
  by (rule cidr_show_parses [OF _ _ sample_entry_network]) (simp_all add: sample_entry_def bits_of_def)

theorem a_firewall_entry_reads_back_witness:
  "cidr_contains sample_entry (V4 0x0A01FFFF) \<longleftrightarrow>
     bits_of (V4 0x0A01FFFF) = bits_of (cd_address sample_entry) \<and>
     list_all (\<lambda>i. left_bit (V4 0x0A01FFFF) i = left_bit (cd_address sample_entry) i) [0..<cd_prefix sample_entry]"
  using a_firewall_entry_reads_back [OF sample_entry_parses, of "V4 0x0A01FFFF"]
  unfolding list_all_iff set_upt atLeastLessThan_iff Ball_def by auto

end
