(* ===== verification/Manifest.thy ===== *)
theory Manifest
  imports Net Op_Ref Worker_Server "HOL-Library.List_Lexorder" "HOL-Library.Char_ord"
begin

text \<open>
  \<open>erpc.toml\<close>, \<open>manifest.rs\<close> of erpc-worker: one app, how it is built and run, and where it is deployed, with every
  problem that is found with it and every warning; and the launch file made of it, \<open>Launch::for_app\<close> of \<open>server.rs\<close>.
  Reading TOML is a parameter. Maps are kept in the order of their keys, as a \<open>BTreeMap\<close> gives them; the sentences of
  problems are constructors.
\<close>

subsection \<open>Maps in order\<close>

fun bt_insert :: "string \<Rightarrow> 'v \<Rightarrow> (string \<times> 'v) list \<Rightarrow> (string \<times> 'v) list" where
  "bt_insert k v [] = [(k, v)]"
| "bt_insert k v ((k', v') # m) =
     (if k = k' then (k, v) # m else if k < k' then (k, v) # (k', v') # m else (k', v') # bt_insert k v m)"

text \<open>\<open>entry(k).or_insert(v)\<close>.\<close>

definition bt_or_insert :: "string \<Rightarrow> 'v \<Rightarrow> (string \<times> 'v) list \<Rightarrow> (string \<times> 'v) list" where
  "bt_or_insert k v m = (case map_of m k of None \<Rightarrow> bt_insert k v m | Some _ \<Rightarrow> m)"

lemma map_of_bt_insert [simp]: "map_of (bt_insert k v m) k' = (if k' = k then Some v else map_of m k')"
  by (induction k v m rule: bt_insert.induct) auto

lemma map_of_bt_or_insert [simp]:
  "map_of (bt_or_insert k v m) k' = (if k' = k \<and> map_of m k = None then Some v else map_of m k')"
  by (simp add: bt_or_insert_def split: option.split)

subsection \<open>Secrets by reference\<close>

datatype secret_ref = OnePassword op_ref | Keychain string string

datatype secret_ref_error = BadOpRef op_ref_error | KeychainShape | KeychainPart | NotAReference

definition keychain_part :: "string \<Rightarrow> bool" where
  "keychain_part s =
     (s \<noteq> [] \<and> length s \<le> 128 \<and> list_all (\<lambda>b. is_ascii_alphanumeric b \<or> b = CHR ''.'' \<or> b = CHR ''_'' \<or> b = CHR ''-'') s)"

definition secret_ref_parse :: "string \<Rightarrow> secret_ref_error + secret_ref" where
  "secret_ref_parse raw =
     (if starts_with raw ''op://'' then map_err BadOpRef (map_sum id OnePassword (op_ref_parse raw))
      else
        (case strip_prefix ''keychain:'' raw of
           Some rest \<Rightarrow>
            (case split_once (CHR ''/'') rest of
               None \<Rightarrow> Err KeychainShape
             | Some (service, account) \<Rightarrow>
                 if \<not> keychain_part service \<or> \<not> keychain_part account then Err KeychainPart else Ok (Keychain service account))
         | None \<Rightarrow> Err NotAReference))"

definition secret_ref_show :: "secret_ref \<Rightarrow> string" where
  "secret_ref_show r =
     (case r of OnePassword o1 \<Rightarrow> op_ref_show o1 | Keychain service account \<Rightarrow> ''keychain:'' @ service @ ''/'' @ account)"

subsection \<open>The file\<close>

datatype worker_chain = Solana

definition worker_chain_name :: "worker_chain \<Rightarrow> string" where "worker_chain_name c = (case c of Solana \<Rightarrow> ''solana'')"

definition worker_chain_parse :: "string \<Rightarrow> worker_chain option" where
  "worker_chain_parse name = find (\<lambda>c. worker_chain_name c = name) [Solana]"

datatype build_target = X86_64Gnu | X86_64Musl | Aarch64Gnu | Aarch64Musl

definition triple :: "build_target \<Rightarrow> string" where
  "triple t =
     (case t of X86_64Gnu \<Rightarrow> ''x86_64-unknown-linux-gnu'' | X86_64Musl \<Rightarrow> ''x86_64-unknown-linux-musl''
      | Aarch64Gnu \<Rightarrow> ''aarch64-unknown-linux-gnu'' | Aarch64Musl \<Rightarrow> ''aarch64-unknown-linux-musl'')"

record build_table =
  bd_command :: "string list"
  bd_bin :: "string option"
  bd_target :: build_target

definition default_command :: "string list" where "default_command = [''cargo'', ''build'', ''--release'']"
definition build_default :: build_table where "build_default = \<lparr>bd_command = default_command, bd_bin = None, bd_target = X86_64Gnu\<rparr>"

datatype requirement = One string | AnyOf "string list"

definition names_of :: "requirement \<Rightarrow> string list" where
  "names_of r = (case r of One n \<Rightarrow> [n] | AnyOf ns \<Rightarrow> ns)"

definition first_name :: "requirement \<Rightarrow> string" where
  "first_name r = (case names_of r of [] \<Rightarrow> [] | n # _ \<Rightarrow> n)"

definition is_met :: "requirement \<Rightarrow> (string \<Rightarrow> bool) \<Rightarrow> bool" where "is_met r is_set = list_ex is_set (names_of r)"

definition requirement_show :: "requirement \<Rightarrow> string" where "requirement_show r = join_with '' or '' (names_of r)"

record health_check =
  he_http :: "string option"
  he_timeout_secs :: u32

definition default_health_timeout :: u32 where "default_health_timeout = 30"

record app_run =
  ru_args :: "string list"
  ru_files :: "string list"
  ru_requires :: "requirement list"
  ru_port :: "nat option"
  ru_health :: "health_check option"

record wallet_table =
  wt_source :: secret_ref
  wt_pubkey :: "string option"

definition default_keep :: nat where "default_keep = 5"

datatype resource_kind = Vps | SuperVps | PremiumVps | BareMetal

record server_resource =
  sr_kind :: resource_kind
  sr_id :: string
  sr_region :: "string option"
  sr_hourly :: bool

datatype line_kind = LineGrpc | LineShreds | LineUnlimited

record data_line =
  ln_kind :: line_kind
  ln_id :: string
  ln_endpoint :: string
  ln_hourly :: bool

definition line_is_pending :: "data_line \<Rightarrow> bool" where "line_is_pending l = (ln_endpoint l = [])"

definition line_kinds :: "line_kind list" where "line_kinds = [LineGrpc, LineShreds, LineUnlimited]"

definition line_setting :: "line_kind \<Rightarrow> string" where
  "line_setting k =
     (case k of LineGrpc \<Rightarrow> ''GRPC_ENDPOINT'' | LineShreds \<Rightarrow> ''SHREDS_ENDPOINT'' | LineUnlimited \<Rightarrow> ''SOLANA_SEND_RPC_ENDPOINT'')"

definition line_flag :: "line_kind \<Rightarrow> string" where
  "line_flag k = (case k of LineGrpc \<Rightarrow> ''grpc'' | LineShreds \<Rightarrow> ''shreds'' | LineUnlimited \<Rightarrow> ''unlimited'')"

text \<open>\<open>trim_end_matches('/')\<close>, and \<open>rsplit_once\<close>.\<close>

definition trim_slashes :: "string \<Rightarrow> string" where
  "trim_slashes s = List.rev (dropWhile (\<lambda>c. c = CHR ''/'') (List.rev s))"

definition rsplit_once :: "char \<Rightarrow> string \<Rightarrow> (string \<times> string) option" where
  "rsplit_once c s = map_option (\<lambda>(b, a). (List.rev a, List.rev b)) (split_once c (List.rev s))"

definition is_server_host :: "string \<Rightarrow> bool" where "is_server_host = is_host (\<lambda>h. parse_ip h \<noteq> None)"

definition endpoint_ok :: "line_kind \<Rightarrow> string \<Rightarrow> bool" where
  "endpoint_ok k endpoint =
     (case k of
        LineUnlimited \<Rightarrow>
         (case Option.bind (strip_prefix ''http://'' endpoint) (\<lambda>rest. rsplit_once (CHR '':'') (trim_slashes rest)) of
            None \<Rightarrow> False
          | Some (host, port) \<Rightarrow>
              is_server_host host \<and> (case parse_upto u16_max port of None \<Rightarrow> False | Some p \<Rightarrow> p \<noteq> 0))
      | _ \<Rightarrow>
         (case strip_prefix ''https://'' endpoint of None \<Rightarrow> False | Some host \<Rightarrow> is_server_host (trim_slashes host)))"

record backup_keys_of =
  bk_access_key :: u64
  bk_restic_key :: string
  bk_host :: string

record deploy_env =
  en_inventory :: "string option"
  en_resource :: "server_resource option"
  en_host :: "string option"
  en_ssh_user :: "string option"
  en_ssh_port :: "nat option"
  en_host_key :: "string option"
  en_ssh_allow :: "cidr list"
  en_app_allow :: "cidr list"
  en_lines :: "data_line list"
  en_backup :: "backup_keys_of option"

record manifest =
  mf_name :: string
  mf_chain :: worker_chain
  mf_template :: "string option"
  mf_build :: build_table
  mf_run :: app_run
  mf_vars :: "(string \<times> string) list"
  mf_secrets :: "(string \<times> secret_ref) list"
  mf_wallet :: "wallet_table option"
  mf_keep_releases :: nat
  mf_redis :: bool
  mf_postgres :: bool
  mf_env :: "(string \<times> deploy_env) list"

definition line_vars :: "deploy_env \<Rightarrow> (string \<times> string) list" where
  "line_vars e = map (\<lambda>l. (line_setting (ln_kind l), ln_endpoint l)) (filter (\<lambda>l. \<not> line_is_pending l) (en_lines e))"

definition env_ssh_port :: "deploy_env \<Rightarrow> nat" where
  "env_ssh_port e = (case en_ssh_port e of None \<Rightarrow> 22 | Some p \<Rightarrow> p)"

definition firewall_is_empty :: "deploy_env \<Rightarrow> bool" where "firewall_is_empty e = (en_ssh_allow e = [] \<and> en_app_allow e = [])"

definition written_facts :: "deploy_env \<Rightarrow> string list" where
  "written_facts e =
     map fst (filter snd
       [(''resource'', en_resource e \<noteq> None), (''host'', en_host e \<noteq> None), (''ssh_user'', en_ssh_user e \<noteq> None),
        (''ssh_port'', en_ssh_port e \<noteq> None), (''host_key'', en_host_key e \<noteq> None), (''firewall'', \<not> firewall_is_empty e),
        (''lines'', en_lines e \<noteq> []), (''backup'', en_backup e \<noteq> None)])"

definition redis_url :: string where "redis_url = ''redis://127.0.0.1:6379/''"
definition database_url :: string where "database_url = ''postgresql:///?host=/var/run/postgresql''"

definition services_vars :: "manifest \<Rightarrow> (string \<times> string) list" where
  "services_vars m =
     (if mf_redis m then [(''REDIS_URL'', redis_url)] else []) @ (if mf_postgres m then [(''DATABASE_URL'', database_url)] else [])"

definition bin_of :: "manifest \<Rightarrow> string" where
  "bin_of m = (case bd_bin (mf_build m) of None \<Rightarrow> mf_name m | Some b \<Rightarrow> b)"

datatype env_error = NoEnvironments | NoSuchEnvironment string "string list"

definition env_named :: "manifest \<Rightarrow> string \<Rightarrow> env_error + deploy_env" where
  "env_named m name =
     (case map_of (mf_env m) name of
        Some e \<Rightarrow> Ok e
      | None \<Rightarrow> if mf_env m = [] then Err NoEnvironments else Err (NoSuchEnvironment name (map fst (mf_env m))))"

definition unit_id_of :: "manifest \<Rightarrow> string \<Rightarrow> string" where "unit_id_of m env = mf_name m @ ''-'' @ env"

definition missing_besides :: "manifest \<Rightarrow> string list \<Rightarrow> requirement list" where
  "missing_besides m provided =
     filter (\<lambda>req. \<not> is_met req (\<lambda>n. map_of (mf_vars m) n \<noteq> None \<or> map_of (mf_secrets m) n \<noteq> None \<or> n \<in> set provided \<or>
         list_ex (\<lambda>(name, _). name = n) (services_vars m)))
       (ru_requires (mf_run m))"

definition missing_settings :: "manifest \<Rightarrow> requirement list" where "missing_settings m = missing_besides m []"

subsection \<open>What may be written\<close>

definition is_vault_id :: "string \<Rightarrow> bool" where
  "is_vault_id s = (length s = 26 \<and> list_all (\<lambda>b. is_lower b \<or> is_digit b) s)"

definition is_upper :: "char \<Rightarrow> bool" where "is_upper c = (65 \<le> byte_of c \<and> byte_of c \<le> 90)"

definition reserved_names :: "string list" where
  "reserved_names =
     [''PATH'', ''HOME'', ''USER'', ''SHELL'', ''CREDENTIALS_DIRECTORY'', ''NOTIFY_SOCKET'', ''LISTEN_FDS'', ''LISTEN_PID'']"

datatype name_problem = NotAVariableName | SetByErpc | SetByTheServer

definition check_env_name :: "string \<Rightarrow> name_problem option" where
  "check_env_name name =
     (if \<not> ((case name of [] \<Rightarrow> False | b # _ \<Rightarrow> is_upper b \<or> b = CHR ''_'') \<and>
             list_all (\<lambda>b. is_upper b \<or> is_digit b \<or> b = CHR ''_'') name \<and> length name \<le> 128)
      then Some NotAVariableName
      else if starts_with name ''ERPC_WORKER_'' then Some SetByErpc
      else if starts_with name ''LD_'' \<or> name \<in> set reserved_names then Some SetByTheServer
      else None)"

definition looks_secret :: "string \<Rightarrow> bool" where
  "looks_secret name =
     list_ex (\<lambda>w. has_text w name)
       [''TOKEN'', ''SECRET'', ''PASSWORD'', ''PASSWD'', ''PRIVATE'', ''API_KEY'', ''APIKEY'', ''MNEMONIC'', ''SEED'']"

definition carries_credential :: "string \<Rightarrow> bool" where
  "carries_credential v =
     list_ex (\<lambda>w. has_text w (map to_ascii_lower v)) [''api-key='', ''api_key='', ''apikey='', ''token='', ''x-token='']"

datatype template_problem = TemplateShape | TemplateFor string

definition check_template :: "string \<Rightarrow> worker_chain \<Rightarrow> template_problem option" where
  "check_template template chain =
     (case split_once (CHR ''@'') template of
        None \<Rightarrow> Some TemplateShape
      | Some (path, version) \<Rightarrow>
         (case split_once (CHR ''/'') path of
            None \<Rightarrow> Some TemplateShape
          | Some (of_chain, name) \<Rightarrow>
              if \<not> is_slug name 32 \<or> version = [] \<or> \<not> list_all is_digit version then Some TemplateShape
              else if of_chain \<noteq> worker_chain_name chain then Some (TemplateFor of_chain)
              else None))"

text \<open>\<open>Path::components\<close> of it are all \<open>Normal\<close> or \<open>CurDir\<close>, on Unix.\<close>

definition is_relative_inside :: "string \<Rightarrow> bool" where
  "is_relative_inside path = (path \<noteq> [] \<and> hd path \<noteq> CHR ''/'' \<and> ''..'' \<notin> set (split_on (CHR ''/'') path))"

definition is_loopback_url :: "string \<Rightarrow> bool" where
  "is_loopback_url url =
     (case first_some (\<lambda>p. strip_prefix p url) [''http://127.0.0.1:'', ''http://localhost:'', ''http://[::1]:''] of
        None \<Rightarrow> False
      | Some rest \<Rightarrow>
         (let port = takeWhile is_digit rest; after = drop (length port) rest
          in (case parse_upto u16_max port of None \<Rightarrow> False | Some p \<Rightarrow> p \<noteq> 0) \<and> (after = [] \<or> starts_with after ''/'')))"

definition is_pubkey :: "worker_chain \<Rightarrow> string \<Rightarrow> bool" where
  "is_pubkey chain key =
     (case chain of Solana \<Rightarrow>
        32 \<le> length key \<and> length key \<le> 44 \<and> list_all (\<lambda>b. is_ascii_alphanumeric b \<and> b \<notin> set ''0OIl'') key)"

subsection \<open>Every problem\<close>

definition max_allow :: nat where "max_allow = 16"

datatype manifest_problem =
    BadName string
  | BadTemplate template_problem
  | CommandWords
  | CommandNul
  | BadBin string
  | BadArgs
  | SetTooSmall
  | RequiresName string name_problem
  | TooManyFiles
  | BadFile string
  | FileTwice string
  | BadHealthUrl string
  | BadHealthTimeout
  | VarName string name_problem
  | VarValue string
  | SecretName string name_problem
  | InVarsAndSecrets string
  | BadPubkey string
  | BadKeep
  | BadEnvName string
  | BadVault string
  | FactsWritten "string list"
  | BadHost string
  | BadUser string
  | PortZero
  | HostKeyWithoutHost
  | BadHostKey
  | BadResourceId string
  | BadRegion string
  | TooManyAllowed string
  | AllowedTwice string cidr
  | BadLine
  | LineKindTwice
  | LineAndSecret string
  | AppAllowNeedsPort
  | BadPort nat

definition problem_if :: "bool \<Rightarrow> manifest_problem \<Rightarrow> manifest_problem list" where
  "problem_if b p = (if b then [p] else [])"

definition build_problems :: "manifest \<Rightarrow> manifest_problem list" where
  "build_problems m =
     (let b = mf_build m
      in problem_if (bd_command b = [] \<or> list_ex (\<lambda>w. w = []) (bd_command b)) CommandWords @
         problem_if (list_ex (\<lambda>w. CHR 0x00 \<in> set w) (bd_command b)) CommandNul @
         (case bd_bin b of
            None \<Rightarrow> []
          | Some bin \<Rightarrow>
              problem_if (\<not> (bin \<noteq> [] \<and> length bin \<le> 64 \<and> list_all (\<lambda>c. is_ascii_alphanumeric c \<or> c = CHR ''-'' \<or> c = CHR ''_'') bin))
                (BadBin bin)))"

definition requirement_problems :: "requirement \<Rightarrow> manifest_problem list" where
  "requirement_problems req =
     problem_if (case req of AnyOf ns \<Rightarrow> length ns < 2 | One _ \<Rightarrow> False) SetTooSmall @
     concat (map (\<lambda>n. case check_env_name n of None \<Rightarrow> [] | Some p \<Rightarrow> [RequiresName n p]) (names_of req))"

definition file_plain :: "string \<Rightarrow> bool" where
  "file_plain file = (is_inside file \<and> list_all (\<lambda>b. is_ascii_alphanumeric b \<or> b \<in> set ''._-/'') file)"

fun file_problems :: "string list \<Rightarrow> string list \<Rightarrow> manifest_problem list" where
  "file_problems seen [] = []"
| "file_problems seen (f # fs) =
     (if \<not> is_relative_inside f \<or> \<not> file_plain f then BadFile f # file_problems seen fs
      else if f \<in> set seen then FileTwice f # file_problems seen fs
      else file_problems (f # seen) fs)"

definition run_problems :: "manifest \<Rightarrow> manifest_problem list" where
  "run_problems m =
     (let r = mf_run m
      in problem_if (length (ru_args r) > 64 \<or> list_ex (\<lambda>a. CHR 0x00 \<in> set a) (ru_args r)) BadArgs @
         concat (map requirement_problems (ru_requires r)) @
         problem_if (length (ru_files r) > 64) TooManyFiles @
         file_problems [] (ru_files r) @
         (case ru_health r of
            None \<Rightarrow> []
          | Some h \<Rightarrow>
              (case he_http h of None \<Rightarrow> [] | Some url \<Rightarrow> problem_if (\<not> is_loopback_url url) (BadHealthUrl url)) @
              problem_if (\<not> (1 \<le> he_timeout_secs h \<and> he_timeout_secs h \<le> 600)) BadHealthTimeout))"

definition is_linux_user :: "string \<Rightarrow> bool" where
  "is_linux_user u =
     (u \<noteq> [] \<and> length u \<le> 32 \<and> (case u of [] \<Rightarrow> False | b # _ \<Rightarrow> is_lower b \<or> b = CHR ''_'') \<and>
      list_all (\<lambda>b. is_lower b \<or> is_digit b \<or> b = CHR ''_'' \<or> b = CHR ''-'') u)"

definition host_key_shaped :: "string \<Rightarrow> bool" where
  "host_key_shaped key =
     (length (text_lines key) = 1 \<and> list_ex (starts_with key) [''ssh-ed25519 '', ''ssh-rsa '', ''ecdsa-sha2-'', ''sk-''])"

definition is_resource_id :: "string \<Rightarrow> bool" where
  "is_resource_id i = (i \<noteq> [] \<and> length i \<le> 64 \<and> list_all (\<lambda>b. is_ascii_alphanumeric b \<or> b = CHR ''-'' \<or> b = CHR ''_'') i)"

fun twice_problems :: "string \<Rightarrow> cidr list \<Rightarrow> cidr list \<Rightarrow> manifest_problem list" where
  "twice_problems field seen [] = []"
| "twice_problems field seen (c # cs) =
     (if c \<in> set seen then AllowedTwice field c # twice_problems field seen cs else twice_problems field (c # seen) cs)"

definition allow_problems :: "string \<Rightarrow> cidr list \<Rightarrow> manifest_problem list" where
  "allow_problems field cs = problem_if (length cs > max_allow) (TooManyAllowed field) @ twice_problems field [] cs"

definition env_problems :: "deploy_env \<Rightarrow> manifest_problem list" where
  "env_problems e =
     (case en_inventory e of
        None \<Rightarrow> []
      | Some v \<Rightarrow> problem_if (\<not> is_vault_id v) (BadVault v) @ problem_if (written_facts e \<noteq> []) (FactsWritten (written_facts e))) @
     (case en_host e of None \<Rightarrow> [] | Some h \<Rightarrow> problem_if (\<not> is_server_host h) (BadHost h)) @
     (case en_ssh_user e of None \<Rightarrow> [] | Some u \<Rightarrow> problem_if (\<not> is_linux_user u) (BadUser u)) @
     problem_if (en_ssh_port e = Some 0) PortZero @
     (case en_host_key e of
        None \<Rightarrow> []
      | Some key \<Rightarrow> problem_if (en_host e = None) HostKeyWithoutHost @ problem_if (\<not> host_key_shaped key) BadHostKey) @
     (case en_resource e of
        None \<Rightarrow> []
      | Some r \<Rightarrow>
          problem_if (\<not> is_resource_id (sr_id r)) (BadResourceId (sr_id r)) @
          (case sr_region r of None \<Rightarrow> [] | Some region \<Rightarrow> problem_if (\<not> is_slug region 32) (BadRegion region))) @
     allow_problems ''firewall.ssh_allow'' (en_ssh_allow e) @
     allow_problems ''firewall.app_allow'' (en_app_allow e)"

fun line_problems :: "line_kind list \<Rightarrow> data_line list \<Rightarrow> manifest_problem list" where
  "line_problems kinds [] = []"
| "line_problems kinds (l # ls) =
     problem_if (\<not> (ln_id l \<noteq> [] \<and> list_all is_digit (ln_id l)) \<or>
         \<not> (line_is_pending l \<or> endpoint_ok (ln_kind l) (ln_endpoint l))) BadLine @
     problem_if (ln_kind l \<in> set kinds) LineKindTwice @
     line_problems (ln_kind l # kinds) ls"

definition var_problems :: "string \<times> string \<Rightarrow> manifest_problem list" where
  "var_problems kv =
     (case check_env_name (fst kv) of None \<Rightarrow> [] | Some p \<Rightarrow> [VarName (fst kv) p]) @
     problem_if (length (snd kv) > 4096 \<or> list_ex (\<lambda>c. c \<in> {CHR 0x0A, CHR 0x0D, CHR 0x00}) (snd kv)) (VarValue (fst kv))"

definition secret_problems :: "manifest \<Rightarrow> string \<Rightarrow> manifest_problem list" where
  "secret_problems m name =
     (case check_env_name name of None \<Rightarrow> [] | Some p \<Rightarrow> [SecretName name p]) @
     problem_if (map_of (mf_vars m) name \<noteq> None) (InVarsAndSecrets name)"

text \<open>The problems of one environment come with its name; here only which there are.\<close>

definition one_env_problems :: "manifest \<Rightarrow> string \<times> deploy_env \<Rightarrow> manifest_problem list" where
  "one_env_problems m ne =
     (let (name, e) = ne
      in problem_if (\<not> is_slug name 16) (BadEnvName name) @
         env_problems e @ line_problems [] (en_lines e) @
         concat (map (\<lambda>(setting, _). problem_if (map_of (mf_secrets m) setting \<noteq> None) (LineAndSecret setting)) (line_vars e)) @
         problem_if (en_app_allow e \<noteq> [] \<and> ru_port (mf_run m) = None) AppAllowNeedsPort)"

definition problems :: "manifest \<Rightarrow> manifest_problem list" where
  "problems m =
     problem_if (\<not> is_slug (mf_name m) 32) (BadName (mf_name m)) @
     (case mf_template m of None \<Rightarrow> [] | Some t \<Rightarrow> (case check_template t (mf_chain m) of None \<Rightarrow> [] | Some p \<Rightarrow> [BadTemplate p])) @
     build_problems m @
     run_problems m @
     concat (map var_problems (mf_vars m)) @
     concat (map (secret_problems m) (map fst (mf_secrets m))) @
     (case Option.bind (mf_wallet m) wt_pubkey of
        None \<Rightarrow> []
      | Some key \<Rightarrow> problem_if (\<not> is_pubkey (mf_chain m) key) (BadPubkey key)) @
     problem_if (\<not> (1 \<le> mf_keep_releases m \<and> mf_keep_releases m \<le> 20)) BadKeep @
     concat (map (one_env_problems m) (mf_env m)) @
     (case ru_port (mf_run m) of
        None \<Rightarrow> []
      | Some port \<Rightarrow> problem_if (port = 0 \<or> list_ex (\<lambda>(_, e). env_ssh_port e = port) (mf_env m)) (BadPort port))"

subsection \<open>What is allowed but probably not meant\<close>

datatype manifest_warning =
    VarLooksSecret string
  | VarCarriesCredential string
  | NotSetLineOnDeploy requirement line_kind
  | NotSetLineOnRun requirement line_kind
  | NotSet requirement
  | NoPubkey
  | SshAllowEmpty string
  | ListensOnLoopback
  | OnlyOnThisMachine string secret_ref

definition everywhere :: "manifest \<Rightarrow> string list" where
  "everywhere m =
     map line_setting (filter (\<lambda>k. mf_env m \<noteq> [] \<and> list_all (\<lambda>(_, e). list_ex (\<lambda>l. ln_kind l = k) (en_lines e)) (mf_env m)) line_kinds)"

definition warnings :: "manifest \<Rightarrow> manifest_warning list" where
  "warnings m =
     concat (map (\<lambda>(n, v). if looks_secret n then [VarLooksSecret n] else if carries_credential v then [VarCarriesCredential n] else []) (mf_vars m)) @
     map (\<lambda>req. case find (\<lambda>k. line_setting k = first_name req) line_kinds of
            Some k \<Rightarrow> if k = LineUnlimited then NotSetLineOnDeploy req k else NotSetLineOnRun req k
          | None \<Rightarrow> NotSet req) (missing_besides m (everywhere m)) @
     (if (case mf_wallet m of None \<Rightarrow> False | Some w \<Rightarrow> wt_pubkey w = None) then [NoPubkey] else []) @
     concat (map (\<lambda>(n, e). if en_host e \<noteq> None \<and> en_ssh_allow e = [] then [SshAllowEmpty n] else []) (mf_env m)) @
     (if list_ex (\<lambda>(_, e). en_app_allow e \<noteq> []) (mf_env m) \<and> \<not> list_ex (\<lambda>(k, _). ends_in k ''BIND'') (mf_vars m) then [ListensOnLoopback] else []) @
     (if list_ex (\<lambda>(_, e). en_inventory e \<noteq> None) (mf_env m) then
        concat (map (\<lambda>(at, r). case r of Keychain _ _ \<Rightarrow> [OnlyOnThisMachine at r] | OnePassword _ \<Rightarrow> [])
          (map (\<lambda>(n, r). (''secrets.'' @ n, r)) (mf_secrets m) @ (case mf_wallet m of None \<Rightarrow> [] | Some w \<Rightarrow> [(''wallet.source'', wt_source w)])))
      else [])"

subsection \<open>Reading it\<close>

datatype manifest_error = CouldNotRead | TooLarge nat | NotToml | Invalid "manifest_problem list"

definition manifest_parse :: "(string \<Rightarrow> manifest option) \<Rightarrow> string \<Rightarrow> manifest_error + manifest" where
  "manifest_parse from_toml t =
     (case from_toml t of
        None \<Rightarrow> Err NotToml
      | Some m \<Rightarrow> if problems m = [] then Ok m else Err (Invalid (problems m)))"

definition manifest_max_bytes :: nat where "manifest_max_bytes = 256 * 1024"

text \<open>The size the file system tells, and the text it gives when it is read.\<close>

definition manifest_load :: "(string \<Rightarrow> manifest option) \<Rightarrow> nat option \<Rightarrow> string option \<Rightarrow> manifest_error + manifest" where
  "manifest_load from_toml told contents =
     (case told of
        None \<Rightarrow> Err CouldNotRead
      | Some n \<Rightarrow>
          if n > manifest_max_bytes then Err (TooLarge n)
          else (case contents of None \<Rightarrow> Err CouldNotRead | Some t \<Rightarrow> manifest_parse from_toml t))"

definition manifest_file_name :: string where "manifest_file_name = ''erpc.toml''"

text \<open>The directory and those above it, nearest first.\<close>

definition locate :: "(string \<Rightarrow> bool) \<Rightarrow> string list \<Rightarrow> string option" where
  "locate is_file ancestors = find is_file (map (\<lambda>d. path_join d manifest_file_name) ancestors)"

subsection \<open>The launch file\<close>

definition launch_vars :: "manifest \<Rightarrow> deploy_env \<Rightarrow> (string \<times> string) list" where
  "launch_vars m e =
     foldl (\<lambda>v (n, endpoint). bt_insert n endpoint v)
       (foldl (\<lambda>v (n, url). bt_or_insert n url v) (mf_vars m) (services_vars m)) (line_vars e)"

definition launch_for_app :: "manifest \<Rightarrow> deploy_env \<Rightarrow> unit + launch" where
  "launch_for_app m e =
     and_then (case mf_wallet m of
         None \<Rightarrow> Ok None
       | Some w \<Rightarrow> (case wt_pubkey w of None \<Rightarrow> Err () | Some k \<Rightarrow> Ok (Some k)))
       (\<lambda>pubkey. Ok
         \<lparr>la_format = launch_format, la_bin = bin_of m, la_args = ru_args (mf_run m), la_vars = launch_vars m e,
          la_secrets = map fst (mf_secrets m), la_pubkey = pubkey,
          la_http = Option.bind (ru_health (mf_run m)) he_http,
          la_timeout_secs = (case ru_health (mf_run m) of None \<Rightarrow> 30 | Some h \<Rightarrow> he_timeout_secs h),
          la_keep_releases = mf_keep_releases m\<rparr>)"

subsection \<open>What a deploy uploads\<close>

text \<open>Where a file of a release is put before it is installed, and the names in that directory, written in this order.\<close>

definition staged_path :: "string \<Rightarrow> string \<Rightarrow> string \<Rightarrow> string" where
  "staged_path unit release file = ''/opt/erpc/uploads/'' @ unit @ ''/'' @ release @ ''/'' @ file"

definition staged_files :: "string \<times> string \<Rightarrow> string \<Rightarrow> string \<Rightarrow> (string \<times> string) list \<Rightarrow> (string, string) hash_map" where
  "staged_files binary record_text launch_text files =
     foldl (\<lambda>d (p, b). hm_insert p b d) [] ([binary, (''release.json'', record_text), (''launch.json'', launch_text)] @ files)"

end
