(* ===== verification/Manifest_Properties.thy ===== *)
theory Manifest_Properties
  imports Manifest Remote_Command Worker_Supervisor
begin

text \<open>
  What \<open>erpc.toml\<close> promises the parts after it: an accepted manifest is one every later part takes, from the deploy
  that uploads it to the agent that starts the app, and its settings reach the app as written.
\<close>

subsection \<open>Names\<close>

lemma has_text_iff: "has_text p s \<longleftrightarrow> (\<exists>x y. s = x @ p @ y)"
proof (induction s)
  case (Cons c cs)
  then show ?case
    by (auto simp: starts_with_iff Cons_eq_append_conv)
qed auto

lemma ends_in_last: "ends_in s [c] \<longleftrightarrow> s \<noteq> [] \<and> last s = c"
  by (cases s rule: rev_cases) (auto simp: ends_in_def)

lemma slugs_joined:
  assumes "is_slug a n" "is_slug b k"
  shows "is_slug (a @ ''-'' @ b) (n + k + 1)"
proof -
  have a: "a \<noteq> []" "length a \<le> n" "is_lower (hd a)" "last a \<noteq> CHR ''-''" "\<not> has_text ''--'' a"
    and b: "b \<noteq> []" "length b \<le> k" "is_lower (hd b)" "last b \<noteq> CHR ''-''" "\<not> has_text ''--'' b"
    and all: "list_all (\<lambda>c. is_lower c \<or> is_digit c \<or> c = CHR ''-'') (a @ ''-'' @ b)"
    using assms by (auto simp: is_slug_def ends_in_last)
  have hyphen: "\<not> is_lower (CHR ''-'')" by code_simp
  have "\<not> has_text ''--'' (a @ ''-'' @ b)"
  proof
    assume "has_text ''--'' (a @ ''-'' @ b)"
    then obtain x y where xy: "a @ CHR ''-'' # b = x @ CHR ''-'' # CHR ''-'' # y" by (auto simp: has_text_iff)
    then consider (in_a) z where "a = x @ CHR ''-'' # CHR ''-'' # z" | (last_a) "a = x @ ''-''" | (first_b) "b = CHR ''-'' # y" "a = x"
      | (in_b) z where "b = z @ CHR ''-'' # CHR ''-'' # y"
      by (auto simp: append_eq_append_conv2 Cons_eq_append_conv append_eq_Cons_conv)
    then show False
    proof cases
      case in_a
      with a(5) show False by (auto simp: has_text_iff)
    next
      case last_a
      with a(4) show False by simp
    next
      case first_b
      with b(3) hyphen show False by simp
    next
      case in_b
      with b(5) show False by (auto simp: has_text_iff)
    qed
  qed
  with a b all show ?thesis by (simp add: is_slug_def ends_in_last)
qed

subsection \<open>What a manifest without problems has\<close>

lemma problem_if_Nil [simp]: "problem_if b p = [] \<longleftrightarrow> \<not> b"
  by (simp add: problem_if_def)

lemma file_problems_Nil:
  "file_problems seen fs = [] \<Longrightarrow> (\<forall>f \<in> set fs. is_relative_inside f \<and> file_plain f \<and> f \<notin> set seen) \<and> distinct fs"
proof (induction fs arbitrary: seen)
  case (Cons f fs)
  from Cons.prems have ok: "is_relative_inside f" "file_plain f" "f \<notin> set seen" and rest: "file_problems (f # seen) fs = []"
    by (simp_all split: if_splits)
  from Cons.IH [OF rest] ok show ?case by auto
qed simp

lemma line_problems_Nil:
  "line_problems kinds ls = [] \<Longrightarrow>
     distinct (map ln_kind ls) \<and> set (map ln_kind ls) \<inter> set kinds = {} \<and>
     (\<forall>l \<in> set ls. line_is_pending l \<or> endpoint_ok (ln_kind l) (ln_endpoint l))"
  by (induction kinds ls rule: line_problems.induct) auto

lemma no_problems:
  assumes "problems m = []"
  shows no_problem_name: "is_slug (mf_name m) 32"
    and no_problem_bin: "bd_bin (mf_build m) = Some b \<Longrightarrow>
          b \<noteq> [] \<and> length b \<le> 64 \<and> list_all (\<lambda>c. is_ascii_alphanumeric c \<or> c = CHR ''-'' \<or> c = CHR ''_'') b"
    and no_problem_files: "file_problems [] (ru_files (mf_run m)) = []"
    and no_problem_var: "(k, v) \<in> set (mf_vars m) \<Longrightarrow> check_env_name k = None"
    and no_problem_secret: "k \<in> set (map fst (mf_secrets m)) \<Longrightarrow> check_env_name k = None \<and> map_of (mf_vars m) k = None"
    and no_problem_env: "(n, e) \<in> set (mf_env m) \<Longrightarrow> is_slug n 16 \<and> line_problems [] (en_lines e) = [] \<and>
          (\<forall>(s, _) \<in> set (line_vars e). map_of (mf_secrets m) s = None)"
proof -
  from assms show "is_slug (mf_name m) 32" by (simp add: problems_def)
  from assms have "build_problems m = []" by (simp add: problems_def)
  then show "bd_bin (mf_build m) = Some b \<Longrightarrow>
      b \<noteq> [] \<and> length b \<le> 64 \<and> list_all (\<lambda>c. is_ascii_alphanumeric c \<or> c = CHR ''-'' \<or> c = CHR ''_'') b"
    by (simp add: build_problems_def Let_def)
  from assms have "run_problems m = []" by (simp add: problems_def)
  then show "file_problems [] (ru_files (mf_run m)) = []" by (simp add: run_problems_def Let_def)
  from assms have vars: "\<forall>kv \<in> set (mf_vars m). var_problems kv = []"
    and secrets: "\<forall>k \<in> set (map fst (mf_secrets m)). secret_problems m k = []"
    and envs: "\<forall>ne \<in> set (mf_env m). one_env_problems m ne = []" by (simp_all add: problems_def)
  show "check_env_name k = None" if "(k, v) \<in> set (mf_vars m)"
    using vars that by (fastforce simp: var_problems_def split: option.splits)
  show "check_env_name k = None \<and> map_of (mf_vars m) k = None" if "k \<in> set (map fst (mf_secrets m))"
    using secrets that unfolding secret_problems_def by (fastforce split: option.splits)
  show "is_slug n 16 \<and> line_problems [] (en_lines e) = [] \<and> (\<forall>(s, _) \<in> set (line_vars e). map_of (mf_secrets m) s = None)"
    if "(n, e) \<in> set (mf_env m)"
  proof -
    from envs that have "one_env_problems m (n, e) = []" by blast
    then show ?thesis by (auto simp: one_env_problems_def)
  qed
qed

subsection \<open>Where a release is uploaded\<close>

lemma split_on_chars: "p \<in> set (split_on c s) \<Longrightarrow> set p \<subseteq> set s"
  by (induction s arbitrary: p) (fastforce split: list.splits if_splits)+

lemma slug_part: "is_slug s n \<Longrightarrow> is_path_part s"
proof -
  assume "is_slug s n"
  then have "s \<noteq> []" "is_lower (hd s)" "list_all (\<lambda>b. is_lower b \<or> is_digit b \<or> b = CHR ''-'') s" by (simp_all add: is_slug_def)
  moreover have "\<not> is_lower (CHR ''.'')" by code_simp
  ultimately show ?thesis
    by (cases s) (auto simp: is_path_part_def list_all_iff is_ascii_alphanumeric_def is_lower_def is_digit_def)
qed

lemma file_parts:
  assumes "file_plain f"
  shows "list_all is_path_part (split_on (CHR ''/'') f)"
  unfolding list_all_iff
proof
  fix p assume p: "p \<in> set (split_on (CHR ''/'') f)"
  with assms have "p \<noteq> []" "p \<noteq> ''.''" "p \<noteq> ''..''" by (auto simp: file_plain_def is_inside_def list_all_iff)
  moreover have "is_ascii_alphanumeric c \<or> c \<in> set ''._-''" if "c \<in> set p" for c
  proof -
    have "c \<in> set f" "c \<noteq> CHR ''/''" using that split_on_chars [OF p] split_on_no_sep [OF p] by auto
    with assms show ?thesis by (auto simp: file_plain_def list_all_iff)
  qed
  ultimately show "is_path_part p" by (simp add: is_path_part_def list_all_iff)
qed

lemma bin_plain: "b \<noteq> [] \<Longrightarrow> list_all (\<lambda>c. is_ascii_alphanumeric c \<or> c = CHR ''-'' \<or> c = CHR ''_'') b \<Longrightarrow>
    is_path_part b \<and> CHR ''/'' \<notin> set b \<and> is_inside b \<and> CHR ''.'' \<notin> set b"
proof -
  assume b: "b \<noteq> []" "list_all (\<lambda>c. is_ascii_alphanumeric c \<or> c = CHR ''-'' \<or> c = CHR ''_'') b"
  have "\<not> is_ascii_alphanumeric c" if "c \<in> {CHR ''/'', CHR ''.'', CHR 0x5C, CHR 0x00}" for c
    using that by (auto simp: is_ascii_alphanumeric_def byte_of_def)
  with b have no: "CHR ''/'' \<notin> set b" "CHR ''.'' \<notin> set b" "CHR 0x5C \<notin> set b" "CHR 0x00 \<notin> set b" by (auto simp: list_all_iff)
  then have "split_on (CHR ''/'') b = [b]" "b \<noteq> ''.''" "b \<noteq> ''..''" by (auto simp: split_on_one)
  with b no show ?thesis by (auto simp: is_path_part_def is_inside_def list_all_iff)
qed

lemma release_part:
  assumes "release_id_new r = Some r"
  shows "is_path_part r"
proof -
  let ?ok = "\<lambda>c. is_ascii_alphanumeric c \<or> c \<in> set ''._-''"
  from assms have "is_release_id r" by (simp add: release_id_new_exact split: if_splits)
  then obtain time digest where r: "r = time @ CHR ''-'' # digest" and n: "length time = 16" and
    p: "list_all is_digit (take 8 time)" "time ! 8 = CHR ''T''" "list_all is_digit (take 6 (drop 9 time))" "time ! 15 = CHR ''Z''"
      "list_all is_lower_hex digest"
    by (auto simp: is_release_id_def split_once_Some split: option.splits)
  have digits: "list_all ?ok x" if "list_all is_digit x" for x
    using that by (auto simp: list_all_iff is_digit_def is_ascii_alphanumeric_def)
  have "list_all ?ok digest" using p(5) by (auto simp: list_all_iff is_lower_hex_def is_digit_def is_ascii_alphanumeric_def)
  moreover have "?ok (CHR ''T'')" "?ok (CHR ''Z'')" by (simp_all add: is_ascii_alphanumeric_def byte_of_def)
  then have "list_all ?ok (take 8 time @ [time ! 8] @ take 6 (drop 9 time) @ [time ! 15])" using digits p by simp
  then have "list_all ?ok time" by (simp only: split_16 [OF n, symmetric])
  moreover have "3 \<le> length r" using r n by simp
  then have "r \<noteq> ''.''" "r \<noteq> ''..''" by auto
  ultimately show ?thesis by (simp add: is_path_part_def r)
qed

text \<open>A path of such parts is one a deploy may write.\<close>

lemma staged_path_taken:
  assumes "is_path_part u" "is_path_part r" "list_all is_path_part (split_on (CHR ''/'') f)"
  shows "remote_path_new (staged_path u r f) = Ok (staged_path u r f)"
proof -
  have no: "CHR ''/'' \<notin> set p" if "is_path_part p" for p
    using that by (auto simp: is_path_part_def list_all_iff is_ascii_alphanumeric_def byte_of_def)
  let ?rest = "''uploads'' @ CHR ''/'' # u @ CHR ''/'' # r @ CHR ''/'' # f"
  have "split_on (CHR ''/'') ?rest = ''uploads'' # u # r # split_on (CHR ''/'') f"
    by (subst split_on_cons, simp)+ (use no assms in \<open>simp add: split_on_cons\<close>)
  moreover have "is_path_part ''uploads''" by code_simp
  moreover have "staged_path u r f = ''/opt/erpc/'' @ ?rest" by (simp add: staged_path_def)
  ultimately show ?thesis using assms by (simp add: remote_path_new_def writable_roots_def)
qed

lemma unit_id_taken:
  assumes "is_slug (mf_name m) 32" "is_slug n 16"
  shows "unit_id_new (unit_id_of m n) = Some (unit_id_of m n)" "is_path_part (unit_id_of m n)"
  using slugs_joined [OF assms] slug_part by (auto simp: unit_id_of_def unit_id_new_exact is_unit_id_def)

lemma bin_of_plain:
  assumes "problems m = []"
  shows "is_path_part (bin_of m) \<and> CHR ''/'' \<notin> set (bin_of m) \<and> is_inside (bin_of m) \<and> CHR ''.'' \<notin> set (bin_of m)"
proof (cases "bd_bin (mf_build m)")
  case (Some b)
  with no_problem_bin [OF assms Some] show ?thesis by (simp add: bin_of_def bin_plain)
next
  case None
  from no_problem_name [OF assms] have "mf_name m \<noteq> []" "list_all (\<lambda>c. is_ascii_alphanumeric c \<or> c = CHR ''-'' \<or> c = CHR ''_'') (mf_name m)"
    by (auto simp: is_slug_def list_all_iff is_lower_def is_digit_def is_ascii_alphanumeric_def)
  with None show ?thesis by (simp add: bin_of_def bin_plain)
qed

subsection \<open>The settings\<close>

lemma map_of_bt_inserts:
  "map_of (foldl (\<lambda>v (n, x). bt_insert n x v) m kvs) k = (case map_of (List.rev kvs) k of None \<Rightarrow> map_of m k | Some v \<Rightarrow> Some v)"
  by (induction kvs arbitrary: m) (auto split: option.splits)

lemma map_of_bt_or_inserts:
  "map_of (foldl (\<lambda>v (n, x). bt_or_insert n x v) m kvs) k = (case map_of m k of None \<Rightarrow> map_of kvs k | Some v \<Rightarrow> Some v)"
  by (induction kvs arbitrary: m) (auto split: option.splits)

lemma map_of_launch_vars:
  "map_of (launch_vars m e) k =
     (case map_of (List.rev (line_vars e)) k of
        Some v \<Rightarrow> Some v
      | None \<Rightarrow> (case map_of (mf_vars m) k of Some v \<Rightarrow> Some v | None \<Rightarrow> map_of (services_vars m) k))"
  by (simp add: launch_vars_def map_of_bt_inserts map_of_bt_or_inserts split: option.splits)

lemma line_setting_inj: "line_setting a = line_setting b \<Longrightarrow> a = b"
  by (cases a; cases b) (simp_all add: line_setting_def)

lemma line_vars_distinct: "distinct (map ln_kind (en_lines e)) \<Longrightarrow> distinct (map fst (line_vars e))"
proof -
  assume "distinct (map ln_kind (en_lines e))"
  then have "distinct (map ln_kind (filter (\<lambda>l. \<not> line_is_pending l) (en_lines e)))" by (simp add: distinct_map_filter)
  then have "distinct (map line_setting (map ln_kind (filter (\<lambda>l. \<not> line_is_pending l) (en_lines e))))"
    unfolding distinct_map [of line_setting] by (auto intro!: inj_onI dest: line_setting_inj)
  then show ?thesis by (simp add: line_vars_def comp_def)
qed

lemma line_setting_ok: "check_env_name (line_setting k) = None"
  by (cases k) (simp_all add: line_setting_def check_env_name_def is_upper_def is_digit_def byte_of_def starts_with_def reserved_names_def)

lemma service_names_ok: "check_env_name ''REDIS_URL'' = None" "check_env_name ''DATABASE_URL'' = None"
  by code_simp+

lemma services_vars_ok: "(k, v) \<in> set (services_vars m) \<Longrightarrow> check_env_name k = None \<and> k \<in> {''REDIS_URL'', ''DATABASE_URL''}"
  using service_names_ok by (auto simp: services_vars_def split: if_splits)

lemma launch_vars_ok:
  assumes "problems m = []" "map_of (launch_vars m e) k = Some v"
  shows "check_env_name k = None"
proof -
  have "(k, v) \<in> set (line_vars e) \<or> (k, v) \<in> set (mf_vars m) \<or> (k, v) \<in> set (services_vars m)"
    using assms(2) by (auto simp: map_of_launch_vars split: option.splits dest!: map_of_SomeD)
  then show ?thesis
    using no_problem_var [OF assms(1)] services_vars_ok line_setting_ok by (auto simp: line_vars_def)
qed

lemma launch_for_app_fields:
  assumes "launch_for_app m e = Ok l"
  shows "la_format l = launch_format" "la_bin l = bin_of m" "la_vars l = launch_vars m e" "la_secrets l = map fst (mf_secrets m)"
  using assms by (auto simp: launch_for_app_def and_then_Ok)

text \<open>What a deploy stages: the files the app ships last, each over what had its name before.\<close>

lemma hm_get_staged:
  "hm_get (staged_files binary record_text launch_text shipped) f =
     (case map_of (List.rev shipped) f of
        Some b \<Rightarrow> Some b
      | None \<Rightarrow> (if f = ''launch.json'' then Some launch_text else if f = ''release.json'' then Some record_text
                else if f = fst binary then Some (snd binary) else None))"
proof -
  have ins: "hm_get (foldl (\<lambda>d (p, b). hm_insert p b d) d kvs) k = (case map_of (List.rev kvs) k of Some b \<Rightarrow> Some b | None \<Rightarrow> hm_get d k)"
    for d :: "(string, string) hash_map" and kvs k
    by (induction kvs arbitrary: d) (auto split: option.splits)
  obtain name bytes where binary: "binary = (name, bytes)" by (cases binary)
  show ?thesis
    unfolding staged_files_def foldl_append ins binary
    by (cases "map_of (List.rev shipped) f") (simp_all add: hm_get_def)
qed

text \<open>
  C9: An accepted manifest is one the later parts take: the name of each of its workers is one erpc sends and the agent
  holds for a unit's, and the binary and each file it ships has a place a deploy may write and stays inside the release.
  The launch file is made unless \<open>[wallet]\<close> names no public key, which is no problem of the manifest and is refused
  there; the file made is one the agent reads, and no setting in it takes the place of what the server or erpc sets.
  A deploy then stages the binary, the release's record, the launch file and every shipped file as they are,
  except that a shipped file called \<open>launch.json\<close>, \<open>release.json\<close> or as the binary, which the manifest may
  name, is staged in that file's place.
\<close>

theorem an_accepted_manifest_is_taken:
  assumes "manifest_parse from_toml t = Ok m" and "map_of (mf_env m) n = Some e" and "release_id_new r = Some r"
    and "\<And>l. launch_for_app m e = Ok l \<Longrightarrow> read_launch (write l) = Some l" and "map fst shipped = ru_files (mf_run m)"
  shows "unit_id_new (unit_id_of m n) = Some (unit_id_of m n) \<and> is_unit_id (unit_id_of m n) \<and>
    list_all (\<lambda>f. is_inside f \<and> remote_path_new (staged_path (unit_id_of m n) r f) = Ok (staged_path (unit_id_of m n) r f))
      (bin_of m # ru_files (mf_run m)) \<and>
    (case launch_for_app m e of
       Inl _ \<Rightarrow> \<exists>w. mf_wallet m = Some w \<and> wt_pubkey w = None
     | Inr l \<Rightarrow>
        (\<forall>w. mf_wallet m = Some w \<longrightarrow> wt_pubkey w \<noteq> None) \<and> la_bin l = bin_of m \<and>
        launch_parse read_launch (write l) = Ok l \<and>
        list_all (\<lambda>k. check_env_name k = None) (map fst (la_vars l) @ la_secrets l) \<and>
        (let staged = hm_get (staged_files (bin_of m, program) record_text (write l) shipped) in
           (\<forall>(f, b) \<in> set shipped. staged f = Some b) \<and>
           (''launch.json'' \<notin> set (ru_files (mf_run m)) \<longrightarrow> staged ''launch.json'' = Some (write l)) \<and>
           (''release.json'' \<notin> set (ru_files (mf_run m)) \<longrightarrow> staged ''release.json'' = Some record_text) \<and>
           (bin_of m \<notin> set (ru_files (mf_run m)) \<longrightarrow> staged (bin_of m) = Some program)))"
proof -
  from assms(1) have ok: "problems m = []" by (auto simp: manifest_parse_def split: option.splits if_splits)
  note bin = bin_of_plain [OF ok] and files = file_problems_Nil [OF no_problem_files [OF ok]]
  have slugs: "is_slug (mf_name m) 32" "is_slug n 16"
    using no_problem_name [OF ok] no_problem_env [OF ok map_of_SomeD [OF assms(2)]] by simp_all
  note unit = unit_id_taken [OF slugs]
  have "is_unit_id (unit_id_of m n)" using unit(1) by (simp add: unit_id_new_exact split: if_splits)
  moreover have "is_inside f \<and> remote_path_new (staged_path (unit_id_of m n) r f) = Ok (staged_path (unit_id_of m n) r f)"
    if "f \<in> set (bin_of m # ru_files (mf_run m))" for f
  proof -
    have "is_inside f \<and> list_all is_path_part (split_on (CHR ''/'') f)"
      using that bin files file_parts by (auto simp: split_on_one file_plain_def)
    then show ?thesis using staged_path_taken [OF unit(2) release_part [OF assms(3)]] by simp
  qed
  moreover have "\<exists>w. mf_wallet m = Some w \<and> wt_pubkey w = None" if "launch_for_app m e = Inl u" for u
    using that by (auto simp: launch_for_app_def and_then_def split: option.splits)
  moreover have "wt_pubkey w \<noteq> None" if "launch_for_app m e = Inr l" "mf_wallet m = Some w" for l w
    using that by (auto simp: launch_for_app_def and_then_def split: option.splits)
  moreover have "check_env_name k = None" if l: "launch_for_app m e = Inr l" and "k \<in> set (map fst (la_vars l) @ la_secrets l)" for k l
  proof -
    from that(2) consider v where "map_of (launch_vars m e) k = Some v" | "k \<in> set (map fst (mf_secrets m))"
      by (cases "map_of (launch_vars m e) k") (auto simp: launch_for_app_fields [OF l] map_of_eq_None_iff)
    then show ?thesis using launch_vars_ok [OF ok] no_problem_secret [OF ok] by cases blast+
  qed
  moreover have "launch_parse read_launch (write l) = Ok l" if "launch_for_app m e = Inr l" for l
    using bin assms(4) [OF that] by (simp add: launch_parse_def launch_for_app_fields [OF that])
  moreover have "hm_get (staged_files (bin_of m, program) record_text x shipped) f = Some b" if "(f, b) \<in> set shipped" for f b x
  proof -
    have "distinct (map fst (List.rev shipped))" using files by (simp add: assms(5) rev_map [symmetric])
    then have "map_of (List.rev shipped) f = Some b" using that by simp
    then show ?thesis by (simp add: hm_get_staged)
  qed
  moreover have "bin_of m \<noteq> ''launch.json''" "bin_of m \<noteq> ''release.json''" using bin by auto
  moreover have "map_of (List.rev shipped) f = None" if "f \<notin> set (ru_files (mf_run m))" for f
    using that by (auto simp: map_of_eq_None_iff assms(5) [symmetric] image_iff)
  ultimately show ?thesis
    using unit(1) by (cases "launch_for_app m e") (auto simp: list_all_iff Let_def hm_get_staged launch_for_app_fields)
qed

lemma map_of_reversed: "distinct (map fst kvs) \<Longrightarrow> map_of (List.rev kvs) k = map_of kvs k"
proof -
  assume d: "distinct (map fst kvs)"
  then have "distinct (map fst (List.rev kvs))" by (simp add: rev_map [symmetric])
  with d have "map_of (List.rev kvs) k = Some v \<longleftrightarrow> map_of kvs k = Some v" for v by simp
  then show ?thesis by (metis not_None_eq)
qed

lemma server_names: "check_env_name ''PATH'' \<noteq> None" "check_env_name ''HOME'' \<noteq> None" "check_env_name ''ERPC_WORKER_STATE_DIR'' \<noteq> None"
  "check_env_name ''ERPC_WORKER_PUBKEY'' \<noteq> None" "check_env_name ''ERPC_WORKER_KEY_FD'' \<noteq> None"
  by code_simp+

definition server_env :: "supervisor \<Rightarrow> (string, string) hash_map" where
  "server_env s =
     [(''PATH'', ''/usr/local/bin:/usr/bin:/bin''), (''HOME'', su_state_dir s), (''LANG'', ''C.UTF-8''), (''ERPC_WORKER_STATE_DIR'', su_state_dir s)]"

lemma app_env_setting:
  assumes "check_env_name k = None"
  shows "hm_get (app_env s l) k =
    first_some id [map_of (su_secrets s) k, map_of (la_vars l) k, if k = ''LANG'' then Some ''C.UTF-8'' else None]"
proof -
  have "k \<noteq> ''ERPC_WORKER_PUBKEY''" "k \<noteq> ''ERPC_WORKER_KEY_FD''" using assms server_names by auto
  then have "hm_get (app_env s l) k = first_some id [map_of (su_secrets s) k, map_of (la_vars l) k, hm_get (server_env s) k]"
    unfolding app_env_def Let_def server_env_def [symmetric]
    by (cases "map_of (su_secrets s) k"; cases "map_of (la_vars l) k"; cases "la_pubkey l"; cases "hm_get (server_env s) k")
      (simp_all add: hm_get_with_envs)
  moreover have "hm_get (server_env s) k = (if k = ''LANG'' then Some ''C.UTF-8'' else None)"
    using assms server_names by (auto simp: server_env_def hm_get_def)
  ultimately show ?thesis by (simp only:)
qed

lemma app_env_not_set:
  assumes "map_of (su_secrets s) k = None" "map_of (la_vars l) k = None"
  shows "hm_get (app_env s l) k = hm_get (app_env (s\<lparr>su_secrets := []\<rparr>) (l\<lparr>la_vars := []\<rparr>)) k"
  using assms by (simp add: app_env_def Let_def hm_get_with_envs split: option.split)

text \<open>
  C16: Each setting reaches the app as it is written: a secret as the value that was handed over for it, else what a data
  line of the environment sets, else what \<open>[vars]\<close> says, else the address of a service; and a name no setting may
  have keeps what the server sets.
\<close>

theorem each_setting_reaches_the_app:
  assumes "manifest_parse from_toml t = Ok m" and "map_of (mf_env m) n = Some e" and "launch_for_app m e = Ok l"
    and "map fst (su_secrets s) = map fst (mf_secrets m)"
  shows "hm_get (app_env s l) k =
    (if check_env_name k = None then
       first_some id [map_of (su_secrets s) k, map_of (line_vars e) k, map_of (mf_vars m) k, map_of (services_vars m) k,
         if k = ''LANG'' then Some ''C.UTF-8'' else None]
     else hm_get (app_env (s\<lparr>su_secrets := []\<rparr>) (l\<lparr>la_vars := []\<rparr>)) k) \<and>
    (map_of (line_vars e) k \<noteq> None \<or> map_of (mf_vars m) k \<noteq> None \<longrightarrow> map_of (su_secrets s) k = None)"
proof (intro conjI impI)
  from assms(1) have ok: "problems m = []" by (auto simp: manifest_parse_def split: option.splits if_splits)
  note l = launch_for_app_fields [OF assms(3)] and env = no_problem_env [OF ok map_of_SomeD [OF assms(2)]]
  have "distinct (map fst (line_vars e))" using env line_problems_Nil line_vars_distinct by blast
  from map_of_reversed [OF this] have vars: "map_of (la_vars l) k = first_some id [map_of (line_vars e) k, map_of (mf_vars m) k, map_of (services_vars m) k]"
    by (simp add: l map_of_launch_vars split: option.split)
  have secret: "map_of (su_secrets s) k = None \<longleftrightarrow> map_of (mf_secrets m) k = None"
    using assms(4) unfolding map_of_eq_None_iff by (metis list.set_map)
  show "hm_get (app_env s l) k =
    (if check_env_name k = None then
       first_some id [map_of (su_secrets s) k, map_of (line_vars e) k, map_of (mf_vars m) k, map_of (services_vars m) k,
         if k = ''LANG'' then Some ''C.UTF-8'' else None]
     else hm_get (app_env (s\<lparr>su_secrets := []\<rparr>) (l\<lparr>la_vars := []\<rparr>)) k)"
  proof (cases "check_env_name k = None")
    case True
    then show ?thesis
      by (cases "map_of (su_secrets s) k"; cases "map_of (line_vars e) k"; cases "map_of (mf_vars m) k"; cases "map_of (services_vars m) k") (simp_all add: app_env_setting vars)
  next
    case False
    have "map_of (la_vars l) k = None" using launch_vars_ok [OF ok, of e k] False by (cases "map_of (la_vars l) k") (auto simp: l)
    moreover have "map_of (mf_secrets m) k = None"
      using no_problem_secret [OF ok, of k] False unfolding map_of_eq_None_iff by auto
    then have "map_of (su_secrets s) k = None" by (simp only: secret)
    ultimately have "hm_get (app_env s l) k = hm_get (app_env (s\<lparr>su_secrets := []\<rparr>) (l\<lparr>la_vars := []\<rparr>)) k"
      by (intro app_env_not_set)
    then show ?thesis unfolding if_not_P [OF False] .
  qed
  assume "map_of (line_vars e) k \<noteq> None \<or> map_of (mf_vars m) k \<noteq> None"
  then have "map_of (mf_secrets m) k = None"
  proof
    assume "map_of (line_vars e) k \<noteq> None"
    then obtain v where "(k, v) \<in> set (line_vars e)" by (auto dest: map_of_SomeD)
    with env show ?thesis by blast
  next
    assume "map_of (mf_vars m) k \<noteq> None"
    with no_problem_secret [OF ok, of k] show ?thesis unfolding map_of_eq_None_iff by auto
  qed
  then show "map_of (su_secrets s) k = None" by (simp only: secret)
qed

subsection \<open>References and the release's own files\<close>

definition secret_ref_valid :: "secret_ref \<Rightarrow> bool" where
  "secret_ref_valid r = (case r of OnePassword p \<Rightarrow> op_ref_valid p | Keychain service account \<Rightarrow> keychain_part service \<and> keychain_part account)"

lemma keychain_no_slash: "keychain_part p \<Longrightarrow> CHR ''/'' \<notin> set p"
  by (auto simp: keychain_part_def list_all_iff is_ascii_alphanumeric_def byte_of_def)

lemma secret_reference_reads_back: "secret_ref_parse raw = Ok r \<longleftrightarrow> secret_ref_valid r \<and> raw = secret_ref_show r"
proof (cases r)
  case (OnePassword p)
  have shown: "starts_with (op_ref_show p) ''op://''" unfolding starts_with_iff op_ref_show_def by blast
  have "secret_ref_parse raw = Ok r \<longleftrightarrow> starts_with raw ''op://'' \<and> op_ref_parse raw = Ok p"
    by (cases "op_ref_parse raw") (auto simp: secret_ref_parse_def OnePassword split: option.splits if_splits prod.splits)
  then show ?thesis
    using op_ref_parse_valid [of raw p] op_ref_parse_show [of p] shown by (auto simp: secret_ref_valid_def secret_ref_show_def OnePassword)
next
  case (Keychain service account)
  have no: "\<not> starts_with (''keychain:'' @ x) ''op://''" for x by (auto simp: starts_with_iff)
  show ?thesis
  proof
    assume a: "secret_ref_parse raw = Ok r"
    then have "\<not> starts_with raw ''op://''"
      by (cases "op_ref_parse raw") (simp_all add: secret_ref_parse_def Keychain split: if_splits option.splits)
    with a show "secret_ref_valid r \<and> raw = secret_ref_show r"
      by (simp add: secret_ref_parse_def Keychain secret_ref_valid_def secret_ref_show_def split_once_Some split: option.splits if_splits prod.splits)
  next
    assume r: "secret_ref_valid r \<and> raw = secret_ref_show r"
    then have "split_once (CHR ''/'') (service @ ''/'' @ account) = Some (service, account)"
      using keychain_no_slash by (simp add: Keychain secret_ref_valid_def split_once_Some)
    with r no show "secret_ref_parse raw = Ok r"
      by (simp add: secret_ref_parse_def Keychain secret_ref_valid_def secret_ref_show_def)
  qed
qed

text \<open>A file the app ships may have the name of the release's launch file, and then takes its place.\<close>

lemma a_shipped_file_takes_the_launch_files_place:
  "file_problems [] [''launch.json''] = [] \<and>
   hm_get (staged_files (''bot'', b) record_text launch_text [(''launch.json'', own)]) ''launch.json'' = Some own"
  by (simp add: staged_files_def, code_simp)

subsection \<open>The claims at work\<close>

definition sample_line :: data_line where
  "sample_line = \<lparr>ln_kind = LineGrpc, ln_id = ''17'', ln_endpoint = ''https://g.erpc'', ln_hourly = True\<rparr>"

definition sample_deploy_env :: deploy_env where
  "sample_deploy_env =
     \<lparr>en_inventory = None, en_resource = None, en_host = None, en_ssh_user = None, en_ssh_port = None, en_host_key = None,
      en_ssh_allow = [], en_app_allow = [], en_lines = [sample_line], en_backup = None\<rparr>"

definition sample_manifest :: manifest where
  "sample_manifest =
     \<lparr>mf_name = ''bot'', mf_chain = Solana, mf_template = None, mf_build = build_default,
      mf_run = \<lparr>ru_args = [], ru_files = [''a/b''], ru_requires = [], ru_port = None, ru_health = None\<rparr>,
      mf_vars = [(''LOG'', ''info'')], mf_secrets = [(''KEY'', Keychain ''erpc'' ''key'')], mf_wallet = None, mf_keep_releases = 5,
      mf_redis = True, mf_postgres = False, mf_env = [(''main'', sample_deploy_env)]\<rparr>"

lemma sample_names: "check_env_name ''LOG'' = None" "check_env_name ''KEY'' = None"
  by code_simp+

lemma sample_endpoint: "endpoint_ok LineGrpc ''https://g.erpc''"
proof -
  have "is_server_host ''g.erpc''"
    by (simp add: is_server_host_def is_host_def is_host_label_def is_ascii_alphanumeric_def byte_of_def starts_with_def ends_in_def)
  moreover have "trim_slashes ''g.erpc'' = ''g.erpc''" by (simp add: trim_slashes_def)
  ultimately show ?thesis by (simp add: endpoint_ok_def)
qed

lemma sample_problems: "problems sample_manifest = []"
proof -
  have slugs: "is_slug ''bot'' 32" "is_slug ''main'' 16"
    by (simp_all add: is_slug_def is_lower_def is_digit_def byte_of_def ends_in_def starts_with_def)
  have files: "file_problems [] [''a/b''] = []" by code_simp
  have line: "line_problems [] [sample_line] = []"
    using sample_endpoint by (simp add: sample_line_def is_digit_def byte_of_def)
  show ?thesis
    using slugs files line sample_names
    by (simp add: problems_def sample_manifest_def sample_deploy_env_def build_problems_def build_default_def default_command_def run_problems_def
        var_problems_def secret_problems_def one_env_problems_def env_problems_def allow_problems_def line_vars_def sample_line_def line_setting_def)
qed

lemma sample_parsed: "manifest_parse (\<lambda>_. Some sample_manifest) [] = Ok sample_manifest"
  by (simp add: manifest_parse_def sample_problems)

lemma sample_named: "map_of (mf_env sample_manifest) ''main'' = Some sample_deploy_env"
  by (simp add: sample_manifest_def)

definition sample_launched :: launch where
  "sample_launched = (case launch_for_app sample_manifest sample_deploy_env of Inr l \<Rightarrow> l | Inl _ \<Rightarrow> undefined)"

lemma sample_files: "ru_files (mf_run sample_manifest) = [''a/b'']"
  by (simp add: sample_manifest_def)

lemma sample_launched_Ok: "launch_for_app sample_manifest sample_deploy_env = Ok sample_launched"
  by (simp add: sample_launched_def launch_for_app_def sample_manifest_def)

lemma sample_release: "release_id_new ''20261029T120000Z-1a2b3c4d'' = Some ''20261029T120000Z-1a2b3c4d''"
  by code_simp

theorem an_accepted_manifest_is_taken_witness:
  "is_unit_id (unit_id_of sample_manifest ''main'') \<and>
   launch_parse (\<lambda>_. Some sample_launched) [] = Ok sample_launched \<and>
   hm_get (staged_files (bin_of sample_manifest, ''elf'') ''{}'' [] [(''a/b'', ''own'')]) ''launch.json'' = Some []"
  using an_accepted_manifest_is_taken [OF sample_parsed sample_named sample_release,
      of "\<lambda>_. Some sample_launched" "\<lambda>_. []" "[(''a/b'', ''own'')]" "''elf''" "''{}''"] sample_launched_Ok
  by (simp add: sample_files Let_def)

definition sample_held :: supervisor where "sample_held = (sample_supervised True)\<lparr>su_secrets := [(''KEY'', ''s3'')]\<rparr>"

lemma sample_held_secrets: "map fst (su_secrets sample_held) = map fst (mf_secrets sample_manifest)"
  by (simp add: sample_held_def sample_manifest_def)

theorem each_setting_reaches_the_app_witness:
  "hm_get (app_env sample_held sample_launched) ''GRPC_ENDPOINT'' = Some ''https://g.erpc''"
proof -
  have "check_env_name ''GRPC_ENDPOINT'' = None" using line_setting_ok [of LineGrpc] by (simp add: line_setting_def)
  then show ?thesis
    using each_setting_reaches_the_app [OF sample_parsed sample_named sample_launched_Ok sample_held_secrets, of "''GRPC_ENDPOINT''"]
    by (simp add: sample_held_def sample_deploy_env_def line_vars_def sample_line_def line_setting_def line_is_pending_def)
qed

end
