(* ===== verification/Spec2Isabelle.thy ===== *)
theory Spec2Isabelle
  imports Auth_Properties Access_Properties Op_Ref Bot_Properties Restore_Properties
    Top_Up_Properties Hourly Credit_Wallet Node_Chain Worker_Server Worker_Firewall Worker_Release
    Worker_Supervisor Remote_Command Conversation_Properties Command_Properties
    Manifest_Properties
begin

text \<open>
  A model of the erpc command line (the crates under \<open>src/crates\<close>) and of what makes it correct.

  \<^bold>\<open>The program and its parts.\<close> erpc signs a person in and keeps the session (erpc-auth), guards secrets that
  live in 1Password (erpc-secret), runs node commands on many chains (erpc, erpc-core), logs in to nodes over
  OpenSSH (erpc-ssh), deploys workers to servers, where an agent runs and guards them (erpc-worker,
  erpc-worker-agent), carries an assistant that can buy credit and start paid products (erpc-ai, erpc-api,
  erpc-wallet), and ships a trading bot for pump.fun pools as a worker template
  (\<open>erpc-worker/templates/solana/pumpfun\<close>). The parts meet where the theories import each other: a session is
  read from a store and parked in a file while it is refreshed; a payment passes the gate before its key is
  read; a release that erpc sends is checked again by the agent that runs it, under the names both sides
  agree on.

  \<^bold>\<open>The library.\<close> \<open>Prelude\<close> has results as sums (\<open>Ok\<close>, \<open>Err\<close>, \<open>and_then\<close> for the question mark), saturating and
  wrapping integers, durations, hash maps as association lists, and the string functions of Rust's standard
  library the sources call; \<open>Bytes\<close> little-endian integers and slices; \<open>Floats\<close> the \<open>f64\<close> operations of the bot's
  thresholds; \<open>Texts\<close> lines, affixes and the characters of UTF-8, with \<open>String::from_utf8_lossy\<close>; \<open>Json\<close> the values of
  serde_json; \<open>State_Machine\<close> the locales for invariants over runs.
  \<open>Store\<close> states the contract of a credential store as a locale, \<open>File_Store\<close> discharges it for the file store,
  and \<open>Session_Lemmas\<close> proves the session functions inside it.

  \<^bold>\<open>Signing in (erpc-auth).\<close> \<open>Credential\<close>, \<open>Store\<close>, \<open>File_Store\<close>, \<open>Parked\<close>, \<open>Session\<close>, \<open>Device_Flow\<close> and \<open>Allowlist\<close>
  follow \<open>credential.rs\<close>, \<open>store\<close>, \<open>lock.rs\<close>, \<open>session.rs\<close>, \<open>device_flow.rs\<close> and \<open>allowlist.rs\<close>: the machine is the
  state of the store, of the parked file and of the faults still to come, and every function takes and returns
  it. \<open>Session_Protocol\<close> runs several processes on one machine, stopped at any point, against an issuer that
  spends each refresh token once and whose answers may be lost on the way; \<open>Rotation\<close> is the registry of rotations of
  one process. \<open>Auth_Properties\<close> shows that a spent token is shown again only where its successor never reached the
  machine or a sign-out had asked for its revocation, that a rotation survives a store that fails, and that a sign-out
  leaves nothing. The loop of the device grant has fuel, \<open>grant_fuel\<close>: one round for each shortest wait in the
  code's lifetime, and one more, which \<open>Access_Properties\<close> proves enough for any issuer. Its requests take time, up to
  \<open>request_timeout\<close>, which the code does not charge to the lifetime; the bound on the time that passes counts them.

  \<^bold>\<open>Secrets (erpc-secret) and node commands.\<close> \<open>Gate\<close> is the decision table of \<open>gate.rs\<close> with its reading of the
  environment, against the rows of the design; \<open>Op_Ref\<close> the form of references. \<open>Node_Chain\<close> is which chain a
  command means and the guard on production networks (\<open>chain.rs\<close>, \<open>tree.rs\<close>), with the two verbs that run before it.

  \<^bold>\<open>The trading bot.\<close> \<open>Amm\<close> decodes pools and makes swaps (\<open>amm.rs\<close>), \<open>Creators\<close>, \<open>Timing\<close> and \<open>Bot_State\<close> hold the
  shared state (\<open>creators.rs\<close>, \<open>timing.rs\<close>, \<open>state.rs\<close>), \<open>Engine\<close>, \<open>Buy_Cycle\<close>, \<open>Sell_Cycle\<close> and \<open>Watching\<close> are
  \<open>engine.rs\<close>, \<open>Stream\<close> the shreds and Geyser updates, \<open>Trace\<close> the tracing of funders. Each critical section of
  the bot's lock is one step; any number of tasks take steps in any order, and the RPC answers as it likes.
  \<open>Sell_Safety\<close> and \<open>Bot_Safety\<close> are the invariants of those runs; \<open>Sell_Properties\<close>, \<open>Bot_Properties\<close>,
  \<open>Engine_Properties\<close>, \<open>Stream_Properties\<close> and \<open>Restore_Properties\<close> draw from them that no position is sold
  twice and no token bought twice, the limits on what is open, what a buy signs, and what is burned. The bounds
  are the code's: 360 polls after a buy, ten tries of a read, and each loop over a list is recursion on it.

  \<^bold>\<open>Money and the assistant.\<close> \<open>Eurc\<close> is the one payment erpc signs (\<open>eurc.rs\<close>, \<open>evm.rs\<close>), \<open>Credit_Wallet\<close> the wallet
  that pays (\<open>credit_wallet.rs\<close>, \<open>config.rs\<close>; reads of the configuration may fail, and one process sets it up), \<open>Top_Up\<close> and \<open>Hourly\<close> the tools that spend (\<open>actions.rs\<close>,
  \<open>gasless.rs\<close>, \<open>hourly.rs\<close>). Each keeps a log of what it asked, signed and sent, newest first, and
  \<open>Top_Up_Properties\<close> states over every log that only what was agreed to is paid and that the outcome is told
  truly, and that no session is left open. A transfer is followed for at most 20 rounds, as in the code. \<open>Chat_Answer\<close> is one request to ERPC AI and
  its answer (\<open>ai.rs\<close>): the event stream, cut anywhere, the blocks it builds and the errors it tells of.
  \<open>Conversation\<close> is the session around it (\<open>session.rs\<close>, \<open>compact.rs\<close>, \<open>policy.rs\<close>): the rounds of a turn, tools,
  interruptions, summaries; service, tools and person answer as they like, a turn has at most 24 rounds, and the
  asking again within one ends by a measure, since each size of model is left out once at most.
  \<open>Conversation_Properties\<close> shows that each request is a whole conversation and what a turn leaves behind.
  \<open>Commands\<close> is the tool that runs commands on the person's computer (\<open>commands.rs\<close>): what only looks, what is shown,
  what was allowed, and the keys kept out of the output; \<open>Command_Properties\<close> shows that nothing else runs unasked,
  that a yes is to one command, and what is left of an output with keys in it.

  \<^bold>\<open>Workers.\<close> \<open>Worker_Server\<close> has the names, release records, launch files, backup credentials and firewall table
  both sides agree on (\<open>server.rs\<close>, \<open>release.rs\<close>). \<open>Worker_Firewall\<close> is \<open>firewall.rs\<close> of the agent: verbs, the
  rollback timer and its shell, reboots and verbs that die as one step relation, which refines the life of a change:
  made, then kept, undone or set aside. \<open>Worker_Release\<close> is which
  release runs (\<open>ctl.rs\<close>), with links, listings and removals that may fail and a log of what the agent was asked. \<open>Worker_Supervisor\<close> is the unit process
  (\<open>supervise.rs\<close>): requests, ticks, ends of the app and restarts of the agent in any order, with a log of what
  was handed over and started.

  \<open>Net\<close> reads, shows and matches addresses and networks as the standard library and \<open>net.rs\<close> do; \<open>Manifest\<close> is
  \<open>erpc.toml\<close> (\<open>manifest.rs\<close>), with every problem and warning and the launch file made of it (\<open>server.rs\<close>).
  \<open>Manifest_Properties\<close> shows that what is accepted there is taken by the deploy and the agent, and that each setting
  reaches the app as it is written.

  \<^bold>\<open>Remote hosts (erpc-ssh).\<close> \<open>Host_Key\<close> parses and prints pinned keys, base64 included (\<open>hostkey.rs\<close>); \<open>Ssh_Session\<close>
  writes a configuration, checks what OpenSSH makes of it and opens sessions (\<open>config.rs\<close>, \<open>exec.rs\<close>,
  \<open>first_login.rs\<close>); \<open>Remote_Command\<close> is what may run on a node and the line that is sent (\<open>command.rs\<close>,
  \<open>worker.rs\<close>, \<open>firewall.rs\<close>), proved to be read by a shell as it was meant.

  \<^bold>\<open>Assumptions.\<close> Third-party code is a parameter: TOML, SHA-256, Keccak-256, secp256k1, the url crate, base58, and
  serde's reading and writing of text. What the world answers (the issuer, user-api, RPC nodes, \<open>op\<close>, the
  agent, OpenSSH, the person) is an input of each function, and is adversarial unless a theorem says otherwise.
  The state directory and the agent's own files can be read and renamed; writes may fail. A hash of a token
  stands for it only as far as no two collide, which the theorems that need it say. A string is its bytes, and
  white space is ASCII white space, except in \<open>Commands\<close>, which has all of Rust's. Shells are any function that splits words as POSIX has it.

  \<^bold>\<open>Not modelled.\<close> Networking, Redis, prompts and terminal drawing, texts in four languages, the scripts that run on
  nodes and the parsing of what they print, systemd units, Ansible plays and inventories, TOML templates and
  the edits of TOML files, the assistant's tools for notes and tool servers, Windows, and the crates that only hold a name:
  these are input and output, data, or the work of libraries and programs the sources call. Timing, memory and
  permission bits of files are left out of every model.
\<close>

end
